(* ===== verification/Ruliad_Prelude.thy ===== *)
theory Ruliad_Prelude
  imports Main "HOL-Library.Word" "HOL-Library.Sublist"
begin

text \<open>
  What the components share: the machine integer types of the Rust code, the pieces of the
  Rust standard library the code calls (\<open>saturating_add\<close>, decimal \<open>Display\<close> and
  \<open>str::parse::<usize>\<close>, \<open>str::split\<close>, \<open>join\<close>, \<open>str::trim\<close>), and the generic
  lemmas about them. A Rust \<open>String\<close> is a \<^typ>\<open>string\<close>: its list of UTF-8 bytes.
  A \<open>usize\<close> is a \<^typ>\<open>nat\<close> of a 64-bit target; where the code saturates or checks
  for overflow the bound is written out. \<open>Result<T, E>\<close> is the sum \<open>'e + 'a\<close> with
  \<^const>\<open>Inl\<close> for \<open>Err\<close>.
\<close>

type_synonym u8 = "8 word"
type_synonym u32 = "32 word"
type_synonym u64 = "64 word"

named_theorems ruliad_simps "defining equations used to evaluate the model"

section \<open>Saturating arithmetic on usize\<close>

definition usize_max :: nat where
  "usize_max = 2 ^ 64 - 1"

definition sat_add :: "nat \<Rightarrow> nat \<Rightarrow> nat" where
  "sat_add a b = min usize_max (a + b)"

definition sat_mul :: "nat \<Rightarrow> nat \<Rightarrow> nat" where
  "sat_mul a b = min usize_max (a * b)"

lemma sat_add_le [simp]: "sat_add a b \<le> a + b"
  by (simp add: sat_add_def)

lemma sat_add_bound [simp]: "sat_add a b \<le> usize_max"
  by (simp add: sat_add_def)

lemma sat_add_exact: "a + b \<le> usize_max \<Longrightarrow> sat_add a b = a + b"
  by (simp add: sat_add_def)

lemma sat_add_exact_if: "sat_add a b < usize_max \<Longrightarrow> sat_add a b = a + b"
  by (auto simp: sat_add_def min_def split: if_splits)

lemma sat_add_mono: "a \<le> a' \<Longrightarrow> b \<le> b' \<Longrightarrow> sat_add a b \<le> sat_add a' b'"
  by (auto simp: sat_add_def)

lemma foldl_sat_add: "n \<le> usize_max \<Longrightarrow> foldl sat_add n xs = min usize_max (n + sum_list xs)"
proof (induction xs arbitrary: n)
  case Nil
  then show ?case by simp
next
  case (Cons x xs)
  have "foldl sat_add n (x # xs) = min usize_max (sat_add n x + sum_list xs)"
    using Cons.IH [of "sat_add n x"] by simp
  moreover have "min usize_max (sat_add n x + sum_list xs) = min usize_max (n + (x + sum_list xs))"
    by (simp add: sat_add_def)
  ultimately show ?case by simp
qed

text \<open>\<open>usize::ilog2\<close>, which the code calls on positive values only.\<close>

fun ilog2 :: "nat \<Rightarrow> nat" where
  "ilog2 n = (if n < 2 then 0 else Suc (ilog2 (n div 2)))"

declare ilog2.simps [simp del]

section \<open>Results\<close>

definition result_bind :: "'e + 'a \<Rightarrow> ('a \<Rightarrow> 'e + 'b) \<Rightarrow> 'e + 'b" where
  "result_bind r f = (case r of Inl e \<Rightarrow> Inl e | Inr x \<Rightarrow> f x)"

definition map_err :: "('e \<Rightarrow> 'f) \<Rightarrow> 'e + 'a \<Rightarrow> 'f + 'a" where
  "map_err f r = (case r of Inl e \<Rightarrow> Inl (f e) | Inr x \<Rightarrow> Inr x)"

definition is_ok :: "'e + 'a \<Rightarrow> bool" where
  "is_ok r = (case r of Inl _ \<Rightarrow> False | Inr _ \<Rightarrow> True)"

lemma result_bind_simps [simp]:
  "result_bind (Inl e) f = Inl e"
  "result_bind (Inr x) f = f x"
  by (simp_all add: result_bind_def)

lemma result_bind_Inr: "result_bind r f = Inr y \<longleftrightarrow> (\<exists>x. r = Inr x \<and> f x = Inr y)"
  by (auto simp: result_bind_def split: sum.splits)

lemma map_err_simps [simp]:
  "map_err f (Inl e) = Inl (f e)"
  "map_err f (Inr x) = Inr x"
  by (simp_all add: map_err_def)

lemma map_err_Inr [simp]: "map_err f r = Inr x \<longleftrightarrow> r = Inr x"
  by (auto simp: map_err_def split: sum.splits)

lemma is_ok_simps [simp]: "is_ok (Inr x)" "\<not> is_ok (Inl e)"
  by (simp_all add: is_ok_def)

lemma is_ok_iff: "is_ok r \<longleftrightarrow> (\<exists>x. r = Inr x)"
  by (auto simp: is_ok_def split: sum.splits)

text \<open>\<open>iter().map(f).collect::<Result<Vec<_>, _>>()\<close>: the first error wins.\<close>

fun try_map :: "('a \<Rightarrow> 'e + 'b) \<Rightarrow> 'a list \<Rightarrow> 'e + 'b list" where
  "try_map f [] = Inr []"
| "try_map f (x # xs) = result_bind (f x) (\<lambda>y. result_bind (try_map f xs) (\<lambda>ys. Inr (y # ys)))"

lemma try_map_Inr: "(\<And>x. x \<in> set xs \<Longrightarrow> f x = Inr (g x)) \<Longrightarrow> try_map f xs = Inr (map g xs)"
  by (induction xs) auto

lemma try_map_InrD: "try_map f xs = Inr ys \<Longrightarrow> list_all2 (\<lambda>x y. f x = Inr y) xs ys"
  by (induction xs arbitrary: ys) (auto simp: result_bind_Inr)

lemma those_map_Some: "(\<And>x. x \<in> set xs \<Longrightarrow> f x = Some (g x)) \<Longrightarrow> those (map f xs) = Some (map g xs)"
  by (induction xs) auto

lemma those_Some_iff: "those xs = Some ys \<longleftrightarrow> xs = map Some ys"
  by (induction xs arbitrary: ys) (auto split: option.splits simp: Cons_eq_map_conv)

lemma those_None_iff: "those xs = None \<longleftrightarrow> None \<in> set xs"
  by (induction xs) (auto split: option.splits)

lemma those_defined: "(\<exists>ys. those xs = Some ys) \<longleftrightarrow> None \<notin> set xs"
  using those_None_iff [of xs] by (cases "those xs") auto

text \<open>
  A call that may return, fail with an \<open>anyhow\<close> message, or panic (an index out of bounds, an
  \<open>expect\<close> on \<open>None\<close>, an \<open>unreachable!\<close>).
\<close>

datatype 'a outcome = Panicked | Failed string | Returned 'a

fun outcome_bind :: "'a outcome \<Rightarrow> ('a \<Rightarrow> 'b outcome) \<Rightarrow> 'b outcome" where
  "outcome_bind Panicked f = Panicked"
| "outcome_bind (Failed e) f = Failed e"
| "outcome_bind (Returned x) f = f x"

lemma outcome_bind_Returned:
  "outcome_bind r f = Returned y \<longleftrightarrow> (\<exists>x. r = Returned x \<and> f x = Returned y)"
  by (cases r) auto

definition expect :: "'a option \<Rightarrow> 'a outcome" where
  "expect r = (case r of None \<Rightarrow> Panicked | Some x \<Rightarrow> Returned x)"

definition ok_or :: "string \<Rightarrow> 'a option \<Rightarrow> 'a outcome" where
  "ok_or message r = (case r of None \<Rightarrow> Failed message | Some x \<Rightarrow> Returned x)"

lemma expect_simps [simp]: "expect None = Panicked" "expect (Some x) = Returned x"
  by (simp_all add: expect_def)

lemma ok_or_simps [simp]: "ok_or m None = Failed m" "ok_or m (Some x) = Returned x"
  by (simp_all add: ok_or_def)

text \<open>\<open>slice::get\<close>, and with \<^const>\<open>expect\<close> an index expression.\<close>

definition nth_opt :: "'a list \<Rightarrow> nat \<Rightarrow> 'a option" where
  "nth_opt xs i = (if i < length xs then Some (xs ! i) else None)"

lemma nth_opt_Some [simp]: "i < length xs \<Longrightarrow> nth_opt xs i = Some (xs ! i)"
  by (simp add: nth_opt_def)

lemma nth_opt_eq_Some: "nth_opt xs i = Some x \<longleftrightarrow> i < length xs \<and> xs ! i = x"
  by (simp add: nth_opt_def)

lemma nth_opt_eq_None: "nth_opt xs i = None \<longleftrightarrow> length xs \<le> i"
  by (simp add: nth_opt_def not_less)

text \<open>A loop whose body returns \<open>false\<close> from the function, goes on, or panics.\<close>

fun check_loop :: "('a \<Rightarrow> bool option) \<Rightarrow> 'a list \<Rightarrow> bool option" where
  "check_loop body [] = Some True"
| "check_loop body (x # xs) =
     (case body x of None \<Rightarrow> None | Some b \<Rightarrow> if b then check_loop body xs else Some False)"

lemma check_loop_total:
  "(\<And>x. x \<in> set xs \<Longrightarrow> body x = Some (p x)) \<Longrightarrow> check_loop body xs = Some (list_all p xs)"
  by (induction xs) auto

lemma list_all_enumerate: "list_all p (List.enumerate 0 xs) \<longleftrightarrow> (\<forall>i<length xs. p (i, xs ! i))"
  by (auto simp: list_all_length nth_enumerate_eq)

section \<open>Decimal numbers\<close>

text \<open>\<open>Display\<close> for an unsigned integer, and \<open>str::parse::<usize>\<close>: an optional
  leading plus sign, at least one digit, and an error as soon as the value leaves 64 bits.\<close>

definition digit_char :: "nat \<Rightarrow> char" where
  "digit_char d = char_of (48 + d)"

definition char_digit :: "char \<Rightarrow> nat option" where
  "char_digit c = (let n = (of_char c :: nat) in if 48 \<le> n \<and> n \<le> 57 then Some (n - 48) else None)"

fun show_nat :: "nat \<Rightarrow> string" where
  "show_nat n = (if n < 10 then [digit_char n] else show_nat (n div 10) @ [digit_char (n mod 10)])"

declare show_nat.simps [simp del]

fun parse_digits :: "nat \<Rightarrow> string \<Rightarrow> nat option" where
  "parse_digits acc [] = Some acc"
| "parse_digits acc (c # cs) =
     (case char_digit c of
        None \<Rightarrow> None
      | Some d \<Rightarrow>
          if usize_max < acc * 10 then None
          else if usize_max < acc * 10 + d then None
          else parse_digits (acc * 10 + d) cs)"

definition parse_usize :: "string \<Rightarrow> nat option" where
  "parse_usize s =
     (case s of
        [] \<Rightarrow> None
      | [c] \<Rightarrow> if c = CHR ''+'' \<or> c = CHR ''-'' then None else parse_digits 0 [c]
      | c # cs \<Rightarrow> if c = CHR ''+'' then parse_digits 0 cs else parse_digits 0 (c # cs))"

lemma char_digit_digit_char [simp]: "d < 10 \<Longrightarrow> char_digit (digit_char d) = Some d"
  by (simp add: char_digit_def digit_char_def of_char_of)

lemma digit_char_code: "d < 10 \<Longrightarrow> of_char (digit_char d) = 48 + d"
  by (simp add: digit_char_def of_char_of)

lemma char_digit_Some_code: "char_digit c = Some d \<Longrightarrow> 48 \<le> (of_char c :: nat) \<and> (of_char c :: nat) \<le> 57 \<and> d < 10"
  by (auto simp: char_digit_def Let_def split: if_splits)

lemma show_nat_nonempty [simp]: "show_nat n \<noteq> []"
  by (subst show_nat.simps) simp

lemma show_nat_digits: "c \<in> set (show_nat n) \<Longrightarrow> \<exists>d<10. c = digit_char d"
proof (induction n rule: show_nat.induct)
  case (1 n)
  then show ?case
    by (subst (asm) show_nat.simps) (auto split: if_splits intro: exI [of _ "n mod 10"])
qed

lemma parse_digits_append:
  "parse_digits acc (xs @ ys) = Option.bind (parse_digits acc xs) (\<lambda>a. parse_digits a ys)"
  by (induction acc xs rule: parse_digits.induct) (auto split: option.splits)

lemma parse_digits_show_nat: "n \<le> usize_max \<Longrightarrow> parse_digits 0 (show_nat n) = Some n"
proof (induction n rule: show_nat.induct)
  case (1 n)
  show ?case
  proof (cases "n < 10")
    case True
    with 1(2) show ?thesis by (subst show_nat.simps) simp
  next
    case False
    with 1 have "parse_digits 0 (show_nat (n div 10)) = Some (n div 10)" by simp
    with False 1(2) show ?thesis
      by (subst show_nat.simps) (simp add: parse_digits_append not_less)
  qed
qed

lemma digit_char_neq:
  assumes "d < 10" and "\<not> (48 \<le> (of_char c :: nat) \<and> (of_char c :: nat) \<le> 57)"
  shows "digit_char d \<noteq> c"
  using assms digit_char_code [OF assms(1)] by auto

lemma show_nat_notin:
  "\<not> (48 \<le> (of_char c :: nat) \<and> (of_char c :: nat) \<le> 57) \<Longrightarrow> c \<notin> set (show_nat n)"
  using show_nat_digits digit_char_neq by blast

lemma parse_usize_show_nat [simp]:
  assumes "n \<le> usize_max"
  shows "parse_usize (show_nat n) = Some n"
proof -
  have "CHR ''+'' \<notin> set (show_nat n)" "CHR ''-'' \<notin> set (show_nat n)"
    by (rule show_nat_notin; simp)+
  then show ?thesis
    using parse_digits_show_nat [OF assms] show_nat_nonempty [of n]
    by (auto simp: parse_usize_def simp del: show_nat_nonempty split: list.splits)
qed

lemma show_nat_inj: "m \<le> usize_max \<Longrightarrow> n \<le> usize_max \<Longrightarrow> show_nat m = show_nat n \<longleftrightarrow> m = n"
  by (metis option.inject parse_usize_show_nat)

lemma parse_digits_bound: "parse_digits acc s = Some n \<Longrightarrow> acc \<le> usize_max \<Longrightarrow> n \<le> usize_max"
  by (induction acc s rule: parse_digits.induct) (auto split: option.splits if_splits)

lemma parse_usize_bound: "parse_usize s = Some n \<Longrightarrow> n \<le> usize_max"
  by (auto simp: parse_usize_def simp del: parse_digits.simps
      dest: parse_digits_bound [of 0, simplified] split: list.splits if_splits)

section \<open>Splitting and joining\<close>

fun split_on :: "char \<Rightarrow> string \<Rightarrow> string list" where
  "split_on d [] = [[]]"
| "split_on d (c # cs) =
     (if c = d then [] # split_on d cs
      else (case split_on d cs of [] \<Rightarrow> [[c]] | w # ws \<Rightarrow> (c # w) # ws))"

fun join_with :: "string \<Rightarrow> string list \<Rightarrow> string" where
  "join_with sep [] = []"
| "join_with sep [w] = w"
| "join_with sep (w # v # ws) = w @ sep @ join_with sep (v # ws)"

lemma split_on_nonempty [simp]: "split_on d s \<noteq> []"
  by (induction s) (auto split: list.splits)

lemma split_on_pure: "d \<notin> set s \<Longrightarrow> split_on d s = [s]"
  by (induction s) auto

lemma split_on_append_sep: "d \<notin> set w \<Longrightarrow> split_on d (w @ d # s) = w # split_on d s"
  by (induction w) auto

lemma split_on_join:
  "ws \<noteq> [] \<Longrightarrow> \<forall>w \<in> set ws. d \<notin> set w \<Longrightarrow> split_on d (join_with [d] ws) = ws"
  by (induction "[d]" ws rule: join_with.induct) (auto simp: split_on_pure split_on_append_sep)

lemma join_split_on: "join_with [d] (split_on d s) = s"
proof (induction s)
  case Nil
  then show ?case by simp
next
  case (Cons c cs)
  obtain w ws where "split_on d cs = w # ws"
    using split_on_nonempty [of d cs] by (cases "split_on d cs") auto
  with Cons show ?case by (cases ws) auto
qed

lemma set_join_with: "set (join_with sep ws) \<subseteq> set sep \<union> \<Union> (set ` set ws)"
  by (induction sep ws rule: join_with.induct) auto

lemma join_with_Nil_iff: "\<forall>w \<in> set ws. w \<noteq> [] \<Longrightarrow> join_with sep ws = [] \<longleftrightarrow> ws = []"
  by (induction sep ws rule: join_with.induct) auto

lemma split_on_notin: "w \<in> set (split_on d s) \<Longrightarrow> d \<notin> set w"
  by (induction s arbitrary: w) (auto split: if_splits list.splits)

lemma split_on_subset: "w \<in> set (split_on d s) \<Longrightarrow> set w \<subseteq> set s"
proof (induction s arbitrary: w)
  case Nil
  then show ?case by simp
next
  case (Cons c cs)
  obtain v vs where v: "split_on d cs = v # vs"
    using split_on_nonempty [of d cs] by (cases "split_on d cs") auto
  then have "set v \<subseteq> set cs" "\<forall>w\<in>set vs. set w \<subseteq> set cs" using Cons.IH by simp_all
  with Cons.prems v show ?case by (auto split: if_splits)
qed

section \<open>Codecs\<close>

text \<open>
  The contract of a text form: what is encodable is read back as it was. In a canonical codec the
  reader returns nothing but encodable values, so that writing what was read and reading it again
  changes nothing.
\<close>

locale codec =
  fixes encode :: "'a \<Rightarrow> 'b"
    and decode :: "'b \<Rightarrow> 'a option"
    and encodable :: "'a \<Rightarrow> bool"
  assumes decode_encode: "encodable x \<Longrightarrow> decode (encode x) = Some x"
begin

lemma encode_inj: "encodable x \<Longrightarrow> encodable y \<Longrightarrow> encode x = encode y \<Longrightarrow> x = y"
  by (metis decode_encode option.inject)

lemma those_decode_encode:
  "list_all encodable xs \<Longrightarrow> those (map decode (map encode xs)) = Some xs"
  by (induction xs) (auto simp: decode_encode)

end

locale canonical_codec = codec +
  assumes decoded_encodable: "decode s = Some x \<Longrightarrow> encodable x"
begin

lemma decode_stable: "decode s = Some x \<Longrightarrow> decode (encode x) = Some x"
  by (rule decode_encode) (rule decoded_encodable)

lemma decoded_iff_encodable: "(\<exists>s. decode s = Some x) \<longleftrightarrow> encodable x"
  using decode_encode decoded_encodable by blast

end

section \<open>Stripping prefixes and white space\<close>

definition strip_prefix :: "string \<Rightarrow> string \<Rightarrow> string option" where
  "strip_prefix p s = (if take (length p) s = p then Some (drop (length p) s) else None)"

lemma strip_prefix_append [simp]: "strip_prefix p (p @ s) = Some s"
  by (simp add: strip_prefix_def)

lemma strip_prefix_SomeD: "strip_prefix p s = Some r \<Longrightarrow> s = p @ r"
  by (metis append_take_drop_id option.distinct(1) option.inject strip_prefix_def)

text \<open>The \<open>White_Space\<close> code points of Unicode, by their UTF-8 bytes: \<open>str::trim\<close>
  drops them at both ends.\<close>

definition byte_string :: "nat list \<Rightarrow> string" where
  "byte_string ns = map char_of ns"

definition white_space_encodings :: "string list" where
  "white_space_encodings =
     map byte_string
       ([[9], [10], [11], [12], [13], [32], [194, 133], [194, 160], [225, 154, 128],
         [226, 128, 168], [226, 128, 169], [226, 128, 175], [226, 129, 159], [227, 128, 128]]
        @ map (\<lambda>b. [226, 128, b]) [128..<139])"

fun strip_first :: "string list \<Rightarrow> string \<Rightarrow> string option" where
  "strip_first [] s = None"
| "strip_first (p # ps) s =
     (case strip_prefix p s of Some r \<Rightarrow> (if length r < length s then Some r else strip_first ps s)
                             | None \<Rightarrow> strip_first ps s)"

lemma strip_first_shorter: "strip_first ps s = Some r \<Longrightarrow> length r < length s"
  by (induction ps s rule: strip_first.induct) (auto split: option.splits if_splits)

function trim_with :: "string list \<Rightarrow> string \<Rightarrow> string" where
  "trim_with ps s = (case strip_first ps s of None \<Rightarrow> s | Some r \<Rightarrow> trim_with ps r)"
  by pat_completeness auto
termination
  by (relation "measure (\<lambda>(ps, s). length s)") (auto dest: strip_first_shorter)

declare trim_with.simps [simp del]

definition str_trim :: "string \<Rightarrow> string" where
  "str_trim s =
     rev (trim_with (map rev white_space_encodings) (rev (trim_with white_space_encodings s)))"

lemma strip_first_None:
  assumes "\<And>p. p \<in> set ps \<Longrightarrow> p \<noteq> []" and "\<And>p. p \<in> set ps \<Longrightarrow> hd p \<noteq> hd s" and "s \<noteq> []"
  shows "strip_first ps s = None"
  using assms
proof (induction ps)
  case Nil
  then show ?case by simp
next
  case (Cons p ps)
  have "strip_prefix p s = None"
    using Cons.prems(1) [of p] Cons.prems(2) [of p] Cons.prems(3)
    by (cases p; cases s) (auto simp: strip_prefix_def)
  with Cons show ?case by simp
qed

lemma strip_first_Nil [simp]: "strip_first ps [] = None"
  by (induction ps) (auto split: option.splits)

definition graphic :: "char \<Rightarrow> bool" where
  "graphic c = (let n = (of_char c :: nat) in 33 \<le> n \<and> n \<le> 126)"

lemma white_space_encodings_hd:
  "list_all (\<lambda>p. p \<noteq> [] \<and> \<not> graphic (hd p) \<and> \<not> graphic (last p)) white_space_encodings"
  by (simp add: white_space_encodings_def byte_string_def upt_rec graphic_def of_char_of)

lemma trim_with_fix: "strip_first ps s = None \<Longrightarrow> trim_with ps s = s"
  by (subst trim_with.simps) simp

lemma trim_with_graphic:
  assumes "\<And>p. p \<in> set ps \<Longrightarrow> p \<noteq> [] \<and> \<not> graphic (hd p)" and "s \<noteq> [] \<Longrightarrow> graphic (hd s)"
  shows "trim_with ps s = s"
proof (rule trim_with_fix)
  show "strip_first ps s = None"
  proof (cases "s = []")
    case False
    then show ?thesis using assms by (intro strip_first_None) metis+
  qed simp
qed

lemma str_trim_graphic:
  assumes "s \<noteq> []" and "graphic (hd s)" and "graphic (last s)"
  shows "str_trim s = s"
proof -
  have ends: "\<And>p. p \<in> set white_space_encodings \<Longrightarrow> p \<noteq> [] \<and> \<not> graphic (hd p)"
    "\<And>p. p \<in> set (map rev white_space_encodings) \<Longrightarrow> p \<noteq> [] \<and> \<not> graphic (hd p)"
    using white_space_encodings_hd by (auto simp: list_all_iff hd_rev)
  have "trim_with white_space_encodings s = s"
    using ends(1) assms(2) by (rule trim_with_graphic)
  moreover have "trim_with (map rev white_space_encodings) (rev s) = rev s"
    by (rule trim_with_graphic [OF ends(2)]) (simp_all add: assms hd_rev)
  ultimately show ?thesis by (simp add: str_trim_def)
qed

lemma str_trim_Nil [simp]: "str_trim [] = []"
  by (simp add: str_trim_def trim_with_fix)

lemma str_trim_graphic_all: "list_all graphic s \<Longrightarrow> str_trim s = s"
  by (cases "s = []") (auto simp: list_all_iff intro!: str_trim_graphic)

lemma digit_char_graphic [simp]: "d < 10 \<Longrightarrow> graphic (digit_char d)"
  by (simp add: graphic_def digit_char_code)

lemma show_nat_graphic: "list_all graphic (show_nat n)"
  by (auto simp: list_all_iff dest!: show_nat_digits)

text \<open>\<open>s.chars().any(char::is_whitespace)\<close>.\<close>

fun has_white_space :: "string \<Rightarrow> bool" where
  "has_white_space [] = False"
| "has_white_space (c # cs) = (strip_first white_space_encodings (c # cs) \<noteq> None \<or> has_white_space cs)"

lemma graphic_no_white_space: "list_all graphic s \<Longrightarrow> \<not> has_white_space s"
proof (induction s)
  case (Cons c cs)
  then have "strip_first white_space_encodings (c # cs) = None"
    using white_space_encodings_hd by (intro strip_first_None) (auto simp: list_all_iff)
  with Cons show ?case by simp
qed simp

section \<open>Residues\<close>

text \<open>Below a multiple of \<open>n\<close> every remainder occurs equally often.\<close>

lemma residue_class:
  fixes n :: nat
  assumes "r < n"
  shows "card {v. v < m * n \<and> v mod n = r} = m"
proof -
  have "{v. v < m * n \<and> v mod n = r} = (\<lambda>q. q * n + r) ` {..<m}"
  proof (intro equalityI subsetI)
    fix v assume v: "v \<in> {v. v < m * n \<and> v mod n = r}"
    then have "v = v div n * n + r" by (metis (mono_tags) div_mult_mod_eq mem_Collect_eq)
    moreover have "v div n < m" using v by (simp add: less_mult_imp_div_less)
    ultimately show "v \<in> (\<lambda>q. q * n + r) ` {..<m}" by blast
  next
    fix v assume "v \<in> (\<lambda>q. q * n + r) ` {..<m}"
    then obtain q where q: "q < m" "v = q * n + r" by blast
    then have "Suc q * n \<le> m * n" by (intro mult_le_mono1) simp
    then show "v \<in> {v. v < m * n \<and> v mod n = r}" using q assms by simp
  qed
  moreover have "inj_on (\<lambda>q. q * n + r) {..<m}" using assms by (auto simp: inj_on_def)
  ultimately show ?thesis by (simp add: card_image)
qed

end
