(* ===== verification/Ruliad_IR.thy ===== *)
theory Ruliad_IR
  imports Ruliad_Prelude
begin

text \<open>
  The proof IR of \<open>ruliad/ir/mod.rs\<close>: first-order terms, rewrite axioms, goals, proof
  problems and certificates, each as the record or datatype of the Rust declaration, and the
  methods on them (node counts, depth, paths, variables, the text form, the dependency
  closure of the root goal, the views of a certificate by global step index, Pareto dominance
  of complexity vectors).
\<close>

section \<open>Data\<close>

definition ruliad_ir_version :: u32 where
  "ruliad_ir_version = 3"

datatype ruliad_formal_domain = Equational | Category | Logic | Automata | Process | Metagraph

definition formal_domain_all :: "ruliad_formal_domain list" where
  "formal_domain_all = [Equational, Category, Logic, Automata, Process, Metagraph]"

fun formal_domain_label :: "ruliad_formal_domain \<Rightarrow> string" where
  "formal_domain_label Equational = ''equational''"
| "formal_domain_label Category = ''category''"
| "formal_domain_label Logic = ''logic''"
| "formal_domain_label Automata = ''automata''"
| "formal_domain_label Process = ''process''"
| "formal_domain_label Metagraph = ''metagraph''"

datatype ruliad_term =
  Variable u32
| Atom string
| Apply string "ruliad_term list"

record rewrite_axiom =
  ax_id :: string
  ax_lhs :: ruliad_term
  ax_rhs :: ruliad_term

record ruliad_equality =
  eq_lhs :: ruliad_term
  eq_rhs :: ruliad_term

record proof_goal =
  goal_id :: string
  goal_dependencies :: "nat list"
  goal_claim :: ruliad_equality

record proof_problem =
  problem_version :: u32
  problem_domain :: ruliad_formal_domain
  problem_theory :: string
  problem_axioms :: "rewrite_axiom list"
  problem_goals :: "proof_goal list"
  problem_root :: nat

datatype rewrite_direction = Forward | Reverse

datatype proof_source = AxiomSource string | LemmaSource nat

record proof_step =
  step_source :: proof_source
  step_path :: "nat list"
  step_direction :: rewrite_direction

record goal_certificate =
  gc_goal :: nat
  gc_steps :: "proof_step list"

record proof_certificate =
  cert_version :: u32
  cert_problem_hash :: string
  cert_goals :: "goal_certificate list"

record proof_bundle =
  bundle_problem :: proof_problem
  bundle_certificate :: proof_certificate

record complexity_vec =
  cv_syntax_nodes :: nat
  cv_axiom_count :: nat
  cv_proof_goal_count :: nat
  cv_proof_step_count :: nat
  cv_dependency_depth :: nat
  cv_dependency_width :: nat
  cv_variable_count :: nat
  cv_maximum_term_depth :: nat
  cv_distractor_axiom_count :: nat
  cv_branch_entropy_millibits :: nat
  cv_binder_depth :: nat
  cv_abstraction_depth :: nat
  cv_memory_horizon :: nat
  cv_representation_shift :: nat
  cv_solution_multiplicity :: nat
  cv_search_branching :: nat
  cv_verifier_work :: nat

section \<open>Terms\<close>

fun node_count :: "ruliad_term \<Rightarrow> nat" where
  "node_count (Variable _) = 1"
| "node_count (Atom _) = 1"
| "node_count (Apply _ arguments) = sat_add 1 (foldl sat_add 0 (map node_count arguments))"

fun term_depth :: "ruliad_term \<Rightarrow> nat" where
  "term_depth (Variable _) = 1"
| "term_depth (Atom _) = 1"
| "term_depth (Apply _ arguments) = 1 + foldr max (map term_depth arguments) 0"

fun at_path :: "ruliad_term \<Rightarrow> nat list \<Rightarrow> ruliad_term option" where
  "at_path t [] = Some t"
| "at_path (Apply _ arguments) (index # rest) =
     (if index < length arguments then at_path (arguments ! index) rest else None)"
| "at_path (Variable _) (_ # _) = None"
| "at_path (Atom _) (_ # _) = None"

fun collect_variables :: "ruliad_term \<Rightarrow> u32 set \<Rightarrow> u32 set"
  and collect_variables_list :: "ruliad_term list \<Rightarrow> u32 set \<Rightarrow> u32 set" where
  "collect_variables (Variable index) variables = insert index variables"
| "collect_variables (Atom _) variables = variables"
| "collect_variables (Apply _ arguments) variables = collect_variables_list arguments variables"
| "collect_variables_list [] variables = variables"
| "collect_variables_list (argument # arguments) variables =
     collect_variables_list arguments (collect_variables argument variables)"

definition term_variables :: "ruliad_term \<Rightarrow> u32 set" where
  "term_variables t = collect_variables t {}"

fun canonical_text :: "ruliad_term \<Rightarrow> string" where
  "canonical_text (Variable index) = ''?'' @ show_nat (unat index)"
| "canonical_text (Atom symbol) = symbol"
| "canonical_text (Apply operator arguments) =
     operator @ ''('' @ join_with '','' (map canonical_text arguments) @ '')''"

lemma collect_variables_list_mono:
  assumes "\<And>t S. t \<in> set ts \<Longrightarrow> collect_variables t S = S \<union> collect_variables t {}"
  shows "collect_variables_list ts S = S \<union> collect_variables_list ts {}"
  using assms
proof (induction ts arbitrary: S)
  case (Cons t ts)
  have tail: "collect_variables_list ts A = A \<union> collect_variables_list ts {}" for A
    by (rule Cons.IH) (rule Cons.prems, simp)
  have "collect_variables t S = S \<union> collect_variables t {}" by (rule Cons.prems) simp
  with tail [of "collect_variables t S"] tail [of "collect_variables t {}"] show ?case by auto
qed simp

lemma collect_variables_mono: "collect_variables t S = S \<union> collect_variables t {}"
proof (induction t arbitrary: S)
  case (Apply operator arguments)
  then show ?case
    by (simp only: collect_variables.simps) (rule collect_variables_list_mono)
qed simp_all

lemma collect_variables_list_eq: "collect_variables_list ts {} = \<Union> (term_variables ` set ts)"
proof (induction ts)
  case (Cons t ts)
  have "collect_variables_list (t # ts) {} = collect_variables t {} \<union> collect_variables_list ts {}"
    by simp (rule collect_variables_list_mono, rule collect_variables_mono)
  with Cons show ?case by (simp add: term_variables_def)
qed simp

lemma term_variables_simps [simp]:
  "term_variables (Variable index) = {index}"
  "term_variables (Atom symbol) = {}"
  "term_variables (Apply operator arguments) = \<Union> (term_variables ` set arguments)"
  by (simp_all add: term_variables_def collect_variables_list_eq [unfolded term_variables_def])

lemma finite_term_variables [simp]: "finite (term_variables t)"
  by (induction t) auto

lemma at_path_append:
  "at_path t (xs @ ys) = Option.bind (at_path t xs) (\<lambda>s. at_path s ys)"
  by (induction t xs rule: at_path.induct) auto

lemma node_count_bounds: "0 < node_count t \<and> node_count t \<le> usize_max"
  by (cases t) (auto simp: sat_add_def usize_max_def)

section \<open>Problems\<close>

text \<open>
  \<open>required_goal_indices\<close> walks the dependencies depth first. The Rust recursion
  \<open>visit\<close> is called for each dependency in turn on the shared set of visited indices:
  \<open>visit_goals\<close> takes the list of calls still to make at one level.
\<close>

definition goal_dependencies_at :: "proof_problem \<Rightarrow> nat \<Rightarrow> nat list" where
  "goal_dependencies_at problem index =
     (if index < length (problem_goals problem)
      then goal_dependencies (problem_goals problem ! index) else [])"

definition mentioned_indices :: "proof_problem \<Rightarrow> nat set" where
  "mentioned_indices problem =
     {..<length (problem_goals problem)} \<union> \<Union> (set ` goal_dependencies ` set (problem_goals problem))"

function visit_goals :: "proof_problem \<Rightarrow> nat list \<Rightarrow> nat set \<Rightarrow> nat set" where
  "visit_goals problem [] required = required"
| "visit_goals problem (index # rest) required =
     (if index \<in> required then visit_goals problem rest required
      else visit_goals problem rest
             (visit_goals problem (goal_dependencies_at problem index) (insert index required)))"
  by pat_completeness auto

lemma finite_mentioned_indices [simp]: "finite (mentioned_indices problem)"
  by (simp add: mentioned_indices_def)

lemma goal_dependencies_at_outside:
  "index \<notin> mentioned_indices problem \<Longrightarrow> goal_dependencies_at problem index = []"
  by (auto simp: mentioned_indices_def goal_dependencies_at_def)

lemma visit_goals_dom_mono:
  "visit_goals_dom (problem, todo, required) \<Longrightarrow> required \<subseteq> visit_goals problem todo required"
  by (induction rule: visit_goals.pinduct) (force simp: visit_goals.psimps)+

termination visit_goals
proof (relation "inv_image (finite_psubset <*lex*> less_than)
         (\<lambda>(problem, todo, required). (mentioned_indices problem - required, length todo))", goal_cases)
  case 1
  show ?case by auto
next
  case (2 problem index rest required)
  then show ?case by auto
next
  case (3 problem index rest required)
  then show ?case
    by (cases "index \<in> mentioned_indices problem")
      (auto simp: finite_psubset_def goal_dependencies_at_outside)
next
  case (4 problem index rest required)
  then have "insert index required
      \<subseteq> visit_goals problem (goal_dependencies_at problem index) (insert index required)"
    by (intro visit_goals_dom_mono)
  then show ?case by (auto simp: finite_psubset_def)
qed

definition required_goal_set :: "proof_problem \<Rightarrow> nat set" where
  "required_goal_set problem = visit_goals problem [problem_root problem] {}"

definition required_goal_indices :: "proof_problem \<Rightarrow> nat list" where
  "required_goal_indices problem = sorted_list_of_set (required_goal_set problem)"

lemma visit_goals_mono: "required \<subseteq> visit_goals problem todo required"
  by (induction problem todo required rule: visit_goals.induct) auto

lemma visit_goals_todo: "set todo \<subseteq> visit_goals problem todo required"
proof (induction problem todo required rule: visit_goals.induct)
  case (2 problem index rest required)
  have "index \<in> visit_goals problem (index # rest) required"
    using visit_goals_mono
    by (cases "index \<in> required") (simp, blast, simp, blast)
  with 2 show ?case by (auto split: if_splits)
qed simp

lemma finite_visit_goals: "finite required \<Longrightarrow> finite (visit_goals problem todo required)"
  by (induction problem todo required rule: visit_goals.induct) auto

lemma visit_goals_closed:
  "i \<in> visit_goals problem todo required \<Longrightarrow>
   i \<in> required \<or> set (goal_dependencies_at problem i) \<subseteq> visit_goals problem todo required"
proof (induction problem todo required arbitrary: i rule: visit_goals.induct)
  case (2 problem index rest required)
  show ?case
  proof (cases "index \<in> required")
    case True
    with 2 show ?thesis by simp
  next
    case False
    define inner where
      "inner = visit_goals problem (goal_dependencies_at problem index) (insert index required)"
    have inner: "set (goal_dependencies_at problem index) \<subseteq> inner"
      unfolding inner_def by (rule visit_goals_todo)
    have outer: "inner \<subseteq> visit_goals problem rest inner" by (rule visit_goals_mono)
    have "i \<in> visit_goals problem rest inner" using 2 False by (simp add: inner_def)
    then have "i \<in> inner \<or> set (goal_dependencies_at problem i) \<subseteq> visit_goals problem rest inner"
      using "2.IH"(3) False by (simp add: inner_def)
    moreover have "i \<in> inner \<Longrightarrow>
        i \<in> insert index required \<or> set (goal_dependencies_at problem i) \<subseteq> inner"
      using "2.IH"(2) False by (simp add: inner_def)
    ultimately show ?thesis using inner outer False by (auto simp: inner_def)
  qed
qed simp

text \<open>The dependency relation, and its closure from a list of goals.\<close>

definition depends_on :: "proof_problem \<Rightarrow> nat \<Rightarrow> nat \<Rightarrow> bool" where
  "depends_on problem i j \<longleftrightarrow> j \<in> set (goal_dependencies_at problem i)"

lemma depends_onI: "j \<in> set (goal_dependencies_at problem i) \<Longrightarrow> depends_on problem i j"
  by (simp add: depends_on_def)

lemma visit_goals_sound:
  "i \<in> visit_goals problem todo required \<Longrightarrow>
   i \<in> required \<or> (\<exists>j \<in> set todo. (depends_on problem)\<^sup>*\<^sup>* j i)"
proof (induction problem todo required arbitrary: i rule: visit_goals.induct)
  case (2 problem index rest required)
  show ?case
  proof (cases "index \<in> required")
    case True
    with 2 show ?thesis by auto
  next
    case False
    define inner where
      "inner = visit_goals problem (goal_dependencies_at problem index) (insert index required)"
    have "i \<in> visit_goals problem rest inner" using 2 False by (simp add: inner_def)
    then have "i \<in> inner \<or> (\<exists>j \<in> set rest. (depends_on problem)\<^sup>*\<^sup>* j i)"
      using "2.IH"(3) False by (simp add: inner_def)
    moreover have "i \<in> inner \<Longrightarrow> i \<in> insert index required
        \<or> (\<exists>j \<in> set (goal_dependencies_at problem index). (depends_on problem)\<^sup>*\<^sup>* j i)"
      using "2.IH"(2) False by (simp add: inner_def)
    ultimately show ?thesis
      using depends_onI [of _ problem index]
      by (auto intro: converse_rtranclp_into_rtranclp)
  qed
qed simp

lemma required_goal_set_eq:
  "required_goal_set problem = {i. (depends_on problem)\<^sup>*\<^sup>* (problem_root problem) i}"
proof (intro equalityI subsetI)
  fix i assume "i \<in> required_goal_set problem"
  then show "i \<in> {i. (depends_on problem)\<^sup>*\<^sup>* (problem_root problem) i}"
    using visit_goals_sound [of i problem "[problem_root problem]" "{}"]
    by (simp add: required_goal_set_def)
next
  fix i assume "i \<in> {i. (depends_on problem)\<^sup>*\<^sup>* (problem_root problem) i}"
  then have "(depends_on problem)\<^sup>*\<^sup>* (problem_root problem) i" by simp
  then show "i \<in> required_goal_set problem"
  proof (induction rule: rtranclp_induct)
    case base
    show ?case using visit_goals_todo [of "[problem_root problem]" problem "{}"]
      unfolding required_goal_set_def by (simp del: visit_goals.simps)
  next
    case (step j i)
    then show ?case
      using visit_goals_closed [of j problem "[problem_root problem]" "{}"]
      by (auto simp: required_goal_set_def depends_on_def)
  qed
qed

lemma finite_required_goal_set [simp]: "finite (required_goal_set problem)"
  by (simp add: required_goal_set_def finite_visit_goals)

lemma set_required_goal_indices [simp]:
  "set (required_goal_indices problem) = required_goal_set problem"
  by (simp add: required_goal_indices_def)

lemma sorted_required_goal_indices: "sorted_wrt (<) (required_goal_indices problem)"
  by (simp add: required_goal_indices_def)

lemma root_required: "problem_root problem \<in> required_goal_set problem"
  by (simp add: required_goal_set_eq)

lemma required_dependency:
  "i \<in> required_goal_set problem \<Longrightarrow> j \<in> set (goal_dependencies_at problem i) \<Longrightarrow>
   j \<in> required_goal_set problem"
  unfolding required_goal_set_eq by (auto intro: rtranclp.rtrancl_into_rtrancl depends_onI)

text \<open>When dependencies precede their goal and the root is in range, so is every required goal.\<close>

lemma required_in_range:
  assumes root: "problem_root problem < length (problem_goals problem)"
    and precede: "\<And>i j. i < length (problem_goals problem) \<Longrightarrow>
        j \<in> set (goal_dependencies (problem_goals problem ! i)) \<Longrightarrow> j < i"
    and i: "i \<in> required_goal_set problem"
  shows "i \<le> problem_root problem"
proof -
  from i have "(depends_on problem)\<^sup>*\<^sup>* (problem_root problem) i"
    by (simp add: required_goal_set_eq)
  then show ?thesis
  proof (induction rule: rtranclp_induct)
    case (step j i)
    then show ?case
      using precede [of j i] by (auto simp: depends_on_def goal_dependencies_at_def split: if_splits)
  qed simp
qed

section \<open>Views of a certificate by global step index\<close>

definition step_count :: "proof_certificate \<Rightarrow> nat" where
  "step_count certificate = sum_list (map (\<lambda>goal. length (gc_steps goal)) (cert_goals certificate))"

fun step_at_goals :: "goal_certificate list \<Rightarrow> nat \<Rightarrow> (nat \<times> proof_step) option" where
  "step_at_goals [] index = None"
| "step_at_goals (goal # goals) index =
     (if index < length (gc_steps goal) then Some (gc_goal goal, gc_steps goal ! index)
      else step_at_goals goals (index - length (gc_steps goal)))"

definition step_at :: "proof_certificate \<Rightarrow> nat \<Rightarrow> (nat \<times> proof_step) option" where
  "step_at certificate index = step_at_goals (cert_goals certificate) index"

fun prefix_goals :: "goal_certificate list \<Rightarrow> nat \<Rightarrow> goal_certificate list option" where
  "prefix_goals [] index = None"
| "prefix_goals (goal # goals) index =
     (if index < length (gc_steps goal)
      then Some [\<lparr>gc_goal = gc_goal goal, gc_steps = take index (gc_steps goal)\<rparr>]
      else map_option (Cons goal) (prefix_goals goals (index - length (gc_steps goal))))"

definition prefix_before :: "proof_certificate \<Rightarrow> nat \<Rightarrow> proof_certificate option" where
  "prefix_before certificate index =
     map_option (\<lambda>goals. \<lparr>cert_version = cert_version certificate,
         cert_problem_hash = cert_problem_hash certificate, cert_goals = goals\<rparr>)
       (prefix_goals (cert_goals certificate) index)"

definition single_step_at :: "proof_certificate \<Rightarrow> nat \<Rightarrow> proof_certificate option" where
  "single_step_at certificate index =
     (case step_at certificate index of
        None \<Rightarrow> None
      | Some (goal, step) \<Rightarrow>
          Some \<lparr>cert_version = cert_version certificate,
                cert_problem_hash = cert_problem_hash certificate,
                cert_goals = [\<lparr>gc_goal = goal, gc_steps = [step]\<rparr>]\<rparr>)"

fun replace_step_goals ::
  "goal_certificate list \<Rightarrow> nat \<Rightarrow> proof_step \<Rightarrow> goal_certificate list option" where
  "replace_step_goals [] index replacement = None"
| "replace_step_goals (goal # goals) index replacement =
     (if index < length (gc_steps goal)
      then Some (goal\<lparr>gc_steps := (gc_steps goal)[index := replacement]\<rparr> # goals)
      else map_option (Cons goal)
             (replace_step_goals goals (index - length (gc_steps goal)) replacement))"

definition with_step_replaced ::
  "proof_certificate \<Rightarrow> nat \<Rightarrow> proof_step \<Rightarrow> proof_certificate option" where
  "with_step_replaced certificate index replacement =
     map_option (\<lambda>goals. certificate\<lparr>cert_goals := goals\<rparr>)
       (replace_step_goals (cert_goals certificate) index replacement)"

text \<open>The sequence of all steps, each with its goal: what the views are views of.\<close>

definition goals_steps :: "goal_certificate list \<Rightarrow> (nat \<times> proof_step) list" where
  "goals_steps goals = concat (map (\<lambda>goal. map (Pair (gc_goal goal)) (gc_steps goal)) goals)"

lemma goals_steps_simps [simp]:
  "goals_steps [] = []"
  "goals_steps (goal # goals) = map (Pair (gc_goal goal)) (gc_steps goal) @ goals_steps goals"
  by (simp_all add: goals_steps_def)

lemma length_goals_steps: "length (goals_steps goals) = sum_list (map (\<lambda>goal. length (gc_steps goal)) goals)"
  by (induction goals) auto

lemma step_at_goals_nth:
  "step_at_goals goals index =
     (if index < length (goals_steps goals) then Some (goals_steps goals ! index) else None)"
  by (induction goals index rule: step_at_goals.induct) (auto simp: nth_append)

lemma prefix_goals_steps:
  "map_option goals_steps (prefix_goals goals index) =
     (if index < length (goals_steps goals) then Some (take index (goals_steps goals)) else None)"
proof (induction goals index rule: prefix_goals.induct)
  case (2 goal goals index)
  show ?case
  proof (cases "index < length (gc_steps goal)")
    case True
    then show ?thesis by (simp add: take_map)
  next
    case False
    with 2 show ?thesis
      by (cases "prefix_goals goals (index - length (gc_steps goal))")
        (auto split: if_splits simp: less_diff_conv2)
  qed
qed simp

lemma replace_step_goals_steps:
  "map_option goals_steps (replace_step_goals goals index replacement) =
     (if index < length (goals_steps goals)
      then Some ((goals_steps goals)[index := (fst (goals_steps goals ! index), replacement)]) else None)"
proof (induction goals index replacement rule: replace_step_goals.induct)
  case (2 goal goals index replacement)
  show ?case
  proof (cases "index < length (gc_steps goal)")
    case True
    then show ?thesis by (simp add: map_update nth_append list_update_append)
  next
    case False
    with 2 show ?thesis
      by (cases "replace_step_goals goals (index - length (gc_steps goal)) replacement")
        (auto split: if_splits simp: less_diff_conv2 nth_append list_update_append)
  qed
qed simp

section \<open>Complexity vectors\<close>

definition complexity_dimensions :: "complexity_vec \<Rightarrow> nat list" where
  "complexity_dimensions v =
     [cv_syntax_nodes v, cv_axiom_count v, cv_proof_goal_count v, cv_proof_step_count v,
      cv_dependency_depth v, cv_dependency_width v, cv_variable_count v,
      cv_maximum_term_depth v, cv_distractor_axiom_count v, cv_branch_entropy_millibits v,
      cv_binder_depth v, cv_abstraction_depth v, cv_memory_horizon v,
      cv_representation_shift v, cv_solution_multiplicity v, cv_search_branching v,
      cv_verifier_work v]"

definition dominates_dims :: "nat list \<Rightarrow> nat list \<Rightarrow> bool" where
  "dominates_dims xs ys \<longleftrightarrow>
     list_all (\<lambda>(left, right). right \<le> left) (zip xs ys)
     \<and> list_ex (\<lambda>(left, right). right < left) (zip xs ys)"

definition complexity_dominates :: "complexity_vec \<Rightarrow> complexity_vec \<Rightarrow> bool" where
  "complexity_dominates a b \<longleftrightarrow> dominates_dims (complexity_dimensions a) (complexity_dimensions b)"

lemma dominates_dims_irrefl: "\<not> dominates_dims xs xs"
  by (auto simp: dominates_dims_def list_ex_iff set_zip)

lemma dominates_dims_trans:
  assumes "length xs = length ys" "length ys = length zs"
    and "dominates_dims xs ys" "dominates_dims ys zs"
  shows "dominates_dims xs zs"
proof -
  have le: "ys ! i \<le> xs ! i" "zs ! i \<le> ys ! i" if "i < length zs" for i
    using assms that by (auto simp: dominates_dims_def list_all_length)
  obtain i where "i < length zs" "ys ! i < xs ! i"
    using assms by (auto simp: dominates_dims_def list_ex_length)
  then have "zs ! i < xs ! i" "i < length zs" using le(2) [of i] by auto
  moreover have "zs ! k \<le> xs ! k" if "k < length zs" for k
    using le [OF that] by (rule order_trans [rotated])
  ultimately show ?thesis
    using assms(1,2) by (auto simp: dominates_dims_def list_all_length list_ex_length)
qed

lemma length_complexity_dimensions [simp]: "length (complexity_dimensions v) = 17"
  by (simp add: complexity_dimensions_def)

end
