(* ===== verification/Ruliad_Kernel.thy ===== *)
theory Ruliad_Kernel
  imports Ruliad_IR
begin

text \<open>
  The deterministic replay kernel of \<open>ruliad/kernel.rs\<close>: validation of a problem, the
  single rewrite step (matching, instantiation, rewriting at a path), the goal transition
  kernel, and the replay of a whole certificate into a report. A failure is the record of
  the source with its kind, goal, step and message. The canonical hash of a problem is
  \<open>serde_json\<close> followed by SHA-256, both outside the repository: it is the parameter
  \<open>hash\<close> of every definition that uses it. An out-of-range index read, which would
  panic, is the outcome \<^const>\<open>None\<close> of the replay.
\<close>

section \<open>Limits and failures\<close>

record kernel_limits =
  maximum_axioms :: nat
  maximum_goals :: nat
  maximum_steps :: nat
  maximum_term_nodes :: nat
  maximum_path_depth :: nat

definition default_limits :: kernel_limits where
  "default_limits = \<lparr>maximum_axioms = 16384, maximum_goals = 16384, maximum_steps = 1048576,
     maximum_term_nodes = 4194304, maximum_path_depth = 4096\<rparr>"

datatype failure_kind =
  Version | ResourceLimit | MalformedProblem | ProblemHash | MalformedCertificate
| MissingDependency | UnknownSource | InvalidPath | PatternMismatch | GoalMismatch

fun failure_kind_label :: "failure_kind \<Rightarrow> string" where
  "failure_kind_label Version = ''version''"
| "failure_kind_label ResourceLimit = ''resource_limit''"
| "failure_kind_label MalformedProblem = ''malformed_problem''"
| "failure_kind_label ProblemHash = ''problem_hash''"
| "failure_kind_label MalformedCertificate = ''malformed_certificate''"
| "failure_kind_label MissingDependency = ''missing_dependency''"
| "failure_kind_label UnknownSource = ''unknown_source''"
| "failure_kind_label InvalidPath = ''invalid_path''"
| "failure_kind_label PatternMismatch = ''pattern_mismatch''"
| "failure_kind_label GoalMismatch = ''goal_mismatch''"

record kernel_failure =
  kf_kind :: failure_kind
  kf_goal :: "nat option"
  kf_step :: "nat option"
  kf_message :: string

definition failure :: "failure_kind \<Rightarrow> nat option \<Rightarrow> nat option \<Rightarrow> string \<Rightarrow> kernel_failure" where
  "failure kind goal step message =
     \<lparr>kf_kind = kind, kf_goal = goal, kf_step = step, kf_message = message\<rparr>"

type_synonym problem_hasher = "proof_problem \<Rightarrow> string + string"

section \<open>Validation\<close>

definition identifier_byte :: "char \<Rightarrow> bool" where
  "identifier_byte c =
     (let n = (of_char c :: nat) in
        48 \<le> n \<and> n \<le> 57 \<or> 65 \<le> n \<and> n \<le> 90 \<or> 97 \<le> n \<and> n \<le> 122
        \<or> c = CHR ''_'' \<or> c = CHR ''-'' \<or> c = CHR ''.'')"

definition valid_identifier :: "string \<Rightarrow> bool" where
  "valid_identifier value \<longleftrightarrow> value \<noteq> [] \<and> length value \<le> 128 \<and> list_all identifier_byte value"

definition validate_symbol :: "string \<Rightarrow> kernel_failure + unit" where
  "validate_symbol symbol =
     (if valid_identifier symbol then Inr ()
      else Inl (failure MalformedProblem None None (''invalid symbol `'' @ symbol @ ''`'')))"

fun validate_term :: "ruliad_term \<Rightarrow> kernel_failure + unit"
  and validate_terms :: "ruliad_term list \<Rightarrow> kernel_failure + unit" where
  "validate_term (Variable _) = Inr ()"
| "validate_term (Atom symbol) = validate_symbol symbol"
| "validate_term (Apply operator arguments) =
     (case validate_symbol operator of
        Inl e \<Rightarrow> Inl e
      | Inr _ \<Rightarrow>
          if arguments = []
          then Inl (failure MalformedProblem None None
                     (''application `'' @ operator @ ''` requires at least one argument''))
          else validate_terms arguments)"
| "validate_terms [] = Inr ()"
| "validate_terms (argument # arguments) =
     (case validate_term argument of Inl e \<Rightarrow> Inl e | Inr _ \<Rightarrow> validate_terms arguments)"

definition validate_axiom :: "string set \<Rightarrow> rewrite_axiom \<Rightarrow> kernel_failure + unit" where
  "validate_axiom axiom_ids ax =
     (if \<not> valid_identifier (ax_id ax) \<or> ax_id ax \<in> axiom_ids
      then Inl (failure MalformedProblem None None
                 (''invalid or duplicate axiom id `'' @ ax_id ax @ ''`''))
      else result_bind (validate_term (ax_lhs ax)) (\<lambda>_.
        result_bind (validate_term (ax_rhs ax)) (\<lambda>_.
          if \<not> term_variables (ax_rhs ax) \<subseteq> term_variables (ax_lhs ax)
          then Inl (failure MalformedProblem None None
                     (''axiom `'' @ ax_id ax @ ''` introduces an unbound variable''))
          else if (case ax_lhs ax of Variable _ \<Rightarrow> True | _ \<Rightarrow> False)
          then Inl (failure MalformedProblem None None
                     (''axiom `'' @ ax_id ax @ ''` cannot rewrite a bare variable''))
          else Inr ())))"

fun validate_axioms :: "rewrite_axiom list \<Rightarrow> string set \<Rightarrow> nat \<Rightarrow> kernel_failure + nat" where
  "validate_axioms [] axiom_ids term_nodes = Inr term_nodes"
| "validate_axioms (ax # axioms) axiom_ids term_nodes =
     (case validate_axiom axiom_ids ax of
        Inl e \<Rightarrow> Inl e
      | Inr _ \<Rightarrow> validate_axioms axioms (insert (ax_id ax) axiom_ids)
                  (sat_add (sat_add term_nodes (node_count (ax_lhs ax))) (node_count (ax_rhs ax))))"

definition dependencies_ordered :: "nat \<Rightarrow> nat list \<Rightarrow> bool" where
  "dependencies_ordered index dependencies \<longleftrightarrow>
     \<not> (list_ex (\<lambda>(a, b). b \<le> a) (zip dependencies (tl dependencies))
        \<or> list_ex (\<lambda>dependency. index \<le> dependency) dependencies)"

definition validate_goal :: "nat \<Rightarrow> string set \<Rightarrow> proof_goal \<Rightarrow> kernel_failure + unit" where
  "validate_goal index goal_ids goal =
     (if \<not> valid_identifier (goal_id goal) \<or> goal_id goal \<in> goal_ids
      then Inl (failure MalformedProblem (Some index) None
                 (''invalid or duplicate goal id `'' @ goal_id goal @ ''`''))
      else result_bind (validate_term (eq_lhs (goal_claim goal))) (\<lambda>_.
        result_bind (validate_term (eq_rhs (goal_claim goal))) (\<lambda>_.
          if \<not> dependencies_ordered index (goal_dependencies goal)
          then Inl (failure MalformedProblem (Some index) None
                     ''goal dependencies must be unique, sorted, and precede the goal'')
          else Inr ())))"

fun validate_goals ::
  "nat \<Rightarrow> proof_goal list \<Rightarrow> string set \<Rightarrow> nat \<Rightarrow> kernel_failure + nat" where
  "validate_goals index [] goal_ids term_nodes = Inr term_nodes"
| "validate_goals index (goal # goals) goal_ids term_nodes =
     (case validate_goal index goal_ids goal of
        Inl e \<Rightarrow> Inl e
      | Inr _ \<Rightarrow> validate_goals (Suc index) goals (insert (goal_id goal) goal_ids)
                  (sat_add (sat_add term_nodes (node_count (eq_lhs (goal_claim goal))))
                    (node_count (eq_rhs (goal_claim goal)))))"

definition validate_problem ::
  "problem_hasher \<Rightarrow> proof_problem \<Rightarrow> kernel_limits \<Rightarrow> kernel_failure + string" where
  "validate_problem hash problem limits =
     (if problem_version problem \<noteq> ruliad_ir_version
      then Inl (failure Version None None
                 (''problem version '' @ show_nat (unat (problem_version problem))
                  @ '' does not match kernel version '' @ show_nat (unat ruliad_ir_version)))
      else if str_trim (problem_theory problem) = [] \<or> problem_goals problem = []
              \<or> length (problem_goals problem) \<le> problem_root problem
      then Inl (failure MalformedProblem None None
                 ''problem requires a theory, at least one goal, and a valid root'')
      else if maximum_axioms limits < length (problem_axioms problem)
              \<or> maximum_goals limits < length (problem_goals problem)
      then Inl (failure ResourceLimit None None ''problem exceeds axiom or goal limits'')
      else result_bind (validate_axioms (problem_axioms problem) {} 0) (\<lambda>axiom_nodes.
        result_bind (validate_goals 0 (problem_goals problem) {} axiom_nodes) (\<lambda>term_nodes.
          if maximum_term_nodes limits < term_nodes
          then Inl (failure ResourceLimit None None ''problem term nodes exceed kernel limit'')
          else map_err (\<lambda>e. failure MalformedProblem None None (''failed to hash problem: '' @ e))
                 (hash problem))))"

section \<open>The rewrite step\<close>

type_synonym substitution = "u32 \<rightharpoonup> ruliad_term"

fun match_term :: "ruliad_term \<Rightarrow> ruliad_term \<Rightarrow> substitution \<Rightarrow> bool \<times> substitution"
  and match_terms :: "ruliad_term list \<Rightarrow> ruliad_term list \<Rightarrow> substitution \<Rightarrow> bool \<times> substitution"
where
  "match_term (Variable index) v \<sigma> =
     (case \<sigma> index of Some bound \<Rightarrow> (bound = v, \<sigma>) | None \<Rightarrow> (True, \<sigma>(index \<mapsto> v)))"
| "match_term (Atom left) (Atom right) \<sigma> = (left = right, \<sigma>)"
| "match_term (Apply left_operator left_arguments) (Apply right_operator right_arguments) \<sigma> =
     (if left_operator = right_operator \<and> length left_arguments = length right_arguments
      then match_terms left_arguments right_arguments \<sigma> else (False, \<sigma>))"
| "match_term (Atom _) (Variable _) \<sigma> = (False, \<sigma>)"
| "match_term (Atom _) (Apply _ _) \<sigma> = (False, \<sigma>)"
| "match_term (Apply _ _) (Variable _) \<sigma> = (False, \<sigma>)"
| "match_term (Apply _ _) (Atom _) \<sigma> = (False, \<sigma>)"
| "match_terms (left # lefts) (right # rights) \<sigma> =
     (case match_term left right \<sigma> of
        (matched, \<sigma>') \<Rightarrow> if matched then match_terms lefts rights \<sigma>' else (False, \<sigma>'))"
| "match_terms [] rights \<sigma> = (True, \<sigma>)"
| "match_terms (left # lefts) [] \<sigma> = (True, \<sigma>)"

fun instantiate :: "ruliad_term \<Rightarrow> substitution \<Rightarrow> ruliad_term option" where
  "instantiate (Variable index) \<sigma> = \<sigma> index"
| "instantiate (Atom symbol) \<sigma> = Some (Atom symbol)"
| "instantiate (Apply operator arguments) \<sigma> =
     map_option (Apply operator) (those (map (\<lambda>argument. instantiate argument \<sigma>) arguments))"

definition rewrite_here ::
  "ruliad_term \<Rightarrow> ruliad_term \<Rightarrow> ruliad_term \<Rightarrow> kernel_failure + ruliad_term" where
  "rewrite_here t pattern replacement =
     (case match_term pattern t Map.empty of
        (matched, \<sigma>) \<Rightarrow>
          if \<not> matched
          then Inl (failure PatternMismatch None None
                     (''pattern `'' @ canonical_text pattern @ ''` does not match `''
                      @ canonical_text t @ ''`''))
          else (case instantiate replacement \<sigma> of
                  Some r \<Rightarrow> Inr r
                | None \<Rightarrow> Inl (failure MalformedProblem None None
                            ''replacement references an unbound variable'')))"

fun rewrite_at_path ::
  "ruliad_term \<Rightarrow> nat list \<Rightarrow> ruliad_term \<Rightarrow> ruliad_term \<Rightarrow> kernel_failure + ruliad_term" where
  "rewrite_at_path t [] pattern replacement = rewrite_here t pattern replacement"
| "rewrite_at_path (Apply operator arguments) (index # rest) pattern replacement =
     (if index < length arguments
      then (case rewrite_at_path (arguments ! index) rest pattern replacement of
              Inl e \<Rightarrow> Inl e
            | Inr rewritten \<Rightarrow> Inr (Apply operator (arguments[index := rewritten])))
      else Inl (failure InvalidPath None None
                 (''rewrite path argument '' @ show_nat index @ '' is out of bounds'')))"
| "rewrite_at_path (Variable _) (_ # _) pattern replacement =
     Inl (failure InvalidPath None None ''rewrite path descends through a non-application term'')"
| "rewrite_at_path (Atom _) (_ # _) pattern replacement =
     Inl (failure InvalidPath None None ''rewrite path descends through a non-application term'')"

type_synonym axiom_index = "string \<rightharpoonup> rewrite_axiom"

definition index_axioms :: "rewrite_axiom list \<Rightarrow> axiom_index" where
  "index_axioms axioms = foldl (\<lambda>m ax. m(ax_id ax \<mapsto> ax)) Map.empty axioms"

definition step_equality ::
  "proof_problem \<Rightarrow> nat \<Rightarrow> proof_goal \<Rightarrow> axiom_index \<Rightarrow> proof_source \<Rightarrow> kernel_failure + ruliad_equality"
where
  "step_equality problem goal_index goal axioms source =
     (case source of
        AxiomSource ident \<Rightarrow>
          (case axioms ident of
             Some ax \<Rightarrow> Inr \<lparr>eq_lhs = ax_lhs ax, eq_rhs = ax_rhs ax\<rparr>
           | None \<Rightarrow> Inl (failure UnknownSource (Some goal_index) None
                       (''unknown axiom `'' @ ident @ ''`'')))
      | LemmaSource dependency \<Rightarrow>
          if dependency \<notin> set (goal_dependencies goal)
          then Inl (failure MissingDependency (Some goal_index) None
                     (''goal '' @ show_nat dependency @ '' is not a declared dependency''))
          else if dependency < length (problem_goals problem)
          then Inr (goal_claim (problem_goals problem ! dependency))
          else Inl (failure UnknownSource (Some goal_index) None
                     (''unknown lemma goal '' @ show_nat dependency)))"

definition orient :: "rewrite_direction \<Rightarrow> ruliad_equality \<Rightarrow> ruliad_term \<times> ruliad_term" where
  "orient direction equality =
     (case direction of
        Forward \<Rightarrow> (eq_lhs equality, eq_rhs equality)
      | Reverse \<Rightarrow> (eq_rhs equality, eq_lhs equality))"

definition apply_step ::
  "proof_problem \<Rightarrow> nat \<Rightarrow> proof_goal \<Rightarrow> axiom_index \<Rightarrow> ruliad_term \<Rightarrow> proof_step \<Rightarrow> kernel_limits
   \<Rightarrow> kernel_failure + ruliad_term" where
  "apply_step problem goal_index goal axioms current step limits =
     (if maximum_path_depth limits < length (step_path step)
      then Inl (failure ResourceLimit (Some goal_index) None ''rewrite path exceeds kernel limit'')
      else result_bind (step_equality problem goal_index goal axioms (step_source step)) (\<lambda>equality.
        (case orient (step_direction step) equality of
           (pattern, replacement) \<Rightarrow> rewrite_at_path current (step_path step) pattern replacement)))"

section \<open>The goal transition kernel\<close>

record goal_kernel =
  gk_problem :: proof_problem
  gk_goal_index :: nat
  gk_goal :: proof_goal
  gk_axioms :: axiom_index
  gk_limits :: kernel_limits

definition goal_kernel_new ::
  "problem_hasher \<Rightarrow> proof_problem \<Rightarrow> nat \<Rightarrow> kernel_limits \<Rightarrow> kernel_failure + goal_kernel" where
  "goal_kernel_new hash problem goal_index limits =
     result_bind (validate_problem hash problem limits) (\<lambda>_.
       if goal_index \<notin> set (required_goal_indices problem)
       then Inl (failure MalformedCertificate (Some goal_index) None
                  ''goal transition is outside the root dependency closure'')
       else if goal_index < length (problem_goals problem)
       then Inr \<lparr>gk_problem = problem, gk_goal_index = goal_index,
                 gk_goal = problem_goals problem ! goal_index,
                 gk_axioms = index_axioms (problem_axioms problem), gk_limits = limits\<rparr>
       else Inl (failure MalformedCertificate (Some goal_index) None
                  ''goal transition references a missing goal''))"

definition gk_initial :: "goal_kernel \<Rightarrow> ruliad_term" where
  "gk_initial k = eq_lhs (goal_claim (gk_goal k))"

definition gk_target :: "goal_kernel \<Rightarrow> ruliad_term" where
  "gk_target k = eq_rhs (goal_claim (gk_goal k))"

definition gk_apply :: "goal_kernel \<Rightarrow> ruliad_term \<Rightarrow> proof_step \<Rightarrow> kernel_failure + ruliad_term" where
  "gk_apply k current step =
     apply_step (gk_problem k) (gk_goal_index k) (gk_goal k) (gk_axioms k) current step (gk_limits k)"

fun gk_replay_loop ::
  "goal_kernel \<Rightarrow> nat \<Rightarrow> ruliad_term \<Rightarrow> proof_step list \<Rightarrow> kernel_failure + ruliad_term" where
  "gk_replay_loop k step_index current [] = Inr current"
| "gk_replay_loop k step_index current (step # steps) =
     (case map_err (\<lambda>e. e\<lparr>kf_goal := Some (gk_goal_index k), kf_step := Some step_index\<rparr>)
             (gk_apply k current step) of
        Inl e \<Rightarrow> Inl e
      | Inr next_term \<Rightarrow> gk_replay_loop k (Suc step_index) next_term steps)"

definition gk_replay_prefix :: "goal_kernel \<Rightarrow> proof_step list \<Rightarrow> kernel_failure + ruliad_term" where
  "gk_replay_prefix k steps =
     (if maximum_steps (gk_limits k) < length steps
      then Inl (failure ResourceLimit (Some (gk_goal_index k)) None
                 ''goal prefix step count exceeds kernel limit'')
      else gk_replay_loop k 0 (gk_initial k) steps)"

definition replay_goal_prefix ::
  "problem_hasher \<Rightarrow> proof_problem \<Rightarrow> nat \<Rightarrow> proof_step list \<Rightarrow> kernel_limits \<Rightarrow> kernel_failure + ruliad_term"
where
  "replay_goal_prefix hash problem goal_index steps limits =
     result_bind (goal_kernel_new hash problem goal_index limits) (\<lambda>k. gk_replay_prefix k steps)"

section \<open>Complexity of a problem\<close>

definition syntax_terms :: "proof_problem \<Rightarrow> ruliad_term list" where
  "syntax_terms problem =
     concat (map (\<lambda>ax. [ax_lhs ax, ax_rhs ax]) (problem_axioms problem))
     @ concat (map (\<lambda>goal. [eq_lhs (goal_claim goal), eq_rhs (goal_claim goal)]) (problem_goals problem))"

definition list_max :: "nat list \<Rightarrow> nat" where
  "list_max xs = foldr max xs 0"

text \<open>The loop over the goals that fills \<open>depths\<close>, which starts as a vector of ones.\<close>

fun dependency_depths :: "nat \<Rightarrow> proof_goal list \<Rightarrow> nat list \<Rightarrow> nat list" where
  "dependency_depths index [] depths = depths"
| "dependency_depths index (goal # goals) depths =
     dependency_depths (Suc index) goals
       (depths[index := 1 + list_max (map (\<lambda>d. depths ! d)
          (filter (\<lambda>d. d < length depths) (goal_dependencies goal)))])"

definition complexity_vector :: "proof_problem \<Rightarrow> proof_certificate option \<Rightarrow> complexity_vec" where
  "complexity_vector problem certificate =
     (let terms = syntax_terms problem;
          syntax_nodes = foldl (\<lambda>n t. sat_add n (node_count t)) 0 terms;
          variables = foldl (\<lambda>s t. s \<union> term_variables t) {} terms;
          maximum_term_depth = foldl (\<lambda>n t. max n (term_depth t)) 0 terms;
          depths = dependency_depths 0 (problem_goals problem)
                     (replicate (length (problem_goals problem)) 1);
          root_depth = (if problem_root problem < length depths
                        then depths ! problem_root problem else 0);
          proof_step_count = (case certificate of None \<Rightarrow> 0 | Some c \<Rightarrow> step_count c);
          widths = map (\<lambda>goal. length (goal_dependencies goal)) (problem_goals problem)
      in \<lparr>cv_syntax_nodes = syntax_nodes,
          cv_axiom_count = length (problem_axioms problem),
          cv_proof_goal_count = length (required_goal_indices problem),
          cv_proof_step_count = proof_step_count,
          cv_dependency_depth = root_depth,
          cv_dependency_width = list_max widths,
          cv_variable_count = card variables,
          cv_maximum_term_depth = maximum_term_depth,
          cv_distractor_axiom_count =
            length (filter (\<lambda>ax. take 4 (ax_id ax) = ''aux_'') (problem_axioms problem)),
          cv_branch_entropy_millibits =
            sum_list (map (\<lambda>width. sat_mul (ilog2 width) 1000) (filter (\<lambda>width. 1 < width) widths)),
          cv_binder_depth = 0,
          cv_abstraction_depth = root_depth,
          cv_memory_horizon = proof_step_count,
          cv_representation_shift = 0,
          cv_solution_multiplicity = 1,
          cv_search_branching = sat_mul (length (problem_axioms problem)) 2,
          cv_verifier_work = sat_add syntax_nodes proof_step_count\<rparr>)"

section \<open>Replay of a certificate\<close>

record replay_report =
  rr_accepted :: bool
  rr_problem_hash :: "string option"
  rr_required_goals :: nat
  rr_verified_goals :: nat
  rr_submitted_steps :: nat
  rr_verified_steps :: nat
  rr_root_verified :: bool
  rr_complexity :: complexity_vec
  rr_failure :: "kernel_failure option"

definition initial_report :: "proof_problem \<Rightarrow> proof_certificate \<Rightarrow> replay_report" where
  "initial_report problem certificate =
     \<lparr>rr_accepted = False, rr_problem_hash = None,
      rr_required_goals = length (required_goal_indices problem), rr_verified_goals = 0,
      rr_submitted_steps = step_count certificate, rr_verified_steps = 0,
      rr_root_verified = False, rr_complexity = complexity_vector problem (Some certificate),
      rr_failure = None\<rparr>"

text \<open>The loop that indexes the goal certificates: strictly increasing, and all required.\<close>

fun collect_certificates ::
  "nat set \<Rightarrow> nat option \<Rightarrow> goal_certificate list \<Rightarrow> (nat \<rightharpoonup> goal_certificate)
   \<Rightarrow> kernel_failure + (nat \<rightharpoonup> goal_certificate)" where
  "collect_certificates required previous [] certificates = Inr certificates"
| "collect_certificates required previous (node # nodes) certificates =
     (if (case previous of None \<Rightarrow> False | Some p \<Rightarrow> gc_goal node \<le> p)
      then Inl (failure MalformedCertificate (Some (gc_goal node)) None
                 ''certificate goals must be unique and strictly increasing'')
      else if gc_goal node \<notin> required
      then Inl (failure MalformedCertificate (Some (gc_goal node)) None
                 ''certificate contains a goal outside the root dependency closure'')
      else collect_certificates required (Some (gc_goal node)) nodes
             (certificates(gc_goal node \<mapsto> node)))"

text \<open>The inner loop: \<^const>\<open>None\<close> in the second component is the early return with the
  report as it stands.\<close>

fun replay_steps ::
  "proof_problem \<Rightarrow> nat \<Rightarrow> proof_goal \<Rightarrow> axiom_index \<Rightarrow> kernel_limits \<Rightarrow> nat \<Rightarrow> proof_step list
   \<Rightarrow> ruliad_term \<Rightarrow> replay_report \<Rightarrow> replay_report \<times> ruliad_term option" where
  "replay_steps problem goal_index goal axioms limits step_index [] current report =
     (report, Some current)"
| "replay_steps problem goal_index goal axioms limits step_index (step # steps) current report =
     (case apply_step problem goal_index goal axioms current step limits of
        Inr next_term \<Rightarrow>
          replay_steps problem goal_index goal axioms limits (Suc step_index) steps next_term
            (report\<lparr>rr_verified_steps := rr_verified_steps report + 1\<rparr>)
      | Inl e \<Rightarrow>
          (report\<lparr>rr_failure := Some (e\<lparr>kf_goal := Some goal_index, kf_step := Some step_index\<rparr>)\<rparr>,
           None))"

definition goal_mismatch :: "nat \<Rightarrow> nat \<Rightarrow> ruliad_term \<Rightarrow> ruliad_term \<Rightarrow> kernel_failure" where
  "goal_mismatch goal_index step_index current expected =
     failure GoalMismatch (Some goal_index) (Some step_index)
       (''replay ended at `'' @ canonical_text current
        @ ''` instead of `'' @ canonical_text expected @ ''`'')"

text \<open>One iteration of the loop over the required goals. The outer \<^const>\<open>None\<close> is the
  panic of \<open>problem.goals[goal_index]\<close>.\<close>

definition replay_goal ::
  "proof_problem \<Rightarrow> axiom_index \<Rightarrow> kernel_limits \<Rightarrow> (nat \<rightharpoonup> goal_certificate) \<Rightarrow> nat set \<Rightarrow> nat
   \<Rightarrow> replay_report \<Rightarrow> (replay_report \<times> bool) option" where
  "replay_goal problem axioms limits certificates verified goal_index report =
     (case certificates goal_index of
        None \<Rightarrow>
          Some (report\<lparr>rr_failure := Some (failure MalformedCertificate (Some goal_index) None
                  ''certificate is missing a required goal'')\<rparr>, False)
      | Some node \<Rightarrow>
          if length (problem_goals problem) \<le> goal_index then None
          else
            let goal = problem_goals problem ! goal_index in
            case find (\<lambda>dependency. dependency \<notin> verified) (goal_dependencies goal) of
              Some dependency \<Rightarrow>
                Some (report\<lparr>rr_failure := Some (failure MissingDependency (Some goal_index) None
                        (''dependency '' @ show_nat dependency @ '' has not been verified''))\<rparr>, False)
            | None \<Rightarrow>
                (case replay_steps problem goal_index goal axioms limits 0 (gc_steps node)
                        (eq_lhs (goal_claim goal)) report of
                   (report', None) \<Rightarrow> Some (report', False)
                 | (report', Some current) \<Rightarrow>
                     if current \<noteq> eq_rhs (goal_claim goal)
                     then Some (report'\<lparr>rr_failure := Some (goal_mismatch goal_index
                              (length (gc_steps node)) current (eq_rhs (goal_claim goal)))\<rparr>, False)
                     else Some (report'\<lparr>rr_verified_goals := rr_verified_goals report' + 1\<rparr>, True)))"

fun replay_goals ::
  "proof_problem \<Rightarrow> axiom_index \<Rightarrow> kernel_limits \<Rightarrow> (nat \<rightharpoonup> goal_certificate) \<Rightarrow> nat list \<Rightarrow> nat set
   \<Rightarrow> replay_report \<Rightarrow> replay_report option" where
  "replay_goals problem axioms limits certificates [] verified report =
     (let report' = report\<lparr>rr_root_verified := (problem_root problem \<in> verified)\<rparr> in
      Some (report'\<lparr>rr_accepted := (rr_root_verified report'
              \<and> rr_verified_goals report' = rr_required_goals report')\<rparr>))"
| "replay_goals problem axioms limits certificates (goal_index # required) verified report =
     (case replay_goal problem axioms limits certificates verified goal_index report of
        None \<Rightarrow> None
      | Some (report', continue) \<Rightarrow>
          if continue
          then replay_goals problem axioms limits certificates required
                 (insert goal_index verified) report'
          else Some report')"

text \<open>The three checks on the certificate before its goals are read; \<^const>\<open>None\<close>
  when they all pass.\<close>

definition check_certificate_header ::
  "kernel_limits \<Rightarrow> string \<Rightarrow> proof_certificate \<Rightarrow> nat \<Rightarrow> kernel_failure option" where
  "check_certificate_header limits problem_hash certificate submitted_steps =
     (if cert_version certificate \<noteq> ruliad_ir_version
      then Some (failure Version None None
             (''certificate version '' @ show_nat (unat (cert_version certificate))
              @ '' does not match kernel version '' @ show_nat (unat ruliad_ir_version)))
      else if cert_problem_hash certificate \<noteq> problem_hash
      then Some (failure ProblemHash None None
             ''certificate problem hash does not match the canonical problem'')
      else if maximum_steps limits < submitted_steps
      then Some (failure ResourceLimit None None ''certificate step count exceeds kernel limit'')
      else None)"

definition replay_certificate ::
  "problem_hasher \<Rightarrow> proof_problem \<Rightarrow> proof_certificate \<Rightarrow> kernel_limits \<Rightarrow> replay_report option" where
  "replay_certificate hash problem certificate limits =
     (let report = initial_report problem certificate;
          required = required_goal_indices problem
      in case validate_problem hash problem limits of
        Inl e \<Rightarrow> Some (report\<lparr>rr_failure := Some e\<rparr>)
      | Inr problem_hash \<Rightarrow>
          let report = report\<lparr>rr_problem_hash := Some problem_hash\<rparr> in
          (case check_certificate_header limits problem_hash certificate (rr_submitted_steps report) of
             Some e \<Rightarrow> Some (report\<lparr>rr_failure := Some e\<rparr>)
           | None \<Rightarrow>
               (case collect_certificates (set required) None (cert_goals certificate) Map.empty of
                  Inl e \<Rightarrow> Some (report\<lparr>rr_failure := Some e\<rparr>)
                | Inr certificates \<Rightarrow>
                    replay_goals problem (index_axioms (problem_axioms problem)) limits certificates
                      required {} report)))"

end
