(* ===== verification/Ruliad_Validate.thy ===== *)
theory Ruliad_Validate
  imports Ruliad_Kernel
begin

text \<open>
  What \<open>validate_problem\<close> decides: the declarative well-formedness of a proof problem, and
  the facts about a validated problem the replay rests on (identifiers are unique, required
  goals are in range, dependencies are required and precede their goal).
\<close>

section \<open>Terms\<close>

fun wf_term :: "ruliad_term \<Rightarrow> bool" where
  "wf_term (Variable _) = True"
| "wf_term (Atom symbol) = valid_identifier symbol"
| "wf_term (Apply operator arguments) =
     (valid_identifier operator \<and> arguments \<noteq> [] \<and> list_all wf_term arguments)"

lemma validate_symbol_Inr [simp]: "validate_symbol s = Inr u \<longleftrightarrow> valid_identifier s"
  by (simp add: validate_symbol_def)

lemma validate_terms_Inr:
  "(\<And>t. t \<in> set ts \<Longrightarrow> validate_term t = Inr () \<longleftrightarrow> wf_term t) \<Longrightarrow>
   validate_terms ts = Inr () \<longleftrightarrow> list_all wf_term ts"
proof (induction ts)
  case (Cons t ts)
  then have t: "validate_term t = Inr () \<longleftrightarrow> wf_term t"
    and ts: "validate_terms ts = Inr () \<longleftrightarrow> list_all wf_term ts" by simp_all
  show ?case
  proof (cases "validate_term t")
    case (Inl e)
    with t have "\<not> wf_term t" by (metis sum.distinct(1))
    with Inl show ?thesis by simp
  next
    case (Inr u)
    with t ts show ?thesis by simp
  qed
qed simp

lemma validate_term_Inr [simp]: "validate_term t = Inr u \<longleftrightarrow> wf_term t"
proof (induction t arbitrary: u)
  case (Apply operator arguments)
  then show ?case
    using validate_terms_Inr [of arguments] by (auto split: sum.splits simp: validate_symbol_def)
qed simp_all

lemma validate_term_fails: "validate_term t = Inl e \<Longrightarrow> kf_kind e = MalformedProblem \<and> kf_goal e = None"
  and validate_terms_fails: "validate_terms ts = Inl e \<Longrightarrow> kf_kind e = MalformedProblem \<and> kf_goal e = None"
  by (induction t and ts rule: validate_term_validate_terms.induct)
    (auto simp: validate_symbol_def failure_def split: if_splits sum.splits)

section \<open>Axioms and goals\<close>

text \<open>The bytes of the identifiers the program writes, evaluated once.\<close>

lemma identifier_bytes: "list_all identifier_byte ''abcdefghijklmnopqrstuvwxyz_0123456789''"
  by code_simp

lemmas identifier_byte_literals = identifier_bytes [unfolded list.pred_inject]
lemmas identifier_literal = valid_identifier_def identifier_byte_literals

definition wf_axiom :: "rewrite_axiom \<Rightarrow> bool" where
  "wf_axiom ax \<longleftrightarrow>
     valid_identifier (ax_id ax) \<and> wf_term (ax_lhs ax) \<and> wf_term (ax_rhs ax)
     \<and> term_variables (ax_rhs ax) \<subseteq> term_variables (ax_lhs ax)
     \<and> (\<forall>v. ax_lhs ax \<noteq> Variable v)"

definition wf_goal :: "nat \<Rightarrow> proof_goal \<Rightarrow> bool" where
  "wf_goal index goal \<longleftrightarrow>
     valid_identifier (goal_id goal)
     \<and> wf_term (eq_lhs (goal_claim goal)) \<and> wf_term (eq_rhs (goal_claim goal))
     \<and> sorted_wrt (<) (goal_dependencies goal)
     \<and> (\<forall>d \<in> set (goal_dependencies goal). d < index)"

lemma validate_axiom_Inr:
  "validate_axiom ids ax = Inr u \<longleftrightarrow> wf_axiom ax \<and> ax_id ax \<notin> ids"
  by (auto simp: validate_axiom_def wf_axiom_def result_bind_Inr split: ruliad_term.splits)

lemma adjacent_increasing:
  "\<not> list_ex (\<lambda>(a, b). b \<le> a) (zip xs (tl xs)) \<longleftrightarrow> sorted_wrt (<) (xs :: nat list)"
proof (induction xs)
  case (Cons x xs)
  then show ?case by (cases xs) (auto simp: not_le intro: less_trans)
qed simp

lemma dependencies_ordered_iff:
  "dependencies_ordered index ds \<longleftrightarrow> sorted_wrt (<) ds \<and> (\<forall>d \<in> set ds. d < index)"
  using adjacent_increasing [of ds] by (auto simp: dependencies_ordered_def list_ex_iff not_le)

lemma validate_goal_Inr:
  "validate_goal index ids goal = Inr u \<longleftrightarrow> wf_goal index goal \<and> goal_id goal \<notin> ids"
  by (auto simp: validate_goal_def wf_goal_def result_bind_Inr dependencies_ordered_iff)

definition axiom_nodes :: "rewrite_axiom list \<Rightarrow> nat" where
  "axiom_nodes axioms = sum_list (map (\<lambda>ax. node_count (ax_lhs ax) + node_count (ax_rhs ax)) axioms)"

definition goal_nodes :: "proof_goal list \<Rightarrow> nat" where
  "goal_nodes goals =
     sum_list (map (\<lambda>g. node_count (eq_lhs (goal_claim g)) + node_count (eq_rhs (goal_claim g))) goals)"

lemma sat_add_twice: "n \<le> usize_max \<Longrightarrow> sat_add (sat_add n a) b = min usize_max (n + a + b)"
  by (auto simp: sat_add_def)

lemma validate_axioms_Inr:
  "n \<le> usize_max \<Longrightarrow>
   validate_axioms axioms ids n = Inr m \<longleftrightarrow>
     list_all wf_axiom axioms \<and> distinct (map ax_id axioms)
     \<and> ids \<inter> set (map ax_id axioms) = {} \<and> m = min usize_max (n + axiom_nodes axioms)"
proof (induction axioms ids n rule: validate_axioms.induct)
  case (2 ax axioms ids n)
  show ?case
  proof (cases "validate_axiom ids ax")
    case (Inl e)
    then have "\<not> (wf_axiom ax \<and> ax_id ax \<notin> ids)" using validate_axiom_Inr by (metis sum.distinct(1))
    with Inl show ?thesis by auto
  next
    case (Inr u)
    then have ok: "wf_axiom ax \<and> ax_id ax \<notin> ids" using validate_axiom_Inr by blast
    have "min usize_max (sat_add (sat_add n (node_count (ax_lhs ax))) (node_count (ax_rhs ax))
            + axiom_nodes axioms) = min usize_max (n + axiom_nodes (ax # axioms))"
      using 2(2) by (simp add: sat_add_twice axiom_nodes_def)
    with Inr ok 2 show ?thesis by auto
  qed
qed (auto simp: axiom_nodes_def)

lemma validate_goals_Inr:
  "n \<le> usize_max \<Longrightarrow>
   validate_goals index goals ids n = Inr m \<longleftrightarrow>
     (\<forall>k < length goals. wf_goal (index + k) (goals ! k)) \<and> distinct (map goal_id goals)
     \<and> ids \<inter> set (map goal_id goals) = {} \<and> m = min usize_max (n + goal_nodes goals)"
proof (induction index goals ids n rule: validate_goals.induct)
  case (2 index goal goals ids n)
  have split: "(\<forall>k < length (goal # goals). wf_goal (index + k) ((goal # goals) ! k)) \<longleftrightarrow>
      wf_goal index goal \<and> (\<forall>k < length goals. wf_goal (Suc index + k) (goals ! k))"
    by (auto simp: nth_Cons less_Suc_eq_0_disj split: nat.splits)
  show ?case
  proof (cases "validate_goal index ids goal")
    case (Inl e)
    then have "\<not> (wf_goal index goal \<and> goal_id goal \<notin> ids)"
      using validate_goal_Inr by (metis sum.distinct(1))
    with Inl split show ?thesis by auto
  next
    case (Inr u)
    then have ok: "wf_goal index goal \<and> goal_id goal \<notin> ids" using validate_goal_Inr by blast
    have "min usize_max (sat_add (sat_add n (node_count (eq_lhs (goal_claim goal))))
            (node_count (eq_rhs (goal_claim goal))) + goal_nodes goals)
        = min usize_max (n + goal_nodes (goal # goals))"
      using 2(2) by (simp add: sat_add_twice goal_nodes_def)
    with Inr ok 2 split show ?thesis by auto
  qed
qed (auto simp: goal_nodes_def)

section \<open>Problems\<close>

definition wf_problem :: "kernel_limits \<Rightarrow> proof_problem \<Rightarrow> bool" where
  "wf_problem limits problem \<longleftrightarrow>
     problem_version problem = ruliad_ir_version
     \<and> str_trim (problem_theory problem) \<noteq> []
     \<and> problem_root problem < length (problem_goals problem)
     \<and> length (problem_axioms problem) \<le> maximum_axioms limits
     \<and> length (problem_goals problem) \<le> maximum_goals limits
     \<and> list_all wf_axiom (problem_axioms problem) \<and> distinct (map ax_id (problem_axioms problem))
     \<and> (\<forall>k < length (problem_goals problem). wf_goal k (problem_goals problem ! k))
     \<and> distinct (map goal_id (problem_goals problem))
     \<and> min usize_max (axiom_nodes (problem_axioms problem) + goal_nodes (problem_goals problem))
         \<le> maximum_term_nodes limits"

lemma validate_problem_Inr:
  "validate_problem hash problem limits = Inr h \<longleftrightarrow> wf_problem limits problem \<and> hash problem = Inr h"
proof -
  have nodes: "min usize_max (min usize_max (axiom_nodes as) + goal_nodes gs)
      = min usize_max (axiom_nodes as + goal_nodes gs)" for as gs
    by auto
  show ?thesis
    unfolding validate_problem_def wf_problem_def
    by (auto simp: result_bind_Inr validate_axioms_Inr validate_goals_Inr nodes not_less)
qed

lemma wf_problem_goal:
  "wf_problem limits problem \<Longrightarrow> i < length (problem_goals problem) \<Longrightarrow> wf_goal i (problem_goals problem ! i)"
  by (simp add: wf_problem_def)

lemma wf_problem_axiom: "wf_problem limits problem \<Longrightarrow> ax \<in> set (problem_axioms problem) \<Longrightarrow> wf_axiom ax"
  by (simp add: wf_problem_def list_all_iff)

lemma wf_required_in_range:
  assumes "wf_problem limits problem" and "i \<in> required_goal_set problem"
  shows "i < length (problem_goals problem)"
proof -
  have "i \<le> problem_root problem"
    using assms by (intro required_in_range) (auto simp: wf_problem_def wf_goal_def)
  with assms(1) show ?thesis by (simp add: wf_problem_def)
qed

lemma wf_dependency_required:
  assumes "wf_problem limits problem" and "i \<in> required_goal_set problem"
    and "d \<in> set (goal_dependencies (problem_goals problem ! i))"
  shows "d \<in> required_goal_set problem \<and> d < i"
proof -
  have "i < length (problem_goals problem)" using assms(1,2) by (rule wf_required_in_range)
  with assms show ?thesis
    using required_dependency [of i problem d] wf_problem_goal [of limits problem i]
    by (auto simp: goal_dependencies_at_def wf_goal_def)
qed

section \<open>The axiom index\<close>

lemma index_axioms_fold:
  "foldl (\<lambda>m ax. m(ax_id ax \<mapsto> ax)) m axioms = m ++ map_of (rev (map (\<lambda>ax. (ax_id ax, ax)) axioms))"
  by (induction axioms arbitrary: m) (auto simp: map_add_assoc [symmetric])

lemma index_axioms_Some:
  "index_axioms axioms ident = Some ax \<Longrightarrow> ax \<in> set axioms \<and> ax_id ax = ident"
  by (auto simp: index_axioms_def index_axioms_fold dest!: map_of_SomeD)

lemma index_axioms_lookup:
  assumes "distinct (map ax_id axioms)" and "ax \<in> set axioms"
  shows "index_axioms axioms (ax_id ax) = Some ax"
proof -
  have "distinct (map fst (map (\<lambda>ax. (ax_id ax, ax)) axioms))"
    using assms(1) by (simp add: comp_def)
  then have "distinct (map fst (rev (map (\<lambda>ax. (ax_id ax, ax)) axioms)))"
    by (simp only: rev_map [symmetric] distinct_rev)
  moreover have "(ax_id ax, ax) \<in> set (rev (map (\<lambda>ax. (ax_id ax, ax)) axioms))"
    using assms(2) by auto
  ultimately show ?thesis
    by (simp only: index_axioms_def index_axioms_fold empty_map_add map_of_eq_Some_iff)
qed

section \<open>The kinds of a validation failure\<close>

lemma validate_axiom_fails: "validate_axiom ids ax = Inl e \<Longrightarrow> kf_kind e = MalformedProblem"
  unfolding validate_axiom_def result_bind_def
  by (auto simp: failure_def dest: validate_term_fails split: if_split_asm sum.split_asm)

lemma validate_goal_fails: "validate_goal index ids goal = Inl e \<Longrightarrow> kf_kind e = MalformedProblem"
  by (auto simp: validate_goal_def failure_def result_bind_def dest: validate_term_fails
      split: if_splits sum.splits)

lemma validate_axioms_fails: "validate_axioms axioms ids n = Inl e \<Longrightarrow> kf_kind e = MalformedProblem"
  by (induction axioms ids n rule: validate_axioms.induct)
    (auto split: sum.splits dest: validate_axiom_fails)

lemma validate_goals_fails: "validate_goals index goals ids n = Inl e \<Longrightarrow> kf_kind e = MalformedProblem"
  by (induction index goals ids n rule: validate_goals.induct)
    (auto split: sum.splits dest: validate_goal_fails)

lemma validate_problem_fails:
  "validate_problem hash problem limits = Inl e \<Longrightarrow>
   kf_kind e \<in> {Version, ResourceLimit, MalformedProblem}"
  unfolding validate_problem_def result_bind_def map_err_def
  by (auto split: if_splits sum.splits dest: validate_axioms_fails validate_goals_fails
      simp: failure_def)

end
