(* ===== verification/Ruliad_Replay.thy ===== *)
theory Ruliad_Replay
  imports Ruliad_Validate
begin

text \<open>
  What the replay of a certificate establishes. \<open>proof_steps\<close> is the step relation of one
  goal: a list of steps that each apply. The loops of the kernel are runs of it: the goal
  transition kernel computes its unique end state, and the certificate replay accepts exactly
  the certificates that list the required goals in order and whose steps run from each
  goal's left side to its right side.
\<close>

section \<open>The step relation of a goal\<close>

definition step_result ::
  "proof_problem \<Rightarrow> nat \<Rightarrow> kernel_limits \<Rightarrow> ruliad_term \<Rightarrow> proof_step \<Rightarrow> kernel_failure + ruliad_term" where
  "step_result problem goal_index limits current step =
     apply_step problem goal_index (problem_goals problem ! goal_index)
       (index_axioms (problem_axioms problem)) current step limits"

inductive proof_steps ::
  "proof_problem \<Rightarrow> nat \<Rightarrow> kernel_limits \<Rightarrow> ruliad_term \<Rightarrow> proof_step list \<Rightarrow> ruliad_term \<Rightarrow> bool"
  for problem :: proof_problem and goal_index :: nat and limits :: kernel_limits
where
  proof_steps_Nil: "proof_steps problem goal_index limits t [] t"
| proof_steps_Cons:
    "step_result problem goal_index limits t step = Inr u \<Longrightarrow>
     proof_steps problem goal_index limits u steps v \<Longrightarrow>
     proof_steps problem goal_index limits t (step # steps) v"

inductive_simps proof_steps_Nil_iff [simp]: "proof_steps problem goal_index limits t [] v"

inductive_simps proof_steps_Cons_iff [simp]:
  "proof_steps problem goal_index limits t (step # steps) v"

inductive_cases proof_steps_ConsE: "proof_steps problem goal_index limits t (step # steps) v"

lemma proof_steps_append:
  "proof_steps problem g limits t (xs @ ys) v \<longleftrightarrow>
     (\<exists>u. proof_steps problem g limits t xs u \<and> proof_steps problem g limits u ys v)"
  by (induction xs arbitrary: t) auto

lemma proof_steps_deterministic:
  "proof_steps problem g limits t steps u \<Longrightarrow> proof_steps problem g limits t steps v \<Longrightarrow> u = v"
  by (induction arbitrary: v rule: proof_steps.induct) auto

section \<open>The goal transition kernel\<close>

lemma goal_kernel_new_Inr:
  "goal_kernel_new hash problem g limits = Inr k \<longleftrightarrow>
     wf_problem limits problem \<and> (\<exists>h. hash problem = Inr h) \<and> g \<in> required_goal_set problem
     \<and> k = \<lparr>gk_problem = problem, gk_goal_index = g, gk_goal = problem_goals problem ! g,
             gk_axioms = index_axioms (problem_axioms problem), gk_limits = limits\<rparr>"
  using wf_required_in_range [of limits problem g]
  by (auto simp: goal_kernel_new_def result_bind_Inr validate_problem_Inr)

lemma gk_replay_loop_Inr:
  assumes "goal_kernel_new hash problem g limits = Inr k"
  shows "gk_replay_loop k i t steps = Inr v \<longleftrightarrow> proof_steps problem g limits t steps v"
proof (induction steps arbitrary: i t)
  case (Cons step steps)
  have "gk_apply k t step = step_result problem g limits t step"
    using assms by (auto simp: goal_kernel_new_Inr gk_apply_def step_result_def)
  with Cons show ?case by (cases "step_result problem g limits t step") simp_all
qed auto

lemma replay_goal_prefix_Inr:
  "replay_goal_prefix hash problem g steps limits = Inr v \<longleftrightarrow>
     wf_problem limits problem \<and> (\<exists>h. hash problem = Inr h) \<and> g \<in> required_goal_set problem
     \<and> length steps \<le> maximum_steps limits
     \<and> proof_steps problem g limits (eq_lhs (goal_claim (problem_goals problem ! g))) steps v"
  (is "?L \<longleftrightarrow> ?R")
proof -
  have "?L \<longleftrightarrow> (\<exists>k. goal_kernel_new hash problem g limits = Inr k
      \<and> length steps \<le> maximum_steps limits
      \<and> proof_steps problem g limits (eq_lhs (goal_claim (problem_goals problem ! g))) steps v)"
    unfolding replay_goal_prefix_def result_bind_Inr
    by (intro ex_cong1 conj_cong refl)
      (auto simp: gk_replay_prefix_def gk_replay_loop_Inr gk_initial_def, auto simp: goal_kernel_new_Inr)
  also have "\<dots> \<longleftrightarrow> ?R" by (auto simp: goal_kernel_new_Inr)
  finally show ?thesis .
qed

section \<open>The loops of the certificate replay\<close>

definition goal_proved ::
  "proof_problem \<Rightarrow> kernel_limits \<Rightarrow> (nat \<rightharpoonup> goal_certificate) \<Rightarrow> nat \<Rightarrow> bool" where
  "goal_proved problem limits certificates g \<longleftrightarrow>
     (\<exists>node. certificates g = Some node \<and>
        proof_steps problem g limits (eq_lhs (goal_claim (problem_goals problem ! g)))
          (gc_steps node) (eq_rhs (goal_claim (problem_goals problem ! g))))"

lemma replay_steps_result:
  assumes "replay_steps problem g (problem_goals problem ! g)
      (index_axioms (problem_axioms problem)) limits i steps t report = (report', result)"
  shows "result = Some v \<longleftrightarrow> proof_steps problem g limits t steps v"
    and "result = Some v \<Longrightarrow>
      report' = report\<lparr>rr_verified_steps := rr_verified_steps report + length steps\<rparr>"
    and "result = None \<Longrightarrow> \<exists>e n. n < length steps \<and> kf_goal e = Some g \<and> kf_step e = Some (i + n) \<and>
      report' = report\<lparr>rr_verified_steps := rr_verified_steps report + n, rr_failure := Some e\<rparr>"
  using assms
proof (induction steps arbitrary: i t report)
  case (Cons step steps)
  case 1
  show ?case
    using 1 Cons.IH(1) by (cases "step_result problem g limits t step") (auto simp: step_result_def)
next
  case (Cons step steps)
  case 2
  then obtain u where "step_result problem g limits t step = Inr u"
    by (cases "step_result problem g limits t step") (auto simp: step_result_def)
  with 2 show ?case
    using Cons.IH(2) [of "Suc i" u "report\<lparr>rr_verified_steps := rr_verified_steps report + 1\<rparr>"]
    by (simp add: step_result_def)
next
  case (Cons step steps)
  case 3
  show ?case
  proof (cases "step_result problem g limits t step")
    case (Inl e)
    with 3 show ?thesis by (intro exI [of _ "e\<lparr>kf_goal := Some g, kf_step := Some i\<rparr>"] exI [of _ 0])
      (auto simp: step_result_def)
  next
    case (Inr u)
    with 3 obtain e n where "n < length steps" "kf_goal e = Some g" "kf_step e = Some (Suc i + n)"
      "report' = report\<lparr>rr_verified_steps := rr_verified_steps report + 1 + n, rr_failure := Some e\<rparr>"
      using Cons.IH(3) [of "Suc i" u "report\<lparr>rr_verified_steps := rr_verified_steps report + 1\<rparr>"]
      by (auto simp: step_result_def)
    then show ?thesis by (intro exI [of _ e] exI [of _ "Suc n"]) simp
  qed
qed auto

lemma collect_certificates_Inr:
  "collect_certificates required previous nodes m = Inr m' \<longleftrightarrow>
     sorted_wrt (<) (case previous of None \<Rightarrow> map gc_goal nodes | Some p \<Rightarrow> p # map gc_goal nodes)
       \<and> gc_goal ` set nodes \<subseteq> required
       \<and> m' = m ++ map_of (rev (map (\<lambda>n. (gc_goal n, n)) nodes))"
proof (induction required previous nodes m rule: collect_certificates.induct)
  case (2 required previous node nodes m)
  define guard where "guard = (case previous of None \<Rightarrow> False | Some p \<Rightarrow> gc_goal node \<le> p)"
  have index: "m(gc_goal node \<mapsto> node) ++ map_of (rev (map (\<lambda>n. (gc_goal n, n)) nodes))
      = m ++ map_of (rev (map (\<lambda>n. (gc_goal n, n)) (node # nodes)))"
    by (simp add: map_add_assoc [symmetric])
  show ?case
  proof (cases "guard \<or> gc_goal node \<notin> required")
    case True
    then show ?thesis by (auto simp: guard_def split: option.splits)
  next
    case False
    then have "collect_certificates required previous (node # nodes) m
        = collect_certificates required (Some (gc_goal node)) nodes (m(gc_goal node \<mapsto> node))"
      by (simp add: guard_def)
    moreover have "collect_certificates required (Some (gc_goal node)) nodes (m(gc_goal node \<mapsto> node)) = Inr m'
        \<longleftrightarrow> sorted_wrt (<) (gc_goal node # map gc_goal nodes) \<and> gc_goal ` set nodes \<subseteq> required
          \<and> m' = m(gc_goal node \<mapsto> node) ++ map_of (rev (map (\<lambda>n. (gc_goal n, n)) nodes))"
      by (rule 2 [unfolded option.case]) (use False in \<open>simp_all add: guard_def\<close>)
    ultimately have "collect_certificates required previous (node # nodes) m = Inr m'
        \<longleftrightarrow> sorted_wrt (<) (gc_goal node # map gc_goal nodes) \<and> gc_goal ` set nodes \<subseteq> required
          \<and> m' = m ++ map_of (rev (map (\<lambda>n. (gc_goal n, n)) (node # nodes)))"
      unfolding index by (simp only:)
    then show ?thesis
      using False by (cases previous) (auto simp: guard_def not_le less_trans)
  qed
qed (auto split: option.splits)

lemma collected_certificate:
  assumes "collect_certificates required None nodes Map.empty = Inr m"
  shows "m g = Some node \<longleftrightarrow> node \<in> set nodes \<and> gc_goal node = g"
proof -
  have sorted: "sorted_wrt (<) (map gc_goal nodes)"
    and m: "m = map_of (rev (map (\<lambda>n. (gc_goal n, n)) nodes))"
    using assms by (auto simp: collect_certificates_Inr)
  have "distinct (map fst (map (\<lambda>n. (gc_goal n, n)) nodes))"
    using sorted by (simp add: comp_def strict_sorted_iff)
  then have "distinct (map fst (rev (map (\<lambda>n. (gc_goal n, n)) nodes)))"
    by (simp only: rev_map [symmetric] distinct_rev)
  then have "m g = Some node \<longleftrightarrow> (g, node) \<in> set (rev (map (\<lambda>n. (gc_goal n, n)) nodes))"
    unfolding m by (rule map_of_eq_Some_iff)
  then show ?thesis by auto
qed

lemma find_None_subset: "set ds \<subseteq> verified \<Longrightarrow> find (\<lambda>d. d \<notin> verified) ds = None"
  by (auto simp: find_None_iff)

lemma goal_mismatch_fields [simp]:
  "kf_kind (goal_mismatch g i t u) = GoalMismatch"
  "kf_goal (goal_mismatch g i t u) = Some g"
  "kf_step (goal_mismatch g i t u) = Some i"
  by (simp_all add: goal_mismatch_def failure_def)

text \<open>One goal: the dependency check never fires when the dependencies were verified, and the
  iteration continues exactly when the goal is proved.\<close>

definition certificate_steps :: "(nat \<rightharpoonup> goal_certificate) \<Rightarrow> nat \<Rightarrow> nat" where
  "certificate_steps certificates g =
     (case certificates g of None \<Rightarrow> 0 | Some node \<Rightarrow> length (gc_steps node))"

lemma replay_goal_cases [consumes 2, case_names proved refuted]:
  assumes range: "g < length (problem_goals problem)"
    and deps: "set (goal_dependencies (problem_goals problem ! g)) \<subseteq> verified"
  obtains
    (proved) "goal_proved problem limits certificates g"
      "replay_goal problem (index_axioms (problem_axioms problem)) limits certificates verified g report
       = Some (report\<lparr>rr_verified_steps := rr_verified_steps report + certificate_steps certificates g,
                rr_verified_goals := rr_verified_goals report + 1\<rparr>, True)"
  | (refuted) e n where "\<not> goal_proved problem limits certificates g"
      "n \<le> certificate_steps certificates g" "kf_goal e = Some g"
      "kf_kind e = MissingDependency \<Longrightarrow> kf_step e \<noteq> None"
      "replay_goal problem (index_axioms (problem_axioms problem)) limits certificates verified g report
       = Some (report\<lparr>rr_verified_steps := rr_verified_steps report + n, rr_failure := Some e\<rparr>, False)"
proof (cases "certificates g")
  case None
  then show thesis
    by (intro refuted [of 0]) (auto simp: goal_proved_def replay_goal_def failure_def)
next
  case (Some node)
  define goal where "goal = problem_goals problem ! g"
  obtain report' result where run: "replay_steps problem g goal
      (index_axioms (problem_axioms problem)) limits 0 (gc_steps node) (eq_lhs (goal_claim goal)) report
      = (report', result)" by fastforce
  note steps = replay_steps_result [OF run [unfolded goal_def], folded goal_def]
  have find: "find (\<lambda>d. d \<notin> verified) (goal_dependencies goal) = None"
    using deps by (simp add: goal_def find_None_subset)
  note unfold = replay_goal_def Some goal_def [symmetric] find Let_def run goal_proved_def
    certificate_steps_def
  show thesis
  proof (cases result)
    case None
    with steps(3) obtain e n where "n < length (gc_steps node)" "kf_goal e = Some g" "kf_step e = Some n"
      "report' = report\<lparr>rr_verified_steps := rr_verified_steps report + n, rr_failure := Some e\<rparr>"
      by auto
    with None steps(1) range show thesis
      by (intro refuted [of n e]) (auto simp: unfold)
  next
    case result: (Some t)
    show thesis
    proof (cases "t = eq_rhs (goal_claim goal)")
      case True
      with result steps(1) [of t] steps(2) [of t] range show thesis
        by (intro proved) (auto simp: unfold)
    next
      case False
      with result steps(1) [of "eq_rhs (goal_claim goal)"] steps(2) [of t] range show thesis
        by (intro refuted [of "length (gc_steps node)"
              "goal_mismatch g (length (gc_steps node)) t (eq_rhs (goal_claim goal))"])
          (auto simp: unfold)
    qed
  qed
qed

text \<open>What the loop over the required goals does to the report, from any point on.\<close>

definition replay_outcome ::
  "proof_problem \<Rightarrow> kernel_limits \<Rightarrow> (nat \<rightharpoonup> goal_certificate) \<Rightarrow> nat list \<Rightarrow> replay_report \<Rightarrow> replay_report \<Rightarrow> bool"
where
  "replay_outcome problem limits certificates todo r r' \<longleftrightarrow>
     rr_accepted r' = list_all (goal_proved problem limits certificates) todo
     \<and> (rr_failure r' = None \<longleftrightarrow> rr_accepted r') \<and> rr_root_verified r' = rr_accepted r'
     \<and> rr_problem_hash r' = rr_problem_hash r \<and> rr_required_goals r' = rr_required_goals r
     \<and> rr_submitted_steps r' = rr_submitted_steps r \<and> rr_complexity r' = rr_complexity r
     \<and> rr_verified_steps r' \<le> rr_verified_steps r + sum_list (map (certificate_steps certificates) todo)
     \<and> (rr_accepted r' \<longrightarrow>
          rr_verified_steps r' = rr_verified_steps r + sum_list (map (certificate_steps certificates) todo))
     \<and> rr_verified_goals r' =
          rr_verified_goals r + length (takeWhile (goal_proved problem limits certificates) todo)
     \<and> (\<forall>e. rr_failure r' = Some e \<longrightarrow> kf_kind e = MissingDependency \<longrightarrow> kf_step e \<noteq> None)"

lemma replay_goals_outcome:
  assumes wf: "wf_problem limits problem"
    and split: "required_goal_indices problem = finished @ todo"
    and report: "rr_verified_goals report = length finished"
      "rr_required_goals report = length (required_goal_indices problem)"
      "rr_failure report = None" "\<not> rr_accepted report" "\<not> rr_root_verified report"
  shows "\<exists>report'. replay_goals problem (index_axioms (problem_axioms problem)) limits certificates
             todo (set finished) report = Some report'
           \<and> replay_outcome problem limits certificates todo report report'"
  using split report
proof (induction todo arbitrary: finished report)
  case Nil
  then have "problem_root problem \<in> set finished"
    using root_required [of problem] set_required_goal_indices [of problem] by simp
  with Nil show ?case by (simp add: replay_outcome_def)
next
  case (Cons g todo)
  have g: "g \<in> required_goal_set problem"
    using Cons.prems(1) set_required_goal_indices [of problem] by auto
  have range: "g < length (problem_goals problem)" using wf g by (rule wf_required_in_range)
  have deps: "set (goal_dependencies (problem_goals problem ! g)) \<subseteq> set finished"
  proof
    fix d assume "d \<in> set (goal_dependencies (problem_goals problem ! g))"
    then have "d \<in> required_goal_set problem" and less: "d < g"
      using wf_dependency_required [OF wf g] by auto
    then have "d \<in> set (finished @ g # todo)"
      using Cons.prems(1) set_required_goal_indices [of problem] by simp
    moreover have "sorted_wrt (<) (finished @ g # todo)"
      using sorted_required_goal_indices [of problem] Cons.prems(1) by simp
    ultimately show "d \<in> set finished" using less by (auto simp: sorted_wrt_append)
  qed
  from range deps show ?case
  proof (cases rule: replay_goal_cases [where limits = limits and certificates = certificates and report = report])
    case proved
    define report1 where "report1 =
      report\<lparr>rr_verified_steps := rr_verified_steps report + certificate_steps certificates g,
             rr_verified_goals := rr_verified_goals report + 1\<rparr>"
    have "\<exists>report'. replay_goals problem (index_axioms (problem_axioms problem)) limits certificates
             todo (set (finished @ [g])) report1 = Some report'
           \<and> replay_outcome problem limits certificates todo report1 report'"
      using Cons.prems by (intro Cons.IH) (simp_all add: report1_def)
    then obtain report' where "replay_goals problem (index_axioms (problem_axioms problem)) limits
          certificates todo (insert g (set finished)) report1 = Some report'"
      "replay_outcome problem limits certificates todo report1 report'" by auto
    with proved show ?thesis
      by (intro exI [of _ report']) (auto simp: replay_outcome_def report1_def)
  next
    case (refuted e n)
    with Cons.prems show ?thesis by (auto simp: replay_outcome_def)
  qed
qed

section \<open>Acceptance\<close>

definition certificate_proves :: "proof_problem \<Rightarrow> kernel_limits \<Rightarrow> proof_certificate \<Rightarrow> bool" where
  "certificate_proves problem limits certificate \<longleftrightarrow>
     map gc_goal (cert_goals certificate) = required_goal_indices problem
     \<and> (\<forall>node \<in> set (cert_goals certificate).
          proof_steps problem (gc_goal node) limits
            (eq_lhs (goal_claim (problem_goals problem ! gc_goal node))) (gc_steps node)
            (eq_rhs (goal_claim (problem_goals problem ! gc_goal node))))"

lemma collected_all_proved:
  assumes collected: "collect_certificates (required_goal_set problem) None (cert_goals certificate) Map.empty = Inr m"
  shows "list_all (goal_proved problem limits m) (required_goal_indices problem)
         \<longleftrightarrow> certificate_proves problem limits certificate"
proof
  note lookup = collected_certificate [OF collected]
  assume all: "list_all (goal_proved problem limits m) (required_goal_indices problem)"
  have sorted: "sorted_wrt (<) (map gc_goal (cert_goals certificate))"
    and sub: "gc_goal ` set (cert_goals certificate) \<subseteq> required_goal_set problem"
    using collected by (auto simp: collect_certificates_Inr)
  have "required_goal_set problem \<subseteq> gc_goal ` set (cert_goals certificate)"
    using all lookup by (fastforce simp: list_all_iff goal_proved_def)
  with sub have "set (map gc_goal (cert_goals certificate)) = set (required_goal_indices problem)" by auto
  then have "map gc_goal (cert_goals certificate) = required_goal_indices problem"
    using sorted sorted_required_goal_indices by (metis strict_sorted_equal)
  moreover have "goal_proved problem limits m (gc_goal node)" "m (gc_goal node) = Some node"
    if "node \<in> set (cert_goals certificate)" for node
    using all that sub lookup by (auto simp: list_all_iff)
  ultimately show "certificate_proves problem limits certificate"
    by (fastforce simp: certificate_proves_def goal_proved_def)
next
  note lookup = collected_certificate [OF collected]
  assume proves: "certificate_proves problem limits certificate"
  show "list_all (goal_proved problem limits m) (required_goal_indices problem)"
    unfolding list_all_iff
  proof
    fix g assume "g \<in> set (required_goal_indices problem)"
    then obtain node where node: "node \<in> set (cert_goals certificate)" "gc_goal node = g"
      using proves unfolding certificate_proves_def by (metis image_iff image_set)
    with proves lookup [of g node] show "goal_proved problem limits m g"
      by (auto simp: goal_proved_def certificate_proves_def)
  qed
qed

lemma proves_collected:
  assumes "certificate_proves problem limits certificate"
  shows "\<exists>m. collect_certificates (required_goal_set problem) None (cert_goals certificate) Map.empty = Inr m"
proof -
  have "map gc_goal (cert_goals certificate) = required_goal_indices problem"
    using assms by (simp add: certificate_proves_def)
  then have "sorted_wrt (<) (map gc_goal (cert_goals certificate))"
    "gc_goal ` set (cert_goals certificate) \<subseteq> required_goal_set problem"
    using sorted_required_goal_indices set_required_goal_indices [of problem]
    by (simp_all flip: set_map)
  then show ?thesis by (simp add: collect_certificates_Inr)
qed

text \<open>The submitted steps of an accepted certificate are the steps its goals index.\<close>

lemma sum_certificate_steps:
  assumes collected: "collect_certificates (required_goal_set problem) None (cert_goals certificate) Map.empty = Inr m"
  shows "sum_list (map (certificate_steps m) (required_goal_indices problem)) = step_count certificate"
proof -
  have sorted: "sorted_wrt (<) (map gc_goal (cert_goals certificate))"
    and sub: "gc_goal ` set (cert_goals certificate) \<subseteq> required_goal_set problem"
    using collected by (auto simp: collect_certificates_Inr)
  have inj: "inj_on gc_goal (set (cert_goals certificate))" "distinct (cert_goals certificate)"
    using sorted by (auto simp: strict_sorted_iff distinct_map)
  have step: "certificate_steps m (gc_goal node) = length (gc_steps node)"
    if "node \<in> set (cert_goals certificate)" for node
    using that collected_certificate [OF collected, of "gc_goal node" node]
    by (simp add: certificate_steps_def)
  have none: "certificate_steps m g = 0" if "g \<notin> gc_goal ` set (cert_goals certificate)" for g
  proof (cases "m g")
    case (Some node)
    then have "node \<in> set (cert_goals certificate)" "gc_goal node = g"
      using collected_certificate [OF collected, of g node] by auto
    with that show ?thesis by auto
  qed (simp add: certificate_steps_def)
  have "distinct (required_goal_indices problem)"
    using sorted_required_goal_indices by (simp add: strict_sorted_iff)
  then have "sum_list (map (certificate_steps m) (required_goal_indices problem))
      = sum (certificate_steps m) (required_goal_set problem)"
    by (simp add: sum_list_distinct_conv_sum_set)
  also have "\<dots> = sum (certificate_steps m) (gc_goal ` set (cert_goals certificate))"
    using sub none by (intro sum.mono_neutral_right) auto
  also have "\<dots> = sum (\<lambda>node. length (gc_steps node)) (set (cert_goals certificate))"
    using inj(1) step by (simp add: sum.reindex)
  also have "\<dots> = step_count certificate"
    using inj(2) by (simp add: step_count_def sum_list_distinct_conv_sum_set)
  finally show ?thesis .
qed

definition replay_accepts ::
  "problem_hasher \<Rightarrow> proof_problem \<Rightarrow> proof_certificate \<Rightarrow> kernel_limits \<Rightarrow> bool" where
  "replay_accepts hash problem certificate limits \<longleftrightarrow>
     (case replay_certificate hash problem certificate limits of
        None \<Rightarrow> False | Some report \<Rightarrow> rr_accepted report)"

lemma collect_certificates_fails:
  "collect_certificates required previous nodes m = Inl e \<Longrightarrow> kf_kind e = MalformedCertificate"
  by (induction required previous nodes m rule: collect_certificates.induct)
    (auto simp: failure_def split: if_splits)

lemma initial_report_fields [simp]:
  "rr_accepted (initial_report p c) = False" "rr_failure (initial_report p c) = None"
  "rr_root_verified (initial_report p c) = False" "rr_verified_goals (initial_report p c) = 0"
  "rr_verified_steps (initial_report p c) = 0"
  "rr_submitted_steps (initial_report p c) = step_count c"
  "rr_required_goals (initial_report p c) = length (required_goal_indices p)"
  by (simp_all add: initial_report_def)

text \<open>The replay case by case: a rejection before the goal loop, or the goal loop's outcome.\<close>

lemma check_certificate_header_None:
  "check_certificate_header limits h certificate n = None \<longleftrightarrow>
     cert_version certificate = ruliad_ir_version \<and> cert_problem_hash certificate = h
     \<and> n \<le> maximum_steps limits"
  by (auto simp: check_certificate_header_def)

lemma check_certificate_header_Some:
  "check_certificate_header limits h certificate n = Some e \<Longrightarrow>
   kf_kind e \<in> {Version, ProblemHash, ResourceLimit}"
  by (auto simp: check_certificate_header_def failure_def split: if_splits)

lemma replay_certificate_cases:
  obtains
    (rejected) e hash_field where
      "replay_certificate hash problem certificate limits =
         Some ((initial_report problem certificate)\<lparr>rr_problem_hash := hash_field, rr_failure := Some e\<rparr>)"
      "kf_kind e \<noteq> MissingDependency"
      "\<not> (wf_problem limits problem \<and> hash problem = Inr (cert_problem_hash certificate)
          \<and> cert_version certificate = ruliad_ir_version
          \<and> step_count certificate \<le> maximum_steps limits
          \<and> certificate_proves problem limits certificate)"
  | (replayed) m report where
      "wf_problem limits problem" "hash problem = Inr (cert_problem_hash certificate)"
      "cert_version certificate = ruliad_ir_version" "step_count certificate \<le> maximum_steps limits"
      "collect_certificates (required_goal_set problem) None (cert_goals certificate) Map.empty = Inr m"
      "replay_certificate hash problem certificate limits = Some report"
      "replay_outcome problem limits m (required_goal_indices problem)
         ((initial_report problem certificate)\<lparr>rr_problem_hash := Some (cert_problem_hash certificate)\<rparr>) report"
proof (cases "validate_problem hash problem limits")
  case (Inl e)
  then have "\<not> (wf_problem limits problem \<and> hash problem = Inr (cert_problem_hash certificate))"
    using validate_problem_Inr [of hash problem limits "cert_problem_hash certificate"] by simp
  with Inl show thesis
    by (intro rejected [of e None]) (auto simp: replay_certificate_def Let_def initial_report_def
        dest: validate_problem_fails)
next
  case (Inr h)
  then have valid: "wf_problem limits problem" "hash problem = Inr h"
    by (auto simp: validate_problem_Inr)
  define base where "base = (initial_report problem certificate)\<lparr>rr_problem_hash := Some h\<rparr>"
  note unfold = replay_certificate_def Let_def Inr sum.case set_required_goal_indices base_def [symmetric]
  show thesis
  proof (cases "check_certificate_header limits h certificate (step_count certificate)")
    case (Some e)
    then have "replay_certificate hash problem certificate limits = Some (base\<lparr>rr_failure := Some e\<rparr>)"
      unfolding unfold by (simp add: base_def)
    moreover have "kf_kind e \<noteq> MissingDependency"
      using check_certificate_header_Some [OF Some] by auto
    moreover have "\<not> (cert_version certificate = ruliad_ir_version \<and> cert_problem_hash certificate = h
        \<and> step_count certificate \<le> maximum_steps limits)"
      using Some check_certificate_header_None [of limits h certificate "step_count certificate"] by auto
    ultimately show thesis using valid by (intro rejected [of e "Some h"]) (auto simp: base_def)
  next
    case None
    then have header: "cert_version certificate = ruliad_ir_version" "cert_problem_hash certificate = h"
      "step_count certificate \<le> maximum_steps limits"
      by (simp_all add: check_certificate_header_None)
    have run: "replay_certificate hash problem certificate limits =
        (case collect_certificates (required_goal_set problem) None (cert_goals certificate) Map.empty of
           Inl e \<Rightarrow> Some (base\<lparr>rr_failure := Some e\<rparr>)
         | Inr m \<Rightarrow> replay_goals problem (index_axioms (problem_axioms problem)) limits m
                     (required_goal_indices problem) {} base)"
      unfolding unfold using None by (simp add: base_def)
    show thesis
    proof (cases "collect_certificates (required_goal_set problem) None (cert_goals certificate) Map.empty")
      case (Inl e)
      then have "\<not> certificate_proves problem limits certificate"
        using proves_collected [of problem limits certificate] by auto
      with Inl run show thesis
        by (intro rejected [of e "Some h"]) (auto simp: base_def dest: collect_certificates_fails)
    next
      case (Inr m)
      have "\<exists>report. replay_goals problem (index_axioms (problem_axioms problem)) limits m
             (required_goal_indices problem) (set []) base = Some report
           \<and> replay_outcome problem limits m (required_goal_indices problem) base report"
        by (rule replay_goals_outcome [OF valid(1)]) (simp_all add: base_def)
      then obtain report where "replay_certificate hash problem certificate limits = Some report"
        "replay_outcome problem limits m (required_goal_indices problem) base report"
        using Inr run by auto
      with header valid Inr show thesis by (intro replayed [of m report]) (simp_all add: base_def)
    qed
  qed
qed

lemma replay_accepts_iff:
  "replay_accepts hash problem certificate limits \<longleftrightarrow>
     wf_problem limits problem \<and> hash problem = Inr (cert_problem_hash certificate)
     \<and> cert_version certificate = ruliad_ir_version
     \<and> step_count certificate \<le> maximum_steps limits
     \<and> certificate_proves problem limits certificate"
proof (cases rule: replay_certificate_cases [of hash problem certificate limits])
  case (rejected e hash_field)
  then show ?thesis by (auto simp: replay_accepts_def)
next
  case (replayed m report)
  then show ?thesis
    using collected_all_proved [OF replayed(5), of limits]
    by (simp add: replay_accepts_def replay_outcome_def)
qed

end
