(* ===== verification/Ruliad_Matching.thy ===== *)
theory Ruliad_Matching
  imports Ruliad_Kernel
begin

text \<open>
  The rewrite step of the kernel. The matcher decides whether a term is an instance of the
  pattern and computes the unique substitution on the pattern's variables; rewriting at a path
  replaces exactly the subterm there by the instance of the other side.
\<close>

section \<open>Instances\<close>

lemma instantiate_mono:
  "instantiate t \<sigma> = Some u \<Longrightarrow> \<sigma> \<subseteq>\<^sub>m \<tau> \<Longrightarrow> instantiate t \<tau> = Some u"
proof (induction t arbitrary: u)
  case (Apply operator arguments)
  then obtain us where us: "map (\<lambda>a. instantiate a \<sigma>) arguments = map Some us" "u = Apply operator us"
    by (auto simp: those_Some_iff)
  then have "map (\<lambda>a. instantiate a \<tau>) arguments = map Some us"
    using Apply by (auto simp: list_eq_iff_nth_eq)
  with us show ?case by (simp add: those_Some_iff)
qed (auto simp: map_le_def dom_def)

lemma instantiate_defined:
  "(\<exists>u. instantiate t \<sigma> = Some u) \<longleftrightarrow> term_variables t \<subseteq> dom \<sigma>"
proof (induction t)
  case (Apply operator arguments)
  have "(\<exists>u. instantiate (Apply operator arguments) \<sigma> = Some u)
      \<longleftrightarrow> (\<exists>us. those (map (\<lambda>a. instantiate a \<sigma>) arguments) = Some us)" by auto
  also have "\<dots> \<longleftrightarrow> (\<forall>a \<in> set arguments. \<exists>u. instantiate a \<sigma> = Some u)"
    unfolding those_defined by (auto simp: image_iff) (metis option.exhaust)
  finally show ?case using Apply by auto
qed auto

section \<open>Matching\<close>

lemma match_sound:
  "match_term p v \<sigma> = (True, \<sigma>') \<Longrightarrow>
     \<sigma> \<subseteq>\<^sub>m \<sigma>' \<and> dom \<sigma>' = dom \<sigma> \<union> term_variables p \<and> instantiate p \<sigma>' = Some v"
  "match_terms ps vs \<sigma> = (True, \<sigma>') \<Longrightarrow> length ps = length vs \<Longrightarrow>
     \<sigma> \<subseteq>\<^sub>m \<sigma>' \<and> dom \<sigma>' = dom \<sigma> \<union> \<Union> (term_variables ` set ps)
     \<and> those (map (\<lambda>p. instantiate p \<sigma>') ps) = Some vs"
proof (induction p v \<sigma> and ps vs \<sigma> arbitrary: \<sigma>' and \<sigma>' rule: match_term_match_terms.induct)
  case (1 index v \<sigma>)
  then show ?case by (auto split: option.splits simp: map_le_def)
next
  case (3 f ps g vs \<sigma>)
  then show ?case by (auto split: if_splits)
next
  case (8 p ps v vs \<sigma>)
  then obtain \<sigma>1 where \<sigma>1: "match_term p v \<sigma> = (True, \<sigma>1)" "match_terms ps vs \<sigma>1 = (True, \<sigma>')"
    by (auto split: prod.splits if_splits)
  have head: "\<sigma> \<subseteq>\<^sub>m \<sigma>1" "dom \<sigma>1 = dom \<sigma> \<union> term_variables p" "instantiate p \<sigma>1 = Some v"
    using "8.IH"(1) [OF \<sigma>1(1)] by auto
  have tail: "\<sigma>1 \<subseteq>\<^sub>m \<sigma>'" "dom \<sigma>' = dom \<sigma>1 \<union> \<Union> (term_variables ` set ps)"
    "those (map (\<lambda>p. instantiate p \<sigma>') ps) = Some vs"
    using "8.IH"(2) [OF \<sigma>1(1) [symmetric] TrueI, of \<sigma>'] \<sigma>1 "8.prems"(2) by auto
  show ?case
    using head tail instantiate_mono [OF head(3) tail(1)] map_le_trans [OF head(1) tail(1)] by auto
qed auto

lemma match_complete:
  "\<sigma> \<subseteq>\<^sub>m \<tau> \<Longrightarrow> instantiate p \<tau> = Some v \<Longrightarrow> \<exists>\<sigma>'. match_term p v \<sigma> = (True, \<sigma>') \<and> \<sigma>' \<subseteq>\<^sub>m \<tau>"
  "\<sigma> \<subseteq>\<^sub>m \<tau> \<Longrightarrow> those (map (\<lambda>p. instantiate p \<tau>) ps) = Some vs \<Longrightarrow>
     \<exists>\<sigma>'. match_terms ps vs \<sigma> = (True, \<sigma>') \<and> \<sigma>' \<subseteq>\<^sub>m \<tau>"
proof (induction p v \<sigma> and ps vs \<sigma> rule: match_term_match_terms.induct)
  case (1 index v \<sigma>)
  then show ?case by (auto split: option.splits simp: map_le_def dom_def)
next
  case (3 f ps g vs \<sigma>)
  then have "length ps = length vs" by (auto simp: those_Some_iff dest: map_eq_imp_length_eq)
  with 3 show ?case by auto
next
  case (8 p ps v vs \<sigma>)
  then have "instantiate p \<tau> = Some v" "those (map (\<lambda>p. instantiate p \<tau>) ps) = Some vs"
    by (auto split: option.splits)
  with "8.IH" "8.prems"(1) show ?case by (fastforce split: prod.splits)
qed (auto split: option.splits)

lemma match_iff:
  "(\<exists>\<sigma>. match_term p v Map.empty = (True, \<sigma>)) \<longleftrightarrow> (\<exists>\<tau>. instantiate p \<tau> = Some v)"
proof
  assume "\<exists>\<sigma>. match_term p v Map.empty = (True, \<sigma>)"
  then show "\<exists>\<tau>. instantiate p \<tau> = Some v" using match_sound(1) by blast
next
  assume "\<exists>\<tau>. instantiate p \<tau> = Some v"
  then show "\<exists>\<sigma>. match_term p v Map.empty = (True, \<sigma>)"
    using match_complete(1) [of Map.empty] by fastforce
qed

lemma match_unique:
  assumes "match_term p v Map.empty = (True, \<sigma>)" and "instantiate p \<tau> = Some v"
  shows "\<tau> |` term_variables p = \<sigma>"
proof -
  obtain \<sigma>' where "match_term p v Map.empty = (True, \<sigma>')" "\<sigma>' \<subseteq>\<^sub>m \<tau>"
    using match_complete(1) [of Map.empty \<tau> p v] assms(2) by auto
  with assms(1) have le: "\<sigma> \<subseteq>\<^sub>m \<tau>" and dom: "dom \<sigma> = term_variables p"
    using match_sound(1) [OF assms(1)] by auto
  show ?thesis
  proof (rule ext)
    fix x
    show "(\<tau> |` term_variables p) x = \<sigma> x"
    proof (cases "x \<in> term_variables p")
      case True
      with le dom show ?thesis by (simp add: map_le_def)
    next
      case False
      with dom have "\<sigma> x = None" by (metis domIff)
      with False show ?thesis by simp
    qed
  qed
qed

section \<open>Rewriting\<close>

lemma rewrite_here_Inr:
  "rewrite_here t p r = Inr u \<longleftrightarrow>
     (\<exists>\<sigma>. dom \<sigma> = term_variables p \<and> instantiate p \<sigma> = Some t \<and> instantiate r \<sigma> = Some u)"
proof
  assume "rewrite_here t p r = Inr u"
  then obtain \<sigma> where \<sigma>: "match_term p t Map.empty = (True, \<sigma>)" "instantiate r \<sigma> = Some u"
    by (auto simp: rewrite_here_def split: prod.splits if_splits option.splits)
  then have "dom \<sigma> = term_variables p" "instantiate p \<sigma> = Some t"
    using match_sound(1) [OF \<sigma>(1)] by auto
  with \<sigma>(2)
  show "\<exists>\<sigma>. dom \<sigma> = term_variables p \<and> instantiate p \<sigma> = Some t \<and> instantiate r \<sigma> = Some u"
    by blast
next
  assume "\<exists>\<sigma>. dom \<sigma> = term_variables p \<and> instantiate p \<sigma> = Some t \<and> instantiate r \<sigma> = Some u"
  then obtain \<tau> where \<tau>: "dom \<tau> = term_variables p" "instantiate p \<tau> = Some t" "instantiate r \<tau> = Some u"
    by blast
  then obtain \<sigma> where \<sigma>: "match_term p t Map.empty = (True, \<sigma>)"
    using match_iff by blast
  have "\<tau> |` term_variables p = \<tau>"
    unfolding \<tau>(1) [symmetric] by (intro ext) (auto simp: restrict_map_def domIff)
  with match_unique [OF \<sigma> \<tau>(2)] have "match_term p t Map.empty = (True, \<tau>)" using \<sigma> by simp
  then show "rewrite_here t p r = Inr u" using \<tau>(3) by (simp add: rewrite_here_def)
qed

text \<open>The term with the subterm at a path replaced.\<close>

fun put_at :: "ruliad_term \<Rightarrow> nat list \<Rightarrow> ruliad_term \<Rightarrow> ruliad_term" where
  "put_at t [] s = s"
| "put_at (Apply operator arguments) (index # rest) s =
     Apply operator (arguments[index := put_at (arguments ! index) rest s])"
| "put_at (Variable v) (index # rest) s = Variable v"
| "put_at (Atom a) (index # rest) s = Atom a"

lemma rewrite_at_path_Inr:
  "rewrite_at_path t path p r = Inr u \<longleftrightarrow>
     (\<exists>s s'. at_path t path = Some s \<and> rewrite_here s p r = Inr s' \<and> u = put_at t path s')"
proof (induction t path p r arbitrary: u rule: rewrite_at_path.induct)
  case (2 operator arguments index rest p r)
  have step: "rewrite_at_path (Apply operator arguments) (index # rest) p r = Inr u \<longleftrightarrow>
      index < length arguments \<and> (\<exists>w. rewrite_at_path (arguments ! index) rest p r = Inr w
        \<and> u = Apply operator (arguments[index := w]))"
    by (auto split: sum.splits)
  show ?case
    by (cases "index < length arguments") (simp_all only: step 2 at_path.simps put_at.simps, auto)
qed auto

lemma at_path_put_at: "at_path t path = Some s \<Longrightarrow> at_path (put_at t path s') path = Some s'"
  by (induction t path arbitrary: s rule: at_path.induct) (auto split: if_splits)

lemma put_at_put_at: "at_path t path = Some s \<Longrightarrow> put_at (put_at t path s1) path s2 = put_at t path s2"
  by (induction t path arbitrary: s rule: at_path.induct) (auto split: if_splits)

lemma put_at_same: "at_path t path = Some s \<Longrightarrow> put_at t path s = t"
  by (induction t path rule: at_path.induct) (auto split: if_splits simp: list_update_same_conv)

text \<open>A path that leaves the rewritten path at some point sees the same subterm.\<close>

lemma at_path_put_at_other:
  "i \<noteq> j \<Longrightarrow> at_path (put_at t (common @ i # xs) s) (common @ j # ys) = at_path t (common @ j # ys)"
proof (induction common arbitrary: t)
  case Nil
  then show ?case by (cases t) (auto simp: nth_list_update)
next
  case (Cons k common)
  then show ?case by (cases t) (auto simp: nth_list_update)
qed

section \<open>Steps and their inverses\<close>

text \<open>A rewrite with an equality whose sides have the same variables can be undone by the
  opposite direction at the same path.\<close>

lemma rewrite_reverse:
  assumes "rewrite_at_path t path p r = Inr u" and "term_variables r = term_variables p"
  shows "rewrite_at_path u path r p = Inr t"
proof -
  obtain s s' where s: "at_path t path = Some s" "rewrite_here s p r = Inr s'" "u = put_at t path s'"
    using assms(1) by (auto simp: rewrite_at_path_Inr)
  then have "rewrite_here s' r p = Inr s"
    using assms(2) by (auto simp: rewrite_here_Inr)
  with s show ?thesis
    by (auto simp: rewrite_at_path_Inr at_path_put_at put_at_put_at put_at_same)
qed

text \<open>The direction that would have to invent a term fails, and never silently.\<close>

lemma rewrite_unbound:
  assumes "at_path t path = Some s" and "instantiate p \<tau> = Some s"
    and "\<not> term_variables r \<subseteq> term_variables p"
  shows "rewrite_at_path t path p r =
    Inl (failure MalformedProblem None None ''replacement references an unbound variable'')"
proof -
  obtain \<sigma> where \<sigma>: "match_term p s Map.empty = (True, \<sigma>)" using assms(2) match_iff by blast
  then have "dom \<sigma> = term_variables p" using match_sound(1) [OF \<sigma>] by simp
  then have "instantiate r \<sigma> = None"
    using instantiate_defined [of r \<sigma>] assms(3) by (metis not_None_eq)
  with \<sigma> have "rewrite_here s p r =
    Inl (failure MalformedProblem None None ''replacement references an unbound variable'')"
    by (simp add: rewrite_here_def)
  with assms(1) show ?thesis
    by (induction t path p r rule: rewrite_at_path.induct) (auto split: if_splits)
qed

end
