(* ===== verification/Ruliad_Soundness.thy ===== *)
theory Ruliad_Soundness
  imports Ruliad_Replay Ruliad_Matching
begin

text \<open>
  Soundness of the kernel. The interface \<open>equational_theory\<close> is what a relation on terms
  must satisfy for rewriting to stay inside it: an equivalence, a congruence, closed under
  substitution. The client lemmas (rewriting at a path, a step, a list of steps, a whole
  certificate) are proved once from it. Two relations provide it: provability in equational
  logic from the axioms of the problem, and validity in an algebra.
\<close>

section \<open>Total substitutions\<close>

fun subst_term :: "(u32 \<Rightarrow> ruliad_term) \<Rightarrow> ruliad_term \<Rightarrow> ruliad_term" where
  "subst_term f (Variable index) = f index"
| "subst_term f (Atom symbol) = Atom symbol"
| "subst_term f (Apply operator arguments) = Apply operator (map (subst_term f) arguments)"

definition total_subst :: "substitution \<Rightarrow> u32 \<Rightarrow> ruliad_term" where
  "total_subst \<sigma> x = (case \<sigma> x of None \<Rightarrow> Variable x | Some u \<Rightarrow> u)"

lemma instantiate_total: "instantiate t \<sigma> = Some u \<Longrightarrow> u = subst_term (total_subst \<sigma>) t"
proof (induction t arbitrary: u)
  case (Apply operator arguments)
  then obtain us where us: "map (\<lambda>a. instantiate a \<sigma>) arguments = map Some us" "u = Apply operator us"
    by (auto simp: those_Some_iff)
  then have "us = map (subst_term (total_subst \<sigma>)) arguments"
    using Apply.IH by (intro nth_equalityI) (auto simp: list_eq_iff_nth_eq)
  with us(2) show ?case by simp
qed (auto simp: total_subst_def)

lemma subst_subst: "subst_term f (subst_term g t) = subst_term (\<lambda>x. subst_term f (g x)) t"
  by (induction t) auto

lemma subst_Variable [simp]: "subst_term Variable t = t"
  by (induction t) (auto intro: map_idI)

section \<open>The interface\<close>

locale equational_theory =
  fixes related :: "ruliad_term \<Rightarrow> ruliad_term \<Rightarrow> bool"
  assumes related_refl: "related t t"
    and related_sym: "related s t \<Longrightarrow> related t s"
    and related_trans: "related s t \<Longrightarrow> related t u \<Longrightarrow> related s u"
    and related_cong: "list_all2 related ss ts \<Longrightarrow> related (Apply f ss) (Apply f ts)"
    and related_subst: "related s t \<Longrightarrow> related (subst_term g s) (subst_term g t)"
begin

lemma related_argument:
  assumes "index < length arguments" and "related (arguments ! index) u"
  shows "related (Apply f arguments) (Apply f (arguments[index := u]))"
  using assms by (intro related_cong) (auto simp: list_all2_conv_all_nth nth_list_update related_refl)

lemma related_put_at:
  "at_path t path = Some s \<Longrightarrow> related s s' \<Longrightarrow> related t (put_at t path s')"
  by (induction t path rule: at_path.induct) (auto split: if_splits intro: related_argument)

lemma related_rewrite:
  assumes "related p r" and "rewrite_at_path t path p r = Inr u"
  shows "related t u"
proof -
  obtain s s' where s: "at_path t path = Some s" "rewrite_here s p r = Inr s'" "u = put_at t path s'"
    using assms(2) by (auto simp: rewrite_at_path_Inr)
  then obtain \<sigma> where "instantiate p \<sigma> = Some s" "instantiate r \<sigma> = Some s'"
    by (auto simp: rewrite_here_Inr)
  then have "related s s'"
    using assms(1) related_subst by (auto dest!: instantiate_total)
  with s show ?thesis by (auto intro: related_put_at)
qed

definition admits :: "ruliad_equality \<Rightarrow> bool" where
  "admits equality \<longleftrightarrow> related (eq_lhs equality) (eq_rhs equality)"

lemma related_step:
  assumes axioms: "\<And>ax. ax \<in> set (problem_axioms problem) \<Longrightarrow> related (ax_lhs ax) (ax_rhs ax)"
    and dep_claims: "\<And>d. d \<in> set (goal_dependencies (problem_goals problem ! g)) \<Longrightarrow>
        admits (goal_claim (problem_goals problem ! d))"
    and step: "step_result problem g limits t step = Inr u"
  shows "related t u"
proof -
  obtain equality where source: "step_equality problem g (problem_goals problem ! g)
        (index_axioms (problem_axioms problem)) (step_source step) = Inr equality"
    and rewrite: "rewrite_at_path t (step_path step) (fst (orient (step_direction step) equality))
        (snd (orient (step_direction step) equality)) = Inr u"
    using step by (auto simp: step_result_def apply_step_def result_bind_Inr case_prod_beta split: if_splits)
  have "admits equality"
    using source axioms dep_claims index_axioms_Some
    by (fastforce simp: step_equality_def admits_def split: proof_source.splits option.splits if_splits)
  then have "related (fst (orient (step_direction step) equality)) (snd (orient (step_direction step) equality))"
    by (cases "step_direction step") (auto simp: orient_def admits_def intro: related_sym)
  then show ?thesis using rewrite by (rule related_rewrite)
qed

lemma related_steps:
  assumes axioms: "\<And>ax. ax \<in> set (problem_axioms problem) \<Longrightarrow> related (ax_lhs ax) (ax_rhs ax)"
    and dep_claims: "\<And>d. d \<in> set (goal_dependencies (problem_goals problem ! g)) \<Longrightarrow>
        admits (goal_claim (problem_goals problem ! d))"
    and run: "proof_steps problem g limits t steps u"
  shows "related t u"
  using run by (induction rule: proof_steps.induct)
    (auto intro: related_refl related_trans related_step [OF axioms dep_claims])

lemma related_certificate:
  assumes wf: "wf_problem limits problem"
    and proves: "certificate_proves problem limits certificate"
    and axioms: "\<And>ax. ax \<in> set (problem_axioms problem) \<Longrightarrow> related (ax_lhs ax) (ax_rhs ax)"
    and required: "g \<in> required_goal_set problem"
  shows "admits (goal_claim (problem_goals problem ! g))"
  using required
proof (induction g rule: less_induct)
  case (less g)
  obtain node where "node \<in> set (cert_goals certificate)" "gc_goal node = g"
    using proves less.prems set_required_goal_indices [of problem]
    unfolding certificate_proves_def by (metis image_iff image_set)
  then have "proof_steps problem g limits (eq_lhs (goal_claim (problem_goals problem ! g)))
      (gc_steps node) (eq_rhs (goal_claim (problem_goals problem ! g)))"
    using proves by (auto simp: certificate_proves_def)
  moreover have "admits (goal_claim (problem_goals problem ! d))"
    if "d \<in> set (goal_dependencies (problem_goals problem ! g))" for d
    using wf_dependency_required [OF wf less.prems that] less.IH by blast
  ultimately show ?case
    unfolding admits_def using axioms by (metis related_steps admits_def)
qed

end

section \<open>Provability\<close>

inductive derives :: "rewrite_axiom list \<Rightarrow> ruliad_term \<Rightarrow> ruliad_term \<Rightarrow> bool" for axioms where
  derives_axiom: "ax \<in> set axioms \<Longrightarrow> derives axioms (subst_term g (ax_lhs ax)) (subst_term g (ax_rhs ax))"
| derives_refl: "derives axioms t t"
| derives_sym: "derives axioms s t \<Longrightarrow> derives axioms t s"
| derives_trans: "derives axioms s t \<Longrightarrow> derives axioms t u \<Longrightarrow> derives axioms s u"
| derives_cong: "list_all2 (derives axioms) ss ts \<Longrightarrow> derives axioms (Apply f ss) (Apply f ts)"

lemma derives_subst: "derives axioms s t \<Longrightarrow> derives axioms (subst_term g s) (subst_term g t)"
proof (induction rule: derives.induct)
  case (derives_axiom ax h)
  then show ?case by (simp add: subst_subst derives.derives_axiom)
next
  case (derives_cong ss ts f)
  then show ?case
    by (auto intro!: derives.derives_cong simp: list_all2_map1 list_all2_map2 elim: list_all2_mono)
qed (auto intro: derives.intros)

interpretation provable: equational_theory "derives axioms" for axioms
  by unfold_locales (auto intro: derives.intros derives_subst)

section \<open>Validity in an algebra\<close>

record 'a term_algebra =
  alg_atom :: "string \<Rightarrow> 'a"
  alg_op :: "string \<Rightarrow> 'a list \<Rightarrow> 'a"

fun term_value :: "'a term_algebra \<Rightarrow> (u32 \<Rightarrow> 'a) \<Rightarrow> ruliad_term \<Rightarrow> 'a" where
  "term_value A v (Variable index) = v index"
| "term_value A v (Atom symbol) = alg_atom A symbol"
| "term_value A v (Apply operator arguments) = alg_op A operator (map (term_value A v) arguments)"

definition holds_in :: "'a term_algebra \<Rightarrow> ruliad_term \<Rightarrow> ruliad_term \<Rightarrow> bool" where
  "holds_in A s t \<longleftrightarrow> (\<forall>v. term_value A v s = term_value A v t)"

lemma term_value_subst: "term_value A v (subst_term g t) = term_value A (\<lambda>x. term_value A v (g x)) t"
proof (induction t)
  case (Apply operator arguments)
  then have "map (term_value A v) (map (subst_term g) arguments)
      = map (term_value A (\<lambda>x. term_value A v (g x))) arguments" by simp
  then show ?case by (simp only: subst_term.simps term_value.simps)
qed simp_all

lemma holds_in_cong:
  assumes "list_all2 (holds_in A) ss ts"
  shows "holds_in A (Apply f ss) (Apply f ts)"
proof -
  have "map (term_value A v) ss = map (term_value A v) ts" for v
    using assms by (auto simp: list_all2_conv_all_nth holds_in_def list_eq_iff_nth_eq)
  then show ?thesis by (simp add: holds_in_def del: map_eq_conv)
qed

interpretation valid: equational_theory "holds_in A" for A
  by unfold_locales (auto simp: term_value_subst holds_in_cong, auto simp: holds_in_def term_value_subst)

definition algebra_satisfies :: "'a term_algebra \<Rightarrow> rewrite_axiom list \<Rightarrow> bool" where
  "algebra_satisfies A axioms \<longleftrightarrow> list_all (\<lambda>ax. holds_in A (ax_lhs ax) (ax_rhs ax)) axioms"

lemma derives_valid:
  "derives axioms s t \<Longrightarrow> algebra_satisfies A axioms \<Longrightarrow> holds_in A s t"
proof (induction rule: derives.induct)
  case (derives_axiom ax g)
  then show ?case by (auto simp: algebra_satisfies_def list_all_iff intro: valid.related_subst)
next
  case (derives_cong ss ts f)
  then show ?case by (intro holds_in_cong) (auto elim: list_all2_mono)
qed (auto simp: holds_in_def)

section \<open>Accepted certificates\<close>

lemma accepted_provable:
  assumes "replay_accepts hash problem certificate limits" and "g \<in> required_goal_set problem"
  shows "derives (problem_axioms problem) (eq_lhs (goal_claim (problem_goals problem ! g)))
           (eq_rhs (goal_claim (problem_goals problem ! g)))"
proof -
  have "provable.admits (problem_axioms problem) (goal_claim (problem_goals problem ! g))"
  proof (rule provable.related_certificate)
    fix ax assume "ax \<in> set (problem_axioms problem)"
    then show "derives (problem_axioms problem) (ax_lhs ax) (ax_rhs ax)"
      using derives_axiom [of ax "problem_axioms problem" Variable] by simp
  qed (use assms in \<open>auto simp: replay_accepts_iff\<close>)
  then show ?thesis by (simp add: provable.admits_def)
qed

lemma accepted_valid:
  assumes "replay_accepts hash problem certificate limits"
    and "algebra_satisfies A (problem_axioms problem)" and "g \<in> required_goal_set problem"
  shows "holds_in A (eq_lhs (goal_claim (problem_goals problem ! g)))
           (eq_rhs (goal_claim (problem_goals problem ! g)))"
  using accepted_provable [OF assms(1,3)] assms(2) by (rule derives_valid)

end
