(* ===== verification/Ruliad_World.thy ===== *)
theory Ruliad_World
  imports Ruliad_Soundness
begin

text \<open>
  The task worlds of \<open>ruliad/world\<close>: the difficulty vector and its Pareto order, the
  contract every world implements (the trait \<open>RuliadTaskGraph\<close>, here the locale
  \<open>task_graph\<close>), and the formal proof world, which lifts the goal transition kernel to
  that contract.
\<close>

section \<open>Difficulty vectors\<close>

record difficulty_vec =
  dv_syntax_nodes :: nat
  dv_transition_steps :: nat
  dv_dependency_depth :: nat
  dv_dependency_width :: nat
  dv_branch_entropy_millibits :: nat
  dv_binder_depth :: nat
  dv_abstraction_depth :: nat
  dv_memory_horizon :: nat
  dv_distractor_count :: nat
  dv_representation_shift :: nat
  dv_solution_multiplicity :: nat
  dv_search_branching :: nat
  dv_verifier_work :: nat

definition difficulty_coordinates :: "difficulty_vec \<Rightarrow> nat list" where
  "difficulty_coordinates v =
     [dv_syntax_nodes v, dv_transition_steps v, dv_dependency_depth v, dv_dependency_width v,
      dv_branch_entropy_millibits v, dv_binder_depth v, dv_abstraction_depth v,
      dv_memory_horizon v, dv_distractor_count v, dv_representation_shift v,
      dv_solution_multiplicity v, dv_search_branching v, dv_verifier_work v]"

definition difficulty_dominates :: "difficulty_vec \<Rightarrow> difficulty_vec \<Rightarrow> bool" where
  "difficulty_dominates a b \<longleftrightarrow>
     (let left = difficulty_coordinates a; right = difficulty_coordinates b in
      list_all (\<lambda>(l, r). r \<le> l) (zip left right) \<and> list_ex (\<lambda>(l, r). r < l) (zip left right))"

definition differs_on_semantic_axis :: "difficulty_vec \<Rightarrow> difficulty_vec \<Rightarrow> bool" where
  "differs_on_semantic_axis a b \<longleftrightarrow> difficulty_coordinates a \<noteq> difficulty_coordinates b"

definition estimated_work :: "difficulty_vec \<Rightarrow> nat" where
  "estimated_work v =
     max (sat_add (sat_add (sat_add (dv_syntax_nodes v) (dv_transition_steps v)) (dv_verifier_work v))
            (dv_memory_horizon v)) 1"

definition difficulty_from_complexity :: "complexity_vec \<Rightarrow> difficulty_vec" where
  "difficulty_from_complexity v =
     \<lparr>dv_syntax_nodes = cv_syntax_nodes v,
      dv_transition_steps = cv_proof_step_count v,
      dv_dependency_depth = cv_dependency_depth v,
      dv_dependency_width = cv_dependency_width v,
      dv_branch_entropy_millibits = cv_branch_entropy_millibits v,
      dv_binder_depth = cv_binder_depth v,
      dv_abstraction_depth = cv_abstraction_depth v,
      dv_memory_horizon = cv_memory_horizon v,
      dv_distractor_count = cv_distractor_axiom_count v,
      dv_representation_shift = cv_representation_shift v,
      dv_solution_multiplicity = cv_solution_multiplicity v,
      dv_search_branching = cv_search_branching v,
      dv_verifier_work = max (cv_verifier_work v) (cv_proof_step_count v)\<rparr>"

lemma difficulty_dominates_dims:
  "difficulty_dominates a b \<longleftrightarrow> dominates_dims (difficulty_coordinates a) (difficulty_coordinates b)"
  by (simp add: difficulty_dominates_def dominates_dims_def Let_def)

lemma length_difficulty_coordinates [simp]: "length (difficulty_coordinates v) = 13"
  by (simp add: difficulty_coordinates_def)

lemma difficulty_coordinates_inject: "difficulty_coordinates a = difficulty_coordinates b \<longleftrightarrow> a = b"
  by (cases a; cases b) (auto simp: difficulty_coordinates_def)

text \<open>Pareto dominance is an interface shared with the complexity vectors: the strict order it
  promises follows from the coordinates having one length.\<close>

locale pareto_order =
  fixes coordinates :: "'v \<Rightarrow> nat list" and dominates :: "'v \<Rightarrow> 'v \<Rightarrow> bool" and dimensions :: nat
  assumes dominates_coordinates: "dominates a b \<longleftrightarrow> dominates_dims (coordinates a) (coordinates b)"
    and coordinates_length: "length (coordinates a) = dimensions"
begin

lemma dominates_irrefl: "\<not> dominates a a"
  by (simp add: dominates_coordinates dominates_dims_irrefl)

lemma dominates_trans: "dominates a b \<Longrightarrow> dominates b c \<Longrightarrow> dominates a c"
  unfolding dominates_coordinates by (rule dominates_dims_trans) (simp_all add: coordinates_length)

lemma dominates_asym: "dominates a b \<Longrightarrow> \<not> dominates b a"
  using dominates_trans dominates_irrefl by blast

lemma dominates_no_regression:
  "dominates a b \<Longrightarrow> i < dimensions \<Longrightarrow> coordinates b ! i \<le> coordinates a ! i"
  by (auto simp: dominates_coordinates dominates_dims_def list_all_length coordinates_length)

end

interpretation difficulty_order: pareto_order difficulty_coordinates difficulty_dominates 13
  by unfold_locales (simp_all add: difficulty_dominates_dims)

interpretation complexity_order: pareto_order complexity_dimensions complexity_dominates 17
  by unfold_locales (simp_all add: complexity_dominates_def)

section \<open>The contract of a task world\<close>

definition task_graph_contract_version :: u32 where
  "task_graph_contract_version = 1"

record world_descriptor =
  wd_contract_version :: u32
  wd_world_id :: string
  wd_semantics_id :: string
  wd_state_schema :: string
  wd_action_schema :: string
  wd_certificate_schema :: string

record transition_cost =
  tc_model_steps :: nat
  tc_verifier_steps :: nat
  tc_bytes_read :: nat
  tc_bytes_written :: nat

record ('state, 'action, 'certificate) verified_transition =
  vt_before :: 'state
  vt_action :: 'action
  vt_after :: 'state
  vt_certificate :: 'certificate
  vt_cost :: transition_cost

text \<open>A recorded trace: each transition starts where the one before ended.\<close>

fun chained :: "'s \<Rightarrow> ('s, 'a, 'c) verified_transition list \<Rightarrow> bool" where
  "chained state [] = True"
| "chained state (t # ts) = (vt_before t = state \<and> chained (vt_after t) ts)"

definition end_state :: "'s \<Rightarrow> ('s, 'a, 'c) verified_transition list \<Rightarrow> 's" where
  "end_state state ts = (if ts = [] then state else vt_after (last ts))"

locale task_graph =
  fixes initial_state :: "'p \<Rightarrow> 'f + 's"
    and transition :: "'p \<Rightarrow> 's \<Rightarrow> 'a \<Rightarrow> 'f + ('s, 'a, 'c) verified_transition"
    and verify_transition :: "'p \<Rightarrow> ('s, 'a, 'c) verified_transition \<Rightarrow> 'f + unit"
  assumes transition_fields:
      "transition problem state action = Inr t \<Longrightarrow> vt_before t = state \<and> vt_action t = action"
    and transition_verified: "transition problem state action = Inr t \<Longrightarrow> verify_transition problem t = Inr ()"
    and verified_replays: "verify_transition problem t = Inr () \<Longrightarrow>
      \<exists>t'. transition problem (vt_before t) (vt_action t) = Inr t' \<and> vt_after t' = vt_after t"
begin

lemma verified_deterministic:
  assumes "verify_transition problem t = Inr ()" and "verify_transition problem t' = Inr ()"
    and "vt_before t = vt_before t'" and "vt_action t = vt_action t'"
  shows "vt_after t = vt_after t'"
  using verified_replays [OF assms(1)] verified_replays [OF assms(2)] assms(3,4) by auto

text \<open>Traces with the same start and actions that verify go through the same states.\<close>

lemma verified_chains_agree:
  assumes "chained state ts" "chained state ts'" "map vt_action ts = map vt_action ts'"
    and "list_all (\<lambda>t. verify_transition problem t = Inr ()) ts" "list_all (\<lambda>t. verify_transition problem t = Inr ()) ts'"
  shows "map vt_after ts = map vt_after ts'"
  using assms
proof (induction ts arbitrary: state ts')
  case (Cons t ts)
  then obtain t' us where ts': "ts' = t' # us" by (cases ts') auto
  then have "vt_after t = vt_after t'" using Cons.prems by (intro verified_deterministic [where problem = problem]) simp_all
  moreover have "map vt_after ts = map vt_after us"
    using Cons.prems calculation unfolding ts' by (intro Cons.IH [of "vt_after t"]) simp_all
  ultimately show ?case by (simp add: ts')
qed simp

end

section \<open>The formal proof world\<close>

record formal_proof_world =
  fw_goal_index :: nat
  fw_limits :: kernel_limits

type_synonym proof_transition = "(ruliad_term, proof_step, proof_step) verified_transition"

definition world_kernel ::
  "problem_hasher \<Rightarrow> formal_proof_world \<Rightarrow> proof_problem \<Rightarrow> kernel_failure + goal_kernel" where
  "world_kernel hash world problem =
     goal_kernel_new hash problem (fw_goal_index world) (fw_limits world)"

definition formal_world_descriptor :: "formal_proof_world \<Rightarrow> world_descriptor" where
  "formal_world_descriptor world =
     \<lparr>wd_contract_version = task_graph_contract_version,
      wd_world_id = ''formal_proof'',
      wd_semantics_id = ''burn-dragon-ruliad-formal-transition-v1'',
      wd_state_schema = ''ruliad_term_v3'',
      wd_action_schema = ''ruliad_proof_step_v3'',
      wd_certificate_schema = ''replayable_proof_step_v3''\<rparr>"

definition world_initial_state ::
  "problem_hasher \<Rightarrow> formal_proof_world \<Rightarrow> proof_problem \<Rightarrow> kernel_failure + ruliad_term" where
  "world_initial_state hash world problem =
     result_bind (world_kernel hash world problem) (\<lambda>k. Inr (gk_initial k))"

definition world_transition ::
  "problem_hasher \<Rightarrow> formal_proof_world \<Rightarrow> proof_problem \<Rightarrow> ruliad_term \<Rightarrow> proof_step
   \<Rightarrow> kernel_failure + proof_transition" where
  "world_transition hash world problem state action =
     result_bind (world_kernel hash world problem) (\<lambda>k.
       result_bind (gk_apply k state action) (\<lambda>after.
         Inr \<lparr>vt_before = state, vt_action = action, vt_after = after, vt_certificate = action,
              vt_cost = \<lparr>tc_model_steps = 1, tc_verifier_steps = 1, tc_bytes_read = 0,
                         tc_bytes_written = 0\<rparr>\<rparr>))"

definition world_verify_transition ::
  "problem_hasher \<Rightarrow> formal_proof_world \<Rightarrow> proof_problem \<Rightarrow> proof_transition \<Rightarrow> kernel_failure + unit" where
  "world_verify_transition hash world problem t =
     result_bind (world_kernel hash world problem) (\<lambda>k.
       result_bind (gk_apply k (vt_before t) (vt_certificate t)) (\<lambda>replayed.
         if replayed \<noteq> vt_after t \<or> vt_action t \<noteq> vt_certificate t
         then Inl \<lparr>kf_kind = GoalMismatch, kf_goal = Some (fw_goal_index world), kf_step = None,
                   kf_message = ''transition envelope does not match deterministic replay''\<rparr>
         else Inr ()))"

definition world_difficulty :: "formal_proof_world \<Rightarrow> proof_problem \<Rightarrow> difficulty_vec" where
  "world_difficulty world problem = difficulty_from_complexity (complexity_vector problem None)"

interpretation formal_world: task_graph "world_initial_state hash world"
    "world_transition hash world" "world_verify_transition hash world" for hash world
  by unfold_locales
    (auto simp: world_transition_def world_verify_transition_def result_bind_Inr split: if_splits)

text \<open>A transition that verifies is a step of the kernel.\<close>

lemma world_verified_step:
  assumes "world_verify_transition hash world problem t = Inr ()"
  shows "step_result problem (fw_goal_index world) (fw_limits world) (vt_before t) (vt_action t) = Inr (vt_after t)"
proof -
  obtain k where k: "world_kernel hash world problem = Inr k"
    and applied: "gk_apply k (vt_before t) (vt_action t) = Inr (vt_after t)"
    using assms by (auto simp: world_verify_transition_def result_bind_Inr split: if_splits)
  have "gk_apply k u step = step_result problem (fw_goal_index world) (fw_limits world) u step" for u step
    using k by (auto simp: world_kernel_def goal_kernel_new_Inr gk_apply_def step_result_def)
  then show ?thesis using applied by simp
qed

end
