(* ===== verification/Ruliad_Samples.thy ===== *)
theory Ruliad_Samples
  imports Ruliad_Soundness Ruliad_World
begin

text \<open>
  A small problem with its certificate, on which the properties are instantiated: a left
  unit law, a leaf goal proved by one rewrite under a context, and a root goal that uses it
  as a lemma in both directions. The hash of every problem is a fixed string.
\<close>

definition sample_hash :: problem_hasher where
  "sample_hash problem = Inr ''h''"

definition sample_axiom :: rewrite_axiom where
  "sample_axiom = \<lparr>ax_id = ''unit'', ax_lhs = Apply ''add'' [Atom ''zero'', Variable 0], ax_rhs = Variable 0\<rparr>"

definition sample_redex :: ruliad_term where
  "sample_redex = Apply ''add'' [Atom ''zero'', Atom ''a'']"

definition sample_problem :: proof_problem where
  "sample_problem = \<lparr>problem_version = 3, problem_domain = Equational, problem_theory = ''units'',
     problem_axioms = [sample_axiom],
     problem_goals =
       [\<lparr>goal_id = ''g0'', goal_dependencies = [],
         goal_claim = \<lparr>eq_lhs = Apply ''ctx'' [sample_redex], eq_rhs = Apply ''ctx'' [Atom ''a'']\<rparr>\<rparr>,
        \<lparr>goal_id = ''g1'', goal_dependencies = [0],
         goal_claim = \<lparr>eq_lhs = Apply ''pair'' [Apply ''ctx'' [sample_redex], Atom ''b''],
                       eq_rhs = Apply ''pair'' [Apply ''ctx'' [Atom ''a''], Atom ''b'']\<rparr>\<rparr>],
     problem_root = 1\<rparr>"

definition sample_step :: proof_step where
  "sample_step = \<lparr>step_source = AxiomSource ''unit'', step_path = [0], step_direction = Forward\<rparr>"

definition sample_lemma_step :: proof_step where
  "sample_lemma_step = \<lparr>step_source = LemmaSource 0, step_path = [0], step_direction = Forward\<rparr>"

definition sample_certificate :: proof_certificate where
  "sample_certificate = \<lparr>cert_version = 3, cert_problem_hash = ''h'',
     cert_goals = [\<lparr>gc_goal = 0, gc_steps = [sample_step]\<rparr>,
                   \<lparr>gc_goal = 1, gc_steps = [sample_lemma_step]\<rparr>]\<rparr>"

lemmas sample_defs = sample_hash_def sample_axiom_def sample_redex_def sample_problem_def sample_step_def
  sample_lemma_step_def sample_certificate_def

lemma sample_identifiers:
  "valid_identifier ''unit''" "valid_identifier ''add''" "valid_identifier ''zero''" "valid_identifier ''a''"
  "valid_identifier ''b''" "valid_identifier ''ctx''" "valid_identifier ''pair''" "valid_identifier ''g0''"
  "valid_identifier ''g1''"
  by (simp_all add: identifier_literal)

lemma sample_dependencies:
  "goal_dependencies_at sample_problem (Suc 0) = [0]" "goal_dependencies_at sample_problem 0 = []"
  by (simp_all add: goal_dependencies_at_def sample_problem_def)

lemma sample_required: "required_goal_set sample_problem = {0, 1}"
proof -
  have "problem_root sample_problem = Suc 0" by (simp add: sample_problem_def)
  then show ?thesis by (auto simp: required_goal_set_def sample_dependencies)
qed

lemma sample_required_indices: "required_goal_indices sample_problem = [0, 1]"
  by (simp add: required_goal_indices_def sample_required)

lemma sample_well_formed: "wf_problem default_limits sample_problem"
proof -
  have "str_trim ''units'' \<noteq> []" by (simp add: str_trim_graphic_all graphic_def)
  moreover have "\<forall>k<length (problem_goals sample_problem). wf_goal k (problem_goals sample_problem ! k)"
    by (simp add: sample_problem_def sample_redex_def wf_goal_def sample_identifiers All_less_Suc numeral_2_eq_2)
  ultimately show ?thesis
    by (simp add: wf_problem_def sample_problem_def sample_axiom_def sample_redex_def default_limits_def
        ruliad_ir_version_def wf_axiom_def sample_identifiers axiom_nodes_def goal_nodes_def sat_add_def usize_max_def)
qed

lemma sample_steps:
  "step_result sample_problem 0 default_limits (Apply ''ctx'' [sample_redex]) sample_step = Inr (Apply ''ctx'' [Atom ''a''])"
  "step_result sample_problem 1 default_limits (Apply ''pair'' [Apply ''ctx'' [sample_redex], Atom ''b'']) sample_lemma_step
     = Inr (Apply ''pair'' [Apply ''ctx'' [Atom ''a''], Atom ''b''])"
  by (simp_all add: step_result_def apply_step_def step_equality_def orient_def sample_defs default_limits_def
      index_axioms_def rewrite_here_def)

lemma sample_accepted: "replay_accepts sample_hash sample_problem sample_certificate default_limits"
proof -
  have "certificate_proves sample_problem default_limits sample_certificate"
    using sample_steps sample_required_indices
    by (auto simp: certificate_proves_def sample_certificate_def sample_problem_def
        intro!: proof_steps_Cons proof_steps_Nil)
  then show ?thesis
    using sample_well_formed
    by (simp add: replay_accepts_iff sample_hash_def sample_certificate_def ruliad_ir_version_def step_count_def default_limits_def)
qed

text \<open>The world of the leaf goal and one recorded transition of it.\<close>

definition sample_world :: formal_proof_world where
  "sample_world = \<lparr>fw_goal_index = 0, fw_limits = default_limits\<rparr>"

definition sample_transition :: proof_transition where
  "sample_transition = \<lparr>vt_before = Apply ''ctx'' [sample_redex], vt_action = sample_step,
     vt_after = Apply ''ctx'' [Atom ''a''], vt_certificate = sample_step,
     vt_cost = \<lparr>tc_model_steps = 1, tc_verifier_steps = 1, tc_bytes_read = 0, tc_bytes_written = 0\<rparr>\<rparr>"

lemma sample_kernel:
  "world_kernel sample_hash sample_world sample_problem =
     Inr \<lparr>gk_problem = sample_problem, gk_goal_index = 0, gk_goal = problem_goals sample_problem ! 0,
       gk_axioms = index_axioms (problem_axioms sample_problem), gk_limits = default_limits\<rparr>"
  unfolding world_kernel_def
  by (simp add: goal_kernel_new_Inr sample_world_def sample_well_formed sample_hash_def sample_required)

lemma sample_transition_verified:
  "world_verify_transition sample_hash sample_world sample_problem sample_transition = Inr ()"
  using sample_steps(1)
  by (simp add: world_verify_transition_def sample_kernel gk_apply_def sample_transition_def step_result_def)

lemma sample_run: "proof_steps sample_problem 0 default_limits (Apply ''ctx'' [sample_redex]) [sample_step] (Apply ''ctx'' [Atom ''a''])"
  by (rule proof_steps_Cons [OF sample_steps(1) proof_steps_Nil])

end
