(* ===== verification/Ruliad_Kernel_Properties.thy ===== *)
theory Ruliad_Kernel_Properties
  imports Ruliad_Samples
begin

text \<open>
  The properties of the replay kernel (\<open>ruliad/kernel.rs\<close>), of the IR it checks
  (\<open>ruliad/ir/mod.rs\<close>) and of the task world over it (\<open>ruliad/world\<close>), each
  with its instance on the problem of \<open>Ruliad_Samples\<close>.
\<close>

section \<open>Soundness and completeness of the replay\<close>

definition sum_algebra :: "nat term_algebra" where
  "sum_algebra = \<lparr>alg_atom = (\<lambda>s. if s = ''zero'' then 0 else 1),
     alg_op = (\<lambda>f xs. if f = ''add'' then sum_list xs else 2 * sum_list xs)\<rparr>"

lemma sum_algebra_satisfies: "algebra_satisfies sum_algebra (problem_axioms sample_problem)"
  by (simp add: algebra_satisfies_def holds_in_def sum_algebra_def sample_problem_def sample_axiom_def)

text \<open>C1: soundness of the kernel. When the replay of a certificate is accepted, the claim of every
  goal in the dependency closure of the root is derivable from the axioms of the problem in
  equational logic, and it is true in every algebra that satisfies those axioms.\<close>
theorem accepted_claims_follow_from_the_axioms:
  assumes "replay_accepts hash problem certificate limits"
    and "g \<in> required_goal_set problem"
  shows "derives (problem_axioms problem) (eq_lhs (goal_claim (problem_goals problem ! g)))
           (eq_rhs (goal_claim (problem_goals problem ! g)))
    \<and> (algebra_satisfies A (problem_axioms problem) \<longrightarrow>
         holds_in A (eq_lhs (goal_claim (problem_goals problem ! g)))
           (eq_rhs (goal_claim (problem_goals problem ! g))))"
  using accepted_provable [OF assms] accepted_valid [OF assms(1) _ assms(2)] by blast

theorem accepted_claims_follow_from_the_axioms_witness:
  "derives (problem_axioms sample_problem) (eq_lhs (goal_claim (problem_goals sample_problem ! 1)))
      (eq_rhs (goal_claim (problem_goals sample_problem ! 1)))
   \<and> holds_in sum_algebra (eq_lhs (goal_claim (problem_goals sample_problem ! 1)))
      (eq_rhs (goal_claim (problem_goals sample_problem ! 1)))"
  using accepted_claims_follow_from_the_axioms [OF sample_accepted, of 1 sum_algebra] sum_algebra_satisfies
  by (simp add: sample_required)

text \<open>C2: the replay decides the proof system. A certificate is accepted exactly when the problem is
  well formed and hashes to the hash the certificate names, the certificate has the kernel's
  version and fits its step limit, and its goals are the required goals in order, each with a
  list of rewrite steps that leads from the left side of its claim to the right side.\<close>
theorem replay_decides_certificates:
  "replay_accepts hash problem certificate limits \<longleftrightarrow>
     wf_problem limits problem \<and> hash problem = Inr (cert_problem_hash certificate)
     \<and> cert_version certificate = ruliad_ir_version
     \<and> step_count certificate \<le> maximum_steps limits
     \<and> certificate_proves problem limits certificate"
  by (rule replay_accepts_iff)

text \<open>C6: the replay never panics and its report is consistent: it is accepted or names a failure,
  never both; an accepted report has verified the root, every required goal and every
  submitted step; any other has verified no more than was asked.\<close>
theorem replay_report_is_consistent:
  "\<exists>report. replay_certificate hash problem certificate limits = Some report
     \<and> rr_accepted report = (rr_failure report = None)
     \<and> rr_root_verified report = rr_accepted report
     \<and> rr_required_goals report = length (required_goal_indices problem)
     \<and> rr_submitted_steps report = step_count certificate
     \<and> (if rr_accepted report
        then rr_verified_goals report = rr_required_goals report
          \<and> rr_verified_steps report = rr_submitted_steps report
        else rr_verified_goals report \<le> rr_required_goals report
          \<and> rr_verified_steps report \<le> rr_submitted_steps report)"
proof (cases rule: replay_certificate_cases [where hash = hash and problem = problem
      and certificate = certificate and limits = limits])
  case (rejected e hash_field)
  then show ?thesis by simp
next
  case (replayed m report)
  let ?goals = "required_goal_indices problem"
  have "length (takeWhile (goal_proved problem limits m) ?goals) \<le> length ?goals"
    by (rule length_takeWhile_le)
  moreover have "list_all (goal_proved problem limits m) ?goals \<Longrightarrow>
      length (takeWhile (goal_proved problem limits m) ?goals) = length ?goals"
    by (metis list_all_iff takeWhile_eq_all_conv)
  ultimately show ?thesis
    using replayed(6,7) sum_certificate_steps [OF replayed(5)] by (auto simp: replay_outcome_def)
qed

text \<open>The goal transition kernel replays a prefix of steps exactly when the problem is well
  formed and hashable, the goal is required, the prefix fits the step limit, and the steps
  lead from the left side of the claim to the returned term.\<close>
theorem goal_prefix_replays_the_step_relation:
  "replay_goal_prefix hash problem g steps limits = Inr v \<longleftrightarrow>
     wf_problem limits problem \<and> (\<exists>h. hash problem = Inr h) \<and> g \<in> required_goal_set problem
     \<and> length steps \<le> maximum_steps limits
     \<and> proof_steps problem g limits (eq_lhs (goal_claim (problem_goals problem ! g))) steps v"
  by (rule replay_goal_prefix_Inr)

section \<open>Validation\<close>

text \<open>C7: validation decides well-formedness. It returns the canonical hash exactly of the problems
  whose version, theory, root, limits, identifiers, axioms (no new variable on the right, no bare
  variable on the left) and dependencies (sorted, before their goal) are as they must be.\<close>
theorem validation_decides_well_formedness:
  "validate_problem hash problem limits = Inr h \<longleftrightarrow> wf_problem limits problem \<and> hash problem = Inr h"
  by (rule validate_problem_Inr)

text \<open>The required goals are listed in increasing order, and they are the goals reachable from
  the root over the declared dependencies.\<close>
theorem required_goals_are_the_dependency_closure:
  "sorted_wrt (<) (required_goal_indices problem)
   \<and> set (required_goal_indices problem) = {i. (depends_on problem)\<^sup>*\<^sup>* (problem_root problem) i}"
  by (simp add: sorted_required_goal_indices required_goal_set_eq)

section \<open>Rewriting\<close>

text \<open>C8: the matcher computes the one substitution there is. It succeeds with \<open>\<sigma>\<close> exactly when
  \<open>\<sigma>\<close> binds the variables of the pattern, no others, and instantiates it to the term.\<close>
theorem matcher_computes_the_substitution:
  "match_term p v Map.empty = (True, \<sigma>) \<longleftrightarrow> dom \<sigma> = term_variables p \<and> instantiate p \<sigma> = Some v"
proof
  assume "match_term p v Map.empty = (True, \<sigma>)"
  from match_sound(1) [OF this] show "dom \<sigma> = term_variables p \<and> instantiate p \<sigma> = Some v" by simp
next
  assume \<sigma>: "dom \<sigma> = term_variables p \<and> instantiate p \<sigma> = Some v"
  then obtain \<tau> where \<tau>: "match_term p v Map.empty = (True, \<tau>)" using match_iff by blast
  have "\<sigma> |` term_variables p = \<tau>" using match_unique [OF \<tau>] \<sigma> by blast
  moreover have "\<sigma> |` dom \<sigma> = \<sigma>" by (rule ext) (auto simp: restrict_map_def domIff)
  ultimately show "match_term p v Map.empty = (True, \<sigma>)" using \<tau> \<sigma> by simp
qed

text \<open>C5: a successful rewrite replaces the subterm at its path, which is an instance of the pattern, by
  the instance of the replacement under the same substitution, and leaves every position that
  branches off the path as it was.\<close>
theorem rewrite_changes_only_the_path:
  assumes "rewrite_at_path t path p r = Inr u"
  shows "\<exists>\<sigma> s s'. dom \<sigma> = term_variables p \<and> instantiate p \<sigma> = Some s \<and> instantiate r \<sigma> = Some s'
    \<and> at_path t path = Some s \<and> at_path u path = Some s'
    \<and> (\<forall>common i xs j ys. path = common @ i # xs \<longrightarrow> i \<noteq> j \<longrightarrow>
         at_path u (common @ j # ys) = at_path t (common @ j # ys))"
proof -
  obtain s s' where s: "at_path t path = Some s" "rewrite_here s p r = Inr s'" "u = put_at t path s'"
    using assms by (auto simp: rewrite_at_path_Inr)
  then show ?thesis
    using at_path_put_at [OF s(1), of s'] at_path_put_at_other by (fastforce simp: rewrite_here_Inr)
qed

theorem rewrite_changes_only_the_path_witness:
  "\<exists>\<sigma> s s'. dom \<sigma> = {0} \<and> instantiate (ax_lhs sample_axiom) \<sigma> = Some s \<and> instantiate (ax_rhs sample_axiom) \<sigma> = Some s'
    \<and> at_path (Apply ''pair'' [Atom ''b'', sample_redex]) [1] = Some s
    \<and> at_path (Apply ''pair'' [Atom ''b'', Atom ''a'']) [1] = Some s'"
proof -
  have "rewrite_at_path (Apply ''pair'' [Atom ''b'', sample_redex]) [1] (ax_lhs sample_axiom) (ax_rhs sample_axiom)
      = Inr (Apply ''pair'' [Atom ''b'', Atom ''a''])"
    by (simp add: sample_redex_def sample_axiom_def rewrite_here_def)
  from rewrite_changes_only_the_path [OF this] show ?thesis
    by (auto simp: sample_axiom_def term_variables_def)
qed

text \<open>A rewrite with an axiom that keeps its variables can be undone: the reverse direction at the
  same path gives the term back.\<close>
theorem rewrite_can_be_reversed:
  assumes "rewrite_at_path t path p r = Inr u" and "term_variables r = term_variables p"
  shows "rewrite_at_path u path r p = Inr t"
  using assms by (rule rewrite_reverse)

theorem rewrite_can_be_reversed_witness:
  "rewrite_at_path (Apply ''pair'' [Atom ''b'', Atom ''a'']) [1] (ax_rhs sample_axiom) (ax_lhs sample_axiom)
     = Inr (Apply ''pair'' [Atom ''b'', sample_redex])"
  by (rule rewrite_can_be_reversed)
    (simp_all add: sample_redex_def sample_axiom_def rewrite_here_def term_variables_def)

text \<open>Why a rewrite fails. The failure is an invalid path exactly when the term has no subterm
  there, a pattern mismatch exactly when the subterm is no instance of the pattern, and
  otherwise a malformed problem, whose replacement has a variable the pattern does not bind.\<close>
theorem rewrite_failures_are_classified:
  "case rewrite_at_path t path p r of
     Inr u \<Rightarrow> at_path t path \<noteq> None
   | Inl e \<Rightarrow>
       (kf_kind e = InvalidPath) = (at_path t path = None)
       \<and> (kf_kind e = PatternMismatch) = (\<exists>s. at_path t path = Some s \<and> (\<forall>\<sigma>. instantiate p \<sigma> \<noteq> Some s))
       \<and> (kf_kind e = MalformedProblem) =
           (\<exists>s. at_path t path = Some s \<and> (\<exists>\<sigma>. instantiate p \<sigma> = Some s) \<and> \<not> term_variables r \<subseteq> term_variables p)"
proof (induction t path p r rule: rewrite_at_path.induct)
  case (1 t p r)
  show ?case
  proof (cases "match_term p t Map.empty")
    case (Pair matched \<sigma>)
    show ?thesis
    proof (cases matched)
      case True
      then have m: "dom \<sigma> = term_variables p" "instantiate p \<sigma> = Some t"
        using match_sound(1) [of p t Map.empty \<sigma>] Pair by auto
      then show ?thesis
        using instantiate_defined [of r \<sigma>] True Pair
        by (auto simp: rewrite_here_def failure_def split: option.splits)
    next
      case False
      then have "\<forall>\<tau>. instantiate p \<tau> \<noteq> Some t" using match_iff [of p t] Pair by auto
      then show ?thesis using False Pair by (auto simp: rewrite_here_def failure_def)
    qed
  qed
qed (auto simp: failure_def split: sum.splits)

section \<open>Views of a certificate\<close>

text \<open>The views of a certificate by global step index agree with the sequence of its steps: the
  step at an index, the prefix before it and the certificate with it replaced exist exactly
  for the indices below the step count, and are that element, that prefix and that update.\<close>
theorem certificate_views_index_the_step_sequence:
  "step_at c i = (if i < step_count c then Some (goals_steps (cert_goals c) ! i) else None)
   \<and> map_option (\<lambda>c'. goals_steps (cert_goals c')) (prefix_before c i)
       = (if i < step_count c then Some (take i (goals_steps (cert_goals c))) else None)
   \<and> map_option (\<lambda>c'. goals_steps (cert_goals c')) (with_step_replaced c i s)
       = (if i < step_count c
          then Some ((goals_steps (cert_goals c))[i := (fst (goals_steps (cert_goals c) ! i), s)]) else None)"
proof -
  have n: "step_count c = length (goals_steps (cert_goals c))" by (simp add: step_count_def length_goals_steps)
  show ?thesis
    unfolding n step_at_def prefix_before_def with_step_replaced_def
    by (simp add: step_at_goals_nth option.map_comp comp_def
        flip: prefix_goals_steps replace_step_goals_steps)
qed

section \<open>The task world\<close>

lemma verified_trace_valid:
  assumes "chained state ts" "list_all (\<lambda>t. world_verify_transition hash world problem t = Inr ()) ts"
    and "algebra_satisfies A (problem_axioms problem)"
    and "\<And>d. d \<in> set (goal_dependencies (problem_goals problem ! fw_goal_index world)) \<Longrightarrow>
      holds_in A (eq_lhs (goal_claim (problem_goals problem ! d))) (eq_rhs (goal_claim (problem_goals problem ! d)))"
  shows "holds_in A state (end_state state ts)"
  using assms(1,2)
proof (induction ts arbitrary: state)
  case (Cons t ts)
  have step: "step_result problem (fw_goal_index world) (fw_limits world) (vt_before t) (vt_action t) = Inr (vt_after t)"
    using Cons.prems by (intro world_verified_step [of hash]) simp
  have "holds_in A (ax_lhs ax) (ax_rhs ax)" if "ax \<in> set (problem_axioms problem)" for ax
    using assms(3) that by (simp add: algebra_satisfies_def list_all_iff)
  then have "holds_in A (vt_before t) (vt_after t)"
    using assms(4) by (rule valid.related_step [OF _ _ step, unfolded valid.admits_def])
  then have "holds_in A state (vt_after t)" using Cons.prems(1) by simp
  moreover have "holds_in A (vt_after t) (end_state (vt_after t) ts)" using Cons by simp
  moreover have "end_state state (t # ts) = end_state (vt_after t) ts" by (simp add: end_state_def)
  ultimately show ?case using valid.related_trans by metis
qed (simp add: end_state_def valid.related_refl)

text \<open>C31: recorded traces of the proof world are sound. When the world verifies every transition of a trace, each
  starting where the one before ended, the first and the last term are equal in every algebra that satisfies the
  axioms of the problem and the claims of the goals the world's goal depends on: no trace that verifies reaches a
  term that the axioms and the lemmas do not equate with its start.\<close>
theorem verified_traces_are_sound:
  assumes "chained state ts" and "list_all (\<lambda>t. world_verify_transition hash world problem t = Inr ()) ts"
    and "algebra_satisfies A (problem_axioms problem)"
    and "\<And>d. d \<in> set (goal_dependencies (problem_goals problem ! fw_goal_index world)) \<Longrightarrow>
      holds_in A (eq_lhs (goal_claim (problem_goals problem ! d))) (eq_rhs (goal_claim (problem_goals problem ! d)))"
  shows "holds_in A state (end_state state ts)"
  using assms by (rule verified_trace_valid)

theorem verified_traces_are_sound_witness:
  "holds_in sum_algebra (Apply ''ctx'' [sample_redex]) (end_state (Apply ''ctx'' [sample_redex]) [sample_transition])
   \<and> end_state (Apply ''ctx'' [sample_redex]) [sample_transition] = Apply ''ctx'' [Atom ''a'']"
proof
  show "holds_in sum_algebra (Apply ''ctx'' [sample_redex]) (end_state (Apply ''ctx'' [sample_redex]) [sample_transition])"
  proof (rule verified_traces_are_sound [OF _ _ sum_algebra_satisfies])
    show "chained (Apply ''ctx'' [sample_redex]) [sample_transition]" by (simp add: sample_transition_def)
    show "list_all (\<lambda>t. world_verify_transition sample_hash sample_world sample_problem t = Inr ()) [sample_transition]"
      by (simp add: sample_transition_verified)
  qed (simp add: sample_world_def sample_problem_def)
  show "end_state (Apply ''ctx'' [sample_redex]) [sample_transition] = Apply ''ctx'' [Atom ''a'']"
    by (simp add: end_state_def sample_transition_def)
qed

text \<open>Recorded traces are determined by their actions: two traces that verify, with the same start and the same actions,
  go through the same terms.\<close>
theorem verified_traces_are_deterministic:
  assumes "chained state ts" and "chained state ts'" and "map vt_action ts = map vt_action ts'"
    and "list_all (\<lambda>t. world_verify_transition hash world problem t = Inr ()) ts"
    and "list_all (\<lambda>t. world_verify_transition hash world problem t = Inr ()) ts'"
  shows "map vt_after ts = map vt_after ts'"
  using assms by (rule formal_world.verified_chains_agree)

theorem verified_traces_are_deterministic_witness:
  "map vt_after [sample_transition] = map vt_after [sample_transition\<lparr> vt_cost := vt_cost sample_transition \<rparr>]"
proof (rule verified_traces_are_deterministic [where hash = sample_hash and world = sample_world and problem = sample_problem])
  show "chained (Apply ''ctx'' [sample_redex]) [sample_transition]" by (simp add: sample_transition_def)
qed (simp_all add: sample_transition_verified, simp add: sample_transition_def)

text \<open>Dominance of complexity vectors and of difficulty vectors are strict partial orders that
  no coordinate regresses in.\<close>
theorem dominance_is_a_strict_order:
  "irreflp complexity_dominates \<and> transp complexity_dominates
   \<and> irreflp difficulty_dominates \<and> transp difficulty_dominates
   \<and> complexity_dominates \<le> (\<lambda>a b. list_all2 (\<ge>) (complexity_dimensions a) (complexity_dimensions b))
   \<and> difficulty_dominates \<le> (\<lambda>a b. list_all2 (\<ge>) (difficulty_coordinates a) (difficulty_coordinates b))"
  using complexity_order.dominates_irrefl complexity_order.dominates_trans complexity_order.dominates_no_regression
    difficulty_order.dominates_irrefl difficulty_order.dominates_trans difficulty_order.dominates_no_regression
  by (auto simp: irreflp_def transp_def list_all2_conv_all_nth)

end
