(* ===== verification/Ruliad_Rng.thy ===== *)
theory Ruliad_Rng
  imports Ruliad_Prelude "HOL-Library.Multiset"
begin

unbundle bit_operations_syntax

text \<open>
  The deterministic generator of \<open>ruliad/rng.rs\<close>: SplitMix64, its bounded draws by
  rejection sampling and the seed mixer, with the in-place shuffle of \<open>ruliad/formal.rs\<close>
  that runs on it. All arithmetic is on 64-bit words and wraps as the source's does.
  \<open>next_f32\<close> is floating point and is not modelled.
\<close>

section \<open>SplitMix64\<close>

record split_mix64 =
  sm_state :: u64

definition split_mix64_new :: "u64 \<Rightarrow> split_mix64" where
  "split_mix64_new seed = \<lparr>sm_state = seed\<rparr>"

definition gamma :: u64 where
  "gamma = 0x9E3779B97F4A7C15"

definition mix_output :: "u64 \<Rightarrow> u64" where
  "mix_output state =
     (let v1 = (state XOR drop_bit 30 state) * 0xBF58476D1CE4E5B9;
          v2 = (v1 XOR drop_bit 27 v1) * 0x94D049BB133111EB
      in v2 XOR drop_bit 31 v2)"

definition next_u64 :: "split_mix64 \<Rightarrow> u64 \<times> split_mix64" where
  "next_u64 rng =
     (let state = sm_state rng + gamma in (mix_output state, rng\<lparr>sm_state := state\<rparr>))"

definition next_u8 :: "split_mix64 \<Rightarrow> u8 \<times> split_mix64" where
  "next_u8 rng = (case next_u64 rng of (v, rng') \<Rightarrow> (ucast (drop_bit 56 v), rng'))"

definition next_bool :: "split_mix64 \<Rightarrow> bool \<times> split_mix64" where
  "next_bool rng = (case next_u64 rng of (v, rng') \<Rightarrow> (drop_bit 63 v \<noteq> 0, rng'))"

text \<open>The draw below a bound rejects the values above the largest multiple of the bound. The
  loop re-enters the function, whose first guard stays false. It stops because the state walks
  through all words by steps of \<^const>\<open>gamma\<close>, which is odd, and state 0 is never
  rejected: the measure counts the steps left to state 0.\<close>

definition gamma_inverse :: u64 where
  "gamma_inverse = 17428512612931826493"

definition sampling_zone :: "u64 \<Rightarrow> nat" where
  "sampling_zone bound = (2 ^ 64 div unat bound) * unat bound"

function next_usize :: "u64 \<Rightarrow> split_mix64 \<Rightarrow> u64 \<times> split_mix64" where
  "next_usize upper_exclusive rng =
     (if upper_exclusive \<le> 1 then (0, rng)
      else
        let (v, rng') = next_u64 rng in
        if unat v < sampling_zone upper_exclusive
        then (of_nat (unat v mod unat upper_exclusive), rng')
        else next_usize upper_exclusive rng')"
  by pat_completeness auto

lemma gamma_times_inverse: "gamma * gamma_inverse = 1"
  by (simp add: gamma_def gamma_inverse_def)

lemma mix_output_0 [simp]: "mix_output 0 = 0"
  by (simp add: mix_output_def)

lemma unat_below: "unat (x :: u64) < 2 ^ 64"
  using unsigned_less [of x] by simp

lemma sampling_zone_pos: "1 < bound \<Longrightarrow> 0 < sampling_zone bound"
  using unat_below [of bound]
  by (auto simp: sampling_zone_def word_less_nat_alt div_greater_zero_iff less_imp_le)

definition steps_to_zero :: "split_mix64 \<Rightarrow> nat" where
  "steps_to_zero rng = unat (- ((sm_state rng + gamma) * gamma_inverse))"

lemma steps_to_zero_decreases:
  assumes "snd (next_u64 rng) = rng'" and "sm_state rng' \<noteq> 0"
  shows "steps_to_zero rng' < steps_to_zero rng"
proof -
  define x where "x = - (sm_state rng' * gamma_inverse)"
  have "x \<noteq> 0"
  proof
    assume "x = 0"
    then have "(sm_state rng' * gamma_inverse) * gamma = 0" by (simp add: x_def)
    then have "sm_state rng' * (gamma * gamma_inverse) = 0"
      by (simp only: mult.assoc mult.commute [of gamma])
    then show False using assms(2) gamma_times_inverse by simp
  qed
  moreover have "steps_to_zero rng = unat x"
    using assms(1) by (auto simp: steps_to_zero_def x_def next_u64_def Let_def)
  moreover have "steps_to_zero rng' = unat (x - 1)"
    using gamma_times_inverse by (simp add: steps_to_zero_def x_def distrib_right)
  ultimately show ?thesis by (simp add: measure_unat)
qed

termination next_usize
proof (relation "measure (\<lambda>(upper, rng). steps_to_zero rng)", goal_cases)
  case 1
  show ?case by simp
next
  case (2 upper rng draw v rng')
  have "sm_state rng' \<noteq> 0"
  proof
    assume "sm_state rng' = 0"
    then have "v = 0" using 2 by (auto simp: next_u64_def Let_def)
    with 2 sampling_zone_pos [of upper] show False by auto
  qed
  moreover have "snd (next_u64 rng) = rng'" using 2 by (metis snd_conv)
  ultimately show ?case by (simp add: steps_to_zero_decreases)
qed

declare next_usize.simps [simp del]

text \<open>Call sites that hold their \<open>usize\<close> as a natural number.\<close>

definition next_index :: "nat \<Rightarrow> split_mix64 \<Rightarrow> nat \<times> split_mix64" where
  "next_index upper_exclusive rng =
     (case next_usize (of_nat upper_exclusive) rng of (v, rng') \<Rightarrow> (unat v, rng'))"

definition range_usize :: "nat \<Rightarrow> nat \<Rightarrow> split_mix64 \<Rightarrow> nat \<times> split_mix64" where
  "range_usize lo hi rng =
     (if hi \<le> lo then (lo, rng)
      else case next_index (hi - lo + 1) rng of (v, rng') \<Rightarrow> (lo + v, rng'))"

definition mix_part :: "split_mix64 \<Rightarrow> u64 \<Rightarrow> split_mix64" where
  "mix_part rng part =
     snd (next_u64 (rng\<lparr>sm_state := sm_state rng XOR (part + 0xD1B54A32D192ED03)\<rparr>))"

definition mix_seed :: "u64 \<Rightarrow> u64 list \<Rightarrow> u64" where
  "mix_seed seed parts = fst (next_u64 (foldl mix_part (split_mix64_new seed) parts))"

section \<open>Bounds\<close>

lemma next_usize_bound: "upper \<noteq> 0 \<Longrightarrow> fst (next_usize upper rng) < upper"
proof (induction upper rng rule: next_usize.induct)
  case (1 upper rng)
  obtain v rng' where draw: "next_u64 rng = (v, rng')" by fastforce
  show ?case
  proof (cases "upper \<le> 1")
    case True
    with 1(2) show ?thesis by (subst next_usize.simps) (simp add: word_neq_0_conv)
  next
    case False
    have "unat v mod unat upper < unat upper" using 1(2) by (simp add: unat_gt_0)
    then have "(of_nat (unat v mod unat upper) :: u64) < upper"
      by (simp add: word_less_nat_alt unat_of_nat)
    with False 1 draw show ?thesis
      by (subst next_usize.simps) (auto simp: draw)
  qed
qed

lemma next_index_bound:
  assumes "0 < n" and "n \<le> usize_max"
  shows "fst (next_index n rng) < n"
proof -
  have n: "unat (of_nat n :: u64) = n"
    using assms(2) by (simp add: unat_of_nat usize_max_def)
  then have "(of_nat n :: u64) \<noteq> 0" using assms(1) by auto
  then have "fst (next_usize (of_nat n) rng) < of_nat n" by (rule next_usize_bound)
  then show ?thesis using n by (simp add: next_index_def word_less_nat_alt case_prod_beta)
qed

lemma range_usize_bounds:
  assumes "lo \<le> hi" and "hi - lo < usize_max"
  shows "lo \<le> fst (range_usize lo hi rng) \<and> fst (range_usize lo hi rng) \<le> hi"
proof (cases "hi \<le> lo")
  case False
  then have "fst (next_index (hi - lo + 1) rng) < hi - lo + 1"
    using assms by (intro next_index_bound) auto
  with False show ?thesis by (auto simp: range_usize_def split: prod.splits)
qed (use assms in \<open>simp add: range_usize_def\<close>)

section \<open>The output function is injective\<close>

lemma xorshift_inj:
  fixes x y :: u64
  assumes "0 < n" and eq: "x XOR drop_bit n x = y XOR drop_bit n y"
  shows "x = y"
proof (rule bit_word_eqI)
  fix k assume "k < LENGTH(64)"
  have "bit x k = bit y k" for k
  proof (induction "64 - k" arbitrary: k rule: less_induct)
    case less
    show ?case
    proof (cases "k < 64")
      case True
      then have "bit x (n + k) = bit y (n + k)" using assms(1) by (intro less) auto
      moreover have "bit (x XOR drop_bit n x) k = bit (y XOR drop_bit n y) k" using eq by simp
      ultimately show ?thesis
        unfolding bit_xor_iff bit_drop_bit_eq comp_def by blast
    next
      case False
      then show ?thesis using bit_imp_le_length [of x k] bit_imp_le_length [of y k] by auto
    qed
  qed
  then show "bit x k \<longleftrightarrow> bit y k" .
qed

lemma mult_right_inj:
  fixes x y :: u64
  assumes unit: "a * b = 1" and eq: "x * a = y * a"
  shows "x = y"
proof -
  have "(x * a) * b = (y * a) * b" by (simp only: eq)
  then show ?thesis by (simp only: mult.assoc unit mult.right_neutral)
qed

lemma mix_output_inj: "mix_output x = mix_output y \<Longrightarrow> x = y"
proof -
  have unit1: "(0xBF58476D1CE4E5B9 :: u64) * 10871156337175269513 = 1" by simp
  have unit2: "(0x94D049BB133111EB :: u64) * 3573116690164977347 = 1" by simp
  show "mix_output x = mix_output y \<Longrightarrow> x = y"
    unfolding mix_output_def Let_def
    by (drule xorshift_inj [rotated], simp, drule mult_right_inj [OF unit2],
        drule xorshift_inj [rotated], simp, drule mult_right_inj [OF unit1],
        drule xorshift_inj [rotated], simp)
qed

text \<open>The outputs of a run, and the period of the generator.\<close>

fun outputs :: "nat \<Rightarrow> split_mix64 \<Rightarrow> u64 list" where
  "outputs 0 rng = []"
| "outputs (Suc n) rng = (case next_u64 rng of (v, rng') \<Rightarrow> v # outputs n rng')"

lemma outputs_eq: "outputs n rng = map (\<lambda>k. mix_output (sm_state rng + of_nat (Suc k) * gamma)) [0..<n]"
proof (induction n arbitrary: rng)
  case (Suc n)
  have "[0..<Suc n] = 0 # map Suc [0..<n]" by (simp add: upt_conv_Cons map_Suc_upt)
  with Suc show ?case by (simp add: next_u64_def Let_def comp_def algebra_simps)
qed simp

lemma distinct_outputs: "n \<le> 2 ^ 64 \<Longrightarrow> distinct (outputs n rng)"
proof -
  assume n: "n \<le> 2 ^ 64"
  have "i = j" if "i < n" "j < n"
    "mix_output (sm_state rng + of_nat (Suc i) * gamma) = mix_output (sm_state rng + of_nat (Suc j) * gamma)"
    for i j
  proof -
    have "(of_nat i :: u64) * gamma = of_nat j * gamma"
      using mix_output_inj [OF that(3)] by (simp add: distrib_right)
    then have "(of_nat i :: u64) = of_nat j" by (rule mult_right_inj [OF gamma_times_inverse])
    moreover have "i < 2 ^ 64" "j < 2 ^ 64" using that n by auto
    ultimately show "i = j" by (simp add: word_of_nat_eq_iff take_bit_nat_eq_self)
  qed
  then show ?thesis by (auto simp: outputs_eq distinct_map inj_on_def)
qed

section \<open>Shuffling from an index source\<close>

text \<open>\<open>values.swap(i, j)\<close>, and the loop of \<open>shuffle\<close> from the last index down to 1, on any
  source of indices below a bound.\<close>

definition swap_at :: "nat \<Rightarrow> nat \<Rightarrow> 'a list \<Rightarrow> 'a list" where
  "swap_at i j xs = xs[i := xs ! j, j := xs ! i]"

fun shuffle_loop :: "(nat \<Rightarrow> 's \<Rightarrow> nat \<times> 's) \<Rightarrow> nat \<Rightarrow> 'a list \<Rightarrow> 's \<Rightarrow> 'a list \<times> 's" where
  "shuffle_loop draw 0 vals s = (vals, s)"
| "shuffle_loop draw (Suc index) vals s =
     (case draw (Suc index + 1) s of
        (j, s') \<Rightarrow> shuffle_loop draw index (swap_at (Suc index) j vals) s')"

lemma shuffle_loop_permutes:
  assumes "\<And>n s. 0 < n \<Longrightarrow> n \<le> length vals \<Longrightarrow> fst (draw n s) < n" and "index < length vals"
  shows "mset (fst (shuffle_loop draw index vals s)) = mset vals"
  using assms
proof (induction index arbitrary: vals s)
  case (Suc index)
  obtain j s' where draw: "draw (Suc index + 1) s = (j, s')" by fastforce
  then have "j < Suc index + 1" using Suc.prems(1) [of "Suc index + 1" s] Suc.prems(2) by simp
  then have "mset (swap_at (Suc index) j vals) = mset vals"
    unfolding swap_at_def using Suc.prems(2) by (intro mset_swap) auto
  moreover have "mset (fst (shuffle_loop draw index (swap_at (Suc index) j vals) s'))
      = mset (swap_at (Suc index) j vals)"
    by (rule Suc.IH) (use Suc.prems in \<open>auto simp: swap_at_def\<close>)
  ultimately show ?case using draw by simp
qed simp

locale index_source =
  fixes draw :: "nat \<Rightarrow> 's \<Rightarrow> nat \<times> 's"
  assumes draw_bound: "0 < n \<Longrightarrow> n \<le> usize_max \<Longrightarrow> fst (draw n s) < n"
begin

lemma shuffle_loop_mset:
  "index < length vals \<Longrightarrow> length vals \<le> usize_max \<Longrightarrow>
   mset (fst (shuffle_loop draw index vals s)) = mset vals"
  by (rule shuffle_loop_permutes) (auto intro: draw_bound)

lemma length_shuffle_loop: "length (fst (shuffle_loop draw index vals s)) = length vals"
  by (induction index arbitrary: vals s) (auto simp: swap_at_def split: prod.splits)

end

interpretation split_mix: index_source next_index
  by unfold_locales (rule next_index_bound)

definition shuffle :: "'a list \<Rightarrow> split_mix64 \<Rightarrow> 'a list \<times> split_mix64" where
  "shuffle vals rng = shuffle_loop next_index (length vals - 1) vals rng"

lemma shuffle_mset: "length vals \<le> usize_max \<Longrightarrow> mset (fst (shuffle vals rng)) = mset vals"
  by (cases vals) (simp_all add: shuffle_def split_mix.shuffle_loop_mset)

end
