(* ===== verification/Ruliad_Eca.thy ===== *)
theory Ruliad_Eca
  imports Ruliad_Rng
begin

text \<open>
  Elementary cellular automata of \<open>ruliad/eca.rs\<close>: the step on a cyclic row of cells (bytes
  read through their lowest bit), traces, the complement of a rule and of a state, and the
  text form of a state.
\<close>

section \<open>Operations\<close>

fun random_state :: "nat \<Rightarrow> split_mix64 \<Rightarrow> u8 list \<times> split_mix64" where
  "random_state 0 rng = ([], rng)"
| "random_state (Suc width) rng =
     (case next_bool rng of (b, rng') \<Rightarrow>
        (case random_state width rng' of (cells, rng'') \<Rightarrow> (of_bool b # cells, rng'')))"

definition neighborhood :: "u8 \<Rightarrow> u8 \<Rightarrow> u8 \<Rightarrow> u8" where
  "neighborhood left center right = (push_bit 2 left OR push_bit 1 center) OR right"

definition eca_step :: "u8 \<Rightarrow> u8 list \<Rightarrow> u8 list" where
  "eca_step rule state =
     (let width = length state in
      if width = 0 then []
      else map (\<lambda>index.
        let left = state ! ((index + width - 1) mod width) AND 1;
            center = state ! index AND 1;
            right = state ! ((index + 1) mod width) AND 1
        in drop_bit (unat (neighborhood left center right)) rule AND 1) [0..<width])"

fun trace_frames :: "u8 \<Rightarrow> u8 list list \<Rightarrow> nat \<Rightarrow> u8 list list" where
  "trace_frames rule frames 0 = frames"
| "trace_frames rule frames (Suc steps) =
     trace_frames rule (frames @ [eca_step rule (frames ! (length frames - 1))]) steps"

definition eca_trace :: "u8 \<Rightarrow> u8 list \<Rightarrow> nat \<Rightarrow> u8 list list" where
  "eca_trace rule initial steps = trace_frames rule [initial] steps"

definition complement_state :: "u8 list \<Rightarrow> u8 list" where
  "complement_state state = map (\<lambda>cell. 1 - (cell AND 1)) state"

definition complement_rule :: "u8 \<Rightarrow> u8" where
  "complement_rule rule =
     foldl (\<lambda>target nb.
        let source_bit = drop_bit (7 - nb) rule AND 1 in target OR push_bit nb (1 - source_bit))
       0 [0..<8]"

definition states_equal :: "u8 list list \<Rightarrow> u8 list list \<Rightarrow> bool" where
  "states_equal left right \<longleftrightarrow>
     length left = length right \<and> list_all (\<lambda>(l, r). l = r) (zip left right)"

definition format_state :: "u8 list \<Rightarrow> string" where
  "format_state state = map (\<lambda>cell. if cell AND 1 = 0 then CHR ''0'' else CHR ''1'') state"

fun parse_state :: "string \<Rightarrow> u8 list" where
  "parse_state [] = []"
| "parse_state (byte # rest) =
     (if byte = CHR ''0'' then 0 # parse_state rest
      else if byte = CHR ''1'' then 1 # parse_state rest
      else parse_state rest)"

section \<open>Bits of bytes\<close>

lemma low_bit: "(x :: u8) AND 1 = of_bool (bit x 0)"
  by (simp add: and_one_eq mod_2_eq_odd bit_0)

lemma shifted_low_bit: "drop_bit k (x :: u8) AND 1 = of_bool (bit x k)"
  by (simp add: and_one_eq mod_2_eq_odd bit_iff_odd_drop_bit)

lemma one_minus_of_bool: "1 - of_bool b = (of_bool (\<not> b) :: u8)"
  by simp

lemma neighborhood_bits:
  "unat (neighborhood (of_bool a) (of_bool b) (of_bool c)) = 4 * of_bool a + 2 * of_bool b + of_bool c"
  by (cases a; cases b; cases c) (simp_all add: neighborhood_def)

definition cell_bit :: "u8 list \<Rightarrow> nat \<Rightarrow> bool" where
  "cell_bit state i = bit (state ! i) 0"

lemma eca_step_nth:
  assumes "i < length state"
  shows "eca_step rule state ! i =
    of_bool (bit rule (4 * of_bool (cell_bit state ((i + length state - 1) mod length state))
      + 2 * of_bool (cell_bit state i) + of_bool (cell_bit state ((i + 1) mod length state))))"
proof -
  have "eca_step rule state ! i = drop_bit (unat (neighborhood (state ! ((i + length state - 1) mod length state) AND 1)
      (state ! i AND 1) (state ! ((i + 1) mod length state) AND 1))) rule AND 1"
    using assms by (auto simp: eca_step_def Let_def)
  then show ?thesis
    unfolding shifted_low_bit unfolding low_bit neighborhood_bits cell_bit_def .
qed

lemma length_eca_step [simp]: "length (eca_step rule state) = length state"
  by (simp add: eca_step_def Let_def)

lemma or_bit_step: "bit (target OR push_bit k (1 - (drop_bit j rule AND 1))) n \<longleftrightarrow>
   bit target n \<or> (n = k \<and> \<not> bit rule j)" if "n < 8" for target rule :: u8
  using that unfolding shifted_low_bit one_minus_of_bool
  by (cases "bit rule j") (auto simp: bit_or_iff bit_push_bit_iff bit_1_iff bit_exp_iff)

lemma complement_rule_bit: "k < 8 \<Longrightarrow> bit (complement_rule rule) k \<longleftrightarrow> \<not> bit rule (7 - k)"
  unfolding complement_rule_def Let_def
proof -
  assume k: "k < 8"
  have "bit (foldl (\<lambda>target nb. target OR push_bit nb (1 - (drop_bit (7 - nb) rule AND 1))) t [0..<m]) k
      \<longleftrightarrow> bit t k \<or> (k < m \<and> \<not> bit rule (7 - k))" for t :: u8 and m
    by (induction m) (auto simp: or_bit_step [OF k] less_Suc_eq)
  from this [of 0 8] k show "bit (foldl (\<lambda>target nb. target OR push_bit nb (1 - (drop_bit (7 - nb) rule AND 1))) 0 [0..<8]) k
      \<longleftrightarrow> \<not> bit rule (7 - k)" by simp
qed

lemma length_complement_state [simp]: "length (complement_state state) = length state"
  by (simp add: complement_state_def)

lemma cell_bit_complement: "i < length state \<Longrightarrow> cell_bit (complement_state state) i \<longleftrightarrow> \<not> cell_bit state i"
  by (simp add: cell_bit_def complement_state_def low_bit)

section \<open>Complementation commutes with the step\<close>

lemma complement_index:
  "4 * of_bool (\<not> a) + 2 * of_bool (\<not> b) + of_bool (\<not> c) = 7 - (4 * of_bool a + 2 * of_bool b + of_bool c :: nat)"
  by (cases a; cases b; cases c) simp_all

lemma step_complement:
  "eca_step (complement_rule rule) (complement_state state) = complement_state (eca_step rule state)"
proof (rule nth_equalityI)
  fix i assume "i < length (eca_step (complement_rule rule) (complement_state state))"
  then have i: "i < length state" by simp
  define a b c where "a = cell_bit state ((i + length state - 1) mod length state)"
    and "b = cell_bit state i" and "c = cell_bit state ((i + 1) mod length state)"
  define n :: nat where "n = 4 * of_bool a + 2 * of_bool b + of_bool c"
  have "n < 8" by (simp add: n_def)
  have m: "(i + length state - 1) mod length state < length state" "(i + 1) mod length state < length state"
    using i by (intro mod_less_divisor; linarith)+
  have "eca_step (complement_rule rule) (complement_state state) ! i
      = of_bool (bit (complement_rule rule) (7 - n))"
    using i m by (simp add: eca_step_nth cell_bit_complement complement_index a_def b_def c_def n_def)
  also have "\<dots> = of_bool (\<not> bit rule n)" using \<open>n < 8\<close> by (simp add: complement_rule_bit)
  also have "\<dots> = complement_state (eca_step rule state) ! i"
    using i by (simp add: complement_state_def eca_step_nth a_def b_def c_def n_def low_bit)
  finally show "eca_step (complement_rule rule) (complement_state state) ! i
      = complement_state (eca_step rule state) ! i" .
qed simp

lemma complement_rule_involutive: "complement_rule (complement_rule rule) = rule"
proof (rule bit_word_eqI)
  fix k assume "k < LENGTH(8)"
  then show "bit (complement_rule (complement_rule rule)) k = bit rule k"
    by (simp add: complement_rule_bit)
qed

section \<open>Traces\<close>

lemma trace_frames_eq:
  "frames \<noteq> [] \<Longrightarrow> trace_frames rule frames steps =
     frames @ map (\<lambda>k. (eca_step rule ^^ Suc k) (last frames)) [0..<steps]"
proof (induction rule frames steps rule: trace_frames.induct)
  case (2 rule frames steps)
  have "[0..<Suc steps] = 0 # map Suc [0..<steps]" by (simp add: upt_conv_Cons map_Suc_upt)
  moreover have "(eca_step rule ^^ Suc k) (eca_step rule s) = (eca_step rule ^^ Suc (Suc k)) s" for k s
    by (simp add: funpow_swap1)
  ultimately show ?case using 2 by (simp add: last_conv_nth)
qed simp

lemma eca_trace_eq: "eca_trace rule initial steps = map (\<lambda>k. (eca_step rule ^^ k) initial) [0..<Suc steps]"
  by (simp add: eca_trace_def trace_frames_eq upt_conv_Cons map_Suc_upt [symmetric] del: upt_Suc)

lemma funpow_complement:
  "(eca_step (complement_rule rule) ^^ k) (complement_state state) = complement_state ((eca_step rule ^^ k) state)"
  by (induction k) (simp_all add: step_complement)

section \<open>Text\<close>

lemma parse_format: "parse_state (format_state state) = map (\<lambda>cell. cell AND 1) state"
  by (induction state) (auto simp: format_state_def low_bit)

lemma states_equal_iff: "states_equal left right \<longleftrightarrow> left = right"
  by (auto simp: states_equal_def list_all_length intro: nth_equalityI)

end
