(* ===== verification/Ruliad_Stream_Properties.thy ===== *)
theory Ruliad_Stream_Properties
  imports Ruliad_Rng Ruliad_Eca
begin

text \<open>
  The properties of the deterministic generator (\<open>ruliad/rng.rs\<close>) and of the elementary
  cellular automaton (\<open>ruliad/eca.rs\<close>).
\<close>

section \<open>The generator\<close>





text \<open>The generator has full period: from any state, its next \<open>2 ^ 64\<close> outputs are pairwise distinct.\<close>
theorem generator_has_full_period: "distinct (outputs (2 ^ 64) rng)"
  by (rule distinct_outputs) simp

section \<open>The automaton\<close>

text \<open>Complement symmetry. Running the complementary rule from the complemented state gives the
  complement of every frame of the original run, and complementing a rule twice gives it back.\<close>
theorem complement_rule_conjugates_traces:
  "eca_trace (complement_rule rule) (complement_state state) steps = map complement_state (eca_trace rule state steps)
   \<and> complement_rule (complement_rule rule) = rule"
  by (simp add: eca_trace_eq funpow_complement complement_rule_involutive)

lemma format_parse: "format_state (parse_state s) = filter (\<lambda>c. c \<in> {CHR ''0'', CHR ''1''}) s"
  by (induction s) (auto simp: format_state_def)

text \<open>The text form of a state keeps the low bit of every cell, and reading any text and writing it
  back drops exactly the characters that are no cell.\<close>
theorem state_text_round_trip:
  "parse_state (format_state state) = map (\<lambda>cell. cell AND 1) state
   \<and> format_state (parse_state s) = filter (\<lambda>c. c \<in> {CHR ''0'', CHR ''1''}) s"
  by (simp add: parse_format format_parse)

end
