(* ===== verification/Ruliad_Wire.thy ===== *)
theory Ruliad_Wire
  imports Ruliad_IR
begin

text \<open>
  The compact problem wire of \<open>ruliad/wire.rs\<close>: terms are interned into a table of nodes that
  refer to earlier nodes and to a symbol table by index, so that repeated terms are stored once.
  \<open>from_problem\<close> builds the tables, \<open>into_problem\<close> reads them back and reports dangling and
  forward references. The JSON text of a wire value is written and read by \<open>serde_json\<close>,
  which is a parameter. Errors are the \<open>anyhow\<close> messages.
\<close>

section \<open>Data\<close>

datatype wire_node = NodeV u32 | NodeA nat | NodeP nat "nat list"

datatype wire_axiom = WireAxiom string nat nat

datatype wire_goal = WireGoal string "nat list" nat nat

datatype wire_problem =
  WireProblem u32 ruliad_formal_domain string "string list" "wire_node list" "wire_axiom list"
    "wire_goal list" nat

datatype wire_source = SourceA string | SourceL nat

datatype wire_step = WireStep wire_source bool "nat list"

datatype wire_goal_certificate = WireGoalCertificate nat "wire_step list"

datatype wire_certificate = WireCertificate u32 string "wire_goal_certificate list"

record wire_interner =
  wi_symbols :: "string list"
  wi_symbol_indices :: "string \<rightharpoonup> nat"
  wi_nodes :: "wire_node list"
  wi_node_indices :: "ruliad_term \<rightharpoonup> nat"

section \<open>Interning\<close>

definition default_interner :: wire_interner where
  "default_interner =
     \<lparr> wi_symbols = [], wi_symbol_indices = Map.empty, wi_nodes = [], wi_node_indices = Map.empty \<rparr>"

definition intern_symbol :: "string \<Rightarrow> wire_interner \<Rightarrow> nat \<times> wire_interner" where
  "intern_symbol symbol w =
     (case wi_symbol_indices w symbol of
        Some index \<Rightarrow> (index, w)
      | None \<Rightarrow>
          (let index = length (wi_symbols w) in
           (index, w\<lparr> wi_symbols := wi_symbols w @ [symbol],
                      wi_symbol_indices := (wi_symbol_indices w)(symbol \<mapsto> index) \<rparr>)))"

definition push_node :: "ruliad_term \<Rightarrow> wire_node \<Rightarrow> wire_interner \<Rightarrow> nat \<times> wire_interner" where
  "push_node t node w =
     (let index = length (wi_nodes w) in
      (index, w\<lparr> wi_nodes := wi_nodes w @ [node],
                 wi_node_indices := (wi_node_indices w)(t \<mapsto> index) \<rparr>))"

fun intern_term :: "ruliad_term \<Rightarrow> wire_interner \<Rightarrow> nat \<times> wire_interner"
  and intern_terms :: "ruliad_term list \<Rightarrow> wire_interner \<Rightarrow> nat list \<times> wire_interner" where
  "intern_term t w =
     (case wi_node_indices w t of
        Some index \<Rightarrow> (index, w)
      | None \<Rightarrow>
          (case t of
             Variable index \<Rightarrow> push_node t (NodeV index) w
           | Atom symbol \<Rightarrow>
               (case intern_symbol symbol w of (s, w1) \<Rightarrow> push_node t (NodeA s) w1)
           | Apply operator arguments \<Rightarrow>
               (case intern_symbol operator w of (s, w1) \<Rightarrow>
                (case intern_terms arguments w1 of (indices, w2) \<Rightarrow>
                 push_node t (NodeP s indices) w2))))"
| "intern_terms [] w = ([], w)"
| "intern_terms (argument # arguments) w =
     (case intern_term argument w of (index, w1) \<Rightarrow>
      (case intern_terms arguments w1 of (indices, w2) \<Rightarrow> (index # indices, w2)))"

fun intern_axioms :: "rewrite_axiom list \<Rightarrow> wire_interner \<Rightarrow> wire_axiom list \<times> wire_interner" where
  "intern_axioms [] w = ([], w)"
| "intern_axioms (a # axioms) w =
     (case intern_term (ax_lhs a) w of (lhs, w1) \<Rightarrow>
      (case intern_term (ax_rhs a) w1 of (rhs, w2) \<Rightarrow>
       (case intern_axioms axioms w2 of (rest, w3) \<Rightarrow> (WireAxiom (ax_id a) lhs rhs # rest, w3))))"

fun intern_goals :: "proof_goal list \<Rightarrow> wire_interner \<Rightarrow> wire_goal list \<times> wire_interner" where
  "intern_goals [] w = ([], w)"
| "intern_goals (g # goals) w =
     (case intern_term (eq_lhs (goal_claim g)) w of (lhs, w1) \<Rightarrow>
      (case intern_term (eq_rhs (goal_claim g)) w1 of (rhs, w2) \<Rightarrow>
       (case intern_goals goals w2 of (rest, w3) \<Rightarrow>
        (WireGoal (goal_id g) (goal_dependencies g) lhs rhs # rest, w3))))"

definition from_problem :: "proof_problem \<Rightarrow> wire_problem" where
  "from_problem problem =
     (case intern_axioms (problem_axioms problem) default_interner of (axioms, w1) \<Rightarrow>
      (case intern_goals (problem_goals problem) w1 of (goals, w2) \<Rightarrow>
       WireProblem (problem_version problem) (problem_domain problem) (problem_theory problem)
         (wi_symbols w2) (wi_nodes w2) axioms goals (problem_root problem)))"

section \<open>Reading the tables back\<close>

definition get_or :: "'a list \<Rightarrow> nat \<Rightarrow> string \<Rightarrow> string + 'a" where
  "get_or xs i message = (if i < length xs then Inr (xs ! i) else Inl message)"

fun wire_node_term :: "string list \<Rightarrow> ruliad_term list \<Rightarrow> nat \<Rightarrow> wire_node \<Rightarrow> string + ruliad_term" where
  "wire_node_term symbols nodes node_index (NodeV index) = Inr (Variable index)"
| "wire_node_term symbols nodes node_index (NodeA symbol) =
     result_bind
       (get_or symbols symbol
          (''wire node '' @ show_nat node_index @ '' has invalid symbol '' @ show_nat symbol))
       (\<lambda>name. Inr (Atom name))"
| "wire_node_term symbols nodes node_index (NodeP operator arguments) =
     result_bind
       (get_or symbols operator
          (''wire node '' @ show_nat node_index @ '' has invalid operator '' @ show_nat operator))
       (\<lambda>name. result_bind
          (try_map (\<lambda>argument. get_or nodes argument
              (''wire node '' @ show_nat node_index @ '' has non-topological argument ''
                 @ show_nat argument)) arguments)
          (\<lambda>terms. Inr (Apply name terms)))"

fun wire_terms :: "string list \<Rightarrow> ruliad_term list \<Rightarrow> nat \<Rightarrow> wire_node list \<Rightarrow> string + ruliad_term list" where
  "wire_terms symbols nodes node_index [] = Inr nodes"
| "wire_terms symbols nodes node_index (node # rest) =
     result_bind (wire_node_term symbols nodes node_index node)
       (\<lambda>t. wire_terms symbols (nodes @ [t]) (Suc node_index) rest)"

definition wire_term :: "ruliad_term list \<Rightarrow> nat \<Rightarrow> string \<Rightarrow> string + ruliad_term" where
  "wire_term nodes index location =
     get_or nodes index (location @ '' references missing wire term '' @ show_nat index)"

fun wire_axiom_into :: "ruliad_term list \<Rightarrow> wire_axiom \<Rightarrow> string + rewrite_axiom" where
  "wire_axiom_into nodes (WireAxiom ident lhs rhs) =
     result_bind (wire_term nodes lhs (''axiom '' @ ident @ '' lhs''))
       (\<lambda>l. result_bind (wire_term nodes rhs (''axiom '' @ ident @ '' rhs''))
          (\<lambda>r. Inr \<lparr> ax_id = ident, ax_lhs = l, ax_rhs = r \<rparr>))"

fun wire_goal_into :: "ruliad_term list \<Rightarrow> wire_goal \<Rightarrow> string + proof_goal" where
  "wire_goal_into nodes (WireGoal ident dependencies lhs rhs) =
     result_bind (wire_term nodes lhs (''goal '' @ ident @ '' lhs''))
       (\<lambda>l. result_bind (wire_term nodes rhs (''goal '' @ ident @ '' rhs''))
          (\<lambda>r. Inr \<lparr> goal_id = ident, goal_dependencies = dependencies,
                     goal_claim = \<lparr> eq_lhs = l, eq_rhs = r \<rparr> \<rparr>))"

fun into_problem :: "wire_problem \<Rightarrow> string + proof_problem" where
  "into_problem (WireProblem version domain_kind theory_name symbols wire_nodes axioms goals root) =
     result_bind (wire_terms symbols [] 0 wire_nodes)
       (\<lambda>nodes. result_bind (try_map (wire_axiom_into nodes) axioms)
          (\<lambda>axs. result_bind (try_map (wire_goal_into nodes) goals)
             (\<lambda>gs. Inr \<lparr> problem_version = version, problem_domain = domain_kind,
                         problem_theory = theory_name, problem_axioms = axs, problem_goals = gs,
                         problem_root = root \<rparr>)))"

section \<open>Certificates\<close>

fun wire_source_from :: "proof_source \<Rightarrow> wire_source" where
  "wire_source_from (AxiomSource ident) = SourceA ident"
| "wire_source_from (LemmaSource goal) = SourceL goal"

fun wire_source_into :: "wire_source \<Rightarrow> proof_source" where
  "wire_source_into (SourceA ident) = AxiomSource ident"
| "wire_source_into (SourceL goal) = LemmaSource goal"

definition wire_step_from :: "proof_step \<Rightarrow> wire_step" where
  "wire_step_from s =
     WireStep (wire_source_from (step_source s)) (step_direction s = Reverse) (step_path s)"

fun wire_step_into :: "wire_step \<Rightarrow> proof_step" where
  "wire_step_into (WireStep source reversed path) =
     \<lparr> step_source = wire_source_into source, step_path = path,
       step_direction = (if reversed then Reverse else Forward) \<rparr>"

definition wire_certificate_from :: "proof_certificate \<Rightarrow> wire_certificate" where
  "wire_certificate_from c =
     WireCertificate (cert_version c) (cert_problem_hash c)
       (map (\<lambda>g. WireGoalCertificate (gc_goal g) (map wire_step_from (gc_steps g))) (cert_goals c))"

fun wire_goal_certificate_into :: "wire_goal_certificate \<Rightarrow> goal_certificate" where
  "wire_goal_certificate_into (WireGoalCertificate goal steps) =
     \<lparr> gc_goal = goal, gc_steps = map wire_step_into steps \<rparr>"

fun wire_certificate_into :: "wire_certificate \<Rightarrow> proof_certificate" where
  "wire_certificate_into (WireCertificate version problem_hash goals) =
     \<lparr> cert_version = version, cert_problem_hash = problem_hash,
       cert_goals = map wire_goal_certificate_into goals \<rparr>"

section \<open>The JSON entry points\<close>

text \<open>\<open>serde_json::to_string\<close> and \<open>serde_json::from_str\<close> are the parameters \<open>to_json\<close> and
  \<open>from_json\<close>; \<open>context\<close> replaces the message of their errors.\<close>

definition encode_problem :: "(wire_problem \<Rightarrow> string + string) \<Rightarrow> proof_problem \<Rightarrow> string + string" where
  "encode_problem to_json problem =
     map_err (\<lambda>_. ''encode compact ruliad problem'') (to_json (from_problem problem))"

definition decode_problem :: "(string \<Rightarrow> string + wire_problem) \<Rightarrow> string \<Rightarrow> string + proof_problem" where
  "decode_problem from_json payload =
     result_bind (map_err (\<lambda>_. ''decode compact ruliad problem'') (from_json payload)) into_problem"

definition encode_certificate ::
    "(wire_certificate \<Rightarrow> string + string) \<Rightarrow> proof_certificate \<Rightarrow> string + string" where
  "encode_certificate to_json certificate =
     map_err (\<lambda>_. ''encode compact ruliad certificate'') (to_json (wire_certificate_from certificate))"

definition decode_certificate ::
    "(string \<Rightarrow> string + wire_certificate) \<Rightarrow> string \<Rightarrow> string + proof_certificate" where
  "decode_certificate from_json payload =
     result_bind (map_err (\<lambda>_. ''decode compact ruliad certificate'') (from_json payload))
       (\<lambda>w. Inr (wire_certificate_into w))"

end
