(* ===== verification/Ruliad_Wire_Proofs.thy ===== *)
theory Ruliad_Wire_Proofs
  imports Ruliad_Wire
begin

text \<open>
  Correctness of the compact wire: the interner's table decodes to distinct terms that are closed
  under subterms, so reading a problem back from its own tables gives the problem, the table has
  exactly one node per distinct subterm, and a table with a forward or dangling reference is
  refused.
\<close>

section \<open>Reading tables\<close>

lemma get_or_Inr: "get_or xs i m = Inr x \<longleftrightarrow> i < length xs \<and> xs ! i = x"
  by (simp add: get_or_def)

lemma get_or_append: "get_or xs i m = Inr x \<Longrightarrow> get_or (xs @ ys) i m = Inr x"
  by (auto simp: get_or_def nth_append split: if_splits)

lemma wire_terms_length: "wire_terms symbols nodes k ns = Inr ts \<Longrightarrow> length ts = length nodes + length ns"
  by (induction symbols nodes k ns rule: wire_terms.induct) (auto simp: result_bind_Inr)

lemma wire_terms_snoc:
  "wire_terms symbols nodes k (ns @ [n]) =
     result_bind (wire_terms symbols nodes k ns)
       (\<lambda>ts. result_bind (wire_node_term symbols ts (k + length ns) n) (\<lambda>t. Inr (ts @ [t])))"
  by (induction symbols nodes k ns rule: wire_terms.induct)
    (auto simp: result_bind_def split: sum.splits)

lemma wire_node_term_symbols:
  "wire_node_term symbols nodes k n = Inr t \<Longrightarrow> wire_node_term (symbols @ extra) nodes k n = Inr t"
  by (cases n) (auto simp: result_bind_Inr dest: get_or_append)

lemma wire_terms_symbols:
  "wire_terms symbols nodes k ns = Inr ts \<Longrightarrow> wire_terms (symbols @ extra) nodes k ns = Inr ts"
  by (induction symbols nodes k ns rule: wire_terms.induct)
    (auto simp: result_bind_Inr dest: wire_node_term_symbols)

lemma wire_term_Inr: "wire_term ts i loc = Inr t \<longleftrightarrow> i < length ts \<and> ts ! i = t"
  by (simp add: wire_term_def get_or_Inr)

section \<open>Subterms\<close>

fun subterms :: "ruliad_term \<Rightarrow> ruliad_term set" where
  "subterms (Variable i) = {Variable i}"
| "subterms (Atom s) = {Atom s}"
| "subterms (Apply f ts) = insert (Apply f ts) (\<Union> (set (map subterms ts)))"

lemma subterms_self [simp]: "t \<in> subterms t"
  by (cases t) auto

lemma subterms_trans: "u \<in> subterms t \<Longrightarrow> subterms u \<subseteq> subterms t"
  by (induction t rule: subterms.induct) fastforce+

lemma subterms_size: "u \<in> subterms t \<Longrightarrow> size u \<le> size t"
proof (induction t rule: subterms.induct)
  case (3 f ts)
  show ?case
  proof (cases "u = Apply f ts")
    case False
    with "3.prems" obtain a where "a \<in> set ts" "u \<in> subterms a" by auto
    with "3.IH" [of a] size_list_estimation' [of a ts "size u" size] show ?thesis by fastforce
  qed simp
qed auto

lemma argument_not_superterm: "a \<in> set ts \<Longrightarrow> Apply f ts \<notin> subterms a"
  using subterms_size [of "Apply f ts" a] size_list_estimation' [of a ts "size a" size] by fastforce

lemma finite_subterms [simp]: "finite (subterms t)"
  by (induction t rule: subterms.induct) auto

section \<open>The interner's invariant\<close>

definition interner_repr :: "wire_interner \<Rightarrow> ruliad_term list \<Rightarrow> bool" where
  "interner_repr w ts \<longleftrightarrow>
     wire_terms (wi_symbols w) [] 0 (wi_nodes w) = Inr ts
     \<and> distinct ts
     \<and> (\<forall>t\<in>set ts. subterms t \<subseteq> set ts)
     \<and> (\<forall>t i. wi_node_indices w t = Some i \<longleftrightarrow> i < length ts \<and> ts ! i = t)
     \<and> (\<forall>s i. wi_symbol_indices w s = Some i \<longrightarrow> i < length (wi_symbols w) \<and> wi_symbols w ! i = s)"

lemma interner_repr_default: "interner_repr default_interner []"
  by (simp add: interner_repr_def default_interner_def)

lemma interner_repr_length: "interner_repr w ts \<Longrightarrow> length ts = length (wi_nodes w)"
  by (auto simp: interner_repr_def dest: wire_terms_length)

lemma interner_repr_lookup:
  "interner_repr w ts \<Longrightarrow> wi_node_indices w t = Some i \<longleftrightarrow> i < length ts \<and> ts ! i = t"
  by (simp add: interner_repr_def)

lemma interner_repr_fresh:
  assumes "interner_repr w ts"
  shows "wi_node_indices w t = None \<longleftrightarrow> t \<notin> set ts"
  using interner_repr_lookup [OF assms, of t] by (cases "wi_node_indices w t") (auto simp: in_set_conv_nth)

lemma intern_symbol_repr:
  assumes "interner_repr w ts" and "intern_symbol s w = (i, w')"
  shows "interner_repr w' ts \<and> i < length (wi_symbols w') \<and> wi_symbols w' ! i = s
    \<and> (\<exists>extra. wi_symbols w' = wi_symbols w @ extra)"
proof (cases "wi_symbol_indices w s")
  case None
  then have w': "i = length (wi_symbols w)" "w' = w\<lparr> wi_symbols := wi_symbols w @ [s],
      wi_symbol_indices := (wi_symbol_indices w)(s \<mapsto> i) \<rparr>"
    using assms(2) by (auto simp: intern_symbol_def Let_def)
  have "j < length (wi_symbols w @ [s]) \<and> (wi_symbols w @ [s]) ! j = r"
    if "wi_symbol_indices w' r = Some j" for r j
    using that assms(1) w' by (fastforce simp: interner_repr_def nth_append split: if_splits)
  then show ?thesis
    using assms(1) w' by (auto simp: interner_repr_def dest: wire_terms_symbols)
next
  case (Some k)
  then show ?thesis
    using assms by (auto simp: intern_symbol_def interner_repr_def)
qed

lemma push_node_repr:
  assumes "interner_repr w ts" and "t \<notin> set ts" and "subterms t \<subseteq> insert t (set ts)"
    and "wire_node_term (wi_symbols w) ts (length (wi_nodes w)) node = Inr t"
    and "push_node t node w = (i, w')"
  shows "interner_repr w' (ts @ [t]) \<and> i = length ts \<and> wi_symbols w' = wi_symbols w"
proof -
  have w': "i = length ts"
    "w' = w\<lparr> wi_nodes := wi_nodes w @ [node], wi_node_indices := (wi_node_indices w)(t \<mapsto> i) \<rparr>"
    using assms(5) interner_repr_length [OF assms(1)] by (auto simp: push_node_def Let_def)
  have "wi_node_indices w' u = Some j \<longleftrightarrow> j < length (ts @ [t]) \<and> (ts @ [t]) ! j = u" for u j
    using assms(1,2) w' by (auto simp: interner_repr_def nth_append less_Suc_eq)
  then show ?thesis
    using assms w' by (auto simp: interner_repr_def wire_terms_snoc)
qed

definition interned :: "wire_interner \<Rightarrow> ruliad_term list \<Rightarrow> wire_interner \<Rightarrow> ruliad_term list \<Rightarrow> ruliad_term set \<Rightarrow> bool" where
  "interned w ts w' ts' new \<longleftrightarrow>
     interner_repr w' ts' \<and> (\<exists>us. ts' = ts @ us) \<and> set ts' = set ts \<union> new
     \<and> (\<exists>extra. wi_symbols w' = wi_symbols w @ extra)"

lemma interned_refl: "interner_repr w ts \<Longrightarrow> new \<subseteq> set ts \<Longrightarrow> interned w ts w ts new"
  by (auto simp: interned_def)

lemma interned_trans:
  "interned w ts w1 ts1 A \<Longrightarrow> interned w1 ts1 w2 ts2 B \<Longrightarrow> interned w ts w2 ts2 (A \<union> B)"
  by (auto simp: interned_def)

lemma interned_symbol:
  "interner_repr w ts \<Longrightarrow> intern_symbol s w = (i, w') \<Longrightarrow> interned w ts w' ts {}"
  using intern_symbol_repr by (auto simp: interned_def)

lemma interned_nth: "interned w ts w' ts' A \<Longrightarrow> i < length ts \<Longrightarrow> i < length ts' \<and> ts' ! i = ts ! i"
  by (auto simp: interned_def nth_append)

lemma intern_repr:
  "interner_repr w ts \<Longrightarrow> intern_term t w = (i, w') \<Longrightarrow>
     \<exists>ts'. interned w ts w' ts' (subterms t) \<and> i < length ts' \<and> ts' ! i = t"
  "interner_repr w ts \<Longrightarrow> intern_terms args w = (is, w') \<Longrightarrow>
     \<exists>ts'. interned w ts w' ts' (\<Union> (subterms ` set args))
        \<and> list_all2 (\<lambda>i t. i < length ts' \<and> ts' ! i = t) is args"
proof (induction t w and args w arbitrary: i w' ts and "is" w' ts
    rule: intern_term_intern_terms.induct)
  case (1 t w)
  show ?case
  proof (cases "wi_node_indices w t")
    case (Some j)
    then have j: "j < length ts" "ts ! j = t" using "1.prems"(1) by (simp_all add: interner_repr_def)
    then have "t \<in> set ts" by auto
    then have "subterms t \<subseteq> set ts" using "1.prems"(1) by (simp add: interner_repr_def)
    moreover have "i = j" "w' = w" using "1.prems"(2) Some by auto
    ultimately show ?thesis using interned_refl [OF "1.prems"(1)] j by blast
  next
    case None
    then have fresh: "t \<notin> set ts" using interner_repr_fresh [OF "1.prems"(1)] by simp
    show ?thesis
    proof (cases t)
      case (Variable v)
      with None "1.prems"(2) push_node_repr [OF "1.prems"(1) fresh, of "NodeV v" i w'] show ?thesis
        by (intro exI [of _ "ts @ [t]"]) (auto simp: interned_def)
    next
      case (Atom s)
      obtain k w1 where sym: "intern_symbol s w = (k, w1)" by fastforce
      with None Atom "1.prems"(2) have push: "push_node t (NodeA k) w1 = (i, w')" by simp
      from intern_symbol_repr [OF "1.prems"(1) sym] Atom
      have "interner_repr w1 ts"
        "wire_node_term (wi_symbols w1) ts (length (wi_nodes w1)) (NodeA k) = Inr t"
        by (auto simp: get_or_def)
      from push_node_repr [OF this(1) fresh _ this(2) push] interned_symbol [OF "1.prems"(1) sym] Atom
      show ?thesis by (intro exI [of _ "ts @ [t]"]) (auto simp: interned_def)
    next
      case (Apply f args)
      obtain k w1 where sym: "intern_symbol f w = (k, w1)" by fastforce
      obtain ks w2 where args: "intern_terms args w1 = (ks, w2)" by fastforce
      have push: "push_node t (NodeP k ks) w2 = (i, w')" using None Apply "1.prems"(2) sym args by simp
      have r1: "interner_repr w1 ts" "k < length (wi_symbols w1)" "wi_symbols w1 ! k = f"
        using intern_symbol_repr [OF "1.prems"(1) sym] by auto
      obtain ts2 where ts2: "interned w1 ts w2 ts2 (\<Union> (subterms ` set args))"
        "list_all2 (\<lambda>i t. i < length ts2 \<and> ts2 ! i = t) ks args"
        using "1.IH" [OF None Apply sym [symmetric] r1(1) args] by blast
      have fresh2: "t \<notin> set ts2"
        using fresh ts2(1) Apply argument_not_superterm by (auto simp: interned_def)
      have "map (\<lambda>i. ts2 ! i) ks = args" "\<And>k. k \<in> set ks \<Longrightarrow> k < length ts2"
        using ts2(2) by (auto simp: list_all2_conv_all_nth in_set_conv_nth intro: nth_equalityI)
      then have node: "wire_node_term (wi_symbols w2) ts2 (length (wi_nodes w2)) (NodeP k ks) = Inr t"
        using r1 ts2(1) Apply
        by (auto simp: interned_def get_or_def nth_append result_bind_Inr
            intro!: try_map_Inr [of ks _ "\<lambda>i. ts2 ! i", THEN trans])
      have "subterms t \<subseteq> insert t (set ts2)" using ts2(1) Apply by (auto simp: interned_def)
      from push_node_repr [OF _ fresh2 this node push] ts2(1)
      have "interned w2 ts2 w' (ts2 @ [t]) {t}" "i = length ts2" by (auto simp: interned_def)
      moreover have "interned w ts w2 ts2 (\<Union> (subterms ` set args))"
        using interned_trans [OF interned_symbol [OF "1.prems"(1) sym] ts2(1)] by simp
      ultimately show ?thesis
        using interned_trans [of w ts w2 ts2 _ w' "ts2 @ [t]" "{t}"] Apply
        by (intro exI [of _ "ts2 @ [t]"]) auto
    qed
  qed
next
  case (2 w)
  then show ?case by (auto intro!: exI [of _ ts] interned_refl)
next
  case (3 a args w)
  obtain k w1 where t: "intern_term a w = (k, w1)" by fastforce
  obtain ks w2 where a: "intern_terms args w1 = (ks, w2)" by fastforce
  have eq: "is = k # ks" "w' = w2" using "3.prems"(2) t a by auto
  obtain ts1 where ts1: "interned w ts w1 ts1 (subterms a)" "k < length ts1" "ts1 ! k = a"
    using "3.IH"(1) [OF "3.prems"(1) t] by blast
  then have "interner_repr w1 ts1" by (simp add: interned_def)
  then obtain ts2 where "interned w1 ts1 w2 ts2 (\<Union> (subterms ` set args))"
    "list_all2 (\<lambda>i t. i < length ts2 \<and> ts2 ! i = t) ks args"
    using "3.IH"(2) [OF t [symmetric] _ a] by blast
  with interned_trans [OF ts1(1), of w2 ts2] interned_nth [of w1 ts1 w2 ts2 _ k] ts1 eq show ?case
    by (intro exI [of _ ts2]) auto
qed

section \<open>Problems\<close>

fun problem_term_set :: "proof_problem \<Rightarrow> ruliad_term set" where
  "problem_term_set p =
     (\<Union>a\<in>set (problem_axioms p). subterms (ax_lhs a) \<union> subterms (ax_rhs a))
     \<union> (\<Union>g\<in>set (problem_goals p). subterms (eq_lhs (goal_claim g)) \<union> subterms (eq_rhs (goal_claim g)))"

lemma wire_axiom_into_append:
  "wire_axiom_into ts wa = Inr a \<Longrightarrow> wire_axiom_into (ts @ us) wa = Inr a"
  by (cases wa) (auto simp: result_bind_Inr wire_term_def dest!: get_or_append [of ts _ _ _ us])

lemma wire_goal_into_append:
  "wire_goal_into ts wg = Inr g \<Longrightarrow> wire_goal_into (ts @ us) wg = Inr g"
  by (cases wg) (auto simp: result_bind_Inr wire_term_def dest!: get_or_append [of ts _ _ _ us])

lemma try_map_into_append:
  assumes "\<And>x y. f x = Inr y \<Longrightarrow> f' x = Inr y"
  shows "try_map f xs = Inr ys \<Longrightarrow> try_map f' xs = Inr ys"
  using assms by (induction xs arbitrary: ys) (auto simp: result_bind_Inr)

lemma intern_pair_repr:
  assumes "interner_repr w ts" and "intern_term l w = (i, w1)" and "intern_term r w1 = (j, w2)"
  shows "\<exists>ts2. interned w ts w2 ts2 (subterms l \<union> subterms r)
    \<and> i < length ts2 \<and> ts2 ! i = l \<and> j < length ts2 \<and> ts2 ! j = r"
proof -
  obtain ts1 where 1: "interned w ts w1 ts1 (subterms l)" "i < length ts1" "ts1 ! i = l"
    using intern_repr(1) [OF assms(1,2)] by blast
  then have "interner_repr w1 ts1" by (simp add: interned_def)
  then obtain ts2 where "interned w1 ts1 w2 ts2 (subterms r)" "j < length ts2" "ts2 ! j = r"
    using intern_repr(1) assms(3) by blast
  with 1 show ?thesis using interned_trans [OF 1(1)] interned_nth by blast
qed

lemma intern_axioms_repr:
  "interner_repr w ts \<Longrightarrow> intern_axioms axioms w = (ws, w') \<Longrightarrow>
     \<exists>ts'. interned w ts w' ts' (\<Union>a\<in>set axioms. subterms (ax_lhs a) \<union> subterms (ax_rhs a))
       \<and> try_map (wire_axiom_into ts') ws = Inr axioms"
proof (induction axioms arbitrary: w ts ws)
  case Nil
  then show ?case by (auto intro!: exI [of _ ts] interned_refl)
next
  case (Cons a axioms)
  obtain i w1 j w2 rest w3 where eqs: "intern_term (ax_lhs a) w = (i, w1)"
    "intern_term (ax_rhs a) w1 = (j, w2)" "intern_axioms axioms w2 = (rest, w3)" by fastforce
  then have ws: "ws = WireAxiom (ax_id a) i j # rest" "w3 = w'" using Cons.prems(2) by auto
  obtain ts2 where ts2: "interned w ts w2 ts2 (subterms (ax_lhs a) \<union> subterms (ax_rhs a))"
    "i < length ts2" "ts2 ! i = ax_lhs a" "j < length ts2" "ts2 ! j = ax_rhs a"
    using intern_pair_repr [OF Cons.prems(1) eqs(1,2)] by blast
  then have "interner_repr w2 ts2" by (simp add: interned_def)
  then obtain ts' where ts': "interned w2 ts2 w' ts'
      (\<Union>a\<in>set axioms. subterms (ax_lhs a) \<union> subterms (ax_rhs a))"
    "try_map (wire_axiom_into ts') rest = Inr axioms"
    using Cons.IH [of w2 ts2 rest] eqs(3) ws(2) by blast
  have "wire_axiom_into ts' (WireAxiom (ax_id a) i j) = Inr a"
    using interned_nth [OF ts'(1)] ts2 by (simp add: wire_term_def get_or_def)
  then show ?case
    using interned_trans [OF ts2(1) ts'(1)] ts'(2) ws(1) by (intro exI [of _ ts']) simp
qed

lemma intern_goals_repr:
  "interner_repr w ts \<Longrightarrow> intern_goals goals w = (ws, w') \<Longrightarrow>
     \<exists>ts'. interned w ts w' ts'
         (\<Union>g\<in>set goals. subterms (eq_lhs (goal_claim g)) \<union> subterms (eq_rhs (goal_claim g)))
       \<and> try_map (wire_goal_into ts') ws = Inr goals"
proof (induction goals arbitrary: w ts ws)
  case Nil
  then show ?case by (auto intro!: exI [of _ ts] interned_refl)
next
  case (Cons g goals)
  obtain i w1 j w2 rest w3 where eqs: "intern_term (eq_lhs (goal_claim g)) w = (i, w1)"
    "intern_term (eq_rhs (goal_claim g)) w1 = (j, w2)" "intern_goals goals w2 = (rest, w3)"
    by fastforce
  then have ws: "ws = WireGoal (goal_id g) (goal_dependencies g) i j # rest" "w3 = w'"
    using Cons.prems(2) by auto
  obtain ts2 where ts2: "interned w ts w2 ts2
      (subterms (eq_lhs (goal_claim g)) \<union> subterms (eq_rhs (goal_claim g)))"
    "i < length ts2" "ts2 ! i = eq_lhs (goal_claim g)" "j < length ts2" "ts2 ! j = eq_rhs (goal_claim g)"
    using intern_pair_repr [OF Cons.prems(1) eqs(1,2)] by blast
  then have "interner_repr w2 ts2" by (simp add: interned_def)
  then obtain ts' where ts': "interned w2 ts2 w' ts'
      (\<Union>g\<in>set goals. subterms (eq_lhs (goal_claim g)) \<union> subterms (eq_rhs (goal_claim g)))"
    "try_map (wire_goal_into ts') rest = Inr goals"
    using Cons.IH [of w2 ts2 rest] eqs(3) ws(2) by blast
  have "wire_goal_into ts' (WireGoal (goal_id g) (goal_dependencies g) i j) = Inr g"
    using interned_nth [OF ts'(1)] ts2 by (simp add: wire_term_def get_or_def)
  then show ?case
    using interned_trans [OF ts2(1) ts'(1)] ts'(2) ws(1) by (intro exI [of _ ts']) simp
qed

lemma from_problem_tables:
  obtains symbols nodes axioms goals ts where
    "from_problem p = WireProblem (problem_version p) (problem_domain p) (problem_theory p)
       symbols nodes axioms goals (problem_root p)"
    "wire_terms symbols [] 0 nodes = Inr ts" "distinct ts" "set ts = problem_term_set p"
    "try_map (wire_axiom_into ts) axioms = Inr (problem_axioms p)"
    "try_map (wire_goal_into ts) goals = Inr (problem_goals p)"
proof -
  obtain axioms w1 where a: "intern_axioms (problem_axioms p) default_interner = (axioms, w1)" by fastforce
  obtain goals w2 where g: "intern_goals (problem_goals p) w1 = (goals, w2)" by fastforce
  obtain ts1 where ts1: "interned default_interner [] w1 ts1
      (\<Union>a\<in>set (problem_axioms p). subterms (ax_lhs a) \<union> subterms (ax_rhs a))"
    "try_map (wire_axiom_into ts1) axioms = Inr (problem_axioms p)"
    using intern_axioms_repr [OF interner_repr_default a] by blast
  then have "interner_repr w1 ts1" by (simp add: interned_def)
  then obtain ts where ts: "interned w1 ts1 w2 ts
      (\<Union>g\<in>set (problem_goals p). subterms (eq_lhs (goal_claim g)) \<union> subterms (eq_rhs (goal_claim g)))"
    "try_map (wire_goal_into ts) goals = Inr (problem_goals p)"
    using intern_goals_repr [OF _ g] by blast
  have "try_map (wire_axiom_into ts) axioms = Inr (problem_axioms p)"
    using ts(1) ts1(2) try_map_into_append [OF wire_axiom_into_append] by (fastforce simp: interned_def)
  moreover have "set ts = problem_term_set p" using ts1(1) ts(1) by (simp add: interned_def)
  moreover have "wire_terms (wi_symbols w2) [] 0 (wi_nodes w2) = Inr ts" "distinct ts"
    using ts(1) by (simp_all add: interned_def interner_repr_def)
  ultimately show ?thesis using ts(2) a g that by (simp add: from_problem_def)
qed

lemma into_from_problem: "into_problem (from_problem p) = Inr p"
  by (rule from_problem_tables [of p]) simp

fun wire_problem_nodes :: "wire_problem \<Rightarrow> wire_node list" where
  "wire_problem_nodes (WireProblem _ _ _ _ nodes _ _ _) = nodes"

lemma from_problem_node_count: "length (wire_problem_nodes (from_problem p)) = card (problem_term_set p)"
  by (rule from_problem_tables [of p])
    (metis add.left_neutral distinct_card list.size(3) wire_problem_nodes.simps wire_terms_length)

section \<open>Which tables are read\<close>

fun wire_node_ok :: "nat \<Rightarrow> nat \<Rightarrow> wire_node \<Rightarrow> bool" where
  "wire_node_ok symbols position (NodeV _) = True"
| "wire_node_ok symbols position (NodeA s) = (s < symbols)"
| "wire_node_ok symbols position (NodeP f args) = (f < symbols \<and> list_all (\<lambda>a. a < position) args)"

fun wire_axiom_ok :: "nat \<Rightarrow> wire_axiom \<Rightarrow> bool" where
  "wire_axiom_ok nodes (WireAxiom _ lhs rhs) = (lhs < nodes \<and> rhs < nodes)"

fun wire_goal_ok :: "nat \<Rightarrow> wire_goal \<Rightarrow> bool" where
  "wire_goal_ok nodes (WireGoal _ _ lhs rhs) = (lhs < nodes \<and> rhs < nodes)"

fun wire_problem_ok :: "wire_problem \<Rightarrow> bool" where
  "wire_problem_ok (WireProblem _ _ _ symbols nodes axioms goals _) =
     ((\<forall>i<length nodes. wire_node_ok (length symbols) i (nodes ! i))
      \<and> list_all (wire_axiom_ok (length nodes)) axioms
      \<and> list_all (wire_goal_ok (length nodes)) goals)"

lemma is_ok_bind: "is_ok (result_bind r f) \<longleftrightarrow> (\<exists>x. r = Inr x \<and> is_ok (f x))"
  by (auto simp: is_ok_def result_bind_def split: sum.splits)

lemma is_ok_try_map: "is_ok (try_map f xs) \<longleftrightarrow> list_all (\<lambda>x. is_ok (f x)) xs"
  by (induction xs) (auto simp: is_ok_iff result_bind_Inr)

lemma is_ok_get_or: "is_ok (get_or xs i m) \<longleftrightarrow> i < length xs"
  by (simp add: get_or_def)

lemma wire_node_term_ok:
  "is_ok (wire_node_term symbols nodes k n) \<longleftrightarrow> wire_node_ok (length symbols) (length nodes) n"
  by (cases n) (simp_all add: is_ok_bind get_or_Inr is_ok_try_map is_ok_get_or
      flip: is_ok_iff)

lemma wire_terms_ok:
  "is_ok (wire_terms symbols nodes k ns) \<longleftrightarrow>
     (\<forall>i<length ns. wire_node_ok (length symbols) (length nodes + i) (ns ! i))"
proof (induction symbols nodes k ns rule: wire_terms.induct)
  case (1 symbols nodes k)
  then show ?case by simp
next
  case (2 symbols nodes k n ns)
  have "is_ok (wire_terms symbols nodes k (n # ns)) \<longleftrightarrow>
      wire_node_ok (length symbols) (length nodes) n
      \<and> (\<forall>i<length ns. wire_node_ok (length symbols) (length nodes + Suc i) (ns ! i))"
    using 2 by (auto simp: is_ok_iff result_bind_Inr simp flip: wire_node_term_ok [of symbols nodes k])
  then show ?case by (auto simp: less_Suc_eq_0_disj)
qed

lemma wire_axiom_into_ok: "is_ok (wire_axiom_into ts a) \<longleftrightarrow> wire_axiom_ok (length ts) a"
  by (cases a) (simp add: is_ok_bind wire_term_Inr)

lemma wire_goal_into_ok: "is_ok (wire_goal_into ts g) \<longleftrightarrow> wire_goal_ok (length ts) g"
  by (cases g) (simp add: is_ok_bind wire_term_Inr)

lemma into_problem_ok: "is_ok (into_problem w) \<longleftrightarrow> wire_problem_ok w"
proof (cases w)
  case (WireProblem version dom thy symbols nodes axioms goals root)
  show ?thesis
  proof (cases "wire_terms symbols [] 0 nodes")
    case (Inl e)
    with wire_terms_ok [of symbols "[]" 0 nodes] WireProblem show ?thesis by auto
  next
    case (Inr ts)
    then have "length ts = length nodes" by (auto dest: wire_terms_length)
    with Inr wire_terms_ok [of symbols "[]" 0 nodes] WireProblem show ?thesis
      by (simp add: is_ok_bind wire_axiom_into_ok wire_goal_into_ok is_ok_try_map flip: is_ok_iff)
  qed
qed

section \<open>Certificates\<close>

lemma wire_source_into_from: "wire_source_into (wire_source_from s) = s"
  by (cases s) auto

lemma wire_step_into_from: "wire_step_into (wire_step_from s) = s"
  by (cases s; cases "step_direction s") (auto simp: wire_step_from_def wire_source_into_from)

lemma goal_certificate_eta: "\<lparr> gc_goal = gc_goal g, gc_steps = gc_steps g \<rparr> = g"
  by simp

lemma wire_certificate_into_from: "wire_certificate_into (wire_certificate_from c) = c"
  by (cases c) (simp add: wire_certificate_from_def wire_step_into_from comp_def goal_certificate_eta)

lemma wire_step_from_into: "wire_step_from (wire_step_into w) = w"
proof (cases w)
  case (WireStep source reversed path)
  then show ?thesis by (cases source) (auto simp: wire_step_from_def)
qed

lemma wire_goal_certificate_from_into:
  "WireGoalCertificate (gc_goal (wire_goal_certificate_into g))
     (map wire_step_from (gc_steps (wire_goal_certificate_into g))) = g"
  by (cases g) (simp add: wire_step_from_into comp_def)

lemma wire_certificate_from_into: "wire_certificate_from (wire_certificate_into w) = w"
  by (cases w) (simp add: wire_certificate_from_def wire_goal_certificate_from_into comp_def)

end
