(* ===== verification/Ruliad_Wire_Text.thy ===== *)
theory Ruliad_Wire_Text
  imports Ruliad_IR
begin

text \<open>
  The model-facing text of proofs in \<open>ruliad/wire.rs\<close>: one step is
  \<open>g<goal>|<source>|<direction>|<path>\<close>, a certificate is its steps joined by semicolons. The
  prefix decoder keeps the steps before the first malformed line. The theorems show which values
  survive the round trip, and that what the decoders return always does.
\<close>

section \<open>Writing\<close>

fun source_text :: "proof_source \<Rightarrow> string" where
  "source_text (AxiomSource ident) = ''a:'' @ ident"
| "source_text (LemmaSource goal) = ''l:'' @ show_nat goal"

fun direction_text :: "rewrite_direction \<Rightarrow> string" where
  "direction_text Forward = ''f''"
| "direction_text Reverse = ''r''"

definition path_text :: "nat list \<Rightarrow> string" where
  "path_text path = (if path = [] then ''-'' else join_with ''.'' (map show_nat path))"

definition encode_model_proof_step :: "nat \<Rightarrow> proof_step \<Rightarrow> string" where
  "encode_model_proof_step goal s =
     ''g'' @ show_nat goal @ ''|'' @ source_text (step_source s) @ ''|''
       @ direction_text (step_direction s) @ ''|'' @ path_text (step_path s)"

definition encode_model_certificate :: "proof_certificate \<Rightarrow> string" where
  "encode_model_certificate certificate =
     join_with '';''
       (concat (map (\<lambda>g. map (encode_model_proof_step (gc_goal g)) (gc_steps g))
          (cert_goals certificate)))"

section \<open>Reading\<close>

definition source_from_text :: "string \<Rightarrow> proof_source option" where
  "source_from_text source =
     (case strip_prefix ''a:'' source of
        Some ident \<Rightarrow> Some (AxiomSource ident)
      | None \<Rightarrow>
          Option.bind (strip_prefix ''l:'' source)
            (\<lambda>goal. map_option LemmaSource (parse_usize goal)))"

definition direction_from_text :: "string \<Rightarrow> rewrite_direction option" where
  "direction_from_text direction =
     (if direction = ''f'' then Some Forward
      else if direction = ''r'' then Some Reverse
      else None)"

definition path_from_text :: "string \<Rightarrow> nat list option" where
  "path_from_text path =
     (if path = ''-'' then Some [] else those (map parse_usize (split_on CHR ''.'' path)))"

definition decode_model_certificate_step :: "string \<Rightarrow> (nat \<times> proof_step) option" where
  "decode_model_certificate_step line =
     (case split_on CHR ''|'' line of
        [goal_field, source_field, direction_field, path_field] \<Rightarrow>
          Option.bind (Option.bind (strip_prefix ''g'' goal_field) parse_usize)
            (\<lambda>goal. Option.bind (source_from_text source_field)
              (\<lambda>source. Option.bind (direction_from_text direction_field)
                (\<lambda>direction. Option.bind (path_from_text path_field)
                  (\<lambda>path. Some (goal, \<lparr> step_source = source, step_path = path,
                                       step_direction = direction \<rparr>)))))
      | _ \<Rightarrow> None)"

definition decode_model_proof_step :: "string \<Rightarrow> (nat \<times> proof_step) option" where
  "decode_model_proof_step payload =
     (let trimmed = str_trim payload in
      if trimmed \<noteq> [] \<and> CHR '';'' \<notin> set trimmed then decode_model_certificate_step trimmed else None)"

fun push_step :: "goal_certificate list \<Rightarrow> nat \<Rightarrow> proof_step \<Rightarrow> goal_certificate list" where
  "push_step [] goal s = [\<lparr> gc_goal = goal, gc_steps = [s] \<rparr>]"
| "push_step (candidate # goals) goal s =
     (if gc_goal candidate = goal then candidate\<lparr> gc_steps := gc_steps candidate @ [s] \<rparr> # goals
      else candidate # push_step goals goal s)"

fun prefix_loop :: "goal_certificate list \<Rightarrow> nat \<Rightarrow> string list \<Rightarrow> goal_certificate list \<times> nat \<times> bool" where
  "prefix_loop goals parsed_steps [] = (goals, parsed_steps, True)"
| "prefix_loop goals parsed_steps (line # rest) =
     (if line = [] then (goals, parsed_steps, False)
      else
        (case decode_model_certificate_step line of
           None \<Rightarrow> (goals, parsed_steps, False)
         | Some (goal, s) \<Rightarrow> prefix_loop (push_step goals goal s) (sat_add parsed_steps 1) rest))"

record model_certificate_prefix =
  mcp_certificate :: proof_certificate
  mcp_parsed_steps :: nat
  mcp_syntax_complete :: bool

definition decode_model_certificate_prefix ::
    "string \<Rightarrow> u32 \<Rightarrow> string \<Rightarrow> string + model_certificate_prefix" where
  "decode_model_certificate_prefix payload version problem_hash =
     (case prefix_loop [] 0 (split_on CHR '';'' payload) of
        (goals, parsed_steps, syntax_complete) \<Rightarrow>
          Inr \<lparr> mcp_certificate = \<lparr> cert_version = version,
                  cert_problem_hash = problem_hash, cert_goals = goals \<rparr>,
                mcp_parsed_steps = parsed_steps, mcp_syntax_complete = syntax_complete \<rparr>)"

definition decode_model_certificate ::
    "string \<Rightarrow> u32 \<Rightarrow> string \<Rightarrow> string + proof_certificate" where
  "decode_model_certificate payload version problem_hash =
     result_bind (decode_model_certificate_prefix payload version problem_hash)
       (\<lambda>parsed.
          if \<not> mcp_syntax_complete parsed then Inl ''incomplete model-facing ruliad certificate''
          else Inr (mcp_certificate parsed))"

section \<open>One step\<close>

fun source_encodable :: "proof_source \<Rightarrow> bool" where
  "source_encodable (AxiomSource ident) = (CHR ''|'' \<notin> set ident)"
| "source_encodable (LemmaSource goal) = (goal \<le> usize_max)"

fun line_encodable :: "nat \<times> proof_step \<Rightarrow> bool" where
  "line_encodable (goal, s) =
     (goal \<le> usize_max \<and> source_encodable (step_source s) \<and> list_all (\<lambda>i. i \<le> usize_max) (step_path s))"

definition encode_line :: "nat \<times> proof_step \<Rightarrow> string" where
  "encode_line = (\<lambda>(goal, s). encode_model_proof_step goal s)"

lemma sep_notin_show_nat [simp]:
  "CHR ''|'' \<notin> set (show_nat n)" "CHR '';'' \<notin> set (show_nat n)"
  "CHR ''.'' \<notin> set (show_nat n)" "CHR ''-'' \<notin> set (show_nat n)"
  by (rule show_nat_notin; simp)+

lemma source_from_text_source: "source_encodable s \<Longrightarrow> source_from_text (source_text s) = Some s"
  by (cases s) (simp_all add: source_from_text_def strip_prefix_def)

lemma direction_from_text_direction [simp]: "direction_from_text (direction_text d) = Some d"
  by (cases d) (simp_all add: direction_from_text_def)

lemma path_text_chars: "c \<in> set (path_text p) \<Longrightarrow> c = CHR ''-'' \<or> c = CHR ''.'' \<or> (\<exists>n. c \<in> set (show_nat n))"
  using set_join_with [of "''.''" "map show_nat p"] by (fastforce simp: path_text_def split: if_splits)

lemma sep_notin_path_text [simp]: "CHR ''|'' \<notin> set (path_text p)" "CHR '';'' \<notin> set (path_text p)"
  using path_text_chars by fastforce+

lemma path_from_text_path: "list_all (\<lambda>i. i \<le> usize_max) p \<Longrightarrow> path_from_text (path_text p) = Some p"
proof (cases "p = []")
  case True
  then show ?thesis by (simp add: path_from_text_def path_text_def)
next
  case False
  assume bound: "list_all (\<lambda>i. i \<le> usize_max) p"
  have split: "split_on CHR ''.'' (path_text p) = map show_nat p"
    using False split_on_join [of "map show_nat p" "CHR ''.''"] by (simp add: path_text_def)
  have "CHR ''-'' \<notin> set (path_text p)"
    using False set_join_with [of "''.''" "map show_nat p"] by (fastforce simp: path_text_def)
  then have "path_text p \<noteq> ''-''" by auto
  moreover have "those (map parse_usize (map show_nat p)) = Some (map id p)"
    unfolding map_map using bound by (intro those_map_Some) (auto simp: list_all_iff)
  ultimately show ?thesis by (simp add: path_from_text_def split)
qed

lemma encode_step_fields:
  "encode_model_proof_step goal s =
     join_with ''|'' [''g'' @ show_nat goal, source_text (step_source s),
       direction_text (step_direction s), path_text (step_path s)]"
  by (simp add: encode_model_proof_step_def)

lemma sep_notin_direction [simp]:
  "CHR ''|'' \<notin> set (direction_text d)" "CHR '';'' \<notin> set (direction_text d)"
  by (cases d; simp)+

lemma sep_notin_source: "source_encodable s \<Longrightarrow> CHR ''|'' \<notin> set (source_text s)"
  by (cases s) simp_all

lemma decode_encode_line:
  assumes "line_encodable x"
  shows "decode_model_certificate_step (encode_line x) = Some x"
proof -
  obtain goal s where x: "x = (goal, s)" by fastforce
  have "split_on CHR ''|'' (encode_model_proof_step goal s) =
      [''g'' @ show_nat goal, source_text (step_source s), direction_text (step_direction s),
       path_text (step_path s)]"
    unfolding encode_step_fields using assms x sep_notin_source by (intro split_on_join) auto
  moreover have "strip_prefix ''g'' (''g'' @ show_nat goal) = Some (show_nat goal)"
    by (rule strip_prefix_append)
  ultimately show ?thesis
    using assms x
    by (simp add: encode_line_def decode_model_certificate_step_def source_from_text_source
        path_from_text_path)
qed

lemma source_from_text_encodable:
  "source_from_text f = Some s \<Longrightarrow> CHR ''|'' \<notin> set f \<Longrightarrow> source_encodable s"
  by (auto simp: source_from_text_def bind_eq_Some_conv split: option.splits
      dest!: strip_prefix_SomeD dest: parse_usize_bound)

lemma path_from_text_bound: "path_from_text f = Some p \<Longrightarrow> list_all (\<lambda>i. i \<le> usize_max) p"
  by (auto simp: path_from_text_def those_Some_iff list_all_iff map_eq_conv
      dest!: arg_cong [of _ _ set] split: if_splits)
    (metis imageE imageI parse_usize_bound)

lemma decode_step_Some:
  assumes "decode_model_certificate_step line = Some (goal, s)"
  obtains g f d p where "split_on CHR ''|'' line = [''g'' @ g, f, d, p]" "parse_usize g = Some goal"
    "source_from_text f = Some (step_source s)" "direction_from_text d = Some (step_direction s)"
    "path_from_text p = Some (step_path s)"
  using assms
  by (auto simp: decode_model_certificate_step_def bind_eq_Some_conv
      split: list.splits dest!: strip_prefix_SomeD)

lemma decoded_line_encodable:
  assumes "decode_model_certificate_step line = Some x"
  shows "line_encodable x"
proof -
  obtain goal s where x: "x = (goal, s)" by fastforce
  from assms [unfolded x] show ?thesis
  proof (rule decode_step_Some)
    fix g f d p
    assume "split_on CHR ''|'' line = [''g'' @ g, f, d, p]"
    then have "CHR ''|'' \<notin> set f" using split_on_notin [of f "CHR ''|''" line] by simp
    moreover assume "parse_usize g = Some goal" "source_from_text f = Some (step_source s)"
      "path_from_text p = Some (step_path s)"
    ultimately show ?thesis
      using source_from_text_encodable path_from_text_bound parse_usize_bound x by simp
  qed
qed

interpretation line_codec: canonical_codec encode_line decode_model_certificate_step line_encodable
  by unfold_locales (simp_all add: decode_encode_line decoded_line_encodable)

section \<open>One action\<close>

definition action_encodable :: "nat \<times> proof_step \<Rightarrow> bool" where
  "action_encodable x \<longleftrightarrow> line_encodable x
     \<and> (case step_source (snd x) of AxiomSource ident \<Rightarrow> CHR '';'' \<notin> set ident | LemmaSource _ \<Rightarrow> True)"

lemma last_path_text: "graphic (last (path_text p))"
proof (cases "p = []")
  case True
  then show ?thesis by (simp add: path_text_def graphic_def of_char_of)
next
  case False
  then have "last (join_with ''.'' (map show_nat p)) = last (show_nat (last p))"
  proof (induction p)
    case (Cons a p)
    then show ?case using join_with_Nil_iff [of "map show_nat p" "''.''"] by (cases p) auto
  qed simp
  then show ?thesis
    using False show_nat_graphic [of "last p"] by (simp add: path_text_def list_all_iff)
qed

lemma encode_step_trim: "str_trim (encode_line x) = encode_line x"
proof (cases x)
  case (Pair goal s)
  have "path_text (step_path s) \<noteq> []"
    by (auto simp: path_text_def) (metis join_with_Nil_iff list.map_disc_iff imageE list.set_map show_nat_nonempty)
  then show ?thesis
    using last_path_text [of "step_path s"] Pair
    by (intro str_trim_graphic)
      (simp_all add: encode_line_def encode_model_proof_step_def graphic_def)
qed

lemma encode_line_nonempty [simp]: "encode_line x \<noteq> []"
  by (cases x) (simp add: encode_line_def encode_model_proof_step_def)

lemma encode_line_no_semicolon: "action_encodable x \<Longrightarrow> CHR '';'' \<notin> set (encode_line x)"
  by (cases x; cases "step_source (snd x)")
    (simp_all add: action_encodable_def encode_line_def encode_model_proof_step_def)

lemma action_line: "action_encodable x \<Longrightarrow> line_encodable x"
  by (simp add: action_encodable_def)

lemma source_from_text_chars:
  "source_from_text f = Some (AxiomSource ident) \<Longrightarrow> set ident \<subseteq> set f"
  by (auto simp: source_from_text_def bind_eq_Some_conv split: option.splits dest!: strip_prefix_SomeD)

lemma decoded_action_encodable:
  assumes "decode_model_certificate_step line = Some x" and "CHR '';'' \<notin> set line"
  shows "action_encodable x"
proof -
  obtain goal s where x: "x = (goal, s)" by fastforce
  from assms(1) [unfolded x] show ?thesis
  proof (rule decode_step_Some)
    fix g f d p
    assume "split_on CHR ''|'' line = [''g'' @ g, f, d, p]"
    then have "CHR '';'' \<notin> set f" using split_on_subset [of f "CHR ''|''" line] assms(2) by auto
    moreover assume "source_from_text f = Some (step_source s)"
    ultimately show ?thesis
      using decoded_line_encodable [OF assms(1)] x source_from_text_chars
      by (fastforce simp: action_encodable_def split: proof_source.splits)
  qed
qed

interpretation action_codec: canonical_codec encode_line decode_model_proof_step action_encodable
proof
  fix x
  assume "action_encodable x"
  then show "decode_model_proof_step (encode_line x) = Some x"
    using decode_encode_line encode_line_no_semicolon action_line
    by (simp add: decode_model_proof_step_def encode_step_trim)
next
  fix s x
  assume "decode_model_proof_step s = Some x"
  then show "action_encodable x"
    using decoded_action_encodable by (auto simp: decode_model_proof_step_def Let_def split: if_splits)
qed

section \<open>Grouping steps by goal\<close>

abbreviation push_pair :: "goal_certificate list \<Rightarrow> nat \<times> proof_step \<Rightarrow> goal_certificate list" where
  "push_pair goals x \<equiv> push_step goals (fst x) (snd x)"

definition goal_steps :: "goal_certificate list \<Rightarrow> nat \<Rightarrow> proof_step list" where
  "goal_steps goals k = concat (map gc_steps (filter (\<lambda>g. gc_goal g = k) goals))"

lemma push_step_keys:
  "map gc_goal (push_step goals k s) =
     (if k \<in> gc_goal ` set goals then map gc_goal goals else map gc_goal goals @ [k])"
  by (induction goals) auto

lemma push_step_distinct:
  "distinct (map gc_goal goals) \<Longrightarrow> distinct (map gc_goal (push_step goals k s))"
  by (simp add: push_step_keys)

lemma goal_steps_absent: "k \<notin> gc_goal ` set goals \<Longrightarrow> goal_steps goals k = []"
  by (auto simp: goal_steps_def filter_empty_conv)

lemma goal_steps_Cons:
  "goal_steps (g # goals) k = (if gc_goal g = k then gc_steps g @ goal_steps goals k else goal_steps goals k)"
  by (simp add: goal_steps_def)

lemma goal_steps_push:
  "distinct (map gc_goal goals) \<Longrightarrow>
     goal_steps (push_step goals k s) j = goal_steps goals j @ (if j = k then [s] else [])"
  by (induction goals) (auto simp: goal_steps_Cons goal_steps_absent goal_steps_def [of "[]"])

lemma push_step_parts: "g \<in> set (push_step goals k s) \<Longrightarrow> \<forall>g\<in>set goals. gc_steps g \<noteq> [] \<Longrightarrow> gc_steps g \<noteq> []"
  by (induction goals) (auto split: if_splits)

lemma push_pairs_grouped:
  assumes "distinct (map gc_goal goals)" and "\<forall>g\<in>set goals. gc_steps g \<noteq> []"
  shows "distinct (map gc_goal (foldl push_pair goals xs))
    \<and> (\<forall>g\<in>set (foldl push_pair goals xs). gc_steps g \<noteq> [])
    \<and> (\<forall>k. goal_steps (foldl push_pair goals xs) k =
          goal_steps goals k @ map snd (filter (\<lambda>x. fst x = k) xs))"
  using assms
proof (induction xs arbitrary: goals)
  case Nil
  then show ?case by simp
next
  case (Cons x xs)
  have "distinct (map gc_goal (push_pair goals x))" "\<forall>g\<in>set (push_pair goals x). gc_steps g \<noteq> []"
    using Cons.prems push_step_distinct push_step_parts by blast+
  from Cons.IH [OF this] goal_steps_push [OF Cons.prems(1)] show ?case by auto
qed

lemma push_pair_last:
  "k \<notin> gc_goal ` set goals \<Longrightarrow>
     foldl push_pair (goals @ [\<lparr> gc_goal = k, gc_steps = ss \<rparr>]) (map (Pair k) ts)
       = goals @ [\<lparr> gc_goal = k, gc_steps = ss @ ts \<rparr>]"
proof (induction ts arbitrary: ss)
  case (Cons t ts)
  have "push_step (goals @ [\<lparr> gc_goal = k, gc_steps = ss \<rparr>]) k t
      = goals @ [\<lparr> gc_goal = k, gc_steps = ss @ [t] \<rparr>]"
    using Cons.prems by (induction goals) auto
  with Cons show ?case by simp
qed simp

lemma push_step_absent: "k \<notin> gc_goal ` set goals \<Longrightarrow> push_step goals k s = goals @ [\<lparr> gc_goal = k, gc_steps = [s] \<rparr>]"
  by (induction goals) auto

lemma push_goal:
  "gc_goal g \<notin> gc_goal ` set goals \<Longrightarrow> gc_steps g \<noteq> [] \<Longrightarrow>
     foldl push_pair goals (map (Pair (gc_goal g)) (gc_steps g)) = goals @ [g]"
  by (cases "gc_steps g") (simp_all add: push_step_absent push_pair_last)

lemma push_all_goals:
  "distinct (map gc_goal (done_goals @ goals)) \<Longrightarrow> \<forall>g\<in>set goals. gc_steps g \<noteq> [] \<Longrightarrow>
     foldl push_pair done_goals (concat (map (\<lambda>g. map (Pair (gc_goal g)) (gc_steps g)) goals)) = done_goals @ goals"
proof (induction goals arbitrary: done_goals)
  case (Cons g goals)
  then show ?case using Cons.IH [of "done_goals @ [g]"] by (simp add: push_goal)
qed simp

section \<open>The prefix decoder\<close>

text \<open>The steps the decoder keeps: those of the longest prefix of well-formed lines.\<close>

definition valid_prefix :: "string list \<Rightarrow> (nat \<times> proof_step) list" where
  "valid_prefix ls =
     map (\<lambda>l. the (decode_model_certificate_step l))
       (takeWhile (\<lambda>l. decode_model_certificate_step l \<noteq> None) ls)"

lemma decode_step_empty [simp]: "decode_model_certificate_step [] = None"
  by (simp add: decode_model_certificate_step_def)

lemma prefix_loop_eq:
  "n \<le> usize_max \<Longrightarrow>
     prefix_loop goals n ls =
       (foldl push_pair goals (valid_prefix ls), min usize_max (n + length (valid_prefix ls)),
        list_all (\<lambda>l. decode_model_certificate_step l \<noteq> None) ls)"
proof (induction goals n ls rule: prefix_loop.induct)
  case (1 goals n)
  then show ?case by (simp add: valid_prefix_def)
next
  case (2 goals n l ls)
  show ?case
  proof (cases "decode_model_certificate_step l")
    case None
    with 2 show ?thesis by (simp add: valid_prefix_def)
  next
    case (Some x)
    then have "l \<noteq> []" by auto
    with 2 Some show ?thesis
      by (cases x) (simp add: valid_prefix_def sat_add_def min_def)
  qed
qed

lemma decode_prefix_eq:
  "decode_model_certificate_prefix payload version problem_hash =
     Inr \<lparr> mcp_certificate = \<lparr> cert_version = version, cert_problem_hash = problem_hash,
             cert_goals = foldl push_pair [] (valid_prefix (split_on CHR '';'' payload)) \<rparr>,
           mcp_parsed_steps = min usize_max (length (valid_prefix (split_on CHR '';'' payload))),
           mcp_syntax_complete =
             list_all (\<lambda>l. decode_model_certificate_step l \<noteq> None) (split_on CHR '';'' payload) \<rparr>"
  by (simp add: decode_model_certificate_prefix_def prefix_loop_eq)

section \<open>Certificates\<close>

definition certificate_encodable :: "proof_certificate \<Rightarrow> bool" where
  "certificate_encodable c \<longleftrightarrow>
     cert_goals c \<noteq> [] \<and> distinct (map gc_goal (cert_goals c))
     \<and> (\<forall>g\<in>set (cert_goals c). gc_steps g \<noteq> [] \<and> (\<forall>s\<in>set (gc_steps g). action_encodable (gc_goal g, s)))"

definition certificate_pairs :: "proof_certificate \<Rightarrow> (nat \<times> proof_step) list" where
  "certificate_pairs c = concat (map (\<lambda>g. map (Pair (gc_goal g)) (gc_steps g)) (cert_goals c))"

lemma encode_certificate_lines:
  "encode_model_certificate c = join_with '';'' (map encode_line (certificate_pairs c))"
  by (simp add: encode_model_certificate_def certificate_pairs_def map_concat comp_def encode_line_def)

lemma valid_prefix_encoded:
  "list_all line_encodable xs \<Longrightarrow> valid_prefix (map encode_line xs) = xs"
  by (induction xs) (simp_all add: valid_prefix_def decode_encode_line)

lemma decode_encoded_certificate:
  assumes "certificate_encodable c"
  shows "decode_model_certificate (encode_model_certificate c) (cert_version c) (cert_problem_hash c) = Inr c"
proof -
  let ?xs = "certificate_pairs c"
  have pairs: "?xs \<noteq> []" "\<forall>x\<in>set ?xs. action_encodable x"
    using assms by (auto simp: certificate_encodable_def certificate_pairs_def neq_Nil_conv)
  then have lines: "split_on CHR '';'' (encode_model_certificate c) = map encode_line ?xs"
    unfolding encode_certificate_lines using encode_line_no_semicolon by (intro split_on_join) auto
  have "list_all line_encodable ?xs" using pairs action_line by (auto simp: list_all_iff)
  then have "valid_prefix (map encode_line ?xs) = ?xs"
    "list_all (\<lambda>l. decode_model_certificate_step l \<noteq> None) (map encode_line ?xs)"
    using valid_prefix_encoded decode_encode_line by (auto simp: list_all_iff)
  moreover have "foldl push_pair [] ?xs = cert_goals c"
    using assms push_all_goals [of "[]" "cert_goals c"]
    by (simp add: certificate_pairs_def certificate_encodable_def)
  ultimately show ?thesis
    by (simp add: decode_model_certificate_def decode_prefix_eq lines)
qed

lemma decode_certificate_Inr:
  "decode_model_certificate payload version problem_hash = Inr c \<Longrightarrow>
     list_all (\<lambda>l. decode_model_certificate_step l \<noteq> None) (split_on CHR '';'' payload)
     \<and> c = \<lparr> cert_version = version, cert_problem_hash = problem_hash,
           cert_goals = foldl push_pair [] (valid_prefix (split_on CHR '';'' payload)) \<rparr>"
  by (auto simp: decode_model_certificate_def decode_prefix_eq split: if_splits)

lemma goal_steps_member:
  "distinct (map gc_goal goals) \<Longrightarrow> g \<in> set goals \<Longrightarrow> goal_steps goals (gc_goal g) = gc_steps g"
  by (induction goals) (auto simp: goal_steps_Cons goal_steps_absent)

lemma valid_prefix_actions:
  assumes "x \<in> set (valid_prefix (split_on CHR '';'' payload))"
  shows "action_encodable x"
proof -
  obtain l where "l \<in> set (split_on CHR '';'' payload)" "decode_model_certificate_step l = Some x"
    using assms by (auto simp: valid_prefix_def dest!: set_takeWhileD)
  then show ?thesis using decoded_action_encodable split_on_notin by blast
qed

lemma push_pairs_encodable:
  assumes "xs \<noteq> []" and "\<And>x. x \<in> set xs \<Longrightarrow> action_encodable x"
  shows "certificate_encodable \<lparr> cert_version = v, cert_problem_hash = h, cert_goals = foldl push_pair [] xs \<rparr>"
proof -
  let ?gs = "foldl push_pair [] xs"
  have g: "distinct (map gc_goal ?gs)" "\<forall>g\<in>set ?gs. gc_steps g \<noteq> []"
    "\<And>k. goal_steps ?gs k = map snd (filter (\<lambda>x. fst x = k) xs)"
    using push_pairs_grouped [of "[]" xs] by (simp_all add: goal_steps_def)
  have "?gs \<noteq> []"
  proof
    assume "?gs = []"
    then have "goal_steps ?gs (fst (hd xs)) = []" by (simp add: goal_steps_def)
    with g(3) assms(1) show False by (cases xs) auto
  qed
  moreover have "action_encodable (gc_goal g, s)" if "g \<in> set ?gs" "s \<in> set (gc_steps g)" for g s
  proof -
    have "s \<in> set (map snd (filter (\<lambda>x. fst x = gc_goal g) xs))"
      using that goal_steps_member [OF g(1) that(1)] g(3) by simp
    then show ?thesis using assms(2) by auto
  qed
  ultimately show ?thesis using g by (simp add: certificate_encodable_def)
qed

lemma decoded_certificate_encodable:
  assumes "decode_model_certificate payload version problem_hash = Inr c"
  shows "certificate_encodable c"
proof -
  have all: "list_all (\<lambda>l. decode_model_certificate_step l \<noteq> None) (split_on CHR '';'' payload)"
    and c: "c = \<lparr> cert_version = version, cert_problem_hash = problem_hash,
           cert_goals = foldl push_pair [] (valid_prefix (split_on CHR '';'' payload)) \<rparr>"
    using decode_certificate_Inr [OF assms] by simp_all
  have "valid_prefix (split_on CHR '';'' payload) \<noteq> []"
    using all split_on_nonempty [of "CHR '';''" payload]
    by (auto simp: valid_prefix_def takeWhile_eq_Nil_iff list_all_iff neq_Nil_conv)
  then show ?thesis unfolding c using valid_prefix_actions by (rule push_pairs_encodable)
qed

end
