(* ===== verification/Ruliad_Wire_Properties.thy ===== *)
theory Ruliad_Wire_Properties
  imports Ruliad_Wire_Proofs Ruliad_Wire_Text Ruliad_Samples
begin

text \<open>
  The properties of the two encodings of \<open>ruliad/wire.rs\<close>: the shared-node tables that are
  serialised as JSON, and the semicolon-separated text a model reads and writes.
\<close>

section \<open>The tables\<close>

text \<open>C9: the wire tables lose nothing: a problem and a certificate come back from their tables unchanged,
  and certificate tables come back from the certificate.\<close>
theorem wire_tables_round_trip:
  "into_problem (from_problem p) = Inr p
   \<and> wire_certificate_into (wire_certificate_from c) = c
   \<and> wire_certificate_from (wire_certificate_into w) = w"
  by (simp add: into_from_problem wire_certificate_into_from wire_certificate_from_into)

text \<open>The tables share every repeated term: there is one node for each distinct subterm of the
  problem, however often it occurs.\<close>
theorem wire_nodes_are_the_distinct_subterms:
  "length (wire_problem_nodes (from_problem p)) = card (problem_term_set p)"
  by (rule from_problem_node_count)

text \<open>Decoding accepts exactly the well-formed tables: symbols in range, arguments that refer to
  earlier nodes only, axioms and goals that refer to nodes of the table.\<close>
theorem wire_decoding_checks_the_tables: "is_ok (into_problem w) \<longleftrightarrow> wire_problem_ok w"
  by (rule into_problem_ok)

section \<open>The model-facing text\<close>

text \<open>One proof action survives its text exactly when its numbers fit a \<open>usize\<close> and its axiom name has
  no separator; no other action is ever decoded.\<close>
theorem action_text_round_trip:
  "(decode_model_proof_step (encode_model_proof_step goal s) = Some (goal, s) \<longleftrightarrow> action_encodable (goal, s))
   \<and> ((\<exists>text. decode_model_proof_step text = Some (goal, s)) \<longleftrightarrow> action_encodable (goal, s))"
proof -
  have "decode_model_proof_step (encode_line (goal, s)) = Some (goal, s) \<longleftrightarrow> action_encodable (goal, s)"
    using action_codec.decode_encode action_codec.decoded_encodable by blast
  then show ?thesis using action_codec.decoded_iff_encodable [of "(goal, s)"] by (simp add: encode_line_def)
qed

text \<open>C30: a certificate survives the model-facing text exactly when it has goals, each once, with at least
  one step each and every action encodable.\<close>
theorem certificate_text_round_trip:
  "decode_model_certificate (encode_model_certificate c) (cert_version c) (cert_problem_hash c) = Inr c
    \<longleftrightarrow> certificate_encodable c"
  using decode_encoded_certificate decoded_certificate_encodable by blast

text \<open>Re-encoding normalises: what any payload decodes to is decoded again from its own encoding.\<close>
theorem decoded_certificate_is_stable:
  assumes "decode_model_certificate payload version problem_hash = Inr c"
  shows "decode_model_certificate (encode_model_certificate c) version problem_hash = Inr c"
proof -
  have "cert_version c = version" "cert_problem_hash c = problem_hash"
    using decode_certificate_Inr [OF assms] by simp_all
  then show ?thesis using decode_encoded_certificate [OF decoded_certificate_encodable [OF assms]] by simp
qed

theorem decoded_certificate_is_stable_witness:
  "decode_model_certificate (encode_model_certificate sample_certificate) 3 ''h'' = Inr sample_certificate"
proof -
  have "certificate_encodable sample_certificate"
    by (simp add: certificate_encodable_def action_encodable_def sample_certificate_def sample_step_def
        sample_lemma_step_def usize_max_def)
  from decode_encoded_certificate [OF this]
  have "decode_model_certificate (encode_model_certificate sample_certificate) 3 ''h'' = Inr sample_certificate"
    by (simp add: sample_certificate_def)
  then show ?thesis by (rule decoded_certificate_is_stable)
qed

text \<open>The incremental decoder takes the longest valid prefix. Of the lines between semicolons it keeps
  those before the first that is no action, groups their steps by goal in the order of first
  occurrence, counts them, and reports complete syntax exactly when every line is an action.\<close>
theorem prefix_decoder_takes_the_valid_prefix:
  "decode_model_certificate_prefix payload version problem_hash =
     Inr \<lparr> mcp_certificate = \<lparr> cert_version = version, cert_problem_hash = problem_hash,
             cert_goals = foldl push_pair [] (valid_prefix (split_on CHR '';'' payload)) \<rparr>,
           mcp_parsed_steps = min usize_max (length (valid_prefix (split_on CHR '';'' payload))),
           mcp_syntax_complete =
             list_all (\<lambda>l. decode_model_certificate_step l \<noteq> None) (split_on CHR '';'' payload) \<rparr>"
  by (rule decode_prefix_eq)

text \<open>A proof without steps has no text. The certificate of a reflexive root goal, which needs no step,
  is accepted by the kernel, but its text is empty and no version and hash make it decode.\<close>
theorem stepless_certificate_has_no_text:
  "\<exists>problem c. replay_accepts sample_hash problem c default_limits
    \<and> (\<forall>version problem_hash. \<not> is_ok (decode_model_certificate (encode_model_certificate c) version problem_hash))"
proof (intro exI conjI allI)
  let ?p = "sample_problem\<lparr>problem_axioms := [], problem_root := 0,
      problem_goals := [\<lparr>goal_id = ''g0'', goal_dependencies = [], goal_claim = \<lparr>eq_lhs = Atom ''a'', eq_rhs = Atom ''a''\<rparr>\<rparr>]\<rparr>"
  let ?c = "sample_certificate\<lparr>cert_goals := [\<lparr>gc_goal = 0, gc_steps = []\<rparr>]\<rparr>"
  have "required_goal_set ?p = {0}" by (simp add: required_goal_set_def goal_dependencies_at_def)
  then have "required_goal_indices ?p = [0]" by (simp add: required_goal_indices_def)
  then have "certificate_proves ?p default_limits ?c"
    by (auto simp: certificate_proves_def intro: proof_steps_Nil)
  moreover have "wf_problem default_limits ?p"
    using sample_well_formed
    by (auto simp: wf_problem_def wf_goal_def sample_problem_def axiom_nodes_def goal_nodes_def default_limits_def sample_identifiers
        usize_max_def)
  ultimately show "replay_accepts sample_hash ?p ?c default_limits"
    by (simp add: replay_accepts_iff sample_hash_def sample_certificate_def ruliad_ir_version_def step_count_def default_limits_def)
  fix version problem_hash
  have "encode_model_certificate ?c = []" by (simp add: encode_certificate_lines certificate_pairs_def)
  then show "\<not> is_ok (decode_model_certificate (encode_model_certificate ?c) version problem_hash)"
    by (simp add: decode_model_certificate_def decode_prefix_eq is_ok_def)
qed

end
