(* ===== verification/Ruliad_Config.thy ===== *)
theory Ruliad_Config
  imports Complex_Main Ruliad_Prelude
begin

text \<open>
  The corpus configuration of \<open>ruliad/config.rs\<close>: the enumerations of families and tasks
  with their labels and semantics, the configuration records, and \<open>RuliadCorpusConfig::validate\<close>
  split at its sections, with the message of every refusal. A binary float is the rational it
  stands for, one of the infinities or no number; validation only tests finiteness and compares.
  Defaults that are float literals are not modelled, nor is the parsing of TOML.
\<close>

section \<open>Families, tasks and their semantics\<close>

datatype ruliad_family_kind =
  FamilyEca | FamilySimulation | FamilyAutomaton | FamilyRewrite
| FamilyAlgebra | FamilyCategory | FamilyProofTree | FamilyFormalProof
| FamilyLeanTask | FamilyHashNoise

definition family_kind_all :: "ruliad_family_kind list" where
  "family_kind_all =
     [FamilyEca, FamilySimulation, FamilyAutomaton, FamilyRewrite, FamilyAlgebra,
      FamilyCategory, FamilyProofTree, FamilyFormalProof, FamilyLeanTask, FamilyHashNoise]"

fun family_label :: "ruliad_family_kind \<Rightarrow> string" where
  "family_label FamilyEca = ''eca''"
| "family_label FamilySimulation = ''simulation''"
| "family_label FamilyAutomaton = ''automaton''"
| "family_label FamilyRewrite = ''rewrite''"
| "family_label FamilyAlgebra = ''algebra''"
| "family_label FamilyCategory = ''category''"
| "family_label FamilyProofTree = ''proof_tree''"
| "family_label FamilyFormalProof = ''formal_proof''"
| "family_label FamilyLeanTask = ''lean_task''"
| "family_label FamilyHashNoise = ''hash_noise''"

definition family_from_label :: "string \<Rightarrow> ruliad_family_kind option" where
  "family_from_label label =
     (if label = ''eca'' then Some FamilyEca
      else if label = ''simulation'' then Some FamilySimulation
      else if label = ''automaton'' then Some FamilyAutomaton
      else if label = ''rewrite'' then Some FamilyRewrite
      else if label = ''algebra'' then Some FamilyAlgebra
      else if label = ''category'' then Some FamilyCategory
      else if label = ''proof_tree'' then Some FamilyProofTree
      else if label = ''formal_proof'' then Some FamilyFormalProof
      else if label = ''lean_task'' then Some FamilyLeanTask
      else if label = ''hash_noise'' then Some FamilyHashNoise
      else None)"

datatype ruliad_task_kind =
  NextState | MultiStepState | VerifySimulation | EvaluateAutomaton
| RewriteNormalForm | CheckAlgebraLaw | ComposeCategoryPath | VerifyCategoryLaw
| VerifyFunctorPreservation | VerifyNaturalitySquare | ProveTheorem | ConstructProof
| AdvanceProof | SelectProofAction | CheckProof | CompleteProof
| HashCanary

definition task_kind_all :: "ruliad_task_kind list" where
  "task_kind_all =
     [NextState, MultiStepState, VerifySimulation, EvaluateAutomaton,
      RewriteNormalForm, CheckAlgebraLaw, ComposeCategoryPath, VerifyCategoryLaw,
      VerifyFunctorPreservation, VerifyNaturalitySquare, ProveTheorem, ConstructProof,
      AdvanceProof, SelectProofAction, CheckProof, CompleteProof,
      HashCanary]"

fun task_label :: "ruliad_task_kind \<Rightarrow> string" where
  "task_label NextState = ''next_state''"
| "task_label MultiStepState = ''multi_step_state''"
| "task_label VerifySimulation = ''verify_simulation''"
| "task_label EvaluateAutomaton = ''evaluate_automaton''"
| "task_label RewriteNormalForm = ''rewrite_normal_form''"
| "task_label CheckAlgebraLaw = ''check_algebra_law''"
| "task_label ComposeCategoryPath = ''compose_category_path''"
| "task_label VerifyCategoryLaw = ''verify_category_law''"
| "task_label VerifyFunctorPreservation = ''verify_functor_preservation''"
| "task_label VerifyNaturalitySquare = ''verify_naturality_square''"
| "task_label ProveTheorem = ''prove_theorem''"
| "task_label ConstructProof = ''construct_proof''"
| "task_label AdvanceProof = ''advance_proof''"
| "task_label SelectProofAction = ''select_proof_action''"
| "task_label CheckProof = ''check_proof''"
| "task_label CompleteProof = ''complete_proof''"
| "task_label HashCanary = ''hash_canary''"

definition task_from_label :: "string \<Rightarrow> ruliad_task_kind option" where
  "task_from_label label =
     (if label = ''next_state'' then Some NextState
      else if label = ''multi_step_state'' then Some MultiStepState
      else if label = ''verify_simulation'' then Some VerifySimulation
      else if label = ''evaluate_automaton'' then Some EvaluateAutomaton
      else if label = ''rewrite_normal_form'' then Some RewriteNormalForm
      else if label = ''check_algebra_law'' then Some CheckAlgebraLaw
      else if label = ''compose_category_path'' then Some ComposeCategoryPath
      else if label = ''verify_category_law'' then Some VerifyCategoryLaw
      else if label = ''verify_functor_preservation'' then Some VerifyFunctorPreservation
      else if label = ''verify_naturality_square'' then Some VerifyNaturalitySquare
      else if label = ''prove_theorem'' then Some ProveTheorem
      else if label = ''construct_proof'' then Some ConstructProof
      else if label = ''advance_proof'' then Some AdvanceProof
      else if label = ''select_proof_action'' then Some SelectProofAction
      else if label = ''check_proof'' then Some CheckProof
      else if label = ''complete_proof'' then Some CompleteProof
      else if label = ''hash_canary'' then Some HashCanary
      else None)"

datatype ruliad_math_domain =
  DomainDiscreteDynamics | DomainComputationTheory | DomainSymbolicRewriting
| DomainUniversalAlgebra | DomainCategoryTheory | DomainFormalProof
| DomainLogic | DomainProcessCalculus | DomainMetagraphRewriting
| DomainInformationTheory

fun math_domain_label :: "ruliad_math_domain \<Rightarrow> string" where
  "math_domain_label DomainDiscreteDynamics = ''discrete_dynamics''"
| "math_domain_label DomainComputationTheory = ''computation_theory''"
| "math_domain_label DomainSymbolicRewriting = ''symbolic_rewriting''"
| "math_domain_label DomainUniversalAlgebra = ''universal_algebra''"
| "math_domain_label DomainCategoryTheory = ''category_theory''"
| "math_domain_label DomainFormalProof = ''formal_proof''"
| "math_domain_label DomainLogic = ''logic''"
| "math_domain_label DomainProcessCalculus = ''process_calculus''"
| "math_domain_label DomainMetagraphRewriting = ''metagraph_rewriting''"
| "math_domain_label DomainInformationTheory = ''information_theory''"

datatype ruliad_reasoning_mode =
  ModeLocalRuleEvaluation | ModeIteratedDynamics | ModeStateMachineExecution
| ModeSimulationEquivalence | ModeStructurePreservation | ModeNormalization
| ModeEquationalReasoning | ModeCounterexampleEvaluation | ModeCompositionalReasoning
| ModeAssociativity | ModeFormalDeduction | ModeProofConstruction
| ModeProofChecking | ModePatternMatching | ModeSubstitution
| ModeDependencyClosure | ModeEntropyCanary

fun reasoning_mode_label :: "ruliad_reasoning_mode \<Rightarrow> string" where
  "reasoning_mode_label ModeLocalRuleEvaluation = ''local_rule_evaluation''"
| "reasoning_mode_label ModeIteratedDynamics = ''iterated_dynamics''"
| "reasoning_mode_label ModeStateMachineExecution = ''state_machine_execution''"
| "reasoning_mode_label ModeSimulationEquivalence = ''simulation_equivalence''"
| "reasoning_mode_label ModeStructurePreservation = ''structure_preservation''"
| "reasoning_mode_label ModeNormalization = ''normalization''"
| "reasoning_mode_label ModeEquationalReasoning = ''equational_reasoning''"
| "reasoning_mode_label ModeCounterexampleEvaluation = ''counterexample_evaluation''"
| "reasoning_mode_label ModeCompositionalReasoning = ''compositional_reasoning''"
| "reasoning_mode_label ModeAssociativity = ''associativity''"
| "reasoning_mode_label ModeFormalDeduction = ''formal_deduction''"
| "reasoning_mode_label ModeProofConstruction = ''proof_construction''"
| "reasoning_mode_label ModeProofChecking = ''proof_checking''"
| "reasoning_mode_label ModePatternMatching = ''pattern_matching''"
| "reasoning_mode_label ModeSubstitution = ''substitution''"
| "reasoning_mode_label ModeDependencyClosure = ''dependency_closure''"
| "reasoning_mode_label ModeEntropyCanary = ''entropy_canary''"

record source_semantics =
  sem_math_domains :: "ruliad_math_domain list"
  sem_reasoning_modes :: "ruliad_reasoning_mode list"
  sem_description :: string

definition required_math_domains :: "ruliad_math_domain list" where
  "required_math_domains =
     [DomainDiscreteDynamics, DomainComputationTheory, DomainSymbolicRewriting,
      DomainUniversalAlgebra, DomainCategoryTheory, DomainFormalProof, DomainInformationTheory]"

definition required_reasoning_modes :: "ruliad_reasoning_mode list" where
  "required_reasoning_modes =
     [ModeLocalRuleEvaluation, ModeIteratedDynamics, ModeStateMachineExecution,
      ModeSimulationEquivalence, ModeStructurePreservation, ModeNormalization,
      ModeEquationalReasoning, ModeCounterexampleEvaluation, ModeCompositionalReasoning,
      ModeAssociativity, ModeFormalDeduction, ModeEntropyCanary]"

fun family_default_domains :: "ruliad_family_kind \<Rightarrow> ruliad_math_domain list" where
  "family_default_domains FamilyEca = [DomainDiscreteDynamics]"
| "family_default_domains FamilySimulation = [DomainDiscreteDynamics]"
| "family_default_domains FamilyAutomaton = [DomainComputationTheory]"
| "family_default_domains FamilyRewrite = [DomainSymbolicRewriting]"
| "family_default_domains FamilyAlgebra = [DomainUniversalAlgebra]"
| "family_default_domains FamilyCategory = [DomainCategoryTheory]"
| "family_default_domains FamilyProofTree = [DomainFormalProof]"
| "family_default_domains FamilyFormalProof = [DomainFormalProof, DomainMetagraphRewriting]"
| "family_default_domains FamilyLeanTask = [DomainFormalProof]"
| "family_default_domains FamilyHashNoise = [DomainInformationTheory]"

fun task_default_reasoning_modes :: "ruliad_task_kind \<Rightarrow> ruliad_reasoning_mode list" where
  "task_default_reasoning_modes NextState = [ModeLocalRuleEvaluation]"
| "task_default_reasoning_modes MultiStepState = [ModeIteratedDynamics]"
| "task_default_reasoning_modes VerifySimulation = [ModeSimulationEquivalence]"
| "task_default_reasoning_modes EvaluateAutomaton = [ModeStateMachineExecution]"
| "task_default_reasoning_modes RewriteNormalForm = [ModeNormalization]"
| "task_default_reasoning_modes CheckAlgebraLaw = [ModeEquationalReasoning]"
| "task_default_reasoning_modes ComposeCategoryPath = [ModeCompositionalReasoning]"
| "task_default_reasoning_modes VerifyCategoryLaw = [ModeAssociativity]"
| "task_default_reasoning_modes VerifyFunctorPreservation = [ModeStructurePreservation]"
| "task_default_reasoning_modes VerifyNaturalitySquare = [ModeStructurePreservation]"
| "task_default_reasoning_modes ProveTheorem = [ModeFormalDeduction]"
| "task_default_reasoning_modes ConstructProof = [ModeProofConstruction]"
| "task_default_reasoning_modes AdvanceProof = [ModeProofConstruction, ModeLocalRuleEvaluation]"
| "task_default_reasoning_modes SelectProofAction = [ModeProofConstruction, ModeCompositionalReasoning]"
| "task_default_reasoning_modes CheckProof = [ModeProofChecking]"
| "task_default_reasoning_modes CompleteProof = [ModeFormalDeduction]"
| "task_default_reasoning_modes HashCanary = [ModeEntropyCanary]"

definition fallback_semantics :: "ruliad_family_kind \<Rightarrow> ruliad_task_kind \<Rightarrow> source_semantics" where
  "fallback_semantics family task =
     \<lparr> sem_math_domains = family_default_domains family,
       sem_reasoning_modes = task_default_reasoning_modes task,
       sem_description = ''fallback semantics for a ruliad source'' \<rparr>"

definition ruliad_source_semantics :: "ruliad_family_kind \<Rightarrow> ruliad_task_kind \<Rightarrow> source_semantics" where
  "ruliad_source_semantics family task =
     (case family of
        FamilyEca \<Rightarrow>
         (case task of
            NextState \<Rightarrow>
               \<lparr> sem_math_domains = [DomainDiscreteDynamics, DomainComputationTheory],
                 sem_reasoning_modes = [ModeLocalRuleEvaluation],
                 sem_description = ''one-step evaluation of a finite local rule'' \<rparr>
          | MultiStepState \<Rightarrow>
               \<lparr> sem_math_domains = [DomainDiscreteDynamics, DomainComputationTheory],
                 sem_reasoning_modes = [ModeLocalRuleEvaluation, ModeIteratedDynamics],
                 sem_description = ''bounded rollout of a finite dynamical system'' \<rparr>
          | _ \<Rightarrow> fallback_semantics family task)
      | FamilySimulation \<Rightarrow>
         (case task of
            VerifySimulation \<Rightarrow>
               \<lparr> sem_math_domains = [DomainDiscreteDynamics, DomainComputationTheory,
                                      DomainCategoryTheory],
                 sem_reasoning_modes = [ModeSimulationEquivalence, ModeStructurePreservation,
                                         ModeCompositionalReasoning],
                 sem_description = ''verification that a map commutes with bounded dynamics'' \<rparr>
          | _ \<Rightarrow> fallback_semantics family task)
      | FamilyAutomaton \<Rightarrow>
         (case task of
            EvaluateAutomaton \<Rightarrow>
               \<lparr> sem_math_domains = [DomainComputationTheory],
                 sem_reasoning_modes = [ModeStateMachineExecution, ModeCounterexampleEvaluation],
                 sem_description = ''finite automaton execution and acceptance evaluation'' \<rparr>
          | _ \<Rightarrow> fallback_semantics family task)
      | FamilyRewrite \<Rightarrow>
         (case task of
            RewriteNormalForm \<Rightarrow>
               \<lparr> sem_math_domains = [DomainSymbolicRewriting, DomainComputationTheory],
                 sem_reasoning_modes = [ModeNormalization, ModeIteratedDynamics],
                 sem_description = ''terminating symbolic rewrite search toward a normal form'' \<rparr>
          | _ \<Rightarrow> fallback_semantics family task)
      | FamilyAlgebra \<Rightarrow>
         (case task of
            CheckAlgebraLaw \<Rightarrow>
               \<lparr> sem_math_domains = [DomainUniversalAlgebra],
                 sem_reasoning_modes = [ModeEquationalReasoning, ModeAssociativity,
                                         ModeCounterexampleEvaluation],
                 sem_description = ''finite operation-table evaluation of algebraic laws'' \<rparr>
          | _ \<Rightarrow> fallback_semantics family task)
      | FamilyCategory \<Rightarrow>
         (case task of
            ComposeCategoryPath \<Rightarrow>
               \<lparr> sem_math_domains = [DomainCategoryTheory],
                 sem_reasoning_modes = [ModeCompositionalReasoning, ModeAssociativity,
                                         ModeStructurePreservation],
                 sem_description = ''path composition in a finite category'' \<rparr>
          | VerifyCategoryLaw \<Rightarrow>
               \<lparr> sem_math_domains = [DomainCategoryTheory],
                 sem_reasoning_modes = [ModeAssociativity, ModeEquationalReasoning,
                                         ModeStructurePreservation],
                 sem_description = ''identity or associativity law verification in a finite category'' \<rparr>
          | VerifyFunctorPreservation \<Rightarrow>
               \<lparr> sem_math_domains = [DomainCategoryTheory],
                 sem_reasoning_modes = [ModeStructurePreservation, ModeCompositionalReasoning,
                                         ModeEquationalReasoning],
                 sem_description = ''verification that a finite functor preserves composition'' \<rparr>
          | VerifyNaturalitySquare \<Rightarrow>
               \<lparr> sem_math_domains = [DomainCategoryTheory],
                 sem_reasoning_modes = [ModeStructurePreservation, ModeCompositionalReasoning,
                                         ModeFormalDeduction],
                 sem_description = ''verification that a finite naturality square commutes'' \<rparr>
          | _ \<Rightarrow> fallback_semantics family task)
      | FamilyProofTree \<Rightarrow>
         (case task of
            ProveTheorem \<Rightarrow>
               \<lparr> sem_math_domains = [DomainUniversalAlgebra, DomainCategoryTheory,
                                      DomainFormalProof],
                 sem_reasoning_modes = [ModeEquationalReasoning, ModeCompositionalReasoning,
                                         ModeFormalDeduction, ModeStructurePreservation],
                 sem_description = ''verified synthetic theorem DAG over unnamed algebraic structure'' \<rparr>
          | _ \<Rightarrow> fallback_semantics family task)
      | FamilyFormalProof \<Rightarrow>
         (case task of
            ConstructProof \<Rightarrow>
               \<lparr> sem_math_domains = [DomainSymbolicRewriting, DomainComputationTheory,
                                      DomainUniversalAlgebra, DomainCategoryTheory,
                                      DomainFormalProof, DomainLogic, DomainProcessCalculus,
                                      DomainMetagraphRewriting],
                 sem_reasoning_modes = [ModeProofConstruction, ModePatternMatching,
                                         ModeSubstitution, ModeDependencyClosure,
                                         ModeCompositionalReasoning],
                 sem_description = ''construct a replayable proof certificate over the shared Ruliad IR'' \<rparr>
          | AdvanceProof \<Rightarrow>
               \<lparr> sem_math_domains = [DomainSymbolicRewriting, DomainComputationTheory,
                                      DomainUniversalAlgebra, DomainCategoryTheory,
                                      DomainFormalProof, DomainLogic, DomainProcessCalculus,
                                      DomainMetagraphRewriting],
                 sem_reasoning_modes = [ModeProofConstruction, ModeLocalRuleEvaluation,
                                         ModePatternMatching, ModeSubstitution,
                                         ModeDependencyClosure],
                 sem_description = ''advance one verifier-backed edge of the shared formal proof DAG'' \<rparr>
          | SelectProofAction \<Rightarrow>
               \<lparr> sem_math_domains = [DomainSymbolicRewriting, DomainComputationTheory,
                                      DomainUniversalAlgebra, DomainCategoryTheory,
                                      DomainFormalProof, DomainLogic, DomainProcessCalculus,
                                      DomainMetagraphRewriting],
                 sem_reasoning_modes = [ModeProofConstruction, ModeLocalRuleEvaluation,
                                         ModePatternMatching, ModeSubstitution,
                                         ModeCompositionalReasoning],
                 sem_description = ''select a verifier-backed action from a formal proof state'' \<rparr>
          | CheckProof \<Rightarrow>
               \<lparr> sem_math_domains = [DomainSymbolicRewriting, DomainComputationTheory,
                                      DomainUniversalAlgebra, DomainCategoryTheory,
                                      DomainFormalProof, DomainLogic, DomainProcessCalculus,
                                      DomainMetagraphRewriting],
                 sem_reasoning_modes = [ModeProofChecking, ModePatternMatching,
                                         ModeDependencyClosure, ModeCounterexampleEvaluation],
                 sem_description = ''replay or reject a proposed proof certificate with a localized failure'' \<rparr>
          | _ \<Rightarrow> fallback_semantics family task)
      | FamilyLeanTask \<Rightarrow>
         (case task of
            CompleteProof \<Rightarrow>
               \<lparr> sem_math_domains = [DomainFormalProof, DomainCategoryTheory],
                 sem_reasoning_modes = [ModeFormalDeduction, ModeStructurePreservation,
                                         ModeCompositionalReasoning],
                 sem_description = ''proof-task payload anchored by the Lean seed project'' \<rparr>
          | _ \<Rightarrow> fallback_semantics family task)
      | FamilyHashNoise \<Rightarrow>
         (case task of
            HashCanary \<Rightarrow>
               \<lparr> sem_math_domains = [DomainInformationTheory],
                 sem_reasoning_modes = [ModeEntropyCanary, ModeCounterexampleEvaluation],
                 sem_description = ''high-entropy canary for source-selection and memorization checks'' \<rparr>
          | _ \<Rightarrow> fallback_semantics family task))"

section \<open>The configuration\<close>

record usize_range =
  range_min :: nat
  range_max :: nat

definition range_validate :: "usize_range \<Rightarrow> string \<Rightarrow> string + unit" where
  "range_validate r label =
     (if range_max r < range_min r then Inl (label @ ''.min must be <= '' @ label @ ''.max'') else Inr ())"

record ruliad_family_config =
  family_kind :: ruliad_family_kind
  family_weight :: nat
  family_width :: "usize_range option"
  family_steps :: "usize_range option"

datatype lean_mode = LeanOff | LeanOptional | LeanRequired

definition lean_mode_from_str :: "string \<Rightarrow> string + lean_mode" where
  "lean_mode_from_str s =
     (if s = ''off'' then Inr LeanOff
      else if s = ''optional'' then Inr LeanOptional
      else if s = ''required'' then Inr LeanRequired
      else Inl (''invalid lean mode `'' @ s @ ''`; expected off, optional, or required''))"

datatype formal_generalization = SeedDisjointV1 | StructuralHoldoutV1

fun formal_generalization_label :: "formal_generalization \<Rightarrow> string" where
  "formal_generalization_label SeedDisjointV1 = ''seed_disjoint_v1''"
| "formal_generalization_label StructuralHoldoutV1 = ''structural_holdout_v1''"

datatype document_mode = SingleSample | MultiChunkProofTree

fun document_mode_label :: "document_mode \<Rightarrow> string" where
  "document_mode_label SingleSample = ''single_sample''"
| "document_mode_label MultiChunkProofTree = ''multi_chunk_proof_tree''"

datatype action_answer_contract = PresentationIndex | SemanticStep

fun action_answer_contract_label :: "action_answer_contract \<Rightarrow> string" where
  "action_answer_contract_label PresentationIndex = ''presentation_index''"
| "action_answer_contract_label SemanticStep = ''semantic_step''"

datatype float_value = Finite rat | PosInfinity | NegInfinity | NaN

definition in_unit_interval :: "float_value \<Rightarrow> bool" where
  "in_unit_interval x = (case x of Finite r \<Rightarrow> 0 \<le> r \<and> r \<le> 1 | _ \<Rightarrow> False)"

definition finite_non_negative :: "float_value \<Rightarrow> bool" where
  "finite_non_negative x = (case x of Finite r \<Rightarrow> 0 \<le> r | _ \<Rightarrow> False)"

record serialization_config =
  ser_document_tokens :: nat
  ser_preview_samples :: nat
  ser_document_mode :: document_mode
  ser_document_chunks :: usize_range

definition default_serialization_config :: serialization_config where
  "default_serialization_config =
     \<lparr> ser_document_tokens = 513, ser_preview_samples = 4, ser_document_mode = SingleSample,
       ser_document_chunks = \<lparr> range_min = 1, range_max = 1 \<rparr> \<rparr>"

datatype tokenization_config =
  Gpt2ByteCompatible nat "u32 option"
| Symbolic nat "u32 option"
| StructuredSymbolic nat "u32 option"

definition default_tokenization_config :: tokenization_config where
  "default_tokenization_config = Gpt2ByteCompatible 50257 (Some 50256)"

record frontier_extension_config =
  fe_enabled :: bool
  fe_levels_per_extension :: nat
  fe_normalized_difficulty :: float_value
  fe_max_difficulty_probability :: float_value
  fe_max_materialized_levels :: nat

record formal_task_mix_config =
  mix_advance_proof_weight :: nat
  mix_select_proof_action_weight :: nat
  mix_construct_proof_weight :: nat
  mix_check_proof_weight :: nat
  mix_answer_contract :: action_answer_contract

definition default_formal_task_mix :: formal_task_mix_config where
  "default_formal_task_mix =
     \<lparr> mix_advance_proof_weight = 0, mix_select_proof_action_weight = 0, mix_construct_proof_weight = 1,
       mix_check_proof_weight = 1, mix_answer_contract = PresentationIndex \<rparr>"

record cold_start_config =
  cs_enabled :: bool
  cs_max_difficulty_level :: nat
  cs_hold_steps :: nat
  cs_ramp_steps :: nat
  cs_release_requires_mastery :: bool
  cs_min_feedback_count :: nat
  cs_verifier_min :: float_value
  cs_completion_health_min :: float_value
  cs_schema_wrong_max :: float_value
  cs_malformed_max :: float_value
  cs_missing_max :: float_value

record mastery_thresholds =
  mt_minimum_items :: nat
  mt_confidence_z :: float_value
  mt_verifier_min :: float_value
  mt_completion_health_min :: float_value
  mt_schema_wrong_max :: float_value
  mt_malformed_max :: float_value
  mt_missing_max :: float_value

record source_selection_config =
  ss_enabled :: bool
  ss_feedback_updates_enabled :: bool
  ss_frontier_min_coverage :: float_value
  ss_capability_mastery :: mastery_thresholds
  ss_difficulty_levels :: usize_range
  ss_frontier_extension :: frontier_extension_config
  ss_cold_start :: cold_start_config
  ss_formal_task_mix :: formal_task_mix_config

record corpus_config =
  cc_output_dir :: string
  cc_seed :: u64
  cc_name :: string
  cc_train_samples :: nat
  cc_validation_samples :: nat
  cc_chunk_token_capacity :: nat
  cc_serialization :: serialization_config
  cc_tokenization :: tokenization_config
  cc_formal_generalization :: formal_generalization
  cc_source_selection :: source_selection_config
  cc_families :: "ruliad_family_config list"
  cc_proof_tasks :: "string option"
  cc_lean_task_limit :: "nat option"

section \<open>Validation\<close>

definition require :: "bool \<Rightarrow> string \<Rightarrow> string + unit" where
  "require ok message = (if ok then Inr () else Inl message)"

text \<open>The checks of a section, in order; the first that refuses decides.\<close>

fun first_error :: "(string + unit) list \<Rightarrow> string + unit" where
  "first_error [] = Inr ()"
| "first_error (check # checks) = (case check of Inl e \<Rightarrow> Inl e | Inr _ \<Rightarrow> first_error checks)"

definition validate_basics :: "corpus_config \<Rightarrow> string + unit" where
  "validate_basics c = first_error
     [require (str_trim (cc_name c) \<noteq> []) ''name must not be empty'',
      require (cc_train_samples c \<noteq> 0) ''train_samples must be > 0'',
      require (cc_chunk_token_capacity c \<noteq> 0) ''chunk_token_capacity must be > 0'',
      require (1 < ser_document_tokens (cc_serialization c)) ''serialization.document_tokens must be > 1'',
      require (ser_preview_samples (cc_serialization c) \<noteq> 0) ''serialization.preview_samples must be > 0'',
      range_validate (ser_document_chunks (cc_serialization c)) ''serialization.document_chunks'',
      require (range_min (ser_document_chunks (cc_serialization c)) \<noteq> 0)
        ''serialization.document_chunks bounds must be > 0'',
      range_validate (ss_difficulty_levels (cc_source_selection c)) ''source_selection.difficulty_levels'']"

definition validate_sampler :: "source_selection_config \<Rightarrow> string + unit" where
  "validate_sampler s =
     (let m = ss_capability_mastery s;
          unit_field = (\<lambda>name x. require (in_unit_interval x)
            (''source_selection.sampler.capability_mastery.'' @ name @ '' must be finite in [0, 1]''))
      in first_error
       [require (in_unit_interval (ss_frontier_min_coverage s))
          ''source_selection.sampler.capability_frontier_min_coverage must be finite in [0, 1]'',
        require (mt_minimum_items m \<noteq> 0)
          ''source_selection.sampler.capability_mastery.minimum_items must be > 0'',
        require (finite_non_negative (mt_confidence_z m))
          ''source_selection.sampler.capability_mastery.confidence_z must be finite and >= 0'',
        unit_field ''verifier_min'' (mt_verifier_min m),
        unit_field ''completion_health_min'' (mt_completion_health_min m),
        unit_field ''schema_wrong_max'' (mt_schema_wrong_max m),
        unit_field ''malformed_max'' (mt_malformed_max m),
        unit_field ''missing_max'' (mt_missing_max m)])"

definition formal_task_weight :: "formal_task_mix_config \<Rightarrow> nat" where
  "formal_task_weight m =
     sat_add (sat_add (sat_add (mix_advance_proof_weight m) (mix_select_proof_action_weight m))
       (mix_construct_proof_weight m)) (mix_check_proof_weight m)"

definition validate_task_mix :: "formal_task_mix_config \<Rightarrow> string + unit" where
  "validate_task_mix m =
     require (formal_task_weight m \<noteq> 0)
       ''source_selection.formal_task_mix requires at least one non-zero task weight''"

definition validate_cold_start :: "source_selection_config \<Rightarrow> string + unit" where
  "validate_cold_start s =
     (let c = ss_cold_start s;
          unit_field = (\<lambda>name x. require (in_unit_interval x)
            (''source_selection.cold_start.'' @ name @ '' must be finite in [0, 1]''))
      in if \<not> cs_enabled c then Inr ()
      else first_error
       [require (range_min (ss_difficulty_levels s) \<le> cs_max_difficulty_level c)
          (''source_selection.cold_start.max_difficulty_level must be >= ''
             @ ''source_selection.difficulty_levels.min''),
        require (cs_ramp_steps c \<noteq> 0)
          ''source_selection.cold_start.ramp_steps must be > 0 when cold_start is enabled'',
        require (cs_min_feedback_count c \<noteq> 0)
          ''source_selection.cold_start.mastery_min_feedback_count must be > 0 when cold_start is enabled'',
        unit_field ''mastery_verifier_min'' (cs_verifier_min c),
        unit_field ''mastery_completion_health_min'' (cs_completion_health_min c),
        unit_field ''mastery_schema_wrong_max'' (cs_schema_wrong_max c),
        unit_field ''mastery_malformed_max'' (cs_malformed_max c),
        unit_field ''mastery_missing_max'' (cs_missing_max c)])"

definition validate_frontier :: "frontier_extension_config \<Rightarrow> string + unit" where
  "validate_frontier f =
     (if \<not> fe_enabled f then Inr ()
      else first_error
       [require (fe_levels_per_extension f \<noteq> 0)
          ''source_selection.frontier_extension.levels_per_extension must be > 0'',
        require (in_unit_interval (fe_normalized_difficulty f))
          (''source_selection.frontier_extension.extend_when_normalized_difficulty_at_least''
             @ '' must be in [0, 1]''),
        require (in_unit_interval (fe_max_difficulty_probability f))
          (''source_selection.frontier_extension.extend_when_max_difficulty_probability_at_least''
             @ '' must be in [0, 1]'')])"

definition validate_positive_range :: "string \<Rightarrow> usize_range option \<Rightarrow> string + unit" where
  "validate_positive_range label limits =
     (case limits of
        None \<Rightarrow> Inr ()
      | Some r \<Rightarrow> first_error
          [range_validate r label, require (range_min r \<noteq> 0) (label @ '' bounds must be > 0'')])"

fun validate_families :: "nat \<Rightarrow> ruliad_family_config list \<Rightarrow> string + unit" where
  "validate_families index [] = Inr ()"
| "validate_families index (family # families) =
     (let label = ''families['' @ show_nat index @ '']'' in
      result_bind (first_error
        [require (family_weight family \<noteq> 0) (label @ ''.weight must be > 0''),
         validate_positive_range (label @ ''.width'') (family_width family),
         validate_positive_range (label @ ''.steps'') (family_steps family)])
        (\<lambda>_. validate_families (Suc index) families))"

definition eos_in_vocab :: "nat \<Rightarrow> u32 option \<Rightarrow> bool" where
  "eos_in_vocab vocab_size eos_id = (case eos_id of None \<Rightarrow> True | Some e \<Rightarrow> unat e < vocab_size)"

fun validate_tokenization :: "tokenization_config \<Rightarrow> string + unit" where
  "validate_tokenization (Gpt2ByteCompatible vocab_size eos_id) = first_error
     [require (257 \<le> vocab_size) ''tokenization.vocab_size must be >= 257 for gpt2_byte_compatible'',
      require (eos_in_vocab vocab_size eos_id) ''tokenization.eos_id must be < tokenization.vocab_size'']"
| "validate_tokenization (Symbolic vocab_size eos_id) = first_error
     [require (512 \<le> vocab_size) ''tokenization.vocab_size must be >= 512 for symbolic'',
      require (eos_in_vocab vocab_size eos_id) ''tokenization.eos_id must be < tokenization.vocab_size'']"
| "validate_tokenization (StructuredSymbolic vocab_size eos_id) = first_error
     [require (272 \<le> vocab_size) ''tokenization.vocab_size must be >= 272 for structured_symbolic'',
      require (eos_in_vocab vocab_size eos_id) ''tokenization.eos_id must be < tokenization.vocab_size'',
      require (case eos_id of None \<Rightarrow> True | Some e \<Rightarrow> 271 \<le> e)
        (''tokenization.eos_id must not collide with structured_symbolic byte, structural, ''
           @ ''or class tokens'')]"

definition validate_corpus :: "corpus_config \<Rightarrow> string + unit" where
  "validate_corpus c = first_error
     [validate_basics c,
      validate_sampler (cc_source_selection c),
      validate_task_mix (ss_formal_task_mix (cc_source_selection c)),
      validate_cold_start (cc_source_selection c),
      validate_frontier (ss_frontier_extension (cc_source_selection c)),
      require (cc_families c \<noteq> []) ''families must not be empty'',
      validate_families 0 (cc_families c),
      validate_tokenization (cc_tokenization c)]"

section \<open>The built-in families\<close>

definition usize_range_of :: "nat \<Rightarrow> nat \<Rightarrow> usize_range option" where
  "usize_range_of lo hi = Some \<lparr> range_min = lo, range_max = hi \<rparr>"

definition family_of :: "ruliad_family_kind \<Rightarrow> nat \<Rightarrow> usize_range option \<Rightarrow> usize_range option \<Rightarrow> ruliad_family_config" where
  "family_of kind weight width steps =
     \<lparr> family_kind = kind, family_weight = weight, family_width = width, family_steps = steps \<rparr>"

definition default_ruliad_families :: "ruliad_family_config list" where
  "default_ruliad_families =
     [family_of FamilyEca 4 (usize_range_of 16 32) (usize_range_of 4 10),
      family_of FamilySimulation 2 (usize_range_of 16 32) (usize_range_of 4 8),
      family_of FamilyAutomaton 2 (usize_range_of 3 8) (usize_range_of 6 20),
      family_of FamilyRewrite 2 (usize_range_of 8 20) (usize_range_of 4 12),
      family_of FamilyAlgebra 2 (usize_range_of 2 6) None,
      family_of FamilyCategory 1 (usize_range_of 3 7) (usize_range_of 3 6),
      family_of FamilyProofTree 2 (usize_range_of 5 13) (usize_range_of 4 9),
      family_of FamilyLeanTask 1 None None,
      family_of FamilyHashNoise 1 None None]"

definition compact_family :: "ruliad_family_config \<Rightarrow> ruliad_family_config" where
  "compact_family f =
     (let resize = (\<lambda>width steps. f\<lparr> family_width := width, family_steps := steps \<rparr>)
      in case family_kind f of
           FamilyEca \<Rightarrow> resize (usize_range_of 12 16) (usize_range_of 4 6)
         | FamilySimulation \<Rightarrow> resize (usize_range_of 12 16) (usize_range_of 4 6)
         | FamilyAutomaton \<Rightarrow> resize (usize_range_of 3 6) (usize_range_of 4 8)
         | FamilyRewrite \<Rightarrow> resize (usize_range_of 8 12) (usize_range_of 4 8)
         | FamilyAlgebra \<Rightarrow> resize (usize_range_of 2 5) None
         | FamilyCategory \<Rightarrow> resize (usize_range_of 3 5) (usize_range_of 3 5)
         | FamilyProofTree \<Rightarrow> resize (usize_range_of 5 8) (usize_range_of 4 6)
         | FamilyFormalProof \<Rightarrow> resize (usize_range_of 2 3) (usize_range_of 2 3)
         | FamilyLeanTask \<Rightarrow> resize None None
         | FamilyHashNoise \<Rightarrow> resize None None)"

definition compact_ruliad_families :: "ruliad_family_config list" where
  "compact_ruliad_families = map compact_family default_ruliad_families"

definition formal_ruliad_families :: "ruliad_family_config list" where
  "formal_ruliad_families = [family_of FamilyFormalProof 1 (usize_range_of 2 4) (usize_range_of 2 4)]"

section \<open>What validation guarantees\<close>

lemma require_Inr [simp]: "require ok message = Inr u \<longleftrightarrow> ok"
  by (simp add: require_def)

lemma range_validate_Inr [simp]: "range_validate r label = Inr u \<longleftrightarrow> range_min r \<le> range_max r"
  by (simp add: range_validate_def)

lemma first_error_Inr [simp]: "first_error (check # checks) = Inr u \<longleftrightarrow> check = Inr () \<and> first_error checks = Inr u"
  by (cases check) simp_all

declare first_error.simps(2) [simp del]

definition range_ok :: "usize_range option \<Rightarrow> bool" where
  "range_ok limits = (case limits of None \<Rightarrow> True | Some r \<Rightarrow> 1 \<le> range_min r \<and> range_min r \<le> range_max r)"

definition family_ok :: "ruliad_family_config \<Rightarrow> bool" where
  "family_ok f \<longleftrightarrow> 0 < family_weight f \<and> range_ok (family_width f) \<and> range_ok (family_steps f)"

lemma validate_positive_range_Inr [simp]: "validate_positive_range label limits = Inr u \<longleftrightarrow> range_ok limits"
  by (auto simp: validate_positive_range_def range_ok_def split: option.splits)

lemma validate_families_Inr [simp]: "validate_families index families = Inr u \<longleftrightarrow> list_all family_ok families"
proof (induction index families rule: validate_families.induct)
  case (2 index family families)
  then show ?case by (auto simp: Let_def family_ok_def result_bind_Inr)
qed simp

fun tokenization_ok :: "tokenization_config \<Rightarrow> bool" where
  "tokenization_ok (Gpt2ByteCompatible vocab_size eos_id) = (257 \<le> vocab_size \<and> eos_in_vocab vocab_size eos_id)"
| "tokenization_ok (Symbolic vocab_size eos_id) = (512 \<le> vocab_size \<and> eos_in_vocab vocab_size eos_id)"
| "tokenization_ok (StructuredSymbolic vocab_size eos_id) =
     (272 \<le> vocab_size \<and> eos_in_vocab vocab_size eos_id \<and> (\<forall>e. eos_id = Some e \<longrightarrow> 271 \<le> e))"

lemma validate_tokenization_Inr [simp]: "validate_tokenization t = Inr u \<longleftrightarrow> tokenization_ok t"
  by (cases t) (auto split: option.splits)

definition source_selection_ok :: "source_selection_config \<Rightarrow> bool" where
  "source_selection_ok s \<longleftrightarrow>
     range_min (ss_difficulty_levels s) \<le> range_max (ss_difficulty_levels s)
     \<and> list_all in_unit_interval
         [ss_frontier_min_coverage s, mt_verifier_min (ss_capability_mastery s),
          mt_completion_health_min (ss_capability_mastery s), mt_schema_wrong_max (ss_capability_mastery s),
          mt_malformed_max (ss_capability_mastery s), mt_missing_max (ss_capability_mastery s)]
     \<and> 0 < mt_minimum_items (ss_capability_mastery s) \<and> finite_non_negative (mt_confidence_z (ss_capability_mastery s))
     \<and> 0 < formal_task_weight (ss_formal_task_mix s)
     \<and> (cs_enabled (ss_cold_start s) \<longrightarrow>
          range_min (ss_difficulty_levels s) \<le> cs_max_difficulty_level (ss_cold_start s)
          \<and> 0 < cs_ramp_steps (ss_cold_start s) \<and> 0 < cs_min_feedback_count (ss_cold_start s)
          \<and> list_all in_unit_interval
              [cs_verifier_min (ss_cold_start s), cs_completion_health_min (ss_cold_start s),
               cs_schema_wrong_max (ss_cold_start s), cs_malformed_max (ss_cold_start s),
               cs_missing_max (ss_cold_start s)])
     \<and> (fe_enabled (ss_frontier_extension s) \<longrightarrow>
          0 < fe_levels_per_extension (ss_frontier_extension s)
          \<and> in_unit_interval (fe_normalized_difficulty (ss_frontier_extension s))
          \<and> in_unit_interval (fe_max_difficulty_probability (ss_frontier_extension s)))"

definition corpus_ok :: "corpus_config \<Rightarrow> bool" where
  "corpus_ok c \<longleftrightarrow>
     str_trim (cc_name c) \<noteq> [] \<and> 0 < cc_train_samples c \<and> 0 < cc_chunk_token_capacity c
     \<and> 1 < ser_document_tokens (cc_serialization c) \<and> 0 < ser_preview_samples (cc_serialization c)
     \<and> range_ok (Some (ser_document_chunks (cc_serialization c)))
     \<and> source_selection_ok (cc_source_selection c)
     \<and> cc_families c \<noteq> [] \<and> list_all family_ok (cc_families c) \<and> tokenization_ok (cc_tokenization c)"

lemma validate_corpus_Inr: "validate_corpus c = Inr u \<longleftrightarrow> corpus_ok c"
  by (auto simp: validate_corpus_def validate_basics_def validate_sampler_def validate_task_mix_def
      validate_cold_start_def validate_frontier_def corpus_ok_def source_selection_ok_def range_ok_def Let_def)

lemma built_in_families_ok:
  "list_all family_ok default_ruliad_families" "list_all family_ok compact_ruliad_families"
  "list_all family_ok formal_ruliad_families"
  by (simp_all add: default_ruliad_families_def compact_ruliad_families_def formal_ruliad_families_def
      compact_family_def family_of_def usize_range_of_def family_ok_def range_ok_def)

section \<open>Labels\<close>

lemma family_from_label_label: "family_from_label (family_label f) = Some f"
  by (cases f) (simp_all add: family_from_label_def)

lemma task_from_label_label: "task_from_label (task_label t) = Some t"
  by (cases t) (simp_all add: task_from_label_def)

lemma family_from_label_Some: "family_from_label s = Some f \<Longrightarrow> s = family_label f"
  by (auto simp: family_from_label_def split: if_splits)

lemma task_from_label_Some: "task_from_label s = Some t \<Longrightarrow> s = task_label t"
  by (auto simp: task_from_label_def split: if_splits)

lemma family_kind_all_complete: "distinct family_kind_all \<and> f \<in> set family_kind_all"
  by (cases f) (simp_all add: family_kind_all_def)

lemma task_kind_all_complete: "distinct task_kind_all \<and> t \<in> set task_kind_all"
  by (cases t) (simp_all add: task_kind_all_def)

lemma semantics_not_empty:
  "sem_math_domains (ruliad_source_semantics family task) \<noteq> []"
  "sem_reasoning_modes (ruliad_source_semantics family task) \<noteq> []"
  by (cases family; cases task; simp add: ruliad_source_semantics_def fallback_semantics_def)+

end
