(* ===== verification/Ruliad_Category.thy ===== *)
theory Ruliad_Category
  imports Ruliad_Rng Ruliad_Config
begin

text \<open>
  Finite categories of \<open>ruliad/category.rs\<close>: the checkers for a finite category, a functor and
  a naturality square given by tables, path composition, and the generator that draws a path, a
  law, a functor or a square in the thin category of a linear order. Reads of the tables that can
  panic are \<^const>\<open>expect\<close>ed; \<open>ok_or\<close> is the code's \<open>ok_or_else\<close>.
\<close>

section \<open>Data\<close>

record category_morphism =
  mor_name :: string
  mor_source :: nat
  mor_target :: nat
  mor_identity :: bool

record category_functor =
  fun_name :: string
  fun_object_map :: "nat list"
  fun_morphism_map :: "nat list"

record naturality_check =
  nat_source_morphism :: nat
  nat_left_path :: "nat list"
  nat_right_path :: "nat list"

type_synonym composition_table = "nat option list list"

record thin_category =
  thin_morphisms :: "category_morphism list"
  thin_identities :: "nat list"
  thin_composition :: composition_table
  thin_morphism_id :: "nat option list list"

record category_task_fields =
  task_lhs :: nat
  task_rhs :: nat
  task_proof_steps :: "string list"
  task_functor :: "category_functor option"
  task_naturality :: "naturality_check option"

record category_spec =
  spec_object_count :: nat
  spec_morphisms :: "category_morphism list"
  spec_identities :: "nat list"
  spec_composition :: composition_table
  spec_path :: "nat list"
  spec_composed :: nat
  spec_lhs :: nat
  spec_rhs :: nat
  spec_holds :: bool
  spec_proof_steps :: "string list"
  spec_functor :: "category_functor option"
  spec_naturality :: "naturality_check option"
  spec_task :: ruliad_task_kind

section \<open>Composition\<close>

definition compose_pair :: "composition_table \<Rightarrow> nat \<Rightarrow> nat \<Rightarrow> nat option" where
  "compose_pair composition left right =
     Option.bind (nth_opt composition left) (\<lambda>row. Option.bind (nth_opt row right) (\<lambda>entry. entry))"

fun compose_rest :: "category_morphism list \<Rightarrow> composition_table \<Rightarrow> nat \<Rightarrow> nat list \<Rightarrow> nat option" where
  "compose_rest morphisms composition current [] = Some current"
| "compose_rest morphisms composition current (next_id # rest) =
     (if length morphisms \<le> next_id then None
      else
        (case compose_pair composition current next_id of
           None \<Rightarrow> None
         | Some composed \<Rightarrow> compose_rest morphisms composition composed rest))"

fun compose_path :: "category_morphism list \<Rightarrow> composition_table \<Rightarrow> nat list \<Rightarrow> nat option" where
  "compose_path morphisms composition [] = None"
| "compose_path morphisms composition (first # rest) =
     (if length morphisms \<le> first then None else compose_rest morphisms composition first rest)"

definition morphism_name :: "category_morphism list \<Rightarrow> nat \<Rightarrow> string" where
  "morphism_name morphisms i =
     (case nth_opt morphisms i of None \<Rightarrow> ''m?'' @ show_nat i | Some m \<Rightarrow> mor_name m)"

fun proof_steps_from ::
    "category_morphism list \<Rightarrow> composition_table \<Rightarrow> nat \<Rightarrow> nat list \<Rightarrow> string list" where
  "proof_steps_from morphisms composition current [] = []"
| "proof_steps_from morphisms composition current (next_id # rest) =
     (case compose_pair composition current next_id of
        None \<Rightarrow> proof_steps_from morphisms composition current rest
      | Some composed \<Rightarrow>
          (morphism_name morphisms current @ ''*'' @ morphism_name morphisms next_id @ ''=''
             @ morphism_name morphisms composed)
          # proof_steps_from morphisms composition composed rest)"

fun category_path_proof_steps ::
    "category_morphism list \<Rightarrow> composition_table \<Rightarrow> nat list \<Rightarrow> string list" where
  "category_path_proof_steps morphisms composition [] = []"
| "category_path_proof_steps morphisms composition (first # rest) =
     proof_steps_from morphisms composition first rest"

section \<open>The category checker\<close>

definition category_shape_ok ::
    "nat \<Rightarrow> category_morphism list \<Rightarrow> nat list \<Rightarrow> composition_table \<Rightarrow> bool" where
  "category_shape_ok object_count morphisms identities composition \<longleftrightarrow>
     \<not> (object_count = 0 \<or> morphisms = [] \<or> length identities \<noteq> object_count
        \<or> length composition \<noteq> length morphisms
        \<or> list_ex (\<lambda>row. length row \<noteq> length morphisms) composition)"

definition morphism_ok :: "nat \<Rightarrow> nat list \<Rightarrow> nat \<times> category_morphism \<Rightarrow> bool" where
  "morphism_ok object_count identities = (\<lambda>(i, m).
     \<not> (object_count \<le> mor_source m \<or> object_count \<le> mor_target m
        \<or> str_trim (mor_name m) = [] \<or> has_white_space (mor_name m))
     \<and> \<not> (mor_identity m
          \<and> (mor_source m \<noteq> mor_target m \<or> nth_opt identities (mor_source m) \<noteq> Some i)))"

definition identity_ok :: "category_morphism list \<Rightarrow> nat \<times> nat \<Rightarrow> bool" where
  "identity_ok morphisms = (\<lambda>(object, identity).
     (case nth_opt morphisms identity of
        None \<Rightarrow> False
      | Some m \<Rightarrow> \<not> (\<not> mor_identity m \<or> mor_source m \<noteq> object \<or> mor_target m \<noteq> object)))"

definition composition_entry_ok ::
    "category_morphism list \<Rightarrow> composition_table \<Rightarrow> nat \<times> category_morphism \<Rightarrow> nat \<times> category_morphism \<Rightarrow> bool" where
  "composition_entry_ok morphisms composition = (\<lambda>(left_id, left) (right_id, right).
     (let composed = composition ! left_id ! right_id in
      if mor_target left = mor_source right then
        (case composed of
           None \<Rightarrow> False
         | Some composed_id \<Rightarrow>
             (case nth_opt morphisms composed_id of
                None \<Rightarrow> False
              | Some result \<Rightarrow>
                  \<not> (mor_source result \<noteq> mor_source left \<or> mor_target result \<noteq> mor_target right)))
      else composed = None))"

definition units_ok :: "nat list \<Rightarrow> composition_table \<Rightarrow> nat \<times> category_morphism \<Rightarrow> bool" where
  "units_ok identities composition = (\<lambda>(i, m).
     \<not> (compose_pair composition (identities ! mor_source m) i \<noteq> Some i
        \<or> compose_pair composition i (identities ! mor_target m) \<noteq> Some i))"

definition associative_at ::
    "composition_table \<Rightarrow> nat \<times> category_morphism \<Rightarrow> nat \<times> category_morphism \<Rightarrow> nat \<times> category_morphism \<Rightarrow> bool" where
  "associative_at composition = (\<lambda>(first_id, first) (second_id, second) (third_id, third).
     (if mor_target first \<noteq> mor_source second \<or> mor_target second \<noteq> mor_source third then True
      else
        (let left = Option.bind (compose_pair composition first_id second_id)
               (\<lambda>partial. compose_pair composition partial third_id);
             right = Option.bind (compose_pair composition second_id third_id)
               (\<lambda>partial. compose_pair composition first_id partial)
         in \<not> (left = None \<or> left \<noteq> right))))"

definition valid_finite_category ::
    "nat \<Rightarrow> category_morphism list \<Rightarrow> nat list \<Rightarrow> composition_table \<Rightarrow> bool" where
  "valid_finite_category object_count morphisms identities composition \<longleftrightarrow>
     (let numbered = List.enumerate 0 morphisms in
      category_shape_ok object_count morphisms identities composition
      \<and> list_all (morphism_ok object_count identities) numbered
      \<and> list_all (identity_ok morphisms) (List.enumerate 0 identities)
      \<and> list_all (\<lambda>left. list_all (\<lambda>right.
           composition_entry_ok morphisms composition left right) numbered) numbered
      \<and> list_all (units_ok identities composition) numbered
      \<and> list_all (\<lambda>first. list_all (\<lambda>second. list_all (\<lambda>third.
           associative_at composition first second third) numbered) numbered) numbered)"

section \<open>The functor checker\<close>

text \<open>The last loop indexes the morphism map by entries of an unchecked table, so it can panic:
  \<^const>\<open>None\<close>.\<close>

definition functor_shape_ok ::
    "nat \<Rightarrow> category_morphism list \<Rightarrow> nat list \<Rightarrow> category_functor \<Rightarrow> bool" where
  "functor_shape_ok object_count morphisms identities f \<longleftrightarrow>
     \<not> (object_count = 0 \<or> length identities \<noteq> object_count
        \<or> length (fun_object_map f) \<noteq> object_count
        \<or> length (fun_morphism_map f) \<noteq> length morphisms
        \<or> list_ex (\<lambda>object. object_count \<le> object) (fun_object_map f)
        \<or> list_ex (\<lambda>m. length morphisms \<le> m) (fun_morphism_map f)
        \<or> list_ex (\<lambda>m. object_count \<le> mor_source m \<or> object_count \<le> mor_target m) morphisms)"

definition functor_morphism_ok ::
    "category_morphism list \<Rightarrow> category_functor \<Rightarrow> nat \<times> category_morphism \<Rightarrow> bool" where
  "functor_morphism_ok morphisms f = (\<lambda>(source_id, source).
     (case nth_opt morphisms (fun_morphism_map f ! source_id) of
        None \<Rightarrow> False
      | Some mapped \<Rightarrow>
          \<not> (mor_source mapped \<noteq> fun_object_map f ! mor_source source
             \<or> mor_target mapped \<noteq> fun_object_map f ! mor_target source)))"

definition functor_identity_ok :: "nat list \<Rightarrow> category_functor \<Rightarrow> nat \<times> nat \<Rightarrow> bool" where
  "functor_identity_ok identities f = (\<lambda>(object, identity).
     \<not> length (fun_morphism_map f) \<le> identity
     \<and> fun_morphism_map f ! identity = identities ! (fun_object_map f ! object))"

definition functor_entry_ok ::
    "composition_table \<Rightarrow> category_functor \<Rightarrow> nat \<Rightarrow> nat \<times> nat option \<Rightarrow> bool option" where
  "functor_entry_ok composition f left_id = (\<lambda>(right_id, entry).
     (case entry of
        None \<Rightarrow> Some True
      | Some composed \<Rightarrow>
          Option.bind (nth_opt (fun_morphism_map f) composed)
            (\<lambda>lhs. Option.bind (nth_opt (fun_morphism_map f) left_id)
              (\<lambda>l. Option.bind (nth_opt (fun_morphism_map f) right_id)
                (\<lambda>r. Some (compose_pair composition l r = Some lhs))))))"

definition valid_functor ::
    "nat \<Rightarrow> category_morphism list \<Rightarrow> nat list \<Rightarrow> composition_table \<Rightarrow> category_functor \<Rightarrow> bool option" where
  "valid_functor object_count morphisms identities composition f =
     (if \<not> functor_shape_ok object_count morphisms identities f then Some False
      else if \<not> list_all (functor_morphism_ok morphisms f) (List.enumerate 0 morphisms) then Some False
      else if \<not> list_all (functor_identity_ok identities f) (List.enumerate 0 identities) then Some False
      else check_loop (\<lambda>(left_id, row).
             check_loop (functor_entry_ok composition f left_id) (List.enumerate 0 row))
             (List.enumerate 0 composition))"

section \<open>The naturality checker\<close>

definition naturality_shape_ok ::
    "category_morphism list \<Rightarrow> category_functor \<Rightarrow> naturality_check \<Rightarrow> bool" where
  "naturality_shape_ok morphisms f sq \<longleftrightarrow>
     \<not> (length morphisms \<le> nat_source_morphism sq
        \<or> length (nat_left_path sq) \<noteq> 2 \<or> length (nat_right_path sq) \<noteq> 2
        \<or> fun_object_map f = []
        \<or> length (fun_morphism_map f) \<noteq> length morphisms
        \<or> list_ex (\<lambda>m. length morphisms \<le> m) (fun_morphism_map f)
        \<or> list_ex (\<lambda>object. length (fun_object_map f) \<le> object) (fun_object_map f))"

definition first_morphism :: "category_morphism list \<Rightarrow> nat list \<Rightarrow> category_morphism option" where
  "first_morphism morphisms path = (case path of [] \<Rightarrow> None | i # _ \<Rightarrow> nth_opt morphisms i)"

definition last_morphism :: "category_morphism list \<Rightarrow> nat list \<Rightarrow> category_morphism option" where
  "last_morphism morphisms path = (if path = [] then None else nth_opt morphisms (last path))"

definition naturality_commutes ::
    "category_morphism list \<Rightarrow> composition_table \<Rightarrow> category_functor \<Rightarrow> naturality_check \<Rightarrow> bool" where
  "naturality_commutes morphisms composition f sq =
     (if \<not> naturality_shape_ok morphisms f sq then False
      else
        (let m = morphisms ! nat_source_morphism sq in
         if length (fun_object_map f) \<le> mor_source m
            \<or> length (fun_object_map f) \<le> mor_target m
            \<or> nat_left_path sq ! 1 \<noteq> fun_morphism_map f ! nat_source_morphism sq
            \<or> nat_right_path sq ! 0 \<noteq> nat_source_morphism sq
         then False
         else
           (case (compose_path morphisms composition (nat_left_path sq),
                  compose_path morphisms composition (nat_right_path sq),
                  first_morphism morphisms (nat_left_path sq),
                  last_morphism morphisms (nat_left_path sq),
                  first_morphism morphisms (nat_right_path sq),
                  last_morphism morphisms (nat_right_path sq)) of
              (Some left_id, Some right_id, Some left_first, Some left_last, Some right_first,
               Some right_last) \<Rightarrow>
                left_id = right_id
                \<and> mor_source left_first = mor_source m
                \<and> mor_target left_first = fun_object_map f ! mor_source m
                \<and> mor_source left_last = fun_object_map f ! mor_source m
                \<and> mor_target left_last = fun_object_map f ! mor_target m
                \<and> mor_source right_first = mor_source m
                \<and> mor_target right_first = mor_target m
                \<and> mor_source right_last = mor_target m
                \<and> mor_target right_last = fun_object_map f ! mor_target m
            | _ \<Rightarrow> False)))"

section \<open>The sample check\<close>

text \<open>The category branch of the sample verifier of \<open>ruliad/oracles.rs\<close>: whether a sample is
  right. It runs the functor checker before the category checker, so it panics where that does.\<close>

definition category_task_ok :: "category_spec \<Rightarrow> bool option" where
  "category_task_ok c =
     (let recomposed = compose_path (spec_morphisms c) (spec_composition c) (spec_path c);
          holds_ok = ((spec_lhs c = spec_rhs c) = spec_holds c);
          functor_check = valid_functor (spec_object_count c) (spec_morphisms c) (spec_identities c)
            (spec_composition c)
      in case spec_task c of
           ComposeCategoryPath \<Rightarrow> Some (recomposed = Some (spec_composed c) \<and> holds_ok)
         | VerifyCategoryLaw \<Rightarrow> Some (recomposed = Some (spec_composed c) \<and> holds_ok)
         | VerifyFunctorPreservation \<Rightarrow>
             (case spec_functor c of
                None \<Rightarrow> Some False
              | Some f \<Rightarrow> map_option (\<lambda>ok. ok \<and> holds_ok) (functor_check f))
         | VerifyNaturalitySquare \<Rightarrow>
             (case (spec_functor c, spec_naturality c) of
                (Some f, Some sq) \<Rightarrow>
                  map_option (\<lambda>ok. ok
                      \<and> naturality_commutes (spec_morphisms c) (spec_composition c) f sq \<and> holds_ok)
                    (functor_check f)
              | _ \<Rightarrow> Some False)
         | _ \<Rightarrow> Some False)"

definition category_sample_ok :: "category_spec \<Rightarrow> bool option" where
  "category_sample_ok c =
     map_option (\<lambda>task_ok.
         valid_finite_category (spec_object_count c) (spec_morphisms c) (spec_identities c)
           (spec_composition c)
         \<and> task_ok \<and> spec_holds c
         \<and> spec_lhs c < length (spec_morphisms c)
         \<and> spec_rhs c < length (spec_morphisms c)
         \<and> spec_composed c < length (spec_morphisms c))
       (category_task_ok c)"

section \<open>The generator\<close>

definition range_or :: "usize_range option \<Rightarrow> nat \<Rightarrow> nat \<Rightarrow> split_mix64 \<Rightarrow> nat \<times> split_mix64" where
  "range_or limits default_min default_max rng =
     (case limits of
        Some r \<Rightarrow> range_usize (range_min r) (range_max r) rng
      | None \<Rightarrow> range_usize default_min default_max rng)"

text \<open>The thin category of the order \<open>0 \<le> 1 \<le> \<dots>\<close>: one arrow for each pair of objects in order,
  numbered as the two nested loops meet them.\<close>

definition ordered_pairs :: "nat \<Rightarrow> (nat \<times> nat) list" where
  "ordered_pairs object_count =
     concat (map (\<lambda>source. map (Pair source) [source..<object_count]) [0..<object_count])"

definition thin_arrow :: "nat \<Rightarrow> nat \<Rightarrow> category_morphism" where
  "thin_arrow source target =
     \<lparr> mor_name = ''m'' @ show_nat source @ ''_'' @ show_nat target, mor_source = source,
       mor_target = target, mor_identity = (source = target) \<rparr>"

definition push_arrow ::
    "category_morphism list \<times> nat option list list \<Rightarrow> nat \<times> nat
       \<Rightarrow> category_morphism list \<times> nat option list list" where
  "push_arrow = (\<lambda>(morphisms, morphism_id) (source, target).
     (morphisms @ [thin_arrow source target],
      morphism_id[source := (morphism_id ! source)[target := Some (length morphisms)]]))"

definition entry_at :: "nat option list list \<Rightarrow> nat \<Rightarrow> nat \<Rightarrow> nat outcome" where
  "entry_at table i j =
     outcome_bind (expect (nth_opt table i))
       (\<lambda>row. outcome_bind (expect (nth_opt row j)) expect)"

fun outcome_map :: "('a \<Rightarrow> 'b outcome) \<Rightarrow> 'a list \<Rightarrow> 'b list outcome" where
  "outcome_map f [] = Returned []"
| "outcome_map f (x # xs) =
     outcome_bind (f x) (\<lambda>y. outcome_bind (outcome_map f xs) (\<lambda>ys. Returned (y # ys)))"

definition generated_thin_category :: "nat \<Rightarrow> thin_category outcome" where
  "generated_thin_category object_count =
     (case foldl push_arrow ([], replicate object_count (replicate object_count None))
             (ordered_pairs object_count) of
        (morphisms, morphism_id) \<Rightarrow>
          outcome_bind (outcome_map (\<lambda>object. entry_at morphism_id object object) [0..<object_count])
            (\<lambda>identities. Returned
               \<lparr> thin_morphisms = morphisms, thin_identities = identities,
                 thin_composition =
                   map (\<lambda>left. map (\<lambda>right.
                      if mor_target left = mor_source right
                      then morphism_id ! mor_source left ! mor_target right else None)
                     morphisms) morphisms,
                 thin_morphism_id = morphism_id \<rparr>))"

fun monotone_steps :: "nat \<Rightarrow> nat \<Rightarrow> nat \<Rightarrow> nat list \<Rightarrow> split_mix64 \<Rightarrow> nat list \<times> split_mix64" where
  "monotone_steps object_count 0 current path rng = (path, rng)"
| "monotone_steps object_count (Suc k) current path rng =
     (case next_index (object_count - (current + 1) + 1) rng of
        (step, rng') \<Rightarrow>
          monotone_steps object_count k (current + step) (path @ [current + step]) rng')"

definition monotone_object_path :: "nat \<Rightarrow> nat \<Rightarrow> split_mix64 \<Rightarrow> nat list \<times> split_mix64" where
  "monotone_object_path object_count path_len rng =
     (case next_index object_count rng of
        (current, rng') \<Rightarrow>
          monotone_steps object_count (max path_len 2 - 1) current [current] rng')"

definition composable_triple ::
    "thin_category \<Rightarrow> split_mix64 \<Rightarrow> (nat \<times> nat \<times> nat) outcome \<times> split_mix64" where
  "composable_triple c rng =
     (case monotone_object_path (length (thin_identities c)) 4 rng of
        (objects, rng') \<Rightarrow>
          (let arrow = (\<lambda>i. outcome_bind (expect (nth_opt objects i))
                 (\<lambda>a. outcome_bind (expect (nth_opt objects (Suc i)))
                   (\<lambda>b. entry_at (thin_morphism_id c) a b)))
           in outcome_bind (arrow 0) (\<lambda>f. outcome_bind (arrow 1) (\<lambda>g. outcome_bind (arrow 2)
                (\<lambda>h. Returned (f, g, h)))),
           rng'))"

definition shift_functor :: "thin_category \<Rightarrow> nat \<Rightarrow> category_functor outcome" where
  "shift_functor c shift =
     (let object_count = length (thin_identities c);
          object_map = map (\<lambda>object. min (sat_add object shift) (object_count - 1)) [0..<object_count]
      in outcome_bind
           (outcome_map (\<lambda>m.
              outcome_bind (expect (nth_opt object_map (mor_source m)))
                (\<lambda>s. outcome_bind (expect (nth_opt object_map (mor_target m)))
                  (\<lambda>t. entry_at (thin_morphism_id c) s t))) (thin_morphisms c))
           (\<lambda>morphism_map. Returned
              \<lparr> fun_name = ''shift_'' @ show_nat shift, fun_object_map = object_map,
                fun_morphism_map = morphism_map \<rparr>))"

definition generated_shift_functor ::
    "thin_category \<Rightarrow> split_mix64 \<Rightarrow> category_functor outcome \<times> split_mix64" where
  "generated_shift_functor c rng =
     (case range_usize 0 (length (thin_identities c) - 1) rng of
        (shift, rng') \<Rightarrow> (shift_functor c shift, rng'))"

definition law_task_fields :: "thin_category \<Rightarrow> nat \<times> nat \<times> nat \<Rightarrow> category_task_fields outcome" where
  "law_task_fields c = (\<lambda>(f, g, h).
     (let compose = compose_pair (thin_composition c); name = morphism_name (thin_morphisms c) in
      outcome_bind (ok_or ''generated invalid category law lhs'' (compose f g)) (\<lambda>fg.
      outcome_bind (ok_or ''generated invalid category law rhs'' (compose g h)) (\<lambda>gh.
      outcome_bind (ok_or ''generated invalid category law lhs fold'' (compose fg h)) (\<lambda>lhs.
      outcome_bind (ok_or ''generated invalid category law rhs fold'' (compose f gh)) (\<lambda>rhs.
        Returned \<lparr> task_lhs = lhs, task_rhs = rhs,
          task_proof_steps =
            [''al:'' @ name fg @ ''>'' @ name lhs, ''ar:'' @ name gh @ ''>'' @ name rhs],
          task_functor = None, task_naturality = None \<rparr>))))))"

definition functor_task_fields ::
    "thin_category \<Rightarrow> nat list \<Rightarrow> category_functor \<Rightarrow> category_task_fields outcome" where
  "functor_task_fields c path f =
     (let compose = compose_pair (thin_composition c); name = morphism_name (thin_morphisms c);
          image = (\<lambda>i. expect (nth_opt (fun_morphism_map f) i)) in
      outcome_bind (expect (nth_opt path 0)) (\<lambda>first.
      outcome_bind
        (case nth_opt path 1 of
           Some second \<Rightarrow> Returned second
         | None \<Rightarrow>
             outcome_bind (expect (nth_opt (thin_morphisms c) first))
               (\<lambda>m. expect (nth_opt (thin_identities c) (mor_target m)))) (\<lambda>second.
      outcome_bind (ok_or ''generated invalid functor path'' (compose first second)) (\<lambda>composed.
      outcome_bind (image composed) (\<lambda>lhs.
      outcome_bind (image first) (\<lambda>ffirst.
      outcome_bind (image second) (\<lambda>fsecond.
      outcome_bind (ok_or ''generated invalid functor composition'' (compose ffirst fsecond)) (\<lambda>rhs.
        Returned \<lparr> task_lhs = lhs, task_rhs = rhs,
          task_proof_steps =
            [''F('' @ name first @ ''*'' @ name second @ '')='' @ name lhs,
             ''F('' @ name first @ '')*F('' @ name second @ '')='' @ name rhs],
          task_functor = Some f, task_naturality = None \<rparr>))))))))"

definition naturality_task_fields ::
    "thin_category \<Rightarrow> nat list \<Rightarrow> category_functor \<Rightarrow> category_task_fields outcome" where
  "naturality_task_fields c path f =
     (let compose = compose_path (thin_morphisms c) (thin_composition c);
          name = morphism_name (thin_morphisms c) in
      outcome_bind
        (outcome_map (\<lambda>object. outcome_bind (expect (nth_opt (fun_object_map f) object))
            (\<lambda>image. entry_at (thin_morphism_id c) object image)) [0..<length (thin_identities c)])
        (\<lambda>components.
      outcome_bind
        (case path of m # _ \<Rightarrow> Returned m | [] \<Rightarrow> expect (nth_opt (thin_identities c) 0))
        (\<lambda>source_morphism.
      outcome_bind (expect (nth_opt (thin_morphisms c) source_morphism)) (\<lambda>m.
      outcome_bind (expect (nth_opt components (mor_source m))) (\<lambda>source_component.
      outcome_bind (expect (nth_opt (fun_morphism_map f) source_morphism)) (\<lambda>image.
      outcome_bind (expect (nth_opt components (mor_target m))) (\<lambda>target_component.
        (let left_path = [source_component, image]; right_path = [source_morphism, target_component] in
         outcome_bind (ok_or ''generated invalid naturality left path'' (compose left_path)) (\<lambda>lhs.
         outcome_bind (ok_or ''generated invalid naturality right path'' (compose right_path)) (\<lambda>rhs.
           Returned \<lparr> task_lhs = lhs, task_rhs = rhs,
             task_proof_steps =
               [''L=F('' @ name source_morphism @ '')@e'' @ show_nat (mor_source m) @ ''='' @ name lhs,
                ''R=e'' @ show_nat (mor_target m) @ ''@'' @ name source_morphism @ ''='' @ name rhs],
             task_functor = Some f,
             task_naturality = Some \<lparr> nat_source_morphism = source_morphism,
               nat_left_path = left_path, nat_right_path = right_path \<rparr> \<rparr>))))))))))"

definition generated_category_task_fields ::
    "ruliad_task_kind \<Rightarrow> thin_category \<Rightarrow> nat list \<Rightarrow> nat \<Rightarrow> split_mix64
       \<Rightarrow> category_task_fields outcome \<times> split_mix64" where
  "generated_category_task_fields task c path composed rng =
     (case task of
        ComposeCategoryPath \<Rightarrow>
          (Returned \<lparr> task_lhs = composed, task_rhs = composed,
             task_proof_steps = category_path_proof_steps (thin_morphisms c) (thin_composition c) path,
             task_functor = None, task_naturality = None \<rparr>, rng)
      | VerifyCategoryLaw \<Rightarrow>
          (case composable_triple c rng of
             (triple, rng') \<Rightarrow> (outcome_bind triple (law_task_fields c), rng'))
      | VerifyFunctorPreservation \<Rightarrow>
          (case generated_shift_functor c rng of
             (f, rng') \<Rightarrow> (outcome_bind f (functor_task_fields c path), rng'))
      | VerifyNaturalitySquare \<Rightarrow>
          (case generated_shift_functor c rng of
             (f, rng') \<Rightarrow> (outcome_bind f (naturality_task_fields c path), rng'))
      | _ \<Rightarrow> (Panicked, rng))"

definition category_task :: "ruliad_task_kind \<Rightarrow> ruliad_task_kind" where
  "category_task task =
     (if task \<in> {ComposeCategoryPath, VerifyCategoryLaw, VerifyFunctorPreservation,
                 VerifyNaturalitySquare}
      then task else ComposeCategoryPath)"

definition object_path_arrows :: "thin_category \<Rightarrow> nat list \<Rightarrow> nat list outcome" where
  "object_path_arrows c object_path =
     outcome_bind
       (outcome_map (\<lambda>(a, b). entry_at (thin_morphism_id c) a b) (zip object_path (tl object_path)))
       (\<lambda>path.
          if path = [] then
            outcome_bind (expect (nth_opt object_path 0))
              (\<lambda>object. outcome_bind (expect (nth_opt (thin_identities c) object)) (\<lambda>i. Returned [i]))
          else Returned path)"

definition generate_category_fields ::
    "ruliad_family_config \<Rightarrow> ruliad_task_kind \<Rightarrow> split_mix64 \<Rightarrow> category_spec outcome \<times> split_mix64" where
  "generate_category_fields family task rng =
     (case range_or (family_width family) 3 7 rng of (object_count, rng1) \<Rightarrow>
     (case generated_thin_category object_count of
        Panicked \<Rightarrow> (Panicked, rng1)
      | Failed e \<Rightarrow> (Failed e, rng1)
      | Returned c \<Rightarrow>
          (case range_or (family_steps family) 3 6 rng1 of (steps, rng2) \<Rightarrow>
          (case monotone_object_path object_count (max steps 2) rng2 of (object_path, rng3) \<Rightarrow>
          (case outcome_bind (object_path_arrows c object_path) (\<lambda>path.
                  outcome_bind
                    (ok_or ''generated invalid category path''
                       (compose_path (thin_morphisms c) (thin_composition c) path))
                    (\<lambda>composed. Returned (path, composed))) of
             Panicked \<Rightarrow> (Panicked, rng3)
           | Failed e \<Rightarrow> (Failed e, rng3)
           | Returned (path, composed) \<Rightarrow>
               (case generated_category_task_fields (category_task task) c path composed rng3 of
                  (drawn, rng4) \<Rightarrow>
                    (outcome_bind drawn (\<lambda>t. Returned
                       \<lparr> spec_object_count = object_count, spec_morphisms = thin_morphisms c,
                         spec_identities = thin_identities c, spec_composition = thin_composition c,
                         spec_path = path, spec_composed = composed, spec_lhs = task_lhs t,
                         spec_rhs = task_rhs t, spec_holds = (task_lhs t = task_rhs t),
                         spec_proof_steps = task_proof_steps t, spec_functor = task_functor t,
                         spec_naturality = task_naturality t, spec_task = category_task task \<rparr>),
                     rng4)))))))"

end
