(* ===== verification/Ruliad_Category_Laws.thy ===== *)
theory Ruliad_Category_Laws
  imports Ruliad_Category
begin

text \<open>
  What the checkers of \<open>ruliad/category.rs\<close> decide: the tables form a category, the maps form a
  functor on it, the square of a naturality check exists and commutes. The laws are stated over
  an abstract category with a partial composition, where path composition is proved to be
  independent of bracketing and preserved by functors.
\<close>

section \<open>Categories with a partial composition\<close>

locale small_category =
  fixes arrows :: "'a set"
    and source :: "'a \<Rightarrow> 'o"
    and target :: "'a \<Rightarrow> 'o"
    and identity :: "'o \<Rightarrow> 'a"
    and comp :: "'a \<Rightarrow> 'a \<Rightarrow> 'a option"
  assumes comp_defined: "f \<in> arrows \<Longrightarrow> g \<in> arrows \<Longrightarrow> comp f g \<noteq> None \<longleftrightarrow> target f = source g"
    and comp_closed: "f \<in> arrows \<Longrightarrow> g \<in> arrows \<Longrightarrow> comp f g = Some h \<Longrightarrow>
      h \<in> arrows \<and> source h = source f \<and> target h = target g"
    and unit_left: "f \<in> arrows \<Longrightarrow> comp (identity (source f)) f = Some f"
    and unit_right: "f \<in> arrows \<Longrightarrow> comp f (identity (target f)) = Some f"
    and assoc: "f \<in> arrows \<Longrightarrow> g \<in> arrows \<Longrightarrow> h \<in> arrows \<Longrightarrow>
      target f = source g \<Longrightarrow> target g = source h \<Longrightarrow>
      Option.bind (comp f g) (\<lambda>p. comp p h) = Option.bind (comp g h) (comp f)"
begin

fun composite :: "'a \<Rightarrow> 'a list \<Rightarrow> 'a option" where
  "composite f [] = Some f"
| "composite f (g # gs) = Option.bind (comp f g) (\<lambda>h. composite h gs)"

fun chain :: "'a \<Rightarrow> 'a list \<Rightarrow> bool" where
  "chain f [] = True"
| "chain f (g # gs) = (target f = source g \<and> chain g gs)"

lemma comp_Some: "f \<in> arrows \<Longrightarrow> g \<in> arrows \<Longrightarrow> target f = source g \<Longrightarrow>
   \<exists>h\<in>arrows. comp f g = Some h \<and> source h = source f \<and> target h = target g"
  using comp_defined [of f g] comp_closed [of f g] by auto

lemma chain_target: "target f = target f' \<Longrightarrow> chain f gs = chain f' gs"
  by (cases gs) auto

lemma composite_defined:
  "f \<in> arrows \<Longrightarrow> set gs \<subseteq> arrows \<Longrightarrow> composite f gs \<noteq> None \<longleftrightarrow> chain f gs"
proof (induction gs arbitrary: f)
  case (Cons g gs)
  show ?case
  proof (cases "target f = source g")
    case True
    then obtain h where h: "h \<in> arrows" "comp f g = Some h" "target h = target g"
      using comp_Some [of f g] Cons.prems by auto
    then have "composite f (g # gs) \<noteq> None \<longleftrightarrow> chain h gs" using Cons by simp
    then show ?thesis using True h chain_target [of h g] by simp
  next
    case False
    then show ?thesis using comp_defined [of f g] Cons.prems by auto
  qed
qed simp

lemma composite_ends:
  "f \<in> arrows \<Longrightarrow> set gs \<subseteq> arrows \<Longrightarrow> composite f gs = Some h \<Longrightarrow>
     h \<in> arrows \<and> source h = source f \<and> target h = target (last (f # gs))"
proof (induction gs arbitrary: f)
  case (Cons g gs)
  then obtain k where k: "comp f g = Some k" "composite k gs = Some h" by (auto simp: bind_eq_Some_conv)
  then have "k \<in> arrows" "source k = source f" "target k = target g"
    using comp_closed [of f g k] Cons.prems by auto
  with Cons.IH [of k] Cons.prems k show ?case by (cases gs) auto
qed simp

lemma composite_append: "composite f (gs @ hs) = Option.bind (composite f gs) (\<lambda>p. composite p hs)"
  by (induction gs arbitrary: f) (auto simp: bind_assoc)

lemma composite_prepend:
  "f \<in> arrows \<Longrightarrow> g \<in> arrows \<Longrightarrow> set gs \<subseteq> arrows \<Longrightarrow> chain f (g # gs) \<Longrightarrow>
     composite f (g # gs) = Option.bind (composite g gs) (comp f)"
proof (induction gs arbitrary: g)
  case (Cons h gs)
  obtain k where k: "k \<in> arrows" "comp g h = Some k" "source k = source g" "target k = target h"
    using comp_Some [of g h] Cons.prems by auto
  have "composite f (g # h # gs) = Option.bind (Option.bind (comp f g) (\<lambda>p. comp p h)) (\<lambda>q. composite q gs)"
    by (simp add: bind_assoc)
  also have "\<dots> = composite f (k # gs)" using assoc [of f g h] Cons.prems k by simp
  also have "\<dots> = Option.bind (composite k gs) (comp f)"
    using Cons.IH [of k] Cons.prems k chain_target [of k h] by simp
  finally show ?case using k by simp
qed simp

lemma composite_bracketing:
  assumes "f \<in> arrows" "set gs \<subseteq> arrows" "h \<in> arrows" "set hs \<subseteq> arrows" "chain f (gs @ h # hs)"
  shows "composite f (gs @ h # hs) =
    Option.bind (composite f gs) (\<lambda>p. Option.bind (composite h hs) (comp p))"
proof -
  have "composite f (gs @ h # hs) \<noteq> None"
    using assms composite_defined [of f "gs @ h # hs"] by auto
  then obtain p q where p: "composite f gs = Some p" "composite p (h # hs) = Some q"
    by (auto simp: composite_append bind_eq_Some_conv simp del: composite.simps)
  then have pa: "p \<in> arrows" using composite_ends assms by blast
  then have "chain p (h # hs)" using p(2) composite_defined [of p "h # hs"] assms by simp
  then show ?thesis
    using composite_prepend [OF pa assms(3,4)] p(1) by (simp add: composite_append)
qed

lemma identity_unique:
  assumes "i \<in> arrows" "source i = x" "target i = x"
    and "\<And>f. f \<in> arrows \<Longrightarrow> source f = x \<Longrightarrow> comp i f = Some f"
    and "identity x \<in> arrows" "source (identity x) = x"
  shows "i = identity x"
  using assms(4) [OF assms(5,6)] unit_right [OF assms(1)] assms(3) by simp

end

locale endofunctor = small_category +
  fixes object_map :: "'b \<Rightarrow> 'b"
    and arrow_map :: "'a \<Rightarrow> 'a"
  assumes map_closed: "f \<in> arrows \<Longrightarrow> arrow_map f \<in> arrows"
    and map_source: "f \<in> arrows \<Longrightarrow> source (arrow_map f) = object_map (source f)"
    and map_target: "f \<in> arrows \<Longrightarrow> target (arrow_map f) = object_map (target f)"
    and map_identity: "f \<in> arrows \<Longrightarrow> arrow_map (identity (source f)) = identity (object_map (source f))"
    and map_comp: "f \<in> arrows \<Longrightarrow> g \<in> arrows \<Longrightarrow> comp f g = Some h \<Longrightarrow>
      comp (arrow_map f) (arrow_map g) = Some (arrow_map h)"
begin

lemma map_chain:
  "f \<in> arrows \<Longrightarrow> set gs \<subseteq> arrows \<Longrightarrow> chain f gs \<Longrightarrow> chain (arrow_map f) (map arrow_map gs)"
  by (induction gs arbitrary: f) (simp_all add: map_source map_target)

lemma map_composite:
  "f \<in> arrows \<Longrightarrow> set gs \<subseteq> arrows \<Longrightarrow> composite f gs = Some h \<Longrightarrow>
     composite (arrow_map f) (map arrow_map gs) = Some (arrow_map h)"
proof (induction gs arbitrary: f)
  case (Cons g gs)
  then obtain k where k: "comp f g = Some k" "composite k gs = Some h" by (auto simp: bind_eq_Some_conv)
  then have "k \<in> arrows" using comp_closed [of f g k] Cons.prems by auto
  with Cons.IH [of k] Cons.prems k map_comp [of f g k] show ?case by simp
qed simp

end

section \<open>The category checker\<close>

definition category_laws ::
    "nat \<Rightarrow> category_morphism list \<Rightarrow> nat list \<Rightarrow> composition_table \<Rightarrow> bool" where
  "category_laws n ms ids table \<longleftrightarrow>
     0 < n \<and> length ids = n \<and> length table = length ms \<and> (\<forall>row\<in>set table. length row = length ms)
     \<and> (\<forall>i<length ms. mor_source (ms ! i) < n \<and> mor_target (ms ! i) < n
          \<and> str_trim (mor_name (ms ! i)) \<noteq> [] \<and> \<not> has_white_space (mor_name (ms ! i)))
     \<and> (\<forall>x<n. ids ! x < length ms \<and> mor_source (ms ! (ids ! x)) = x \<and> mor_target (ms ! (ids ! x)) = x)
     \<and> (\<forall>i<length ms. mor_identity (ms ! i) \<longleftrightarrow> i = ids ! mor_source (ms ! i))
     \<and> (\<forall>i<length ms. \<forall>j<length ms.
          if mor_target (ms ! i) = mor_source (ms ! j)
          then \<exists>k<length ms. table ! i ! j = Some k \<and> mor_source (ms ! k) = mor_source (ms ! i)
                 \<and> mor_target (ms ! k) = mor_target (ms ! j)
          else table ! i ! j = None)
     \<and> (\<forall>i<length ms. compose_pair table (ids ! mor_source (ms ! i)) i = Some i
          \<and> compose_pair table i (ids ! mor_target (ms ! i)) = Some i)
     \<and> (\<forall>i<length ms. \<forall>j<length ms. \<forall>k<length ms.
          mor_target (ms ! i) = mor_source (ms ! j) \<and> mor_target (ms ! j) = mor_source (ms ! k) \<longrightarrow>
          Option.bind (compose_pair table i j) (\<lambda>p. compose_pair table p k)
            = Option.bind (compose_pair table j k) (compose_pair table i))"

lemma compose_pair_nth:
  "length table = m \<Longrightarrow> \<forall>row\<in>set table. length row = m \<Longrightarrow> i < m \<Longrightarrow> j < m \<Longrightarrow>
     compose_pair table i j = table ! i ! j"
  by (simp add: compose_pair_def)

lemma compose_pair_Some:
  "length table = m \<Longrightarrow> \<forall>row\<in>set table. length row = m \<Longrightarrow> compose_pair table i j = Some k \<Longrightarrow>
     i < m \<and> j < m"
  by (auto simp: compose_pair_def bind_eq_Some_conv nth_opt_eq_Some)

lemma category_shape_ok_iff:
  "category_shape_ok n ms ids table \<longleftrightarrow>
     0 < n \<and> ms \<noteq> [] \<and> length ids = n \<and> length table = length ms \<and> (\<forall>row\<in>set table. length row = length ms)"
  by (auto simp: category_shape_ok_def list_ex_iff)

lemma valid_category_parts:
  "valid_finite_category n ms ids table \<longleftrightarrow>
     category_shape_ok n ms ids table
     \<and> (\<forall>i<length ms. morphism_ok n ids (i, ms ! i))
     \<and> (\<forall>x<length ids. identity_ok ms (x, ids ! x))
     \<and> (\<forall>i<length ms. \<forall>j<length ms. composition_entry_ok ms table (i, ms ! i) (j, ms ! j))
     \<and> (\<forall>i<length ms. units_ok ids table (i, ms ! i))
     \<and> (\<forall>i<length ms. \<forall>j<length ms. \<forall>k<length ms.
          associative_at table (i, ms ! i) (j, ms ! j) (k, ms ! k))"
  by (simp add: valid_finite_category_def list_all_enumerate)

lemma composition_entry_ok_iff:
  "composition_entry_ok ms table (i, l) (j, r) \<longleftrightarrow>
     (if mor_target l = mor_source r
      then \<exists>k<length ms. table ! i ! j = Some k \<and> mor_source (ms ! k) = mor_source l
             \<and> mor_target (ms ! k) = mor_target r
      else table ! i ! j = None)"
  by (auto simp: composition_entry_ok_def nth_opt_def split: option.splits)

lemma composition_entry_Some:
  assumes "\<forall>i<length ms. \<forall>j<length ms. composition_entry_ok ms table (i, ms ! i) (j, ms ! j)"
    and "i < length ms" "j < length ms" "mor_target (ms ! i) = mor_source (ms ! j)"
  obtains k where "k < length ms" "table ! i ! j = Some k" "mor_source (ms ! k) = mor_source (ms ! i)"
    "mor_target (ms ! k) = mor_target (ms ! j)"
proof -
  have "composition_entry_ok ms table (i, ms ! i) (j, ms ! j)" using assms by blast
  then show ?thesis using that assms(4) by (auto simp: composition_entry_ok_iff)
qed

lemma identity_ok_iff:
  "identity_ok ms (x, i) \<longleftrightarrow>
     i < length ms \<and> mor_identity (ms ! i) \<and> mor_source (ms ! i) = x \<and> mor_target (ms ! i) = x"
  by (auto simp: identity_ok_def nth_opt_def)

lemma category_associative_iff:
  assumes table: "length table = length ms" "\<forall>row\<in>set table. length row = length ms"
    and entries: "\<forall>i<length ms. \<forall>j<length ms. composition_entry_ok ms table (i, ms ! i) (j, ms ! j)"
    and bounds: "i < length ms" "j < length ms" "k < length ms"
  shows "associative_at table (i, ms ! i) (j, ms ! j) (k, ms ! k) \<longleftrightarrow>
     (mor_target (ms ! i) = mor_source (ms ! j) \<and> mor_target (ms ! j) = mor_source (ms ! k) \<longrightarrow>
      Option.bind (compose_pair table i j) (\<lambda>p. compose_pair table p k)
        = Option.bind (compose_pair table j k) (compose_pair table i))"
proof (cases "mor_target (ms ! i) = mor_source (ms ! j) \<and> mor_target (ms ! j) = mor_source (ms ! k)")
  case True
  obtain p where p: "p < length ms" "table ! i ! j = Some p" "mor_target (ms ! p) = mor_target (ms ! j)"
    using composition_entry_Some [OF entries bounds(1,2)] True by metis
  obtain q where "table ! p ! k = Some q"
    using composition_entry_Some [OF entries p(1) bounds(3)] p(3) True by metis
  then have "Option.bind (compose_pair table i j) (\<lambda>p. compose_pair table p k) = Some q"
    using p bounds table by (simp add: compose_pair_nth)
  with True show ?thesis by (simp add: associative_at_def)
next
  case False
  then show ?thesis by (auto simp: associative_at_def)
qed

lemma valid_category_iff: "valid_finite_category n ms ids table \<longleftrightarrow> category_laws n ms ids table"
proof
  assume valid: "valid_finite_category n ms ids table"
  then have shape: "0 < n" "length ids = n" "length table = length ms" "\<forall>row\<in>set table. length row = length ms"
    by (simp_all add: valid_category_parts category_shape_ok_iff)
  have ids: "\<forall>x<n. ids ! x < length ms \<and> mor_identity (ms ! (ids ! x)) \<and> mor_source (ms ! (ids ! x)) = x
      \<and> mor_target (ms ! (ids ! x)) = x"
    using valid shape by (simp add: valid_category_parts identity_ok_iff)
  have arrows: "\<forall>i<length ms. morphism_ok n ids (i, ms ! i)"
    using valid by (simp add: valid_category_parts)
  have flags: "mor_identity (ms ! i) \<longleftrightarrow> i = ids ! mor_source (ms ! i)" if "i < length ms" for i
  proof -
    have "morphism_ok n ids (i, ms ! i)" using arrows that by blast
    then have i: "mor_source (ms ! i) < n"
      "mor_identity (ms ! i) \<longrightarrow> nth_opt ids (mor_source (ms ! i)) = Some i"
      by (auto simp: morphism_ok_def)
    then show ?thesis using ids shape(2) by (metis nth_opt_Some option.inject)
  qed
  show "category_laws n ms ids table"
    unfolding category_laws_def
  proof (intro conjI)
    show "\<forall>i<length ms. mor_source (ms ! i) < n \<and> mor_target (ms ! i) < n
        \<and> str_trim (mor_name (ms ! i)) \<noteq> [] \<and> \<not> has_white_space (mor_name (ms ! i))"
      using arrows by (auto simp: morphism_ok_def)
    show "\<forall>i<length ms. \<forall>j<length ms. \<forall>k<length ms.
        mor_target (ms ! i) = mor_source (ms ! j) \<and> mor_target (ms ! j) = mor_source (ms ! k) \<longrightarrow>
        Option.bind (compose_pair table i j) (\<lambda>p. compose_pair table p k)
          = Option.bind (compose_pair table j k) (compose_pair table i)"
      using valid category_associative_iff [OF shape(3,4)] by (simp add: valid_category_parts)
  qed (use valid shape ids flags in
      \<open>auto simp: valid_category_parts composition_entry_ok_iff units_ok_def\<close>)
next
  assume laws: "category_laws n ms ids table"
  then have shape: "0 < n" "length ids = n" "length table = length ms" "\<forall>row\<in>set table. length row = length ms"
    and ids: "\<forall>x<n. ids ! x < length ms \<and> mor_source (ms ! (ids ! x)) = x \<and> mor_target (ms ! (ids ! x)) = x"
    and flags: "\<forall>i<length ms. mor_identity (ms ! i) \<longleftrightarrow> i = ids ! mor_source (ms ! i)"
    by (simp_all add: category_laws_def)
  have entries: "\<forall>i<length ms. \<forall>j<length ms. composition_entry_ok ms table (i, ms ! i) (j, ms ! j)"
    using laws by (simp add: category_laws_def composition_entry_ok_iff)
  have "\<forall>i<length ms. morphism_ok n ids (i, ms ! i)"
    using laws ids shape by (auto simp: category_laws_def morphism_ok_def nth_opt_def)
  moreover have "\<forall>x<length ids. identity_ok ms (x, ids ! x)"
    using ids flags shape by (simp add: identity_ok_iff)
  moreover have "\<forall>i<length ms. units_ok ids table (i, ms ! i)"
    using laws by (simp add: category_laws_def units_ok_def)
  moreover have "\<forall>i<length ms. \<forall>j<length ms. \<forall>k<length ms. associative_at table (i, ms ! i) (j, ms ! j) (k, ms ! k)"
    using laws category_associative_iff [OF shape(3,4) entries] by (simp add: category_laws_def)
  moreover have "category_shape_ok n ms ids table"
    using shape ids by (auto simp: category_shape_ok_iff)
  ultimately show "valid_finite_category n ms ids table"
    using entries by (simp add: valid_category_parts)
qed

section \<open>Path composition\<close>

abbreviation arrow_set :: "category_morphism list \<Rightarrow> nat set" where
  "arrow_set ms \<equiv> {..<length ms}"

abbreviation arrow_source :: "category_morphism list \<Rightarrow> nat \<Rightarrow> nat" where
  "arrow_source ms i \<equiv> mor_source (ms ! i)"

abbreviation arrow_target :: "category_morphism list \<Rightarrow> nat \<Rightarrow> nat" where
  "arrow_target ms i \<equiv> mor_target (ms ! i)"

lemma category_laws_ends:
  "category_laws n ms ids table \<Longrightarrow> i < length ms \<Longrightarrow> arrow_source ms i < n \<and> arrow_target ms i < n"
  by (simp add: category_laws_def)

lemma category_laws_tables:
  "category_laws n ms ids table \<Longrightarrow> 0 < n \<and> length ids = n \<and> length table = length ms
     \<and> (\<forall>row\<in>set table. length row = length ms) \<and> (\<forall>x<n. ids ! x < length ms)"
  by (simp add: category_laws_def)

lemma category_laws_entry:
  assumes "category_laws n ms ids table" and "i < length ms" and "j < length ms"
  shows "if arrow_target ms i = arrow_source ms j
    then \<exists>k<length ms. compose_pair table i j = Some k \<and> arrow_source ms k = arrow_source ms i
           \<and> arrow_target ms k = arrow_target ms j
    else compose_pair table i j = None"
proof -
  have shape: "length table = length ms" "\<forall>row\<in>set table. length row = length ms"
    using assms(1) by (simp_all add: category_laws_def)
  have "\<forall>i<length ms. \<forall>j<length ms.
      if arrow_target ms i = arrow_source ms j
      then \<exists>k<length ms. table ! i ! j = Some k \<and> arrow_source ms k = arrow_source ms i
             \<and> arrow_target ms k = arrow_target ms j
      else table ! i ! j = None"
    using assms(1) unfolding category_laws_def by blast
  then show ?thesis unfolding compose_pair_nth [OF shape assms(2,3)] using assms(2,3) by blast
qed

lemma category_laws_small_category:
  assumes "category_laws n ms ids table"
  shows "small_category (arrow_set ms) (arrow_source ms) (arrow_target ms) (\<lambda>x. ids ! x) (compose_pair table)"
proof
  fix f g h
  assume fg: "f \<in> arrow_set ms" "g \<in> arrow_set ms"
  note entry = category_laws_entry [OF assms fg [unfolded lessThan_iff]]
  show "compose_pair table f g \<noteq> None \<longleftrightarrow> arrow_target ms f = arrow_source ms g"
    using entry by (auto split: if_splits)
  show "compose_pair table f g = Some h \<Longrightarrow>
      h \<in> arrow_set ms \<and> arrow_source ms h = arrow_source ms f \<and> arrow_target ms h = arrow_target ms g"
    using entry by (auto split: if_splits)
next
  fix f g h
  assume "f \<in> arrow_set ms" "g \<in> arrow_set ms" "h \<in> arrow_set ms"
    "arrow_target ms f = arrow_source ms g" "arrow_target ms g = arrow_source ms h"
  then show "Option.bind (compose_pair table f g) (\<lambda>p. compose_pair table p h)
      = Option.bind (compose_pair table g h) (compose_pair table f)"
    using assms unfolding category_laws_def lessThan_iff by blast
qed (use assms in \<open>simp_all add: category_laws_def\<close>)

lemma compose_rest_composite:
  assumes "category_laws n ms ids table" and "set fs \<subseteq> arrow_set ms"
  shows "compose_rest ms table f fs =
    small_category.composite (compose_pair table) f fs"
  using assms(2)
proof (induction fs arbitrary: f)
  case Nil
  then show ?case
    using small_category.composite.simps(1) [OF category_laws_small_category [OF assms(1)]] by simp
next
  case (Cons g fs)
  then show ?case
    using small_category.composite.simps(2) [OF category_laws_small_category [OF assms(1)]]
    by (simp add: not_le split: option.splits)
qed

lemma compose_rest_in_range:
  "compose_rest ms table f fs = Some k \<Longrightarrow> set fs \<subseteq> arrow_set ms"
  by (induction fs arbitrary: f) (auto split: if_splits option.splits)

text \<open>A path is composable when each arrow ends where the next one starts.\<close>

fun composable :: "category_morphism list \<Rightarrow> nat list \<Rightarrow> bool" where
  "composable ms [] = True"
| "composable ms [f] = True"
| "composable ms (f # g # rest) = (arrow_target ms f = arrow_source ms g \<and> composable ms (g # rest))"

lemma chain_composable:
  assumes "category_laws n ms ids table"
  shows "small_category.chain (arrow_source ms) (arrow_target ms) f fs = composable ms (f # fs)"
proof (induction fs arbitrary: f)
  case Nil
  then show ?case
    using small_category.chain.simps(1) [OF category_laws_small_category [OF assms]] by simp
next
  case (Cons g fs)
  then show ?case
    using small_category.chain.simps(2) [OF category_laws_small_category [OF assms]] by simp
qed

lemma compose_path_defined:
  assumes "category_laws n ms ids table"
  shows "(\<exists>k. compose_path ms table p = Some k) \<longleftrightarrow> p \<noteq> [] \<and> set p \<subseteq> arrow_set ms \<and> composable ms p"
proof (cases p)
  case (Cons f fs)
  note cat = category_laws_small_category [OF assms]
  show ?thesis
  proof (cases "f \<in> arrow_set ms \<and> set fs \<subseteq> arrow_set ms")
    case True
    then have "compose_path ms table p = small_category.composite (compose_pair table) f fs"
      using Cons compose_rest_composite [OF assms] by simp
    then show ?thesis
      using small_category.composite_defined [OF cat, of f fs] chain_composable [OF assms] True Cons
      by auto
  next
    case False
    then show ?thesis using Cons compose_rest_in_range [of ms table f fs] by auto
  qed
qed simp

lemma compose_path_Some:
  assumes "category_laws n ms ids table" and "compose_path ms table p = Some k"
  shows "k < length ms" "arrow_source ms k = arrow_source ms (hd p)"
    "arrow_target ms k = arrow_target ms (last p)"
proof -
  obtain f fs where p: "p = f # fs" "f < length ms" "compose_rest ms table f fs = Some k"
    using assms(2) by (cases p) (auto split: if_splits)
  then have fs: "set fs \<subseteq> arrow_set ms" using compose_rest_in_range by blast
  have "small_category.composite (compose_pair table) f fs = Some k"
    using compose_rest_composite [OF assms(1) fs] p(3) by simp
  from small_category.composite_ends [OF category_laws_small_category [OF assms(1)] _ fs this] p
  show "k < length ms" "arrow_source ms k = arrow_source ms (hd p)"
    "arrow_target ms k = arrow_target ms (last p)" by auto
qed

lemma compose_path_append:
  assumes laws: "category_laws n ms ids table" and "p \<noteq> []" "q \<noteq> []" "compose_path ms table (p @ q) = Some k"
  shows "\<exists>i j. compose_path ms table p = Some i \<and> compose_path ms table q = Some j
    \<and> compose_pair table i j = Some k"
proof -
  note cat = category_laws_small_category [OF laws]
  obtain f fs g gs where eq: "p = f # fs" "q = g # gs" using assms by (meson neq_Nil_conv)
  have "f < length ms" and rest: "compose_rest ms table f (fs @ g # gs) = Some k"
    using assms(4) eq by (auto split: if_splits)
  then have sets: "f \<in> arrow_set ms" "set fs \<subseteq> arrow_set ms" "g \<in> arrow_set ms" "set gs \<subseteq> arrow_set ms"
    "set (fs @ g # gs) \<subseteq> arrow_set ms"
    using compose_rest_in_range [OF rest] by auto
  have comp: "small_category.composite (compose_pair table) f (fs @ g # gs) = Some k"
    using compose_rest_composite [OF laws sets(5)] rest by simp
  then have "small_category.chain (arrow_source ms) (arrow_target ms) f (fs @ g # gs)"
    using small_category.composite_defined [OF cat sets(1,5)] by simp
  note eq2 = small_category.composite_bracketing [OF cat sets(1-4) this]
  obtain i j where "small_category.composite (compose_pair table) f fs = Some i"
    "small_category.composite (compose_pair table) g gs = Some j" "compose_pair table i j = Some k"
    using comp [unfolded eq2] by (auto simp only: bind_eq_Some_conv)
  then show ?thesis
    using eq sets compose_rest_composite [OF laws sets(2)] compose_rest_composite [OF laws sets(4)] by simp
qed

section \<open>Functors\<close>

definition functor_laws ::
    "nat \<Rightarrow> category_morphism list \<Rightarrow> nat list \<Rightarrow> composition_table \<Rightarrow> category_functor \<Rightarrow> bool" where
  "functor_laws n ms ids table f \<longleftrightarrow>
     length (fun_object_map f) = n \<and> length (fun_morphism_map f) = length ms
     \<and> (\<forall>x<n. fun_object_map f ! x < n) \<and> (\<forall>i<length ms. fun_morphism_map f ! i < length ms)
     \<and> (\<forall>i<length ms. arrow_source ms (fun_morphism_map f ! i) = fun_object_map f ! arrow_source ms i
          \<and> arrow_target ms (fun_morphism_map f ! i) = fun_object_map f ! arrow_target ms i)
     \<and> (\<forall>x<n. fun_morphism_map f ! (ids ! x) = ids ! (fun_object_map f ! x))
     \<and> (\<forall>i<length ms. \<forall>j<length ms. \<forall>k. compose_pair table i j = Some k \<longrightarrow>
          compose_pair table (fun_morphism_map f ! i) (fun_morphism_map f ! j)
            = Some (fun_morphism_map f ! k))"

lemma not_list_ex_le: "\<not> list_ex (\<lambda>x. n \<le> x) xs \<longleftrightarrow> (\<forall>i<length xs. xs ! i < (n :: nat))"
  by (simp add: list_ex_length not_le)

lemma functor_shape_ok_iff:
  assumes "category_laws n ms ids table"
  shows "functor_shape_ok n ms ids f \<longleftrightarrow>
    length (fun_object_map f) = n \<and> length (fun_morphism_map f) = length ms
    \<and> (\<forall>x<n. fun_object_map f ! x < n) \<and> (\<forall>i<length ms. fun_morphism_map f ! i < length ms)"
proof -
  have "\<not> list_ex (\<lambda>m. n \<le> mor_source m \<or> n \<le> mor_target m) ms"
    using category_laws_ends [OF assms] by (auto simp: list_ex_length not_le)
  then show ?thesis
    using category_laws_tables [OF assms] by (auto simp: functor_shape_ok_def not_list_ex_le)
qed

lemma functor_entry_total:
  assumes laws: "category_laws n ms ids table" and "length (fun_morphism_map f) = length ms"
    and "i < length ms" "j < length ms"
  shows "functor_entry_ok table f i (j, table ! i ! j) =
    Some (\<forall>k. compose_pair table i j = Some k \<longrightarrow>
      compose_pair table (fun_morphism_map f ! i) (fun_morphism_map f ! j) = Some (fun_morphism_map f ! k))"
proof -
  have "compose_pair table i j = table ! i ! j"
    using laws assms by (intro compose_pair_nth) (auto simp: category_laws_def)
  then show ?thesis
    using category_laws_entry [OF laws assms(3,4)] assms
    by (auto simp: functor_entry_ok_def split: option.splits if_splits)
qed

lemma valid_functor_eq:
  assumes laws: "category_laws n ms ids table"
  shows "valid_functor n ms ids table f = Some (functor_laws n ms ids table f)"
proof (cases "functor_shape_ok n ms ids f")
  case False
  then have "\<not> functor_laws n ms ids table f"
    unfolding functor_shape_ok_iff [OF laws] functor_laws_def by blast
  with False show ?thesis by (simp add: valid_functor_def)
next
  case True
  note shape = True [unfolded functor_shape_ok_iff [OF laws]]
  have dims: "length ids = n" "length table = length ms" "\<forall>row\<in>set table. length row = length ms"
    and ids: "\<forall>x<n. ids ! x < length ms"
    using laws by (auto simp: category_laws_def)
  have arrows: "list_all (functor_morphism_ok ms f) (List.enumerate 0 ms) \<longleftrightarrow>
      (\<forall>i<length ms. arrow_source ms (fun_morphism_map f ! i) = fun_object_map f ! arrow_source ms i
        \<and> arrow_target ms (fun_morphism_map f ! i) = fun_object_map f ! arrow_target ms i)"
    using shape by (auto simp: list_all_enumerate functor_morphism_ok_def)
  have idents: "list_all (functor_identity_ok ids f) (List.enumerate 0 ids) \<longleftrightarrow>
      (\<forall>x<n. fun_morphism_map f ! (ids ! x) = ids ! (fun_object_map f ! x))"
    using shape dims ids by (auto simp: list_all_enumerate functor_identity_ok_def not_le)
  let ?entry = "\<lambda>i j. \<forall>k. compose_pair table i j = Some k \<longrightarrow>
      compose_pair table (fun_morphism_map f ! i) (fun_morphism_map f ! j) = Some (fun_morphism_map f ! k)"
  have row: "check_loop (functor_entry_ok table f i) (List.enumerate 0 (table ! i)) =
      Some (\<forall>j<length ms. ?entry i j)" if "i < length ms" for i
  proof -
    have "check_loop (functor_entry_ok table f i) (List.enumerate 0 (table ! i)) =
        Some (list_all (\<lambda>(j, e). ?entry i j) (List.enumerate 0 (table ! i)))"
      using that dims shape functor_entry_total [OF laws]
      by (intro check_loop_total) (auto simp: in_set_enumerate_eq)
    then show ?thesis using that dims by (simp add: list_all_enumerate)
  qed
  have "check_loop (\<lambda>(i, row). check_loop (functor_entry_ok table f i) (List.enumerate 0 row))
      (List.enumerate 0 table) = Some (list_all (\<lambda>(i, row). \<forall>j<length ms. ?entry i j) (List.enumerate 0 table))"
    using dims row by (intro check_loop_total) (auto simp: in_set_enumerate_eq)
  then have "check_loop (\<lambda>(i, row). check_loop (functor_entry_ok table f i) (List.enumerate 0 row))
      (List.enumerate 0 table) = Some (\<forall>i<length ms. \<forall>j<length ms. ?entry i j)"
    using dims by (simp add: list_all_enumerate)
  then show ?thesis
    using True shape arrows idents by (simp add: valid_functor_def functor_laws_def)
qed

lemma functor_laws_endofunctor:
  assumes "category_laws n ms ids table" and "functor_laws n ms ids table f"
  shows "endofunctor (arrow_set ms) (arrow_source ms) (arrow_target ms) (\<lambda>x. ids ! x)
    (compose_pair table) (\<lambda>x. fun_object_map f ! x) (\<lambda>i. fun_morphism_map f ! i)"
  using assms(2) category_laws_small_category [OF assms(1)] category_laws_ends [OF assms(1)]
  by (auto simp: endofunctor_def endofunctor_axioms_def functor_laws_def)

lemma functor_preserves_path:
  assumes laws: "category_laws n ms ids table" and f: "functor_laws n ms ids table f"
    and path: "compose_path ms table p = Some k"
  shows "compose_path ms table (map (\<lambda>i. fun_morphism_map f ! i) p) = Some (fun_morphism_map f ! k)"
proof -
  obtain g gs where p: "p = g # gs" "g < length ms" "compose_rest ms table g gs = Some k"
    using path by (cases p) (auto split: if_splits)
  then have gs: "set gs \<subseteq> arrow_set ms" using compose_rest_in_range by blast
  have images: "fun_morphism_map f ! g < length ms"
    "set (map (\<lambda>i. fun_morphism_map f ! i) gs) \<subseteq> arrow_set ms"
    using f gs p(2) by (auto simp: functor_laws_def)
  have "small_category.composite (compose_pair table) g gs = Some k"
    using compose_rest_composite [OF laws gs] p(3) by simp
  from endofunctor.map_composite [OF functor_laws_endofunctor [OF laws f] _ gs this] p(2)
  have "compose_rest ms table (fun_morphism_map f ! g) (map (\<lambda>i. fun_morphism_map f ! i) gs)
      = Some (fun_morphism_map f ! k)"
    using compose_rest_composite [OF laws images(2)] by simp
  then show ?thesis using p images by simp
qed

section \<open>Naturality squares\<close>

text \<open>A commuting square of \<open>m\<close> under the functor: components at its two ends that complete it.\<close>

definition natural_square ::
    "category_morphism list \<Rightarrow> composition_table \<Rightarrow> category_functor \<Rightarrow> nat \<Rightarrow> nat \<Rightarrow> nat \<Rightarrow> bool" where
  "natural_square ms table f m at_source at_target \<longleftrightarrow>
     m < length ms \<and> at_source < length ms \<and> at_target < length ms
     \<and> arrow_source ms at_source = arrow_source ms m
     \<and> arrow_target ms at_source = fun_object_map f ! arrow_source ms m
     \<and> arrow_source ms at_target = arrow_target ms m
     \<and> arrow_target ms at_target = fun_object_map f ! arrow_target ms m
     \<and> compose_pair table at_source (fun_morphism_map f ! m) = compose_pair table m at_target"

lemma naturality_commutes_iff:
  assumes laws: "category_laws n ms ids table" and f: "functor_laws n ms ids table f"
  shows "naturality_commutes ms table f sq \<longleftrightarrow>
    (\<exists>at_source at_target.
       nat_left_path sq = [at_source, fun_morphism_map f ! nat_source_morphism sq]
       \<and> nat_right_path sq = [nat_source_morphism sq, at_target]
       \<and> natural_square ms table f (nat_source_morphism sq) at_source at_target)"
    (is "_ \<longleftrightarrow> ?R")
proof
  let ?m = "nat_source_morphism sq"
  assume nat: "naturality_commutes ms table f sq"
  then obtain a b c d where paths: "nat_left_path sq = [a, b]" "nat_right_path sq = [c, d]"
    by (auto simp: naturality_commutes_def naturality_shape_ok_def length_Suc_conv numeral_2_eq_2
        split: if_splits)
  have m: "?m < length ms" using nat by (auto simp: naturality_commutes_def naturality_shape_ok_def split: if_splits)
  have bc: "b = fun_morphism_map f ! ?m" "c = ?m"
    using nat paths by (auto simp: naturality_commutes_def Let_def split: if_splits)
  obtain l where l: "compose_path ms table [a, b] = Some l" "compose_path ms table [c, d] = Some l"
    and ends: "a < length ms" "d < length ms"
      "arrow_source ms a = arrow_source ms ?m" "arrow_target ms a = fun_object_map f ! arrow_source ms ?m"
      "arrow_source ms d = arrow_target ms ?m" "arrow_target ms d = fun_object_map f ! arrow_target ms ?m"
    using nat paths
    by (auto simp: naturality_commutes_def Let_def first_morphism_def last_morphism_def nth_opt_eq_Some
        simp del: compose_path.simps split: if_splits option.splits)
  have "compose_pair table a b = compose_pair table c d"
    using l by (auto split: if_splits option.splits)
  then show ?R using paths bc ends m by (auto simp: natural_square_def)
next
  let ?m = "nat_source_morphism sq"
  assume ?R
  then obtain a d where paths: "nat_left_path sq = [a, fun_morphism_map f ! ?m]" "nat_right_path sq = [?m, d]"
    and sq: "natural_square ms table f ?m a d" by blast
  then have m: "?m < length ms" "a < length ms" "d < length ms" by (simp_all add: natural_square_def)
  have fm: "fun_morphism_map f ! ?m < length ms"
    "arrow_source ms (fun_morphism_map f ! ?m) = fun_object_map f ! arrow_source ms ?m"
    "arrow_target ms (fun_morphism_map f ! ?m) = fun_object_map f ! arrow_target ms ?m"
    using f m(1) by (simp_all add: functor_laws_def)
  have objects: "arrow_source ms ?m < n" "arrow_target ms ?m < n" "0 < n"
    using laws m(1) by (simp_all add: category_laws_def)
  have shape: "naturality_shape_ok ms f sq"
    using f objects m(1) paths
    by (auto simp: naturality_shape_ok_def functor_laws_def not_list_ex_le)
  obtain k where k: "compose_pair table a (fun_morphism_map f ! ?m) = Some k"
    using category_laws_entry [OF laws m(2) fm(1)] sq fm by (auto simp: natural_square_def)
  then have "compose_pair table ?m d = Some k" using sq by (simp add: natural_square_def)
  with k show "naturality_commutes ms table f sq"
    using shape paths m fm f sq objects
    by (simp add: naturality_commutes_def Let_def first_morphism_def last_morphism_def
        functor_laws_def natural_square_def not_le)
qed

end
