(* ===== verification/Ruliad_Category_Gen.thy ===== *)
theory Ruliad_Category_Gen
  imports Ruliad_Category_Laws
begin

text \<open>
  The generator of \<open>ruliad/category.rs\<close>: the thin category it builds satisfies the category laws,
  the shift functor the functor laws, and every sample it draws is complete (no panic, no error)
  and accepted by the sample check.
\<close>

section \<open>Outcomes of loops\<close>

lemma outcome_map_Returned:
  "(\<And>x. x \<in> set xs \<Longrightarrow> f x = Returned (g x)) \<Longrightarrow> outcome_map f xs = Returned (map g xs)"
  by (induction xs) auto

lemma entry_at_Some:
  "i < length table \<Longrightarrow> j < length (table ! i) \<Longrightarrow> table ! i ! j = Some k \<Longrightarrow> entry_at table i j = Returned k"
  by (simp add: entry_at_def)

section \<open>The thin category\<close>

lemma set_ordered_pairs: "set (ordered_pairs n) = {(s, t). s \<le> t \<and> t < n}"
  by (force simp: ordered_pairs_def)

lemma distinct_ordered_pairs: "distinct (ordered_pairs n)"
proof -
  have "distinct (concat (map (\<lambda>s. map (Pair s) [s..<n]) xs))" if "distinct xs" for xs
    using that by (induction xs) (auto simp: distinct_map inj_on_def)
  then show ?thesis by (simp add: ordered_pairs_def)
qed

definition arrow_table :: "nat \<Rightarrow> (nat \<times> nat) list \<Rightarrow> nat option list list \<Rightarrow> bool" where
  "arrow_table n ps table \<longleftrightarrow>
     length table = n \<and> (\<forall>s<n. length (table ! s) = n)
     \<and> (\<forall>s<n. \<forall>t<n. \<forall>k. table ! s ! t = Some k \<longleftrightarrow> k < length ps \<and> ps ! k = (s, t))"

lemma fold_push_arrow:
  assumes "distinct ps" and "set ps \<subseteq> {(s, t). s < n \<and> t < n}"
  shows "\<exists>table. foldl push_arrow ([], replicate n (replicate n None)) ps
      = (map (\<lambda>(s, t). thin_arrow s t) ps, table) \<and> arrow_table n ps table"
  using assms
proof (induction ps rule: rev_induct)
  case Nil
  then show ?case by (simp add: arrow_table_def)
next
  case (snoc p ps)
  obtain s t where p: "p = (s, t)" by fastforce
  obtain table where table: "foldl push_arrow ([], replicate n (replicate n None)) ps
      = (map (\<lambda>(s, t). thin_arrow s t) ps, table)" "arrow_table n ps table"
    using snoc by auto
  define table' where "table' = table[s := (table ! s)[t := Some (length ps)]]"
  have st: "s < n" "t < n" "(s, t) \<notin> set ps" using snoc.prems p by auto
  have "table' ! a ! b = Some k \<longleftrightarrow> k < length (ps @ [p]) \<and> (ps @ [p]) ! k = (a, b)"
    if "a < n" "b < n" for a b k
    using that table(2) st p
    by (auto simp: arrow_table_def table'_def nth_list_update nth_append less_Suc_eq in_set_conv_nth)
  moreover have "length table' = n" "\<forall>a<n. length (table' ! a) = n"
    using table(2) st by (auto simp: arrow_table_def table'_def nth_list_update)
  ultimately have "arrow_table n (ps @ [p]) table'" by (simp add: arrow_table_def)
  then show ?case using table(1) p by (simp add: push_arrow_def table'_def)
qed

definition thin_spec :: "nat \<Rightarrow> thin_category \<Rightarrow> bool" where
  "thin_spec n c \<longleftrightarrow>
     thin_morphisms c = map (\<lambda>(s, t). thin_arrow s t) (ordered_pairs n)
     \<and> arrow_table n (ordered_pairs n) (thin_morphism_id c)
     \<and> thin_identities c = map (\<lambda>x. the (thin_morphism_id c ! x ! x)) [0..<n]
     \<and> thin_composition c = map (\<lambda>l. map (\<lambda>r.
          if mor_target l = mor_source r then thin_morphism_id c ! mor_source l ! mor_target r else None)
          (thin_morphisms c)) (thin_morphisms c)"

definition thin_id :: "thin_category \<Rightarrow> nat \<Rightarrow> nat \<Rightarrow> nat" where
  "thin_id c s t = the (thin_morphism_id c ! s ! t)"

lemma arrow_table_lookup:
  assumes "arrow_table n (ordered_pairs n) table" and "s \<le> t" and "t < n"
  obtains k where "k < length (ordered_pairs n)" "ordered_pairs n ! k = (s, t)" "table ! s ! t = Some k"
proof -
  have "(s, t) \<in> set (ordered_pairs n)" using assms by (simp add: set_ordered_pairs)
  then obtain k where k: "k < length (ordered_pairs n)" "ordered_pairs n ! k = (s, t)"
    by (metis in_set_conv_nth)
  then have "table ! s ! t = Some k" using assms by (simp add: arrow_table_def)
  with k that show ?thesis by blast
qed

lemma generated_thin_category_spec:
  "\<exists>c. generated_thin_category n = Returned c \<and> thin_spec n c"
proof -
  have "set (ordered_pairs n) \<subseteq> {(s, t). s < n \<and> t < n}" by (auto simp: set_ordered_pairs)
  from fold_push_arrow [OF distinct_ordered_pairs this] obtain table where
    table: "foldl push_arrow ([], replicate n (replicate n None)) (ordered_pairs n)
      = (map (\<lambda>(s, t). thin_arrow s t) (ordered_pairs n), table)" "arrow_table n (ordered_pairs n) table"
    by blast
  have "entry_at table x x = Returned (the (table ! x ! x))" if x: "x < n" for x
  proof -
    obtain k where "table ! x ! x = Some k" using arrow_table_lookup [OF table(2) order_refl x] by blast
    moreover have "x < length table" "x < length (table ! x)" using x table(2) by (simp_all add: arrow_table_def)
    ultimately show ?thesis by (simp add: entry_at_Some)
  qed
  then have "outcome_map (\<lambda>x. entry_at table x x) [0..<n] = Returned (map (\<lambda>x. the (table ! x ! x)) [0..<n])"
    by (intro outcome_map_Returned) auto
  then show ?thesis using table by (simp add: generated_thin_category_def thin_spec_def)
qed

lemma thin_id_props:
  assumes "thin_spec n c" and "s \<le> t" and "t < n"
  shows "thin_id c s t < length (thin_morphisms c)"
    and "thin_morphisms c ! thin_id c s t = thin_arrow s t"
    and "entry_at (thin_morphism_id c) s t = Returned (thin_id c s t)"
    and "thin_morphism_id c ! s ! t = Some (thin_id c s t)"
proof -
  have table: "arrow_table n (ordered_pairs n) (thin_morphism_id c)"
    and ms: "thin_morphisms c = map (\<lambda>(s, t). thin_arrow s t) (ordered_pairs n)"
    using assms(1) by (simp_all add: thin_spec_def)
  obtain k where k: "k < length (ordered_pairs n)" "ordered_pairs n ! k = (s, t)"
      "thin_morphism_id c ! s ! t = Some k"
    using arrow_table_lookup [OF table assms(2,3)] .
  then show "thin_id c s t < length (thin_morphisms c)"
    "thin_morphisms c ! thin_id c s t = thin_arrow s t"
    "thin_morphism_id c ! s ! t = Some (thin_id c s t)"
    using ms by (simp_all add: thin_id_def)
  moreover have "s < length (thin_morphism_id c)" "t < length (thin_morphism_id c ! s)"
    using table assms(2,3) by (simp_all add: arrow_table_def)
  ultimately show "entry_at (thin_morphism_id c) s t = Returned (thin_id c s t)"
    by (simp add: entry_at_Some)
qed

lemma thin_arrow_props:
  assumes "thin_spec n c" and "i < length (thin_morphisms c)"
  shows "arrow_source (thin_morphisms c) i \<le> arrow_target (thin_morphisms c) i"
    and "arrow_target (thin_morphisms c) i < n"
    and "thin_id c (arrow_source (thin_morphisms c) i) (arrow_target (thin_morphisms c) i) = i"
    and "thin_morphisms c ! i = thin_arrow (arrow_source (thin_morphisms c) i) (arrow_target (thin_morphisms c) i)"
proof -
  have table: "arrow_table n (ordered_pairs n) (thin_morphism_id c)"
    and ms: "thin_morphisms c = map (\<lambda>(s, t). thin_arrow s t) (ordered_pairs n)"
    using assms(1) by (simp_all add: thin_spec_def)
  obtain s t where st: "ordered_pairs n ! i = (s, t)" by fastforce
  have i: "i < length (ordered_pairs n)" using assms(2) ms by simp
  then have le: "s \<le> t" "t < n" using nth_mem [OF i] st by (auto simp: set_ordered_pairs)
  have "thin_morphism_id c ! s ! t = Some i" using table le st i by (simp add: arrow_table_def)
  moreover have "thin_morphisms c ! i = thin_arrow s t" using ms i st by simp
  moreover have "mor_source (thin_arrow s t) = s" "mor_target (thin_arrow s t) = t"
    by (simp_all add: thin_arrow_def)
  ultimately show "arrow_source (thin_morphisms c) i \<le> arrow_target (thin_morphisms c) i"
    and "arrow_target (thin_morphisms c) i < n"
    and "thin_id c (arrow_source (thin_morphisms c) i) (arrow_target (thin_morphisms c) i) = i"
    and "thin_morphisms c ! i = thin_arrow (arrow_source (thin_morphisms c) i) (arrow_target (thin_morphisms c) i)"
    using le by (simp_all add: thin_id_def)
qed

lemma thin_arrow_ends [simp]:
  "mor_source (thin_arrow s t) = s" "mor_target (thin_arrow s t) = t" "mor_identity (thin_arrow s t) = (s = t)"
  by (simp_all add: thin_arrow_def)

lemma thin_arrow_name_graphic: "list_all graphic (mor_name (thin_arrow s t))"
  using show_nat_graphic by (simp add: thin_arrow_def graphic_def of_char_of)

lemma thin_arrow_name_nonempty: "mor_name (thin_arrow s t) \<noteq> []"
  by (simp add: thin_arrow_def)

lemma thin_identities_nth:
  "thin_spec n c \<Longrightarrow> x < n \<Longrightarrow> thin_identities c ! x = thin_id c x x"
  by (simp add: thin_spec_def thin_id_def)

lemma thin_dims:
  assumes "thin_spec n c"
  shows "length (thin_identities c) = n" "length (thin_composition c) = length (thin_morphisms c)"
    "\<forall>row\<in>set (thin_composition c). length row = length (thin_morphisms c)"
  using assms by (auto simp: thin_spec_def)

lemma thin_compose_pair:
  assumes spec: "thin_spec n c" and i: "i < length (thin_morphisms c)" and j: "j < length (thin_morphisms c)"
  shows "compose_pair (thin_composition c) i j =
    (if arrow_target (thin_morphisms c) i = arrow_source (thin_morphisms c) j
     then Some (thin_id c (arrow_source (thin_morphisms c) i) (arrow_target (thin_morphisms c) j)) else None)"
proof -
  let ?ms = "thin_morphisms c"
  have "compose_pair (thin_composition c) i j =
      (if arrow_target ?ms i = arrow_source ?ms j
       then thin_morphism_id c ! arrow_source ?ms i ! arrow_target ?ms j else None)"
    using spec i j compose_pair_nth [OF thin_dims(2,3) [OF spec]] by (simp add: thin_spec_def)
  moreover have "arrow_target ?ms i = arrow_source ?ms j \<Longrightarrow> arrow_source ?ms i \<le> arrow_target ?ms j"
    using thin_arrow_props(1) [OF spec] i j by (metis order_trans)
  ultimately show ?thesis
    using thin_id_props(4) [OF spec] thin_arrow_props(2) [OF spec j] by simp
qed

lemma thin_category_laws:
  assumes spec: "thin_spec n c" and "0 < n"
  shows "category_laws n (thin_morphisms c) (thin_identities c) (thin_composition c)"
    (is "category_laws n ?ms ?ids ?table")
proof -
  note arrow = thin_arrow_props [OF spec]
  note ident = thin_id_props [OF spec]
  have ids: "?ids ! x = thin_id c x x" if "x < n" for x using thin_identities_nth [OF spec that] .
  have ends: "arrow_source ?ms i < n" if "i < length ?ms" for i
    using arrow(1,2) that by (meson le_less_trans)
  show ?thesis
    unfolding category_laws_def
  proof (intro conjI allI impI)
    show "0 < n" "length ?ids = n" "length ?table = length ?ms" "\<forall>row\<in>set ?table. length row = length ?ms"
      using assms thin_dims [OF spec] by simp_all
  next
    fix i assume i: "i < length ?ms"
    show "arrow_source ?ms i < n" "arrow_target ?ms i < n" using ends i arrow(2) by auto
    have "list_all graphic (mor_name (?ms ! i))" "mor_name (?ms ! i) \<noteq> []"
      using arrow(4) [OF i] thin_arrow_name_graphic thin_arrow_name_nonempty by metis+
    then show "str_trim (mor_name (?ms ! i)) \<noteq> []" "\<not> has_white_space (mor_name (?ms ! i))"
      by (simp_all add: str_trim_graphic_all graphic_no_white_space)
    have flag: "mor_identity (?ms ! i) \<longleftrightarrow> arrow_source ?ms i = arrow_target ?ms i"
      using arrow(4) [OF i] by (metis thin_arrow_ends(3))
    show "mor_identity (?ms ! i) \<longleftrightarrow> i = ?ids ! arrow_source ?ms i"
      using flag ids [OF ends [OF i]] arrow(3) [OF i] ident(2) [OF order_refl ends [OF i]]
      by (metis thin_arrow_ends(1,2))
    show "compose_pair ?table (?ids ! arrow_source ?ms i) i = Some i"
      using ident(1,2) [OF order_refl ends [OF i]] thin_compose_pair [OF spec _ i] ids [OF ends [OF i]]
        arrow(3) [OF i] by simp
    show "compose_pair ?table i (?ids ! arrow_target ?ms i) = Some i"
      using ident(1,2) [OF order_refl arrow(2) [OF i]] thin_compose_pair [OF spec i] ids [OF arrow(2) [OF i]]
        arrow(3) [OF i] by simp
  next
    fix x assume "x < n"
    then show "?ids ! x < length ?ms" "arrow_source ?ms (?ids ! x) = x" "arrow_target ?ms (?ids ! x) = x"
      using ids ident(1,2) [OF order_refl] by simp_all
  next
    fix i j assume ij: "i < length ?ms" "j < length ?ms"
    have entry: "?table ! i ! j = compose_pair ?table i j"
      using compose_pair_nth [OF thin_dims(2,3) [OF spec] ij] by simp
    show "if arrow_target ?ms i = arrow_source ?ms j
      then \<exists>k<length ?ms. ?table ! i ! j = Some k \<and> arrow_source ?ms k = arrow_source ?ms i
             \<and> arrow_target ?ms k = arrow_target ?ms j
      else ?table ! i ! j = None"
      unfolding entry thin_compose_pair [OF spec ij]
      using arrow(1) [OF ij(1)] arrow(1) [OF ij(2)] arrow(2) [OF ij(2)]
        ident(1,2) [of "arrow_source ?ms i" "arrow_target ?ms j"] by auto
  next
    fix i j k assume ijk: "i < length ?ms" "j < length ?ms" "k < length ?ms"
      and ends2: "arrow_target ?ms i = arrow_source ?ms j \<and> arrow_target ?ms j = arrow_source ?ms k"
    have le: "arrow_source ?ms i \<le> arrow_target ?ms j" "arrow_source ?ms j \<le> arrow_target ?ms k"
      using ends2 arrow(1) ijk by (metis order_trans)+
    show "Option.bind (compose_pair ?table i j) (\<lambda>p. compose_pair ?table p k)
        = Option.bind (compose_pair ?table j k) (compose_pair ?table i)"
      using ends2 ijk thin_compose_pair [OF spec] ident(1,2) [OF le(1) arrow(2) [OF ijk(2)]]
        ident(1,2) [OF le(2) arrow(2) [OF ijk(3)]] by simp
  qed
qed

text \<open>Two arrows with the same ends are the same arrow.\<close>

lemma thin_unique:
  assumes "thin_spec n c" "i < length (thin_morphisms c)" "j < length (thin_morphisms c)"
    "arrow_source (thin_morphisms c) i = arrow_source (thin_morphisms c) j"
    "arrow_target (thin_morphisms c) i = arrow_target (thin_morphisms c) j"
  shows "i = j"
  using thin_arrow_props(3) [OF assms(1,2)] thin_arrow_props(3) [OF assms(1,3)]
  unfolding assms(4,5) by (rule trans [OF sym])

lemma thin_id_unique:
  assumes "thin_spec n c" "i < length (thin_morphisms c)"
    "arrow_source (thin_morphisms c) i = s" "arrow_target (thin_morphisms c) i = t"
  shows "i = thin_id c s t"
  using thin_arrow_props(3) [OF assms(1,2)] unfolding assms(3,4) by (rule sym)

lemma thin_compose_ids:
  assumes spec: "thin_spec n c" and "a \<le> b" "b \<le> d" "d < n"
  shows "compose_pair (thin_composition c) (thin_id c a b) (thin_id c b d) = Some (thin_id c a d)"
proof -
  have "b < n" using assms by simp
  then show ?thesis
    using thin_id_props(1,2) [OF spec assms(2)] thin_id_props(1,2) [OF spec assms(3,4)]
    by (simp add: thin_compose_pair [OF spec])
qed

section \<open>The shift functor\<close>

definition shift_object :: "nat \<Rightarrow> nat \<Rightarrow> nat \<Rightarrow> nat" where
  "shift_object n shift x = min (sat_add x shift) (n - 1)"

lemma shift_object_bound: "0 < n \<Longrightarrow> shift_object n shift x < n"
  by (auto simp: shift_object_def min_def)

lemma shift_object_mono: "x \<le> y \<Longrightarrow> shift_object n shift x \<le> shift_object n shift y"
  using sat_add_mono [of x y shift shift] by (auto simp: shift_object_def min_def)

lemma shift_object_above: "x < n \<Longrightarrow> n \<le> usize_max \<Longrightarrow> x \<le> shift_object n shift x"
  by (auto simp: shift_object_def sat_add_def)

definition shift_spec :: "nat \<Rightarrow> nat \<Rightarrow> thin_category \<Rightarrow> category_functor \<Rightarrow> bool" where
  "shift_spec n shift c f \<longleftrightarrow>
     fun_object_map f = map (shift_object n shift) [0..<n]
     \<and> fun_morphism_map f = map (\<lambda>m. thin_id c (shift_object n shift (mor_source m)) (shift_object n shift (mor_target m)))
          (thin_morphisms c)"

lemma shift_functor_spec:
  assumes spec: "thin_spec n c" and "0 < n"
  shows "\<exists>f. shift_functor c shift = Returned f \<and> shift_spec n shift c f"
proof -
  let ?om = "map (\<lambda>object. min (sat_add object shift) (n - 1)) [0..<n]"
  have om: "?om = map (shift_object n shift) [0..<n]" by (simp add: shift_object_def)
  have "outcome_bind (expect (nth_opt ?om (mor_source m)))
      (\<lambda>s. outcome_bind (expect (nth_opt ?om (mor_target m))) (\<lambda>t. entry_at (thin_morphism_id c) s t))
      = Returned (thin_id c (shift_object n shift (mor_source m)) (shift_object n shift (mor_target m)))"
    if mem: "m \<in> set (thin_morphisms c)" for m
  proof -
    obtain i where i: "i < length (thin_morphisms c)" "m = thin_morphisms c ! i"
      using mem by (auto simp: in_set_conv_nth)
    then have le: "mor_source m \<le> mor_target m" "mor_target m < n"
      using thin_arrow_props(1,2) [OF spec] by auto
    then have "entry_at (thin_morphism_id c) (shift_object n shift (mor_source m)) (shift_object n shift (mor_target m))
        = Returned (thin_id c (shift_object n shift (mor_source m)) (shift_object n shift (mor_target m)))"
      using thin_id_props(3) [OF spec shift_object_mono shift_object_bound] assms(2) by blast
    then show ?thesis using le unfolding om by simp
  qed
  then show ?thesis
    using thin_dims(1) [OF spec]
    by (simp add: shift_functor_def outcome_map_Returned shift_spec_def shift_object_def Let_def)
qed

lemma shift_spec_nth:
  assumes "shift_spec n shift c f"
  shows "x < n \<Longrightarrow> fun_object_map f ! x = shift_object n shift x"
    and "i < length (thin_morphisms c) \<Longrightarrow> fun_morphism_map f ! i =
      thin_id c (shift_object n shift (arrow_source (thin_morphisms c) i))
        (shift_object n shift (arrow_target (thin_morphisms c) i))"
    and "length (fun_object_map f) = n" "length (fun_morphism_map f) = length (thin_morphisms c)"
  using assms by (simp_all add: shift_spec_def)

lemma shift_functor_laws:
  assumes spec: "thin_spec n c" and n: "0 < n" and f: "shift_spec n shift c f"
  shows "functor_laws n (thin_morphisms c) (thin_identities c) (thin_composition c) f"
    (is "functor_laws n ?ms ?ids ?table f")
proof -
  note arrow = thin_arrow_props [OF spec]
  note image = shift_spec_nth [OF f]
  have src: "arrow_source ?ms i < n" if "i < length ?ms" for i
    using arrow(1,2) [OF that] by simp
  have img: "fun_morphism_map f ! i < length ?ms"
    "arrow_source ?ms (fun_morphism_map f ! i) = shift_object n shift (arrow_source ?ms i)"
    "arrow_target ?ms (fun_morphism_map f ! i) = shift_object n shift (arrow_target ?ms i)"
    if "i < length ?ms" for i
    using thin_id_props(1,2) [OF spec shift_object_mono [OF arrow(1) [OF that]] shift_object_bound [OF n]]
      image(2) [OF that] by simp_all
  show ?thesis
    unfolding functor_laws_def
  proof (intro conjI allI impI)
    show "length (fun_object_map f) = n" "length (fun_morphism_map f) = length ?ms"
      using image(3,4) by simp_all
  next
    fix x assume x: "x < n"
    show "fun_object_map f ! x < n" using image(1) [OF x] shift_object_bound [OF n] by simp
    have "?ids ! x < length ?ms" "arrow_source ?ms (?ids ! x) = x" "arrow_target ?ms (?ids ! x) = x"
      using thin_id_props(1,2) [OF spec order_refl x] thin_identities_nth [OF spec x] by simp_all
    then show "fun_morphism_map f ! (?ids ! x) = ?ids ! (fun_object_map f ! x)"
      using image(1) [OF x] image(2) [of "?ids ! x"] thin_identities_nth [OF spec shift_object_bound [OF n]]
      by simp
  next
    fix i assume i: "i < length ?ms"
    show "fun_morphism_map f ! i < length ?ms" by (rule img(1) [OF i])
    show "arrow_source ?ms (fun_morphism_map f ! i) = fun_object_map f ! arrow_source ?ms i"
      "arrow_target ?ms (fun_morphism_map f ! i) = fun_object_map f ! arrow_target ?ms i"
      using img(2,3) [OF i] image(1) [OF src [OF i]] image(1) [OF arrow(2) [OF i]] by simp_all
  next
    fix i j k assume ij: "i < length ?ms" "j < length ?ms" and k: "compose_pair ?table i j = Some k"
    have meet: "arrow_target ?ms i = arrow_source ?ms j"
      and k': "k = thin_id c (arrow_source ?ms i) (arrow_target ?ms j)"
      using k thin_compose_pair [OF spec ij] by (auto split: if_splits)
    have le: "arrow_source ?ms i \<le> arrow_target ?ms j"
      using arrow(1) [OF ij(1)] arrow(1) [OF ij(2)] meet by simp
    note kp = thin_id_props(1,2) [OF spec le arrow(2) [OF ij(2)], folded k']
    have "compose_pair ?table (fun_morphism_map f ! i) (fun_morphism_map f ! j)
        = Some (thin_id c (shift_object n shift (arrow_source ?ms i)) (shift_object n shift (arrow_target ?ms j)))"
      using thin_compose_pair [OF spec img(1) [OF ij(1)] img(1) [OF ij(2)]] img(2,3) ij meet by simp
    then show "compose_pair ?table (fun_morphism_map f ! i) (fun_morphism_map f ! j) = Some (fun_morphism_map f ! k)"
      using image(2) [OF kp(1)] kp(2) by simp
  qed
qed

section \<open>The tables as a category and its endofunctors\<close>

text \<open>The contracts of \<open>Ruliad_Category_Laws\<close> hold of the generated tables: every thin category
  on at least one object, and every clamped shift on it.\<close>

definition thin_tables :: "nat \<Rightarrow> thin_category" where
  "thin_tables n = (case generated_thin_category n of Returned c \<Rightarrow> c | _ \<Rightarrow> \<lparr> thin_morphisms = [],
     thin_identities = [], thin_composition = [], thin_morphism_id = [] \<rparr>)"

definition shift_maps :: "nat \<Rightarrow> nat \<Rightarrow> category_functor" where
  "shift_maps n shift = (case shift_functor (thin_tables n) shift of Returned f \<Rightarrow> f
     | _ \<Rightarrow> \<lparr> fun_name = [], fun_object_map = [], fun_morphism_map = [] \<rparr>)"

lemma thin_tables_spec: "thin_spec n (thin_tables n)"
  using generated_thin_category_spec [of n] by (auto simp: thin_tables_def)

lemma shift_maps_spec: "0 < n \<Longrightarrow> shift_spec n shift (thin_tables n) (shift_maps n shift)"
  using shift_functor_spec [OF thin_tables_spec, of n shift] by (auto simp: shift_maps_def)

interpretation thin: small_category "arrow_set (thin_morphisms (thin_tables (Suc n)))"
  "arrow_source (thin_morphisms (thin_tables (Suc n)))" "arrow_target (thin_morphisms (thin_tables (Suc n)))"
  "\<lambda>x. thin_identities (thin_tables (Suc n)) ! x" "compose_pair (thin_composition (thin_tables (Suc n)))" for n
  by (rule category_laws_small_category [OF thin_category_laws [OF thin_tables_spec zero_less_Suc]])

interpretation clamped_shift: endofunctor "arrow_set (thin_morphisms (thin_tables (Suc n)))"
  "arrow_source (thin_morphisms (thin_tables (Suc n)))" "arrow_target (thin_morphisms (thin_tables (Suc n)))"
  "\<lambda>x. thin_identities (thin_tables (Suc n)) ! x" "compose_pair (thin_composition (thin_tables (Suc n)))"
  "\<lambda>x. fun_object_map (shift_maps (Suc n) shift) ! x" "\<lambda>i. fun_morphism_map (shift_maps (Suc n) shift) ! i"
  for n shift
  by (rule functor_laws_endofunctor [OF thin_category_laws [OF thin_tables_spec zero_less_Suc]
        shift_functor_laws [OF thin_tables_spec zero_less_Suc shift_maps_spec [OF zero_less_Suc]]])

section \<open>Paths of objects\<close>

definition object_path_ok :: "nat \<Rightarrow> nat list \<Rightarrow> bool" where
  "object_path_ok n p \<longleftrightarrow> sorted p \<and> (\<forall>x\<in>set p. x < n)"

lemma monotone_steps_ok:
  assumes "n \<le> usize_max" and "object_path_ok n (path @ [current])" and "current < n"
  shows "object_path_ok n (fst (monotone_steps n k current (path @ [current]) rng))
    \<and> length (fst (monotone_steps n k current (path @ [current]) rng)) = length path + 1 + k"
  using assms
proof (induction k arbitrary: current path rng)
  case (Suc k)
  obtain d rng' where d: "next_index (n - (current + 1) + 1) rng = (d, rng')" by fastforce
  have "d < n - (current + 1) + 1"
    using next_index_bound [of "n - (current + 1) + 1" rng] d Suc.prems by simp
  then have cur: "current + d < n" using Suc.prems(3) by simp
  moreover have "object_path_ok n ((path @ [current]) @ [current + d])"
    using Suc.prems(2) cur by (auto simp: object_path_ok_def sorted_append)
  ultimately show ?case
    using Suc.IH [of "path @ [current]" "current + d" rng'] Suc.prems(1) d by simp
qed simp

lemma monotone_object_path_ok:
  assumes "0 < n" and "n \<le> usize_max"
  shows "object_path_ok n (fst (monotone_object_path n k rng))"
    and "length (fst (monotone_object_path n k rng)) = max k 2"
proof -
  obtain x rng' where x: "next_index n rng = (x, rng')" by fastforce
  then have "x < n" using next_index_bound [OF assms, of rng] by simp
  then have "object_path_ok n ([] @ [x])" by (simp add: object_path_ok_def)
  from monotone_steps_ok [OF assms(2) this \<open>x < n\<close>, of "max k 2 - 1" rng'] x
  show "object_path_ok n (fst (monotone_object_path n k rng))"
    "length (fst (monotone_object_path n k rng)) = max k 2"
    by (simp_all add: monotone_object_path_def)
qed

definition arrow_path :: "thin_category \<Rightarrow> nat list \<Rightarrow> nat list" where
  "arrow_path c p = map (\<lambda>(a, b). thin_id c a b) (zip p (tl p))"

lemma object_path_arrows_ok:
  assumes spec: "thin_spec n c" and "object_path_ok n p" and "2 \<le> length p"
  shows "object_path_arrows c p = Returned (arrow_path c p)" and "arrow_path c p \<noteq> []"
    and "\<And>i. Suc i < length p \<Longrightarrow> p ! i \<le> p ! Suc i \<and> p ! Suc i < n"
proof -
  show step: "\<And>i. Suc i < length p \<Longrightarrow> p ! i \<le> p ! Suc i \<and> p ! Suc i < n"
    using assms(2) by (auto simp: object_path_ok_def sorted_iff_nth_mono)
  have "outcome_map (\<lambda>(a, b). entry_at (thin_morphism_id c) a b) (zip p (tl p)) = Returned (arrow_path c p)"
    unfolding arrow_path_def
  proof (rule outcome_map_Returned)
    fix x assume "x \<in> set (zip p (tl p))"
    then obtain i where "i < length (zip p (tl p))" "x = zip p (tl p) ! i" by (metis in_set_conv_nth)
    then have "Suc i < length p" "x = (p ! i, p ! Suc i)" by (auto simp: nth_tl)
    with step [of i] thin_id_props(3) [OF spec]
    show "(case x of (a, b) \<Rightarrow> entry_at (thin_morphism_id c) a b) = Returned (case x of (a, b) \<Rightarrow> thin_id c a b)"
      by simp
  qed
  moreover show "arrow_path c p \<noteq> []"
    using assms(3) by (cases p; cases "tl p") (auto simp: arrow_path_def)
  ultimately show "object_path_arrows c p = Returned (arrow_path c p)"
    by (simp add: object_path_arrows_def)
qed

lemma arrow_path_nth:
  assumes spec: "thin_spec n c" and "object_path_ok n p" and "Suc i < length p"
  shows "i < length (arrow_path c p)" "arrow_path c p ! i = thin_id c (p ! i) (p ! Suc i)"
    "arrow_path c p ! i < length (thin_morphisms c)"
    "thin_morphisms c ! (arrow_path c p ! i) = thin_arrow (p ! i) (p ! Suc i)"
    "p ! i \<le> p ! Suc i" "p ! Suc i < n"
proof -
  show le: "p ! i \<le> p ! Suc i" "p ! Suc i < n"
    using assms by (auto simp: object_path_ok_def sorted_iff_nth_mono)
  show i: "i < length (arrow_path c p)" and eq: "arrow_path c p ! i = thin_id c (p ! i) (p ! Suc i)"
    using assms(3) by (simp_all add: arrow_path_def nth_tl)
  show "arrow_path c p ! i < length (thin_morphisms c)"
    "thin_morphisms c ! (arrow_path c p ! i) = thin_arrow (p ! i) (p ! Suc i)"
    using thin_id_props(1,2) [OF spec le] eq by simp_all
qed

lemma composable_iff_nth:
  "composable ms fs \<longleftrightarrow> (\<forall>i. Suc i < length fs \<longrightarrow> arrow_target ms (fs ! i) = arrow_source ms (fs ! Suc i))"
proof (induction ms fs rule: composable.induct)
  case (3 ms f g rest)
  then show ?case by (simp add: All_less_Suc2)
qed auto

lemma arrow_path_composes:
  assumes spec: "thin_spec n c" and ok: "object_path_ok n p" and "2 \<le> length p" and "0 < n"
  shows "\<exists>k. compose_path (thin_morphisms c) (thin_composition c) (arrow_path c p) = Some k"
proof -
  have len: "length (arrow_path c p) = length p - 1" by (simp add: arrow_path_def)
  have "set (arrow_path c p) \<subseteq> arrow_set (thin_morphisms c)"
    using arrow_path_nth(3) [OF spec ok] len by (auto simp: in_set_conv_nth)
  moreover have "composable (thin_morphisms c) (arrow_path c p)"
    using arrow_path_nth(4) [OF spec ok] len by (auto simp: composable_iff_nth)
  moreover have "arrow_path c p \<noteq> []" using len assms(3) by auto
  ultimately show ?thesis using compose_path_defined [OF thin_category_laws [OF spec assms(4)]] by simp
qed

section \<open>The drawn tasks\<close>

lemma law_task_fields_ok:
  assumes spec: "thin_spec n c" and "a \<le> b" "b \<le> d" "d \<le> e" "e < n"
  shows "\<exists>t. law_task_fields c (thin_id c a b, thin_id c b d, thin_id c d e) = Returned t
    \<and> task_lhs t = thin_id c a e \<and> task_rhs t = thin_id c a e"
  using assms by (simp add: law_task_fields_def thin_compose_ids [OF spec] Let_def)

lemma composable_triple_ok:
  assumes spec: "thin_spec n c" and n: "0 < n" "n \<le> usize_max"
  shows "\<exists>a b d e. fst (composable_triple c rng) = Returned (thin_id c a b, thin_id c b d, thin_id c d e)
    \<and> a \<le> b \<and> b \<le> d \<and> d \<le> e \<and> e < n"
proof -
  obtain p rng' where p: "monotone_object_path n 4 rng = (p, rng')" by fastforce
  have ok: "object_path_ok n p" "length p = 4" using monotone_object_path_ok [OF n, of 4 rng] p by auto
  have "p ! 0 \<le> p ! 1" "p ! 1 \<le> p ! 2" "p ! 2 \<le> p ! 3" "p ! 3 < n"
    using ok by (auto simp: object_path_ok_def intro: sorted_nth_mono)
  moreover have "fst (composable_triple c rng)
      = Returned (thin_id c (p ! 0) (p ! 1), thin_id c (p ! 1) (p ! 2), thin_id c (p ! 2) (p ! 3))"
    using p ok(2) thin_dims(1) [OF spec] calculation thin_id_props(3) [OF spec]
    by (simp add: composable_triple_def Let_def numeral_2_eq_2 numeral_3_eq_3)
  ultimately show ?thesis by blast
qed

lemma shift_image:
  assumes spec: "thin_spec n c" and "0 < n" and f: "shift_spec n shift c f" and "s \<le> t" "t < n"
  shows "nth_opt (fun_morphism_map f) (thin_id c s t)
    = Some (thin_id c (shift_object n shift s) (shift_object n shift t))"
  using shift_spec_nth(2,4) [OF f] thin_id_props(1,2) [OF spec assms(4,5)] by simp

lemma functor_task_fields_ok:
  assumes spec: "thin_spec n c" and n: "0 < n" and f: "shift_spec n shift c f"
    and p: "object_path_ok n p" "2 \<le> length p"
  shows "\<exists>t k. functor_task_fields c (arrow_path c p) f = Returned t
    \<and> task_lhs t = k \<and> task_rhs t = k \<and> k < length (thin_morphisms c) \<and> task_functor t = Some f"
proof -
  have p0: "arrow_path c p ! 0 = thin_id c (p ! 0) (p ! 1)" "0 < length (arrow_path c p)" "p ! 0 \<le> p ! 1" "p ! 1 < n"
    using arrow_path_nth [OF spec p(1), of 0] p(2) by simp_all
  obtain q where q: "p ! 1 \<le> q" "q < n" and second:
    "(case nth_opt (arrow_path c p) 1 of Some second \<Rightarrow> Returned second
      | None \<Rightarrow> outcome_bind (expect (nth_opt (thin_morphisms c) (thin_id c (p ! 0) (p ! 1))))
          (\<lambda>m. expect (nth_opt (thin_identities c) (mor_target m)))) = Returned (thin_id c (p ! 1) q)"
  proof (cases "2 < length p")
    case True
    then show ?thesis
      using that [of "p ! 2"] arrow_path_nth [OF spec p(1), of 1] by (simp add: numeral_2_eq_2)
  next
    case False
    then have "nth_opt (arrow_path c p) 1 = None" by (simp add: nth_opt_def arrow_path_def)
    then show ?thesis
      using that [of "p ! 1"] p0 thin_id_props(1,2) [OF spec p0(3,4)] thin_identities_nth [OF spec p0(4)]
        thin_dims(1) [OF spec] by simp
  qed
  let ?F = "shift_object n shift"
  have "compose_pair (thin_composition c) (thin_id c (p ! 0) (p ! 1)) (thin_id c (p ! 1) q) = Some (thin_id c (p ! 0) q)"
    "compose_pair (thin_composition c) (thin_id c (?F (p ! 0)) (?F (p ! 1))) (thin_id c (?F (p ! 1)) (?F q))
      = Some (thin_id c (?F (p ! 0)) (?F q))"
    using thin_compose_ids [OF spec] p0 q shift_object_mono shift_object_bound [OF n] by simp_all
  moreover have "p ! 0 \<le> q" using p0 q by simp
  moreover have "thin_id c (?F (p ! 0)) (?F q) < length (thin_morphisms c)"
    using thin_id_props(1) [OF spec shift_object_mono shift_object_bound [OF n]] \<open>p ! 0 \<le> q\<close> by blast
  moreover have "nth_opt (fun_morphism_map f) (thin_id c (p ! 0) q) = Some (thin_id c (?F (p ! 0)) (?F q))"
    "nth_opt (fun_morphism_map f) (thin_id c (p ! 0) (p ! 1)) = Some (thin_id c (?F (p ! 0)) (?F (p ! 1)))"
    "nth_opt (fun_morphism_map f) (thin_id c (p ! 1) q) = Some (thin_id c (?F (p ! 1)) (?F q))"
    using shift_image [OF spec n f] p0 q \<open>p ! 0 \<le> q\<close> by blast+
  moreover have "expect (nth_opt (arrow_path c p) 0) = Returned (thin_id c (p ! 0) (p ! 1))"
    using p0 by simp
  ultimately show ?thesis
    unfolding functor_task_fields_def Let_def by (simp only: outcome_bind.simps second) simp
qed

lemma naturality_task_fields_ok:
  assumes spec: "thin_spec n c" and n: "0 < n" "n \<le> usize_max" and f: "shift_spec n shift c f"
    and p: "object_path_ok n p" "2 \<le> length p"
  shows "\<exists>t k sq. naturality_task_fields c (arrow_path c p) f = Returned t
    \<and> task_lhs t = k \<and> task_rhs t = k \<and> k < length (thin_morphisms c)
    \<and> task_functor t = Some f \<and> task_naturality t = Some sq
    \<and> naturality_commutes (thin_morphisms c) (thin_composition c) f sq"
proof -
  let ?F = "shift_object n shift" and ?ms = "thin_morphisms c"
  have p0: "arrow_path c p ! 0 = thin_id c (p ! 0) (p ! 1)" "0 < length (arrow_path c p)" "p ! 0 \<le> p ! 1" "p ! 1 < n"
    using arrow_path_nth [OF spec p(1), of 0] p(2) by simp_all
  have p0n: "p ! 0 < n" using p0 by simp
  have above: "\<And>x. x < n \<Longrightarrow> x \<le> ?F x" using shift_object_above n by blast
  have comps: "outcome_map (\<lambda>object. outcome_bind (expect (nth_opt (fun_object_map f) object))
      (\<lambda>image. entry_at (thin_morphism_id c) object image)) [0..<length (thin_identities c)]
      = Returned (map (\<lambda>x. thin_id c x (?F x)) [0..<n])"
    unfolding thin_dims(1) [OF spec]
  proof (rule outcome_map_Returned)
    fix x assume "x \<in> set [0..<n]"
    then have "x < n" by simp
    then show "outcome_bind (expect (nth_opt (fun_object_map f) x)) (\<lambda>image. entry_at (thin_morphism_id c) x image)
        = Returned (thin_id c x (?F x))"
      using thin_id_props(3) [OF spec above shift_object_bound [OF n(1)]] shift_spec_nth(1,3) [OF f] by simp
  qed
  obtain fs where path: "arrow_path c p = thin_id c (p ! 0) (p ! 1) # fs"
    using p0(1,2) by (cases "arrow_path c p") auto
  have m: "thin_id c (p ! 0) (p ! 1) < length ?ms" "?ms ! thin_id c (p ! 0) (p ! 1) = thin_arrow (p ! 0) (p ! 1)"
    using thin_id_props(1,2) [OF spec p0(3,4)] by simp_all
  have Fle: "?F (p ! 0) \<le> ?F (p ! 1)" "?F (p ! 1) < n" using shift_object_mono p0 shift_object_bound n by blast+
  note comp = thin_compose_ids [OF spec above [OF p0n] Fle] thin_compose_ids [OF spec p0(3) above [OF p0(4)] Fle(2)]
  have F0: "?F (p ! 0) < n" using Fle by simp
  note src = thin_id_props(1,2) [OF spec above [OF p0n] F0]
  note img = thin_id_props(1,2) [OF spec Fle]
  note tgt = thin_id_props(1,2) [OF spec above [OF p0(4)] Fle(2)]
  have k: "thin_id c (p ! 0) (?F (p ! 1)) < length ?ms"
    using thin_id_props(1) [OF spec _ Fle(2)] p0(3) above [OF p0(4)] by (meson le_trans)
  let ?sq = "\<lparr> nat_source_morphism = thin_id c (p ! 0) (p ! 1),
      nat_left_path = [thin_id c (p ! 0) (?F (p ! 0)), thin_id c (?F (p ! 0)) (?F (p ! 1))],
      nat_right_path = [thin_id c (p ! 0) (p ! 1), thin_id c (p ! 1) (?F (p ! 1))] \<rparr>"
  have image: "fun_morphism_map f ! thin_id c (p ! 0) (p ! 1) = thin_id c (?F (p ! 0)) (?F (p ! 1))"
    using shift_spec_nth(2) [OF f m(1)] m(2) by simp
  have "natural_square ?ms (thin_composition c) f (thin_id c (p ! 0) (p ! 1))
      (thin_id c (p ! 0) (?F (p ! 0))) (thin_id c (p ! 1) (?F (p ! 1)))"
    using m src tgt comp image shift_spec_nth(1) [OF f p0n] shift_spec_nth(1) [OF f p0(4)]
    by (simp add: natural_square_def)
  then have "naturality_commutes ?ms (thin_composition c) f ?sq"
    unfolding naturality_commutes_iff [OF thin_category_laws [OF spec n(1)] shift_functor_laws [OF spec n(1) f]]
    using image by simp
  moreover have "nth_opt (fun_morphism_map f) (thin_id c (p ! 0) (p ! 1)) = Some (thin_id c (?F (p ! 0)) (?F (p ! 1)))"
    by (rule shift_image [OF spec n(1) f p0(3,4)])
  ultimately show ?thesis
    using comps path m src img tgt comp k p0n p0(4)
    by (simp add: naturality_task_fields_def Let_def)
qed

section \<open>Every sample is complete and accepted\<close>

lemma category_task_cases:
  "category_task task = ComposeCategoryPath \<or> category_task task = VerifyCategoryLaw
   \<or> category_task task = VerifyFunctorPreservation \<or> category_task task = VerifyNaturalitySquare"
  by (auto simp: category_task_def)

definition task_fields_ok :: "ruliad_task_kind \<Rightarrow> thin_category \<Rightarrow> nat \<Rightarrow> category_task_fields \<Rightarrow> bool" where
  "task_fields_ok task c n t \<longleftrightarrow>
     task_lhs t = task_rhs t \<and> task_rhs t < length (thin_morphisms c)
     \<and> (task \<in> {VerifyFunctorPreservation, VerifyNaturalitySquare} \<longrightarrow>
          (\<exists>f. task_functor t = Some f
             \<and> functor_laws n (thin_morphisms c) (thin_identities c) (thin_composition c) f
             \<and> (task = VerifyNaturalitySquare \<longrightarrow>
                  (\<exists>sq. task_naturality t = Some sq
                     \<and> naturality_commutes (thin_morphisms c) (thin_composition c) f sq))))"

lemma generated_task_fields_ok:
  assumes spec: "thin_spec n c" and n: "0 < n" "n \<le> usize_max"
    and p: "object_path_ok n p" "2 \<le> length p" and "composed < length (thin_morphisms c)"
  shows "\<exists>t. fst (generated_category_task_fields (category_task task) c (arrow_path c p) composed rng) = Returned t
    \<and> task_fields_ok (category_task task) c n t"
proof -
  obtain shift rng' where shift: "range_usize 0 (length (thin_identities c) - 1) rng = (shift, rng')" by fastforce
  obtain f where f: "shift_functor c shift = Returned f" "shift_spec n shift c f"
    using shift_functor_spec [OF spec n(1)] by blast
  note laws = shift_functor_laws [OF spec n(1) f(2)]
  consider "category_task task = ComposeCategoryPath" | "category_task task = VerifyCategoryLaw"
    | "category_task task = VerifyFunctorPreservation" | "category_task task = VerifyNaturalitySquare"
    using category_task_cases by blast
  then show ?thesis
  proof cases
    case 1
    then show ?thesis using assms(6) by (simp add: generated_category_task_fields_def task_fields_ok_def)
  next
    case 2
    obtain a b d e where t: "fst (composable_triple c rng) = Returned (thin_id c a b, thin_id c b d, thin_id c d e)"
      "a \<le> b" "b \<le> d" "d \<le> e" "e < n" using composable_triple_ok [OF spec n] by blast
    have "thin_id c a e < length (thin_morphisms c)" using thin_id_props(1) [OF spec] t by simp
    then show ?thesis
      using 2 t law_task_fields_ok [OF spec t(2-5)]
      by (auto simp: generated_category_task_fields_def task_fields_ok_def case_prod_beta)
  next
    case 3
    then show ?thesis
      using functor_task_fields_ok [OF spec n(1) f(2) p] laws f(1) shift
      by (auto simp: generated_category_task_fields_def generated_shift_functor_def task_fields_ok_def)
  next
    case 4
    then show ?thesis
      using naturality_task_fields_ok [OF spec n f(2) p] laws f(1) shift
      by (auto simp: generated_category_task_fields_def generated_shift_functor_def task_fields_ok_def)
  qed
qed

definition width_ok :: "usize_range option \<Rightarrow> bool" where
  "width_ok limits \<longleftrightarrow>
     (case limits of None \<Rightarrow> True | Some r \<Rightarrow> 1 \<le> range_min r \<and> range_min r \<le> range_max r \<and> range_max r \<le> usize_max)"

lemma range_or_width:
  assumes "width_ok limits"
  shows "0 < fst (range_or limits 3 7 rng) \<and> fst (range_or limits 3 7 rng) \<le> usize_max"
proof (cases limits)
  case None
  then show ?thesis using range_usize_bounds [of 3 7 rng] by (simp add: range_or_def usize_max_def)
next
  case (Some r)
  then have r: "1 \<le> range_min r" "range_min r \<le> range_max r" "range_max r \<le> usize_max"
    using assms by (simp_all add: width_ok_def)
  then have "range_max r - range_min r < usize_max" by (simp add: usize_max_def)
  from range_usize_bounds [OF r(2) this, of rng] show ?thesis using r Some by (simp add: range_or_def)
qed

lemma accepted_category_sample:
  assumes laws: "category_laws (spec_object_count s) (spec_morphisms s) (spec_identities s) (spec_composition s)"
    and "compose_path (spec_morphisms s) (spec_composition s) (spec_path s) = Some (spec_composed s)"
    and "spec_lhs s = spec_rhs s" "spec_holds s" "spec_rhs s < length (spec_morphisms s)"
    and "spec_task s = ComposeCategoryPath \<or> spec_task s = VerifyCategoryLaw
       \<or> (\<exists>f. spec_functor s = Some f
            \<and> functor_laws (spec_object_count s) (spec_morphisms s) (spec_identities s) (spec_composition s) f
            \<and> (spec_task s = VerifyFunctorPreservation
               \<or> (spec_task s = VerifyNaturalitySquare
                  \<and> (\<exists>sq. spec_naturality s = Some sq
                       \<and> naturality_commutes (spec_morphisms s) (spec_composition s) f sq))))"
  shows "category_sample_ok s = Some True"
proof -
  have "spec_composed s < length (spec_morphisms s)" using compose_path_Some(1) [OF laws assms(2)] .
  moreover have "category_task_ok s = Some True"
    using assms(2-4,6) valid_functor_eq [OF laws] by (auto simp: category_task_ok_def Let_def)
  ultimately show ?thesis
    using assms(3-5) laws by (simp add: category_sample_ok_def valid_category_iff)
qed

lemma generated_sample_accepted:
  assumes "width_ok (family_width family)"
  shows "\<exists>s. fst (generate_category_fields family task rng) = Returned s
    \<and> category_sample_ok s = Some True \<and> spec_lhs s = spec_rhs s"
proof -
  obtain n rng1 where n: "range_or (family_width family) 3 7 rng = (n, rng1)" by fastforce
  then have n0: "0 < n" "n \<le> usize_max" using range_or_width [OF assms, of rng] by simp_all
  obtain c where c: "generated_thin_category n = Returned c" "thin_spec n c"
    using generated_thin_category_spec by blast
  obtain k rng2 where k: "range_or (family_steps family) 3 6 rng1 = (k, rng2)" by fastforce
  obtain p rng3 where p: "monotone_object_path n (max k 2) rng2 = (p, rng3)" by fastforce
  have pok: "object_path_ok n p" "2 \<le> length p"
    using monotone_object_path_ok [OF n0, of "max k 2" rng2] p by auto
  note laws = thin_category_laws [OF c(2) n0(1)]
  obtain m where m: "compose_path (thin_morphisms c) (thin_composition c) (arrow_path c p) = Some m"
    using arrow_path_composes [OF c(2) pok n0(1)] by blast
  have mlen: "m < length (thin_morphisms c)" using compose_path_Some(1) [OF laws m] .
  obtain t where t: "fst (generated_category_task_fields (category_task task) c (arrow_path c p) m rng3) = Returned t"
    "task_fields_ok (category_task task) c n t"
    using generated_task_fields_ok [OF c(2) n0 pok mlen] by blast
  obtain rng4 where gen: "generated_category_task_fields (category_task task) c (arrow_path c p) m rng3 = (Returned t, rng4)"
    using t(1) by (metis prod.collapse)
  let ?s = "\<lparr> spec_object_count = n, spec_morphisms = thin_morphisms c,
      spec_identities = thin_identities c, spec_composition = thin_composition c,
      spec_path = arrow_path c p, spec_composed = m, spec_lhs = task_lhs t,
      spec_rhs = task_rhs t, spec_holds = (task_lhs t = task_rhs t),
      spec_proof_steps = task_proof_steps t, spec_functor = task_functor t,
      spec_naturality = task_naturality t, spec_task = category_task task \<rparr>"
  have "fst (generate_category_fields family task rng) = Returned ?s"
    using n c(1) k p m gen object_path_arrows_ok(1) [OF c(2) pok]
    by (simp add: generate_category_fields_def)
  moreover have "category_sample_ok ?s = Some True"
    using t(2) laws m category_task_cases [of task]
    by (intro accepted_category_sample) (auto simp: task_fields_ok_def)
  moreover have "spec_lhs ?s = spec_rhs ?s" using t(2) by (simp add: task_fields_ok_def)
  ultimately show ?thesis by blast
qed

end
