(* ===== verification/Ruliad_Category_Properties.thy ===== *)
theory Ruliad_Category_Properties
  imports Ruliad_Category_Gen
begin

text \<open>
  The properties of the finite categories of \<open>ruliad/category.rs\<close> and of the check of a
  category sample in \<open>ruliad/oracles.rs\<close>. They are instantiated on the terminal category: one
  object and its identity.
\<close>

definition unit_arrow :: category_morphism where
  "unit_arrow = \<lparr> mor_name = ''m'', mor_source = 0, mor_target = 0, mor_identity = True \<rparr>"

definition unit_functor :: category_functor where
  "unit_functor = \<lparr> fun_name = ''i'', fun_object_map = [0], fun_morphism_map = [0] \<rparr>"

lemma unit_arrow_simps [simp]:
  "mor_source unit_arrow = 0" "mor_target unit_arrow = 0" "mor_identity unit_arrow" "str_trim (mor_name unit_arrow) \<noteq> []"
  "\<not> has_white_space (mor_name unit_arrow)" "fun_object_map unit_functor = [0]" "fun_morphism_map unit_functor = [0]"
  by (simp_all add: unit_arrow_def unit_functor_def str_trim_graphic_all graphic_no_white_space graphic_def del: has_white_space.simps)

lemma unit_category: "category_laws (Suc 0) [unit_arrow] [0] [[Some 0]]"
proof -
  have "valid_finite_category (Suc 0) [unit_arrow] [0] [[Some 0]]"
    by (simp add: valid_finite_category_def category_shape_ok_def morphism_ok_def identity_ok_def composition_entry_ok_def
        units_ok_def associative_at_def compose_pair_def)
  then show ?thesis by (simp only: valid_category_iff)
qed

lemma unit_functor_laws: "functor_laws (Suc 0) [unit_arrow] [0] [[Some 0]] unit_functor"
proof -
  have "valid_functor (Suc 0) [unit_arrow] [0] [[Some 0]] unit_functor = Some True"
    by (simp add: valid_functor_def functor_shape_ok_def functor_morphism_ok_def functor_identity_ok_def functor_entry_ok_def compose_pair_def)
  then show ?thesis by (simp add: valid_functor_eq [OF unit_category])
qed

section \<open>The checkers\<close>

text \<open>C4: the category checker decides the laws. It accepts exactly the tables that form a finite category:
  arrows between objects with printable names, one identity per object, a composite exactly for
  the pairs that meet and with the right ends, unit laws and associativity.\<close>
theorem category_checker_decides_the_laws:
  "valid_finite_category n ms ids table \<longleftrightarrow> category_laws n ms ids table"
  by (rule valid_category_iff)

text \<open>Composing a path. In a lawful category a path has a composite exactly when it is a non-empty list
  of arrows that meet; the composite runs from the source of the first arrow to the target of
  the last, and is the composite of the composites of any two parts of the path.\<close>
theorem path_composition_is_lawful:
  assumes "category_laws n ms ids table"
  shows "((\<exists>k. compose_path ms table p = Some k) \<longleftrightarrow> p \<noteq> [] \<and> set p \<subseteq> arrow_set ms \<and> composable ms p)
    \<and> (\<forall>k. compose_path ms table p = Some k \<longrightarrow>
        k < length ms \<and> arrow_source ms k = arrow_source ms (hd p) \<and> arrow_target ms k = arrow_target ms (last p)
        \<and> (\<forall>p1 p2. p = p1 @ p2 \<longrightarrow> p1 \<noteq> [] \<longrightarrow> p2 \<noteq> [] \<longrightarrow>
            (\<exists>i j. compose_path ms table p1 = Some i \<and> compose_path ms table p2 = Some j
               \<and> compose_pair table i j = Some k)))"
proof (intro conjI allI impI)
  show "(\<exists>k. compose_path ms table p = Some k) \<longleftrightarrow> p \<noteq> [] \<and> set p \<subseteq> arrow_set ms \<and> composable ms p"
    by (rule compose_path_defined [OF assms])
next
  fix k assume k: "compose_path ms table p = Some k"
  show "k < length ms" "arrow_source ms k = arrow_source ms (hd p)" "arrow_target ms k = arrow_target ms (last p)"
    by (rule compose_path_Some [OF assms k])+
  fix p1 p2 assume "p = p1 @ p2" "p1 \<noteq> []" "p2 \<noteq> []"
  then show "\<exists>i j. compose_path ms table p1 = Some i \<and> compose_path ms table p2 = Some j
      \<and> compose_pair table i j = Some k"
    using compose_path_append [OF assms] k by blast
qed

theorem path_composition_is_lawful_witness: "\<exists>k. compose_path [unit_arrow] [[Some 0]] [0, 0] = Some k"
  using path_composition_is_lawful [OF unit_category, of "[0, 0]"] by (simp add: unit_arrow_def del: compose_path.simps)

text \<open>On a lawful category the functor check never panics, and decides the functor laws: the maps
  stay in range and preserve ends, identities and composites.\<close>
theorem functor_checker_decides_the_laws:
  assumes "category_laws n ms ids table"
  shows "valid_functor n ms ids table f = Some (functor_laws n ms ids table f)"
  using assms by (rule valid_functor_eq)

theorem functor_checker_decides_the_laws_witness:
  "valid_functor (Suc 0) [unit_arrow] [0] [[Some 0]] unit_functor = Some True"
  by (simp add: functor_checker_decides_the_laws [OF unit_category] unit_functor_laws)

text \<open>A functor preserves composites of whole paths: the image of a path composes to the image of its
  composite.\<close>
theorem functor_preserves_composites:
  assumes "category_laws n ms ids table" and "functor_laws n ms ids table f"
    and "compose_path ms table p = Some k"
  shows "compose_path ms table (map (\<lambda>i. fun_morphism_map f ! i) p) = Some (fun_morphism_map f ! k)"
  using assms by (rule functor_preserves_path)

theorem functor_preserves_composites_witness:
  "compose_path [unit_arrow] [[Some 0]] (map (\<lambda>i. fun_morphism_map unit_functor ! i) [0, 0])
     = Some (fun_morphism_map unit_functor ! 0)"
  by (rule functor_preserves_composites [OF unit_category unit_functor_laws]) code_simp

text \<open>The naturality check accepts exactly the two paths around a square of the functor at the given
  arrow: components at its two ends with the right ends, and equal composites.\<close>
theorem naturality_checker_decides_squares:
  assumes "category_laws n ms ids table" and "functor_laws n ms ids table f"
  shows "naturality_commutes ms table f sq \<longleftrightarrow>
    (\<exists>at_source at_target.
       nat_left_path sq = [at_source, fun_morphism_map f ! nat_source_morphism sq]
       \<and> nat_right_path sq = [nat_source_morphism sq, at_target]
       \<and> natural_square ms table f (nat_source_morphism sq) at_source at_target)"
  using assms by (rule naturality_commutes_iff)

theorem naturality_checker_decides_squares_witness:
  "naturality_commutes [unit_arrow] [[Some 0]] unit_functor
     \<lparr> nat_source_morphism = 0, nat_left_path = [0, 0], nat_right_path = [0, 0] \<rparr>"
  by (rule iffD2 [OF naturality_checker_decides_squares [OF unit_category unit_functor_laws]])
    (simp add: natural_square_def unit_arrow_def unit_functor_def)

section \<open>Samples\<close>

text \<open>Every generated sample is right. For every configuration whose width range is non-empty and
  positive, every task and every state of the generator, generation returns a sample without a
  panic or an error, its two sides are equal, and the oracle accepts it.\<close>
theorem generated_category_samples_are_accepted:
  assumes "width_ok (family_width family)"
  shows "\<exists>s. fst (generate_category_fields family task rng) = Returned s
    \<and> category_sample_ok s = Some True \<and> spec_lhs s = spec_rhs s"
  using assms by (rule generated_sample_accepted)

theorem generated_category_samples_are_accepted_witness:
  "\<exists>s. fst (generate_category_fields \<lparr> family_kind = FamilyCategory, family_weight = 1, family_width = None,
      family_steps = None \<rparr> VerifyNaturalitySquare (split_mix64_new 0)) = Returned s
    \<and> category_sample_ok s = Some True \<and> spec_lhs s = spec_rhs s"
  by (rule generated_category_samples_are_accepted) (simp add: width_ok_def)

text \<open>The oracle panics on a malformed sample. It checks the functor before the category, and the functor
  check indexes its arrow map by the entries of the composition table without a bound: one entry
  out of range, in a sample the category checker would refuse, is an out-of-bounds read.\<close>
theorem oracle_panics_on_a_malformed_sample:
  "\<exists>s. \<not> valid_finite_category (spec_object_count s) (spec_morphisms s) (spec_identities s) (spec_composition s)
     \<and> category_sample_ok s = None"
proof (intro exI conjI)
  let ?s = "\<lparr> spec_object_count = 1, spec_morphisms = [unit_arrow], spec_identities = [0],
     spec_composition = [[Some 1]], spec_path = [0], spec_composed = 0, spec_lhs = 0, spec_rhs = 0,
     spec_holds = True, spec_proof_steps = [], spec_functor = Some unit_functor, spec_naturality = None,
     spec_task = VerifyFunctorPreservation \<rparr>"
  show "\<not> valid_finite_category (spec_object_count ?s) (spec_morphisms ?s) (spec_identities ?s) (spec_composition ?s)"
    by (simp add: valid_finite_category_def category_shape_ok_def composition_entry_ok_def nth_opt_def)
  show "category_sample_ok ?s = None"
    by (simp add: category_sample_ok_def category_task_ok_def valid_functor_def functor_shape_ok_def functor_morphism_ok_def functor_identity_ok_def
        functor_entry_ok_def compose_pair_def nth_opt_def)
qed

end
