(* ===== verification/Ruliad_Formal.thy ===== *)
theory Ruliad_Formal
  imports Ruliad_Kernel Ruliad_Rng "HOL-Library.Char_ord" "HOL-Library.List_Lexorder"
begin

text \<open>
  The proof generator of \<open>ruliad/formal.rs\<close>: the domain theories and their laws, the leaf goals
  (an atom wrapped by a drawn sequence of laws inside a context), the composition goals that join
  them into one root, alpha renaming of the whole bundle, and the final replay that guards what is
  returned. A \<open>BTreeSet<String>\<close> is a set, iterated in byte order; a \<open>BTreeMap\<close> is a map whose
  index expression panics on a missing key.
\<close>

section \<open>Configuration\<close>

datatype generation_split = SharedSplit | StructuralTrainV1 | StructuralValidationV1

fun generation_split_label :: "generation_split \<Rightarrow> string" where
  "generation_split_label SharedSplit = ''seed_disjoint_v1''"
| "generation_split_label StructuralTrainV1 = ''structural_train_v1''"
| "generation_split_label StructuralValidationV1 = ''structural_validation_v1''"

fun alpha_renamed :: "generation_split \<Rightarrow> bool" where
  "alpha_renamed SharedSplit = False"
| "alpha_renamed _ = True"

record formal_config =
  fc_domain :: "ruliad_formal_domain option"
  fc_rewrite_depth :: nat
  fc_leaf_count :: nat
  fc_context_depth :: nat
  fc_distractor_axioms :: nat
  fc_generation_split :: generation_split

definition default_formal_config :: formal_config where
  "default_formal_config =
     \<lparr> fc_domain = None, fc_rewrite_depth = 4, fc_leaf_count = 4, fc_context_depth = 2,
       fc_distractor_axioms = 3, fc_generation_split = SharedSplit \<rparr>"

text \<open>\<open>usize::BITS - n.leading_zeros()\<close>.\<close>

definition significant_bits :: "nat \<Rightarrow> nat" where
  "significant_bits n = (if n = 0 then 0 else ilog2 n + 1)"

definition for_difficulty :: "nat \<Rightarrow> formal_config" where
  "for_difficulty level =
     (let coordinate = sat_add level 1;
          depth_bits = significant_bits coordinate;
          dependency_bits = significant_bits (coordinate div 2 + 1)
      in \<lparr> fc_domain = None,
           fc_rewrite_depth = sat_add 2 depth_bits,
           fc_leaf_count = max 2 (min 4096 (2 ^ min dependency_bits 12)),
           fc_context_depth = sat_add 1 (depth_bits div 2),
           fc_distractor_axioms = sat_add depth_bits (dependency_bits div 2),
           fc_generation_split = SharedSplit \<rparr>)"

section \<open>Domain theories\<close>

datatype domain_law_shape =
  LeftUnit string string
| RightUnit string string
| CancelPair string string

record domain_law =
  law_id :: string
  law_shape :: domain_law_shape

fun wrap_shape :: "domain_law_shape \<Rightarrow> ruliad_term \<Rightarrow> ruliad_term" where
  "wrap_shape (LeftUnit operator unit) t = Apply operator [Atom unit, t]"
| "wrap_shape (RightUnit operator unit) t = Apply operator [t, Atom unit]"
| "wrap_shape (CancelPair outer inner) t = Apply outer [Apply inner [t]]"

definition law_wrap :: "domain_law \<Rightarrow> ruliad_term \<Rightarrow> ruliad_term" where
  "law_wrap law t = wrap_shape (law_shape law) t"

definition law_axiom :: "domain_law \<Rightarrow> rewrite_axiom" where
  "law_axiom law =
     \<lparr> ax_id = law_id law, ax_lhs = law_wrap law (Variable 0), ax_rhs = Variable 0 \<rparr>"

record domain_theory =
  dt_name :: string
  dt_atom :: string
  dt_context :: string
  dt_combine :: string
  dt_laws :: "domain_law list"

definition derived_distractor :: "domain_theory \<Rightarrow> nat \<Rightarrow> domain_law list \<Rightarrow> rewrite_axiom" where
  "derived_distractor dt index selected_laws =
     (if index = 0 then
        (let x = Variable 0; y = Variable 1; z = Variable 2; combine = dt_combine dt in
         \<lparr> ax_id = ''aux_assoc'',
           ax_lhs = Apply combine [Apply combine [x, y], z],
           ax_rhs = Apply combine [x, Apply combine [y, z]] \<rparr>)
      else
        \<lparr> ax_id = ''aux_derived_'' @ show_nat index,
          ax_lhs = foldl (\<lambda>t law_index. law_wrap (selected_laws ! (law_index mod length selected_laws)) t)
                     (Variable 0) [0..<Suc index],
          ax_rhs = Variable 0 \<rparr>)"

definition equational_laws :: "domain_law list" where
  "equational_laws =
     [\<lparr> law_id = ''add_zero_left'', law_shape = LeftUnit ''add'' ''zero'' \<rparr>,
      \<lparr> law_id = ''mul_one_right'', law_shape = RightUnit ''mul'' ''one'' \<rparr>,
      \<lparr> law_id = ''double_negation'', law_shape = CancelPair ''neg'' ''neg'' \<rparr>]"

definition category_domain_laws :: "domain_law list" where
  "category_domain_laws =
     [\<lparr> law_id = ''identity_left'', law_shape = LeftUnit ''compose'' ''identity'' \<rparr>,
      \<lparr> law_id = ''identity_right'', law_shape = RightUnit ''compose'' ''identity'' \<rparr>]"

definition logic_laws :: "domain_law list" where
  "logic_laws =
     [\<lparr> law_id = ''and_top'', law_shape = LeftUnit ''and'' ''top'' \<rparr>,
      \<lparr> law_id = ''or_bottom'', law_shape = LeftUnit ''or'' ''bottom'' \<rparr>,
      \<lparr> law_id = ''double_negation'', law_shape = CancelPair ''not'' ''not'' \<rparr>]"

definition automata_laws :: "domain_law list" where
  "automata_laws =
     [\<lparr> law_id = ''epsilon_prefix'', law_shape = LeftUnit ''concat'' ''epsilon'' \<rparr>,
      \<lparr> law_id = ''empty_union'', law_shape = LeftUnit ''union'' ''empty_language'' \<rparr>,
      \<lparr> law_id = ''encode_decode'', law_shape = CancelPair ''decode_state'' ''encode_state'' \<rparr>]"

definition process_laws :: "domain_law list" where
  "process_laws =
     [\<lparr> law_id = ''nil_parallel'', law_shape = LeftUnit ''parallel'' ''nil'' \<rparr>,
      \<lparr> law_id = ''nil_choice'', law_shape = LeftUnit ''choice'' ''nil'' \<rparr>,
      \<lparr> law_id = ''quote_eval'', law_shape = CancelPair ''unquote'' ''quote'' \<rparr>]"

definition metagraph_laws :: "domain_law list" where
  "metagraph_laws =
     [\<lparr> law_id = ''empty_merge'', law_shape = LeftUnit ''merge'' ''empty_graph'' \<rparr>,
      \<lparr> law_id = ''empty_overlay'', law_shape = LeftUnit ''overlay'' ''empty_graph'' \<rparr>,
      \<lparr> law_id = ''quote_unquote'', law_shape = CancelPair ''unquote_atom'' ''quote_atom'' \<rparr>]"

fun theory_of_domain :: "ruliad_formal_domain \<Rightarrow> domain_theory" where
  "theory_of_domain Equational =
     \<lparr> dt_name = ''equational_monoid_normalization'', dt_atom = ''a'',
       dt_context = ''equational_context'', dt_combine = ''conjoin_equalities'',
       dt_laws = equational_laws \<rparr>"
| "theory_of_domain Category =
     \<lparr> dt_name = ''free_category_path_normalization'', dt_atom = ''morphism'',
       dt_context = ''functor_map'', dt_combine = ''conjoin_diagrams'',
       dt_laws = category_domain_laws \<rparr>"
| "theory_of_domain Logic =
     \<lparr> dt_name = ''propositional_normalization'', dt_atom = ''prop'',
       dt_context = ''under_assumption'', dt_combine = ''conjoin'', dt_laws = logic_laws \<rparr>"
| "theory_of_domain Automata =
     \<lparr> dt_name = ''regular_language_normalization'', dt_atom = ''language'',
       dt_context = ''left_quotient'', dt_combine = ''language_product'',
       dt_laws = automata_laws \<rparr>"
| "theory_of_domain Process =
     \<lparr> dt_name = ''rho_process_structural_congruence'', dt_atom = ''process'',
       dt_context = ''process_context'', dt_combine = ''parallel'', dt_laws = process_laws \<rparr>"
| "theory_of_domain Metagraph =
     \<lparr> dt_name = ''metagraph_pattern_rewriting'', dt_atom = ''atom'',
       dt_context = ''grounded_scope'', dt_combine = ''merge'', dt_laws = metagraph_laws \<rparr>"

definition selected_domain_laws :: "domain_theory \<Rightarrow> generation_split \<Rightarrow> domain_law list" where
  "selected_domain_laws dt split =
     (let laws = dt_laws dt in
      case split of
        SharedSplit \<Rightarrow> laws
      | StructuralTrainV1 \<Rightarrow> if 1 < length laws then take (length laws - 1) laws else laws
      | StructuralValidationV1 \<Rightarrow> if 1 < length laws then drop (length laws - 1) laws else laws)"

section \<open>Contexts and names\<close>

text \<open>\<open>{salt:08x}\<close>: lower-case hexadecimal, padded with zeros to eight places.\<close>

definition hex_char :: "nat \<Rightarrow> char" where
  "hex_char d = (if d < 10 then char_of (48 + d) else char_of (87 + d))"

fun show_hex :: "nat \<Rightarrow> string" where
  "show_hex n = (if n < 16 then [hex_char n] else show_hex (n div 16) @ [hex_char (n mod 16)])"

declare show_hex.simps [simp del]

definition show_salt :: "u64 \<Rightarrow> string" where
  "show_salt salt =
     (let digits = show_hex (unat salt) in replicate (8 - length digits) (CHR ''0'') @ digits)"

definition scope_atom :: "nat \<Rightarrow> u64 \<Rightarrow> ruliad_term" where
  "scope_atom index salt = Atom (''scope'' @ show_nat index @ ''_'' @ show_salt salt)"

fun wrap_holes :: "string \<Rightarrow> u64 \<Rightarrow> nat \<Rightarrow> nat list \<Rightarrow> ruliad_term \<Rightarrow> ruliad_term" where
  "wrap_holes context_name salt index [] t = t"
| "wrap_holes context_name salt index (hole # holes) t =
     (let scope = scope_atom index salt in
      wrap_holes context_name salt (Suc index) holes
        (Apply context_name (if hole = 0 then [t, scope] else [scope, t])))"

definition wrap_context :: "string \<Rightarrow> u64 \<Rightarrow> nat list \<Rightarrow> ruliad_term \<Rightarrow> ruliad_term" where
  "wrap_context context_name salt path t = wrap_holes context_name salt 0 (rev path) t"

section \<open>Leaf goals\<close>

type_synonym proof_draft = "proof_goal list \<times> goal_certificate list"

fun draw_indices :: "nat \<Rightarrow> nat \<Rightarrow> split_mix64 \<Rightarrow> nat list \<times> split_mix64" where
  "draw_indices bound 0 rng = ([], rng)"
| "draw_indices bound (Suc k) rng =
     (case next_index bound rng of (i, rng1) \<Rightarrow>
      (case draw_indices bound k rng1 of (is, rng2) \<Rightarrow> (i # is, rng2)))"

definition goal_name :: "nat \<Rightarrow> string" where
  "goal_name goal_index = ''g'' @ show_nat goal_index"

definition leaf_goal ::
    "domain_theory \<Rightarrow> u64 \<Rightarrow> domain_law list \<Rightarrow> nat list \<Rightarrow> nat \<Rightarrow> nat \<Rightarrow> proof_goal" where
  "leaf_goal dt salt proof_laws rewrite_path leaf goal_index =
     (let atom = Atom (dt_atom dt @ show_nat leaf @ ''_'' @ show_salt salt);
          reducible = foldl (\<lambda>t law. law_wrap law t) atom (rev proof_laws)
      in \<lparr> goal_id = goal_name goal_index, goal_dependencies = [],
           goal_claim = \<lparr> eq_lhs = wrap_context (dt_context dt) salt rewrite_path reducible,
                          eq_rhs = wrap_context (dt_context dt) salt rewrite_path atom \<rparr> \<rparr>)"

definition leaf_certificate :: "domain_law list \<Rightarrow> nat list \<Rightarrow> nat \<Rightarrow> goal_certificate" where
  "leaf_certificate proof_laws rewrite_path goal_index =
     \<lparr> gc_goal = goal_index,
       gc_steps = map (\<lambda>law. \<lparr> step_source = AxiomSource (law_id law), step_path = rewrite_path,
                               step_direction = Forward \<rparr>) proof_laws \<rparr>"

fun leaf_loop ::
    "domain_theory \<Rightarrow> u64 \<Rightarrow> domain_law list \<Rightarrow> formal_config \<Rightarrow> nat list \<Rightarrow> proof_draft \<Rightarrow> nat list
       \<Rightarrow> split_mix64 \<Rightarrow> proof_draft \<times> nat list \<times> split_mix64" where
  "leaf_loop dt salt selected config [] draft frontier rng = (draft, frontier, rng)"
| "leaf_loop dt salt selected config (leaf # leaves) (goals, certificates) frontier rng =
     (case draw_indices (length selected) (fc_rewrite_depth config) rng of (law_indices, rng1) \<Rightarrow>
      (case draw_indices 2 (fc_context_depth config) rng1 of (rewrite_path, rng2) \<Rightarrow>
       (let proof_laws = map (\<lambda>i. selected ! i) law_indices; goal_index = length goals in
        leaf_loop dt salt selected config leaves
          (goals @ [leaf_goal dt salt proof_laws rewrite_path leaf goal_index],
           certificates @ [leaf_certificate proof_laws rewrite_path goal_index])
          (frontier @ [goal_index]) rng2)))"

section \<open>Composition goals\<close>

definition lemma_step :: "nat \<Rightarrow> nat \<Rightarrow> proof_step" where
  "lemma_step goal position =
     \<lparr> step_source = LemmaSource goal, step_path = [position], step_direction = Forward \<rparr>"

definition append_composition_goal ::
    "domain_theory \<Rightarrow> proof_draft \<Rightarrow> nat \<Rightarrow> nat \<Rightarrow> (proof_draft \<times> nat) outcome" where
  "append_composition_goal dt draft left_goal right_goal =
     (case draft of (goals, certificates) \<Rightarrow>
      (case (if left_goal < right_goal then (left_goal, right_goal) else (right_goal, left_goal)) of
         (left, right) \<Rightarrow>
           (let goal_index = length goals in
            outcome_bind (expect (nth_opt goals left)) (\<lambda>l.
            outcome_bind (expect (nth_opt goals right)) (\<lambda>r.
              Returned
                ((goals @ [\<lparr> goal_id = goal_name goal_index, goal_dependencies = [left, right],
                     goal_claim =
                       \<lparr> eq_lhs = Apply (dt_combine dt) [eq_lhs (goal_claim l), eq_lhs (goal_claim r)],
                         eq_rhs = Apply (dt_combine dt) [eq_rhs (goal_claim l), eq_rhs (goal_claim r)] \<rparr> \<rparr>],
                  certificates @ [\<lparr> gc_goal = goal_index,
                     gc_steps = [lemma_step left 0, lemma_step right 1] \<rparr>]),
                 goal_index))))))"

fun compose_left ::
    "domain_theory \<Rightarrow> proof_draft \<Rightarrow> nat \<Rightarrow> nat list \<Rightarrow> (proof_draft \<times> nat) outcome" where
  "compose_left dt draft root [] = Returned (draft, root)"
| "compose_left dt draft root (right # rest) =
     outcome_bind (append_composition_goal dt draft root right)
       (\<lambda>(draft', root'). compose_left dt draft' root' rest)"

fun compose_chunks ::
    "domain_theory \<Rightarrow> proof_draft \<Rightarrow> nat list \<Rightarrow> nat list \<Rightarrow> (proof_draft \<times> nat list) outcome" where
  "compose_chunks dt draft [] next_frontier = Returned (draft, next_frontier)"
| "compose_chunks dt draft [single] next_frontier = Returned (draft, next_frontier @ [single])"
| "compose_chunks dt draft (left # right # rest) next_frontier =
     outcome_bind (append_composition_goal dt draft left right)
       (\<lambda>(draft', goal). compose_chunks dt draft' rest (next_frontier @ [goal]))"

lemma compose_chunks_length:
  "compose_chunks dt draft frontier next_frontier = Returned (draft', result) \<Longrightarrow>
     length result = length next_frontier + (length frontier + 1) div 2"
  by (induction dt draft frontier next_frontier rule: compose_chunks.induct)
    (auto simp: outcome_bind_Returned)

lemma length_shuffle [simp]: "length (fst (shuffle vals rng)) = length vals"
  by (simp add: shuffle_def split_mix.length_shuffle_loop)

function compose_balanced ::
    "domain_theory \<Rightarrow> bool \<Rightarrow> proof_draft \<Rightarrow> nat list \<Rightarrow> split_mix64
       \<Rightarrow> (proof_draft \<times> nat list \<times> split_mix64) outcome" where
  "compose_balanced dt shuffled draft frontier rng =
     (if 1 < length frontier then
        (case (if shuffled then shuffle frontier rng else (frontier, rng)) of
           (frontier1, rng1) \<Rightarrow>
             (case compose_chunks dt draft frontier1 [] of
                Panicked \<Rightarrow> Panicked
              | Failed e \<Rightarrow> Failed e
              | Returned (draft', next_frontier) \<Rightarrow>
                  compose_balanced dt shuffled draft' next_frontier rng1))
      else Returned (draft, frontier, rng))"
  by pat_completeness auto
termination
proof (relation "measure (\<lambda>(dt, shuffled, draft, frontier, rng). length frontier)", goal_cases)
  case (2 dt shuffled draft frontier rng x y z x' y')
  have "length x = length frontier"
    using 2(2) by (cases shuffled) (metis fst_conv length_shuffle, simp)
  moreover have "length y' = (length x + 1) div 2"
    using compose_chunks_length [of dt draft x "[]" x' y'] 2(3,4) by simp
  ultimately show ?case using 2(1) by simp
qed simp

declare compose_balanced.simps [simp del]

section \<open>Alpha renaming\<close>

fun collect_term_symbols ::
    "ruliad_term \<Rightarrow> string set \<times> string set \<Rightarrow> string set \<times> string set"
  and collect_terms_symbols ::
    "ruliad_term list \<Rightarrow> string set \<times> string set \<Rightarrow> string set \<times> string set" where
  "collect_term_symbols (Variable _) acc = acc"
| "collect_term_symbols (Atom symbol) (operators, atoms) = (operators, insert symbol atoms)"
| "collect_term_symbols (Apply operator arguments) (operators, atoms) =
     collect_terms_symbols arguments (insert operator operators, atoms)"
| "collect_terms_symbols [] acc = acc"
| "collect_terms_symbols (t # ts) acc = collect_terms_symbols ts (collect_term_symbols t acc)"

fun rename_term_symbols ::
    "(string \<rightharpoonup> string) \<Rightarrow> (string \<rightharpoonup> string) \<Rightarrow> ruliad_term \<Rightarrow> ruliad_term option" where
  "rename_term_symbols operators atoms (Variable i) = Some (Variable i)"
| "rename_term_symbols operators atoms (Atom symbol) = map_option Atom (atoms symbol)"
| "rename_term_symbols operators atoms (Apply operator arguments) =
     Option.bind (operators operator)
       (\<lambda>f. map_option (Apply f) (those (map (rename_term_symbols operators atoms) arguments)))"

definition local_symbol_map :: "string set \<Rightarrow> string \<Rightarrow> split_mix64 \<Rightarrow> (string \<rightharpoonup> string) \<times> split_mix64" where
  "local_symbol_map symbols label rng =
     (case shuffle (map (\<lambda>index. label @ show_nat index) [0..<card symbols]) rng of
        (labels, rng') \<Rightarrow> (map_of (zip (sorted_list_of_set symbols) labels), rng'))"

definition rename_axiom ::
    "(string \<rightharpoonup> string) \<Rightarrow> (string \<rightharpoonup> string) \<Rightarrow> (string \<rightharpoonup> string) \<Rightarrow> rewrite_axiom \<Rightarrow> rewrite_axiom option" where
  "rename_axiom ids operators atoms ax =
     Option.bind (ids (ax_id ax)) (\<lambda>ident.
     Option.bind (rename_term_symbols operators atoms (ax_lhs ax)) (\<lambda>lhs.
     Option.bind (rename_term_symbols operators atoms (ax_rhs ax)) (\<lambda>rhs.
       Some \<lparr> ax_id = ident, ax_lhs = lhs, ax_rhs = rhs \<rparr>)))"

definition rename_goal ::
    "(string \<rightharpoonup> string) \<Rightarrow> (string \<rightharpoonup> string) \<Rightarrow> (string \<rightharpoonup> string) \<Rightarrow> proof_goal \<Rightarrow> proof_goal option" where
  "rename_goal ids operators atoms goal =
     Option.bind (ids (goal_id goal)) (\<lambda>ident.
     Option.bind (rename_term_symbols operators atoms (eq_lhs (goal_claim goal))) (\<lambda>lhs.
     Option.bind (rename_term_symbols operators atoms (eq_rhs (goal_claim goal))) (\<lambda>rhs.
       Some (goal\<lparr> goal_id := ident, goal_claim := \<lparr> eq_lhs = lhs, eq_rhs = rhs \<rparr> \<rparr>))))"

definition rename_step :: "(string \<rightharpoonup> string) \<Rightarrow> proof_step \<Rightarrow> proof_step option" where
  "rename_step ids s =
     (case step_source s of
        AxiomSource ident \<Rightarrow> map_option (\<lambda>i. s\<lparr> step_source := AxiomSource i \<rparr>) (ids ident)
      | LemmaSource _ \<Rightarrow> Some s)"

definition rename_certificate :: "(string \<rightharpoonup> string) \<Rightarrow> goal_certificate \<Rightarrow> goal_certificate option" where
  "rename_certificate ids g =
     map_option (\<lambda>steps. g\<lparr> gc_steps := steps \<rparr>) (those (map (rename_step ids) (gc_steps g)))"

definition bundle_symbols :: "proof_problem \<Rightarrow> string set \<times> string set" where
  "bundle_symbols problem =
     foldl (\<lambda>acc goal. collect_term_symbols (eq_rhs (goal_claim goal))
              (collect_term_symbols (eq_lhs (goal_claim goal)) acc))
       (foldl (\<lambda>acc ax. collect_term_symbols (ax_rhs ax) (collect_term_symbols (ax_lhs ax) acc))
          ({}, {}) (problem_axioms problem))
       (problem_goals problem)"

definition alpha_rename_bundle :: "proof_bundle \<Rightarrow> u64 \<Rightarrow> proof_bundle option" where
  "alpha_rename_bundle bundle seed =
     (let problem = bundle_problem bundle; certificate = bundle_certificate bundle;
          axiom_ids = set (map ax_id (problem_axioms problem));
          goal_ids = set (map goal_id (problem_goals problem))
      in
      case bundle_symbols problem of (operators, atoms) \<Rightarrow>
      (case local_symbol_map axiom_ids ''r'' (split_mix64_new seed) of (axiom_map, rng1) \<Rightarrow>
      (case local_symbol_map operators ''f'' rng1 of (operator_map, rng2) \<Rightarrow>
      (case local_symbol_map atoms ''c'' rng2 of (atom_map, rng3) \<Rightarrow>
      (case local_symbol_map goal_ids ''g'' rng3 of (goal_map, rng4) \<Rightarrow>
      (case next_index 32 rng4 of (theory_number, rng5) \<Rightarrow>
        Option.bind (those (map (rename_axiom axiom_map operator_map atom_map) (problem_axioms problem)))
          (\<lambda>axioms.
        Option.bind (those (map (rename_goal goal_map operator_map atom_map) (problem_goals problem)))
          (\<lambda>goals.
        Option.bind (those (map (rename_certificate axiom_map) (cert_goals certificate)))
          (\<lambda>certificates.
          Some \<lparr> bundle_problem = problem\<lparr> problem_theory := ''t'' @ show_nat theory_number,
                    problem_axioms := fst (shuffle axioms rng5), problem_goals := goals \<rparr>,
                 bundle_certificate = certificate\<lparr> cert_goals := certificates \<rparr> \<rparr>)))))))))"

section \<open>The generator\<close>

definition draw_domain :: "formal_config \<Rightarrow> split_mix64 \<Rightarrow> ruliad_formal_domain \<times> split_mix64" where
  "draw_domain config rng =
     (case fc_domain config of
        Some d \<Rightarrow> (d, rng)
      | None \<Rightarrow>
          (case next_index (length formal_domain_all) rng of (i, rng') \<Rightarrow> (formal_domain_all ! i, rng')))"

definition formal_axioms :: "domain_theory \<Rightarrow> domain_law list \<Rightarrow> nat \<Rightarrow> rewrite_axiom list" where
  "formal_axioms dt selected distractors =
     map law_axiom selected @ map (\<lambda>index. derived_distractor dt index selected) [0..<distractors]"

definition compose_frontier ::
    "domain_theory \<Rightarrow> generation_split \<Rightarrow> proof_draft \<Rightarrow> nat list \<Rightarrow> split_mix64
       \<Rightarrow> (proof_draft \<times> nat list \<times> split_mix64) outcome" where
  "compose_frontier dt split draft frontier rng =
     (case split of
        StructuralValidationV1 \<Rightarrow>
          outcome_bind (expect (nth_opt frontier 0)) (\<lambda>root.
          outcome_bind (compose_left dt draft root (drop 1 frontier)) (\<lambda>(draft', root').
            Returned (draft', [root'], rng)))
      | SharedSplit \<Rightarrow> compose_balanced dt True draft frontier rng
      | StructuralTrainV1 \<Rightarrow> compose_balanced dt False draft frontier rng)"

text \<open>Everything before the hash: the assembled bundle, with an empty problem hash.\<close>

definition build_formal_bundle :: "u64 \<Rightarrow> formal_config \<Rightarrow> proof_bundle outcome" where
  "build_formal_bundle seed config =
     (if fc_rewrite_depth config = 0 \<or> fc_leaf_count config = 0
      then Failed ''formal generator requires non-zero depth and leaves''
      else
      (case draw_domain config (split_mix64_new seed) of (chosen, rng1) \<Rightarrow>
      (case next_u64 rng1 of (salt, rng2) \<Rightarrow>
      (let dt = theory_of_domain chosen;
           selected = selected_domain_laws dt (fc_generation_split config);
           axioms = formal_axioms dt selected (fc_distractor_axioms config)
       in
      (case leaf_loop dt salt selected config [0..<fc_leaf_count config] ([], []) [] rng2 of
         (draft, frontier, rng3) \<Rightarrow>
      outcome_bind (compose_frontier dt (fc_generation_split config) draft frontier rng3)
        (\<lambda>((goals, certificates), frontier', rng4).
      outcome_bind (expect (nth_opt frontier' 0)) (\<lambda>root.
        (let bundle = \<lparr> bundle_problem =
               \<lparr> problem_version = ruliad_ir_version, problem_domain = chosen,
                 problem_theory = dt_name dt, problem_axioms = axioms,
                 problem_goals = goals, problem_root = root \<rparr>,
               bundle_certificate =
                 \<lparr> cert_version = ruliad_ir_version, cert_problem_hash = [],
                   cert_goals = certificates \<rparr> \<rparr>
         in if alpha_renamed (fc_generation_split config)
            then expect (alpha_rename_bundle bundle (fst (next_u64 rng4)))
            else Returned bundle))))))))"

text \<open>The canonical hash is a parameter, as in the kernel, and so is the \<open>Debug\<close> text of a
  failure.\<close>

definition generate_formal_bundle ::
    "problem_hasher \<Rightarrow> (kernel_failure option \<Rightarrow> string) \<Rightarrow> u64 \<Rightarrow> formal_config \<Rightarrow> proof_bundle outcome" where
  "generate_formal_bundle hash debug seed config =
     outcome_bind (build_formal_bundle seed config) (\<lambda>bundle.
       case hash (bundle_problem bundle) of
         Inl e \<Rightarrow> Failed e
       | Inr problem_hash \<Rightarrow>
           (let certificate = (bundle_certificate bundle)\<lparr> cert_problem_hash := problem_hash \<rparr> in
            case replay_certificate hash (bundle_problem bundle) certificate default_limits of
              None \<Rightarrow> Panicked
            | Some report \<Rightarrow>
                if \<not> rr_accepted report
                then Failed (''generated formal proof failed replay: '' @ debug (rr_failure report))
                else Returned (bundle\<lparr> bundle_certificate := certificate \<rparr>)))"

definition corrupt_formal_certificate :: "proof_certificate \<Rightarrow> string + proof_certificate" where
  "corrupt_formal_certificate certificate =
     (let goals = cert_goals certificate in
      if goals = [] then Inl ''formal certificate has no goals''
      else
        (case gc_steps (last goals) of
           [] \<Rightarrow> Inl ''formal root certificate has no steps''
         | s # steps \<Rightarrow>
             Inr (certificate\<lparr> cert_goals := butlast goals @
               [(last goals)\<lparr> gc_steps := s\<lparr> step_path := usize_max # step_path s \<rparr> # steps \<rparr>] \<rparr>)))"

end
