(* ===== verification/Ruliad_Formal_Draft.thy ===== *)
theory Ruliad_Formal_Draft
  imports Ruliad_Formal Ruliad_Soundness
begin

text \<open>
  Why what \<open>generate_formal_bundle\<close> assembles replays: every step of a leaf certificate strips one
  law at the context path, every composition goal follows from the two goals it joins, and the
  loops keep an invariant from which the root reaches every goal and every certificate proves its
  goal, under any topology the splits choose.
\<close>

section \<open>Names\<close>

lemma length_show_nat: "n < 10 ^ Suc k \<Longrightarrow> length (show_nat n) \<le> Suc k"
proof (induction k arbitrary: n)
  case 0
  then show ?case by (subst show_nat.simps) simp
next
  case (Suc k)
  then have "n div 10 < 10 ^ Suc k" by (simp add: less_mult_imp_div_less mult.commute)
  with Suc.IH [of "n div 10"] show ?case by (subst show_nat.simps) simp
qed

lemma length_show_nat_usize: "n \<le> usize_max \<Longrightarrow> length (show_nat n) \<le> 20"
  using length_show_nat [of n 19] by (simp add: usize_max_def)

lemma length_show_hex: "n < 16 ^ Suc k \<Longrightarrow> length (show_hex n) \<le> Suc k"
proof (induction k arbitrary: n)
  case 0
  then show ?case by (subst show_hex.simps) simp
next
  case (Suc k)
  then have "n div 16 < 16 ^ Suc k" by (simp add: less_mult_imp_div_less mult.commute)
  with Suc.IH [of "n div 16"] show ?case by (subst show_hex.simps) simp
qed

lemma identifier_digit [simp]: "d < 10 \<Longrightarrow> identifier_byte (digit_char d)"
  by (simp add: identifier_byte_def digit_char_code)

lemma identifier_show_nat [simp]: "list_all identifier_byte (show_nat n)"
  by (auto simp: list_all_iff dest!: show_nat_digits)

lemma identifier_hex [simp]: "d < 16 \<Longrightarrow> identifier_byte (hex_char d)"
  by (auto simp: identifier_byte_def hex_char_def of_char_of)

lemma identifier_show_hex [simp]: "list_all identifier_byte (show_hex n)"
proof (induction n rule: show_hex.induct)
  case (1 n)
  then show ?case by (subst show_hex.simps) simp
qed

lemma identifier_show_salt [simp]: "list_all identifier_byte (show_salt salt)"
  by (simp add: show_salt_def Let_def list_all_iff [of _ "replicate _ _"] identifier_byte_def)

lemma length_show_salt: "length (show_salt salt) \<le> 16"
proof -
  have "length (show_hex (unat salt)) \<le> 16"
    using length_show_hex [of "unat salt" 15] unat_below [of salt] by simp
  then show ?thesis by (auto simp: show_salt_def Let_def)
qed

definition short_name :: "string \<Rightarrow> bool" where
  "short_name s \<longleftrightarrow> length s \<le> 40 \<and> list_all identifier_byte s"

lemma short_name_numbered:
  "short_name s \<Longrightarrow> s \<noteq> [] \<Longrightarrow> n \<le> usize_max \<Longrightarrow> valid_identifier (s @ show_nat n)"
  using length_show_nat_usize [of n] by (simp add: short_name_def valid_identifier_def)

lemma short_name_salted:
  "short_name s \<Longrightarrow> s \<noteq> [] \<Longrightarrow> n \<le> usize_max \<Longrightarrow> valid_identifier (s @ show_nat n @ ''_'' @ show_salt salt)"
  using length_show_nat_usize [of n] length_show_salt [of salt]
  by (simp add: short_name_def valid_identifier_def identifier_byte_def)

section \<open>The laws\<close>

fun shape_names :: "domain_law_shape \<Rightarrow> string list" where
  "shape_names (LeftUnit a b) = [a, b]"
| "shape_names (RightUnit a b) = [a, b]"
| "shape_names (CancelPair a b) = [a, b]"

definition law_ok :: "domain_law \<Rightarrow> bool" where
  "law_ok law \<longleftrightarrow> valid_identifier (law_id law) \<and> list_all valid_identifier (shape_names (law_shape law))
     \<and> take 4 (law_id law) \<noteq> ''aux_''"

definition theory_ok :: "domain_theory \<Rightarrow> bool" where
  "theory_ok dt \<longleftrightarrow> valid_identifier (dt_name dt) \<and> short_name (dt_atom dt) \<and> dt_atom dt \<noteq> []
     \<and> valid_identifier (dt_context dt) \<and> valid_identifier (dt_combine dt)
     \<and> dt_laws dt \<noteq> [] \<and> list_all law_ok (dt_laws dt) \<and> distinct (map law_id (dt_laws dt))"

lemma theory_of_domain_ok: "theory_ok (theory_of_domain d)"
  by (cases d)
    (simp_all add: theory_ok_def law_ok_def short_name_def identifier_literal equational_laws_def
      category_domain_laws_def logic_laws_def automata_laws_def process_laws_def metagraph_laws_def)

lemma selected_laws_ok:
  assumes "theory_ok dt"
  shows "selected_domain_laws dt split \<noteq> []" "list_all law_ok (selected_domain_laws dt split)"
    "distinct (map law_id (selected_domain_laws dt split))"
proof -
  have sub: "selected_domain_laws dt split = dt_laws dt
      \<or> (\<exists>k. k < length (dt_laws dt) \<and> selected_domain_laws dt split = drop k (dt_laws dt))
      \<or> (\<exists>k. 0 < k \<and> selected_domain_laws dt split = take k (dt_laws dt))"
    by (cases split) (auto simp: selected_domain_laws_def Let_def intro: exI [of _ "length (dt_laws dt) - 1"])
  then show "selected_domain_laws dt split \<noteq> []" using assms by (auto simp: theory_ok_def)
  have "set (selected_domain_laws dt split) \<subseteq> set (dt_laws dt)"
    using sub by (auto dest: in_set_takeD in_set_dropD)
  then show "list_all law_ok (selected_domain_laws dt split)"
    using assms by (auto simp: theory_ok_def list_all_iff)
  show "distinct (map law_id (selected_domain_laws dt split))"
    using sub assms by (auto simp: theory_ok_def simp flip: take_map drop_map)
qed

definition ground :: "ruliad_term \<Rightarrow> bool" where
  "ground t \<longleftrightarrow> term_variables t = {}"

lemma instantiate_ground: "ground t \<Longrightarrow> instantiate t \<sigma> = Some t"
proof (induction t)
  case (Apply operator arguments)
  then have "those (map (\<lambda>a. instantiate a \<sigma>) arguments) = Some (map id arguments)"
    by (intro those_map_Some) (auto simp: ground_def term_variables_simps)
  then show ?case by simp
qed (auto simp: ground_def term_variables_simps)

lemma law_wrap_ground [simp]: "ground (law_wrap law t) \<longleftrightarrow> ground t"
  by (cases "law_shape law") (auto simp: law_wrap_def ground_def term_variables_simps)

lemma law_wrap_variables: "term_variables (law_wrap law t) = term_variables t"
  by (cases "law_shape law") (auto simp: law_wrap_def term_variables_simps)

lemma law_wrap_wf: "law_ok law \<Longrightarrow> wf_term (law_wrap law t) \<longleftrightarrow> wf_term t"
  by (cases "law_shape law") (auto simp: law_wrap_def law_ok_def)

lemma law_wrap_instantiate:
  "instantiate (law_wrap law p) \<sigma> = map_option (law_wrap law) (instantiate p \<sigma>)"
  by (cases "law_shape law"; cases "instantiate p \<sigma>") (auto simp: law_wrap_def)

lemma law_strip: "rewrite_here (law_wrap law t) (ax_lhs (law_axiom law)) (ax_rhs (law_axiom law)) = Inr t"
  unfolding rewrite_here_Inr
  by (intro exI [of _ "[0 \<mapsto> t]"])
    (simp add: law_axiom_def law_wrap_instantiate law_wrap_variables term_variables_simps)

section \<open>Contexts\<close>

lemma wrap_holes_append:
  "wrap_holes nm salt k (xs @ ys) t = wrap_holes nm salt (k + length xs) ys (wrap_holes nm salt k xs t)"
  by (induction xs arbitrary: k t) (simp_all add: Let_def)

lemma wrap_context_Cons:
  "wrap_context nm salt (hole # path) t =
     Apply nm (if hole = 0 then [wrap_context nm salt path t, scope_atom (length path) salt]
               else [scope_atom (length path) salt, wrap_context nm salt path t])"
  by (simp add: wrap_context_def wrap_holes_append Let_def)

lemma wrap_context_Nil [simp]: "wrap_context nm salt [] t = t"
  by (simp add: wrap_context_def)

lemma wrap_context_at:
  "\<forall>h\<in>set path. h < 2 \<Longrightarrow> at_path (wrap_context nm salt path t) path = Some t
     \<and> put_at (wrap_context nm salt path t) path s = wrap_context nm salt path s"
  by (induction path) (auto simp: wrap_context_Cons less_2_cases_iff)

lemma wrap_context_ground [simp]: "ground (wrap_context nm salt path t) \<longleftrightarrow> ground t"
  by (induction path) (auto simp: wrap_context_Cons ground_def term_variables_simps scope_atom_def)

lemma scope_atom_wf: "k \<le> usize_max \<Longrightarrow> wf_term (scope_atom k salt)"
  using short_name_salted [of "''scope''" k salt]
  by (simp add: scope_atom_def short_name_def identifier_byte_def)

lemma wrap_context_wf:
  "valid_identifier nm \<Longrightarrow> length path \<le> usize_max \<Longrightarrow>
     wf_term (wrap_context nm salt path t) \<longleftrightarrow> wf_term t"
  by (induction path) (auto simp: wrap_context_Cons scope_atom_wf)

section \<open>Sizes\<close>

fun term_nodes :: "ruliad_term \<Rightarrow> nat" where
  "term_nodes (Variable _) = 1"
| "term_nodes (Atom _) = 1"
| "term_nodes (Apply _ arguments) = Suc (sum_list (map term_nodes arguments))"

lemma min_sum_list: "min m (sum_list (map (\<lambda>x. min (m :: nat) (f x)) xs)) = min m (sum_list (map f xs))"
proof (induction xs)
  case (Cons x xs)
  let ?a = "sum_list (map (\<lambda>x. min m (f x)) xs)" and ?b = "sum_list (map f xs)"
  have "min m (min m (f x) + ?a) = min m (f x + min m ?a)" by (simp add: min_def)
  also have "\<dots> = min m (f x + min m ?b)" unfolding Cons ..
  also have "\<dots> = min m (f x + ?b)" by (simp add: min_def)
  finally show ?case by simp
qed simp

lemma node_count_term_nodes: "node_count t = min usize_max (term_nodes t)"
proof (induction t)
  case (Apply f ts)
  have eq: "map node_count ts = map (\<lambda>t. min usize_max (term_nodes t)) ts"
    using Apply by (intro map_cong) simp_all
  have "min usize_max (sum_list (map node_count ts)) = min usize_max (sum_list (map term_nodes ts))"
    unfolding eq by (rule min_sum_list)
  then have "node_count (Apply f ts) = min usize_max (1 + min usize_max (sum_list (map term_nodes ts)))"
    by (simp add: foldl_sat_add sat_add_def)
  also have "\<dots> = min usize_max (1 + sum_list (map term_nodes ts))" by (simp add: min_def)
  finally show ?case by simp
qed (simp_all add: usize_max_def)

lemma law_wrap_nodes: "term_nodes (law_wrap law t) = term_nodes t + 2"
  by (cases "law_shape law") (simp_all add: law_wrap_def)

lemma foldr_law_wrap_nodes: "term_nodes (foldr law_wrap laws t) = term_nodes t + 2 * length laws"
  by (induction laws) (simp_all add: law_wrap_nodes)

lemma wrap_context_nodes: "term_nodes (wrap_context nm salt path t) = term_nodes t + 2 * length path"
  by (induction path) (simp_all add: wrap_context_Cons scope_atom_def)

definition claim_nodes :: "proof_goal \<Rightarrow> nat" where
  "claim_nodes g = term_nodes (eq_lhs (goal_claim g)) + term_nodes (eq_rhs (goal_claim g))"

section \<open>Proofs over a growing list of goals\<close>

definition frame :: "rewrite_axiom list \<Rightarrow> proof_goal list \<Rightarrow> proof_problem" where
  "frame axioms goals =
     \<lparr> problem_version = ruliad_ir_version, problem_domain = Equational, problem_theory = [],
       problem_axioms = axioms, problem_goals = goals, problem_root = 0 \<rparr>"

lemma step_equality_cong:
  assumes "\<And>d. d \<in> set (goal_dependencies g) \<Longrightarrow>
      nth_opt (problem_goals p) d = nth_opt (problem_goals q) d"
  shows "step_equality p k g axs src = step_equality q k g axs src"
proof (cases src)
  case (LemmaSource d)
  then show ?thesis
    using assms [of d] by (auto simp: step_equality_def nth_opt_def split: if_splits)
qed (simp add: step_equality_def)

lemma step_result_cong:
  assumes "problem_axioms p = problem_axioms q" "problem_goals p ! k = problem_goals q ! k"
    and "\<And>d. d \<in> set (goal_dependencies (problem_goals q ! k)) \<Longrightarrow>
      nth_opt (problem_goals p) d = nth_opt (problem_goals q) d"
  shows "step_result p k limits t s = step_result q k limits t s"
  using assms step_equality_cong [of "problem_goals q ! k" p q]
  by (simp add: step_result_def apply_step_def)

lemma proof_steps_cong:
  assumes "problem_axioms p = problem_axioms q" "problem_goals p ! k = problem_goals q ! k"
    and "\<And>d. d \<in> set (goal_dependencies (problem_goals q ! k)) \<Longrightarrow>
      nth_opt (problem_goals p) d = nth_opt (problem_goals q) d"
  shows "proof_steps p k limits t steps u \<longleftrightarrow> proof_steps q k limits t steps u"
  using step_result_cong [OF assms] by (induction steps arbitrary: t) auto

lemma proof_steps_frame:
  "proof_steps p k limits t steps u \<longleftrightarrow>
     proof_steps (frame (problem_axioms p) (problem_goals p)) k limits t steps u"
  by (rule proof_steps_cong) (simp_all add: frame_def)

definition goal_sound :: "nat \<Rightarrow> proof_goal \<Rightarrow> bool" where
  "goal_sound k g \<longleftrightarrow>
     goal_id g = goal_name k \<and> sorted_wrt (<) (goal_dependencies g)
     \<and> (\<forall>d\<in>set (goal_dependencies g). d < k)
     \<and> ground (eq_lhs (goal_claim g)) \<and> ground (eq_rhs (goal_claim g))
     \<and> wf_term (eq_lhs (goal_claim g)) \<and> wf_term (eq_rhs (goal_claim g))"

definition proves_goal ::
    "rewrite_axiom list \<Rightarrow> kernel_limits \<Rightarrow> proof_goal list \<Rightarrow> nat \<Rightarrow> goal_certificate \<Rightarrow> bool" where
  "proves_goal axioms limits goals k cert \<longleftrightarrow>
     proof_steps (frame axioms goals) k limits (eq_lhs (goal_claim (goals ! k))) (gc_steps cert)
       (eq_rhs (goal_claim (goals ! k)))"

lemma proves_goal_extend:
  assumes "proves_goal axioms limits goals k cert" "k < length goals" "goal_sound k (goals ! k)"
  shows "proves_goal axioms limits (goals @ extra) k cert"
proof -
  have "\<And>d. d \<in> set (goal_dependencies (goals ! k)) \<Longrightarrow> d < length goals"
    using assms(2,3) by (fastforce simp: goal_sound_def)
  then have "proof_steps (frame axioms (goals @ extra)) k limits t steps u
      \<longleftrightarrow> proof_steps (frame axioms goals) k limits t steps u" for t steps u
    using assms(2) by (intro proof_steps_cong) (auto simp: frame_def nth_append nth_opt_def intro: trans_less_add1)
  with assms show ?thesis by (simp add: proves_goal_def nth_append)
qed

definition goal_edge :: "proof_goal list \<Rightarrow> nat \<Rightarrow> nat \<Rightarrow> bool" where
  "goal_edge goals i j \<longleftrightarrow> i < length goals \<and> j \<in> set (goal_dependencies (goals ! i))"

lemma goal_edge_extend: "(goal_edge goals)\<^sup>*\<^sup>* i j \<Longrightarrow> (goal_edge (goals @ extra))\<^sup>*\<^sup>* i j"
  by (erule rtranclp_mono [THEN predicate2D, rotated]) (auto simp: goal_edge_def nth_append)

text \<open>The loop invariant over a draft, for the set of goals that still wait to be joined. The
  \<open>budget\<close> size of these goals does not change when two are joined, and bounds every goal.\<close>

definition draft_inv ::
    "rewrite_axiom list \<Rightarrow> kernel_limits \<Rightarrow> nat \<Rightarrow> proof_draft \<Rightarrow> nat set \<Rightarrow> bool" where
  "draft_inv axioms limits budget = (\<lambda>(goals, certs) waiting.
     map gc_goal certs = [0..<length goals]
     \<and> (\<forall>k<length goals. goal_sound k (goals ! k) \<and> proves_goal axioms limits goals k (certs ! k))
     \<and> waiting \<subseteq> {..<length goals}
     \<and> (\<forall>k<length goals. \<exists>f\<in>waiting. (goal_edge goals)\<^sup>*\<^sup>* f k)
     \<and> (\<Sum>f\<in>waiting. claim_nodes (goals ! f) + 2) = budget
     \<and> (\<forall>k<length goals. claim_nodes (goals ! k) + 2 \<le> budget))"

definition draft_steps :: "proof_draft \<Rightarrow> nat" where
  "draft_steps d = sum_list (map (\<lambda>c. length (gc_steps c)) (snd d))"

lemma draft_inv_push:
  assumes inv: "draft_inv axioms limits budget (goals, certs) waiting"
    and sound: "goal_sound (length goals) g" and "gc_goal cert = length goals"
    and pg: "proves_goal axioms limits (goals @ [g]) (length goals) cert"
    and joined: "joined \<subseteq> set (goal_dependencies g)" "joined \<subseteq> waiting"
    and size: "claim_nodes g + 2 + budget = budget' + (\<Sum>f\<in>joined. claim_nodes (goals ! f) + 2)"
    and grows: "budget \<le> budget'"
  shows "draft_inv axioms limits budget' (goals @ [g], certs @ [cert]) (insert (length goals) (waiting - joined))"
proof -
  let ?n = "length goals" and ?goals = "goals @ [g]"
  have len: "length certs = ?n" using inv by (auto simp: draft_inv_def dest: arg_cong [of _ _ length])
  have wait: "waiting \<subseteq> {..<?n}" "finite waiting"
    using inv by (auto simp: draft_inv_def intro: finite_subset)
  have "goal_sound k (?goals ! k) \<and> proves_goal axioms limits ?goals k ((certs @ [cert]) ! k)"
    if "k < Suc ?n" for k
  proof (cases "k < ?n")
    case True
    then have "goal_sound k (goals ! k)" "proves_goal axioms limits goals k (certs ! k)"
      using inv by (simp_all add: draft_inv_def)
    then show ?thesis using True len proves_goal_extend by (simp add: nth_append)
  next
    case False
    then show ?thesis using that sound pg len by (simp add: nth_append less_Suc_eq)
  qed
  moreover have "\<exists>f\<in>insert ?n (waiting - joined). (goal_edge ?goals)\<^sup>*\<^sup>* f k" if "k < Suc ?n" for k
  proof (cases "k < ?n")
    case True
    then obtain f where f: "f \<in> waiting" "(goal_edge goals)\<^sup>*\<^sup>* f k" using inv by (auto simp: draft_inv_def)
    then have reach: "(goal_edge ?goals)\<^sup>*\<^sup>* f k" using goal_edge_extend by blast
    show ?thesis
    proof (cases "f \<in> joined")
      case True
      then have "goal_edge ?goals ?n f" using joined by (auto simp: goal_edge_def)
      with reach show ?thesis by (meson converse_rtranclp_into_rtranclp insertI1)
    qed (use f reach in blast)
  next
    case False
    then show ?thesis using that by (auto simp: less_Suc_eq)
  qed
  moreover have "(\<Sum>f\<in>insert ?n (waiting - joined). claim_nodes (?goals ! f) + 2) = budget'"
  proof -
    let ?w = "\<lambda>f. claim_nodes (goals ! f) + 2"
    have "(\<Sum>f\<in>waiting - joined. claim_nodes (?goals ! f) + 2) = sum ?w (waiting - joined)"
      using wait(1) by (intro sum.cong) (auto simp: nth_append)
    moreover have "sum ?w waiting = sum ?w (waiting - joined) + sum ?w joined"
      using sum.subset_diff [OF joined(2) wait(2)] by simp
    moreover have "sum ?w waiting = budget" using inv by (simp add: draft_inv_def)
    moreover have "?n \<notin> waiting - joined" using wait(1) by auto
    ultimately show ?thesis using wait(2) size by (simp add: nth_append)
  qed
  moreover have "claim_nodes (?goals ! k) + 2 \<le> budget'" if "k < Suc ?n" for k
  proof (cases "k < ?n")
    case True
    then show ?thesis using inv grows by (auto simp: draft_inv_def nth_append intro: order_trans)
  next
    case False
    have "(\<Sum>f\<in>joined. claim_nodes (goals ! f) + 2) \<le> budget"
      using sum_mono2 [OF wait(2) joined(2), of "\<lambda>f. claim_nodes (goals ! f) + 2"] inv
      by (simp add: draft_inv_def)
    then show ?thesis using False that size by (simp add: nth_append less_Suc_eq)
  qed
  moreover have "insert ?n (waiting - joined) \<subseteq> {..<Suc ?n}" using wait by auto
  ultimately show ?thesis using inv assms(3) by (simp add: draft_inv_def)
qed

section \<open>Composition goals\<close>

lemma rewrite_ground_argument:
  assumes "ground p" "i < length ts" "ts ! i = p" "ground r"
  shows "rewrite_at_path (Apply f ts) [i] p r = Inr (Apply f (ts[i := r]))"
proof -
  have "rewrite_here p p r = Inr r"
    unfolding rewrite_here_Inr using assms
    by (intro exI [of _ Map.empty]) (simp add: instantiate_ground ground_def [symmetric], simp add: ground_def)
  then show ?thesis using assms by simp
qed

lemma lemma_step_result:
  assumes "step_path s = [i]" "step_source s = LemmaSource d" "step_direction s = Forward"
    and "1 \<le> maximum_path_depth limits" "d \<in> set (goal_dependencies (problem_goals p ! k))"
    and "d < length (problem_goals p)" "problem_goals p ! d = g"
    and "ground (eq_lhs (goal_claim g))" "ground (eq_rhs (goal_claim g))"
    and "i < length ts" "ts ! i = eq_lhs (goal_claim g)"
  shows "step_result p k limits (Apply f ts) s = Inr (Apply f (ts[i := eq_rhs (goal_claim g)]))"
  using assms rewrite_ground_argument [of "eq_lhs (goal_claim g)" i ts "eq_rhs (goal_claim g)" f]
  by (simp add: step_result_def apply_step_def step_equality_def orient_def)

lemma compose_claim_proved:
  assumes inv: "draft_inv axioms limits budget (goals, certs) waiting" and "1 \<le> maximum_path_depth limits"
    and lr: "l < r" "r < length goals"
    and g: "goal_dependencies g = [l, r]"
      "eq_lhs (goal_claim g) = Apply f [eq_lhs (goal_claim (goals ! l)), eq_lhs (goal_claim (goals ! r))]"
      "eq_rhs (goal_claim g) = Apply f [eq_rhs (goal_claim (goals ! l)), eq_rhs (goal_claim (goals ! r))]"
    and cert: "gc_steps cert = [lemma_step l 0, lemma_step r 1]"
  shows "proves_goal axioms limits (goals @ [g]) (length goals) cert"
proof -
  let ?p = "frame axioms (goals @ [g])" and ?k = "length goals"
  have gl: "goal_sound l (goals ! l)" and gr: "goal_sound r (goals ! r)"
    using inv lr by (simp_all add: draft_inv_def)
  let ?ll = "eq_lhs (goal_claim (goals ! l))" and ?lr = "eq_rhs (goal_claim (goals ! l))"
  let ?rl = "eq_lhs (goal_claim (goals ! r))" and ?rr = "eq_rhs (goal_claim (goals ! r))"
  have "step_result ?p ?k limits (Apply f [?ll, ?rl]) (lemma_step l 0) = Inr (Apply f ([?ll, ?rl][0 := ?lr]))"
    using gl lr g(1) assms(2)
    by (intro lemma_step_result) (auto simp: lemma_step_def frame_def nth_append goal_sound_def)
  moreover have "step_result ?p ?k limits (Apply f [?lr, ?rl]) (lemma_step r 1) = Inr (Apply f ([?lr, ?rl][1 := ?rr]))"
    using gr lr g(1) assms(2)
    by (intro lemma_step_result) (auto simp: lemma_step_def frame_def nth_append goal_sound_def)
  ultimately show ?thesis by (simp add: proves_goal_def g(2,3) cert)
qed

lemma append_composition_ok:
  assumes inv: "draft_inv axioms limits budget d waiting" and "1 \<le> maximum_path_depth limits"
    and "valid_identifier (dt_combine dt)" and ab: "a \<in> waiting" "b \<in> waiting" "a \<noteq> b"
  shows "\<exists>d'. append_composition_goal dt d a b = Returned (d', length (fst d))
    \<and> draft_inv axioms limits budget d' (insert (length (fst d)) (waiting - {a, b}))
    \<and> length (fst d') = Suc (length (fst d)) \<and> draft_steps d' = draft_steps d + 2"
proof -
  obtain goals certs where d: "d = (goals, certs)" by fastforce
  define l r where lr: "l = min a b" "r = max a b"
  have bounds: "l < r" "r < length goals" "{l, r} = {a, b}"
    using inv ab d by (auto simp: draft_inv_def lr min_def max_def)
  have lrw: "l \<in> waiting" "r \<in> waiting" "l \<noteq> r" using bounds(1,3) ab by auto
  have sound: "goal_sound l (goals ! l)" "goal_sound r (goals ! r)"
    using inv bounds d by (simp_all add: draft_inv_def)
  let ?g = "\<lparr> goal_id = goal_name (length goals), goal_dependencies = [l, r],
      goal_claim = \<lparr> eq_lhs = Apply (dt_combine dt) [eq_lhs (goal_claim (goals ! l)), eq_lhs (goal_claim (goals ! r))],
        eq_rhs = Apply (dt_combine dt) [eq_rhs (goal_claim (goals ! l)), eq_rhs (goal_claim (goals ! r))] \<rparr> \<rparr>"
  let ?c = "\<lparr> gc_goal = length goals, gc_steps = [lemma_step l 0, lemma_step r 1] \<rparr>"
  have "append_composition_goal dt d a b = Returned ((goals @ [?g], certs @ [?c]), length goals)"
    using bounds ab(3) by (auto simp: append_composition_goal_def d lr min_def max_def Let_def)
  moreover have "goal_sound (length goals) ?g"
    using sound bounds(1,2) assms(3) by (auto simp: goal_sound_def ground_def term_variables_simps)
  then have "draft_inv axioms limits budget (goals @ [?g], certs @ [?c]) (insert (length goals) (waiting - {l, r}))"
    using inv d compose_claim_proved [OF inv [unfolded d] assms(2) bounds(1,2)] lrw
    by (intro draft_inv_push) (auto simp: claim_nodes_def)
  then have "draft_inv axioms limits budget (goals @ [?g], certs @ [?c]) (insert (length goals) (waiting - {a, b}))"
    unfolding bounds(3) .
  ultimately show ?thesis by (simp add: d draft_steps_def)
qed

text \<open>Each composition trades two waiting goals for one, one goal and two steps.\<close>

definition joins :: "proof_draft \<Rightarrow> nat \<Rightarrow> proof_draft \<Rightarrow> nat \<Rightarrow> bool" where
  "joins d n d' n' \<longleftrightarrow>
     length (fst d') + n' = length (fst d) + n \<and> draft_steps d' + 2 * n' = draft_steps d + 2 * n"

lemma joins_refl: "joins d n d n"
  by (simp add: joins_def)

lemma joins_trans: "joins d n d1 n1 \<Longrightarrow> joins d1 n1 d2 n2 \<Longrightarrow> joins d n d2 n2"
  by (simp add: joins_def)

lemma joins_step:
  "length (fst d') = Suc (length (fst d)) \<Longrightarrow> draft_steps d' = draft_steps d + 2 \<Longrightarrow> joins d (Suc n) d' n"
  by (simp add: joins_def)

lemma compose_left_ok:
  "draft_inv axioms limits budget d (insert root (set rest)) \<Longrightarrow> 1 \<le> maximum_path_depth limits \<Longrightarrow>
   valid_identifier (dt_combine dt) \<Longrightarrow> distinct (root # rest) \<Longrightarrow>
     \<exists>d' root'. compose_left dt d root rest = Returned (d', root') \<and> draft_inv axioms limits budget d' {root'}
       \<and> joins d (Suc (length rest)) d' 1"
proof (induction rest arbitrary: d root)
  case Nil
  then show ?case by (auto simp: joins_refl)
next
  case (Cons right rest)
  let ?n = "length (fst d)"
  obtain d1 where d1: "append_composition_goal dt d root right = Returned (d1, ?n)"
    "draft_inv axioms limits budget d1 (insert ?n (insert root (set (right # rest)) - {root, right}))"
    "length (fst d1) = Suc ?n" "draft_steps d1 = draft_steps d + 2"
    using append_composition_ok [OF Cons.prems(1-3), of root right] Cons.prems(4) by auto
  have "insert root (set (right # rest)) - {root, right} = set rest" using Cons.prems(4) by auto
  then have inv: "draft_inv axioms limits budget d1 (insert ?n (set rest))" using d1(2) by simp
  have "set rest \<subseteq> {..<?n}" using Cons.prems(1) by (auto simp: draft_inv_def split: prod.splits)
  then have "distinct (?n # rest)" using Cons.prems(4) by auto
  from Cons.IH [OF inv Cons.prems(2,3) this] obtain d' root' where
    d': "compose_left dt d1 ?n rest = Returned (d', root')" "draft_inv axioms limits budget d' {root'}"
    "joins d1 (Suc (length rest)) d' 1" by blast
  have "joins d (Suc (length (right # rest))) d1 (Suc (length rest))"
    using joins_step [OF d1(3,4)] by simp
  then show ?case using d' d1(1) joins_trans by (metis case_prod_conv compose_left.simps(2) outcome_bind.simps(3))
qed

lemma compose_chunks_ok:
  "draft_inv axioms limits budget d (set (next_frontier @ frontier)) \<Longrightarrow> 1 \<le> maximum_path_depth limits \<Longrightarrow>
   valid_identifier (dt_combine dt) \<Longrightarrow> distinct (next_frontier @ frontier) \<Longrightarrow>
     \<exists>d' result. compose_chunks dt d frontier next_frontier = Returned (d', result)
       \<and> draft_inv axioms limits budget d' (set result) \<and> distinct result
       \<and> joins d (length next_frontier + length frontier) d' (length result)"
proof (induction dt d frontier next_frontier rule: compose_chunks.induct)
  case (3 dt d l r rest next_frontier)
  let ?n = "length (fst d)"
  let ?W = "set (next_frontier @ l # r # rest)"
  obtain d1 where d1: "append_composition_goal dt d l r = Returned (d1, ?n)"
    "draft_inv axioms limits budget d1 (insert ?n (?W - {l, r}))"
    "length (fst d1) = Suc ?n" "draft_steps d1 = draft_steps d + 2"
    using append_composition_ok [OF "3.prems"(1-3), of l r] "3.prems"(4) by auto
  have "?W \<subseteq> {..<?n}" using "3.prems"(1) by (auto simp: draft_inv_def split: prod.splits)
  then have fresh: "?n \<notin> ?W" by auto
  have sets: "insert ?n (?W - {l, r}) = set ((next_frontier @ [?n]) @ rest)" using "3.prems"(4) by auto
  have dist: "distinct ((next_frontier @ [?n]) @ rest)" using fresh "3.prems"(4) by auto
  from "3.IH" [of d1 ?n] d1(1,2) sets "3.prems"(2,3) dist obtain d' result where
    d': "compose_chunks dt d1 rest (next_frontier @ [?n]) = Returned (d', result)"
    "draft_inv axioms limits budget d' (set result)" "distinct result"
    "joins d1 (length (next_frontier @ [?n]) + length rest) d' (length result)"
    by auto
  have "joins d (length next_frontier + length (l # r # rest)) d1 (length (next_frontier @ [?n]) + length rest)"
    using joins_step [OF d1(3,4)] by simp
  from joins_trans [OF this d'(4)] show ?case using d'(1-3) d1(1) by simp
qed (auto simp: joins_refl)

lemma compose_balanced_ok:
  "draft_inv axioms limits budget d (set frontier) \<Longrightarrow> 1 \<le> maximum_path_depth limits \<Longrightarrow>
   valid_identifier (dt_combine dt) \<Longrightarrow> distinct frontier \<Longrightarrow> frontier \<noteq> [] \<Longrightarrow> length frontier \<le> usize_max \<Longrightarrow>
     \<exists>d' root rng'. compose_balanced dt shuffled d frontier rng = Returned (d', [root], rng')
       \<and> draft_inv axioms limits budget d' {root} \<and> joins d (length frontier) d' 1"
proof (induction dt shuffled d frontier rng rule: compose_balanced.induct)
  case (1 dt shuffled d frontier rng)
  show ?case
  proof (cases "1 < length frontier")
    case False
    then obtain root where "frontier = [root]" using "1.prems"(5) by (cases frontier) auto
    then show ?thesis using "1.prems"(1) by (subst compose_balanced.simps) (simp add: joins_refl)
  next
    case True
    obtain f1 rng1 where f1: "(if shuffled then shuffle frontier rng else (frontier, rng)) = (f1, rng1)"
      by fastforce
    then have "mset f1 = mset frontier"
      using shuffle_mset [OF "1.prems"(6), of rng] by (metis fst_conv)
    then have eqs: "set f1 = set frontier" "distinct f1" "length f1 = length frontier"
      using "1.prems"(4) by (metis mset_eq_setD, metis mset_eq_imp_distinct_iff, metis mset_eq_length)
    obtain d1 result where d1: "compose_chunks dt d f1 [] = Returned (d1, result)"
      "draft_inv axioms limits budget d1 (set result)" "distinct result" "joins d (length f1) d1 (length result)"
      using compose_chunks_ok [of axioms limits budget d "[]" f1 dt] "1.prems" eqs by auto
    have len: "length result = (length frontier + 1) div 2"
      using compose_chunks_length [OF d1(1)] eqs(3) by simp
    then have "result \<noteq> []" "length result \<le> usize_max" using True "1.prems"(6) by auto
    from "1.IH" [OF True f1 [symmetric] d1(1) refl d1(2) "1.prems"(2,3) d1(3) this]
    obtain d' root rng' where d': "compose_balanced dt shuffled d1 result rng1 = Returned (d', [root], rng')"
      "draft_inv axioms limits budget d' {root}" "joins d1 (length result) d' 1" by blast
    have "joins d (length frontier) d' 1" using joins_trans [OF d1(4) d'(3)] eqs(3) by simp
    moreover have "compose_balanced dt shuffled d frontier rng = Returned (d', [root], rng')"
      using True f1 d1(1) d'(1) by (subst compose_balanced.simps) simp
    ultimately show ?thesis using d'(2) by blast
  qed
qed

lemma compose_frontier_ok:
  assumes "draft_inv axioms limits budget d (set frontier)" "1 \<le> maximum_path_depth limits"
    "valid_identifier (dt_combine dt)" "distinct frontier" "frontier \<noteq> []" "length frontier \<le> usize_max"
  shows "\<exists>d' root rng'. compose_frontier dt split d frontier rng = Returned (d', [root], rng')
    \<and> draft_inv axioms limits budget d' {root} \<and> joins d (length frontier) d' 1"
proof (cases split)
  case StructuralValidationV1
  obtain root rest where f: "frontier = root # rest" using assms(5) by (cases frontier) auto
  obtain d' root' where "compose_left dt d root rest = Returned (d', root')"
    "draft_inv axioms limits budget d' {root'}" "joins d (Suc (length rest)) d' 1"
    using compose_left_ok [of axioms limits budget d root rest dt] assms f by auto
  then show ?thesis using StructuralValidationV1 f by (simp add: compose_frontier_def)
qed (use compose_balanced_ok [OF assms] in \<open>simp_all add: compose_frontier_def\<close>)

section \<open>Leaf goals\<close>

lemma leaf_steps_proved:
  assumes "distinct (map ax_id axioms)" "\<And>law. law \<in> set laws \<Longrightarrow> law_axiom law \<in> set axioms"
    and "\<forall>h\<in>set path. h < 2" "length path \<le> maximum_path_depth limits"
  shows "proof_steps (frame axioms goals) k limits (wrap_context nm salt path (foldr law_wrap laws t))
    (gc_steps (leaf_certificate laws path j)) (wrap_context nm salt path t)"
  using assms(2)
proof (induction laws)
  case Nil
  then show ?case by (simp add: leaf_certificate_def)
next
  case (Cons law laws)
  let ?here = "foldr law_wrap laws t"
  have "index_axioms axioms (ax_id (law_axiom law)) = Some (law_axiom law)"
    using index_axioms_lookup [OF assms(1)] Cons.prems by simp
  then have lookup: "index_axioms axioms (law_id law) = Some (law_axiom law)" by (simp add: law_axiom_def)
  have "rewrite_at_path (wrap_context nm salt path (law_wrap law ?here)) path
      (ax_lhs (law_axiom law)) (ax_rhs (law_axiom law)) = Inr (wrap_context nm salt path ?here)"
    using wrap_context_at [OF assms(3)] law_strip by (auto simp: rewrite_at_path_Inr)
  with lookup assms(4) have "step_result (frame axioms goals) k limits
      (wrap_context nm salt path (law_wrap law ?here))
      \<lparr> step_source = AxiomSource (law_id law), step_path = path, step_direction = Forward \<rparr>
      = Inr (wrap_context nm salt path ?here)"
    by (simp add: step_result_def apply_step_def step_equality_def orient_def frame_def)
  then show ?case using Cons by (simp add: leaf_certificate_def)
qed

lemma foldr_law_wrap_ground [simp]: "ground (foldr law_wrap laws t) \<longleftrightarrow> ground t"
  by (induction laws) simp_all

lemma foldr_law_wrap_wf: "list_all law_ok laws \<Longrightarrow> wf_term (foldr law_wrap laws t) \<longleftrightarrow> wf_term t"
  by (induction laws) (simp_all add: law_wrap_wf)

lemma foldl_rev_law_wrap: "foldl (\<lambda>t law. law_wrap law t) t (rev laws) = foldr law_wrap laws t"
  by (simp add: foldr_conv_foldl)

lemma leaf_goal_claim:
  "goal_claim (leaf_goal dt salt laws path leaf k) =
     \<lparr> eq_lhs = wrap_context (dt_context dt) salt path
         (foldr law_wrap laws (Atom (dt_atom dt @ show_nat leaf @ ''_'' @ show_salt salt))),
       eq_rhs = wrap_context (dt_context dt) salt path (Atom (dt_atom dt @ show_nat leaf @ ''_'' @ show_salt salt)) \<rparr>"
  by (simp add: leaf_goal_def Let_def foldl_rev_law_wrap)

lemma leaf_goal_sound:
  assumes "theory_ok dt" "list_all law_ok laws" "leaf \<le> usize_max" "length path \<le> usize_max"
  shows "goal_sound k (leaf_goal dt salt laws path leaf k)"
proof -
  have "valid_identifier (dt_atom dt @ show_nat leaf @ ''_'' @ show_salt salt)"
    using assms by (intro short_name_salted) (simp_all add: theory_ok_def)
  then show ?thesis
    using assms
    by (simp add: goal_sound_def leaf_goal_claim wrap_context_wf theory_ok_def foldr_law_wrap_wf)
      (simp add: leaf_goal_def Let_def ground_def term_variables_simps)
qed

lemma draw_indices_ok:
  assumes "0 < bound" "bound \<le> usize_max"
  shows "length (fst (draw_indices bound k rng)) = k \<and> (\<forall>i\<in>set (fst (draw_indices bound k rng)). i < bound)"
proof (induction k arbitrary: rng)
  case (Suc k)
  then show ?case
    using next_index_bound [OF assms, of rng] by (auto simp: case_prod_beta)
qed simp

definition leaf_size :: "formal_config \<Rightarrow> nat" where
  "leaf_size config = 4 + 2 * fc_rewrite_depth config + 4 * fc_context_depth config"

lemma leaf_goal_nodes:
  "claim_nodes (leaf_goal dt salt laws path leaf k) = 2 + 2 * length laws + 4 * length path"
  by (simp add: claim_nodes_def leaf_goal_claim foldr_law_wrap_nodes wrap_context_nodes)

lemma leaf_loop_ok:
  assumes dt: "theory_ok dt" and sel: "selected \<noteq> []" "list_all law_ok selected" "length selected \<le> usize_max"
    and axs: "distinct (map ax_id axioms)" "\<And>law. law \<in> set selected \<Longrightarrow> law_axiom law \<in> set axioms"
    and ctx: "fc_context_depth config \<le> maximum_path_depth limits" "fc_context_depth config \<le> usize_max"
  shows "draft_inv axioms limits budget d (set frontier) \<Longrightarrow> distinct frontier \<Longrightarrow> \<forall>leaf\<in>set leaves. leaf \<le> usize_max \<Longrightarrow>
    \<exists>d' frontier' rng'. leaf_loop dt salt selected config leaves d frontier rng = (d', frontier', rng')
      \<and> draft_inv axioms limits (budget + length leaves * leaf_size config) d' (set frontier') \<and> distinct frontier'
      \<and> length frontier' = length frontier + length leaves
      \<and> length (fst d') = length (fst d) + length leaves
      \<and> draft_steps d' = draft_steps d + length leaves * fc_rewrite_depth config"
proof (induction leaves arbitrary: d frontier rng budget)
  case Nil
  then show ?case by (cases d) auto
next
  case (Cons leaf leaves)
  obtain goals certs where d: "d = (goals, certs)" by fastforce
  obtain js rng1 where is': "draw_indices (length selected) (fc_rewrite_depth config) rng = (js, rng1)" by fastforce
  obtain path rng2 where path: "draw_indices 2 (fc_context_depth config) rng1 = (path, rng2)" by fastforce
  have isok: "length js = fc_rewrite_depth config" "\<forall>i\<in>set js. i < length selected"
    using draw_indices_ok [of "length selected" "fc_rewrite_depth config" rng] sel is' by auto
  have pathok: "length path = fc_context_depth config" "\<forall>h\<in>set path. h < 2"
    using draw_indices_ok [of 2 "fc_context_depth config" rng1] path by (auto simp: usize_max_def)
  let ?laws = "map (\<lambda>i. selected ! i) js" and ?n = "length goals"
  have laws: "set ?laws \<subseteq> set selected" using isok(2) by auto
  let ?g = "leaf_goal dt salt ?laws path leaf ?n" and ?c = "leaf_certificate ?laws path ?n"
  have lawok: "list_all law_ok ?laws" using laws sel(2) by (auto simp: list_all_iff)
  have "goal_sound ?n ?g"
    using dt lawok Cons.prems(3) pathok(1) ctx(2) by (intro leaf_goal_sound) auto
  moreover have "proves_goal axioms limits (goals @ [?g]) ?n ?c"
  proof -
    have "\<And>law. law \<in> set ?laws \<Longrightarrow> law_axiom law \<in> set axioms" using laws axs(2) by blast
    moreover have "length path \<le> maximum_path_depth limits" using pathok(1) ctx(1) by simp
    ultimately show ?thesis
      unfolding proves_goal_def nth_append_length leaf_goal_claim rewrite_axiom.simps ruliad_equality.select_convs
      by (intro leaf_steps_proved [OF axs(1) _ pathok(2)])
  qed
  ultimately have "draft_inv axioms limits (budget + leaf_size config) (goals @ [?g], certs @ [?c])
      (insert ?n (set frontier - {}))"
    using Cons.prems(1) d isok(1) pathok(1)
    by (intro draft_inv_push) (auto simp: leaf_certificate_def leaf_goal_nodes leaf_size_def)
  then have inv: "draft_inv axioms limits (budget + leaf_size config) (goals @ [?g], certs @ [?c])
      (set (frontier @ [?n]))" by simp
  have dist: "distinct (frontier @ [?n])" using Cons.prems(1,2) d by (auto simp: draft_inv_def)
  have rest: "\<forall>leaf\<in>set leaves. leaf \<le> usize_max" using Cons.prems(3) by simp
  obtain d' frontier' rng' where step:
    "leaf_loop dt salt selected config leaves (goals @ [?g], certs @ [?c]) (frontier @ [?n]) rng2 = (d', frontier', rng')"
    "draft_inv axioms limits (budget + leaf_size config + length leaves * leaf_size config) d' (set frontier')"
    "distinct frontier'" "length frontier' = length (frontier @ [?n]) + length leaves"
    "length (fst d') = length (fst (goals @ [?g], certs @ [?c])) + length leaves"
    "draft_steps d' = draft_steps (goals @ [?g], certs @ [?c]) + length leaves * fc_rewrite_depth config"
    using Cons.IH [OF inv dist rest, of rng2] by blast
  have "draft_steps (goals @ [?g], certs @ [?c]) = draft_steps d + fc_rewrite_depth config"
    using isok(1) d by (simp add: draft_steps_def leaf_certificate_def)
  then show ?case using step is' path d by (simp add: Let_def add.assoc)
qed

section \<open>The axioms\<close>

lemma derived_wrap_fold:
  assumes "list_all law_ok selected" "selected \<noteq> []"
  shows "wf_term (foldl (\<lambda>t i. law_wrap (selected ! (i mod length selected)) t) t js) \<longleftrightarrow> wf_term t"
    and "term_variables (foldl (\<lambda>t i. law_wrap (selected ! (i mod length selected)) t) t js) = term_variables t"
  using assms
  by (induction js arbitrary: t) (simp_all add: law_wrap_wf law_wrap_variables list_all_length)

lemma law_wrap_not_variable: "law_wrap law t \<noteq> Variable v"
  by (cases "law_shape law") (simp_all add: law_wrap_def)

lemma law_axiom_wf: "law_ok law \<Longrightarrow> wf_axiom (law_axiom law)"
  by (simp add: wf_axiom_def law_axiom_def law_wrap_wf law_wrap_variables law_wrap_not_variable)
    (simp add: law_ok_def)

lemma derived_distractor_wf:
  assumes "list_all law_ok selected" "selected \<noteq> []" "theory_ok dt" "index \<le> usize_max"
  shows "wf_axiom (derived_distractor dt index selected)"
proof (cases "index = 0")
  case True
  have "valid_identifier ''aux_assoc''" by (simp add: valid_identifier_def identifier_byte_def)
  then show ?thesis using True assms(3)
    by (auto simp: wf_axiom_def derived_distractor_def Let_def theory_ok_def term_variables_simps)
next
  case False
  have ident: "valid_identifier (''aux_derived_'' @ show_nat index)"
    using assms(4) by (intro short_name_numbered) (simp_all add: short_name_def identifier_byte_def)
  let ?lhs = "foldl (\<lambda>t i. law_wrap (selected ! (i mod length selected)) t) (Variable 0) [0..<Suc index]"
  have "?lhs \<noteq> Variable v" for v by (simp add: law_wrap_not_variable)
  moreover have "wf_term ?lhs" "term_variables ?lhs = term_variables (Variable 0)"
    using derived_wrap_fold [OF assms(1,2), of "Variable 0" "[0..<Suc index]"] by (simp_all del: upt_Suc)
  ultimately show ?thesis
    using False ident by (simp add: wf_axiom_def derived_distractor_def del: upt_Suc)
qed

lemma derived_distractor_id:
  "ax_id (derived_distractor dt index selected) =
     (if index = 0 then ''aux_assoc'' else ''aux_derived_'' @ show_nat index)"
  by (simp add: derived_distractor_def Let_def)

lemma formal_axioms_ok:
  assumes "theory_ok dt" "list_all law_ok selected" "selected \<noteq> []" "distinct (map law_id selected)"
    "n \<le> usize_max"
  shows "list_all wf_axiom (formal_axioms dt selected n)" "distinct (map ax_id (formal_axioms dt selected n))"
    "law \<in> set selected \<Longrightarrow> law_axiom law \<in> set (formal_axioms dt selected n)"
    "length (formal_axioms dt selected n) = length selected + n"
proof -
  show "list_all wf_axiom (formal_axioms dt selected n)"
    using assms law_axiom_wf derived_distractor_wf [OF assms(2,3,1)] by (auto simp: formal_axioms_def list_all_iff)
  let ?aux = "\<lambda>index. ax_id (derived_distractor dt index selected)"
  have "inj_on ?aux {0..<n}"
  proof (rule inj_onI)
    fix i j assume "i \<in> {0..<n}" "j \<in> {0..<n}" "?aux i = ?aux j"
    then show "i = j"
      using assms(5) show_nat_inj [of i j] by (auto simp: derived_distractor_id split: if_splits)
  qed
  moreover have "take 4 (?aux index) = ''aux_''" for index by (simp add: derived_distractor_id)
  moreover have "\<forall>law\<in>set selected. take 4 (law_id law) \<noteq> ''aux_''"
    using assms(2) by (auto simp: list_all_iff law_ok_def)
  ultimately show "distinct (map ax_id (formal_axioms dt selected n))"
    using assms(4) by (auto simp: formal_axioms_def law_axiom_def distinct_map comp_def inj_on_def)
qed (auto simp: formal_axioms_def)

end
