(* ===== verification/Ruliad_Formal_Alpha.thy ===== *)
theory Ruliad_Formal_Alpha
  imports Ruliad_Formal_Draft
begin

text \<open>
  Alpha renaming keeps proofs: a proof step that applies still applies after operators, atoms and
  axiom ids are renamed and the axioms permuted, as long as the renamed axiom ids stay distinct.
  The maps the generator draws are such renamings, into fresh valid labels.
\<close>

section \<open>Symbols of terms\<close>

fun operators_of :: "ruliad_term \<Rightarrow> string set" where
  "operators_of (Variable _) = {}"
| "operators_of (Atom _) = {}"
| "operators_of (Apply f ts) = insert f (\<Union> (set (map operators_of ts)))"

fun atoms_of :: "ruliad_term \<Rightarrow> string set" where
  "atoms_of (Variable _) = {}"
| "atoms_of (Atom s) = {s}"
| "atoms_of (Apply f ts) = \<Union> (set (map atoms_of ts))"

lemma collect_symbols_eq:
  "collect_term_symbols t acc = (fst acc \<union> operators_of t, snd acc \<union> atoms_of t)"
  "collect_terms_symbols ts acc =
     (fst acc \<union> \<Union> (set (map operators_of ts)), snd acc \<union> \<Union> (set (map atoms_of ts)))"
  by (induction t acc and ts acc rule: collect_term_symbols_collect_terms_symbols.induct) auto

definition claim_operators :: "ruliad_equality \<Rightarrow> string set" where
  "claim_operators e = operators_of (eq_lhs e) \<union> operators_of (eq_rhs e)"

definition claim_atoms :: "ruliad_equality \<Rightarrow> string set" where
  "claim_atoms e = atoms_of (eq_lhs e) \<union> atoms_of (eq_rhs e)"

definition axiom_claim :: "rewrite_axiom \<Rightarrow> ruliad_equality" where
  "axiom_claim ax = \<lparr> eq_lhs = ax_lhs ax, eq_rhs = ax_rhs ax \<rparr>"

definition problem_claims :: "proof_problem \<Rightarrow> ruliad_equality list" where
  "problem_claims p = map axiom_claim (problem_axioms p) @ map goal_claim (problem_goals p)"

lemma foldl_claims:
  "foldl (\<lambda>acc x. collect_term_symbols (eq_rhs (f x)) (collect_term_symbols (eq_lhs (f x)) acc)) acc xs =
     (fst acc \<union> \<Union> (set (map (\<lambda>x. claim_operators (f x)) xs)), snd acc \<union> \<Union> (set (map (\<lambda>x. claim_atoms (f x)) xs)))"
  by (induction xs arbitrary: acc) (auto simp: collect_symbols_eq claim_operators_def claim_atoms_def)

lemma bundle_symbols_eq:
  "bundle_symbols p = (\<Union> (set (map claim_operators (problem_claims p))), \<Union> (set (map claim_atoms (problem_claims p))))"
  using foldl_claims [of axiom_claim "({}, {})" "problem_axioms p"] foldl_claims [of goal_claim _ "problem_goals p"]
  by (simp add: bundle_symbols_def problem_claims_def axiom_claim_def image_Un image_image)

lemma finite_symbols [simp]: "finite (operators_of t)" "finite (atoms_of t)"
  by (induction t) auto

lemma card_Union_list: "(\<And>x. x \<in> set xs \<Longrightarrow> finite (f x) \<and> card (f x) \<le> g x) \<Longrightarrow>
   card (\<Union> (set (map f xs))) \<le> sum_list (map g xs)"
proof (induction xs)
  case (Cons x xs)
  have "card (\<Union> (set (map f (x # xs)))) \<le> card (f x) + card (\<Union> (set (map f xs)))"
    using card_Un_le [of "f x" "\<Union> (set (map f xs))"] by simp
  also have "\<dots> \<le> sum_list (map g (x # xs))" using Cons by (simp add: add_mono)
  finally show ?case .
qed simp

lemma card_operators: "card (operators_of t) \<le> term_nodes t"
proof (induction t)
  case (Apply f ts)
  have "card (\<Union> (set (map operators_of ts))) \<le> sum_list (map term_nodes ts)"
    using Apply by (intro card_Union_list) auto
  then show ?case using card_insert_le_m1 [of "Suc (sum_list (map term_nodes ts))" "\<Union> (set (map operators_of ts))" f]
    by (simp add: card_insert_if)
qed auto

lemma card_atoms: "card (atoms_of t) \<le> term_nodes t"
proof (induction t)
  case (Apply f ts)
  have "card (\<Union> (set (map atoms_of ts))) \<le> sum_list (map term_nodes ts)"
    using Apply by (intro card_Union_list) auto
  then show ?case by simp
qed auto

definition equality_nodes :: "ruliad_equality \<Rightarrow> nat" where
  "equality_nodes e = term_nodes (eq_lhs e) + term_nodes (eq_rhs e)"

definition problem_nodes :: "proof_problem \<Rightarrow> nat" where
  "problem_nodes p = sum_list (map equality_nodes (problem_claims p))"

lemma card_claim: "card (claim_operators e) \<le> equality_nodes e" "card (claim_atoms e) \<le> equality_nodes e"
  using card_Un_le [of "operators_of (eq_lhs e)" "operators_of (eq_rhs e)"] card_operators
    card_Un_le [of "atoms_of (eq_lhs e)" "atoms_of (eq_rhs e)"] card_atoms
  by (simp_all add: claim_operators_def claim_atoms_def equality_nodes_def) (meson add_mono le_trans)+

lemma card_bundle_symbols:
  "card (fst (bundle_symbols p)) \<le> problem_nodes p" "card (snd (bundle_symbols p)) \<le> problem_nodes p"
  "finite (fst (bundle_symbols p))" "finite (snd (bundle_symbols p))"
proof -
  show "card (fst (bundle_symbols p)) \<le> problem_nodes p"
    unfolding bundle_symbols_eq fst_conv problem_nodes_def
    by (rule card_Union_list) (simp add: card_claim, simp add: claim_operators_def)
  show "card (snd (bundle_symbols p)) \<le> problem_nodes p"
    unfolding bundle_symbols_eq snd_conv problem_nodes_def
    by (rule card_Union_list) (simp add: card_claim, simp add: claim_atoms_def)
qed (auto simp: bundle_symbols_eq claim_operators_def claim_atoms_def)

section \<open>Renaming terms\<close>

fun rename_term :: "(string \<Rightarrow> string) \<Rightarrow> (string \<Rightarrow> string) \<Rightarrow> ruliad_term \<Rightarrow> ruliad_term" where
  "rename_term f g (Variable i) = Variable i"
| "rename_term f g (Atom s) = Atom (g s)"
| "rename_term f g (Apply h ts) = Apply (f h) (map (rename_term f g) ts)"

lemma rename_term_symbols_total:
  "operators_of t \<subseteq> dom F \<Longrightarrow> atoms_of t \<subseteq> dom G \<Longrightarrow>
     rename_term_symbols F G t = Some (rename_term (\<lambda>s. the (F s)) (\<lambda>s. the (G s)) t)"
proof (induction t)
  case (Apply h ts)
  have "those (map (rename_term_symbols F G) ts) = Some (map (rename_term (\<lambda>s. the (F s)) (\<lambda>s. the (G s))) ts)"
    using Apply by (intro those_map_Some) (auto simp: SUP_le_iff)
  then show ?case using Apply.prems by auto
qed auto

lemma those_map_option: "those (map (\<lambda>x. map_option f (g x)) xs) = map_option (map f) (those (map g xs))"
  by (induction xs) (auto simp: option.map_comp comp_def split: option.splits)

lemma rename_instantiate:
  "instantiate (rename_term f g p) (\<lambda>i. map_option (rename_term f g) (\<sigma> i))
     = map_option (rename_term f g) (instantiate p \<sigma>)"
proof (induction p)
  case (Apply h ts)
  have "map (\<lambda>a. instantiate (rename_term f g a) (\<lambda>i. map_option (rename_term f g) (\<sigma> i))) ts
      = map (\<lambda>a. map_option (rename_term f g) (instantiate a \<sigma>)) ts"
    using Apply by simp
  then have "those (map (\<lambda>a. instantiate (rename_term f g a) (\<lambda>i. map_option (rename_term f g) (\<sigma> i))) ts)
      = map_option (map (rename_term f g)) (those (map (\<lambda>a. instantiate a \<sigma>) ts))"
    by (simp only: those_map_option)
  then show ?case by (cases "those (map (\<lambda>a. instantiate a \<sigma>) ts)") (simp_all add: comp_def)
qed auto

lemma rename_at_path: "at_path (rename_term f g t) path = map_option (rename_term f g) (at_path t path)"
  by (induction t path rule: at_path.induct) auto

lemma rename_put_at:
  "at_path t path \<noteq> None \<Longrightarrow>
     put_at (rename_term f g t) path (rename_term f g s) = rename_term f g (put_at t path s)"
  by (induction t path rule: at_path.induct) (auto simp: map_update split: if_splits)

lemma rename_variables [simp]: "term_variables (rename_term f g t) = term_variables t"
  by (induction t) (auto simp: term_variables_simps)

lemma rename_nodes [simp]: "term_nodes (rename_term f g t) = term_nodes t"
proof (induction t)
  case (Apply h ts)
  then have eq: "map (term_nodes \<circ> rename_term f g) ts = map term_nodes ts" by simp
  show ?case by (simp only: rename_term.simps term_nodes.simps map_map eq)
qed auto

lemma rename_wf:
  "(\<And>s. s \<in> operators_of t \<Longrightarrow> valid_identifier (f s)) \<Longrightarrow> (\<And>s. s \<in> atoms_of t \<Longrightarrow> valid_identifier (g s)) \<Longrightarrow>
     wf_term t \<Longrightarrow> wf_term (rename_term f g t)"
  by (induction t) (auto simp: list_all_iff)

lemma rename_rewrite:
  assumes "rewrite_at_path t path p r = Inr u"
  shows "rewrite_at_path (rename_term f g t) path (rename_term f g p) (rename_term f g r) = Inr (rename_term f g u)"
proof -
  let ?R = "rename_term f g"
  obtain s s' \<sigma> where s: "at_path t path = Some s" "u = put_at t path s'"
    and \<sigma>: "dom \<sigma> = term_variables p" "instantiate p \<sigma> = Some s" "instantiate r \<sigma> = Some s'"
    using assms by (auto simp: rewrite_at_path_Inr rewrite_here_Inr)
  have "dom (\<lambda>i. map_option ?R (\<sigma> i)) = term_variables (?R p)"
    using \<sigma>(1) by (auto simp: dom_def)
  moreover have "instantiate (?R p) (\<lambda>i. map_option ?R (\<sigma> i)) = Some (?R s)"
    "instantiate (?R r) (\<lambda>i. map_option ?R (\<sigma> i)) = Some (?R s')"
    using \<sigma>(2,3) by (simp_all add: rename_instantiate)
  ultimately have "rewrite_here (?R s) (?R p) (?R r) = Inr (?R s')"
    unfolding rewrite_here_Inr by blast
  then show ?thesis
    unfolding rewrite_at_path_Inr
    using s rename_at_path [of f g t path] rename_put_at [of t path f g s'] by auto
qed

section \<open>Renaming problems and proofs\<close>

definition rename_equality :: "(string \<Rightarrow> string) \<Rightarrow> (string \<Rightarrow> string) \<Rightarrow> ruliad_equality \<Rightarrow> ruliad_equality" where
  "rename_equality f g e = \<lparr> eq_lhs = rename_term f g (eq_lhs e), eq_rhs = rename_term f g (eq_rhs e) \<rparr>"

definition renamed_axiom ::
    "(string \<Rightarrow> string) \<Rightarrow> (string \<Rightarrow> string) \<Rightarrow> (string \<Rightarrow> string) \<Rightarrow> rewrite_axiom \<Rightarrow> rewrite_axiom" where
  "renamed_axiom h f g ax =
     \<lparr> ax_id = h (ax_id ax), ax_lhs = rename_term f g (ax_lhs ax), ax_rhs = rename_term f g (ax_rhs ax) \<rparr>"

definition renamed_goal ::
    "(string \<Rightarrow> string) \<Rightarrow> (string \<Rightarrow> string) \<Rightarrow> (string \<Rightarrow> string) \<Rightarrow> proof_goal \<Rightarrow> proof_goal" where
  "renamed_goal h f g goal =
     goal\<lparr> goal_id := h (goal_id goal), goal_claim := rename_equality f g (goal_claim goal) \<rparr>"

definition renamed_step :: "(string \<Rightarrow> string) \<Rightarrow> proof_step \<Rightarrow> proof_step" where
  "renamed_step h s =
     (case step_source s of
        AxiomSource ident \<Rightarrow> s\<lparr> step_source := AxiomSource (h ident) \<rparr>
      | LemmaSource _ \<Rightarrow> s)"

lemma renamed_step_simps [simp]:
  "step_path (renamed_step h s) = step_path s" "step_direction (renamed_step h s) = step_direction s"
  by (auto simp: renamed_step_def split: proof_source.splits)

lemma step_renamed:
  assumes step: "step_result p k limits t s = Inr u" and k: "k < length (problem_goals p)"
    and axioms: "distinct (map ax_id (problem_axioms q))"
      "renamed_axiom h f g ` set (problem_axioms p) \<subseteq> set (problem_axioms q)"
    and goals: "problem_goals q = map (renamed_goal h' f g) (problem_goals p)"
  shows "step_result q k limits (rename_term f g t) (renamed_step h s) = Inr (rename_term f g u)"
proof -
  let ?gp = "problem_goals p ! k" and ?ap = "index_axioms (problem_axioms p)"
  obtain e where depth: "length (step_path s) \<le> maximum_path_depth limits"
    and e: "step_equality p k ?gp ?ap (step_source s) = Inr e"
    and rw: "rewrite_at_path t (step_path s) (fst (orient (step_direction s) e)) (snd (orient (step_direction s) e)) = Inr u"
    using step by (auto simp: step_result_def apply_step_def result_bind_Inr case_prod_beta split: if_splits)
  have "step_equality q k (problem_goals q ! k) (index_axioms (problem_axioms q)) (step_source (renamed_step h s))
      = Inr (rename_equality f g e)"
  proof (cases "step_source s")
    case (AxiomSource ident)
    then obtain ax where ax: "?ap ident = Some ax" "e = \<lparr> eq_lhs = ax_lhs ax, eq_rhs = ax_rhs ax \<rparr>"
      using e by (auto simp: step_equality_def split: option.splits)
    then have "ax \<in> set (problem_axioms p)" "ax_id ax = ident" using index_axioms_Some by blast+
    then have "index_axioms (problem_axioms q) (h ident) = Some (renamed_axiom h f g ax)"
      using index_axioms_lookup [OF axioms(1), of "renamed_axiom h f g ax"] axioms(2)
      by (auto simp: renamed_axiom_def)
    then show ?thesis using AxiomSource ax(2)
      by (simp add: step_equality_def renamed_step_def renamed_axiom_def rename_equality_def)
  next
    case (LemmaSource d)
    then have "d \<in> set (goal_dependencies ?gp)" "d < length (problem_goals p)" "e = goal_claim (problem_goals p ! d)"
      using e by (auto simp: step_equality_def split: if_splits)
    then show ?thesis using LemmaSource k
      by (simp add: step_equality_def renamed_step_def goals renamed_goal_def)
  qed
  moreover have "rewrite_at_path (rename_term f g t) (step_path s)
      (fst (orient (step_direction s) (rename_equality f g e)))
      (snd (orient (step_direction s) (rename_equality f g e))) = Inr (rename_term f g u)"
    using rename_rewrite [OF rw, of f g]
    by (cases "step_direction s") (simp_all add: orient_def rename_equality_def)
  ultimately show ?thesis
    using depth by (simp add: step_result_def apply_step_def case_prod_beta)
qed

lemma steps_renamed:
  assumes "proof_steps p k limits t steps u" and "k < length (problem_goals p)"
    and "distinct (map ax_id (problem_axioms q))"
      "renamed_axiom h f g ` set (problem_axioms p) \<subseteq> set (problem_axioms q)"
    and "problem_goals q = map (renamed_goal h' f g) (problem_goals p)"
  shows "proof_steps q k limits (rename_term f g t) (map (renamed_step h) steps) (rename_term f g u)"
  using assms(1) step_renamed [OF _ assms(2-5)]
  by (induction rule: proof_steps.induct) (auto intro: proof_steps.intros)

section \<open>The drawn maps\<close>

lemma local_symbol_map_ok:
  assumes "finite S" and "card S \<le> usize_max"
  obtains m rng' where "local_symbol_map S label rng = (m, rng')" "dom m = S" "inj_on (\<lambda>s. the (m s)) S"
    "\<And>s. s \<in> S \<Longrightarrow> \<exists>i<card S. the (m s) = label @ show_nat i"
proof -
  let ?names = "map (\<lambda>i. label @ show_nat i) [0..<card S]"
  obtain labels rng' where sh: "shuffle ?names rng = (labels, rng')" by fastforce
  have "mset labels = mset ?names" using shuffle_mset [of ?names rng] sh assms(2) by simp
  then have labels: "set labels = set ?names" "length labels = card S"
    using mset_eq_setD mset_eq_length by (metis, metis length_map length_upt minus_nat.diff_0)
  have "inj_on (\<lambda>i. label @ show_nat i) {0..<card S}"
    using assms(2) show_nat_inj by (auto simp: inj_on_def)
  then have "distinct ?names" by (simp add: distinct_map)
  then have dist: "distinct labels" using \<open>mset labels = mset ?names\<close> mset_eq_imp_distinct_iff by blast
  let ?xs = "sorted_list_of_set S" and ?m = "map_of (zip (sorted_list_of_set S) labels)"
  have xs: "set ?xs = S" "distinct ?xs" "length ?xs = card S" using assms(1) by simp_all
  have nth: "?m (?xs ! i) = Some (labels ! i)" if "i < card S" for i
    using that xs labels(2) by (simp add: map_of_zip_nth)
  have ex: "\<exists>i<card S. s = ?xs ! i" if "s \<in> S" for s using that xs by (metis in_set_conv_nth)
  show ?thesis
  proof (rule that)
    show "local_symbol_map S label rng = (?m, rng')" using sh by (simp add: local_symbol_map_def)
    show "dom ?m = S" using xs labels(2) by (simp add: dom_map_of_zip)
    show "inj_on (\<lambda>s. the (?m s)) S"
    proof (rule inj_onI)
      fix s s' assume "s \<in> S" "s' \<in> S" and eq: "the (?m s) = the (?m s')"
      then obtain i j where "i < card S" "s = ?xs ! i" "j < card S" "s' = ?xs ! j" using ex by metis
      with eq nth dist labels(2) show "s = s'" by (simp add: nth_eq_iff_index_eq)
    qed
    fix s assume "s \<in> S"
    then obtain i where i: "i < card S" "s = ?xs ! i" using ex by blast
    then have "labels ! i \<in> set ?names" using labels by (metis nth_mem)
    then show "\<exists>i<card S. the (?m s) = label @ show_nat i" using nth [OF i(1)] i(2) by auto
  qed
qed

end
