(* ===== verification/Ruliad_Formal_Bundle.thy ===== *)
theory Ruliad_Formal_Bundle
  imports Ruliad_Formal_Alpha
begin

text \<open>
  The generator as a whole: for every seed and split, what it assembles is a well-formed problem
  whose certificate proves every goal, alpha renaming keeps that, and so the replay that guards
  the result can only fail on the kernel's resource limits; explicit bounds on the configuration
  exclude even that. A corrupted certificate is rejected.
\<close>

section \<open>Well-formed problems and their sizes\<close>

definition problem_well_formed :: "proof_problem \<Rightarrow> bool" where
  "problem_well_formed p \<longleftrightarrow>
     problem_version p = ruliad_ir_version \<and> str_trim (problem_theory p) \<noteq> []
     \<and> problem_root p < length (problem_goals p)
     \<and> list_all wf_axiom (problem_axioms p) \<and> distinct (map ax_id (problem_axioms p))
     \<and> (\<forall>k<length (problem_goals p). wf_goal k (problem_goals p ! k))
     \<and> distinct (map goal_id (problem_goals p))"

definition bundle_proved :: "kernel_limits \<Rightarrow> proof_bundle \<Rightarrow> bool" where
  "bundle_proved limits b \<longleftrightarrow>
     problem_well_formed (bundle_problem b) \<and> cert_version (bundle_certificate b) = ruliad_ir_version
     \<and> certificate_proves (bundle_problem b) limits (bundle_certificate b)"

definition bundle_within :: "kernel_limits \<Rightarrow> proof_bundle \<Rightarrow> bool" where
  "bundle_within limits b \<longleftrightarrow>
     length (problem_axioms (bundle_problem b)) \<le> maximum_axioms limits
     \<and> length (problem_goals (bundle_problem b)) \<le> maximum_goals limits
     \<and> problem_nodes (bundle_problem b) \<le> maximum_term_nodes limits
     \<and> step_count (bundle_certificate b) \<le> maximum_steps limits"

lemma problem_nodes_bound: "axiom_nodes (problem_axioms p) + goal_nodes (problem_goals p) \<le> problem_nodes p"
proof -
  have le: "node_count t \<le> term_nodes t" for t by (simp add: node_count_term_nodes)
  have "axiom_nodes axs \<le> sum_list (map (\<lambda>ax. equality_nodes (axiom_claim ax)) axs)" for axs
    unfolding axiom_nodes_def equality_nodes_def axiom_claim_def by (intro sum_list_mono) (simp add: add_mono le)
  moreover have "goal_nodes gs \<le> sum_list (map (\<lambda>g. equality_nodes (goal_claim g)) gs)" for gs
    unfolding goal_nodes_def equality_nodes_def by (intro sum_list_mono) (simp add: add_mono le)
  ultimately show ?thesis by (simp add: problem_nodes_def problem_claims_def comp_def add_mono)
qed

lemma proved_bundle_accepted:
  assumes "bundle_proved limits b" and "bundle_within limits b" and "hash (bundle_problem b) = Inr h"
  shows "replay_accepts hash (bundle_problem b) ((bundle_certificate b)\<lparr> cert_problem_hash := h \<rparr>) limits"
proof -
  have "wf_problem limits (bundle_problem b)"
    using assms(1,2) problem_nodes_bound [of "bundle_problem b"]
    by (auto simp: wf_problem_def problem_well_formed_def bundle_proved_def bundle_within_def min_def)
  then show ?thesis
    using assms by (simp add: replay_accepts_iff bundle_proved_def bundle_within_def step_count_def certificate_proves_def)
qed

section \<open>The assembled bundle\<close>

lemma goal_name_props: "k \<le> usize_max \<Longrightarrow> valid_identifier (goal_name k)"
  "j \<le> usize_max \<Longrightarrow> k \<le> usize_max \<Longrightarrow> goal_name j = goal_name k \<longleftrightarrow> j = k"
  using short_name_numbered [of "''g''" k] show_nat_inj [of j k]
  by (simp_all add: goal_name_def short_name_def identifier_byte_def)

lemma draft_goals_ok:
  assumes "draft_inv axioms limits budget (goals, certs) waiting" and "length goals \<le> usize_max"
  shows "\<forall>k<length goals. wf_goal k (goals ! k)" "distinct (map goal_id goals)"
proof -
  have sound: "goal_sound k (goals ! k)" if "k < length goals" for k
    using assms(1) that by (simp add: draft_inv_def)
  show "\<forall>k<length goals. wf_goal k (goals ! k)"
    using sound assms(2) goal_name_props(1) by (auto simp: wf_goal_def goal_sound_def)
  have "map goal_id goals = map goal_name [0..<length goals]"
    using sound by (intro nth_equalityI) (simp_all add: goal_sound_def)
  moreover have "inj_on goal_name {0..<length goals}"
    using goal_name_props(2) assms(2) by (auto simp: inj_on_def)
  ultimately show "distinct (map goal_id goals)" by (simp add: distinct_map)
qed

lemma depends_on_goal_edge: "depends_on p = goal_edge (problem_goals p)"
  by (auto simp: fun_eq_iff depends_on_def goal_edge_def goal_dependencies_at_def split: if_splits)

lemma draft_required:
  assumes inv: "draft_inv axioms limits budget (problem_goals p, certs) {problem_root p}"
  shows "required_goal_indices p = [0..<length (problem_goals p)]"
proof -
  let ?n = "length (problem_goals p)"
  have root: "problem_root p < ?n" and reach: "\<forall>k<?n. (goal_edge (problem_goals p))\<^sup>*\<^sup>* (problem_root p) k"
    using inv by (auto simp: draft_inv_def)
  have precede: "j < i" if "i < ?n" "j \<in> set (goal_dependencies (problem_goals p ! i))" for i j
    using inv that by (simp add: draft_inv_def goal_sound_def)
  have "required_goal_set p \<subseteq> {..<?n}"
  proof
    fix k assume k: "k \<in> required_goal_set p"
    have "k \<le> problem_root p" by (rule required_in_range [OF root]) (use precede k in auto)
    then show "k \<in> {..<?n}" using root by simp
  qed
  moreover have "{..<?n} \<subseteq> required_goal_set p"
    unfolding required_goal_set_eq depends_on_goal_edge using reach by blast
  ultimately have "required_goal_set p = {..<?n}" by (rule equalityI)
  then have "set (required_goal_indices p) = set [0..<?n]" by (simp add: lessThan_atLeast0)
  then show ?thesis
    using sorted_required_goal_indices [of p] strict_sorted_equal [of "required_goal_indices p" "[0..<?n]"] by simp
qed

lemma draft_bundle_proved:
  assumes inv: "draft_inv axioms limits budget (goals, certs) {root}" and len: "length goals \<le> usize_max"
    and axioms: "list_all wf_axiom axioms" "distinct (map ax_id axioms)" and dt: "theory_ok dt"
  shows "bundle_proved limits \<lparr> bundle_problem =
       \<lparr> problem_version = ruliad_ir_version, problem_domain = chosen, problem_theory = dt_name dt,
         problem_axioms = axioms, problem_goals = goals, problem_root = root \<rparr>,
     bundle_certificate = \<lparr> cert_version = ruliad_ir_version, cert_problem_hash = [], cert_goals = certs \<rparr> \<rparr>"
    (is "bundle_proved limits \<lparr> bundle_problem = ?p, bundle_certificate = ?c \<rparr>")
proof -
  have certs: "map gc_goal certs = [0..<length goals]"
    "\<forall>k<length goals. proves_goal axioms limits goals k (certs ! k)" and root: "root < length goals"
    using inv by (auto simp: draft_inv_def)
  have "certificate_proves ?p limits ?c"
    unfolding certificate_proves_def
  proof (intro conjI ballI)
    show "map gc_goal (cert_goals ?c) = required_goal_indices ?p"
      using certs(1) draft_required [of axioms limits budget ?p certs] inv by simp
  next
    fix node assume "node \<in> set (cert_goals ?c)"
    then obtain k where k: "k < length certs" "node = certs ! k" by (auto simp: in_set_conv_nth)
    then have "k < length goals" "gc_goal node = k"
      using certs(1) by (metis length_map length_upt minus_nat.diff_0, metis add_0 length_map length_upt minus_nat.diff_0 nth_map nth_upt)
    then have "proof_steps (frame axioms goals) (gc_goal node) limits (eq_lhs (goal_claim (goals ! gc_goal node)))
        (gc_steps node) (eq_rhs (goal_claim (goals ! gc_goal node)))"
      using certs(2) k by (simp add: proves_goal_def)
    then show "proof_steps ?p (gc_goal node) limits (eq_lhs (goal_claim (problem_goals ?p ! gc_goal node)))
        (gc_steps node) (eq_rhs (goal_claim (problem_goals ?p ! gc_goal node)))"
      by (subst proof_steps_frame) simp
  qed
  moreover have "str_trim (dt_name dt) \<noteq> []"
  proof -
    have "list_all identifier_byte (dt_name dt)" "dt_name dt \<noteq> []"
      using dt by (simp_all add: theory_ok_def valid_identifier_def)
    moreover have "identifier_byte c \<Longrightarrow> graphic c" for c
      by (auto simp: identifier_byte_def graphic_def Let_def)
    ultimately show ?thesis by (simp add: str_trim_graphic_all list_all_iff)
  qed
  ultimately show ?thesis
    using axioms root draft_goals_ok [OF inv len] by (simp add: bundle_proved_def problem_well_formed_def)
qed

section \<open>Renaming a bundle\<close>

lemma label_valid: "i \<le> usize_max \<Longrightarrow> c \<in> {CHR ''r'', CHR ''f'', CHR ''c'', CHR ''g''} \<Longrightarrow> valid_identifier ([c] @ show_nat i)"
  by (rule short_name_numbered) (auto simp: short_name_def identifier_byte_def)

lemma goal_dependencies_renamed:
  "problem_goals q = map (renamed_goal h f g) (problem_goals p) \<Longrightarrow> problem_root q = problem_root p \<Longrightarrow>
     required_goal_indices q = required_goal_indices p"
proof -
  assume q: "problem_goals q = map (renamed_goal h f g) (problem_goals p)" "problem_root q = problem_root p"
  then have "goal_edge (problem_goals q) = goal_edge (problem_goals p)"
    by (auto simp: fun_eq_iff goal_edge_def renamed_goal_def)
  then have "required_goal_set q = required_goal_set p"
    using q(2) by (simp add: required_goal_set_eq depends_on_goal_edge)
  then show ?thesis by (simp add: required_goal_indices_def)
qed

lemma renamed_axiom_wf:
  assumes "wf_axiom ax" "valid_identifier (h (ax_id ax))"
    "\<And>s. s \<in> claim_operators (axiom_claim ax) \<Longrightarrow> valid_identifier (f s)"
    "\<And>s. s \<in> claim_atoms (axiom_claim ax) \<Longrightarrow> valid_identifier (g s)"
  shows "wf_axiom (renamed_axiom h f g ax)"
proof -
  have "wf_term (rename_term f g (ax_lhs ax))" "wf_term (rename_term f g (ax_rhs ax))"
    using assms by (auto intro!: rename_wf simp: wf_axiom_def claim_operators_def claim_atoms_def axiom_claim_def)
  moreover have "rename_term f g (ax_lhs ax) \<noteq> Variable v" for v
    using assms(1) by (cases "ax_lhs ax") (auto simp: wf_axiom_def)
  ultimately show ?thesis using assms(1,2) by (simp add: wf_axiom_def renamed_axiom_def)
qed

lemma renamed_goal_wf:
  assumes "wf_goal k goal" "valid_identifier (h (goal_id goal))"
    "\<And>s. s \<in> claim_operators (goal_claim goal) \<Longrightarrow> valid_identifier (f s)"
    "\<And>s. s \<in> claim_atoms (goal_claim goal) \<Longrightarrow> valid_identifier (g s)"
  shows "wf_goal k (renamed_goal h f g goal)"
  using assms
  by (auto intro!: rename_wf simp: wf_goal_def renamed_goal_def rename_equality_def claim_operators_def claim_atoms_def)

lemma rename_axiom_total:
  assumes "ax_id ax \<in> dom H" "claim_operators (axiom_claim ax) \<subseteq> dom F" "claim_atoms (axiom_claim ax) \<subseteq> dom G"
  shows "rename_axiom H F G ax = Some (renamed_axiom (\<lambda>s. the (H s)) (\<lambda>s. the (F s)) (\<lambda>s. the (G s)) ax)"
  using assms
  by (auto simp: rename_axiom_def renamed_axiom_def rename_term_symbols_total claim_operators_def
      claim_atoms_def axiom_claim_def)

lemma rename_goal_total:
  assumes "goal_id goal \<in> dom H" "claim_operators (goal_claim goal) \<subseteq> dom F" "claim_atoms (goal_claim goal) \<subseteq> dom G"
  shows "rename_goal H F G goal = Some (renamed_goal (\<lambda>s. the (H s)) (\<lambda>s. the (F s)) (\<lambda>s. the (G s)) goal)"
  using assms
  by (auto simp: rename_goal_def renamed_goal_def rename_equality_def rename_term_symbols_total
      claim_operators_def claim_atoms_def)

text \<open>The axioms a certificate cites are axioms of the problem, so the renaming finds their ids.\<close>

lemma proved_step_sources:
  assumes "proof_steps p k limits t steps u" and "s \<in> set steps" and "step_source s = AxiomSource ident"
  shows "ident \<in> set (map ax_id (problem_axioms p))"
  using assms
proof (induction rule: proof_steps.induct)
  case (proof_steps_Cons t s' u steps v)
  show ?case
  proof (cases "s = s'")
    case True
    then have "index_axioms (problem_axioms p) ident \<noteq> None"
      using proof_steps_Cons.hyps(1) proof_steps_Cons.prems(2)
      by (auto simp: step_result_def apply_step_def step_equality_def result_bind_Inr split: if_splits option.splits)
    then show ?thesis using index_axioms_Some by fastforce
  next
    case False
    then show ?thesis using proof_steps_Cons by auto
  qed
qed simp

definition renamed_certificate :: "(string \<Rightarrow> string) \<Rightarrow> goal_certificate \<Rightarrow> goal_certificate" where
  "renamed_certificate h c = c\<lparr> gc_steps := map (renamed_step h) (gc_steps c) \<rparr>"

lemma rename_certificate_total:
  assumes "\<And>s ident. s \<in> set (gc_steps c) \<Longrightarrow> step_source s = AxiomSource ident \<Longrightarrow> ident \<in> dom H"
  shows "rename_certificate H c = Some (renamed_certificate (\<lambda>s. the (H s)) c)"
proof -
  have "those (map (rename_step H) (gc_steps c)) = Some (map (renamed_step (\<lambda>s. the (H s))) (gc_steps c))"
    using assms by (intro those_map_Some) (fastforce simp: rename_step_def renamed_step_def split: proof_source.splits)
  then show ?thesis by (simp add: rename_certificate_def renamed_certificate_def)
qed

lemma renamed_problem_well_formed:
  assumes p: "problem_well_formed p"
    and h: "inj_on h (set (map ax_id (problem_axioms p)))" "\<And>s. s \<in> set (map ax_id (problem_axioms p)) \<Longrightarrow> valid_identifier (h s)"
    and h': "inj_on h' (set (map goal_id (problem_goals p)))" "\<And>s. s \<in> set (map goal_id (problem_goals p)) \<Longrightarrow> valid_identifier (h' s)"
    and f: "\<And>s. s \<in> fst (bundle_symbols p) \<Longrightarrow> valid_identifier (f s)"
    and g: "\<And>s. s \<in> snd (bundle_symbols p) \<Longrightarrow> valid_identifier (g s)"
    and q: "problem_version q = problem_version p" "str_trim (problem_theory q) \<noteq> []" "problem_root q = problem_root p"
      "mset (problem_axioms q) = mset (map (renamed_axiom h f g) (problem_axioms p))"
      "problem_goals q = map (renamed_goal h' f g) (problem_goals p)"
  shows "problem_well_formed q"
proof -
  have ops: "s \<in> claim_operators (axiom_claim ax) \<Longrightarrow> valid_identifier (f s)"
    "s \<in> claim_atoms (axiom_claim ax) \<Longrightarrow> valid_identifier (g s)"
    if "ax \<in> set (problem_axioms p)" for ax s
    using that by (auto simp: bundle_symbols_eq problem_claims_def intro!: f g)
  have gops: "s \<in> claim_operators (goal_claim gl) \<Longrightarrow> valid_identifier (f s)"
    "s \<in> claim_atoms (goal_claim gl) \<Longrightarrow> valid_identifier (g s)"
    if "gl \<in> set (problem_goals p)" for gl s
    using that by (auto simp: bundle_symbols_eq problem_claims_def intro!: f g)
  have "list_all wf_axiom (map (renamed_axiom h f g) (problem_axioms p))"
    using p h(2) ops by (auto simp: list_all_iff problem_well_formed_def intro!: renamed_axiom_wf)
  then have "list_all wf_axiom (problem_axioms q)"
    using mset_eq_setD [OF q(4)] by (simp add: list_all_iff)
  moreover have "map ax_id (map (renamed_axiom h f g) (problem_axioms p)) = map h (map ax_id (problem_axioms p))"
    by (simp add: renamed_axiom_def)
  then have "distinct (map ax_id (map (renamed_axiom h f g) (problem_axioms p)))"
    using p h(1) by (simp only: distinct_map [of h]) (simp add: problem_well_formed_def)
  then have "distinct (map ax_id (problem_axioms q))"
    using q(4) by (metis mset_eq_imp_distinct_iff mset_map)
  moreover have "wf_goal k (problem_goals q ! k)" if "k < length (problem_goals q)" for k
    using that p h'(2) gops [OF nth_mem] unfolding q(5)
    by (auto simp: problem_well_formed_def intro!: renamed_goal_wf)
  moreover have "map goal_id (problem_goals q) = map h' (map goal_id (problem_goals p))"
    by (simp add: q(5) renamed_goal_def)
  then have "distinct (map goal_id (problem_goals q))"
    using p h'(1) by (simp only: distinct_map [of h']) (simp add: problem_well_formed_def)
  ultimately show ?thesis
    using p q by (simp add: problem_well_formed_def)
qed

lemma gc_goal_renamed [simp]: "gc_goal \<circ> renamed_certificate h = gc_goal"
  by (simp add: fun_eq_iff renamed_certificate_def)

lemma renamed_certificate_proves:
  assumes c: "certificate_proves p limits c" and p: "problem_well_formed p"
    and q: "problem_root q = problem_root p" "distinct (map ax_id (problem_axioms q))"
      "renamed_axiom h f g ` set (problem_axioms p) \<subseteq> set (problem_axioms q)"
      "problem_goals q = map (renamed_goal h' f g) (problem_goals p)"
    and c': "cert_goals c' = map (renamed_certificate h) (cert_goals c)"
  shows "certificate_proves q limits c'"
  unfolding certificate_proves_def
proof (intro conjI ballI)
  show "map gc_goal (cert_goals c') = required_goal_indices q"
    using c goal_dependencies_renamed [OF q(4,1)]
    by (simp add: certificate_proves_def c' gc_goal_renamed)
next
  fix node assume "node \<in> set (cert_goals c')"
  then obtain node0 where n: "node0 \<in> set (cert_goals c)" "node = renamed_certificate h node0"
    using c' by auto
  let ?k = "gc_goal node0"
  have "?k \<in> set (required_goal_indices p)"
    using c n(1) by (auto simp: certificate_proves_def dest!: arg_cong [of _ _ set])
  then have "?k \<le> problem_root p"
    using required_in_range [of p ?k] p by (auto simp: problem_well_formed_def wf_goal_def)
  then have k: "?k < length (problem_goals p)" using p by (simp add: problem_well_formed_def)
  have steps: "proof_steps p ?k limits (eq_lhs (goal_claim (problem_goals p ! ?k))) (gc_steps node0)
      (eq_rhs (goal_claim (problem_goals p ! ?k)))"
    using c n(1) by (simp add: certificate_proves_def)
  show "proof_steps q (gc_goal node) limits (eq_lhs (goal_claim (problem_goals q ! gc_goal node)))
      (gc_steps node) (eq_rhs (goal_claim (problem_goals q ! gc_goal node)))"
    using steps_renamed [OF steps k q(2,3,4)] k
    by (simp add: n(2) renamed_certificate_def q(4) renamed_goal_def rename_equality_def)
qed

lemma equality_nodes_renamed [simp]: "equality_nodes (rename_equality f g e) = equality_nodes e"
  by (simp add: equality_nodes_def rename_equality_def)

lemma problem_nodes_renamed:
  assumes "mset (problem_axioms q) = mset (map (renamed_axiom h f g) (problem_axioms p))"
    and "problem_goals q = map (renamed_goal h' f g) (problem_goals p)"
  shows "problem_nodes q = problem_nodes p"
proof -
  have "sum_list (map (\<lambda>ax. equality_nodes (axiom_claim ax)) (problem_axioms q))
      = sum_list (map (\<lambda>ax. equality_nodes (axiom_claim ax)) (map (renamed_axiom h f g) (problem_axioms p)))"
    by (simp only: sum_mset_sum_list [symmetric] mset_map assms(1))
  also have "\<dots> = sum_list (map (\<lambda>ax. equality_nodes (axiom_claim ax)) (problem_axioms p))"
    by (simp add: comp_def axiom_claim_def renamed_axiom_def equality_nodes_def)
  finally show ?thesis
    by (simp add: problem_nodes_def problem_claims_def comp_def assms(2) renamed_goal_def)
qed

text \<open>What renaming keeps: the certificate still proves, and the sizes are the same.\<close>

lemma alpha_rename_ok:
  assumes b: "bundle_proved limits b"
    and small: "length (problem_axioms (bundle_problem b)) \<le> usize_max"
      "length (problem_goals (bundle_problem b)) \<le> usize_max" "problem_nodes (bundle_problem b) \<le> usize_max"
  shows "\<exists>b'. alpha_rename_bundle b seed = Some b' \<and> bundle_proved limits b'
    \<and> (bundle_within l b' \<longleftrightarrow> bundle_within l b)"
proof -
  let ?p = "bundle_problem b" and ?c = "bundle_certificate b"
  obtain ops ats where syms: "bundle_symbols ?p = (ops, ats)" by fastforce
  have card: "card ops \<le> usize_max" "card ats \<le> usize_max" "finite ops" "finite ats"
    using card_bundle_symbols [of ?p] syms small(3) by auto
  have ids: "card (set (map ax_id (problem_axioms ?p))) \<le> usize_max"
    "card (set (map goal_id (problem_goals ?p))) \<le> usize_max"
    using card_length [of "map ax_id (problem_axioms ?p)"] card_length [of "map goal_id (problem_goals ?p)"] small
    by (metis le_trans length_map)+
  obtain H rng1 where H: "local_symbol_map (set (map ax_id (problem_axioms ?p))) ''r'' (split_mix64_new seed) = (H, rng1)"
      "dom H = set (map ax_id (problem_axioms ?p))" "inj_on (\<lambda>s. the (H s)) (set (map ax_id (problem_axioms ?p)))"
      "\<And>s. s \<in> set (map ax_id (problem_axioms ?p)) \<Longrightarrow>
         \<exists>i<card (set (map ax_id (problem_axioms ?p))). the (H s) = ''r'' @ show_nat i"
    by (rule local_symbol_map_ok [OF finite_set ids(1), of "''r''" "split_mix64_new seed"]) (rule that)
  obtain F rng2 where F: "local_symbol_map ops ''f'' rng1 = (F, rng2)" "dom F = ops" "inj_on (\<lambda>s. the (F s)) ops"
      "\<And>s. s \<in> ops \<Longrightarrow> \<exists>i<card ops. the (F s) = ''f'' @ show_nat i"
    by (rule local_symbol_map_ok [OF card(3,1), of "''f''" "rng1"]) (rule that)
  obtain G rng3 where G: "local_symbol_map ats ''c'' rng2 = (G, rng3)" "dom G = ats" "inj_on (\<lambda>s. the (G s)) ats"
      "\<And>s. s \<in> ats \<Longrightarrow> \<exists>i<card ats. the (G s) = ''c'' @ show_nat i"
    by (rule local_symbol_map_ok [OF card(4,2), of "''c''" "rng2"]) (rule that)
  obtain J rng4 where J: "local_symbol_map (set (map goal_id (problem_goals ?p))) ''g'' rng3 = (J, rng4)"
      "dom J = set (map goal_id (problem_goals ?p))" "inj_on (\<lambda>s. the (J s)) (set (map goal_id (problem_goals ?p)))"
      "\<And>s. s \<in> set (map goal_id (problem_goals ?p)) \<Longrightarrow>
         \<exists>i<card (set (map goal_id (problem_goals ?p))). the (J s) = ''g'' @ show_nat i"
    by (rule local_symbol_map_ok [OF finite_set ids(2), of "''g''" "rng3"]) (rule that)
  obtain tn rng5 where tn: "next_index 32 rng4 = (tn, rng5)" by fastforce
  define h f g j where fns: "h = (\<lambda>s. the (H s))" "f = (\<lambda>s. the (F s))" "g = (\<lambda>s. the (G s))" "j = (\<lambda>s. the (J s))"
  have labels: "valid_identifier (''r'' @ show_nat i)" "valid_identifier (''f'' @ show_nat i)"
    "valid_identifier (''c'' @ show_nat i)" "valid_identifier (''g'' @ show_nat i)" if "i \<le> usize_max" for i
    using label_valid [OF that] by simp_all
  have valid: "\<And>s. s \<in> set (map ax_id (problem_axioms ?p)) \<Longrightarrow> valid_identifier (h s)"
    "\<And>s. s \<in> set (map goal_id (problem_goals ?p)) \<Longrightarrow> valid_identifier (j s)"
    "\<And>s. s \<in> fst (bundle_symbols ?p) \<Longrightarrow> valid_identifier (f s)"
    "\<And>s. s \<in> snd (bundle_symbols ?p) \<Longrightarrow> valid_identifier (g s)"
    unfolding fns syms fst_conv snd_conv
    using H(4) J(4) F(4) G(4) ids card labels by (metis less_imp_le order_trans)+
  have claims: "claim_operators e \<subseteq> dom F" "claim_atoms e \<subseteq> dom G" if "e \<in> set (problem_claims ?p)" for e
    using that syms F(2) G(2) by (auto simp: bundle_symbols_eq)
  have "those (map (rename_axiom H F G) (problem_axioms ?p)) = Some (map (renamed_axiom h f g) (problem_axioms ?p))"
    unfolding fns using H(2) claims
    by (intro those_map_Some rename_axiom_total) (auto simp: problem_claims_def)
  moreover have "those (map (rename_goal J F G) (problem_goals ?p)) = Some (map (renamed_goal j f g) (problem_goals ?p))"
    unfolding fns using J(2) claims
    by (intro those_map_Some rename_goal_total) (auto simp: problem_claims_def)
  moreover have "those (map (rename_certificate H) (cert_goals ?c)) = Some (map (renamed_certificate h) (cert_goals ?c))"
    unfolding fns
  proof (intro those_map_Some rename_certificate_total)
    fix node s ident assume "node \<in> set (cert_goals ?c)" "s \<in> set (gc_steps node)" "step_source s = AxiomSource ident"
    then show "ident \<in> dom H"
      using b proved_step_sources H(2) by (fastforce simp: bundle_proved_def certificate_proves_def)
  qed
  moreover define q where "q = ?p\<lparr> problem_theory := ''t'' @ show_nat tn,
      problem_axioms := fst (shuffle (map (renamed_axiom h f g) (problem_axioms ?p)) rng5),
      problem_goals := map (renamed_goal j f g) (problem_goals ?p) \<rparr>"
  moreover define c' where "c' = ?c\<lparr> cert_goals := map (renamed_certificate h) (cert_goals ?c) \<rparr>"
  ultimately have renamed: "alpha_rename_bundle b seed = Some \<lparr> bundle_problem = q, bundle_certificate = c' \<rparr>"
    using syms H(1) F(1) G(1) J(1) tn by (simp add: alpha_rename_bundle_def Let_def)
  have wfp: "problem_well_formed ?p" using b by (simp add: bundle_proved_def)
  have ms: "mset (problem_axioms q) = mset (map (renamed_axiom h f g) (problem_axioms ?p))"
    using shuffle_mset [of "map (renamed_axiom h f g) (problem_axioms ?p)" rng5] small(1) by (simp add: q_def)
  have "list_all graphic (''t'' @ show_nat tn)" using show_nat_graphic by (simp add: graphic_def)
  then have "str_trim (problem_theory q) \<noteq> []" by (simp add: q_def str_trim_graphic_all)
  then have wfq: "problem_well_formed q"
    using renamed_problem_well_formed [OF wfp H(3) [folded fns(1)] valid(1) J(3) [folded fns(4)] valid(2-4) _ _ _ ms]
    by (simp add: q_def)
  have "certificate_proves q limits c'"
    using b wfp wfq mset_eq_setD [OF ms]
    by (intro renamed_certificate_proves [of ?p limits ?c q h f g j])
      (simp_all add: bundle_proved_def problem_well_formed_def q_def c'_def)
  then have "bundle_proved limits \<lparr> bundle_problem = q, bundle_certificate = c' \<rparr>"
    using wfq b by (simp add: bundle_proved_def c'_def)
  moreover have "bundle_within l \<lparr> bundle_problem = q, bundle_certificate = c' \<rparr> \<longleftrightarrow> bundle_within l b"
  proof -
    have "problem_nodes q = problem_nodes ?p"
      using problem_nodes_renamed [OF ms, of j] by (simp add: q_def)
    moreover have "length (problem_axioms q) = length (problem_axioms ?p)" "length (problem_goals q) = length (problem_goals ?p)"
      using mset_eq_length [OF ms] by (simp_all add: q_def)
    moreover have "step_count c' = step_count ?c" by (simp add: step_count_def c'_def renamed_certificate_def comp_def)
    ultimately show ?thesis by (simp add: bundle_within_def)
  qed
  ultimately show ?thesis using renamed by blast
qed

section \<open>The generator\<close>

lemma selected_laws_length: "length (selected_domain_laws (theory_of_domain d) split) \<le> 3"
proof -
  have "length (selected_domain_laws (theory_of_domain d) split) \<le> length (dt_laws (theory_of_domain d))"
    by (auto simp: selected_domain_laws_def Let_def split: generation_split.splits)
  moreover have "length (dt_laws (theory_of_domain d)) \<le> 3"
    by (cases d) (simp_all add: equational_laws_def category_domain_laws_def logic_laws_def automata_laws_def
        process_laws_def metagraph_laws_def)
  ultimately show ?thesis by simp
qed

lemma derived_wrap_nodes:
  "term_nodes (foldl (\<lambda>t i. law_wrap (sel ! (i mod length sel)) t) t is') = term_nodes t + 2 * length is'"
  by (induction is' arbitrary: t) (simp_all add: law_wrap_nodes)

lemma formal_axioms_nodes:
  "sum_list (map (\<lambda>ax. equality_nodes (axiom_claim ax)) (formal_axioms dt sel n)) \<le> 4 * length sel + n * (2 * n + 10)"
proof -
  have law: "equality_nodes (axiom_claim (law_axiom law)) = 4" for law
    by (simp add: equality_nodes_def axiom_claim_def law_axiom_def law_wrap_nodes)
  have aux: "equality_nodes (axiom_claim (derived_distractor dt i sel)) \<le> 2 * n + 10" if "i < n" for i
    using that derived_wrap_nodes [of sel "Variable 0" "[0..<Suc i]"]
    by (auto simp: equality_nodes_def axiom_claim_def derived_distractor_def Let_def simp del: upt_Suc)
  have "sum_list (map (\<lambda>i. equality_nodes (axiom_claim (derived_distractor dt i sel))) [0..<n]) \<le>
      sum_list (map (\<lambda>i. 2 * n + 10) [0..<n])"
    using aux by (intro sum_list_mono) simp
  then show ?thesis by (simp add: formal_axioms_def comp_def law sum_list_triv)
qed

lemma draft_goal_nodes:
  assumes "draft_inv axioms limits budget (goals, certs) waiting"
  shows "sum_list (map (\<lambda>g. equality_nodes (goal_claim g)) goals) \<le> length goals * budget"
proof -
  have "equality_nodes (goal_claim g) \<le> budget" if "g \<in> set goals" for g
    using that assms by (auto simp: draft_inv_def in_set_conv_nth claim_nodes_def equality_nodes_def)
  then have "sum_list (map (\<lambda>g. equality_nodes (goal_claim g)) goals) \<le> sum_list (map (\<lambda>g. budget) goals)"
    by (intro sum_list_mono) simp
  then show ?thesis by (simp add: sum_list_triv)
qed

text \<open>Bounds on a configuration under which the assembled problem stays within the default
  limits of the kernel. The bound on the nodes is coarse: every goal is counted with the size of the
  whole tree.\<close>

definition config_nodes :: "formal_config \<Rightarrow> nat" where
  "config_nodes config =
     12 + fc_distractor_axioms config * (2 * fc_distractor_axioms config + 10)
     + 2 * fc_leaf_count config * (fc_leaf_count config * leaf_size config)"

definition config_within :: "formal_config \<Rightarrow> bool" where
  "config_within config \<longleftrightarrow>
     0 < fc_rewrite_depth config \<and> 0 < fc_leaf_count config \<and> fc_context_depth config \<le> 4096
     \<and> fc_distractor_axioms config + 3 \<le> 16384 \<and> 2 * fc_leaf_count config \<le> 16384
     \<and> fc_leaf_count config * fc_rewrite_depth config + 2 * fc_leaf_count config \<le> 1048576
     \<and> config_nodes config \<le> 4194304"

lemma config_nodes_mono:
  assumes "fc_distractor_axioms config \<le> d" "fc_leaf_count config \<le> l" "leaf_size config \<le> s"
  shows "config_nodes config \<le> 12 + d * (2 * d + 10) + 2 * l * (l * s)"
  unfolding config_nodes_def using assms by (intro add_mono mult_le_mono) simp_all

lemma bounded_config_within:
  assumes "0 < fc_rewrite_depth config" "fc_rewrite_depth config \<le> 10" "0 < fc_leaf_count config"
    "fc_leaf_count config \<le> 128" "fc_context_depth config \<le> 5" "fc_distractor_axioms config \<le> 11"
  shows "config_within config"
proof -
  have "config_nodes config \<le> 12 + 11 * (2 * 11 + 10) + 2 * 128 * (128 * 44)"
    using assms by (intro config_nodes_mono) (simp_all add: leaf_size_def)
  moreover have "fc_leaf_count config * fc_rewrite_depth config \<le> 128 * 10"
    using assms by (intro mult_le_mono) simp_all
  ultimately show ?thesis using assms by (simp add: config_within_def)
qed

lemma bundle_within_default:
  assumes "length axs \<le> 16384" "length goals \<le> 16384"
    "problem_nodes \<lparr> problem_version = v, problem_domain = dm, problem_theory = th, problem_axioms = axs,
       problem_goals = goals, problem_root = r \<rparr> \<le> 4194304"
    "sum_list (map (\<lambda>c. length (gc_steps c)) certs) \<le> 1048576"
  shows "bundle_within default_limits \<lparr> bundle_problem =
      \<lparr> problem_version = v, problem_domain = dm, problem_theory = th, problem_axioms = axs,
        problem_goals = goals, problem_root = r \<rparr>,
    bundle_certificate = \<lparr> cert_version = w, cert_problem_hash = hs, cert_goals = certs \<rparr> \<rparr>"
  using assms by (simp add: bundle_within_def default_limits_def step_count_def)

lemma build_formal_bundle_ok:
  assumes config: "config_within config"
  shows "\<exists>b. build_formal_bundle seed config = Returned b \<and> bundle_proved default_limits b
    \<and> bundle_within default_limits b"
proof -
  let ?split = "fc_generation_split config" and ?n = "fc_distractor_axioms config" and ?leaves = "fc_leaf_count config"
  obtain chosen rng1 where dom: "draw_domain config (split_mix64_new seed) = (chosen, rng1)" by fastforce
  obtain salt rng2 where salt: "next_u64 rng1 = (salt, rng2)" by fastforce
  define dt where "dt = theory_of_domain chosen"
  define selected where "selected = selected_domain_laws dt ?split"
  define axioms where "axioms = formal_axioms dt selected ?n"
  have dt: "theory_ok dt" by (simp add: dt_def theory_of_domain_ok)
  note sel = selected_laws_ok [OF dt, of ?split, folded selected_def]
  have sel3: "length selected \<le> 3" by (simp add: selected_def dt_def selected_laws_length)
  have n: "?n \<le> usize_max" using config by (simp add: config_within_def usize_max_def)
  note axs = formal_axioms_ok [OF dt sel(2,1,3) n, folded axioms_def]
  have empty: "draft_inv axioms default_limits 0 ([], []) (set [])" by (simp add: draft_inv_def)
  obtain d frontier rng3 where leaf: "leaf_loop dt salt selected config [0..<?leaves] ([], []) [] rng2 = (d, frontier, rng3)"
    "draft_inv axioms default_limits (?leaves * leaf_size config) d (set frontier)" "distinct frontier"
    "length frontier = ?leaves" "length (fst d) = ?leaves" "draft_steps d = ?leaves * fc_rewrite_depth config"
    using leaf_loop_ok [OF dt sel(1,2) _ axs(2,3), of config default_limits 0 "([], [])" "[]" "[0..<?leaves]" salt rng2]
      empty sel3 config
    by (auto simp: config_within_def default_limits_def usize_max_def draft_steps_def)
  have frontier: "frontier \<noteq> []" "length frontier \<le> usize_max"
    using leaf(4) config by (auto simp: config_within_def usize_max_def)
  obtain d' root rng4 where comp: "compose_frontier dt ?split d frontier rng3 = Returned (d', [root], rng4)"
    "draft_inv axioms default_limits (?leaves * leaf_size config) d' {root}" "joins d (length frontier) d' 1"
    using compose_frontier_ok [OF leaf(2) _ _ leaf(3) frontier, of dt ?split rng3] dt
    by (auto simp: default_limits_def theory_ok_def)
  obtain goals certs where d': "d' = (goals, certs)" by fastforce
  have goals: "Suc (length goals) = 2 * ?leaves"
    and steps: "sum_list (map (\<lambda>c. length (gc_steps c)) certs) + 2 = ?leaves * fc_rewrite_depth config + 2 * ?leaves"
    using comp(3) leaf(4,5,6) d' by (simp_all add: joins_def draft_steps_def)
  let ?b = "\<lparr> bundle_problem = \<lparr> problem_version = ruliad_ir_version, problem_domain = chosen,
      problem_theory = dt_name dt, problem_axioms = axioms, problem_goals = goals, problem_root = root \<rparr>,
    bundle_certificate = \<lparr> cert_version = ruliad_ir_version, cert_problem_hash = [], cert_goals = certs \<rparr> \<rparr>"
  have len: "length goals \<le> 16384" using goals config by (simp add: config_within_def)
  then have proved: "bundle_proved default_limits ?b"
    using draft_bundle_proved [OF comp(2) [unfolded d'] _ axs(1,2) dt] by (simp add: usize_max_def)
  have "sum_list (map (\<lambda>g. equality_nodes (goal_claim g)) goals) \<le> 2 * ?leaves * (?leaves * leaf_size config)"
  proof (rule order_trans)
    show "sum_list (map (\<lambda>g. equality_nodes (goal_claim g)) goals) \<le> length goals * (?leaves * leaf_size config)"
      by (rule draft_goal_nodes [OF comp(2) [unfolded d']])
    show "length goals * (?leaves * leaf_size config) \<le> 2 * ?leaves * (?leaves * leaf_size config)"
      using goals by (intro mult_le_mono1) linarith
  qed
  moreover have "sum_list (map (\<lambda>ax. equality_nodes (axiom_claim ax)) axioms) \<le> 12 + ?n * (2 * ?n + 10)"
    using formal_axioms_nodes [of dt selected ?n] sel3 by (simp add: axioms_def)
  ultimately have nodes: "problem_nodes (bundle_problem ?b) \<le> config_nodes config"
    by (simp add: problem_nodes_def problem_claims_def comp_def config_nodes_def)
  have within: "bundle_within default_limits ?b"
    using nodes len steps axs(4) sel3 config by (intro bundle_within_default) (simp_all add: config_within_def)
  have build: "build_formal_bundle seed config =
      (if alpha_renamed ?split then expect (alpha_rename_bundle ?b (fst (next_u64 rng4))) else Returned ?b)"
    using config dom salt leaf(1) comp(1) d'
    by (simp add: build_formal_bundle_def config_within_def Let_def dt_def selected_def axioms_def)
  show ?thesis
  proof (cases "alpha_renamed ?split")
    case True
    have "length axioms \<le> usize_max" "length goals \<le> usize_max" "problem_nodes (bundle_problem ?b) \<le> usize_max"
      using axs(4) sel3 len nodes config by (simp_all add: config_within_def usize_max_def)
    then show ?thesis
      using alpha_rename_ok [OF proved, of "fst (next_u64 rng4)" default_limits] build True within by auto
  qed (use build proved within in simp)
qed

lemma generate_formal_bundle_ok:
  assumes "config_within config" and "\<And>p. \<exists>h. hash p = Inr h"
  shows "\<exists>b. generate_formal_bundle hash debug seed config = Returned b
    \<and> replay_accepts hash (bundle_problem b) (bundle_certificate b) default_limits"
proof -
  obtain b where b: "build_formal_bundle seed config = Returned b" "bundle_proved default_limits b"
    "bundle_within default_limits b" using build_formal_bundle_ok [OF assms(1)] by blast
  obtain h where h: "hash (bundle_problem b) = Inr h" using assms(2) by blast
  have acc: "replay_accepts hash (bundle_problem b) ((bundle_certificate b)\<lparr> cert_problem_hash := h \<rparr>) default_limits"
    using proved_bundle_accepted [where hash = hash and h = h, OF b(2,3)] h by blast
  let ?b = "b\<lparr> bundle_certificate := (bundle_certificate b)\<lparr> cert_problem_hash := h \<rparr> \<rparr>"
  obtain r where "replay_certificate hash (bundle_problem b) (bundle_certificate ?b) default_limits = Some r" "rr_accepted r"
    using acc by (auto simp: replay_accepts_def split: option.splits)
  then have "generate_formal_bundle hash debug seed config = Returned ?b"
    using b(1) h by (simp add: generate_formal_bundle_def)
  moreover have "replay_accepts hash (bundle_problem ?b) (bundle_certificate ?b) default_limits" using acc by simp
  ultimately show ?thesis by blast
qed

section \<open>Corrupted certificates\<close>

lemma term_nodes_pos: "0 < term_nodes t"
  by (cases t) simp_all

lemma arguments_bound: "length ts < term_nodes (Apply f ts)"
proof -
  have "length ts \<le> sum_list (map term_nodes ts)"
  proof (induction ts)
    case (Cons t ts)
    then show ?case using term_nodes_pos [of t] by simp
  qed simp
  then show ?thesis by simp
qed

lemma huge_index_fails:
  assumes "term_nodes t \<le> usize_max"
  shows "\<exists>e. rewrite_at_path t (usize_max # path) p r = Inl e"
proof (cases t)
  case (Apply f ts)
  then have "length ts < usize_max" using arguments_bound [of ts f] assms by simp
  then show ?thesis using Apply by simp
qed simp_all

lemma corrupted_rejected:
  assumes acc: "replay_accepts hash p c limits" and "maximum_term_nodes limits < usize_max"
    and cor: "corrupt_formal_certificate c = Inr c'"
  shows "\<not> replay_accepts hash p c' limits"
proof
  assume "replay_accepts hash p c' limits"
  then have proves: "certificate_proves p limits c'" and wf: "wf_problem limits p"
    by (simp_all add: replay_accepts_iff)
  obtain s steps where s: "cert_goals c \<noteq> []" "gc_steps (last (cert_goals c)) = s # steps"
    "cert_goals c' = butlast (cert_goals c) @
       [(last (cert_goals c))\<lparr> gc_steps := s\<lparr> step_path := usize_max # step_path s \<rparr> # steps \<rparr>]"
    using cor by (auto simp: corrupt_formal_certificate_def Let_def split: if_splits list.splits)
  let ?k = "gc_goal (last (cert_goals c))" and ?s = "s\<lparr> step_path := usize_max # step_path s \<rparr>"
  let ?t = "eq_lhs (goal_claim (problem_goals p ! ?k))"
  have "?k \<in> set (map gc_goal (cert_goals c))" using s(1) by simp
  moreover have "map gc_goal (cert_goals c) = required_goal_indices p"
    using acc by (simp add: replay_accepts_iff certificate_proves_def)
  ultimately have "?k \<in> required_goal_set p" by (metis set_required_goal_indices)
  then have k: "?k < length (problem_goals p)" by (rule wf_required_in_range [OF wf])
  have "node_count ?t \<le> goal_nodes (problem_goals p)"
    using k member_le_sum_list [of "node_count ?t + node_count (eq_rhs (goal_claim (problem_goals p ! ?k)))"
        "map (\<lambda>g. node_count (eq_lhs (goal_claim g)) + node_count (eq_rhs (goal_claim g))) (problem_goals p)"]
    by (force simp: goal_nodes_def)
  moreover have "axiom_nodes (problem_axioms p) + goal_nodes (problem_goals p) \<le> maximum_term_nodes limits"
    using wf assms(2) by (auto simp: wf_problem_def min_def split: if_splits)
  ultimately have "term_nodes ?t \<le> usize_max"
    using assms(2) by (auto simp: node_count_term_nodes min_def split: if_splits)
  then have "\<And>q r. \<exists>e. rewrite_at_path ?t (step_path ?s) q r = Inl e" using huge_index_fails by simp
  then have "step_result p ?k limits ?t ?s \<noteq> Inr u" for u
    by (auto simp: step_result_def apply_step_def result_bind_Inr case_prod_beta split: if_splits)
      (metis sum.distinct(1))
  moreover have "\<exists>u. step_result p ?k limits ?t ?s = Inr u"
    using proves s(3) by (auto simp: certificate_proves_def)
  ultimately show False by blast
qed

end
