(* ===== verification/Ruliad_Generator_Properties.thy ===== *)
theory Ruliad_Generator_Properties
  imports Ruliad_Formal_Bundle Ruliad_Samples
begin

text \<open>
  The properties of the generator of formal proof problems, \<open>ruliad/formal.rs\<close>, over the
  whole chain of components it drives: the random generator draws the laws and contexts, the
  draft of goals and certificates is built and renamed, and the kernel replays the result.
\<close>

section \<open>Difficulty levels\<close>

lemma ilog2_less: "n < 2 ^ Suc k \<Longrightarrow> ilog2 n \<le> k"
proof (induction k arbitrary: n)
  case 0
  then show ?case by (simp add: ilog2.simps [of n])
next
  case (Suc k)
  then show ?case using Suc.IH [of "n div 2"] by (auto simp: ilog2.simps [of n] less_mult_imp_div_less)
qed

lemma significant_bits_le: "n < 2 ^ k \<Longrightarrow> significant_bits n \<le> k"
  using ilog2_less [of n "k - 1"] by (cases k) (auto simp: significant_bits_def)

definition config_at :: "nat \<Rightarrow> ruliad_formal_domain option \<Rightarrow> generation_split \<Rightarrow> formal_config" where
  "config_at level chosen split = (for_difficulty level)\<lparr> fc_domain := chosen, fc_generation_split := split \<rparr>"

lemma difficulty_config_within:
  assumes "level \<le> 252"
  shows "config_within (config_at level chosen split)"
proof -
  define d b l where "d = significant_bits (sat_add level 1)"
    and "b = significant_bits (sat_add level 1 div 2 + 1)" and "l = max 2 (min 4096 (2 ^ min b 12 :: nat))"
  note defs = this
  have c: "sat_add level 1 = Suc level" using assms by (simp add: sat_add_def usize_max_def)
  have d: "d \<le> 8" unfolding defs c using assms by (intro significant_bits_le) simp
  have b: "b \<le> 7" unfolding defs c using assms by (intro significant_bits_le) simp
  have "(2 :: nat) ^ min b 12 \<le> 2 ^ 7" using b by (intro power_increasing) simp_all
  then have l: "2 \<le> l" "l \<le> 128" by (simp_all add: defs(3))
  let ?c = "config_at level chosen split"
  have s: "sat_add 2 d = 2 + d" "sat_add 1 (d div 2) = 1 + d div 2" "sat_add d (b div 2) = d + b div 2"
    using d b by (simp_all add: sat_add_def usize_max_def)
  have "?c = \<lparr> fc_domain = chosen, fc_rewrite_depth = 2 + d, fc_leaf_count = l, fc_context_depth = 1 + d div 2,
      fc_distractor_axioms = d + b div 2, fc_generation_split = split \<rparr>"
    unfolding config_at_def for_difficulty_def Let_def defs(1) [symmetric] defs(2) [symmetric] defs(3) [symmetric] s
    by simp
  then have f: "fc_rewrite_depth ?c = 2 + d" "fc_leaf_count ?c = l" "fc_context_depth ?c = 1 + d div 2"
    "fc_distractor_axioms ?c = d + b div 2" by simp_all
  show ?thesis using l d b by (intro bounded_config_within) (simp_all add: f)
qed

text \<open>C3: the generator never fails on the levels it is used at. For every difficulty level up to 252, every
  domain, every split and every seed, it returns a bundle, and the kernel accepts the certificate
  of the bundle for its problem.\<close>
theorem generator_succeeds_on_difficulty_levels:
  assumes "level \<le> 252" and "\<And>p. \<exists>h. hash p = Inr h"
  shows "\<exists>b. generate_formal_bundle hash debug seed
        ((for_difficulty level)\<lparr> fc_domain := chosen, fc_generation_split := split \<rparr>) = Returned b
    \<and> replay_accepts hash (bundle_problem b) (bundle_certificate b) default_limits"
  using generate_formal_bundle_ok [OF difficulty_config_within [OF assms(1)] assms(2)]
  by (simp add: config_at_def)

theorem generator_succeeds_on_difficulty_levels_witness:
  "\<exists>b. generate_formal_bundle sample_hash (\<lambda>_. []) 42
        ((for_difficulty 9)\<lparr> fc_domain := Some Logic, fc_generation_split := StructuralTrainV1 \<rparr>) = Returned b
    \<and> replay_accepts sample_hash (bundle_problem b) (bundle_certificate b) default_limits"
  by (rule generator_succeeds_on_difficulty_levels) (simp_all add: sample_hash_def)

text \<open>The generator is total within the kernel's limits: any configuration with non-zero depth and leaf
  count whose axioms, goals, steps, paths and term nodes stay below the default limits of the
  kernel gives an accepted bundle from every seed.\<close>
theorem generator_succeeds_within_limits:
  assumes "config_within config" and "\<And>p. \<exists>h. hash p = Inr h"
  shows "\<exists>b. generate_formal_bundle hash debug seed config = Returned b
    \<and> replay_accepts hash (bundle_problem b) (bundle_certificate b) default_limits"
  using assms by (rule generate_formal_bundle_ok)

lemma default_config_within: "config_within default_formal_config"
  by (simp add: config_within_def default_formal_config_def config_nodes_def leaf_size_def)

theorem generator_succeeds_within_limits_witness:
  "\<exists>b. generate_formal_bundle sample_hash (\<lambda>_. []) 7 default_formal_config = Returned b
    \<and> replay_accepts sample_hash (bundle_problem b) (bundle_certificate b) default_limits"
  by (rule generator_succeeds_within_limits [OF default_config_within]) (simp add: sample_hash_def)

section \<open>Renaming\<close>

lemma sample_bundle_proved:
  "bundle_proved default_limits \<lparr> bundle_problem = sample_problem, bundle_certificate = sample_certificate \<rparr>"
  using sample_accepted
  by (auto simp: bundle_proved_def replay_accepts_iff problem_well_formed_def wf_problem_def)

text \<open>C22: renaming every symbol keeps the proof. For a bundle whose certificate proves its well-formed
  problem, the alpha renaming finds a name for every symbol whatever the seed, the renamed
  certificate proves the renamed problem, and the limits it fits are the same.\<close>
theorem alpha_renaming_keeps_proofs:
  assumes "bundle_proved limits b" and "length (problem_axioms (bundle_problem b)) \<le> usize_max"
    and "length (problem_goals (bundle_problem b)) \<le> usize_max" and "problem_nodes (bundle_problem b) \<le> usize_max"
  shows "\<exists>b'. alpha_rename_bundle b seed = Some b' \<and> bundle_proved limits b'
    \<and> (bundle_within l b' \<longleftrightarrow> bundle_within l b)"
  using assms by (rule alpha_rename_ok)

theorem alpha_renaming_keeps_proofs_witness:
  "\<exists>b'. alpha_rename_bundle \<lparr> bundle_problem = sample_problem, bundle_certificate = sample_certificate \<rparr> 5 = Some b'
    \<and> bundle_proved default_limits b'"
proof -
  let ?b = "\<lparr> bundle_problem = sample_problem, bundle_certificate = sample_certificate \<rparr>"
  have "\<exists>b'. alpha_rename_bundle ?b 5 = Some b' \<and> bundle_proved default_limits b'
      \<and> (bundle_within default_limits b' \<longleftrightarrow> bundle_within default_limits ?b)"
    by (rule alpha_renaming_keeps_proofs [OF sample_bundle_proved])
      (simp_all add: sample_problem_def sample_axiom_def sample_redex_def problem_nodes_def problem_claims_def
        comp_def equality_nodes_def axiom_claim_def usize_max_def)
  then show ?thesis by blast
qed

section \<open>Corruption\<close>

text \<open>A corrupted certificate is refused. The kernel rejects what \<open>corrupt_formal_certificate\<close> makes of any
  certificate it accepts, under limits that bound the size of the terms.\<close>
theorem corrupted_certificates_are_rejected:
  assumes "replay_accepts hash p c limits" and "maximum_term_nodes limits < usize_max"
    and "corrupt_formal_certificate c = Inr c'"
  shows "\<not> replay_accepts hash p c' limits"
  using assms by (rule corrupted_rejected)

theorem corrupted_certificates_are_rejected_witness:
  "\<exists>c'. corrupt_formal_certificate sample_certificate = Inr c'
     \<and> \<not> replay_accepts sample_hash sample_problem c' default_limits"
proof -
  obtain c' where "corrupt_formal_certificate sample_certificate = Inr c'"
    by (simp add: corrupt_formal_certificate_def sample_certificate_def)
  with corrupted_certificates_are_rejected [OF sample_accepted _ this] show ?thesis
    by (auto simp: default_limits_def usize_max_def)
qed

end
