(* ===== verification/Ruliad_Config_Properties.thy ===== *)
theory Ruliad_Config_Properties
  imports Ruliad_Config
begin

text \<open>The properties of the corpus configuration, \<open>ruliad/config.rs\<close>.\<close>

text \<open>Validation decides the configuration. It passes exactly when every bound is ordered and positive
  where it must be, every probability and threshold is a finite number of the unit interval, the
  enabled sections are complete, some formal task has a weight, every family has one, and the
  end-of-sequence token fits the vocabulary without hitting a reserved token.\<close>
theorem validation_decides_the_configuration: "validate_corpus c = Inr () \<longleftrightarrow> corpus_ok c"
  by (rule validate_corpus_Inr)

text \<open>Labels identify families and tasks: a text is read as a family, or as a task, exactly when it is
  its label, and the lists of all of them are complete and without repetition.\<close>
theorem labels_identify_families_and_tasks:
  "(family_from_label s = Some f \<longleftrightarrow> s = family_label f) \<and> (task_from_label s = Some t \<longleftrightarrow> s = task_label t)
   \<and> distinct family_kind_all \<and> f \<in> set family_kind_all \<and> distinct task_kind_all \<and> t \<in> set task_kind_all"
  using family_from_label_Some [of s f] task_from_label_Some [of s t] family_from_label_label [of f]
    task_from_label_label [of t] family_kind_all_complete [of f] task_kind_all_complete [of t] by metis

end
