(* ===== verification/Ruliad_Policy.thy ===== *)
theory Ruliad_Policy
  imports Ruliad_Replay Ruliad_Wire_Text Ruliad_Config Ruliad_Rng "HOL-Library.Product_Lexorder"
begin

text \<open>
  Proof-state actions and the closed-loop policy of \<open>ruliad/policy.rs\<close>: the menu of candidate
  rewrite steps at a proof state with its presentation (rotations, answers as text), the
  enumeration and selection of candidates, the retargeting of a menu, and the policy
  state with its rollout. The \<open>anyhow\<close> error is its message. The set of visited state keys is
  a set of strings. Sums of node counts of terms that are in memory do not overflow a \<open>usize\<close>.
\<close>

unbundle bit_operations_syntax

section \<open>Slices\<close>

text \<open>\<open>iter().position(p)\<close>, \<open>Vec::remove\<close>, \<open>enumerate().filter_map\<close> with \<open>then_some\<close>, and the
  index of \<open>enumerate().min_by_key\<close>, which is the first of the smallest keys.\<close>

fun position_of :: "('a \<Rightarrow> bool) \<Rightarrow> 'a list \<Rightarrow> nat option" where
  "position_of p [] = None"
| "position_of p (x # xs) = (if p x then Some 0 else map_option Suc (position_of p xs))"

definition remove_at :: "nat \<Rightarrow> 'a list \<Rightarrow> 'a list" where
  "remove_at i xs = take i xs @ drop (Suc i) xs"

definition indices_where :: "('a \<Rightarrow> bool) \<Rightarrow> 'a list \<Rightarrow> nat list" where
  "indices_where p xs = filter (\<lambda>i. p (xs ! i)) [0..<length xs]"

fun min_index_by :: "('a \<Rightarrow> nat) \<Rightarrow> 'a list \<Rightarrow> nat option" where
  "min_index_by key [] = None"
| "min_index_by key (x # xs) =
     (case min_index_by key xs of
        None \<Rightarrow> Some 0
      | Some i \<Rightarrow> if key x \<le> key (xs ! i) then Some 0 else Some (Suc i))"

function dedup_loop :: "nat \<Rightarrow> 'a list \<Rightarrow> 'a list" where
  "dedup_loop index items =
     (if index < length items
      then if items ! index \<in> set (take index items) then dedup_loop index (remove_at index items)
           else dedup_loop (Suc index) items
      else items)"
  by pat_completeness auto
termination
  by (relation "measure (\<lambda>(index, items). length items - index)") (auto simp: remove_at_def)

declare dedup_loop.simps [simp del]

definition dedup_preserving_order :: "'a list \<Rightarrow> 'a list" where
  "dedup_preserving_order items = dedup_loop 0 items"

section \<open>Action sets\<close>

definition max_enumerated_sources :: nat where
  "max_enumerated_sources = 8"

definition max_enumerated_paths :: nat where
  "max_enumerated_paths = 12"

definition max_trial_actions :: nat where
  "max_trial_actions = 64"

record action_candidate =
  ac_step :: proof_step
  ac_outcome :: "ruliad_term option"
  ac_distance :: "nat option"

record action_set =
  as_goal :: nat
  as_current :: ruliad_term
  as_target :: ruliad_term
  as_candidates :: "action_candidate list"
  as_selected_index :: nat
  as_equivalent_indices :: "nat list"

definition selected_candidate :: "action_set \<Rightarrow> action_candidate option" where
  "selected_candidate actions = nth_opt (as_candidates actions) (as_selected_index actions)"

definition is_equivalent_index :: "action_set \<Rightarrow> nat \<Rightarrow> bool" where
  "is_equivalent_index actions index \<longleftrightarrow> index \<in> set (as_equivalent_indices actions)"

fun term_node_count :: "ruliad_term \<Rightarrow> nat" where
  "term_node_count (Variable _) = 1"
| "term_node_count (Atom _) = 1"
| "term_node_count (Apply _ arguments) = sat_add 1 (sum_list (map term_node_count arguments))"

definition abs_diff :: "nat \<Rightarrow> nat \<Rightarrow> nat" where
  "abs_diff a b = (a - b) + (b - a)"

fun term_distance :: "ruliad_term \<Rightarrow> ruliad_term \<Rightarrow> nat"
  and term_distances :: "ruliad_term list \<Rightarrow> ruliad_term list \<Rightarrow> nat" where
  "term_distance left right =
     (if left = right then 0
      else (case (left, right) of
              (Apply left_operator left_arguments, Apply right_operator right_arguments) \<Rightarrow>
                if left_operator = right_operator
                then abs_diff (length left_arguments) (length right_arguments)
                       + term_distances left_arguments right_arguments
                else sat_add (term_node_count left) (term_node_count right)
            | _ \<Rightarrow> sat_add (term_node_count left) (term_node_count right)))"
| "term_distances (left # lefts) (right # rights) = term_distance left right + term_distances lefts rights"
| "term_distances [] rights = 0"
| "term_distances (left # lefts) [] = 0"

declare term_distance.simps [simp del]

definition ppm :: nat where
  "ppm = 1000000"

definition candidate_progress_ppm :: "action_set \<Rightarrow> nat \<Rightarrow> nat" where
  "candidate_progress_ppm actions index =
     (case nth_opt (as_candidates actions) index of
        None \<Rightarrow> 0
      | Some candidate \<Rightarrow>
          if is_equivalent_index actions index \<or> ac_outcome candidate = Some (as_target actions) then ppm
          else
            let current_distance = term_distance (as_current actions) (as_target actions) in
            (case ac_distance candidate of
               None \<Rightarrow> 0
             | Some next_distance \<Rightarrow>
                 if current_distance = 0 then 0
                 else sat_mul (current_distance - next_distance) ppm div current_distance))"

definition rotate_left :: "action_set \<Rightarrow> nat \<Rightarrow> string + action_set" where
  "rotate_left actions rotation =
     (let candidate_count = length (as_candidates actions) in
      if candidate_count = 0 \<or> candidate_count \<le> as_selected_index actions
      then Inl ''cannot rotate an empty or invalid proof action set''
      else if list_ex (\<lambda>index. candidate_count \<le> index) (as_equivalent_indices actions)
      then Inl ''cannot rotate a proof action set with an invalid equivalent index''
      else
        let rotation = rotation mod candidate_count;
            remap = (\<lambda>index. (index + candidate_count - rotation) mod candidate_count)
        in Inr \<lparr>as_goal = as_goal actions, as_current = as_current actions, as_target = as_target actions,
                as_candidates = rotate rotation (as_candidates actions),
                as_selected_index = remap (as_selected_index actions),
                as_equivalent_indices = sort (map remap (as_equivalent_indices actions))\<rparr>)"

definition original_index_after_rotation :: "action_set \<Rightarrow> nat \<Rightarrow> nat \<Rightarrow> string + nat" where
  "original_index_after_rotation actions presented_index rotation =
     (let candidate_count = length (as_candidates actions) in
      if candidate_count = 0 \<or> candidate_count \<le> presented_index
      then Inl (''presented proof action index '' @ show_nat presented_index @ '' exceeds ''
                @ show_nat candidate_count @ '' candidates'')
      else Inr ((presented_index + rotation mod candidate_count) mod candidate_count))"

definition rotate_selected_to :: "action_set \<Rightarrow> nat \<Rightarrow> string + action_set" where
  "rotate_selected_to actions desired_index =
     (let candidate_count = length (as_candidates actions) in
      if candidate_count = 0 \<or> candidate_count \<le> as_selected_index actions
      then Inl ''cannot rotate an empty or invalid proof action set''
      else if candidate_count \<le> desired_index
      then Inl (''desired proof action index '' @ show_nat desired_index @ '' exceeds ''
                @ show_nat candidate_count @ '' candidates'')
      else rotate_left actions
             ((as_selected_index actions + candidate_count - desired_index) mod candidate_count))"

section \<open>Retargeting\<close>

definition retarget_candidate :: "ruliad_term \<Rightarrow> action_candidate \<Rightarrow> action_candidate" where
  "retarget_candidate target candidate =
     candidate\<lparr>ac_distance := map_option (\<lambda>outcome. term_distance outcome target) (ac_outcome candidate)\<rparr>"

definition retarget_goal :: "ruliad_term \<Rightarrow> proof_goal \<Rightarrow> proof_goal" where
  "retarget_goal target goal = goal\<lparr>goal_claim := (goal_claim goal)\<lparr>eq_rhs := target\<rparr>\<rparr>"

definition counterfactual_target :: "proof_problem \<Rightarrow> action_set \<Rightarrow> nat \<Rightarrow> string + ruliad_term" where
  "counterfactual_target problem actions candidate_index =
     (case nth_opt (problem_goals problem) (as_goal actions) of
        None \<Rightarrow> Inl (''proof action goal '' @ show_nat (as_goal actions) @ '' is out of range'')
      | Some goal \<Rightarrow>
          if eq_rhs (goal_claim goal) \<noteq> as_target actions
          then Inl (''proof action target does not match goal '' @ show_nat (as_goal actions)
                    @ '' in the formal problem'')
          else if is_equivalent_index actions candidate_index
          then Inl ''counterfactual proof target must select a non-equivalent action''
          else (case nth_opt (as_candidates actions) candidate_index of
                  None \<Rightarrow> Inl (''proof action candidate '' @ show_nat candidate_index @ '' is out of range'')
                | Some candidate \<Rightarrow>
                    (case ac_outcome candidate of
                       None \<Rightarrow> Inl ''counterfactual proof action is not verifier-valid''
                     | Some target \<Rightarrow>
                         if target = as_current actions
                         then Inl ''counterfactual proof action must advance beyond the current state''
                         else Inr target)))"

definition retarget_problem :: "proof_problem \<Rightarrow> nat \<Rightarrow> ruliad_term \<Rightarrow> proof_problem" where
  "retarget_problem problem goal target =
     problem\<lparr>problem_goals :=
       (problem_goals problem)[goal := retarget_goal target (problem_goals problem ! goal)]\<rparr>"

definition retarget_actions :: "action_set \<Rightarrow> nat \<Rightarrow> ruliad_term \<Rightarrow> action_set" where
  "retarget_actions actions candidate_index target =
     actions\<lparr>as_target := target, as_selected_index := candidate_index,
       as_equivalent_indices :=
         indices_where (\<lambda>candidate. ac_outcome candidate = Some target) (as_candidates actions),
       as_candidates := map (retarget_candidate target) (as_candidates actions)\<rparr>"

definition counterfactual_proof_action_target ::
  "problem_hasher \<Rightarrow> proof_problem \<Rightarrow> action_set \<Rightarrow> nat \<Rightarrow> string + proof_problem \<times> action_set" where
  "counterfactual_proof_action_target hash problem actions candidate_index =
     result_bind (counterfactual_target problem actions candidate_index) (\<lambda>target.
       let problem' = retarget_problem problem (as_goal actions) target;
           actions' = retarget_actions actions candidate_index target
       in result_bind (map_err (\<lambda>e. ''invalid counterfactual proof target: '' @ kf_message e)
              (goal_kernel_new hash problem' (as_goal actions) default_limits)) (\<lambda>transition.
          result_bind (map_err (\<lambda>e. ''counterfactual proof action failed: '' @ kf_message e)
              (gk_apply transition (as_current actions') (ac_step (as_candidates actions' ! candidate_index))))
            (\<lambda>verified.
               if verified \<noteq> target
               then Inl ''counterfactual proof action does not reach the requested target''
               else Inr (problem', actions'))))"

section \<open>Answers\<close>

definition parse_proof_action_index :: "string \<Rightarrow> nat option" where
  "parse_proof_action_index answer =
     (case split_on CHR '';'' (str_trim answer) of
        [field] \<Rightarrow> Option.bind (strip_prefix ''c='' field) parse_usize
      | _ \<Rightarrow> None)"

definition proof_action_answer ::
  "action_set \<Rightarrow> nat \<Rightarrow> action_answer_contract \<Rightarrow> string + string" where
  "proof_action_answer actions candidate_index contract =
     (case nth_opt (as_candidates actions) candidate_index of
        None \<Rightarrow> Inl (''proof action candidate '' @ show_nat candidate_index @ '' is out of range'')
      | Some candidate \<Rightarrow>
          Inr (case contract of
                 PresentationIndex \<Rightarrow> ''c='' @ show_nat candidate_index
               | SemanticStep \<Rightarrow> encode_model_proof_step (as_goal actions) (ac_step candidate)))"

definition resolve_proof_action_answer ::
  "action_set \<Rightarrow> string \<Rightarrow> action_answer_contract \<Rightarrow> nat option" where
  "resolve_proof_action_answer actions answer contract =
     (case contract of
        PresentationIndex \<Rightarrow>
          Option.bind (parse_proof_action_index answer) (\<lambda>index.
            if index < length (as_candidates actions) then Some index else None)
      | SemanticStep \<Rightarrow>
          Option.bind (decode_model_proof_step answer) (\<lambda>(goal, step).
            if goal = as_goal actions
            then position_of (\<lambda>candidate. ac_step candidate = step) (as_candidates actions) else None))"

section \<open>Enumeration of candidates\<close>

text \<open>The walk of two applications down to the first argument in which they differ.\<close>

fun first_difference_path :: "ruliad_term \<Rightarrow> ruliad_term \<Rightarrow> nat list"
  and first_difference_argument :: "nat \<Rightarrow> ruliad_term list \<Rightarrow> ruliad_term list \<Rightarrow> nat list" where
  "first_difference_path current target =
     (case (current, target) of
        (Apply current_operator current_arguments, Apply target_operator target_arguments) \<Rightarrow>
          if current_operator \<noteq> target_operator \<or> length current_arguments \<noteq> length target_arguments
          then [] else first_difference_argument 0 current_arguments target_arguments
      | _ \<Rightarrow> [])"
| "first_difference_argument index (current # currents) (target # targets) =
     (if current \<noteq> target then index # first_difference_path current target
      else first_difference_argument (Suc index) currents targets)"
| "first_difference_argument index [] targets = []"
| "first_difference_argument index (current # currents) [] = []"

declare first_difference_path.simps [simp del]

fun collect_term_paths :: "ruliad_term \<Rightarrow> nat list \<Rightarrow> nat list list \<Rightarrow> nat \<Rightarrow> nat list list"
  and collect_argument_paths ::
    "nat \<Rightarrow> ruliad_term list \<Rightarrow> nat list \<Rightarrow> nat list list \<Rightarrow> nat \<Rightarrow> nat list list" where
  "collect_term_paths t path output limit =
     (if limit \<le> length output then output
      else (case t of
              Apply operator arguments \<Rightarrow> collect_argument_paths 0 arguments path (output @ [path]) limit
            | _ \<Rightarrow> output @ [path]))"
| "collect_argument_paths index [] path output limit = output"
| "collect_argument_paths index (argument # arguments) path output limit =
     (if limit \<le> length output then output
      else collect_argument_paths (Suc index) arguments path
             (collect_term_paths argument (path @ [index]) output limit) limit)"

declare collect_term_paths.simps [simp del]

text \<open>The shuffle mixes its own 64-bit state as SplitMix64 does and takes the remainder.\<close>

definition mixed_index :: "nat \<Rightarrow> u64 \<Rightarrow> nat \<times> u64" where
  "mixed_index bound state =
     (let state = state + gamma in (unat (mix_output state) mod bound, state))"

interpretation mixed: index_source mixed_index
  by unfold_locales (simp add: mixed_index_def Let_def)

definition deterministic_shuffle :: "'a list \<Rightarrow> u64 \<Rightarrow> 'a list" where
  "deterministic_shuffle items state = fst (shuffle_loop mixed_index (length items - 1) items state)"

definition action_seed :: "string \<Rightarrow> nat \<Rightarrow> u64" where
  "action_seed problem_hash step_index =
     foldl (\<lambda>state byte. word_rotl 7 state XOR of_char byte)
       (of_nat step_index XOR 0x9e3779b97f4a7c15) problem_hash"

definition action_sort_key :: "proof_step \<Rightarrow> u64 \<Rightarrow> u64" where
  "action_sort_key step seed =
     (let source = (case step_source step of
            AxiomSource ident \<Rightarrow> foldl (\<lambda>acc byte. word_rotl 5 acc XOR of_char byte) 0 ident
          | LemmaSource goal \<Rightarrow> of_nat goal * 0x517cc1b727220a95);
          path = foldl (\<lambda>acc index. word_rotl 9 acc XOR (of_nat index + 1)) 0 (step_path step)
      in source XOR path XOR seed
           XOR (case step_direction step of Forward \<Rightarrow> 0 | Reverse \<Rightarrow> - 1))"

definition action_sources ::
  "proof_problem \<Rightarrow> proof_goal \<Rightarrow> proof_step option \<Rightarrow> proof_source list" where
  "action_sources problem goal_spec preferred_step =
     take max_enumerated_sources (dedup_preserving_order
       ((case preferred_step of None \<Rightarrow> [] | Some step \<Rightarrow> [step_source step])
        @ map LemmaSource (goal_dependencies goal_spec)
        @ map (\<lambda>ax. AxiomSource (ax_id ax)) (problem_axioms problem)))"

definition action_paths ::
  "ruliad_term \<Rightarrow> ruliad_term \<Rightarrow> proof_step option \<Rightarrow> nat list list" where
  "action_paths current target preferred_step =
     take max_enumerated_paths (dedup_preserving_order
       (collect_term_paths current []
          ((case preferred_step of None \<Rightarrow> [] | Some step \<Rightarrow> [step_path step])
           @ [first_difference_path current target]) max_enumerated_paths))"

definition action_steps ::
  "proof_source list \<Rightarrow> nat list list \<Rightarrow> proof_step option \<Rightarrow> proof_step list" where
  "action_steps sources paths preferred_step =
     dedup_preserving_order
       ((case preferred_step of None \<Rightarrow> [] | Some step \<Rightarrow> [step])
        @ concat (map (\<lambda>source. concat (map (\<lambda>direction.
              map (\<lambda>path. \<lparr>step_source = source, step_path = path, step_direction = direction\<rparr>) paths)
            [Forward, Reverse])) sources))"

definition trial_steps :: "proof_step list \<Rightarrow> proof_step option \<Rightarrow> u64 \<Rightarrow> proof_step list" where
  "trial_steps steps preferred_step seed =
     (if preferred_step \<noteq> None \<and> 1 < length steps
      then take 1 steps @
             take (max_trial_actions - 1) (deterministic_shuffle (drop 1 steps) (seed XOR 0xe7037ed1a0b428db))
      else deterministic_shuffle steps (seed XOR 0xe7037ed1a0b428db))"

definition try_action :: "goal_kernel \<Rightarrow> ruliad_term \<Rightarrow> ruliad_term \<Rightarrow> proof_step \<Rightarrow> action_candidate" where
  "try_action transition current target step =
     (let outcome = (case gk_apply transition current step of Inl _ \<Rightarrow> None | Inr t \<Rightarrow> Some t)
      in \<lparr>ac_step = step, ac_outcome = outcome,
          ac_distance = map_option (\<lambda>t. term_distance t target) outcome\<rparr>)"

definition enumerate_action_candidates ::
  "proof_problem \<Rightarrow> goal_kernel \<Rightarrow> nat \<Rightarrow> ruliad_term \<Rightarrow> ruliad_term \<Rightarrow> proof_step option \<Rightarrow> u64
   \<Rightarrow> action_candidate list" where
  "enumerate_action_candidates problem transition goal current target preferred_step seed =
     (case nth_opt (problem_goals problem) goal of
        None \<Rightarrow> []
      | Some goal_spec \<Rightarrow>
          map (try_action transition current target)
            (trial_steps
               (action_steps (action_sources problem goal_spec preferred_step)
                  (action_paths current target preferred_step) preferred_step)
               preferred_step seed))"

section \<open>Selection of a menu\<close>

definition candidate_sort_key :: "u64 \<Rightarrow> action_candidate \<Rightarrow> bool \<times> nat \<times> u64" where
  "candidate_sort_key seed candidate =
     (ac_outcome candidate = None,
      (case ac_distance candidate of None \<Rightarrow> usize_max | Some d \<Rightarrow> d),
      action_sort_key (ac_step candidate) seed)"

fun push_until :: "nat \<Rightarrow> 'a list \<Rightarrow> 'a list \<Rightarrow> 'a list" where
  "push_until maximum selected [] = selected"
| "push_until maximum selected (candidate # candidates) =
     (if maximum \<le> length selected then selected
      else push_until maximum (selected @ [candidate]) candidates)"

fun push_new_steps ::
  "nat \<Rightarrow> action_candidate list \<Rightarrow> action_candidate list \<Rightarrow> action_candidate list" where
  "push_new_steps maximum selected [] = selected"
| "push_new_steps maximum selected (candidate # candidates) =
     (if maximum \<le> length selected then selected
      else push_new_steps maximum
             (if list_ex (\<lambda>existing. ac_step existing = ac_step candidate) selected then selected
              else selected @ [candidate]) candidates)"

definition step_position :: "proof_step option \<Rightarrow> action_candidate list \<Rightarrow> nat option" where
  "step_position preferred_step candidates =
     Option.bind preferred_step (\<lambda>preferred.
       position_of (\<lambda>candidate. ac_step candidate = preferred) candidates)"

definition select_hard_candidate_subset ::
  "action_candidate list \<Rightarrow> proof_step option \<Rightarrow> nat \<Rightarrow> u64 \<Rightarrow> action_candidate list" where
  "select_hard_candidate_subset candidates preferred_step maximum_candidates seed =
     (let preferred = step_position preferred_step candidates;
          rest = (case preferred of None \<Rightarrow> candidates | Some index \<Rightarrow> remove_at index candidates);
          ordered = sort_key (candidate_sort_key seed) rest;
          selected = (case preferred of None \<Rightarrow> [] | Some index \<Rightarrow> [candidates ! index]);
          preferred_outcome = (case selected of [] \<Rightarrow> None | first # _ \<Rightarrow> ac_outcome first);
          selected = push_until maximum_candidates selected
            (filter (\<lambda>candidate. ac_outcome candidate \<noteq> None \<and> ac_outcome candidate \<noteq> preferred_outcome)
               ordered);
          selected = push_new_steps maximum_candidates selected ordered
      in deterministic_shuffle selected (seed XOR 0xa0761d6478bd642f))"

definition proof_state_key :: "nat \<Rightarrow> ruliad_term \<Rightarrow> string" where
  "proof_state_key goal t = show_nat goal @ '':'' @ canonical_text t"

definition admissible_candidate ::
  "nat \<Rightarrow> ruliad_term \<Rightarrow> string set option \<Rightarrow> action_candidate \<Rightarrow> bool" where
  "admissible_candidate goal current excluded candidate \<longleftrightarrow>
     (case ac_outcome candidate of
        None \<Rightarrow> False
      | Some outcome \<Rightarrow>
          outcome \<noteq> current
          \<and> (case excluded of None \<Rightarrow> True | Some keys \<Rightarrow> proof_state_key goal outcome \<notin> keys))"

definition choose_index :: "proof_step option \<Rightarrow> action_candidate list \<Rightarrow> nat" where
  "choose_index preferred_step candidates =
     (case step_position preferred_step candidates of
        Some index \<Rightarrow> index
      | None \<Rightarrow>
          (case min_index_by (\<lambda>candidate. case ac_distance candidate of None \<Rightarrow> usize_max | Some d \<Rightarrow> d)
                  candidates of
             Some index \<Rightarrow> index | None \<Rightarrow> 0))"

definition proof_action_set_for_state ::
  "problem_hasher \<Rightarrow> proof_problem \<Rightarrow> nat \<Rightarrow> proof_step list \<Rightarrow> proof_step option \<Rightarrow> nat \<Rightarrow> u64
   \<Rightarrow> string set option \<Rightarrow> string + action_set" where
  "proof_action_set_for_state hash problem goal local_steps preferred_step maximum_candidates seed excluded =
     result_bind (map_err (\<lambda>e. ''invalid proof policy problem: '' @ kf_message e)
         (goal_kernel_new hash problem goal default_limits)) (\<lambda>transition.
     result_bind (map_err (\<lambda>e. ''invalid proof policy state: '' @ kf_message e)
         (gk_replay_prefix transition local_steps)) (\<lambda>current.
       let target = gk_target transition;
           candidates = filter (admissible_candidate goal current excluded)
             (enumerate_action_candidates problem transition goal current target preferred_step seed)
       in if candidates = [] then Inl ''proof policy state has no candidate actions''
          else
            let preferred_outcome = Option.bind preferred_step (\<lambda>preferred.
                  Option.bind (find (\<lambda>candidate. ac_step candidate = preferred) candidates) ac_outcome);
                candidates = select_hard_candidate_subset candidates preferred_step maximum_candidates seed;
                selected_index = choose_index preferred_step candidates
            in (case (case preferred_outcome of
                        Some outcome \<Rightarrow> Some outcome
                      | None \<Rightarrow> Option.bind (nth_opt candidates selected_index) ac_outcome) of
                  None \<Rightarrow> Inl ''selected proof action is not verifier-valid''
                | Some selected_outcome \<Rightarrow>
                    Inr \<lparr>as_goal = goal, as_current = current, as_target = target,
                         as_candidates = candidates, as_selected_index = selected_index,
                         as_equivalent_indices =
                           indices_where (\<lambda>candidate. ac_outcome candidate = Some selected_outcome)
                             candidates\<rparr>)))"

definition oracle_proof_action_set ::
  "problem_hasher \<Rightarrow> proof_problem \<Rightarrow> proof_certificate \<Rightarrow> nat \<Rightarrow> nat \<Rightarrow> string + action_set" where
  "oracle_proof_action_set hash problem certificate step_index maximum_candidates =
     (let message = ''proof action step index '' @ show_nat step_index @ '' is out of bounds'' in
      case prefix_before certificate step_index of
        None \<Rightarrow> Inl message
      | Some prefix_certificate \<Rightarrow>
          (case step_at certificate step_index of
             None \<Rightarrow> Inl message
           | Some (goal, oracle_step) \<Rightarrow>
               let local_steps =
                     (case find (\<lambda>candidate. gc_goal candidate = goal) (cert_goals prefix_certificate) of
                        None \<Rightarrow> [] | Some candidate \<Rightarrow> gc_steps candidate)
               in proof_action_set_for_state hash problem goal local_steps (Some oracle_step)
                    (max 2 maximum_candidates) (action_seed (cert_problem_hash certificate) step_index) None))"

section \<open>The policy state\<close>

record policy_state =
  ps_goal_order :: "nat list"
  ps_goal_cursor :: nat
  ps_local_steps :: "proof_step list"
  ps_visited :: "string set"

definition policy_new :: "proof_problem \<Rightarrow> policy_state" where
  "policy_new problem =
     \<lparr>ps_goal_order = required_goal_indices problem, ps_goal_cursor = 0, ps_local_steps = [],
      ps_visited = {}\<rparr>"

definition next_goal_state :: "policy_state \<Rightarrow> policy_state" where
  "next_goal_state s =
     s\<lparr>ps_goal_cursor := sat_add (ps_goal_cursor s) 1, ps_local_steps := [], ps_visited := {}\<rparr>"

text \<open>The inner loop over the steps of one goal certificate, and the loop over the goals with the
  number of steps still to take.\<close>

fun follow_steps ::
  "goal_kernel \<Rightarrow> nat \<Rightarrow> ruliad_term \<Rightarrow> proof_step list \<Rightarrow> policy_state
   \<Rightarrow> string + ruliad_term \<times> policy_state" where
  "follow_steps transition goal current [] s = Inr (current, s)"
| "follow_steps transition goal current (step # steps) s =
     result_bind (map_err (\<lambda>e. ''invalid proof policy prefix: '' @ kf_message e)
         (gk_apply transition current step)) (\<lambda>current.
       follow_steps transition goal current steps
         (s\<lparr>ps_local_steps := ps_local_steps s @ [step],
           ps_visited := insert (proof_state_key goal current) (ps_visited s)\<rparr>))"

fun follow_goals ::
  "problem_hasher \<Rightarrow> proof_problem \<Rightarrow> goal_certificate list \<Rightarrow> nat \<Rightarrow> policy_state
   \<Rightarrow> string + nat \<times> policy_state" where
  "follow_goals hash problem [] remaining_steps s = Inr (remaining_steps, s)"
| "follow_goals hash problem (goal_certificate # goals) remaining_steps s =
     (if remaining_steps = 0 then Inr (remaining_steps, s)
      else (case nth_opt (ps_goal_order s) (ps_goal_cursor s) of
              None \<Rightarrow> Inl ''certificate prefix continues after every goal is solved''
            | Some expected_goal \<Rightarrow>
                if gc_goal goal_certificate \<noteq> expected_goal
                then Inl (''certificate goal '' @ show_nat (gc_goal goal_certificate)
                          @ '' does not match policy goal '' @ show_nat expected_goal)
                else result_bind (map_err (\<lambda>e. ''invalid proof policy problem: '' @ kf_message e)
                    (goal_kernel_new hash problem expected_goal default_limits)) (\<lambda>transition.
                  let prefix_len = min remaining_steps (length (gc_steps goal_certificate)) in
                  result_bind (follow_steps transition expected_goal (gk_initial transition)
                      (take prefix_len (gc_steps goal_certificate)) s) (\<lambda>(current, s).
                    let remaining_steps = remaining_steps - prefix_len in
                    if prefix_len < length (gc_steps goal_certificate) then Inr (remaining_steps, s)
                    else if current \<noteq> gk_target transition
                    then Inl (''certificate goal '' @ show_nat expected_goal @ '' does not reach its target'')
                    else follow_goals hash problem goals remaining_steps (next_goal_state s)))))"

definition from_certificate_prefix ::
  "problem_hasher \<Rightarrow> proof_problem \<Rightarrow> proof_certificate \<Rightarrow> nat \<Rightarrow> string + policy_state" where
  "from_certificate_prefix hash problem certificate step_index =
     (if step_count certificate < step_index
      then Inl (''proof policy prefix step '' @ show_nat step_index @ '' exceeds certificate length ''
                @ show_nat (step_count certificate))
      else result_bind (follow_goals hash problem (cert_goals certificate) step_index (policy_new problem))
             (\<lambda>(remaining_steps, s).
                if 0 < remaining_steps
                then Inl (''certificate prefix is missing '' @ show_nat remaining_steps @ '' requested steps'')
                else Inr s))"

definition policy_solved :: "policy_state \<Rightarrow> bool" where
  "policy_solved s \<longleftrightarrow> length (ps_goal_order s) \<le> ps_goal_cursor s"

definition solved_goals :: "policy_state \<Rightarrow> nat" where
  "solved_goals s = min (ps_goal_cursor s) (length (ps_goal_order s))"

definition total_goals :: "policy_state \<Rightarrow> nat" where
  "total_goals s = length (ps_goal_order s)"

definition canonical_state_key :: "problem_hasher \<Rightarrow> proof_problem \<Rightarrow> policy_state \<Rightarrow> string + string" where
  "canonical_state_key hash problem s =
     (if policy_solved s then Inr ''solved''
      else
        let goal = ps_goal_order s ! ps_goal_cursor s in
        result_bind (map_err (\<lambda>e. ''invalid proof policy problem: '' @ kf_message e)
            (goal_kernel_new hash problem goal default_limits)) (\<lambda>transition.
        result_bind (map_err (\<lambda>e. ''invalid proof policy state: '' @ kf_message e)
            (gk_replay_prefix transition (ps_local_steps s))) (\<lambda>current.
          Inr (proof_state_key goal current))))"

definition backtrack :: "policy_state \<Rightarrow> bool \<times> policy_state" where
  "backtrack s = (ps_local_steps s \<noteq> [], s\<lparr>ps_local_steps := butlast (ps_local_steps s)\<rparr>)"

definition policy_action_set ::
  "problem_hasher \<Rightarrow> proof_problem \<Rightarrow> policy_state \<Rightarrow> nat \<Rightarrow> string + action_set" where
  "policy_action_set hash problem s maximum_candidates =
     (case nth_opt (ps_goal_order s) (ps_goal_cursor s) of
        None \<Rightarrow> Inl ''proof policy is already solved''
      | Some goal \<Rightarrow>
          result_bind (hash problem) (\<lambda>problem_hash.
            let seed = action_seed problem_hash
                  (sat_add (length (ps_local_steps s)) (ps_goal_cursor s * 2 ^ 20 mod 2 ^ 64))
            in proof_action_set_for_state hash problem goal (ps_local_steps s) None
                 (max 2 maximum_candidates) seed (Some (ps_visited s))))"

definition policy_apply :: "policy_state \<Rightarrow> action_set \<Rightarrow> nat \<Rightarrow> string + bool \<times> policy_state" where
  "policy_apply s actions candidate_index =
     (case nth_opt (ps_goal_order s) (ps_goal_cursor s) of
        None \<Rightarrow> Inl ''proof policy is already solved''
      | Some expected_goal \<Rightarrow>
          if as_goal actions \<noteq> expected_goal then Inl ''proof action set belongs to a different goal''
          else (case nth_opt (as_candidates actions) candidate_index of
                  None \<Rightarrow> Inl (''proof action candidate '' @ show_nat candidate_index @ '' is out of range'')
                | Some candidate \<Rightarrow>
                    (case ac_outcome candidate of
                       None \<Rightarrow> Inl ''proof action candidate is verifier-invalid''
                     | Some outcome \<Rightarrow>
                         let state_key = proof_state_key expected_goal outcome;
                             repeated = (state_key \<in> ps_visited s);
                             s = s\<lparr>ps_local_steps := ps_local_steps s @ [ac_step candidate],
                                   ps_visited := insert state_key (ps_visited s)\<rparr>
                         in Inr (repeated, if outcome = as_target actions then next_goal_state s else s))))"

section \<open>Rollout\<close>

record rollout_report =
  ro_solved :: bool
  ro_steps :: nat
  ro_valid_actions :: nat
  ro_invalid_actions :: nat
  ro_repeated_states :: nat
  ro_backtracks :: nat
  ro_solved_goals :: nat
  ro_total_goals :: nat

text \<open>The selector of the source is a closure that may keep a state of its own. The loop runs at
  most \<open>step_budget\<close> times, the source's \<open>maximum_steps\<close>.\<close>

type_synonym 's selector = "'s \<Rightarrow> policy_state \<Rightarrow> action_set \<Rightarrow> nat option \<times> 's"

fun rollout_loop ::
  "problem_hasher \<Rightarrow> proof_problem \<Rightarrow> nat \<Rightarrow> 's selector \<Rightarrow> nat \<Rightarrow> 's \<Rightarrow> policy_state \<Rightarrow> rollout_report
   \<Rightarrow> policy_state \<times> rollout_report" where
  "rollout_loop hash problem maximum_candidates select 0 c s report = (s, report)"
| "rollout_loop hash problem maximum_candidates select (Suc n) c s report =
     (if policy_solved s then (s, report)
      else (case policy_action_set hash problem s maximum_candidates of
              Inl _ \<Rightarrow>
                (case backtrack s of
                   (True, s') \<Rightarrow>
                     rollout_loop hash problem maximum_candidates select n c s'
                       (report\<lparr>ro_backtracks := sat_add (ro_backtracks report) 1\<rparr>)
                 | (False, s') \<Rightarrow>
                     (s', report\<lparr>ro_invalid_actions := sat_add (ro_invalid_actions report) 1\<rparr>))
            | Inr actions \<Rightarrow>
                (case select c s actions of
                   (None, c') \<Rightarrow> (s, report\<lparr>ro_invalid_actions := sat_add (ro_invalid_actions report) 1\<rparr>)
                 | (Some index, c') \<Rightarrow>
                     let report = report\<lparr>ro_steps := sat_add (ro_steps report) 1\<rparr> in
                     (case policy_apply s actions index of
                        Inr (repeated, s') \<Rightarrow>
                          rollout_loop hash problem maximum_candidates select n c' s'
                            (report\<lparr>ro_valid_actions := sat_add (ro_valid_actions report) 1,
                               ro_repeated_states :=
                                 sat_add (ro_repeated_states report) (if repeated then 1 else 0)\<rparr>)
                      | Inl _ \<Rightarrow>
                          (s, report\<lparr>ro_invalid_actions := sat_add (ro_invalid_actions report) 1\<rparr>)))))"

definition rollout_proof_policy ::
  "problem_hasher \<Rightarrow> proof_problem \<Rightarrow> nat \<Rightarrow> nat \<Rightarrow> 's selector \<Rightarrow> 's \<Rightarrow> rollout_report" where
  "rollout_proof_policy hash problem step_budget maximum_candidates select c =
     (let s = policy_new problem;
          report = \<lparr>ro_solved = False, ro_steps = 0, ro_valid_actions = 0, ro_invalid_actions = 0,
            ro_repeated_states = 0, ro_backtracks = 0, ro_solved_goals = 0, ro_total_goals = total_goals s\<rparr>
      in case rollout_loop hash problem maximum_candidates select step_budget c s report of
           (s, report) \<Rightarrow> report\<lparr>ro_solved := policy_solved s, ro_solved_goals := solved_goals s\<rparr>)"

end
