(* ===== verification/Ruliad_Policy_Menu.thy ===== *)
theory Ruliad_Policy_Menu
  imports Ruliad_Policy
begin

text \<open>
  Facts about the menus of \<open>Ruliad_Policy\<close>: the slice helpers, the distance between terms, the
  group of rotations, and the soundness of enumeration and selection: every candidate of a menu is
  a verified step with its outcome, the steps are distinct, and a preferred step that moves the
  term is in the menu and selected.
\<close>

section \<open>Slices\<close>

lemma position_of_Some:
  "position_of p xs = Some i \<longleftrightarrow> i < length xs \<and> p (xs ! i) \<and> (\<forall>j<i. \<not> p (xs ! j))"
proof (induction xs arbitrary: i)
  case (Cons x xs)
  show ?case
  proof (cases i)
    case 0
    then show ?thesis by auto
  next
    case (Suc k)
    with Cons [of k] show ?thesis by (cases "p x") (auto simp: All_less_Suc2)
  qed
qed simp

lemma position_of_None: "position_of p xs = None \<longleftrightarrow> (\<forall>x\<in>set xs. \<not> p x)"
  by (induction xs) auto

lemma position_of_defined: "x \<in> set xs \<Longrightarrow> p x \<Longrightarrow> \<exists>i. position_of p xs = Some i"
  using position_of_None [of p xs] by (cases "position_of p xs") auto

lemma mset_remove_at: "i < length xs \<Longrightarrow> mset xs = add_mset (xs ! i) (mset (remove_at i xs))"
  unfolding remove_at_def by (subst id_take_nth_drop [of i xs]) auto

lemma set_remove_at: "set (remove_at i xs) \<subseteq> set xs"
  by (auto simp: remove_at_def dest: in_set_takeD in_set_dropD)

lemma set_indices_where [simp]: "set (indices_where p xs) = {i. i < length xs \<and> p (xs ! i)}"
  by (auto simp: indices_where_def)

lemma sorted_indices_where [simp]: "sorted (indices_where p xs)"
  by (simp add: indices_where_def sorted_wrt_filter)

lemma min_index_by_None [simp]: "min_index_by key xs = None \<longleftrightarrow> xs = []"
  by (cases xs) (auto split: option.splits)

lemma min_index_by_Some:
  "min_index_by key xs = Some i \<Longrightarrow> i < length xs \<and> (\<forall>j<length xs. key (xs ! i) \<le> key (xs ! j))"
proof (induction xs arbitrary: i)
  case (Cons x xs)
  show ?case
  proof (cases "min_index_by key xs")
    case None
    with Cons.prems show ?thesis by simp
  next
    case (Some k)
    with Cons.IH have "k < length xs" "\<forall>j<length xs. key (xs ! k) \<le> key (xs ! j)" by auto
    with Some Cons.prems show ?thesis
      by (auto simp: All_less_Suc2 intro: order_trans split: if_splits)
  qed
qed simp

lemma dedup_loop_facts:
  "distinct (take index items) \<Longrightarrow>
   distinct (dedup_loop index items) \<and> set (dedup_loop index items) = set items
   \<and> take index (dedup_loop index items) = take index items"
proof (induction index items rule: dedup_loop.induct)
  case (1 index items)
  show ?case
  proof (cases "index < length items")
    case False
    with 1 show ?thesis by (subst (1 2 3) dedup_loop.simps) simp
  next
    case True
    show ?thesis
    proof (cases "items ! index \<in> set (take index items)")
      case True
      with \<open>index < length items\<close> have shrink: "take index (remove_at index items) = take index items"
        and kept: "set (remove_at index items) = set items"
        using arg_cong [OF id_take_nth_drop [OF \<open>index < length items\<close>], of set]
        by (auto simp: remove_at_def)
      with 1 True \<open>index < length items\<close> show ?thesis by (subst (1 2 3) dedup_loop.simps) simp
    next
      case False
      with 1 True have "distinct (take (Suc index) items)" by (simp add: take_Suc_conv_app_nth)
      with 1 True False have step: "distinct (dedup_loop (Suc index) items)"
        "set (dedup_loop (Suc index) items) = set items"
        "take (Suc index) (dedup_loop (Suc index) items) = take (Suc index) items" by auto
      have "take index (take (Suc index) ys) = take index ys" for ys :: "'a list"
        by (simp add: min_def)
      then have "take index (dedup_loop (Suc index) items) = take index items"
        by (metis step(3))
      with step True False show ?thesis by (subst (1 2 3) dedup_loop.simps) simp
    qed
  qed
qed

lemma distinct_dedup [simp]: "distinct (dedup_preserving_order items)"
  and set_dedup [simp]: "set (dedup_preserving_order items) = set items"
  using dedup_loop_facts [of 0 items] by (auto simp: dedup_preserving_order_def)

lemma dedup_Cons: "\<exists>rest. dedup_preserving_order (x # items) = x # rest"
proof -
  have "dedup_preserving_order (x # items) = dedup_loop (Suc 0) (x # items)"
    unfolding dedup_preserving_order_def by (subst dedup_loop.simps) simp
  moreover have "take (Suc 0) (dedup_loop (Suc 0) (x # items)) = [x]"
    using dedup_loop_facts [of "Suc 0" "x # items"] by simp
  ultimately show ?thesis by (cases "dedup_loop (Suc 0) (x # items)") auto
qed

lemma mset_deterministic_shuffle [simp]: "mset (deterministic_shuffle items state) = mset items"
proof (cases items)
  case Nil
  then show ?thesis by (simp add: deterministic_shuffle_def)
next
  case (Cons x xs)
  then show ?thesis
    unfolding deterministic_shuffle_def
    by (intro shuffle_loop_permutes) (auto simp: mixed_index_def Let_def)
qed

lemma set_deterministic_shuffle [simp]: "set (deterministic_shuffle items state) = set items"
  by (metis mset_deterministic_shuffle set_mset_mset)

lemma length_deterministic_shuffle [simp]: "length (deterministic_shuffle items state) = length items"
  by (metis mset_deterministic_shuffle size_mset)

lemma distinct_deterministic_shuffle [simp]: "distinct (deterministic_shuffle items state) = distinct items"
  by (metis mset_deterministic_shuffle mset_eq_imp_distinct_iff)

section \<open>Distance\<close>

lemma term_distance_0:
  "term_distance t u = 0 \<longleftrightarrow> t = u"
  "length ts = length us \<Longrightarrow> term_distances ts us = 0 \<longleftrightarrow> ts = us"
proof (induction t u and ts us rule: term_distance_term_distances.induct)
  case (1 t u)
  have "0 < term_node_count v" for v by (cases v) (auto simp: sat_add_def usize_max_def)
  then have "sat_add (term_node_count t) (term_node_count u) \<noteq> 0"
    by (simp add: sat_add_def usize_max_def)
  then have separate: "term_distance t u = 0 \<longleftrightarrow> t = u"
    if "\<nexists>f ts us. t = Apply f ts \<and> u = Apply f us"
    using that by (subst term_distance.simps) (auto split: ruliad_term.splits)
  show ?case
  proof (cases "\<exists>f ts us. t = Apply f ts \<and> u = Apply f us")
    case True
    then obtain f ts us where "t = Apply f ts" "u = Apply f us" by auto
    moreover from this 1 have "length ts = length us \<Longrightarrow> ts \<noteq> us \<Longrightarrow> term_distances ts us \<noteq> 0" by simp
    ultimately show ?thesis
      by (subst term_distance.simps) (auto simp: abs_diff_def)
  qed (rule separate)
qed auto

lemma term_distance_sym:
  "term_distance t u = term_distance u t"
  "term_distances ts us = term_distances us ts"
proof (induction t u and ts us rule: term_distance_term_distances.induct)
  case (1 t u)
  then show ?case
    by (subst (1 2) term_distance.simps)
      (auto simp: abs_diff_def sat_add_def add.commute split: ruliad_term.splits)
next
  case (3 us)
  then show ?case by (cases us) auto
qed auto

section \<open>Rotations\<close>

text \<open>What the presentation of a menu relies on: turning by a number of places is an action of the
  cyclic group of its size.\<close>

locale cyclic_action =
  fixes carrier :: "'a \<Rightarrow> bool" and places :: "'a \<Rightarrow> nat" and turn :: "nat \<Rightarrow> 'a \<Rightarrow> 'a"
  assumes turn_closed: "carrier x \<Longrightarrow> carrier (turn n x)"
    and turn_places: "carrier x \<Longrightarrow> places (turn n x) = places x"
    and turn_turn: "carrier x \<Longrightarrow> turn m (turn n x) = turn (n + m) x"
    and turn_all: "carrier x \<Longrightarrow> turn (places x) x = x"
    and turn_none: "carrier x \<Longrightarrow> turn 0 x = x"
begin

lemma turn_multiple: "carrier x \<Longrightarrow> turn (k * places x) x = x"
proof (induction k)
  case (Suc k)
  have "turn (Suc k * places x) x = turn (k * places x) (turn (places x) x)"
    using turn_turn [OF Suc.prems, of "k * places x" "places x"] by simp
  with Suc show ?case by (simp add: turn_all)
qed (simp add: turn_none)

lemma turn_back: "carrier x \<Longrightarrow> n \<le> places x \<Longrightarrow> turn (places x - n) (turn n x) = x"
  by (simp add: turn_turn turn_all)

lemma turn_mod: "carrier x \<Longrightarrow> turn (n mod places x) x = turn n x"
  using turn_turn [of x "n mod places x" "n div places x * places x"] turn_multiple [of x "n div places x"]
  by simp

end

definition menu_ok :: "action_set \<Rightarrow> bool" where
  "menu_ok actions \<longleftrightarrow>
     as_selected_index actions < length (as_candidates actions)
     \<and> sorted (as_equivalent_indices actions)
     \<and> list_all (\<lambda>i. i < length (as_candidates actions)) (as_equivalent_indices actions)"

definition remap_index :: "nat \<Rightarrow> nat \<Rightarrow> nat \<Rightarrow> nat" where
  "remap_index places rotation index = (index + places - rotation mod places) mod places"

definition rotated :: "nat \<Rightarrow> action_set \<Rightarrow> action_set" where
  "rotated rotation actions =
     (let places = length (as_candidates actions) in
      actions\<lparr>as_candidates := rotate rotation (as_candidates actions),
        as_selected_index := remap_index places rotation (as_selected_index actions),
        as_equivalent_indices := sort (map (remap_index places rotation) (as_equivalent_indices actions))\<rparr>)"

lemma menu_positive: "menu_ok actions \<Longrightarrow> 0 < length (as_candidates actions)"
  by (auto simp: menu_ok_def)

lemma rotate_left_ok:
  assumes "menu_ok actions"
  shows "rotate_left actions rotation = Inr (rotated rotation actions)"
proof -
  let ?n = "length (as_candidates actions)"
  have "\<not> list_ex (\<lambda>index. ?n \<le> index) (as_equivalent_indices actions)"
    using assms by (auto simp: menu_ok_def list_ex_iff list_all_iff)
  moreover have "\<not> (?n = 0 \<or> ?n \<le> as_selected_index actions)"
    using assms by (auto simp: menu_ok_def)
  ultimately show ?thesis
    unfolding rotate_left_def rotated_def Let_def remap_index_def
    by (simp add: rotate_conv_mod [of rotation, symmetric])
qed

lemma remap_index_bound: "0 < places \<Longrightarrow> remap_index places rotation index < places"
  by (simp add: remap_index_def)

lemma remap_index_eq:
  assumes "0 < places"
  shows "remap_index places rotation index = k \<longleftrightarrow> k < places \<and> (k + rotation) mod places = index mod places"
proof -
  have le: "rotation mod places \<le> index + places"
    using assms by (metis le_add2 mod_less_divisor order_less_imp_le order_trans)
  show ?thesis
  proof
    assume k: "remap_index places rotation index = k"
    have "(k + rotation mod places) mod places = (index + places - rotation mod places + rotation mod places) mod places"
      unfolding k [symmetric] remap_index_def by (rule mod_add_left_eq)
    then show "k < places \<and> (k + rotation) mod places = index mod places"
      using le assms k remap_index_bound [OF assms] by (auto simp: mod_simps)
  next
    assume k: "k < places \<and> (k + rotation) mod places = index mod places"
    then have "(k + rotation mod places) mod places = (index + places) mod places" by (simp add: mod_simps)
    then obtain q r where "k + rotation mod places + places * q = index + places + places * r"
      unfolding nat_mod_eq_iff by blast
    then have "index + places - rotation mod places + places * r = k + places * q" using le by linarith
    then have "(index + places - rotation mod places) mod places = k mod places"
      unfolding nat_mod_eq_iff by blast
    with k show "remap_index places rotation index = k" by (simp add: remap_index_def)
  qed
qed

lemma remap_index_id: "index < places \<Longrightarrow> remap_index places 0 index = index"
  by (subst remap_index_eq) auto

lemma remap_index_all: "index < places \<Longrightarrow> remap_index places places index = index"
  by (subst remap_index_eq) auto

lemma remap_index_remap:
  assumes "0 < places"
  shows "remap_index places m (remap_index places n index) = remap_index places (n + m) index"
proof -
  define i where "i = remap_index places n index"
  define j where "j = remap_index places m i"
  have i: "(i + n) mod places = index mod places"
    using remap_index_eq [OF assms, of n index i] by (simp add: i_def)
  have j: "j < places" "(j + m) mod places = i mod places"
    using remap_index_eq [OF assms, of m i j] by (simp_all add: j_def)
  have "(j + (n + m)) mod places = ((j + m) mod places + n) mod places"
    by (simp add: mod_simps ac_simps)
  also have "\<dots> = index mod places" by (simp add: j i mod_simps)
  finally show ?thesis
    using j(1) remap_index_eq [OF assms, of "n + m" index j] by (simp add: i_def j_def)
qed

lemma nth_rotate_remap:
  "index < length xs \<Longrightarrow> rotate n xs ! remap_index (length xs) n index = xs ! index"
proof -
  assume index: "index < length xs"
  then have "0 < length xs" by linarith
  from remap_index_eq [OF this, of n index "remap_index (length xs) n index"] index show ?thesis
    by (simp add: nth_rotate add.commute)
qed

lemma sort_map_sort:
  "0 < places \<Longrightarrow> sort (map (remap_index places m) (sort (map (remap_index places n) xs)))
     = sort (map (remap_index places (n + m)) xs)"
  by (rule properties_for_sort) (simp_all add: remap_index_remap multiset.map_comp comp_def)

interpretation menu_turn: cyclic_action menu_ok "\<lambda>actions. length (as_candidates actions)" rotated
proof
  fix x :: action_set and m n
  assume ok: "menu_ok x"
  let ?c = "length (as_candidates x)"
  have pos: "0 < ?c" by (rule menu_positive [OF ok])
  show "menu_ok (rotated n x)"
    using pos by (auto simp: menu_ok_def rotated_def Let_def list_all_iff remap_index_bound)
  show "length (as_candidates (rotated n x)) = ?c" by (simp add: rotated_def Let_def)
  show "rotated m (rotated n x) = rotated (n + m) x"
    using pos sort_map_sort [OF pos]
    by (simp add: rotated_def Let_def rotate_rotate remap_index_remap add.commute [of m])
  have same: "map (remap_index ?c r) (as_equivalent_indices x) = as_equivalent_indices x"
    if "\<And>i. i < ?c \<Longrightarrow> remap_index ?c r i = i" for r
    using ok that by (intro map_idI) (auto simp: menu_ok_def list_all_iff)
  show "rotated ?c x = x" "rotated 0 x = x"
    using ok same [of ?c] same [of 0]
    by (simp_all add: rotated_def Let_def remap_index_all remap_index_id menu_ok_def sorted_sort_id)
qed

lemma rotated_index:
  assumes ok: "menu_ok actions" and i: "i < length (as_candidates actions)"
  shows "\<exists>j < length (as_candidates actions). as_candidates (rotated r actions) ! j = as_candidates actions ! i
    \<and> original_index_after_rotation actions j r = Inr i
    \<and> (is_equivalent_index (rotated r actions) j \<longleftrightarrow> is_equivalent_index actions i)"
proof -
  let ?n = "length (as_candidates actions)"
  define j where "j = remap_index ?n r i"
  have n: "0 < ?n" by (rule menu_positive [OF ok])
  have j: "j < ?n" "(j + r) mod ?n = i" using remap_index_eq [OF n, of r i j] i by (simp_all add: j_def)
  have "remap_index ?n r k = j \<longleftrightarrow> k = i" if "k < ?n" for k
    using remap_index_eq [OF n, of r k j] that j by auto
  then have "j \<in> remap_index ?n r ` set (as_equivalent_indices actions) \<longleftrightarrow> i \<in> set (as_equivalent_indices actions)"
    using ok by (auto simp: menu_ok_def list_all_iff image_iff)
  then have "is_equivalent_index (rotated r actions) j \<longleftrightarrow> is_equivalent_index actions i"
    by (simp add: is_equivalent_index_def rotated_def Let_def)
  moreover have "as_candidates (rotated r actions) ! j = as_candidates actions ! i"
    using nth_rotate_remap [OF i] by (simp add: rotated_def Let_def j_def)
  moreover have "original_index_after_rotation actions j r = Inr i"
    using j n by (simp add: original_index_after_rotation_def mod_simps)
  ultimately show ?thesis using j(1) by blast
qed

lemma rotated_selected: "menu_ok actions \<Longrightarrow> selected_candidate (rotated r actions) = selected_candidate actions"
  using nth_rotate_remap [of "as_selected_index actions" "as_candidates actions" r]
    remap_index_bound [OF menu_positive, of actions r "as_selected_index actions"]
  by (auto simp: selected_candidate_def rotated_def Let_def menu_ok_def nth_opt_def)

lemma rotate_selected_to_ok:
  assumes "menu_ok actions" and "desired < length (as_candidates actions)"
  shows "\<exists>r. rotate_selected_to actions desired = Inr (rotated r actions)
    \<and> as_selected_index (rotated r actions) = desired"
proof -
  let ?n = "length (as_candidates actions)" and ?s = "as_selected_index actions"
  define r where "r = (?s + ?n - desired) mod ?n"
  have n: "0 < ?n" by (rule menu_positive [OF assms(1)])
  have "desired + (?s + ?n - desired) = ?s + ?n" using assms(2) by simp
  then have "(desired + r) mod ?n = ?s mod ?n" by (simp add: r_def mod_simps)
  then have "remap_index ?n r ?s = desired" using remap_index_eq [OF n] assms(2) by simp
  moreover have "rotate_selected_to actions desired = rotate_left actions r"
    using assms n by (simp add: rotate_selected_to_def Let_def r_def menu_ok_def)
  ultimately show ?thesis
    using rotate_left_ok [OF assms(1), of r] by (intro exI [of _ r]) (simp add: rotated_def Let_def)
qed

section \<open>Enumeration\<close>

lemma set_trial_steps: "set (trial_steps steps preferred seed) \<subseteq> set steps"
  by (auto simp: trial_steps_def dest!: in_set_takeD dest: in_set_dropD)

lemma distinct_trial_steps: "distinct steps \<Longrightarrow> distinct (trial_steps steps preferred seed)"
proof -
  assume steps: "distinct steps"
  show ?thesis
  proof (cases steps)
    case Nil
    then show ?thesis by (simp add: trial_steps_def deterministic_shuffle_def)
  next
    case (Cons s rest)
    with steps have "distinct (take k (deterministic_shuffle rest x))"
      "s \<notin> set (take k (deterministic_shuffle rest x))" for k x
      by (auto dest: in_set_takeD)
    with steps Cons show ?thesis by (auto simp: trial_steps_def)
  qed
qed

lemma preferred_trial_step: "step \<in> set (trial_steps (step # rest) (Some step) seed)"
  by (cases rest) (auto simp: trial_steps_def)

lemma distinct_action_steps [simp]: "distinct (action_steps sources paths preferred)"
  by (simp add: action_steps_def)

lemma try_action_step [simp]: "ac_step (try_action k current target step) = step"
  by (simp add: try_action_def Let_def)

lemma enumerated_candidates:
  obtains steps where
    "enumerate_action_candidates problem k goal current target preferred seed
       = map (try_action k current target) steps" "distinct steps"
    "\<And>step. goal < length (problem_goals problem) \<Longrightarrow> preferred = Some step \<Longrightarrow> step \<in> set steps"
proof (cases "goal < length (problem_goals problem)")
  case False
  then show ?thesis
    by (intro that [of "[]"]) (simp_all add: enumerate_action_candidates_def nth_opt_def)
next
  case True
  define sources where "sources = action_sources problem (problem_goals problem ! goal) preferred"
  define paths where "paths = action_paths current target preferred"
  define steps where "steps = action_steps sources paths preferred"
  show ?thesis
  proof (rule that [of "trial_steps steps preferred seed"])
    show "enumerate_action_candidates problem k goal current target preferred seed
        = map (try_action k current target) (trial_steps steps preferred seed)"
      using True by (simp add: enumerate_action_candidates_def steps_def sources_def paths_def)
    show "distinct (trial_steps steps preferred seed)"
      by (rule distinct_trial_steps) (simp add: steps_def)
    show "step \<in> set (trial_steps steps preferred seed)" if "preferred = Some step" for step
    proof -
      have "\<exists>rest. steps = step # rest"
        using that by (simp add: steps_def action_steps_def dedup_Cons del: set_dedup)
      then obtain rest where "steps = step # rest" ..
      with that preferred_trial_step show ?thesis by simp
    qed
  qed
qed

text \<open>The enumeration is bounded, and without a preferred step it holds every combination.\<close>

lemma length_dedup: "length (dedup_preserving_order items) \<le> length items"
  using card_length [of items] distinct_card [OF distinct_dedup, of items] by simp

lemma set_action_steps_None:
  "set (action_steps sources paths None) =
     {\<lparr>step_source = source, step_path = path, step_direction = direction\<rparr> | source path direction.
        source \<in> set sources \<and> path \<in> set paths}"
proof -
  have "d = Forward \<or> d = Reverse" for d by (cases d) simp_all
  then show ?thesis by (simp add: action_steps_def) blast
qed

lemma length_action_steps: "length (action_steps sources paths preferred) \<le> 1 + 2 * length sources * length paths"
proof -
  let ?all = "concat (map (\<lambda>source. concat (map (\<lambda>direction. map (\<lambda>path.
      \<lparr>step_source = source, step_path = path, step_direction = direction\<rparr>) paths) [Forward, Reverse])) sources)"
  have "length ?all = 2 * length sources * length paths"
    by (induction sources) (simp_all add: algebra_simps)
  moreover have "length (action_steps sources paths preferred)
      \<le> length ((case preferred of None \<Rightarrow> [] | Some step \<Rightarrow> [step]) @ ?all)"
    unfolding action_steps_def by (rule length_dedup)
  ultimately show ?thesis by (cases preferred) auto
qed

lemma length_enumerated: "length (enumerate_action_candidates problem k goal current target preferred seed) \<le> 193"
proof -
  have "length (trial_steps steps preferred seed) \<le> length steps" for steps
    by (auto simp: trial_steps_def)
  moreover have "length (action_steps (action_sources problem g preferred) (action_paths current target preferred) preferred)
      \<le> 1 + 2 * 8 * 12" for g
  proof -
    have "length (action_sources problem g preferred) \<le> 8" "length (action_paths current target preferred) \<le> 12"
      by (simp_all add: action_sources_def action_paths_def max_enumerated_sources_def max_enumerated_paths_def)
    then have "length (action_sources problem g preferred) * length (action_paths current target preferred) \<le> 8 * 12"
      by (rule mult_le_mono)
    with length_action_steps [of "action_sources problem g preferred" "action_paths current target preferred" preferred]
    show ?thesis by linarith
  qed
  ultimately show ?thesis
    by (auto simp: enumerate_action_candidates_def intro: order_trans split: option.splits)
qed

lemma enumerated_without_preference:
  assumes "goal < length (problem_goals problem)"
  shows "set (enumerate_action_candidates problem k goal current target None seed)
    = try_action k current target ` set (action_steps
        (action_sources problem (problem_goals problem ! goal) None) (action_paths current target None) None)"
  using assms by (simp add: enumerate_action_candidates_def trial_steps_def)

section \<open>Selection\<close>

lemma push_until_eq: "push_until maximum selected xs = selected @ take (maximum - length selected) xs"
  by (induction maximum selected xs rule: push_until.induct) (auto simp: Suc_diff_Suc take_Cons')

lemma push_new_steps_facts:
  "\<exists>extra. push_new_steps maximum selected xs = selected @ extra \<and> set extra \<subseteq> set xs
     \<and> (distinct (map ac_step selected) \<longrightarrow> distinct (map ac_step (selected @ extra)))
     \<and> length (selected @ extra) \<le> max maximum (length selected)"
proof (induction maximum selected xs rule: push_new_steps.induct)
  case (2 maximum selected c xs)
  show ?case
  proof (cases "maximum \<le> length selected")
    case False
    define next_selected where
      "next_selected = (if list_ex (\<lambda>e. ac_step e = ac_step c) selected then selected else selected @ [c])"
    then obtain extra where extra: "push_new_steps maximum next_selected xs = next_selected @ extra"
      "set extra \<subseteq> set xs"
      "distinct (map ac_step next_selected) \<longrightarrow> distinct (map ac_step (next_selected @ extra))"
      "length (next_selected @ extra) \<le> max maximum (length next_selected)"
      using "2.IH" False by auto
    have "\<exists>front. next_selected = selected @ front \<and> set front \<subseteq> {c} \<and> length next_selected \<le> maximum
      \<and> (distinct (map ac_step selected) \<longrightarrow> distinct (map ac_step next_selected))"
      using False by (auto simp: next_selected_def list_ex_iff)
    then obtain front where front: "next_selected = selected @ front" "set front \<subseteq> {c}"
      "length next_selected \<le> maximum"
      "distinct (map ac_step selected) \<longrightarrow> distinct (map ac_step next_selected)" by blast
    have "push_new_steps maximum selected (c # xs) = selected @ (front @ extra)"
      using False extra(1) front(1) by (simp add: next_selected_def)
    moreover have "set (front @ extra) \<subseteq> set (c # xs)" using extra(2) front(2) by auto
    ultimately show ?thesis using extra(3,4) front by (intro exI [of _ "front @ extra"]) auto
  qed (intro exI [of _ "[]"], simp)
qed simp

text \<open>A menu before its shuffle: the preferred candidate, the closest candidates with another
  outcome, then whatever fills it.\<close>

lemma select_hard_parts:
  assumes preferred: "step_position preferred_step candidates = preferred"
  obtains first negatives extra where
    "mset (select_hard_candidate_subset candidates preferred_step maximum seed)
       = mset (first @ negatives @ extra)"
    "first = (case preferred of None \<Rightarrow> [] | Some i \<Rightarrow> [candidates ! i])"
    "negatives = take (maximum - length first)
       (filter (\<lambda>c. ac_outcome c \<noteq> None
            \<and> ac_outcome c \<noteq> (case first of [] \<Rightarrow> None | f # _ \<Rightarrow> ac_outcome f))
         (sort_key (candidate_sort_key seed)
           (case preferred of None \<Rightarrow> candidates | Some i \<Rightarrow> remove_at i candidates)))"
    "set extra \<subseteq> set candidates"
    "distinct (map ac_step (first @ negatives)) \<longrightarrow> distinct (map ac_step (first @ negatives @ extra))"
    "length (first @ negatives @ extra) \<le> max maximum (length (first @ negatives))"
proof -
  define first where "first = (case preferred of None \<Rightarrow> [] | Some i \<Rightarrow> [candidates ! i])"
  define rest where
    "rest = (case preferred of None \<Rightarrow> candidates | Some i \<Rightarrow> remove_at i candidates)"
  define ordered where "ordered = sort_key (candidate_sort_key seed) rest"
  define negatives where "negatives = take (maximum - length first)
    (filter (\<lambda>c. ac_outcome c \<noteq> None
        \<and> ac_outcome c \<noteq> (case first of [] \<Rightarrow> None | f # _ \<Rightarrow> ac_outcome f)) ordered)"
  obtain extra where extra: "push_new_steps maximum (first @ negatives) ordered = (first @ negatives) @ extra"
    "set extra \<subseteq> set ordered"
    "distinct (map ac_step (first @ negatives)) \<longrightarrow> distinct (map ac_step ((first @ negatives) @ extra))"
    "length ((first @ negatives) @ extra) \<le> max maximum (length (first @ negatives))"
    using push_new_steps_facts [of maximum "first @ negatives" ordered] by blast
  have "set ordered \<subseteq> set candidates"
    using set_remove_at [THEN subsetD] by (auto simp: ordered_def rest_def split: option.splits)
  moreover have "mset (select_hard_candidate_subset candidates preferred_step maximum seed)
      = mset (first @ negatives @ extra)"
    unfolding select_hard_candidate_subset_def Let_def preferred push_until_eq mset_deterministic_shuffle
    unfolding rest_def [symmetric] first_def [symmetric]
    unfolding ordered_def [symmetric]
    unfolding negatives_def [symmetric] extra(1) by simp
  ultimately show ?thesis
    using extra that [of first negatives extra]
    by (simp add: first_def negatives_def ordered_def rest_def)
qed

lemma mset_take_below: "mset (take k xs) \<subseteq># mset xs"
  by (metis append_take_drop_id mset_append mset_subset_eq_add_left)

lemma distinct_submultiset:
  assumes "mset xs \<subseteq># mset ys" and "distinct ys"
  shows "distinct xs"
proof -
  have "count (mset xs) a \<le> 1" for a
  proof -
    have "count (mset ys) a \<le> 1" using assms(2) by (simp add: distinct_count_atmost_1)
    with mset_subset_eq_count [OF assms(1), of a] show ?thesis by linarith
  qed
  then have "count (mset xs) a = (if a \<in> set xs then 1 else 0)" for a
    using count_eq_zero_iff [of "mset xs" a] by (auto simp: le_Suc_eq)
  then show ?thesis by (simp add: distinct_count_atmost_1)
qed

lemma step_position_nth:
  assumes "step_position (Some step) candidates = Some i"
  shows "i < length candidates \<and> ac_step (candidates ! i) = step"
  using assms by (simp add: step_position_def position_of_Some)

lemma selected_subset:
  "set (select_hard_candidate_subset candidates preferred_step maximum seed) \<subseteq> set candidates"
  and selected_distinct:
  "distinct (map ac_step candidates) \<Longrightarrow>
     distinct (map ac_step (select_hard_candidate_subset candidates preferred_step maximum seed))"
  and selected_length:
  "0 < maximum \<Longrightarrow> length (select_hard_candidate_subset candidates preferred_step maximum seed) \<le> maximum"
  and selected_preferred:
  "preferred_step = Some step \<Longrightarrow> c \<in> set candidates \<Longrightarrow> ac_step c = step \<Longrightarrow>
     distinct (map ac_step candidates) \<Longrightarrow>
     c \<in> set (select_hard_candidate_subset candidates preferred_step maximum seed)"
proof -
  define preferred where "preferred = step_position preferred_step candidates"
  obtain first negatives extra where parts:
    "mset (select_hard_candidate_subset candidates preferred_step maximum seed)
       = mset (first @ negatives @ extra)"
    "first = (case preferred of None \<Rightarrow> [] | Some i \<Rightarrow> [candidates ! i])"
    "negatives = take (maximum - length first)
       (filter (\<lambda>c. ac_outcome c \<noteq> None
            \<and> ac_outcome c \<noteq> (case first of [] \<Rightarrow> None | f # _ \<Rightarrow> ac_outcome f))
         (sort_key (candidate_sort_key seed)
           (case preferred of None \<Rightarrow> candidates | Some i \<Rightarrow> remove_at i candidates)))"
    "set extra \<subseteq> set candidates"
    "distinct (map ac_step (first @ negatives)) \<longrightarrow> distinct (map ac_step (first @ negatives @ extra))"
    "length (first @ negatives @ extra) \<le> max maximum (length (first @ negatives))"
    by (rule select_hard_parts [OF preferred_def [symmetric]]) (rule that; assumption)
  have rest: "mset candidates = mset first
      + mset (case preferred of None \<Rightarrow> candidates | Some i \<Rightarrow> remove_at i candidates)"
  proof (cases preferred)
    case (Some i)
    then have "i < length candidates"
      by (cases preferred_step) (auto simp: preferred_def dest: step_position_nth, simp add: step_position_def)
    with Some mset_remove_at [of i candidates] show ?thesis by (simp add: parts(2))
  qed (simp add: parts(2))
  have negatives: "mset negatives \<subseteq># mset (case preferred of None \<Rightarrow> candidates | Some i \<Rightarrow> remove_at i candidates)"
    unfolding parts(3) by (rule subset_mset.trans [OF mset_take_below]) simp
  then have sub: "mset (first @ negatives) \<subseteq># mset candidates" using rest by simp
  have sets: "set (select_hard_candidate_subset candidates preferred_step maximum seed)
      = set (first @ negatives @ extra)"
    using parts(1) by (rule mset_eq_setD)
  show "set (select_hard_candidate_subset candidates preferred_step maximum seed) \<subseteq> set candidates"
    using parts(4) set_mset_mono [OF sub] by (auto simp: sets)
  show "0 < maximum \<Longrightarrow> length (select_hard_candidate_subset candidates preferred_step maximum seed) \<le> maximum"
  proof -
    assume "0 < maximum"
    then have "length (first @ negatives) \<le> maximum"
      by (auto simp: parts(2,3) split: option.splits)
    moreover have "length (select_hard_candidate_subset candidates preferred_step maximum seed)
        = length (first @ negatives @ extra)"
      using parts(1) by (rule mset_eq_length)
    ultimately show ?thesis using parts(6) by simp
  qed
  show "distinct (map ac_step (select_hard_candidate_subset candidates preferred_step maximum seed))"
    if "distinct (map ac_step candidates)"
  proof -
    have "mset (map ac_step (first @ negatives)) \<subseteq># mset (map ac_step candidates)"
      using image_mset_subseteq_mono [OF sub, of ac_step] by simp
    then have "distinct (map ac_step (first @ negatives))" using that by (rule distinct_submultiset)
    with parts(5) have "distinct (map ac_step (first @ negatives @ extra))" by blast
    moreover have "mset (map ac_step (select_hard_candidate_subset candidates preferred_step maximum seed))
        = mset (map ac_step (first @ negatives @ extra))"
      by (simp only: mset_map parts(1))
    ultimately show ?thesis by (metis mset_eq_imp_distinct_iff)
  qed
  show "c \<in> set (select_hard_candidate_subset candidates preferred_step maximum seed)"
    if wanted: "preferred_step = Some step" "c \<in> set candidates" "ac_step c = step"
      "distinct (map ac_step candidates)"
  proof -
    obtain i where i: "preferred = Some i"
      using position_of_defined [OF wanted(2), of "\<lambda>candidate. ac_step candidate = step"] wanted(1,3)
      by (auto simp: preferred_def step_position_def)
    then have "i < length candidates" "ac_step (candidates ! i) = ac_step c"
      using step_position_nth wanted(1,3) by (auto simp: preferred_def)
    then have "candidates ! i = c"
      using wanted(2,4) by (metis in_set_conv_nth distinct_map inj_onD nth_mem)
    then show ?thesis by (simp add: sets parts(2) i)
  qed
qed

lemma selected_nonempty:
  assumes "candidates \<noteq> []" and "\<forall>c\<in>set candidates. ac_outcome c \<noteq> None" and "0 < maximum"
  shows "select_hard_candidate_subset candidates preferred_step maximum seed \<noteq> []"
proof (cases "step_position preferred_step candidates")
  case None
  then obtain negatives extra where
    "mset (select_hard_candidate_subset candidates preferred_step maximum seed) = mset (negatives @ extra)"
    "negatives = take maximum (filter (\<lambda>c. ac_outcome c \<noteq> None)
       (sort_key (candidate_sort_key seed) candidates))"
    by (rule select_hard_parts [of _ _ _ maximum seed]) simp
  moreover have "filter (\<lambda>c. ac_outcome c \<noteq> None) (sort_key (candidate_sort_key seed) candidates)
      = sort_key (candidate_sort_key seed) candidates"
    using assms(2) by (intro filter_True) simp
  moreover have "sort_key (candidate_sort_key seed) candidates \<noteq> []"
    using assms(1) by (metis length_0_conv length_sort)
  ultimately show ?thesis using assms(3) by auto
next
  case (Some i)
  show ?thesis
    by (rule select_hard_parts [OF Some, of maximum seed]) auto
qed

lemma selected_all:
  assumes "\<forall>c\<in>set candidates. ac_outcome c \<noteq> None" and "length candidates \<le> maximum"
  shows "set (select_hard_candidate_subset candidates None maximum seed) = set candidates"
proof -
  have none: "step_position None candidates = None" by (simp add: step_position_def)
  obtain negatives extra where parts:
    "mset (select_hard_candidate_subset candidates None maximum seed) = mset (negatives @ extra)"
    "negatives = take maximum (filter (\<lambda>c. ac_outcome c \<noteq> None)
       (sort_key (candidate_sort_key seed) candidates))" "set extra \<subseteq> set candidates"
    by (rule select_hard_parts [OF none, of maximum seed]) simp
  moreover have "filter (\<lambda>c. ac_outcome c \<noteq> None) (sort_key (candidate_sort_key seed) candidates)
      = sort_key (candidate_sort_key seed) candidates"
    using assms(1) by (intro filter_True) simp
  ultimately have "negatives = sort_key (candidate_sort_key seed) candidates" using assms(2) by simp
  with parts(3) mset_eq_setD [OF parts(1)] show ?thesis by auto
qed

section \<open>Menus of a proof state\<close>

definition verified_candidate ::
  "proof_problem \<Rightarrow> nat \<Rightarrow> ruliad_term \<Rightarrow> ruliad_term \<Rightarrow> string set option \<Rightarrow> action_candidate \<Rightarrow> bool" where
  "verified_candidate problem goal current target excluded c \<longleftrightarrow>
     (\<exists>t. ac_outcome c = Some t \<and> step_result problem goal default_limits current (ac_step c) = Inr t
        \<and> t \<noteq> current \<and> ac_distance c = Some (term_distance t target)
        \<and> (\<forall>keys. excluded = Some keys \<longrightarrow> proof_state_key goal t \<notin> keys))"

definition goal_lhs :: "proof_problem \<Rightarrow> nat \<Rightarrow> ruliad_term" where
  "goal_lhs problem goal = eq_lhs (goal_claim (problem_goals problem ! goal))"

definition goal_rhs :: "proof_problem \<Rightarrow> nat \<Rightarrow> ruliad_term" where
  "goal_rhs problem goal = eq_rhs (goal_claim (problem_goals problem ! goal))"

text \<open>What a menu promises: it belongs to the state that the local steps reach, its steps are
  distinct and verified, its equivalent indices are those of the selected outcome.\<close>

definition verified_menu ::
  "proof_problem \<Rightarrow> nat \<Rightarrow> proof_step list \<Rightarrow> string set option \<Rightarrow> nat \<Rightarrow> action_set \<Rightarrow> bool" where
  "verified_menu problem goal local_steps excluded maximum actions \<longleftrightarrow>
     as_goal actions = goal \<and> as_target actions = goal_rhs problem goal
     \<and> proof_steps problem goal default_limits (goal_lhs problem goal) local_steps (as_current actions)
     \<and> menu_ok actions \<and> length (as_candidates actions) \<le> maximum
     \<and> distinct (map ac_step (as_candidates actions))
     \<and> list_all (verified_candidate problem goal (as_current actions) (as_target actions) excluded)
         (as_candidates actions)
     \<and> (\<forall>i. is_equivalent_index actions i \<longleftrightarrow> i < length (as_candidates actions)
          \<and> ac_outcome (as_candidates actions ! i)
              = ac_outcome (as_candidates actions ! as_selected_index actions))"

lemma gk_apply_step_result:
  "goal_kernel_new hash problem goal limits = Inr k \<Longrightarrow> gk_apply k t s = step_result problem goal limits t s"
  by (auto simp: goal_kernel_new_Inr gk_apply_def step_result_def)

lemma gk_ends:
  "goal_kernel_new hash problem goal limits = Inr k \<Longrightarrow>
     gk_initial k = goal_lhs problem goal \<and> gk_target k = goal_rhs problem goal"
  by (auto simp: goal_kernel_new_Inr gk_initial_def gk_target_def goal_lhs_def goal_rhs_def)

lemma gk_replay_prefix_Inr:
  assumes "goal_kernel_new hash problem goal limits = Inr k"
  shows "gk_replay_prefix k steps = Inr v \<longleftrightarrow>
    length steps \<le> maximum_steps limits \<and> proof_steps problem goal limits (goal_lhs problem goal) steps v"
  using assms gk_ends [OF assms] gk_replay_loop_Inr [OF assms, of 0 "goal_lhs problem goal" steps v]
  by (auto simp: gk_replay_prefix_def goal_kernel_new_Inr)

lemma admissible_try_action:
  assumes "goal_kernel_new hash problem goal default_limits = Inr k"
  shows "admissible_candidate goal current excluded (try_action k current target s) \<longleftrightarrow>
    verified_candidate problem goal current target excluded (try_action k current target s)"
  by (auto simp: admissible_candidate_def verified_candidate_def try_action_def Let_def
      gk_apply_step_result [OF assms] split: sum.splits option.splits)

lemma nth_same_step:
  "distinct (map ac_step cs) \<Longrightarrow> c \<in> set cs \<Longrightarrow> i < length cs \<Longrightarrow> ac_step (cs ! i) = ac_step c \<Longrightarrow> cs ! i = c"
  by (metis distinct_map inj_onD nth_mem)

lemma choose_index_bound: "cs \<noteq> [] \<Longrightarrow> choose_index preferred cs < length cs"
  using min_index_by_Some [of _ cs]
  by (cases preferred) (auto simp: choose_index_def step_position_def position_of_Some split: option.splits)

lemma choose_index_preferred:
  assumes "distinct (map ac_step cs)" and "c \<in> set cs"
  shows "cs ! choose_index (Some (ac_step c)) cs = c"
proof -
  obtain i where "step_position (Some (ac_step c)) cs = Some i"
    using position_of_defined [OF assms(2), of "\<lambda>d. ac_step d = ac_step c"] by (auto simp: step_position_def)
  moreover from step_position_nth [OF this] have "cs ! i = c" using assms by (auto intro: nth_same_step)
  ultimately show ?thesis by (simp add: choose_index_def)
qed

text \<open>A menu with its parts: the candidates that pass the filter, and the menu selected from them.\<close>

lemma action_set_parts:
  assumes kernel: "goal_kernel_new hash problem goal default_limits = Inr k"
    and current: "gk_replay_prefix k local_steps = Inr current"
  obtains cs steps where
    "cs = filter (verified_candidate problem goal current (goal_rhs problem goal) excluded)
       (map (try_action k current (goal_rhs problem goal)) steps)"
    "distinct (map ac_step cs)"
    "\<And>step. preferred = Some step \<Longrightarrow> step \<in> set steps"
    "cs = [] \<Longrightarrow> \<not> is_ok (proof_action_set_for_state hash problem goal local_steps preferred maximum seed excluded)"
    "cs \<noteq> [] \<Longrightarrow> 0 < maximum \<Longrightarrow>
       (let menu = select_hard_candidate_subset cs preferred maximum seed; i = choose_index preferred menu in
        i < length menu \<and>
        proof_action_set_for_state hash problem goal local_steps preferred maximum seed excluded
        = Inr \<lparr>as_goal = goal, as_current = current, as_target = goal_rhs problem goal,
             as_candidates = menu, as_selected_index = i,
             as_equivalent_indices = indices_where (\<lambda>c. ac_outcome c = ac_outcome (menu ! i)) menu\<rparr>)"
    "cs = filter (verified_candidate problem goal current (goal_rhs problem goal) excluded)
       (enumerate_action_candidates problem k goal current (goal_rhs problem goal) preferred seed)"
proof -
  let ?target = "goal_rhs problem goal"
  obtain steps where steps: "enumerate_action_candidates problem k goal current ?target preferred seed
       = map (try_action k current ?target) steps" "distinct steps"
    "\<And>step. goal < length (problem_goals problem) \<Longrightarrow> preferred = Some step \<Longrightarrow> step \<in> set steps"
    by (rule enumerated_candidates) (rule that; assumption)
  define cs where
    "cs = filter (verified_candidate problem goal current ?target excluded) (map (try_action k current ?target) steps)"
  have cs: "filter (admissible_candidate goal current excluded)
      (enumerate_action_candidates problem k goal current ?target preferred seed) = cs"
    unfolding steps(1) cs_def by (intro filter_cong) (auto simp: admissible_try_action [OF kernel])
  have "map ac_step (map (try_action k current ?target) steps) = steps" by (simp add: comp_def)
  then have distinct: "distinct (map ac_step cs)"
    using steps(2) unfolding cs_def by (metis distinct_map_filter)
  have outcomes: "\<forall>c\<in>set cs. ac_outcome c \<noteq> None" by (auto simp: cs_def verified_candidate_def)
  have range: "goal < length (problem_goals problem)"
    using kernel by (auto simp: goal_kernel_new_Inr intro: wf_required_in_range)
  have unfold_state: "proof_action_set_for_state hash problem goal local_steps preferred maximum seed excluded
      = (if cs = [] then Inl ''proof policy state has no candidate actions''
         else
           let preferred_outcome = Option.bind preferred (\<lambda>p.
                 Option.bind (find (\<lambda>c. ac_step c = p) cs) ac_outcome);
               menu = select_hard_candidate_subset cs preferred maximum seed;
               i = choose_index preferred menu
           in (case (case preferred_outcome of Some t \<Rightarrow> Some t | None \<Rightarrow> Option.bind (nth_opt menu i) ac_outcome) of
                 None \<Rightarrow> Inl ''selected proof action is not verifier-valid''
               | Some t \<Rightarrow> Inr \<lparr>as_goal = goal, as_current = current, as_target = ?target,
                   as_candidates = menu, as_selected_index = i,
                   as_equivalent_indices = indices_where (\<lambda>c. ac_outcome c = Some t) menu\<rparr>))"
    unfolding proof_action_set_for_state_def kernel map_err_simps result_bind_simps current
      conjunct2 [OF gk_ends [OF kernel]] Let_def cs by (rule refl)
  show ?thesis
  proof (rule that [OF cs_def distinct])
    show "step \<in> set steps" if "preferred = Some step" for step using steps(3) [OF range that] .
    show "\<not> is_ok (proof_action_set_for_state hash problem goal local_steps preferred maximum seed excluded)"
      if "cs = []" using that by (simp add: unfold_state)
    show "cs = filter (verified_candidate problem goal current ?target excluded)
        (enumerate_action_candidates problem k goal current ?target preferred seed)"
      by (simp only: cs_def steps(1))
  next
    assume nonempty: "cs \<noteq> []" and "0 < maximum"
    define menu where "menu = select_hard_candidate_subset cs preferred maximum seed"
    define i where "i = choose_index preferred menu"
    have menu: "menu \<noteq> []" "set menu \<subseteq> set cs" "distinct (map ac_step menu)"
      using selected_nonempty [OF nonempty outcomes \<open>0 < maximum\<close>] selected_subset selected_distinct [OF distinct]
      by (auto simp: menu_def)
    have i: "i < length menu" using choose_index_bound [OF menu(1)] by (simp add: i_def)
    then have "menu ! i \<in> set cs" using menu(2) by (meson nth_mem subsetD)
    then obtain t where t: "ac_outcome (menu ! i) = Some t" using outcomes by blast
    have "Option.bind (find (\<lambda>c. ac_step c = p) cs) ac_outcome \<in> {None, Some t}" if p: "preferred = Some p" for p
    proof (cases "find (\<lambda>c. ac_step c = p) cs")
      case (Some c)
      then have c: "c \<in> set cs" "ac_step c = p" by (auto simp: find_Some_iff)
      then have "c \<in> set menu" using selected_preferred [OF p c distinct] by (simp add: menu_def)
      then have "menu ! i = c" using choose_index_preferred [OF menu(3)] p c(2) by (auto simp: i_def)
      with Some t show ?thesis by simp
    qed simp
    then have "(case Option.bind preferred (\<lambda>p. Option.bind (find (\<lambda>c. ac_step c = p) cs) ac_outcome) of
        Some t \<Rightarrow> Some t | None \<Rightarrow> Option.bind (nth_opt menu i) ac_outcome) = Some t"
      using i t by (cases preferred) (auto simp: nth_opt_def split: option.splits)
    with nonempty i t have "proof_action_set_for_state hash problem goal local_steps preferred maximum seed excluded
        = Inr \<lparr>as_goal = goal, as_current = current, as_target = ?target, as_candidates = menu,
             as_selected_index = i,
             as_equivalent_indices = indices_where (\<lambda>c. ac_outcome c = ac_outcome (menu ! i)) menu\<rparr>"
      unfolding unfold_state Let_def menu_def [symmetric] i_def [symmetric] by simp
    with i show "let menu = select_hard_candidate_subset cs preferred maximum seed;
          i = choose_index preferred menu in i < length menu \<and>
        proof_action_set_for_state hash problem goal local_steps preferred maximum seed excluded
        = Inr \<lparr>as_goal = goal, as_current = current, as_target = ?target, as_candidates = menu,
             as_selected_index = i,
             as_equivalent_indices = indices_where (\<lambda>c. ac_outcome c = ac_outcome (menu ! i)) menu\<rparr>"
      unfolding Let_def menu_def [symmetric] i_def [symmetric] by blast
  qed
qed

lemma action_set_verified:
  assumes state: "proof_action_set_for_state hash problem goal local_steps preferred maximum seed excluded = Inr actions"
    and "0 < maximum"
  shows "verified_menu problem goal local_steps excluded maximum actions"
proof -
  obtain k where kernel: "goal_kernel_new hash problem goal default_limits = Inr k"
    using state by (auto simp: proof_action_set_for_state_def result_bind_Inr)
  with state obtain current where current: "gk_replay_prefix k local_steps = Inr current"
    by (auto simp: proof_action_set_for_state_def result_bind_Inr)
  then have run: "proof_steps problem goal default_limits (goal_lhs problem goal) local_steps current"
    by (simp add: gk_replay_prefix_Inr [OF kernel])
  let ?state = "proof_action_set_for_state hash problem goal local_steps preferred maximum seed excluded"
  obtain cs steps where cs: "cs = filter (verified_candidate problem goal current (goal_rhs problem goal) excluded)
       (map (try_action k current (goal_rhs problem goal)) steps)" "distinct (map ac_step cs)"
    "cs = [] \<Longrightarrow> \<not> is_ok ?state"
    "cs \<noteq> [] \<Longrightarrow> 0 < maximum \<Longrightarrow>
       (let menu = select_hard_candidate_subset cs preferred maximum seed; i = choose_index preferred menu in
        i < length menu \<and> ?state = Inr \<lparr>as_goal = goal, as_current = current, as_target = goal_rhs problem goal,
             as_candidates = menu, as_selected_index = i,
             as_equivalent_indices = indices_where (\<lambda>c. ac_outcome c = ac_outcome (menu ! i)) menu\<rparr>)"
    by (rule action_set_parts [OF kernel current]) (rule that; assumption)
  have "cs \<noteq> []" using cs(3) state by auto
  define menu where "menu = select_hard_candidate_subset cs preferred maximum seed"
  have actions: "actions = \<lparr>as_goal = goal, as_current = current, as_target = goal_rhs problem goal,
             as_candidates = menu, as_selected_index = choose_index preferred menu,
             as_equivalent_indices =
               indices_where (\<lambda>c. ac_outcome c = ac_outcome (menu ! choose_index preferred menu)) menu\<rparr>"
    and bound: "choose_index preferred menu < length menu"
    using cs(4) [OF \<open>cs \<noteq> []\<close> assms(2)] state by (simp_all add: Let_def flip: menu_def)
  have "set menu \<subseteq> set cs" "distinct (map ac_step menu)" "length menu \<le> maximum"
    using selected_subset selected_distinct [OF cs(2)] selected_length [OF assms(2)] by (simp_all add: menu_def)
  moreover have "verified_candidate problem goal current (goal_rhs problem goal) excluded c" if "c \<in> set cs" for c
    using that cs(1) by simp
  ultimately show ?thesis
    using run bound
    by (auto simp: verified_menu_def actions menu_ok_def is_equivalent_index_def list_all_iff)
qed

text \<open>A preferred step that moves the term is in the menu and selected.\<close>

lemma preferred_selected:
  assumes kernel: "goal_kernel_new hash problem goal default_limits = Inr k"
    and current: "gk_replay_prefix k local_steps = Inr current"
    and step: "step_result problem goal default_limits current s = Inr t" "t \<noteq> current"
    and excluded: "\<forall>keys. excluded = Some keys \<longrightarrow> proof_state_key goal t \<notin> keys"
    and "0 < maximum"
  shows "\<exists>actions. proof_action_set_for_state hash problem goal local_steps (Some s) maximum seed excluded = Inr actions
    \<and> verified_menu problem goal local_steps excluded maximum actions
    \<and> (\<exists>c. selected_candidate actions = Some c \<and> ac_step c = s \<and> ac_outcome c = Some t)"
proof -
  let ?state = "proof_action_set_for_state hash problem goal local_steps (Some s) maximum seed excluded"
  obtain cs steps where cs: "cs = filter (verified_candidate problem goal current (goal_rhs problem goal) excluded)
       (map (try_action k current (goal_rhs problem goal)) steps)" "distinct (map ac_step cs)"
    "\<And>step. Some s = Some step \<Longrightarrow> step \<in> set steps"
    "cs \<noteq> [] \<Longrightarrow> 0 < maximum \<Longrightarrow>
       (let menu = select_hard_candidate_subset cs (Some s) maximum seed; i = choose_index (Some s) menu in
        i < length menu \<and> ?state = Inr \<lparr>as_goal = goal, as_current = current, as_target = goal_rhs problem goal,
             as_candidates = menu, as_selected_index = i,
             as_equivalent_indices = indices_where (\<lambda>c. ac_outcome c = ac_outcome (menu ! i)) menu\<rparr>)"
    by (rule action_set_parts [OF kernel current]) (rule that; assumption)
  define c where "c = try_action k current (goal_rhs problem goal) s"
  have c: "ac_step c = s" "ac_outcome c = Some t"
    using step(1) by (simp_all add: c_def try_action_def Let_def gk_apply_step_result [OF kernel])
  have "verified_candidate problem goal current (goal_rhs problem goal) excluded c"
    using step excluded
    by (simp add: c_def verified_candidate_def try_action_def Let_def gk_apply_step_result [OF kernel])
  then have member: "c \<in> set cs" using cs(3) [of s] by (simp add: cs(1) c_def)
  define menu where "menu = select_hard_candidate_subset cs (Some s) maximum seed"
  have "c \<in> set menu"
    using selected_preferred [OF refl member c(1) cs(2)] by (simp add: menu_def)
  moreover have "distinct (map ac_step menu)" using selected_distinct [OF cs(2)] by (simp add: menu_def)
  ultimately have chosen: "menu ! choose_index (Some s) menu = c"
    using choose_index_preferred [of menu c] c(1) by simp
  have "cs \<noteq> []" using member by auto
  from cs(4) [OF this assms(6)] obtain actions where actions: "?state = Inr actions"
    "as_candidates actions = menu" "as_selected_index actions = choose_index (Some s) menu"
    "choose_index (Some s) menu < length menu"
    by (auto simp: Let_def simp flip: menu_def)
  then have "selected_candidate actions = Some c" using chosen by (simp add: selected_candidate_def)
  with actions(1) c action_set_verified [OF actions(1) assms(6)] show ?thesis by blast
qed

text \<open>The negatives of a menu with a preferred step are the closest: no candidate left out with an
  outcome other than the preferred one is closer to the target than a candidate that the menu
  holds for its other outcome, unless the menu has fillers only.\<close>

lemma sorted_take_closest:
  fixes key :: "'a \<Rightarrow> 'k :: linorder"
  assumes "x \<in> set (take n (filter p (sort_key key xs)))" and "y \<in> set xs" and "p y"
    and "y \<notin> set (take n (filter p (sort_key key xs)))"
  shows "key x \<le> key y"
proof -
  let ?ys = "filter p (sort_key key xs)"
  have "sorted (map key ?ys)" by (rule sorted_filter) simp
  then have "sorted_wrt (\<lambda>a b. key a \<le> key b) (take n ?ys @ drop n ?ys)" by (simp add: sorted_map)
  moreover have "y \<in> set (take n ?ys @ drop n ?ys)" using assms(2,3) by simp
  then have "y \<in> set (drop n ?ys)" using assms(4) by (metis Un_iff set_append)
  ultimately show ?thesis using assms(1) unfolding sorted_wrt_append by blast
qed

end
