(* ===== verification/Ruliad_Policy_State.thy ===== *)
theory Ruliad_Policy_State
  imports Ruliad_Policy_Menu Ruliad_Samples
begin

text \<open>
  The policy state as a transition system: the states reachable by verified actions and
  backtracking, their invariant (the solved goals have proofs, the local steps replay), the
  certificate that a solved state stands for, the report of a rollout, and the states that the
  prefixes of a certificate reconstruct.
\<close>

section \<open>The invariant\<close>

definition goal_run :: "proof_problem \<Rightarrow> nat \<Rightarrow> proof_step list \<Rightarrow> ruliad_term \<Rightarrow> bool" where
  "goal_run problem goal steps t \<longleftrightarrow> proof_steps problem goal default_limits (goal_lhs problem goal) steps t"

definition goal_proof :: "proof_problem \<Rightarrow> nat \<Rightarrow> proof_step list \<Rightarrow> bool" where
  "goal_proof problem goal steps \<longleftrightarrow> goal_run problem goal steps (goal_rhs problem goal)"

definition policy_inv :: "proof_problem \<Rightarrow> policy_state \<Rightarrow> proof_step list list \<Rightarrow> bool" where
  "policy_inv problem s proofs \<longleftrightarrow>
     ps_goal_order s = required_goal_indices problem
     \<and> ps_goal_cursor s \<le> length (ps_goal_order s)
     \<and> list_all2 (goal_proof problem) (take (ps_goal_cursor s) (ps_goal_order s)) proofs
     \<and> (if ps_goal_cursor s < length (ps_goal_order s)
        then \<exists>t. goal_run problem (ps_goal_order s ! ps_goal_cursor s) (ps_local_steps s) t
        else ps_local_steps s = [])"

definition steps_taken :: "policy_state \<Rightarrow> proof_step list list \<Rightarrow> nat" where
  "steps_taken s proofs = length (concat proofs) + length (ps_local_steps s)"

lemma goal_run_Nil [simp]: "goal_run problem goal [] t \<longleftrightarrow> t = goal_lhs problem goal"
  using proof_steps_deterministic proof_steps_Nil by (metis goal_run_def)

lemma goal_run_start [simp]: "\<exists>t. goal_run problem goal [] t" "Ex (goal_run problem goal [])"
  by auto

lemma goal_run_append: "goal_run problem goal (xs @ ys) v \<longleftrightarrow>
    (\<exists>u. goal_run problem goal xs u \<and> proof_steps problem goal default_limits u ys v)"
  by (simp add: goal_run_def proof_steps_append)

lemma goal_run_snoc:
  "goal_run problem goal (xs @ [s]) v \<longleftrightarrow>
     (\<exists>u. goal_run problem goal xs u \<and> step_result problem goal default_limits u s = Inr v)"
  unfolding goal_run_append by (auto elim: proof_steps.cases intro: proof_steps_Cons proof_steps_Nil)

lemma goal_run_butlast: "goal_run problem goal xs v \<Longrightarrow> \<exists>u. goal_run problem goal (butlast xs) u"
  by (cases xs rule: rev_cases) (auto simp: goal_run_snoc)

lemma goal_run_unique: "goal_run problem goal xs t \<Longrightarrow> goal_run problem goal xs u \<Longrightarrow> t = u"
  unfolding goal_run_def by (rule proof_steps_deterministic)

lemma policy_inv_new: "policy_inv problem (policy_new problem) []"
  by (auto simp: policy_inv_def policy_new_def)

lemma policy_inv_backtrack:
  assumes "policy_inv problem s proofs"
  shows "policy_inv problem (snd (backtrack s)) proofs \<and> steps_taken (snd (backtrack s)) proofs \<le> steps_taken s proofs"
  using assms goal_run_butlast by (auto simp: policy_inv_def backtrack_def steps_taken_def)

lemma required_goals_bounded:
  "wf_problem default_limits problem \<Longrightarrow> length (required_goal_indices problem) \<le> usize_max"
proof -
  assume wf: "wf_problem default_limits problem"
  then have "set (required_goal_indices problem) \<subseteq> {..<length (problem_goals problem)}"
    by (auto intro: wf_required_in_range)
  moreover have "distinct (required_goal_indices problem)" by (simp add: required_goal_indices_def)
  ultimately have "length (required_goal_indices problem) \<le> length (problem_goals problem)"
    using card_mono [of "{..<length (problem_goals problem)}" "set (required_goal_indices problem)"]
      distinct_card [of "required_goal_indices problem"]
    by simp
  also have "\<dots> \<le> maximum_goals default_limits" using wf by (simp add: wf_problem_def)
  finally show ?thesis by (simp add: default_limits_def usize_max_def)
qed

text \<open>One action of a menu of the state. A menu never offers a visited state.\<close>

lemma policy_apply_menu:
  assumes inv: "policy_inv problem s proofs" and wf: "wf_problem default_limits problem"
    and cursor: "ps_goal_cursor s < length (ps_goal_order s)"
    and menu: "verified_menu problem (ps_goal_order s ! ps_goal_cursor s) (ps_local_steps s)
      (Some (ps_visited s)) maximum actions"
  shows "case policy_apply s actions i of
      Inl e \<Rightarrow> length (as_candidates actions) \<le> i
    | Inr (repeated, s') \<Rightarrow> i < length (as_candidates actions) \<and> \<not> repeated
        \<and> (\<exists>proofs'. policy_inv problem s' proofs' \<and> steps_taken s' proofs' = Suc (steps_taken s proofs))"
proof (cases "i < length (as_candidates actions)")
  case False
  then show ?thesis
    using cursor menu by (simp add: policy_apply_def verified_menu_def nth_opt_def)
next
  case True
  define goal where "goal = ps_goal_order s ! ps_goal_cursor s"
  define c where "c = as_candidates actions ! i"
  have goal: "as_goal actions = goal" "as_target actions = goal_rhs problem goal"
    and run: "goal_run problem goal (ps_local_steps s) (as_current actions)"
    and "verified_candidate problem goal (as_current actions) (as_target actions) (Some (ps_visited s)) c"
    using menu True by (auto simp: verified_menu_def goal_def [symmetric] goal_run_def c_def list_all_length)
  then obtain t where t: "ac_outcome c = Some t"
    "step_result problem goal default_limits (as_current actions) (ac_step c) = Inr t"
    "proof_state_key goal t \<notin> ps_visited s"
    by (auto simp: verified_candidate_def)
  define s1 where "s1 = s\<lparr>ps_local_steps := ps_local_steps s @ [ac_step c],
    ps_visited := insert (proof_state_key goal t) (ps_visited s)\<rparr>"
  have apply_eq: "policy_apply s actions i = Inr (False, if t = goal_rhs problem goal then next_goal_state s1 else s1)"
    using True cursor t goal
    by (simp add: policy_apply_def nth_opt_def Let_def s1_def flip: goal_def c_def)
  have extended: "goal_run problem goal (ps_local_steps s @ [ac_step c]) t"
    using run t(2) by (auto simp: goal_run_snoc)
  have "\<exists>proofs'. policy_inv problem (if t = goal_rhs problem goal then next_goal_state s1 else s1) proofs'
    \<and> steps_taken (if t = goal_rhs problem goal then next_goal_state s1 else s1) proofs' = Suc (steps_taken s proofs)"
  proof (cases "t = goal_rhs problem goal")
    case False
    then show ?thesis
      using inv extended cursor
      by (intro exI [of _ proofs]) (auto simp: policy_inv_def s1_def steps_taken_def goal_def)
  next
    case reached: True
    have small: "sat_add (ps_goal_cursor s) 1 = Suc (ps_goal_cursor s)"
      using inv cursor required_goals_bounded [OF wf] by (simp add: policy_inv_def sat_add_exact)
    let ?proofs = "proofs @ [ps_local_steps s @ [ac_step c]]"
    have order: "take (Suc (ps_goal_cursor s)) (ps_goal_order s) = take (ps_goal_cursor s) (ps_goal_order s) @ [goal]"
      using cursor by (simp add: take_Suc_conv_app_nth goal_def)
    have "list_all2 (goal_proof problem) (take (ps_goal_cursor s) (ps_goal_order s)) proofs"
      using inv unfolding policy_inv_def by blast
    then have "list_all2 (goal_proof problem) (take (Suc (ps_goal_cursor s)) (ps_goal_order s)) ?proofs"
      unfolding order using extended reached by (intro list_all2_appendI) (simp_all add: goal_proof_def)
    then have "policy_inv problem (next_goal_state s1) ?proofs"
      using inv cursor small by (simp add: policy_inv_def s1_def next_goal_state_def)
    then show ?thesis
      using reached by (intro exI [of _ ?proofs]) (simp add: steps_taken_def s1_def next_goal_state_def)
  qed
  then show ?thesis using True by (simp add: apply_eq)
qed

section \<open>Reachable states\<close>

inductive policy_reaches ::
  "problem_hasher \<Rightarrow> proof_problem \<Rightarrow> nat \<Rightarrow> nat \<Rightarrow> policy_state \<Rightarrow> bool"
  for hash :: problem_hasher and problem :: proof_problem and maximum :: nat
where
  reaches_new: "policy_reaches hash problem maximum 0 (policy_new problem)"
| reaches_apply:
    "policy_reaches hash problem maximum n s \<Longrightarrow>
     policy_action_set hash problem s maximum = Inr actions \<Longrightarrow>
     policy_apply s actions i = Inr (repeated, s') \<Longrightarrow>
     policy_reaches hash problem maximum (Suc n) s'"
| reaches_backtrack:
    "policy_reaches hash problem maximum n s \<Longrightarrow>
     policy_reaches hash problem maximum n (snd (backtrack s))"

lemma policy_action_set_Inr:
  assumes "policy_action_set hash problem s maximum = Inr actions"
  shows "ps_goal_cursor s < length (ps_goal_order s)
    \<and> wf_problem default_limits problem \<and> is_ok (hash problem)
    \<and> verified_menu problem (ps_goal_order s ! ps_goal_cursor s) (ps_local_steps s) (Some (ps_visited s))
         (max 2 maximum) actions"
proof -
  have cursor: "ps_goal_cursor s < length (ps_goal_order s)"
    using assms by (auto simp: policy_action_set_def nth_opt_def split: if_splits)
  with assms obtain seed where state:
    "proof_action_set_for_state hash problem (ps_goal_order s ! ps_goal_cursor s) (ps_local_steps s) None
       (max 2 maximum) seed (Some (ps_visited s)) = Inr actions"
    by (auto simp: policy_action_set_def result_bind_Inr Let_def)
  then obtain k where "goal_kernel_new hash problem (ps_goal_order s ! ps_goal_cursor s) default_limits = Inr k"
    by (auto simp: proof_action_set_for_state_def result_bind_Inr)
  with cursor action_set_verified [OF state] show ?thesis by (auto simp: goal_kernel_new_Inr)
qed

lemma policy_reaches_inv:
  "policy_reaches hash problem maximum n s \<Longrightarrow>
   \<exists>proofs. policy_inv problem s proofs \<and> steps_taken s proofs \<le> n
     \<and> (0 < ps_goal_cursor s \<longrightarrow> wf_problem default_limits problem \<and> is_ok (hash problem))"
proof (induction rule: policy_reaches.induct)
  case reaches_new
  have "steps_taken (policy_new problem) [] = 0" by (simp add: steps_taken_def policy_new_def)
  moreover have "ps_goal_cursor (policy_new problem) = 0" by (simp add: policy_new_def)
  ultimately show ?case using policy_inv_new by (intro exI [of _ "[]"]) simp
next
  case (reaches_apply n s actions i repeated s')
  then obtain proofs where inv: "policy_inv problem s proofs" "steps_taken s proofs \<le> n" by blast
  have menu: "ps_goal_cursor s < length (ps_goal_order s)" "wf_problem default_limits problem" "is_ok (hash problem)"
    "verified_menu problem (ps_goal_order s ! ps_goal_cursor s) (ps_local_steps s) (Some (ps_visited s))
       (max 2 maximum) actions"
    using policy_action_set_Inr [OF reaches_apply.hyps(2)] by blast+
  obtain proofs' where "policy_inv problem s' proofs'" "steps_taken s' proofs' = Suc (steps_taken s proofs)"
    using policy_apply_menu [OF inv(1) menu(2,1,4), of i] reaches_apply.hyps(3) by auto
  with inv(2) menu show ?case by (intro exI [of _ proofs']) auto
next
  case (reaches_backtrack n s)
  from reaches_backtrack.IH obtain proofs where "policy_inv problem s proofs" "steps_taken s proofs \<le> n"
    "0 < ps_goal_cursor s \<longrightarrow> wf_problem default_limits problem \<and> is_ok (hash problem)"
    by (elim exE conjE) (rule that)
  with policy_inv_backtrack [of problem s proofs] show ?case
    by (intro exI [of _ proofs]) (auto simp: backtrack_def)
qed

text \<open>The certificate of a solved state.\<close>

definition certificate_of :: "proof_problem \<Rightarrow> string \<Rightarrow> proof_step list list \<Rightarrow> proof_certificate" where
  "certificate_of problem problem_hash proofs =
     \<lparr>cert_version = ruliad_ir_version, cert_problem_hash = problem_hash,
      cert_goals = map (\<lambda>(goal, steps). \<lparr>gc_goal = goal, gc_steps = steps\<rparr>)
        (zip (required_goal_indices problem) proofs)\<rparr>"

lemma solved_certificate:
  assumes inv: "policy_inv problem s proofs" and solved: "policy_solved s"
    and wf: "wf_problem default_limits problem" and hash: "hash problem = Inr h"
    and steps: "steps_taken s proofs \<le> maximum_steps default_limits"
  shows "replay_accepts hash problem (certificate_of problem h proofs) default_limits
    \<and> step_count (certificate_of problem h proofs) = steps_taken s proofs"
proof -
  have local_steps: "ps_local_steps s = []"
    and proofs: "list_all2 (goal_proof problem) (required_goal_indices problem) proofs"
    using inv solved by (auto simp: policy_inv_def policy_solved_def split: if_splits)
  then have len: "length (required_goal_indices problem) = length proofs" by (simp add: list_all2_lengthD)
  have "certificate_proves problem default_limits (certificate_of problem h proofs)"
    using proofs len
    by (auto simp: certificate_proves_def certificate_of_def comp_def case_prod_beta list_all2_iff
        goal_proof_def goal_run_def goal_lhs_def goal_rhs_def)
  moreover have count: "step_count (certificate_of problem h proofs) = steps_taken s proofs"
    using len
    by (simp add: step_count_def certificate_of_def comp_def case_prod_beta steps_taken_def local_steps
        length_concat flip: map_map [of length snd, unfolded comp_def])
  ultimately show ?thesis
    using wf hash steps by (simp add: replay_accepts_iff) (simp add: certificate_of_def)
qed

section \<open>Rollouts\<close>

lemma reached_apply_next:
  assumes "policy_reaches hash problem maximum n s" and "policy_action_set hash problem s maximum = Inr actions"
  shows "case policy_apply s actions i of
      Inl e \<Rightarrow> length (as_candidates actions) \<le> i
    | Inr (repeated, s') \<Rightarrow> \<not> repeated \<and> policy_reaches hash problem maximum (Suc n) s'"
proof -
  obtain proofs where inv: "policy_inv problem s proofs" using policy_reaches_inv [OF assms(1)] by blast
  have menu: "ps_goal_cursor s < length (ps_goal_order s)" "wf_problem default_limits problem"
    "verified_menu problem (ps_goal_order s ! ps_goal_cursor s) (ps_local_steps s) (Some (ps_visited s))
       (max 2 maximum) actions"
    using policy_action_set_Inr [OF assms(2)] by blast+
  show ?thesis
    using policy_apply_menu [OF inv menu(2,1,3), of i] reaches_apply [OF assms, of i]
    by (auto split: sum.splits)
qed

text \<open>The report after a loop that started with \<open>k\<close> actions done and \<open>budget\<close> rounds in all.\<close>

definition rollout_result ::
  "problem_hasher \<Rightarrow> proof_problem \<Rightarrow> nat \<Rightarrow> nat \<Rightarrow> policy_state \<Rightarrow> rollout_report \<Rightarrow> bool" where
  "rollout_result hash problem maximum budget s r \<longleftrightarrow>
     policy_reaches hash problem maximum (ro_valid_actions r) s
     \<and> ro_invalid_actions r \<le> 1 \<and> ro_repeated_states r = 0
     \<and> ro_valid_actions r \<le> ro_steps r \<and> ro_steps r \<le> ro_valid_actions r + ro_invalid_actions r
     \<and> ro_steps r + ro_backtracks r \<le> budget
     \<and> (ro_invalid_actions r = 0 \<longrightarrow> policy_solved s \<or> ro_steps r + ro_backtracks r = budget)"

lemma rollout_loop_result:
  assumes "policy_reaches hash problem maximum k s"
    and "ro_valid_actions r = k" "ro_steps r = k" "ro_invalid_actions r = 0" "ro_repeated_states r = 0"
    and "ro_backtracks r + k + n = budget" "budget \<le> usize_max"
  shows "case rollout_loop hash problem maximum select n c s r of
    (s', r') \<Rightarrow> rollout_result hash problem maximum budget s' r' \<and> ro_total_goals r' = ro_total_goals r"
  using assms
proof (induction n arbitrary: k c s r)
  case 0
  then show ?case by (simp add: rollout_result_def)
next
  case (Suc n)
  have small: "sat_add (ro_backtracks r) 1 = Suc (ro_backtracks r)" "sat_add k 1 = Suc k" "sat_add 0 1 = (1 :: nat)"
    using Suc.prems(6,7) by (simp_all add: sat_add_exact usize_max_def)
  show ?case
  proof (cases "policy_solved s")
    case True
    with Suc.prems show ?thesis by (simp add: rollout_result_def)
  next
    case unsolved: False
    show ?thesis
    proof (cases "policy_action_set hash problem s maximum")
      case (Inl e)
      obtain moved s' where undo: "backtrack s = (moved, s')" by fastforce
      then have reached: "policy_reaches hash problem maximum k s'"
        using reaches_backtrack [OF Suc.prems(1)] by simp
      show ?thesis
      proof (cases moved)
        case True
        with Suc.IH [OF reached, of "r\<lparr>ro_backtracks := sat_add (ro_backtracks r) 1\<rparr>" c] Suc.prems small(1)
          unsolved Inl undo show ?thesis by simp
      next
        case False
        with Suc.prems small reached unsolved Inl undo show ?thesis by (simp add: rollout_result_def)
      qed
    next
      case (Inr actions)
      obtain choice c' where choice: "select c s actions = (choice, c')" by fastforce
      show ?thesis
      proof (cases choice)
        case None
        with Suc.prems small unsolved Inr choice show ?thesis by (simp add: rollout_result_def)
      next
        case (Some i)
        show ?thesis
        proof (cases "policy_apply s actions i")
          case (Inl e)
          with Suc.prems small unsolved Inr choice Some show ?thesis by (simp add: rollout_result_def Let_def)
        next
          case applied: (Inr pair)
          obtain repeated s' where pair: "pair = (repeated, s')" by fastforce
          then have "\<not> repeated" and reached: "policy_reaches hash problem maximum (Suc k) s'"
            using reached_apply_next [OF Suc.prems(1) Inr, of i] applied by auto
          moreover have "sat_add 0 0 = 0" by (simp add: sat_add_def)
          ultimately show ?thesis
            using Suc.IH [OF reached, of "r\<lparr>ro_steps := Suc k, ro_valid_actions := Suc k,
                ro_repeated_states := 0\<rparr>" c'] Suc.prems small
              unsolved Inr choice Some applied pair
            by (simp add: Let_def)
        qed
      qed
    qed
  qed
qed

lemma rollout_reaches:
  assumes "step_budget \<le> usize_max"
  obtains s r where "rollout_result hash problem maximum step_budget s r"
    "rollout_proof_policy hash problem step_budget maximum select c
        = r\<lparr>ro_solved := policy_solved s, ro_solved_goals := solved_goals s\<rparr>"
    "ro_total_goals r = length (required_goal_indices problem)"
proof -
  let ?r = "\<lparr>ro_solved = False, ro_steps = 0, ro_valid_actions = 0, ro_invalid_actions = 0,
    ro_repeated_states = 0, ro_backtracks = 0, ro_solved_goals = 0,
    ro_total_goals = total_goals (policy_new problem)\<rparr>"
  obtain s r where loop:
    "rollout_loop hash problem maximum select step_budget c (policy_new problem) ?r = (s, r)" by fastforce
  have "rollout_result hash problem maximum step_budget s r \<and> ro_total_goals r = ro_total_goals ?r"
    using rollout_loop_result [OF reaches_new, of ?r step_budget step_budget hash problem maximum select c] assms loop by simp
  with loop show ?thesis
    by (intro that [of s r]) (simp_all add: rollout_proof_policy_def Let_def total_goals_def policy_new_def)
qed

section \<open>Prefixes of a certificate\<close>

lemma certificate_goal_proof:
  assumes "certificate_proves problem default_limits certificate" and "i < length (cert_goals certificate)"
  shows "gc_goal (cert_goals certificate ! i) = required_goal_indices problem ! i"
    and "goal_proof problem (gc_goal (cert_goals certificate ! i)) (gc_steps (cert_goals certificate ! i))"
  using assms nth_map [OF assms(2), of gc_goal] nth_mem [OF assms(2)]
  by (auto simp: certificate_proves_def goal_proof_def goal_run_def goal_lhs_def goal_rhs_def)

lemma follow_steps_run:
  assumes kernel: "goal_kernel_new hash problem goal default_limits = Inr k"
    and "proof_steps problem goal default_limits current steps t"
  shows "\<exists>visited. follow_steps k goal current steps s
    = Inr (t, s\<lparr>ps_local_steps := ps_local_steps s @ steps, ps_visited := visited\<rparr>)"
  using assms(2)
proof (induction current steps t arbitrary: s rule: proof_steps.induct)
  case (proof_steps_Nil t)
  then show ?case by (intro exI [of _ "ps_visited s"]) simp
next
  case (proof_steps_Cons t step u steps v)
  then show ?case
    using proof_steps_Cons.IH [of "s\<lparr>ps_local_steps := ps_local_steps s @ [step],
        ps_visited := insert (proof_state_key goal u) (ps_visited s)\<rparr>"]
    by (auto simp: gk_apply_step_result [OF kernel])
qed

text \<open>A state that holds the first \<open>n\<close> steps of a certificate.\<close>

definition followed :: "proof_problem \<Rightarrow> goal_certificate list \<Rightarrow> nat \<Rightarrow> policy_state \<Rightarrow> bool" where
  "followed problem goals n s \<longleftrightarrow>
     policy_inv problem s (map gc_steps (take (ps_goal_cursor s) goals))
     \<and> concat (map gc_steps (take (ps_goal_cursor s) goals)) @ ps_local_steps s
         = take n (concat (map gc_steps goals))"

lemma length_certificate_goals:
  "certificate_proves problem default_limits certificate \<Longrightarrow>
     length (cert_goals certificate) = length (required_goal_indices problem)"
  using length_map [of gc_goal "cert_goals certificate"] by (simp add: certificate_proves_def)

lemma followed_at:
  assumes proves: "certificate_proves problem default_limits certificate"
    and state: "ps_goal_order s = required_goal_indices problem"
      "ps_goal_cursor s \<le> length (cert_goals certificate)" "ps_local_steps s = steps"
    and steps: "if ps_goal_cursor s < length (cert_goals certificate)
      then \<exists>rest. gc_steps (cert_goals certificate ! ps_goal_cursor s) = steps @ rest else steps = []"
  shows "followed problem (cert_goals certificate)
    (length (concat (map gc_steps (take (ps_goal_cursor s) (cert_goals certificate)))) + length steps) s"
proof -
  let ?j = "ps_goal_cursor s" and ?goals = "cert_goals certificate"
  note len = length_certificate_goals [OF proves]
  have "list_all2 (goal_proof problem) (take ?j (required_goal_indices problem)) (map gc_steps (take ?j ?goals))"
    using certificate_goal_proof [OF proves] len state(2) by (auto simp: list_all2_conv_all_nth)
  moreover have "if ?j < length ?goals then \<exists>t. goal_run problem (required_goal_indices problem ! ?j) steps t
      else steps = []"
  proof (cases "?j < length ?goals")
    case True
    with steps obtain rest where "gc_steps (?goals ! ?j) = steps @ rest" by auto
    with certificate_goal_proof [OF proves True] show ?thesis
      using True by (auto simp: goal_proof_def goal_run_append)
  qed (use steps in simp)
  ultimately have "policy_inv problem s (map gc_steps (take ?j ?goals))"
    using state len by (simp add: policy_inv_def)
  moreover have "take (length (concat (map gc_steps (take ?j ?goals))) + length steps) (concat (map gc_steps ?goals))
      = concat (map gc_steps (take ?j ?goals)) @ steps"
  proof (cases "?j < length ?goals")
    case True
    with steps obtain rest where "gc_steps (?goals ! ?j) = steps @ rest" by auto
    with True have "concat (map gc_steps ?goals) = concat (map gc_steps (take ?j ?goals)) @ steps @ rest
        @ concat (map gc_steps (drop (Suc ?j) ?goals))"
      by (subst id_take_nth_drop [OF True]) simp
    then show ?thesis by simp
  qed (use steps state(2) in simp)
  ultimately show ?thesis using state(3) by (simp add: followed_def)
qed

text \<open>The loop over the goals, started after \<open>j\<close> of them with \<open>remaining\<close> steps to take.\<close>

lemma follow_goals_run:
  assumes proves: "certificate_proves problem default_limits certificate"
    and wf: "wf_problem default_limits problem" and hash: "is_ok (hash problem)"
    and "goals = drop j (cert_goals certificate)" "j \<le> length (cert_goals certificate)"
    and "ps_goal_order s = required_goal_indices problem" "ps_goal_cursor s = j" "ps_local_steps s = []"
    and "remaining \<le> length (concat (map gc_steps goals))"
  shows "\<exists>s'. follow_goals hash problem goals remaining s = Inr (0, s')
    \<and> followed problem (cert_goals certificate)
        (length (concat (map gc_steps (take j (cert_goals certificate)))) + remaining) s'
    \<and> (remaining < length (concat (map gc_steps goals))
       \<or> goals \<noteq> [] \<and> gc_steps (last goals) = [] \<or> policy_solved s')"
  using assms(4-)
proof (induction goals arbitrary: j s remaining)
  case Nil
  then have "j = length (cert_goals certificate)" by simp
  with Nil followed_at [OF proves, of s "[]"] length_certificate_goals [OF proves] show ?case
    by (simp add: policy_solved_def followed_def)
next
  case (Cons g goals)
  have "j < length (cert_goals certificate)"
    using Cons.prems(1,2) by (cases "j = length (cert_goals certificate)") auto
  with Cons.prems(1) Cons_nth_drop_Suc [OF this]
  have j: "j < length (cert_goals certificate)" "g = cert_goals certificate ! j"
    "goals = drop (Suc j) (cert_goals certificate)" by (metis list.inject)+
  define goal where "goal = gc_goal g"
  have goal: "required_goal_indices problem ! j = goal" "goal_proof problem goal (gc_steps g)"
    using certificate_goal_proof [OF proves j(1)] by (simp_all add: goal_def j(2))
  show ?case
  proof (cases "remaining = 0")
    case True
    have "0 < length (concat (map gc_steps (g # goals))) \<or> gc_steps (last (g # goals)) = []"
      using last_in_set [of "g # goals"] by (auto simp del: last.simps)
    moreover have "followed problem (cert_goals certificate)
        (length (concat (map gc_steps (take j (cert_goals certificate)))) + remaining) s"
      using followed_at [OF proves, of s "[]"] Cons.prems(3-5) j(1) True by simp
    moreover have "follow_goals hash problem (g # goals) remaining s = Inr (0, s)" using True by simp
    ultimately show ?thesis using True by (intro exI [of _ s]) auto
  next
    case False
    have range: "j < length (ps_goal_order s)"
      using j(1) Cons.prems(3) length_certificate_goals [OF proves] by simp
    then have "goal \<in> required_goal_set problem"
      using goal(1) Cons.prems(3) nth_mem [of j "required_goal_indices problem"] by auto
    with wf hash obtain k where kernel: "goal_kernel_new hash problem goal default_limits = Inr k"
      by (auto simp: goal_kernel_new_Inr is_ok_iff)
    define len where "len = min remaining (length (gc_steps g))"
    have split: "gc_steps g = take len (gc_steps g) @ drop len (gc_steps g)" by simp
    with goal(2) obtain u where u: "proof_steps problem goal default_limits (goal_lhs problem goal) (take len (gc_steps g)) u"
      unfolding goal_proof_def goal_run_def by (metis proof_steps_append)
    obtain visited where follow: "follow_steps k goal (gk_initial k) (take len (gc_steps g)) s
        = Inr (u, s\<lparr>ps_local_steps := take len (gc_steps g), ps_visited := visited\<rparr>)"
      using follow_steps_run [OF kernel u, of s] gk_ends [OF kernel] Cons.prems(5) by auto
    define s1 where "s1 = s\<lparr>ps_local_steps := take len (gc_steps g), ps_visited := visited\<rparr>"
    have unfold_loop: "follow_goals hash problem (g # goals) remaining s =
      (if len < length (gc_steps g) then Inr (remaining - len, s1)
       else if u \<noteq> goal_rhs problem goal
       then Inl (''certificate goal '' @ show_nat goal @ '' does not reach its target'')
       else follow_goals hash problem goals (remaining - len) (next_goal_state s1))"
      using False range goal(1) Cons.prems(3,4) kernel follow gk_ends [OF kernel]
      by (simp add: Let_def flip: goal_def len_def s1_def)
    show ?thesis
    proof (cases "len < length (gc_steps g)")
      case True
      then have "len = remaining" by (simp add: len_def)
      moreover have "followed problem (cert_goals certificate)
          (length (concat (map gc_steps (take j (cert_goals certificate)))) + length (take len (gc_steps g))) s1"
      proof -
        have "\<exists>rest. gc_steps g = take len (gc_steps g) @ rest" using split by (rule exI)
        with followed_at [OF proves, of s1 "take len (gc_steps g)"] j(1,2) Cons.prems(3,4) show ?thesis
          by (simp add: s1_def)
      qed
      ultimately show ?thesis using True unfold_loop by auto
    next
      case whole: False
      then have len: "len = length (gc_steps g)" by (simp add: len_def)
      with u goal(2) have u: "u = goal_rhs problem goal"
        by (auto simp: goal_proof_def goal_run_def intro: proof_steps_deterministic)
      have small: "sat_add j 1 = Suc j"
        using required_goals_bounded [OF wf] range Cons.prems(3) by (simp add: sat_add_exact)
      have "\<exists>s'. follow_goals hash problem goals (remaining - len) (next_goal_state s1) = Inr (0, s')
          \<and> followed problem (cert_goals certificate)
              (length (concat (map gc_steps (take (Suc j) (cert_goals certificate)))) + (remaining - len)) s'
          \<and> (remaining - len < length (concat (map gc_steps goals))
             \<or> goals \<noteq> [] \<and> gc_steps (last goals) = [] \<or> policy_solved s')"
      proof (rule Cons.IH)
        show "remaining - len \<le> length (concat (map gc_steps goals))" using Cons.prems(6) len by simp
      qed (use j(1,3) Cons.prems(3,4) small in \<open>simp_all add: s1_def next_goal_state_def\<close>)
      moreover have "length (concat (map gc_steps (take (Suc j) (cert_goals certificate)))) + (remaining - len)
          = length (concat (map gc_steps (take j (cert_goals certificate)))) + remaining"
        using j(1,2) len by (simp add: take_Suc_conv_app_nth len_def)
      ultimately show ?thesis using unfold_loop whole u len by (auto simp: len_def)
    qed
  qed
qed

lemma accepted_prefix:
  assumes "replay_accepts hash problem certificate default_limits" and "n \<le> step_count certificate"
  shows "\<exists>s. from_certificate_prefix hash problem certificate n = Inr s
    \<and> followed problem (cert_goals certificate) n s
    \<and> (n = step_count certificate \<longrightarrow> gc_steps (last (cert_goals certificate)) \<noteq> [] \<longrightarrow> policy_solved s)"
proof -
  have proves: "certificate_proves problem default_limits certificate"
    and wf: "wf_problem default_limits problem" and hash: "is_ok (hash problem)"
    using assms(1) by (auto simp: replay_accepts_iff)
  have total: "length (concat (map gc_steps (cert_goals certificate))) = step_count certificate"
    by (simp add: step_count_def length_concat comp_def)
  obtain s where "follow_goals hash problem (cert_goals certificate) n (policy_new problem) = Inr (0, s)"
    "followed problem (cert_goals certificate) n s"
    "n < step_count certificate \<or> gc_steps (last (cert_goals certificate)) = [] \<or> policy_solved s"
    using follow_goals_run [where hash = hash and goals = "cert_goals certificate" and j = 0
        and s = "policy_new problem" and remaining = n, OF proves wf hash] assms(2)
    by (auto simp: policy_new_def total)
  with assms(2) show ?thesis by (auto simp: from_certificate_prefix_def)
qed

end
