(* ===== verification/Ruliad_Policy_Oracle.thy ===== *)
theory Ruliad_Policy_Oracle
  imports Ruliad_Policy_State
begin

text \<open>
  The menus built from an accepted certificate, the retargeting of a menu to the outcome of
  another candidate, and the answers that name a candidate.
\<close>

section \<open>Oracle menus\<close>

lemma step_location:
  "n < length (goals_steps goals) \<Longrightarrow> \<exists>j k. j < length goals \<and> k < length (gc_steps (goals ! j))
     \<and> step_at_goals goals n = Some (gc_goal (goals ! j), gc_steps (goals ! j) ! k)
     \<and> prefix_goals goals n
         = Some (take j goals @ [\<lparr>gc_goal = gc_goal (goals ! j), gc_steps = take k (gc_steps (goals ! j))\<rparr>])"
proof (induction goals arbitrary: n)
  case (Cons g goals)
  show ?case
  proof (cases "n < length (gc_steps g)")
    case True
    then show ?thesis by (intro exI [of _ 0] exI [of _ n]) simp
  next
    case False
    with Cons.prems have "n - length (gc_steps g) < length (goals_steps goals)" by simp
    then obtain j k where "j < length goals" "k < length (gc_steps (goals ! j))"
      "step_at_goals goals (n - length (gc_steps g)) = Some (gc_goal (goals ! j), gc_steps (goals ! j) ! k)"
      "prefix_goals goals (n - length (gc_steps g))
         = Some (take j goals @ [\<lparr>gc_goal = gc_goal (goals ! j), gc_steps = take k (gc_steps (goals ! j))\<rparr>])"
      using Cons.IH by blast
    with False show ?thesis by (intro exI [of _ "Suc j"] exI [of _ k]) simp
  qed
qed simp

lemma find_last_goal:
  fixes x :: goal_certificate
  assumes "distinct (map gc_goal goals)" and "j < length goals" and "gc_goal x = gc_goal (goals ! j)"
  shows "find (\<lambda>c. gc_goal c = gc_goal x) (take j goals @ [x]) = Some x"
proof -
  have "gc_goal c \<noteq> gc_goal x" if prefixed: "c \<in> set (take j goals)" for c
  proof -
    obtain i where "i < j" "c = goals ! i" using prefixed by (auto simp: in_set_conv_nth)
    with assms show ?thesis using nth_eq_iff_index_eq [of "map gc_goal goals" i j] by auto
  qed
  then have "find (\<lambda>c. gc_goal c = gc_goal x) (take j goals) = None" by (auto simp: find_None_iff)
  moreover have "find p (xs @ [y]) = (case find p xs of None \<Rightarrow> if p y then Some y else None | Some z \<Rightarrow> Some z)"
    for p xs and y :: goal_certificate
    by (induction xs) auto
  ultimately show ?thesis by simp
qed

lemma accepted_step:
  assumes accepted: "replay_accepts hash problem certificate default_limits"
    and step: "step_at certificate n = Some (goal, s)"
  obtains k local_steps u t where
    "goal_kernel_new hash problem goal default_limits = Inr k"
    "gk_replay_prefix k local_steps = Inr u"
    "goal_run problem goal local_steps u" "step_result problem goal default_limits u s = Inr t"
    "oracle_proof_action_set hash problem certificate n maximum
       = proof_action_set_for_state hash problem goal local_steps (Some s) (max 2 maximum)
           (action_seed (cert_problem_hash certificate) n) None"
proof -
  let ?goals = "cert_goals certificate"
  have proves: "certificate_proves problem default_limits certificate"
    and wf: "wf_problem default_limits problem" and hash: "is_ok (hash problem)"
    and count: "step_count certificate \<le> maximum_steps default_limits"
    using accepted by (auto simp: replay_accepts_iff)
  have "n < length (goals_steps ?goals)"
    using step by (auto simp: step_at_def step_at_goals_nth split: if_splits)
  then obtain j i where at: "j < length ?goals" "i < length (gc_steps (?goals ! j))"
    "step_at_goals ?goals n = Some (gc_goal (?goals ! j), gc_steps (?goals ! j) ! i)"
    "prefix_goals ?goals n
       = Some (take j ?goals @ [\<lparr>gc_goal = gc_goal (?goals ! j), gc_steps = take i (gc_steps (?goals ! j))\<rparr>])"
    using step_location by blast
  then have s: "goal = gc_goal (?goals ! j)" "s = gc_steps (?goals ! j) ! i"
    using step by (simp_all add: step_at_def)
  have "goal \<in> set (required_goal_indices problem)"
    using certificate_goal_proof(1) [OF proves at(1)] length_certificate_goals [OF proves] at(1)
    by (simp add: s(1) del: set_required_goal_indices)
  then obtain k where kernel: "goal_kernel_new hash problem goal default_limits = Inr k"
    using wf hash by (auto simp: goal_kernel_new_Inr is_ok_iff)
  have "goal_run problem goal (take i (gc_steps (?goals ! j)) @ s # drop (Suc i) (gc_steps (?goals ! j)))
      (goal_rhs problem goal)"
    using certificate_goal_proof(2) [OF proves at(1)] id_take_nth_drop [OF at(2)]
    by (simp add: s goal_proof_def)
  then obtain u t where ut: "goal_run problem goal (take i (gc_steps (?goals ! j))) u"
    "step_result problem goal default_limits u s = Inr t"
    unfolding goal_run_append by (auto elim: proof_steps.cases)
  have "length (gc_steps (?goals ! j)) \<le> step_count certificate"
    unfolding step_count_def using at(1) by (intro member_le_sum_list) auto
  then have replay: "gk_replay_prefix k (take i (gc_steps (?goals ! j))) = Inr u"
    using ut(1) at(2) count by (simp add: gk_replay_prefix_Inr [OF kernel] goal_run_def)
  have "distinct (map gc_goal ?goals)"
    using proves by (simp add: certificate_proves_def required_goal_indices_def)
  from find_last_goal [OF this at(1), of "\<lparr>gc_goal = goal, gc_steps = take i (gc_steps (?goals ! j))\<rparr>"]
  have "oracle_proof_action_set hash problem certificate n maximum
      = proof_action_set_for_state hash problem goal (take i (gc_steps (?goals ! j))) (Some s) (max 2 maximum)
          (action_seed (cert_problem_hash certificate) n) None"
    using at(3,4) by (simp add: oracle_proof_action_set_def prefix_before_def step_at_def Let_def flip: s)
  with kernel replay ut show ?thesis by (rule that)
qed

lemma oracle_menu:
  assumes "replay_accepts hash problem certificate default_limits"
    and "step_at certificate n = Some (goal, s)"
  obtains local_steps u t where
    "goal_run problem goal local_steps u" "step_result problem goal default_limits u s = Inr t"
    "t \<noteq> u \<Longrightarrow> \<exists>actions c. oracle_proof_action_set hash problem certificate n maximum = Inr actions
       \<and> verified_menu problem goal local_steps None (max 2 maximum) actions
       \<and> selected_candidate actions = Some c \<and> ac_step c = s \<and> ac_outcome c = Some t"
    "t = u \<Longrightarrow> \<forall>actions. oracle_proof_action_set hash problem certificate n maximum = Inr actions \<longrightarrow>
       s \<notin> ac_step ` set (as_candidates actions)"
proof -
  obtain k local_steps u t where parts: "goal_kernel_new hash problem goal default_limits = Inr k"
    "gk_replay_prefix k local_steps = Inr u" "goal_run problem goal local_steps u"
    "step_result problem goal default_limits u s = Inr t"
    "oracle_proof_action_set hash problem certificate n maximum
       = proof_action_set_for_state hash problem goal local_steps (Some s) (max 2 maximum)
           (action_seed (cert_problem_hash certificate) n) None"
    by (rule accepted_step [OF assms, of maximum]) (rule that; assumption)
  show ?thesis
  proof (rule that [OF parts(3,4)])
    assume "t \<noteq> u"
    with preferred_selected [OF parts(1,2,4), of None "max 2 maximum"]
    show "\<exists>actions c. oracle_proof_action_set hash problem certificate n maximum = Inr actions
       \<and> verified_menu problem goal local_steps None (max 2 maximum) actions
       \<and> selected_candidate actions = Some c \<and> ac_step c = s \<and> ac_outcome c = Some t"
      unfolding parts(5) by auto
  next
    assume "t = u"
    have "s \<notin> ac_step ` set (as_candidates actions)"
      if "oracle_proof_action_set hash problem certificate n maximum = Inr actions" for actions
    proof -
      have menu: "verified_menu problem goal local_steps None (max 2 maximum) actions"
        by (rule action_set_verified [OF that [unfolded parts(5)]]) simp
      then have "as_current actions = u"
        using parts(3) by (auto simp: verified_menu_def goal_run_def intro: proof_steps_deterministic)
      then show ?thesis
        using menu parts(4) \<open>t = u\<close>
        by (auto simp: verified_menu_def verified_candidate_def list_all_iff)
    qed
    then show "\<forall>actions. oracle_proof_action_set hash problem certificate n maximum = Inr actions \<longrightarrow>
       s \<notin> ac_step ` set (as_candidates actions)" by blast
  qed
qed

section \<open>Retargeting\<close>

lemma retarget_problem_goals:
  "problem_goals (retarget_problem problem goal t)
     = (problem_goals problem)[goal := retarget_goal t (problem_goals problem ! goal)]"
  "problem_axioms (retarget_problem problem goal t) = problem_axioms problem"
  by (simp_all add: retarget_problem_def)

lemma retarget_goal_other:
  "g \<noteq> goal \<Longrightarrow> problem_goals (retarget_problem problem goal t) ! g = problem_goals problem ! g"
  by (simp add: retarget_problem_goals)

lemma retarget_goal_same:
  "goal < length (problem_goals problem) \<Longrightarrow>
     problem_goals (retarget_problem problem goal t) ! goal = retarget_goal t (problem_goals problem ! goal)"
  by (simp add: retarget_problem_goals)

text \<open>The steps of a goal do not see its own claim, so retargeting it leaves them alone.\<close>

lemma step_result_retarget:
  assumes "goal < length (problem_goals problem)"
    and "goal \<notin> set (goal_dependencies (problem_goals problem ! goal))"
  shows "step_result (retarget_problem problem goal t) goal limits u s = step_result problem goal limits u s"
proof -
  have "step_equality (retarget_problem problem goal t) goal (retarget_goal t (problem_goals problem ! goal)) axioms source
      = step_equality problem goal (problem_goals problem ! goal) axioms source" for axioms source
    using assms
    by (auto simp: step_equality_def retarget_problem_goals retarget_goal_def nth_list_update
        split: proof_source.splits option.splits)
  then show ?thesis
    using assms(1) by (simp add: step_result_def apply_step_def retarget_goal_same retarget_problem_goals(2))
qed

lemma goal_run_retarget:
  assumes "goal < length (problem_goals problem)"
    and "goal \<notin> set (goal_dependencies (problem_goals problem ! goal))"
  shows "goal_run (retarget_problem problem goal t) goal steps u \<longleftrightarrow> goal_run problem goal steps u"
proof -
  have "proof_steps (retarget_problem problem goal t) goal limits v steps u \<longleftrightarrow> proof_steps problem goal limits v steps u"
    for limits v
    by (induction steps arbitrary: v) (auto simp: step_result_retarget [OF assms] elim: proof_steps.cases
        intro: proof_steps_Nil proof_steps_Cons)
  then show ?thesis
    using assms(1) by (simp add: goal_run_def goal_lhs_def retarget_goal_same retarget_goal_def)
qed

lemma counterfactual_Inr:
  assumes "counterfactual_proof_action_target hash problem actions i = Inr (problem', actions')"
  obtains c t where
    "as_goal actions < length (problem_goals problem)" "i < length (as_candidates actions)"
    "c = as_candidates actions ! i" "ac_outcome c = Some t" "t \<noteq> as_current actions"
    "\<not> is_equivalent_index actions i"
    "problem' = retarget_problem problem (as_goal actions) t" "actions' = retarget_actions actions i t"
    "wf_problem default_limits problem'"
    "step_result problem' (as_goal actions) default_limits (as_current actions) (ac_step c) = Inr t"
proof -
  obtain t where target: "counterfactual_target problem actions i = Inr t"
    using assms by (auto simp: counterfactual_proof_action_target_def result_bind_Inr)
  then have parts: "as_goal actions < length (problem_goals problem)" "i < length (as_candidates actions)"
    "ac_outcome (as_candidates actions ! i) = Some t" "t \<noteq> as_current actions" "\<not> is_equivalent_index actions i"
    by (auto simp: counterfactual_target_def nth_opt_def split: if_splits option.splits)
  obtain k where k: "problem' = retarget_problem problem (as_goal actions) t"
    "actions' = retarget_actions actions i t"
    "goal_kernel_new hash problem' (as_goal actions) default_limits = Inr k"
    "gk_apply k (as_current actions') (ac_step (as_candidates actions' ! i)) = Inr t"
    using assms target
    by (auto simp: counterfactual_proof_action_target_def result_bind_Inr Let_def split: if_splits)
  moreover have "as_current actions' = as_current actions" "ac_step (as_candidates actions' ! i) = ac_step (as_candidates actions ! i)"
    using parts(2) by (simp_all add: k(2) retarget_actions_def retarget_candidate_def)
  ultimately show ?thesis
    using parts that [OF parts(1,2) refl] by (simp add: gk_apply_step_result [OF k(3)]) (simp add: goal_kernel_new_Inr)
qed

lemma retargeted_candidate:
  assumes "goal < length (problem_goals problem)"
    and "goal \<notin> set (goal_dependencies (problem_goals problem ! goal))"
    and "verified_candidate problem goal current target excluded c"
  shows "verified_candidate (retarget_problem problem goal t) goal current t excluded (retarget_candidate t c)"
  using assms(3) by (auto simp: verified_candidate_def retarget_candidate_def step_result_retarget [OF assms(1,2)])

lemma counterfactual_menu:
  assumes menu: "verified_menu problem goal local_steps excluded maximum actions"
    and run: "counterfactual_proof_action_target hash problem actions i = Inr (problem', actions')"
  shows "verified_menu problem' goal local_steps excluded maximum actions'
    \<and> map ac_step (as_candidates actions') = map ac_step (as_candidates actions)
    \<and> as_selected_index actions' = i
    \<and> ac_outcome (as_candidates actions' ! i) = Some (goal_rhs problem' goal)
    \<and> problem_axioms problem' = problem_axioms problem
    \<and> (\<forall>g. g \<noteq> goal \<longrightarrow> problem_goals problem' ! g = problem_goals problem ! g)"
proof -
  obtain c t where parts: "as_goal actions < length (problem_goals problem)" "i < length (as_candidates actions)"
    "c = as_candidates actions ! i" "ac_outcome c = Some t"
    "problem' = retarget_problem problem (as_goal actions) t" "actions' = retarget_actions actions i t"
    "wf_problem default_limits problem'"
    by (rule counterfactual_Inr [OF run]) (rule that; assumption)
  have goal: "as_goal actions = goal" using menu by (simp add: verified_menu_def)
  note parts = parts [unfolded goal]
  have "wf_goal goal (problem_goals problem' ! goal)"
    using wf_problem_goal [OF parts(7), of goal] parts(1) by (simp add: parts(5) retarget_problem_goals(1))
  then have free: "goal \<notin> set (goal_dependencies (problem_goals problem ! goal))"
    using parts(1) by (auto simp: wf_goal_def parts(5) retarget_goal_same retarget_goal_def)
  have rhs: "goal_rhs problem' goal = t"
    using parts(1) by (simp add: goal_rhs_def parts(5) retarget_goal_same retarget_goal_def)
  have candidates: "as_candidates actions' = map (retarget_candidate t) (as_candidates actions)"
    "as_selected_index actions' = i" "as_goal actions' = goal" "as_current actions' = as_current actions"
    "as_target actions' = t"
    "as_equivalent_indices actions' = indices_where (\<lambda>c. ac_outcome c = Some t) (as_candidates actions)"
    using goal by (simp_all add: parts(6) retarget_actions_def)
  have steps: "ac_step (retarget_candidate t c) = ac_step c" "ac_outcome (retarget_candidate t c) = ac_outcome c" for c
    by (simp_all add: retarget_candidate_def)
  have "goal_run problem' goal local_steps (as_current actions')"
    unfolding candidates parts(5) goal_run_retarget [OF parts(1) free]
    using menu by (simp add: verified_menu_def goal_run_def)
  moreover have "list_all (verified_candidate problem' goal (as_current actions') t excluded) (as_candidates actions')"
    using menu retargeted_candidate [OF parts(1) free]
    by (auto simp: candidates parts(5) verified_menu_def list_all_iff)
  moreover have "is_equivalent_index actions' k \<longleftrightarrow> k < length (as_candidates actions')
      \<and> ac_outcome (as_candidates actions' ! k) = ac_outcome (as_candidates actions' ! as_selected_index actions')" for k
    using parts(2-4) by (auto simp: is_equivalent_index_def candidates steps)
  moreover have "menu_ok actions'"
    using parts(2) by (simp add: menu_ok_def candidates list_all_iff)
  moreover have "map ac_step (as_candidates actions') = map ac_step (as_candidates actions)"
    by (simp add: candidates comp_def steps)
  ultimately have "verified_menu problem' goal local_steps excluded maximum actions'"
    using menu by (simp add: verified_menu_def candidates rhs goal_run_def comp_def steps)
  then show ?thesis
    using parts(1-4) by (simp add: candidates steps rhs comp_def) (simp add: parts(5) retarget_problem_goals)
qed

section \<open>Answers\<close>

lemma parse_index_answer: "i \<le> usize_max \<Longrightarrow> parse_proof_action_index (''c='' @ show_nat i) = Some i"
proof -
  assume i: "i \<le> usize_max"
  have "str_trim (''c='' @ show_nat i) = ''c='' @ show_nat i"
    using show_nat_graphic by (intro str_trim_graphic_all) (simp add: graphic_def list_all_iff)
  moreover have "split_on CHR '';'' (''c='' @ show_nat i) = [''c='' @ show_nat i]"
    by (rule split_on_pure) simp
  ultimately show ?thesis using i strip_prefix_append [of "''c=''" "show_nat i"]
    by (simp add: parse_proof_action_index_def)
qed

lemma resolve_answer:
  assumes "i < length (as_candidates actions)" and "distinct (map ac_step (as_candidates actions))"
    and "contract = PresentationIndex \<Longrightarrow> i \<le> usize_max"
    and "contract = SemanticStep \<Longrightarrow> action_encodable (as_goal actions, ac_step (as_candidates actions ! i))"
  shows "\<exists>answer. proof_action_answer actions i contract = Inr answer
    \<and> resolve_proof_action_answer actions answer contract = Some i"
proof (cases contract)
  case PresentationIndex
  with assms parse_index_answer [of i] show ?thesis
    by (simp add: proof_action_answer_def resolve_proof_action_answer_def nth_opt_def)
next
  case SemanticStep
  let ?s = "ac_step (as_candidates actions ! i)"
  have "decode_model_proof_step (encode_model_proof_step (as_goal actions) ?s) = Some (as_goal actions, ?s)"
    using action_codec.decode_encode [OF assms(4) [OF SemanticStep]] by (simp add: encode_line_def)
  moreover have "position_of (\<lambda>c. ac_step c = ?s) (as_candidates actions) = Some i"
  proof -
    have "ac_step (as_candidates actions ! j) \<noteq> ?s" if "j < i" for j
      using assms(1,2) that nth_eq_iff_index_eq [of "map ac_step (as_candidates actions)" j i] by simp
    then show ?thesis using assms(1) by (simp add: position_of_Some)
  qed
  ultimately show ?thesis
    using assms(1) SemanticStep by (simp add: proof_action_answer_def resolve_proof_action_answer_def nth_opt_def)
qed

lemma resolved_index:
  "resolve_proof_action_answer actions answer contract = Some i \<Longrightarrow> i < length (as_candidates actions)"
  by (cases contract)
    (auto simp: resolve_proof_action_answer_def bind_eq_Some_conv position_of_Some split: if_splits)

section \<open>Progress\<close>

lemma progress_bound: "candidate_progress_ppm actions i \<le> ppm"
proof -
  have "sat_mul (d - n) ppm div d \<le> ppm" if "d \<noteq> 0" for d n
  proof -
    have "sat_mul (d - n) ppm \<le> d * ppm" by (simp add: sat_mul_def min.coboundedI2)
    then have "sat_mul (d - n) ppm div d \<le> d * ppm div d" by (rule div_le_mono)
    with that show ?thesis by simp
  qed
  then show ?thesis by (auto simp: candidate_progress_ppm_def Let_def split: option.splits)
qed

end
