(* ===== verification/Ruliad_Policy_Properties.thy ===== *)
theory Ruliad_Policy_Properties
  imports Ruliad_Policy_Oracle
begin

text \<open>
  The properties of the proof policy (\<open>ruliad/policy.rs\<close>), each with its instance on the
  problem of \<open>Ruliad_Samples\<close>, whose two goals a policy can prove by one action each.
\<close>

section \<open>Running the sample\<close>

text \<open>A menu of the policy with room for every candidate offers each verified combination of an
  enumerated source and path, and the action that reaches the target closes the goal.\<close>

lemma menu_offers:
  assumes cursor: "ps_goal_cursor s < length (ps_goal_order s)" and goal: "ps_goal_order s ! ps_goal_cursor s = goal"
    and kernel: "goal_kernel_new hash problem goal default_limits = Inr k"
    and run: "gk_replay_prefix k (ps_local_steps s) = Inr u"
    and step: "step_result problem goal default_limits u st = Inr t" "t \<noteq> u" "proof_state_key goal t \<notin> ps_visited s"
    and listed: "st \<in> set (action_steps (action_sources problem (problem_goals problem ! goal) None)
        (action_paths u (goal_rhs problem goal) None) None)"
    and room: "193 \<le> maximum"
  shows "\<exists>actions c. policy_action_set hash problem s maximum = Inr actions \<and> c \<in> set (as_candidates actions)
    \<and> ac_step c = st \<and> ac_outcome c = Some t \<and> as_goal actions = goal \<and> as_target actions = goal_rhs problem goal"
proof -
  obtain h where hash: "hash problem = Inr h" using kernel by (auto simp: goal_kernel_new_Inr)
  have range: "goal < length (problem_goals problem)"
    using kernel by (auto simp: goal_kernel_new_Inr intro: wf_required_in_range)
  define seed where "seed = action_seed h (sat_add (length (ps_local_steps s)) (ps_goal_cursor s * 2 ^ 20 mod 2 ^ 64))"
  let ?state = "proof_action_set_for_state hash problem goal (ps_local_steps s) None (max 2 maximum) seed (Some (ps_visited s))"
  obtain cs where cs:
    "cs \<noteq> [] \<Longrightarrow> 0 < max 2 maximum \<Longrightarrow>
       (let menu = select_hard_candidate_subset cs None (max 2 maximum) seed; i = choose_index None menu in
        i < length menu \<and> ?state = Inr \<lparr>as_goal = goal, as_current = u, as_target = goal_rhs problem goal,
             as_candidates = menu, as_selected_index = i,
             as_equivalent_indices = indices_where (\<lambda>c. ac_outcome c = ac_outcome (menu ! i)) menu\<rparr>)"
    "cs = filter (verified_candidate problem goal u (goal_rhs problem goal) (Some (ps_visited s)))
       (enumerate_action_candidates problem k goal u (goal_rhs problem goal) None seed)"
    by (rule action_set_parts [OF kernel run]) (rule that; assumption)
  define c where "c = try_action k u (goal_rhs problem goal) st"
  have c: "ac_step c = st" "ac_outcome c = Some t"
    "verified_candidate problem goal u (goal_rhs problem goal) (Some (ps_visited s)) c"
    using step by (simp_all add: c_def try_action_def Let_def gk_apply_step_result [OF kernel] verified_candidate_def)
  then have member: "c \<in> set cs"
    using listed by (simp add: cs(2) enumerated_without_preference [OF range] c_def)
  have "\<forall>d\<in>set cs. ac_outcome d \<noteq> None" by (auto simp: cs(2) verified_candidate_def)
  moreover have "length cs \<le> 193"
    unfolding cs(2) by (rule order_trans [OF length_filter_le length_enumerated])
  ultimately have "set (select_hard_candidate_subset cs None (max 2 maximum) seed) = set cs"
    using room by (intro selected_all) auto
  moreover have "policy_action_set hash problem s maximum = ?state"
    using cursor goal hash by (simp add: policy_action_set_def nth_opt_def seed_def Let_def)
  moreover have "cs \<noteq> []" using member by auto
  ultimately show ?thesis using cs(1) member c by (auto simp: Let_def)
qed

lemma sample_goal_kernel:
  "g \<in> {0, 1} \<Longrightarrow> \<exists>k. goal_kernel_new sample_hash sample_problem g default_limits = Inr k"
  by (simp add: goal_kernel_new_Inr sample_well_formed sample_required sample_hash_def)

definition sample_start :: "nat \<Rightarrow> policy_state" where
  "sample_start cursor = \<lparr>ps_goal_order = [0, 1], ps_goal_cursor = cursor, ps_local_steps = [], ps_visited = {}\<rparr>"

lemma policy_new_sample: "policy_new sample_problem = sample_start 0"
  by (simp add: policy_new_def sample_start_def sample_required_indices)

lemma sample_goal_ends:
  "goal_lhs sample_problem 0 = Apply ''ctx'' [sample_redex]" "goal_rhs sample_problem 0 = Apply ''ctx'' [Atom ''a'']"
  "goal_lhs sample_problem 1 = Apply ''pair'' [Apply ''ctx'' [sample_redex], Atom ''b'']"
  "goal_rhs sample_problem 1 = Apply ''pair'' [Apply ''ctx'' [Atom ''a''], Atom ''b'']"
  by (simp_all add: goal_lhs_def goal_rhs_def sample_problem_def)

lemma set_take_dedup: "length xs \<le> n \<Longrightarrow> set (take n (dedup_preserving_order xs)) = set xs"
  using length_dedup [of xs] by simp

lemma listed_step:
  assumes "length (goal_dependencies g) + length (problem_axioms problem) \<le> 8"
    and "step_source st \<in> LemmaSource ` set (goal_dependencies g) \<union> (\<lambda>ax. AxiomSource (ax_id ax)) ` set (problem_axioms problem)"
    and "collect_term_paths u [] [first_difference_path u t] 12 = paths" "length paths \<le> 12" "step_path st \<in> set paths"
  shows "st \<in> set (action_steps (action_sources problem g None) (action_paths u t None) None)"
proof -
  have "step_source st \<in> set (action_sources problem g None)"
    using assms(1,2)
    by (simp add: action_sources_def max_enumerated_sources_def set_take_dedup)
  moreover have "step_path st \<in> set (action_paths u t None)"
    using assms(3-5) by (simp add: action_paths_def max_enumerated_paths_def set_take_dedup)
  moreover have "st = \<lparr>step_source = step_source st, step_path = step_path st, step_direction = step_direction st\<rparr>"
    by simp
  ultimately show ?thesis unfolding set_action_steps_None by blast
qed

lemma sample_paths:
  "collect_term_paths (Apply ''ctx'' [sample_redex]) [] [first_difference_path (Apply ''ctx'' [sample_redex]) (Apply ''ctx'' [Atom ''a''])] 12
     = [[0], [], [0], [0, 0], [0, 1]]"
  "collect_term_paths (Apply ''pair'' [Apply ''ctx'' [sample_redex], Atom ''b'']) []
     [first_difference_path (Apply ''pair'' [Apply ''ctx'' [sample_redex], Atom ''b''])
        (Apply ''pair'' [Apply ''ctx'' [Atom ''a''], Atom ''b''])] 12
     = [[0, 0], [], [0], [0, 0], [0, 0, 0], [0, 0, 1], [1]]"
  by (simp_all add: collect_term_paths.simps first_difference_path.simps sample_redex_def)

lemma sample_menu:
  assumes "cursor \<in> {0, 1}"
  shows "\<exists>actions c. policy_action_set sample_hash sample_problem (sample_start cursor) 193 = Inr actions
    \<and> c \<in> set (as_candidates actions) \<and> ac_step c = (if cursor = 0 then sample_step else sample_lemma_step)
    \<and> ac_outcome c = Some (goal_rhs sample_problem cursor) \<and> as_goal actions = cursor
    \<and> as_target actions = goal_rhs sample_problem cursor"
proof -
  obtain k where kernel: "goal_kernel_new sample_hash sample_problem cursor default_limits = Inr k"
    using sample_goal_kernel [OF assms] by blast
  have start: "ps_goal_cursor (sample_start cursor) < length (ps_goal_order (sample_start cursor))"
    "ps_goal_order (sample_start cursor) ! ps_goal_cursor (sample_start cursor) = cursor"
    using assms by (auto simp: sample_start_def)
  have run: "gk_replay_prefix k (ps_local_steps (sample_start cursor)) = Inr (goal_lhs sample_problem cursor)"
    by (simp add: gk_replay_prefix_Inr [OF kernel] sample_start_def proof_steps_Nil)
  have ends: "goal_rhs sample_problem cursor \<noteq> goal_lhs sample_problem cursor"
    using assms by (auto simp: sample_goal_ends [unfolded One_nat_def] sample_redex_def)
  have step: "step_result sample_problem cursor default_limits (goal_lhs sample_problem cursor)
      (if cursor = 0 then sample_step else sample_lemma_step) = Inr (goal_rhs sample_problem cursor)"
    using assms sample_steps sample_goal_ends by auto
  have "(if cursor = 0 then sample_step else sample_lemma_step)
      \<in> set (action_steps (action_sources sample_problem (problem_goals sample_problem ! cursor) None)
          (action_paths (goal_lhs sample_problem cursor) (goal_rhs sample_problem cursor) None) None)"
  proof (cases "cursor = 0")
    case True
    then show ?thesis
      by (simp only: sample_goal_ends if_True) (rule listed_step [OF _ _ sample_paths(1)];
        simp add: sample_problem_def sample_axiom_def sample_step_def)
  next
    case False
    then have "cursor = 1" using assms by simp
    then show ?thesis
      by (simp only: sample_goal_ends if_False) (simp add: listed_step [OF _ _ sample_paths(2)]
        sample_problem_def sample_axiom_def sample_lemma_step_def)
  qed
  with menu_offers [OF start kernel run step ends, of 193] show ?thesis by (simp add: sample_start_def)
qed

text \<open>A selector that takes the first candidate whose outcome is the target.\<close>

definition target_selector :: "unit selector" where
  "target_selector c s actions =
     (position_of (\<lambda>candidate. ac_outcome candidate = Some (as_target actions)) (as_candidates actions), c)"

lemma sample_move:
  assumes "cursor \<in> {0, 1}"
  shows "\<exists>actions i. policy_action_set sample_hash sample_problem (sample_start cursor) 193 = Inr actions
    \<and> target_selector () (sample_start cursor) actions = (Some i, ())
    \<and> policy_apply (sample_start cursor) actions i = Inr (False, sample_start (Suc cursor))"
proof -
  obtain actions c where menu:
    "policy_action_set sample_hash sample_problem (sample_start cursor) 193 = Inr actions"
    "c \<in> set (as_candidates actions)" "ac_outcome c = Some (goal_rhs sample_problem cursor)"
    "as_goal actions = cursor" "as_target actions = goal_rhs sample_problem cursor"
    using sample_menu [OF assms] by blast
  then obtain i where i: "position_of (\<lambda>c. ac_outcome c = Some (as_target actions)) (as_candidates actions) = Some i"
    using position_of_defined [of c "as_candidates actions" "\<lambda>c. ac_outcome c = Some (as_target actions)"] by auto
  have "sat_add cursor 1 = Suc cursor" using assms by (auto simp: sat_add_def usize_max_def)
  then have "policy_apply (sample_start cursor) actions i = Inr (False, sample_start (Suc cursor))"
    using i menu assms
    by (auto simp: policy_apply_def sample_start_def nth_opt_def position_of_Some next_goal_state_def)
  with menu(1) i show ?thesis by (intro exI [of _ actions] exI [of _ i]) (simp add: target_selector_def)
qed

lemma sample_rollout:
  "rollout_proof_policy sample_hash sample_problem 2 193 target_selector () =
     \<lparr>ro_solved = True, ro_steps = 2, ro_valid_actions = 2, ro_invalid_actions = 0, ro_repeated_states = 0,
      ro_backtracks = 0, ro_solved_goals = 2, ro_total_goals = 2\<rparr>"
proof -
  obtain a0 i0 where m0: "policy_action_set sample_hash sample_problem (sample_start 0) 193 = Inr a0"
    "target_selector () (sample_start 0) a0 = (Some i0, ())"
    "policy_apply (sample_start 0) a0 i0 = Inr (False, sample_start 1)"
    using sample_move [of 0] by auto
  obtain a1 i1 where m1: "policy_action_set sample_hash sample_problem (sample_start 1) 193 = Inr a1"
    "target_selector () (sample_start 1) a1 = (Some i1, ())"
    "policy_apply (sample_start 1) a1 i1 = Inr (False, sample_start 2)"
    using sample_move [of 1] by (auto simp: numeral_2_eq_2)
  have solved: "\<not> policy_solved (sample_start 0)" "\<not> policy_solved (sample_start 1)" "policy_solved (sample_start 2)"
    "total_goals (sample_start 0) = 2" "solved_goals (sample_start 2) = 2"
    by (simp_all add: policy_solved_def sample_start_def total_goals_def solved_goals_def)
  have "sat_add 0 1 = 1" "sat_add 1 1 = 2" "sat_add 0 0 = 0" by (simp_all add: sat_add_def usize_max_def)
  then show ?thesis
    using m0 m1 solved
    by (simp add: rollout_proof_policy_def policy_new_sample Let_def numeral_2_eq_2)
qed

section \<open>Rollouts\<close>

text \<open>C21: a solved rollout is a proof. When a rollout within the kernel's step limit ends solved,
  whatever its selector did, there is a certificate of no more steps than the rollout
  applied that the replay kernel accepts.\<close>
theorem solved_rollout_has_a_certificate:
  assumes "step_budget \<le> maximum_steps default_limits"
    and "ro_solved (rollout_proof_policy hash problem step_budget maximum select c)"
  shows "\<exists>certificate. replay_accepts hash problem certificate default_limits
    \<and> step_count certificate \<le> ro_valid_actions (rollout_proof_policy hash problem step_budget maximum select c)"
proof -
  let ?report = "rollout_proof_policy hash problem step_budget maximum select c"
  have "step_budget \<le> usize_max" using assms(1) by (simp add: default_limits_def usize_max_def)
  then obtain s r where r: "rollout_result hash problem maximum step_budget s r"
    "?report = r\<lparr>ro_solved := policy_solved s, ro_solved_goals := solved_goals s\<rparr>"
    by (rule rollout_reaches [of _ hash problem maximum select c]) (rule that; assumption)
  then have reached: "policy_reaches hash problem maximum (ro_valid_actions r) s"
    and solved: "policy_solved s" and valid: "ro_valid_actions ?report = ro_valid_actions r"
    and budget: "ro_valid_actions r \<le> maximum_steps default_limits"
    using assms by (auto simp: rollout_result_def)
  obtain proofs where proofs: "policy_inv problem s proofs" "steps_taken s proofs \<le> ro_valid_actions r"
    "0 < ps_goal_cursor s \<longrightarrow> wf_problem default_limits problem \<and> is_ok (hash problem)"
    using policy_reaches_inv [OF reached] by (elim exE conjE) (rule that)
  have "required_goal_indices problem \<noteq> []" using root_required [of problem] by (metis empty_iff set_empty set_required_goal_indices)
  then have "0 < ps_goal_cursor s" using proofs(1) solved by (auto simp: policy_inv_def policy_solved_def)
  with proofs(3) obtain h where h: "wf_problem default_limits problem" "hash problem = Inr h"
    by (auto simp: is_ok_iff)
  with solved_certificate [where hash = hash, OF proofs(1) solved h] proofs(2) budget
  have "replay_accepts hash problem (certificate_of problem h proofs) default_limits"
    "step_count (certificate_of problem h proofs) \<le> ro_valid_actions ?report"
    by (simp_all add: valid)
  then show ?thesis by blast
qed

theorem solved_rollout_has_a_certificate_witness:
  "\<exists>certificate. replay_accepts sample_hash sample_problem certificate default_limits \<and> step_count certificate \<le> 2"
  using solved_rollout_has_a_certificate [of 2 sample_hash sample_problem 193 target_selector "()"]
  by (simp add: sample_rollout default_limits_def)

text \<open>The report of a rollout is consistent. It counts the required goals and is solved exactly
  when all of them are; the actions applied and the backtracks together stay within the step
  budget; no applied action repeats a visited state; at most one action is invalid, and
  without one the rollout has solved every goal or used its whole budget.\<close>
theorem rollout_report_is_consistent:
  assumes "step_budget \<le> usize_max"
    and "report = rollout_proof_policy hash problem step_budget maximum select c"
  shows "ro_total_goals report = length (required_goal_indices problem)
    \<and> ro_solved_goals report \<le> ro_total_goals report
    \<and> (ro_solved report \<longleftrightarrow> ro_solved_goals report = ro_total_goals report)
    \<and> ro_steps report + ro_backtracks report \<le> step_budget
    \<and> ro_repeated_states report = 0 \<and> ro_invalid_actions report \<le> 1
    \<and> ro_valid_actions report \<le> ro_steps report
    \<and> ro_steps report \<le> ro_valid_actions report + ro_invalid_actions report
    \<and> (ro_invalid_actions report = 0 \<longrightarrow>
         ro_solved report \<or> ro_steps report + ro_backtracks report = step_budget)"
proof -
  obtain s r where r: "rollout_result hash problem maximum step_budget s r"
    "report = r\<lparr>ro_solved := policy_solved s, ro_solved_goals := solved_goals s\<rparr>"
    "ro_total_goals r = length (required_goal_indices problem)"
    by (rule rollout_reaches [OF assms(1), of hash problem maximum select c]) (rule that; simp add: assms(2))
  then obtain proofs where "policy_inv problem s proofs"
    using policy_reaches_inv by (metis rollout_result_def)
  then have "ps_goal_order s = required_goal_indices problem" by (simp add: policy_inv_def)
  with r show ?thesis by (auto simp: rollout_result_def policy_solved_def solved_goals_def)
qed

theorem rollout_report_is_consistent_witness:
  "ro_total_goals (rollout_proof_policy sample_hash sample_problem 2 193 target_selector ())
     = length (required_goal_indices sample_problem)
   \<and> ro_solved_goals (rollout_proof_policy sample_hash sample_problem 2 193 target_selector ()) = 2"
  using rollout_report_is_consistent [of 2 _ sample_hash sample_problem 193 target_selector "()"]
  by (simp add: sample_rollout usize_max_def)

text \<open>C27: the invariant of the policy. In every state that actions and backtracking reach, the goals
  before the cursor have proofs by rewrite steps, the local steps replay from the left side
  of the goal at the cursor, and no more steps are held than actions were applied.\<close>
theorem reached_policy_states_replay:
  assumes "policy_reaches hash problem maximum n s"
  shows "\<exists>proofs. policy_inv problem s proofs \<and> steps_taken s proofs \<le> n"
  using policy_reaches_inv [OF assms] by blast

theorem reached_policy_states_replay_witness:
  "\<exists>proofs. policy_inv sample_problem (sample_start 1) proofs \<and> steps_taken (sample_start 1) proofs \<le> 1"
proof -
  obtain actions i where "policy_action_set sample_hash sample_problem (sample_start 0) 193 = Inr actions"
    "policy_apply (sample_start 0) actions i = Inr (False, sample_start 1)"
    using sample_move [of 0] by auto
  then have "policy_reaches sample_hash sample_problem 193 (Suc 0) (sample_start 1)"
    using reaches_apply [OF reaches_new] by (simp add: policy_new_sample)
  from reached_policy_states_replay [OF this] show ?thesis by simp
qed

section \<open>Menus\<close>

text \<open>C28: the menu of a policy state is verified. Its candidates are distinct steps, at least one and at most the
  maximum asked for (two when that is smaller), each with the outcome the kernel computes from the term that the
  local steps reach; no outcome is that term or a state already visited, the recorded distance is
  the distance to the right side of the goal, and the equivalent indices are those with the
  outcome of the selected candidate.\<close>
theorem policy_menus_are_verified:
  assumes "policy_action_set hash problem s maximum = Inr actions"
  shows "verified_menu problem (ps_goal_order s ! ps_goal_cursor s) (ps_local_steps s) (Some (ps_visited s))
    (max 2 maximum) actions"
  using policy_action_set_Inr [OF assms] by blast

theorem policy_menus_are_verified_witness:
  "\<exists>actions. policy_action_set sample_hash sample_problem (sample_start 0) 193 = Inr actions
    \<and> verified_menu sample_problem 0 [] (Some {}) 193 actions"
proof -
  obtain actions where actions: "policy_action_set sample_hash sample_problem (sample_start 0) 193 = Inr actions"
    using sample_menu [of 0] by auto
  from policy_menus_are_verified [OF this] have "verified_menu sample_problem 0 [] (Some {}) 193 actions"
    by (simp add: sample_start_def)
  with actions show ?thesis by blast
qed

text \<open>C29: the menu for a step of an accepted certificate. When the step changes the term, the menu
  exists, is verified, and selects that step with its outcome; when the step leaves the term
  as it is, no menu offers it.\<close>
theorem oracle_menu_selects_the_certified_step:
  assumes "replay_accepts hash problem certificate default_limits"
    and "step_at certificate n = Some (goal, s)"
  shows "\<exists>local_steps u t. goal_run problem goal local_steps u
    \<and> step_result problem goal default_limits u s = Inr t
    \<and> (if t \<noteq> u
       then \<exists>actions c. oracle_proof_action_set hash problem certificate n maximum = Inr actions
         \<and> verified_menu problem goal local_steps None (max 2 maximum) actions
         \<and> selected_candidate actions = Some c \<and> ac_step c = s \<and> ac_outcome c = Some t
       else \<forall>actions. oracle_proof_action_set hash problem certificate n maximum = Inr actions \<longrightarrow>
         s \<notin> ac_step ` set (as_candidates actions))"
  by (rule oracle_menu [OF assms, of maximum]) (simp, blast)

theorem oracle_menu_selects_the_certified_step_witness:
  "\<exists>local_steps u t. goal_run sample_problem 0 local_steps u
    \<and> step_result sample_problem 0 default_limits u sample_step = Inr t"
proof -
  have "step_at sample_certificate 0 = Some (0, sample_step)"
    by (simp add: step_at_def sample_certificate_def)
  from oracle_menu_selects_the_certified_step [OF sample_accepted this, of 4] show ?thesis by blast
qed
text \<open>A menu of the first goal of the sample with two candidates.\<close>

definition sample_back_step :: proof_step where
  "sample_back_step = \<lparr>step_source = AxiomSource ''unit'', step_path = [0], step_direction = Reverse\<rparr>"

definition sample_grown :: ruliad_term where
  "sample_grown = Apply ''ctx'' [Apply ''add'' [Atom ''zero'', sample_redex]]"

definition sample_actions :: action_set where
  "sample_actions = \<lparr>as_goal = 0, as_current = Apply ''ctx'' [sample_redex], as_target = Apply ''ctx'' [Atom ''a''],
     as_candidates =
       [\<lparr>ac_step = sample_step, ac_outcome = Some (Apply ''ctx'' [Atom ''a'']), ac_distance = Some 0\<rparr>,
        \<lparr>ac_step = sample_back_step, ac_outcome = Some sample_grown,
          ac_distance = Some (term_distance sample_grown (Apply ''ctx'' [Atom ''a'']))\<rparr>],
     as_selected_index = 0, as_equivalent_indices = [0]\<rparr>"

lemma sample_back: "step_result sample_problem 0 default_limits (Apply ''ctx'' [sample_redex]) sample_back_step = Inr sample_grown"
  by (simp add: step_result_def apply_step_def step_equality_def orient_def sample_defs default_limits_def
      index_axioms_def rewrite_here_def sample_back_step_def sample_grown_def)

lemma sample_actions_verified: "verified_menu sample_problem 0 [] None 2 sample_actions"
proof -
  have "is_equivalent_index sample_actions i \<longleftrightarrow> i < length (as_candidates sample_actions)
      \<and> ac_outcome (as_candidates sample_actions ! i) = ac_outcome (as_candidates sample_actions ! 0)" for i
    by (cases i) (auto simp: is_equivalent_index_def sample_actions_def sample_grown_def nth_Cons' sample_redex_def)
  moreover have "term_distance t t = 0" for t by (simp add: term_distance_0)
  ultimately show ?thesis
    using sample_steps(1) sample_back sample_goal_ends(1,2)
    by (simp add: verified_menu_def proof_steps_Nil menu_ok_def verified_candidate_def)
      (simp add: sample_actions_def sample_step_def sample_back_step_def proof_steps_Nil verified_candidate_def
        sample_redex_def sample_grown_def)
qed

lemma sample_retargeted:
  "counterfactual_proof_action_target sample_hash sample_problem sample_actions 1
     = Inr (retarget_problem sample_problem 0 sample_grown, retarget_actions sample_actions 1 sample_grown)"
proof -
  have target: "counterfactual_target sample_problem sample_actions 1 = Inr sample_grown"
    by (simp add: counterfactual_target_def nth_opt_def is_equivalent_index_def sample_actions_def
        sample_problem_def sample_grown_def sample_redex_def)
  let ?p = "retarget_problem sample_problem 0 sample_grown"
  have "wf_problem default_limits ?p"
  proof -
    have "str_trim ''units'' \<noteq> []" by (simp add: str_trim_graphic_all graphic_def)
    moreover have "\<forall>k<length (problem_goals ?p). wf_goal k (problem_goals ?p ! k)"
      by (simp add: retarget_problem_def retarget_goal_def sample_problem_def sample_redex_def sample_grown_def
          wf_goal_def sample_identifiers All_less_Suc numeral_2_eq_2)
    ultimately show ?thesis
      by (simp add: wf_problem_def retarget_problem_def retarget_goal_def sample_problem_def sample_axiom_def
          sample_redex_def sample_grown_def default_limits_def ruliad_ir_version_def wf_axiom_def sample_identifiers
          axiom_nodes_def goal_nodes_def sat_add_def usize_max_def)
  qed
  moreover have "required_goal_set ?p = {0, 1}"
  proof -
    have "goal_dependencies_at ?p (Suc 0) = [0]" "goal_dependencies_at ?p 0 = []"
      "problem_root ?p = Suc 0"
      by (simp_all add: goal_dependencies_at_def retarget_problem_def retarget_goal_def sample_problem_def)
    then show ?thesis by (auto simp: required_goal_set_def)
  qed
  ultimately obtain k where kernel: "goal_kernel_new sample_hash ?p 0 default_limits = Inr k"
    by (simp add: goal_kernel_new_Inr sample_hash_def)
  have "step_result ?p 0 default_limits (Apply ''ctx'' [sample_redex]) sample_back_step = Inr sample_grown"
    using sample_back by (simp add: step_result_retarget sample_problem_def)
  then show ?thesis
    using target kernel
    by (simp add: counterfactual_proof_action_target_def Let_def gk_apply_step_result [OF kernel])
      (simp add: sample_actions_def retarget_actions_def retarget_candidate_def gk_apply_step_result [OF kernel])
qed

text \<open>Retargeting a menu. The axioms and the other goals stay, the goal's right side becomes the
  outcome of the chosen candidate, the steps stay, and the new menu is again a verified menu of
  the same state, now with that candidate selected: its one step proves the new goal.\<close>
theorem retargeted_menu_is_verified:
  assumes "verified_menu problem goal local_steps excluded maximum actions"
    and "counterfactual_proof_action_target hash problem actions i = Inr (problem', actions')"
  shows "verified_menu problem' goal local_steps excluded maximum actions'
    \<and> map ac_step (as_candidates actions') = map ac_step (as_candidates actions)
    \<and> as_selected_index actions' = i
    \<and> ac_outcome (as_candidates actions' ! i) = Some (goal_rhs problem' goal)
    \<and> problem_axioms problem' = problem_axioms problem
    \<and> (\<forall>g. g \<noteq> goal \<longrightarrow> problem_goals problem' ! g = problem_goals problem ! g)"
  by (rule counterfactual_menu [OF assms])

theorem retargeted_menu_is_verified_witness:
  "verified_menu (retarget_problem sample_problem 0 sample_grown) 0 [] None 2
     (retarget_actions sample_actions 1 sample_grown)"
  using retargeted_menu_is_verified [OF sample_actions_verified sample_retargeted] by blast

text \<open>Rotating a menu changes its presentation only. The rotation succeeds on a well-formed menu
  and keeps it well formed, the selected candidate is the same, every candidate has a new
  place from which the code finds the old one, with the same equivalence flag, a further
  rotation by the missing places restores the menu, and any place can be asked for.\<close>
theorem rotation_keeps_the_menu:
  assumes "menu_ok actions" and "r \<le> length (as_candidates actions)"
  shows "\<exists>turned. rotate_left actions r = Inr turned \<and> menu_ok turned
    \<and> selected_candidate turned = selected_candidate actions
    \<and> (\<forall>i < length (as_candidates actions). \<exists>j < length (as_candidates actions).
         as_candidates turned ! j = as_candidates actions ! i
         \<and> original_index_after_rotation actions j r = Inr i
         \<and> (is_equivalent_index turned j \<longleftrightarrow> is_equivalent_index actions i))
    \<and> rotate_left turned (length (as_candidates actions) - r) = Inr actions
    \<and> (\<forall>desired < length (as_candidates actions). \<exists>moved. rotate_selected_to actions desired = Inr moved
         \<and> selected_candidate moved = selected_candidate actions \<and> as_selected_index moved = desired)"
proof -
  have "rotate_left (rotated r actions) (length (as_candidates actions) - r) = Inr actions"
    using rotate_left_ok [OF menu_turn.turn_closed [OF assms(1)]] menu_turn.turn_back [OF assms] by simp
  moreover have "\<exists>moved. rotate_selected_to actions desired = Inr moved
      \<and> selected_candidate moved = selected_candidate actions \<and> as_selected_index moved = desired"
    if "desired < length (as_candidates actions)" for desired
    using rotate_selected_to_ok [OF assms(1) that] rotated_selected [OF assms(1)] by blast
  ultimately show ?thesis
    using rotate_left_ok [OF assms(1)] menu_turn.turn_closed [OF assms(1)] rotated_selected [OF assms(1)]
      rotated_index [OF assms(1)]
    by (intro exI [of _ "rotated r actions"]) blast
qed

theorem rotation_keeps_the_menu_witness:
  "\<exists>turned. rotate_left sample_actions 1 = Inr turned \<and> selected_candidate turned = selected_candidate sample_actions"
  using rotation_keeps_the_menu [of sample_actions 1] by (auto simp: menu_ok_def sample_actions_def)

text \<open>An answer names its candidate under both contracts. The text the code writes for a
  candidate of a menu with distinct steps resolves back to its index, as a presentation index when
  the index is a machine size and as a semantic step when the step survives the model-facing text.\<close>
theorem answers_name_their_candidate:
  assumes "i < length (as_candidates actions)" and "distinct (map ac_step (as_candidates actions))"
    and "if contract = PresentationIndex then i \<le> usize_max
         else action_encodable (as_goal actions, ac_step (as_candidates actions ! i))"
  shows "\<exists>answer. proof_action_answer actions i contract = Inr answer
    \<and> resolve_proof_action_answer actions answer contract = Some i"
  using assms by (intro resolve_answer) (auto split: if_splits)

theorem answers_name_their_candidate_witness:
  "\<exists>answer. proof_action_answer sample_actions 1 SemanticStep = Inr answer
    \<and> resolve_proof_action_answer sample_actions answer SemanticStep = Some 1"
proof (rule answers_name_their_candidate)
  show "if SemanticStep = PresentationIndex then 1 \<le> usize_max
      else action_encodable (as_goal sample_actions, ac_step (as_candidates sample_actions ! 1))"
    by (simp add: sample_actions_def sample_back_step_def action_encodable_def usize_max_def)
qed (simp_all add: sample_actions_def sample_step_def sample_back_step_def)

section \<open>Prefixes of a certificate\<close>

text \<open>The state before any step of an accepted certificate is rebuilt. The reconstruction
  succeeds, its finished goals and local steps are together the first steps of the
  certificate and satisfy the invariant of the policy, and when the last goal of the
  certificate has steps, the whole certificate ends in the solved state.\<close>
theorem certificate_prefix_rebuilds_the_state:
  assumes "replay_accepts hash problem certificate default_limits" and "n \<le> step_count certificate"
  shows "\<exists>s. from_certificate_prefix hash problem certificate n = Inr s
    \<and> policy_inv problem s (map gc_steps (take (ps_goal_cursor s) (cert_goals certificate)))
    \<and> concat (map gc_steps (take (ps_goal_cursor s) (cert_goals certificate))) @ ps_local_steps s
        = take n (concat (map gc_steps (cert_goals certificate)))
    \<and> (n = step_count certificate \<longrightarrow> gc_steps (last (cert_goals certificate)) \<noteq> [] \<longrightarrow> policy_solved s)"
  using accepted_prefix [OF assms] by (auto simp: followed_def)

theorem certificate_prefix_rebuilds_the_state_witness:
  "\<exists>s. from_certificate_prefix sample_hash sample_problem sample_certificate 2 = Inr s \<and> policy_solved s"
proof -
  have "step_count sample_certificate = 2" "gc_steps (last (cert_goals sample_certificate)) \<noteq> []"
    by (simp_all add: step_count_def sample_certificate_def)
  with certificate_prefix_rebuilds_the_state [OF sample_accepted, of 2] show ?thesis by auto
qed

text \<open>A goal that needs no step stays open. A certificate the kernel accepts whose last
  goal is proved by no steps leaves the policy state that is rebuilt from it unsolved.\<close>
theorem stepless_goal_stays_open:
  "\<exists>problem certificate s. replay_accepts sample_hash problem certificate default_limits
    \<and> from_certificate_prefix sample_hash problem certificate (step_count certificate) = Inr s
    \<and> \<not> policy_solved s"
proof -
  define problem where "problem = sample_problem\<lparr>problem_axioms := [], problem_goals :=
    [\<lparr>goal_id = ''g0'', goal_dependencies = [], goal_claim = \<lparr>eq_lhs = Atom ''a'', eq_rhs = Atom ''a''\<rparr>\<rparr>],
    problem_root := 0\<rparr>"
  define certificate where
    "certificate = \<lparr>cert_version = 3, cert_problem_hash = ''h'', cert_goals = [\<lparr>gc_goal = 0, gc_steps = []\<rparr>]\<rparr>"
  have "str_trim ''units'' \<noteq> []" by (simp add: str_trim_graphic_all graphic_def)
  then have wf: "wf_problem default_limits problem"
    by (simp add: wf_problem_def problem_def sample_problem_def sample_identifiers default_limits_def wf_goal_def
        ruliad_ir_version_def axiom_nodes_def goal_nodes_def sat_add_def usize_max_def)
  have "goal_dependencies_at problem 0 = []" "problem_root problem = 0"
    by (simp_all add: goal_dependencies_at_def problem_def)
  then have "required_goal_set problem = {0}" by (simp add: required_goal_set_def)
  then have order: "required_goal_indices problem = [0]" by (simp add: required_goal_indices_def)
  then have "certificate_proves problem default_limits certificate"
    by (simp add: certificate_proves_def certificate_def problem_def proof_steps_Nil)
  then have "replay_accepts sample_hash problem certificate default_limits"
    using wf by (simp add: replay_accepts_iff sample_hash_def certificate_def ruliad_ir_version_def step_count_def)
  moreover have "from_certificate_prefix sample_hash problem certificate (step_count certificate) = Inr (policy_new problem)"
    by (simp add: from_certificate_prefix_def step_count_def certificate_def)
  moreover have "\<not> policy_solved (policy_new problem)"
    by (simp add: policy_solved_def policy_new_def order)
  ultimately show ?thesis by blast
qed

end
