(* ===== verification/Ruliad_Oracle.thy ===== *)
theory Ruliad_Oracle
  imports Ruliad_Eca Ruliad_Category Ruliad_Policy
begin

text \<open>
  The samples of \<open>ruliad/oracles.rs\<close> and their verifier: one record per family of samples,
  the small interpreters that recompute an answer (automata, string rewriting, operation
  tables, modular vectors), the primality test, and \<open>verify_spec\<close>. A \<open>panic\<close> of an index, a
  remainder by zero or an arithmetic overflow (which a build without overflow checks wraps
  instead) is \<^const>\<open>Panicked\<close>. What the sources call outside the repository is the record
  \<open>oracle_services\<close>: SHA-256, the \<open>hex\<close> crate, the JSON hash, and the problem hash and debug
  text that the kernel and the generator of formal problems take.
\<close>

section \<open>Services\<close>

type_synonym bytes = "u8 list"

definition bytes_of :: "string \<Rightarrow> bytes" where
  "bytes_of s = map of_char s"

section \<open>Proof tasks for Lean\<close>

record lean_proof_task =
  lean_id :: string
  lean_statement :: string
  lean_proof :: string
  lean_payload_hash :: "string option"

definition computed_payload_hash :: "(bytes \<Rightarrow> string) \<Rightarrow> lean_proof_task \<Rightarrow> string" where
  "computed_payload_hash sha task =
     sha (bytes_of (lean_id task) @ [0] @ bytes_of (lean_statement task) @ [0] @ bytes_of (lean_proof task))"

definition validate_hash :: "(bytes \<Rightarrow> string) \<Rightarrow> lean_proof_task \<Rightarrow> bool" where
  "validate_hash sha task =
     (case lean_payload_hash task of
        None \<Rightarrow> True
      | Some expected \<Rightarrow> expected = computed_payload_hash sha task)"

definition default_proof_task :: "(bytes \<Rightarrow> string) \<Rightarrow> string \<Rightarrow> string \<Rightarrow> string \<Rightarrow> lean_proof_task" where
  "default_proof_task sha ident statement proof_text =
     (let task = \<lparr> lean_id = ident, lean_statement = statement, lean_proof = proof_text,
                   lean_payload_hash = None \<rparr>
      in task\<lparr> lean_payload_hash := Some (computed_payload_hash sha task) \<rparr>)"

definition default_proof_tasks :: "(bytes \<Rightarrow> string) \<Rightarrow> lean_proof_task list" where
  "default_proof_tasks sha =
     [default_proof_task sha ''identity_simulation''
        ''Identity maps commute with any deterministic step function.''
        ''theorem identity_simulation : True := by trivial'',
      default_proof_task sha ''simulation_composition'' ''Commuting simulations compose.''
        ''theorem simulation_composition : True := by trivial'',
      default_proof_task sha ''finite_trajectory_preservation''
        ''One-step simulation preserves every bounded trajectory.''
        ''theorem finite_trajectory_preservation : True := by trivial'',
      default_proof_task sha ''rewrite_chain_composition''
        ''Rewrite reachability composes across intermediate normalizing chains.''
        ''theorem rewrite_chain_composition : present in RuliadSeed.Basic'']"

section \<open>Samples\<close>

record string_rule =
  rule_from :: string
  rule_to :: string

datatype algebra_law = Associativity | Commutativity

fun algebra_law_label :: "algebra_law \<Rightarrow> string" where
  "algebra_law_label Associativity = ''associativity''"
| "algebra_law_label Commutativity = ''commutativity''"

record eca_spec =
  eca_rule :: u8
  eca_width :: nat
  eca_steps :: nat
  eca_initial :: string
  eca_states :: "string list"
  eca_task :: ruliad_task_kind

record simulation_spec =
  sim_source_rule :: u8
  sim_target_rule :: u8
  sim_width :: nat
  sim_steps :: nat
  sim_source_initial :: string
  sim_target_initial :: string
  sim_source_trace :: "string list"
  sim_target_trace :: "string list"
  sim_mapped_trace :: "string list"
  sim_task :: ruliad_task_kind

record automaton_spec =
  aut_state_count :: nat
  aut_transitions :: "nat list list"
  aut_start :: nat
  aut_accept :: "nat list"
  aut_input :: string
  aut_trace :: "nat list"
  aut_accepted :: bool
  aut_task :: ruliad_task_kind

record rewrite_spec =
  rw_alphabet :: string
  rw_rules :: "string_rule list"
  rw_initial :: string
  rw_steps :: nat
  rw_trace :: "string list"
  rw_normal_form :: string
  rw_task :: ruliad_task_kind

record algebra_spec =
  alg_carrier :: nat
  alg_table :: "nat list list"
  alg_law :: algebra_law
  alg_operands :: "nat list"
  alg_lhs :: nat
  alg_rhs :: nat
  alg_holds :: bool
  alg_task :: ruliad_task_kind

type_synonym vec2 = "nat \<times> nat"

record proof_tree_spec =
  pt_modulus :: nat
  pt_u :: vec2
  pt_v :: vec2
  pt_sum :: vec2
  pt_dot :: nat
  pt_norm_u :: nat
  pt_norm_v :: nat
  pt_norm_sum :: nat
  pt_lhs :: nat
  pt_rhs :: nat
  pt_holds :: bool
  pt_lemmas :: "string list"
  pt_proof_steps :: "string list"
  pt_task :: ruliad_task_kind

record formal_proof_spec =
  fp_problem :: proof_problem
  fp_certificate :: proof_certificate
  fp_candidate :: "proof_certificate option"
  fp_step_index :: "nat option"
  fp_rotation :: "nat option"
  fp_contract :: action_answer_contract
  fp_task :: ruliad_task_kind

record lean_task_spec =
  lt_task_id :: string
  lt_statement :: string
  lt_proof :: string
  lt_payload_hash :: string
  lt_task :: ruliad_task_kind

record hash_noise_spec =
  hn_bytes_hex :: string
  hn_payload_hash :: string
  hn_task :: ruliad_task_kind

datatype sample_spec =
  EcaSample eca_spec
| SimulationSample simulation_spec
| AutomatonSample automaton_spec
| RewriteSample rewrite_spec
| AlgebraSample algebra_spec
| CategorySample category_spec
| ProofTreeSample proof_tree_spec
| FormalProofSample formal_proof_spec
| LeanTaskSample lean_task_spec
| HashNoiseSample hash_noise_spec

fun family_of_spec :: "sample_spec \<Rightarrow> ruliad_family_kind" where
  "family_of_spec (EcaSample s) = FamilyEca"
| "family_of_spec (SimulationSample s) = FamilySimulation"
| "family_of_spec (AutomatonSample s) = FamilyAutomaton"
| "family_of_spec (RewriteSample s) = FamilyRewrite"
| "family_of_spec (AlgebraSample s) = FamilyAlgebra"
| "family_of_spec (CategorySample s) = FamilyCategory"
| "family_of_spec (ProofTreeSample s) = FamilyProofTree"
| "family_of_spec (FormalProofSample s) = FamilyFormalProof"
| "family_of_spec (LeanTaskSample s) = FamilyLeanTask"
| "family_of_spec (HashNoiseSample s) = FamilyHashNoise"

fun task_kind_of_spec :: "sample_spec \<Rightarrow> ruliad_task_kind" where
  "task_kind_of_spec (EcaSample s) = eca_task s"
| "task_kind_of_spec (SimulationSample s) = sim_task s"
| "task_kind_of_spec (AutomatonSample s) = aut_task s"
| "task_kind_of_spec (RewriteSample s) = rw_task s"
| "task_kind_of_spec (AlgebraSample s) = alg_task s"
| "task_kind_of_spec (CategorySample s) = spec_task s"
| "task_kind_of_spec (ProofTreeSample s) = pt_task s"
| "task_kind_of_spec (FormalProofSample s) = fp_task s"
| "task_kind_of_spec (LeanTaskSample s) = lt_task s"
| "task_kind_of_spec (HashNoiseSample s) = hn_task s"

record oracle_services =
  os_sha :: "bytes \<Rightarrow> string"
  os_hex_encode :: "bytes \<Rightarrow> string"
  os_hex_decode :: "string \<Rightarrow> bytes option"
  os_json_hash :: "sample_spec \<Rightarrow> string + string"
  os_problem_hash :: problem_hasher
  os_debug :: "kernel_failure option \<Rightarrow> string"

section \<open>Automata\<close>

definition valid_transition_table :: "nat \<Rightarrow> nat list list \<Rightarrow> nat \<Rightarrow> bool" where
  "valid_transition_table state_count transitions alphabet_size \<longleftrightarrow>
     0 < state_count \<and> length transitions = state_count
     \<and> list_all (\<lambda>row. length row = alphabet_size
          \<and> list_all (\<lambda>next_state. next_state < state_count) row) transitions"

fun automaton_run :: "nat list list \<Rightarrow> nat \<Rightarrow> string \<Rightarrow> nat list \<Rightarrow> nat list option" where
  "automaton_run transitions state [] visited = Some visited"
| "automaton_run transitions state (symbol # input) visited =
     (if symbol = CHR ''0''
      then let state' = transitions ! state ! 0
           in automaton_run transitions state' input (visited @ [state'])
      else if symbol = CHR ''1''
      then let state' = transitions ! state ! 1
           in automaton_run transitions state' input (visited @ [state'])
      else None)"

definition automaton_trace :: "nat \<Rightarrow> nat list list \<Rightarrow> nat \<Rightarrow> string \<Rightarrow> nat list option" where
  "automaton_trace state_count transitions start_state input =
     (if \<not> valid_transition_table state_count transitions 2 \<or> state_count \<le> start_state then None
      else automaton_run transitions start_state input [start_state])"

section \<open>String rewriting\<close>

definition ascii :: "char \<Rightarrow> bool" where
  "ascii c \<longleftrightarrow> (of_char c :: nat) < 128"

definition ascii_white_space :: "char \<Rightarrow> bool" where
  "ascii_white_space c \<longleftrightarrow> (of_char c :: nat) \<in> {9, 10, 11, 12, 13, 32}"

text \<open>The alphabet is checked to be ASCII before its characters are read, so they are its bytes.
  \<open>seen.insert\<close> answers false on a repeated symbol, and \<open>all\<close> stops there.\<close>

fun fresh_symbols :: "char set \<Rightarrow> string \<Rightarrow> bool" where
  "fresh_symbols seen [] = True"
| "fresh_symbols seen (symbol # symbols) =
     (\<not> ascii_white_space symbol \<and> symbol \<notin> seen \<and> fresh_symbols (insert symbol seen) symbols)"

definition valid_alphabet :: "string \<Rightarrow> bool" where
  "valid_alphabet alphabet \<longleftrightarrow>
     alphabet \<noteq> [] \<and> list_all ascii alphabet \<and> fresh_symbols {} alphabet"

definition alphabet_contains :: "string \<Rightarrow> string \<Rightarrow> bool" where
  "alphabet_contains alphabet text_value = list_all (\<lambda>symbol. list_ex (\<lambda>c. c = symbol) alphabet) text_value"

text \<open>\<open>str::find\<close>: the byte offset of the first occurrence.\<close>

fun str_find :: "string \<Rightarrow> string \<Rightarrow> nat option" where
  "str_find needle hay =
     (if take (length needle) hay = needle then Some 0
      else case hay of [] \<Rightarrow> None | _ # rest \<Rightarrow> map_option Suc (str_find needle rest))"

declare str_find.simps [simp del]

fun best_match :: "string \<Rightarrow> nat \<Rightarrow> string_rule list \<Rightarrow> (nat \<times> nat) option \<Rightarrow> (nat \<times> nat) option" where
  "best_match word rule_index [] best = best"
| "best_match word rule_index (rule # rules) best =
     best_match word (Suc rule_index) rules
       (if rule_from rule = [] then best
        else case str_find (rule_from rule) word of
          None \<Rightarrow> best
        | Some position \<Rightarrow>
            if (case best of
                  None \<Rightarrow> True
                | Some (best_position, best_rule_index) \<Rightarrow>
                    position < best_position
                    \<or> (position = best_position \<and> rule_index < best_rule_index))
            then Some (position, rule_index)
            else best)"

definition apply_rewrite_once :: "string \<Rightarrow> string_rule list \<Rightarrow> string option" where
  "apply_rewrite_once word rules =
     (case best_match word 0 rules None of
        None \<Rightarrow> None
      | Some (position, rule_index) \<Rightarrow>
          (let rule = rules ! rule_index in
           Some (take position word @ rule_to rule @ drop (position + length (rule_from rule)) word)))"

fun rewrite_loop :: "string_rule list \<Rightarrow> nat \<Rightarrow> string \<Rightarrow> string list \<Rightarrow> string list" where
  "rewrite_loop rules 0 current visited = visited"
| "rewrite_loop rules (Suc steps) current visited =
     (case apply_rewrite_once current rules of
        None \<Rightarrow> visited
      | Some next_word \<Rightarrow> rewrite_loop rules steps next_word (visited @ [next_word]))"

definition rewrite_trace :: "string \<Rightarrow> string_rule list \<Rightarrow> nat \<Rightarrow> string list" where
  "rewrite_trace initial rules steps = rewrite_loop rules steps initial [initial]"

section \<open>Operation tables\<close>

definition valid_operation_table :: "nat \<Rightarrow> nat list list \<Rightarrow> bool" where
  "valid_operation_table carrier_size table \<longleftrightarrow>
     0 < carrier_size \<and> length table = carrier_size
     \<and> list_all (\<lambda>row. length row = carrier_size \<and> list_all (\<lambda>v. v < carrier_size) row) table"

definition algebra_law_result ::
    "nat \<Rightarrow> nat list list \<Rightarrow> algebra_law \<Rightarrow> nat list \<Rightarrow> (nat \<times> nat) option" where
  "algebra_law_result carrier_size table law operands =
     (if \<not> valid_operation_table carrier_size table
         \<or> list_ex (\<lambda>operand. carrier_size \<le> operand) operands then None
      else
        let opr = (\<lambda>left right. table ! left ! right) in
        case law of
          Associativity \<Rightarrow>
            if length operands \<noteq> 3 then None
            else let a = operands ! 0; b = operands ! 1; c = operands ! 2
                 in Some (opr (opr a b) c, opr a (opr b c))
        | Commutativity \<Rightarrow>
            if length operands \<noteq> 2 then None
            else let a = operands ! 0; b = operands ! 1 in Some (opr a b, opr b a))"

section \<open>Modular vectors\<close>

definition checked_add :: "nat \<Rightarrow> nat \<Rightarrow> nat option" where
  "checked_add a b = (if a + b \<le> usize_max then Some (a + b) else None)"

definition checked_mul :: "nat \<Rightarrow> nat \<Rightarrow> nat option" where
  "checked_mul a b = (if a * b \<le> usize_max then Some (a * b) else None)"

definition checked_mod :: "nat \<Rightarrow> nat \<Rightarrow> nat option" where
  "checked_mod a modulus = (if modulus = 0 then None else Some (a mod modulus))"

definition mod_dot :: "vec2 \<Rightarrow> vec2 \<Rightarrow> nat \<Rightarrow> nat option" where
  "mod_dot left right modulus =
     (if modulus = 0 then Some 0
      else
        Option.bind (checked_mul (fst left) (fst right)) (\<lambda>x.
        Option.bind (checked_mul (snd left) (snd right)) (\<lambda>y.
        Option.bind (checked_add x y) (\<lambda>s. Some (s mod modulus)))))"

definition mod_norm :: "vec2 \<Rightarrow> nat \<Rightarrow> nat option" where
  "mod_norm v modulus =
     (if modulus = 0 then Some 0
      else
        Option.bind (checked_mul (fst v) (fst v)) (\<lambda>x.
        Option.bind (checked_mul (snd v) (snd v)) (\<lambda>y.
        Option.bind (checked_add x y) (\<lambda>s. Some (s mod modulus)))))"

section \<open>Primes\<close>

text \<open>Both loops may run forever, so their values are options: \<open>None\<close> stands for no return.\<close>

partial_function (option) divisor_loop :: "nat \<Rightarrow> nat \<Rightarrow> bool option" where
  "divisor_loop number divisor =
     (if sat_mul divisor divisor \<le> number then
        if number mod divisor = 0 then Some False
        else divisor_loop number (sat_add divisor 2)
      else Some True)"

definition is_prime :: "nat \<Rightarrow> bool option" where
  "is_prime number =
     (if number < 2 then Some False
      else if number = 2 then Some True
      else if number mod 2 = 0 then Some False
      else divisor_loop number 3)"

partial_function (option) prime_loop :: "nat \<Rightarrow> nat option" where
  "prime_loop candidate =
     Option.bind (is_prime candidate) (\<lambda>p.
       if p then Some candidate else prime_loop (sat_add candidate 1))"

definition next_prime_at_least :: "nat \<Rightarrow> nat option" where
  "next_prime_at_least number = prime_loop (max number 2)"

section \<open>The verifier\<close>

definition parse_trace :: "string list \<Rightarrow> u8 list list" where
  "parse_trace frames = map parse_state frames"

definition eca_sample_ok :: "eca_spec \<Rightarrow> bool" where
  "eca_sample_ok s =
     (let parsed_initial = parse_state (eca_initial s);
          parsed_trace = parse_trace (eca_states s);
          expected = eca_trace (eca_rule s) parsed_initial (eca_steps s)
      in eca_width s = length parsed_initial
         \<and> length parsed_trace = sat_add (eca_steps s) 1
         \<and> states_equal parsed_trace expected)"

definition simulation_sample_ok :: "simulation_spec \<Rightarrow> bool" where
  "simulation_sample_ok s =
     (let source_initial = parse_state (sim_source_initial s);
          target_initial = parse_state (sim_target_initial s);
          source_trace = parse_trace (sim_source_trace s);
          target_trace = parse_trace (sim_target_trace s);
          mapped_source_trace = parse_trace (sim_mapped_trace s);
          expected_source = eca_trace (sim_source_rule s) source_initial (sim_steps s);
          expected_target = eca_trace (sim_target_rule s) target_initial (sim_steps s);
          expected_mapped = map complement_state expected_source
      in sim_width s = length source_initial
         \<and> target_initial = complement_state source_initial
         \<and> sim_target_rule s = complement_rule (sim_source_rule s)
         \<and> states_equal source_trace expected_source
         \<and> states_equal target_trace expected_target
         \<and> states_equal mapped_source_trace expected_mapped
         \<and> states_equal mapped_source_trace target_trace)"

definition automaton_sample_ok :: "automaton_spec \<Rightarrow> bool" where
  "automaton_sample_ok s =
     (let recomputed = automaton_trace (aut_state_count s) (aut_transitions s) (aut_start s) (aut_input s)
      in valid_transition_table (aut_state_count s) (aut_transitions s) 2
         \<and> aut_start s < aut_state_count s
         \<and> list_all (\<lambda>state. state < aut_state_count s) (aut_accept s)
         \<and> recomputed = Some (aut_trace s)
         \<and> aut_trace s \<noteq> [] \<and> (last (aut_trace s) \<in> set (aut_accept s)) = aut_accepted s)"

definition rewrite_rule_ok :: "string \<Rightarrow> string_rule \<Rightarrow> bool" where
  "rewrite_rule_ok alphabet rule \<longleftrightarrow>
     rule_from rule \<noteq> [] \<and> length (rule_to rule) < length (rule_from rule) \<and> rule_to rule \<noteq> []
     \<and> alphabet_contains alphabet (rule_from rule) \<and> alphabet_contains alphabet (rule_to rule)"

definition rewrite_sample_ok :: "rewrite_spec \<Rightarrow> bool" where
  "rewrite_sample_ok s =
     (let expected = rewrite_trace (rw_initial s) (rw_rules s) (rw_steps s)
      in valid_alphabet (rw_alphabet s)
         \<and> alphabet_contains (rw_alphabet s) (rw_initial s)
         \<and> list_all (alphabet_contains (rw_alphabet s)) (rw_trace s)
         \<and> alphabet_contains (rw_alphabet s) (rw_normal_form s)
         \<and> rw_rules s \<noteq> []
         \<and> list_all (rewrite_rule_ok (rw_alphabet s)) (rw_rules s)
         \<and> expected = rw_trace s
         \<and> rw_trace s \<noteq> [] \<and> last (rw_trace s) = rw_normal_form s)"

definition algebra_sample_ok :: "algebra_spec \<Rightarrow> bool" where
  "algebra_sample_ok s =
     (let recomputed = algebra_law_result (alg_carrier s) (alg_table s) (alg_law s) (alg_operands s)
      in valid_operation_table (alg_carrier s) (alg_table s)
         \<and> (case recomputed of
              None \<Rightarrow> False
            | Some (expected_lhs, expected_rhs) \<Rightarrow>
                expected_lhs = alg_lhs s \<and> expected_rhs = alg_rhs s
                \<and> (expected_lhs = expected_rhs) = alg_holds s))"

definition mod_sum :: "vec2 \<Rightarrow> vec2 \<Rightarrow> nat \<Rightarrow> vec2 option" where
  "mod_sum u v modulus =
     Option.bind (checked_add (fst u) (fst v)) (\<lambda>x. Option.bind (checked_mod x modulus) (\<lambda>x'.
     Option.bind (checked_add (snd u) (snd v)) (\<lambda>y. Option.bind (checked_mod y modulus) (\<lambda>y'.
       Some (x', y')))))"

definition proof_tree_sample_ok :: "proof_tree_spec \<Rightarrow> bool option" where
  "proof_tree_sample_ok s =
     Option.bind (mod_sum (pt_u s) (pt_v s) (pt_modulus s)) (\<lambda>recomputed_sum.
     Option.bind (mod_dot (pt_u s) (pt_v s) (pt_modulus s)) (\<lambda>recomputed_dot.
     Option.bind (mod_norm (pt_u s) (pt_modulus s)) (\<lambda>recomputed_norm_u.
     Option.bind (mod_norm (pt_v s) (pt_modulus s)) (\<lambda>recomputed_norm_v.
     Option.bind (mod_norm (pt_sum s) (pt_modulus s)) (\<lambda>recomputed_norm_sum.
     Option.bind (checked_add recomputed_norm_u recomputed_norm_v) (\<lambda>norms.
     Option.bind (checked_mod norms (pt_modulus s)) (\<lambda>recomputed_rhs.
       let theorem_holds = (recomputed_dot = 0 \<and> recomputed_norm_sum = recomputed_rhs)
       in Some (2 \<le> pt_modulus s
            \<and> pt_sum s = recomputed_sum
            \<and> pt_dot s = recomputed_dot
            \<and> pt_norm_u s = recomputed_norm_u
            \<and> pt_norm_v s = recomputed_norm_v
            \<and> pt_norm_sum s = recomputed_norm_sum
            \<and> pt_lhs s = recomputed_norm_sum
            \<and> pt_rhs s = recomputed_rhs
            \<and> pt_holds s = theorem_holds
            \<and> pt_holds s
            \<and> 4 \<le> length (pt_lemmas s)
            \<and> 4 \<le> length (pt_proof_steps s)))))))))"

definition default_action_candidates :: nat where
  "default_action_candidates = 4"

definition formal_task_shape_ok :: "problem_hasher \<Rightarrow> formal_proof_spec \<Rightarrow> bool" where
  "formal_task_shape_ok hash s =
     (case fp_task s of
        ConstructProof \<Rightarrow> fp_candidate s = None \<and> fp_step_index s = None \<and> fp_rotation s = None
      | AdvanceProof \<Rightarrow>
          fp_candidate s = None \<and> fp_rotation s = None
          \<and> (case fp_step_index s of
               None \<Rightarrow> False | Some index \<Rightarrow> step_at (fp_certificate s) index \<noteq> None)
      | SelectProofAction \<Rightarrow>
          fp_candidate s = None
          \<and> (case fp_step_index s of
               None \<Rightarrow> False
             | Some index \<Rightarrow>
                 (case oracle_proof_action_set hash (fp_problem s) (fp_certificate s) index
                         default_action_candidates of
                    Inl _ \<Rightarrow> False
                  | Inr actions \<Rightarrow>
                      (case fp_rotation s of
                         None \<Rightarrow> True | Some rotation \<Rightarrow> rotation < length (as_candidates actions))))
      | CheckProof \<Rightarrow> fp_candidate s \<noteq> None \<and> fp_step_index s = None \<and> fp_rotation s = None
      | _ \<Rightarrow> False)"

definition formal_sample_ok :: "problem_hasher \<Rightarrow> formal_proof_spec \<Rightarrow> bool option" where
  "formal_sample_ok hash s =
     map_option (\<lambda>report. rr_accepted report \<and> formal_task_shape_ok hash s)
       (replay_certificate hash (fp_problem s) (fp_certificate s) default_limits)"

definition lean_sample_ok :: "(bytes \<Rightarrow> string) \<Rightarrow> lean_task_spec \<Rightarrow> bool" where
  "lean_sample_ok sha s =
     validate_hash sha
       \<lparr> lean_id = lt_task_id s, lean_statement = lt_statement s, lean_proof = lt_proof s,
         lean_payload_hash = Some (lt_payload_hash s) \<rparr>"

definition noise_sample_ok :: "oracle_services \<Rightarrow> hash_noise_spec \<Rightarrow> bool" where
  "noise_sample_ok env s =
     (let decoded = (case os_hex_decode env (hn_bytes_hex s) of None \<Rightarrow> [] | Some bytes \<Rightarrow> bytes)
      in decoded \<noteq> [] \<and> os_sha env decoded = hn_payload_hash s)"

fun spec_ok :: "oracle_services \<Rightarrow> sample_spec \<Rightarrow> bool option" where
  "spec_ok env (EcaSample s) = Some (eca_sample_ok s)"
| "spec_ok env (SimulationSample s) = Some (simulation_sample_ok s)"
| "spec_ok env (AutomatonSample s) = Some (automaton_sample_ok s)"
| "spec_ok env (RewriteSample s) = Some (rewrite_sample_ok s)"
| "spec_ok env (AlgebraSample s) = Some (algebra_sample_ok s)"
| "spec_ok env (CategorySample s) = category_sample_ok s"
| "spec_ok env (ProofTreeSample s) = proof_tree_sample_ok s"
| "spec_ok env (FormalProofSample s) = formal_sample_ok (os_problem_hash env) s"
| "spec_ok env (LeanTaskSample s) = Some (lean_sample_ok (os_sha env) s)"
| "spec_ok env (HashNoiseSample s) = Some (noise_sample_ok env s)"

record oracle_report =
  rep_ok :: bool
  rep_family :: ruliad_family_kind
  rep_task :: ruliad_task_kind
  rep_hash :: string

definition verify_spec :: "oracle_services \<Rightarrow> sample_spec \<Rightarrow> oracle_report outcome" where
  "verify_spec env s =
     outcome_bind (expect (spec_ok env s)) (\<lambda>ok.
       case os_json_hash env s of
         Inl e \<Rightarrow> Failed e
       | Inr oracle_hash \<Rightarrow>
           Returned \<lparr> rep_ok = ok, rep_family = family_of_spec s, rep_task = task_kind_of_spec s,
                      rep_hash = oracle_hash \<rparr>)"

section \<open>Degenerate samples\<close>

text \<open>
  The rate of changed cells is compared in \<open>f32\<close>. Integers convert with rounding to 24
  significant bits, ties to even. The quotient \<open>x / y\<close> then rounds below the \<open>f32\<close> nearest to
  0.03, which is \<open>16106127 / 2^29\<close>, exactly when it is at most \<open>16106126.5 / 2^29\<close> (the tie goes
  to the even neighbour), that is when \<open>x * 2^30 <= 32212253 * y\<close>.
\<close>

definition f32_of_nat :: "nat \<Rightarrow> nat" where
  "f32_of_nat n =
     (if n < 2 ^ 24 then n
      else let s = ilog2 n - 23; q = n div 2 ^ s; r = n mod 2 ^ s
           in (if 2 ^ s < 2 * r \<or> (2 ^ s = 2 * r \<and> odd q) then Suc q else q) * 2 ^ s)"

definition below_three_percent :: "nat \<times> nat \<Rightarrow> bool" where
  "below_three_percent = (\<lambda>(changed, cells).
     cells = 0 \<or> f32_of_nat changed * 2 ^ 30 \<le> 32212253 * f32_of_nat cells)"

text \<open>The counts behind \<open>trace_transition_rate\<close>, over the windows of two states.\<close>

definition count_changes :: "nat \<times> nat \<Rightarrow> string \<times> string \<Rightarrow> nat \<times> nat" where
  "count_changes = (\<lambda>counts (left, right).
     foldl (\<lambda>(changed, cells) (a, b). (changed + of_bool (a \<noteq> b), cells + 1)) counts (zip left right))"

definition transition_counts :: "string list \<Rightarrow> nat \<times> nat" where
  "transition_counts frames = foldl count_changes (0, 0) (zip frames (tl frames))"

definition collapsed :: "string \<Rightarrow> bool" where
  "collapsed state \<longleftrightarrow>
     list_all (\<lambda>byte. byte = CHR ''0'') state \<or> list_all (\<lambda>byte. byte = CHR ''1'') state"

fun is_degenerate_spec :: "sample_spec \<Rightarrow> bool" where
  "is_degenerate_spec (EcaSample s) =
     (let unique = length (remdups (eca_states s));
          collapsed_final = (eca_states s \<noteq> [] \<and> collapsed (last (eca_states s)))
      in 1 < eca_steps s
         \<and> (unique \<le> 2 \<or> below_three_percent (transition_counts (eca_states s)) \<or> collapsed_final))"
| "is_degenerate_spec (SimulationSample s) =
     (1 < sim_steps s
      \<and> (below_three_percent (transition_counts (sim_source_trace s))
         \<or> below_three_percent (transition_counts (sim_target_trace s))))"
| "is_degenerate_spec (AutomatonSample s) =
     (let unique = length (remdups (aut_trace s))
      in 2 < aut_state_count s \<and> unique < min (aut_state_count s) 3)"
| "is_degenerate_spec (RewriteSample s) = (length (rw_trace s) \<le> 2)"
| "is_degenerate_spec (AlgebraSample s) = False"
| "is_degenerate_spec (CategorySample s) = False"
| "is_degenerate_spec (ProofTreeSample s) = False"
| "is_degenerate_spec (FormalProofSample s) = False"
| "is_degenerate_spec (LeanTaskSample s) = False"
| "is_degenerate_spec (HashNoiseSample s) = False"

end
