(* ===== verification/Ruliad_Oracle_Gen.thy ===== *)
theory Ruliad_Oracle_Gen
  imports Ruliad_Oracle Ruliad_Formal
begin

text \<open>
  The generators of \<open>ruliad/oracles.rs\<close>: the draw of a family and of a task, the scaling of a
  family with the difficulty level, one generator per family (with the bounded retries of the
  four families that reject degenerate samples), and \<open>generate_sample\<close>, which verifies what it
  drew before it returns it. A generator returns its outcome with the new state of the random
  generator; the search of a prime that never ends is the value \<open>None\<close> of \<open>next_prime_at_least\<close>.
\<close>

section \<open>Random state of a sample\<close>

datatype sample_split = TrainSplit | ValidationSplit

definition ruliad_verifier_version :: u32 where
  "ruliad_verifier_version = 9"

definition train_split_tag :: u64 where
  "train_split_tag = 0xA11CE5EDD15CA11A"

definition val_split_tag :: u64 where
  "val_split_tag = 0xBADC0FFEE5E17A1D"

definition sample_rng :: "u64 \<Rightarrow> sample_split \<Rightarrow> nat \<Rightarrow> nat \<Rightarrow> u64 \<Rightarrow> split_mix64" where
  "sample_rng seed split epoch_index sample_index bucket_tag =
     (let effective_epoch = (case split of TrainSplit \<Rightarrow> epoch_index | ValidationSplit \<Rightarrow> 0);
          split_tag = (case split of TrainSplit \<Rightarrow> train_split_tag | ValidationSplit \<Rightarrow> val_split_tag);
          mixed = (if bucket_tag = 0
            then mix_seed seed [split_tag, of_nat effective_epoch, of_nat sample_index]
            else mix_seed seed [split_tag, of_nat effective_epoch, of_nat sample_index, bucket_tag])
      in split_mix64_new mixed)"

section \<open>Choosing a family and a task\<close>

fun ticket_family :: "ruliad_family_config list \<Rightarrow> nat \<Rightarrow> ruliad_family_config option" where
  "ticket_family [] ticket = None"
| "ticket_family (family # families) ticket =
     (if ticket < family_weight family then Some family
      else ticket_family families (ticket - family_weight family))"

text \<open>The plain sum of the weights overflows past \<open>usize::MAX\<close>.\<close>

definition choose_family ::
    "ruliad_family_config list \<Rightarrow> split_mix64 \<Rightarrow> ruliad_family_config outcome \<times> split_mix64" where
  "choose_family families rng =
     (if families = [] then (Failed ''ruliad families must not be empty'', rng)
      else
        let weight_sum = sum_list (map family_weight families) in
        if usize_max < weight_sum then (Panicked, rng)
        else
          case next_index (max weight_sum 1) rng of (ticket, rng') \<Rightarrow>
            (Returned (case ticket_family families ticket of
               Some family \<Rightarrow> family | None \<Rightarrow> last families), rng'))"

fun ticket_task :: "(ruliad_task_kind \<times> nat) list \<Rightarrow> nat \<Rightarrow> ruliad_task_kind" where
  "ticket_task [] draw = ConstructProof"
| "ticket_task ((task, weight) # weights) draw =
     (if draw < weight then task else ticket_task weights (draw - weight))"

definition formal_task_weights :: "formal_task_mix_config \<Rightarrow> (ruliad_task_kind \<times> nat) list" where
  "formal_task_weights mix =
     [(AdvanceProof, mix_advance_proof_weight mix), (SelectProofAction, mix_select_proof_action_weight mix),
      (ConstructProof, mix_construct_proof_weight mix), (CheckProof, mix_check_proof_weight mix)]"

definition choose_formal_task ::
    "formal_task_mix_config \<Rightarrow> split_mix64 \<Rightarrow> ruliad_task_kind outcome \<times> split_mix64" where
  "choose_formal_task mix rng =
     (let weights = formal_task_weights mix; weight_sum = sum_list (map snd weights) in
      if usize_max < weight_sum then (Panicked, rng)
      else case next_index (max weight_sum 1) rng of (draw, rng') \<Rightarrow>
        (Returned (ticket_task weights draw), rng'))"

fun formal_generation_split :: "formal_generalization \<Rightarrow> sample_split \<Rightarrow> generation_split" where
  "formal_generation_split SeedDisjointV1 split = SharedSplit"
| "formal_generation_split StructuralHoldoutV1 TrainSplit = StructuralTrainV1"
| "formal_generation_split StructuralHoldoutV1 ValidationSplit = StructuralValidationV1"

section \<open>Difficulty levels\<close>

definition cap_range :: "nat \<Rightarrow> usize_range \<Rightarrow> usize_range" where
  "cap_range max_value r =
     (let r' = r\<lparr> range_min := min (range_min r) max_value \<rparr>
      in r'\<lparr> range_max := max (min (range_max r') max_value) (range_min r') \<rparr>)"

fun payload_caps :: "ruliad_family_kind \<Rightarrow> nat option \<times> nat option" where
  "payload_caps FamilyEca = (Some 128, Some 64)"
| "payload_caps FamilySimulation = (Some 128, Some 64)"
| "payload_caps FamilyAutomaton = (Some 48, Some 128)"
| "payload_caps FamilyRewrite = (Some 128, Some 96)"
| "payload_caps FamilyAlgebra = (Some 64, None)"
| "payload_caps FamilyCategory = (Some 48, Some 64)"
| "payload_caps FamilyProofTree = (Some 4096, Some 4096)"
| "payload_caps FamilyFormalProof = (None, None)"
| "payload_caps FamilyLeanTask = (None, None)"
| "payload_caps FamilyHashNoise = (None, None)"

definition cap_scaled_family_for_payload :: "ruliad_family_config \<Rightarrow> ruliad_family_config" where
  "cap_scaled_family_for_payload family =
     (case payload_caps (family_kind family) of (max_width, max_steps) \<Rightarrow>
       let cap = (\<lambda>limit r. case limit of None \<Rightarrow> r | Some m \<Rightarrow> map_option (cap_range m) r)
       in family\<lparr> family_width := cap max_width (family_width family),
                  family_steps := cap max_steps (family_steps family) \<rparr>)"

definition scale_range :: "nat \<Rightarrow> usize_range \<Rightarrow> usize_range" where
  "scale_range level r =
     (let stride = max (max (range_max r - range_min r) 1 div 2) 1;
          bump = sat_mul stride level
      in r\<lparr> range_min := sat_add (range_min r) bump,
            range_max := sat_add (range_max r) (sat_mul bump 2) \<rparr>)"

definition scale_family_for_difficulty :: "ruliad_family_config \<Rightarrow> nat \<Rightarrow> ruliad_family_config" where
  "scale_family_for_difficulty family difficulty_level =
     (if difficulty_level = 0 then family
      else
        let level = (if family_kind family = FamilyFormalProof
                     then sat_add (ilog2 (sat_add difficulty_level 1)) 1
                     else min difficulty_level 4096)
        in cap_scaled_family_for_payload
             (family\<lparr> family_width := map_option (scale_range level) (family_width family),
                      family_steps := map_option (scale_range level) (family_steps family) \<rparr>))"

section \<open>Retries\<close>

text \<open>The loop of the generators that reject degenerate samples: it returns the first sample that
  is not degenerate and else the last one it drew; an error or a panic of a draw ends it.\<close>

fun draw_until ::
    "('s \<Rightarrow> 'a outcome \<times> 's) \<Rightarrow> ('a \<Rightarrow> bool) \<Rightarrow> string \<Rightarrow> nat \<Rightarrow> 'a option \<Rightarrow> 's \<Rightarrow> 'a outcome \<times> 's" where
  "draw_until draw degenerate message 0 fallback rng = (ok_or message fallback, rng)"
| "draw_until draw degenerate message (Suc rounds) fallback rng =
     (case draw rng of
        (Returned s, rng') \<Rightarrow>
          if degenerate s then draw_until draw degenerate message rounds (Some s) rng'
          else (Returned s, rng')
      | (Failed e, rng') \<Rightarrow> (Failed e, rng')
      | (Panicked, rng') \<Rightarrow> (Panicked, rng'))"

section \<open>Cellular automata\<close>

definition draw_eca :: "ruliad_family_config \<Rightarrow> split_mix64 \<Rightarrow> sample_spec outcome \<times> split_mix64" where
  "draw_eca family rng =
     (case range_or (family_width family) 16 32 rng of (width, rng1) \<Rightarrow>
      case range_or (family_steps family) 4 10 rng1 of (steps, rng2) \<Rightarrow>
      case next_u8 rng2 of (rule, rng3) \<Rightarrow>
      case random_state width rng3 of (initial, rng4) \<Rightarrow>
        (Returned (EcaSample
          \<lparr> eca_rule = rule, eca_width = width, eca_steps = steps, eca_initial = format_state initial,
            eca_states = map format_state (eca_trace rule initial steps),
            eca_task = (if steps \<le> 1 then NextState else MultiStepState) \<rparr>), rng4))"

definition generate_eca_spec :: "ruliad_family_config \<Rightarrow> split_mix64 \<Rightarrow> sample_spec outcome \<times> split_mix64" where
  "generate_eca_spec family rng =
     draw_until (draw_eca family) is_degenerate_spec ''failed to generate ECA ruliad sample'' 64 None rng"

definition draw_simulation :: "ruliad_family_config \<Rightarrow> split_mix64 \<Rightarrow> sample_spec outcome \<times> split_mix64" where
  "draw_simulation family rng =
     (case range_or (family_width family) 16 32 rng of (width, rng1) \<Rightarrow>
      case range_or (family_steps family) 4 8 rng1 of (steps, rng2) \<Rightarrow>
      case next_u8 rng2 of (source_rule, rng3) \<Rightarrow>
      case random_state width rng3 of (source_initial, rng4) \<Rightarrow>
      let target_rule = complement_rule source_rule;
          target_initial = complement_state source_initial;
          source_trace = eca_trace source_rule source_initial steps;
          target_trace = eca_trace target_rule target_initial steps;
          mapped_source_trace = map complement_state source_trace
      in (Returned (SimulationSample
        \<lparr> sim_source_rule = source_rule, sim_target_rule = target_rule, sim_width = width,
          sim_steps = steps, sim_source_initial = format_state source_initial,
          sim_target_initial = format_state target_initial,
          sim_source_trace = map format_state source_trace,
          sim_target_trace = map format_state target_trace,
          sim_mapped_trace = map format_state mapped_source_trace, sim_task = VerifySimulation \<rparr>), rng4))"

definition generate_simulation_spec ::
    "ruliad_family_config \<Rightarrow> split_mix64 \<Rightarrow> sample_spec outcome \<times> split_mix64" where
  "generate_simulation_spec family rng =
     draw_until (draw_simulation family) is_degenerate_spec ''failed to generate simulation ruliad sample''
       128 None rng"

section \<open>Automata\<close>

fun draw_rows :: "nat \<Rightarrow> nat \<Rightarrow> split_mix64 \<Rightarrow> nat list list \<times> split_mix64" where
  "draw_rows state_count 0 rng = ([], rng)"
| "draw_rows state_count (Suc k) rng =
     (case draw_indices state_count 2 rng of (row, rng1) \<Rightarrow>
      case draw_rows state_count k rng1 of (rows, rng2) \<Rightarrow> (row # rows, rng2))"

fun draw_subset :: "nat list \<Rightarrow> split_mix64 \<Rightarrow> nat list \<times> split_mix64" where
  "draw_subset [] rng = ([], rng)"
| "draw_subset (x # xs) rng =
     (case next_bool rng of (keep, rng1) \<Rightarrow>
      case draw_subset xs rng1 of (ys, rng2) \<Rightarrow> (if keep then x # ys else ys, rng2))"

fun draw_bits :: "nat \<Rightarrow> split_mix64 \<Rightarrow> string \<times> split_mix64" where
  "draw_bits 0 rng = ([], rng)"
| "draw_bits (Suc k) rng =
     (case next_bool rng of (b, rng1) \<Rightarrow>
      case draw_bits k rng1 of (bits, rng2) \<Rightarrow>
        ((if b then CHR ''1'' else CHR ''0'') # bits, rng2))"

definition accept_states :: "nat \<Rightarrow> nat list \<Rightarrow> nat list" where
  "accept_states state_count drawn =
     remdups_adj (sort
       (if drawn = [] \<or> length drawn = state_count
        then filter (\<lambda>state. state mod 2 = 0) [0..<state_count] else drawn))"

definition draw_automaton :: "ruliad_family_config \<Rightarrow> split_mix64 \<Rightarrow> sample_spec outcome \<times> split_mix64" where
  "draw_automaton family rng =
     (case range_or (family_width family) 3 8 rng of (state_count, rng1) \<Rightarrow>
      case range_or (family_steps family) 6 20 rng1 of (input_len, rng2) \<Rightarrow>
      case draw_rows state_count state_count rng2 of (transitions, rng3) \<Rightarrow>
      case next_index state_count rng3 of (start_state, rng4) \<Rightarrow>
      case draw_subset [0..<state_count] rng4 of (drawn, rng5) \<Rightarrow>
      case draw_bits input_len rng5 of (input, rng6) \<Rightarrow>
        (outcome_bind
          (ok_or ''generated invalid automaton trace''
            (automaton_trace state_count transitions start_state input))
          (\<lambda>visited. Returned (AutomatonSample
            \<lparr> aut_state_count = state_count, aut_transitions = transitions, aut_start = start_state,
              aut_accept = accept_states state_count drawn, aut_input = input, aut_trace = visited,
              aut_accepted = (visited \<noteq> [] \<and> last visited \<in> set (accept_states state_count drawn)),
              aut_task = EvaluateAutomaton \<rparr>)), rng6))"

definition generate_automaton_spec ::
    "ruliad_family_config \<Rightarrow> split_mix64 \<Rightarrow> sample_spec outcome \<times> split_mix64" where
  "generate_automaton_spec family rng =
     draw_until (draw_automaton family) is_degenerate_spec ''failed to generate automaton ruliad sample''
       64 None rng"

section \<open>String rewriting\<close>

definition rewrite_candidates :: "string_rule list" where
  "rewrite_candidates =
     [\<lparr> rule_from = ''AA'', rule_to = ''A'' \<rparr>, \<lparr> rule_from = ''BB'', rule_to = ''B'' \<rparr>,
      \<lparr> rule_from = ''CC'', rule_to = ''C'' \<rparr>, \<lparr> rule_from = ''AB'', rule_to = ''C'' \<rparr>,
      \<lparr> rule_from = ''BA'', rule_to = ''A'' \<rparr>, \<lparr> rule_from = ''BC'', rule_to = ''A'' \<rparr>,
      \<lparr> rule_from = ''CB'', rule_to = ''B'' \<rparr>, \<lparr> rule_from = ''AC'', rule_to = ''B'' \<rparr>,
      \<lparr> rule_from = ''CA'', rule_to = ''C'' \<rparr>]"

definition shuffle_rules :: "string_rule list \<Rightarrow> split_mix64 \<Rightarrow> string_rule list \<times> split_mix64" where
  "shuffle_rules rules rng = shuffle_loop next_index (length rules - 1) rules rng"

definition draw_word :: "string \<Rightarrow> nat \<Rightarrow> split_mix64 \<Rightarrow> string \<times> split_mix64" where
  "draw_word symbols len rng =
     (case draw_indices (length symbols) len rng of (indices, rng') \<Rightarrow> (map ((!) symbols) indices, rng'))"

definition draw_rewrite ::
    "string \<Rightarrow> string_rule list \<Rightarrow> nat \<Rightarrow> nat \<Rightarrow> split_mix64 \<Rightarrow> sample_spec outcome \<times> split_mix64" where
  "draw_rewrite alphabet rules initial_len steps rng =
     (case draw_word alphabet initial_len rng of (initial, rng1) \<Rightarrow>
      let visited = rewrite_trace initial rules steps in
        (Returned (RewriteSample
          \<lparr> rw_alphabet = alphabet, rw_rules = rules, rw_initial = initial, rw_steps = steps,
            rw_trace = visited, rw_normal_form = (if visited = [] then initial else last visited),
            rw_task = RewriteNormalForm \<rparr>), rng1))"

definition generate_rewrite_spec ::
    "ruliad_family_config \<Rightarrow> split_mix64 \<Rightarrow> sample_spec outcome \<times> split_mix64" where
  "generate_rewrite_spec family rng =
     (case range_or (family_width family) 8 20 rng of (initial_len, rng1) \<Rightarrow>
      case range_or (family_steps family) 4 12 rng1 of (steps, rng2) \<Rightarrow>
      case shuffle_rules rewrite_candidates rng2 of (candidates, rng3) \<Rightarrow>
      case range_usize 3 5 rng3 of (drawn, rng4) \<Rightarrow>
      let rule_count = min drawn (length candidates); rules = take rule_count candidates in
        draw_until (draw_rewrite ''ABC'' rules initial_len steps) is_degenerate_spec
          ''failed to generate rewrite ruliad sample'' 64 None rng4)"

section \<open>Algebra\<close>

definition add_mod_table :: "nat \<Rightarrow> nat list list" where
  "add_mod_table carrier_size =
     map (\<lambda>left. map (\<lambda>right. (left + right) mod carrier_size) [0..<carrier_size]) [0..<carrier_size]"

definition affine_mod_table :: "nat \<Rightarrow> nat \<Rightarrow> nat \<Rightarrow> nat \<Rightarrow> nat list list" where
  "affine_mod_table carrier_size left_weight right_weight bias =
     map (\<lambda>left. map (\<lambda>right. (left_weight * left + right_weight * right + bias) mod carrier_size)
       [0..<carrier_size]) [0..<carrier_size]"

fun operand_count :: "algebra_law \<Rightarrow> nat" where
  "operand_count Associativity = 3"
| "operand_count Commutativity = 2"

definition generate_algebra_spec ::
    "ruliad_family_config \<Rightarrow> split_mix64 \<Rightarrow> sample_spec outcome \<times> split_mix64" where
  "generate_algebra_spec family rng =
     (case range_or (family_width family) 2 6 rng of (carrier_size, rng1) \<Rightarrow>
      case next_bool rng1 of (use_addition, rng2) \<Rightarrow>
      let table = (if use_addition \<or> carrier_size \<le> 2 then add_mod_table carrier_size
                   else affine_mod_table carrier_size 1 2 1) in
      case next_bool rng2 of (associative, rng3) \<Rightarrow>
      let law = (if associative then Associativity else Commutativity) in
      case draw_indices carrier_size (operand_count law) rng3 of (operands, rng4) \<Rightarrow>
        (outcome_bind
          (ok_or ''generated invalid algebra law probe'' (algebra_law_result carrier_size table law operands))
          (\<lambda>(lhs, rhs). Returned (AlgebraSample
            \<lparr> alg_carrier = carrier_size, alg_table = table, alg_law = law, alg_operands = operands,
              alg_lhs = lhs, alg_rhs = rhs, alg_holds = (lhs = rhs), alg_task = CheckAlgebraLaw \<rparr>)), rng4))"

section \<open>Categories\<close>

definition generate_category_spec_for_task ::
    "ruliad_family_config \<Rightarrow> ruliad_task_kind \<Rightarrow> split_mix64 \<Rightarrow> sample_spec outcome \<times> split_mix64" where
  "generate_category_spec_for_task family task rng =
     (case generate_category_fields family task rng of (drawn, rng') \<Rightarrow>
       (outcome_bind drawn (\<lambda>s. Returned (CategorySample s)), rng'))"

definition generate_category_spec ::
    "ruliad_family_config \<Rightarrow> split_mix64 \<Rightarrow> sample_spec outcome \<times> split_mix64" where
  "generate_category_spec family rng =
     (case next_index 4 rng of (draw, rng') \<Rightarrow>
       generate_category_spec_for_task family
         (if draw = 0 then ComposeCategoryPath else if draw = 1 then VerifyCategoryLaw
          else if draw = 2 then VerifyFunctorPreservation else VerifyNaturalitySquare) rng')"

section \<open>Proof trees\<close>

definition proof_tree_lemmas :: "nat \<Rightarrow> nat \<Rightarrow> string list" where
  "proof_tree_lemmas modulus depth =
     [''L0:dot=x0*y0+x1*y1 mod '' @ show_nat modulus, ''L1:n=x0*x0+x1*x1 mod '' @ show_nat modulus,
      ''L2:n(x+y)=n(x)+n(y)+2dot'', ''L3:dot0=>cross0'']
     @ map (\<lambda>i. ''L'' @ show_nat i @ '':subst'') [4..<depth]"

definition vec_text :: "vec2 \<Rightarrow> string" where
  "vec_text v = ''('' @ show_nat (fst v) @ '','' @ show_nat (snd v) @ '')''"

definition proof_tree_steps ::
    "nat \<Rightarrow> vec2 \<Rightarrow> vec2 \<Rightarrow> vec2 \<Rightarrow> nat \<Rightarrow> nat \<Rightarrow> nat \<Rightarrow> nat \<Rightarrow> nat \<Rightarrow> string list" where
  "proof_tree_steps modulus u v total_vec dot norm_u norm_v norm_sum rhs =
     [''u='' @ vec_text u @ '';v='' @ vec_text v @ '';m='' @ show_nat modulus,
      ''dot='' @ show_nat (fst u) @ ''*'' @ show_nat (fst v) @ ''+'' @ show_nat (snd u) @ ''*''
        @ show_nat (snd v) @ ''='' @ show_nat dot,
      ''sum='' @ vec_text total_vec @ '';n(sum)='' @ show_nat norm_sum,
      ''n(u)+n(v)='' @ show_nat norm_u @ ''+'' @ show_nat norm_v @ ''='' @ show_nat rhs,
      ''close:L2,dot0'']"

text \<open>The orthogonal vector \<open>(u1 * scale, - (u0 * scale))\<close> modulo the prime.\<close>

definition orthogonal_vec :: "vec2 \<Rightarrow> nat \<Rightarrow> nat \<Rightarrow> vec2 option" where
  "orthogonal_vec u scale modulus =
     Option.bind (checked_mul (snd u) scale) (\<lambda>a. Option.bind (checked_mod a modulus) (\<lambda>x.
     Option.bind (checked_mul (fst u) scale) (\<lambda>b. Option.bind (checked_mod b modulus) (\<lambda>y.
       Some (x, (modulus - y) mod modulus)))))"

definition proof_tree_of :: "nat \<Rightarrow> nat \<Rightarrow> vec2 \<Rightarrow> nat \<Rightarrow> proof_tree_spec option" where
  "proof_tree_of modulus depth u scale =
     Option.bind (orthogonal_vec u scale modulus) (\<lambda>v.
     Option.bind (mod_sum u v modulus) (\<lambda>total_vec.
     Option.bind (mod_dot u v modulus) (\<lambda>dot.
     Option.bind (mod_norm u modulus) (\<lambda>norm_u.
     Option.bind (mod_norm v modulus) (\<lambda>norm_v.
     Option.bind (mod_norm total_vec modulus) (\<lambda>norm_sum.
     Option.bind (checked_add norm_u norm_v) (\<lambda>norms.
     Option.bind (checked_mod norms modulus) (\<lambda>rhs.
       Some \<lparr> pt_modulus = modulus, pt_u = u, pt_v = v, pt_sum = total_vec, pt_dot = dot,
              pt_norm_u = norm_u, pt_norm_v = norm_v, pt_norm_sum = norm_sum, pt_lhs = norm_sum,
              pt_rhs = rhs, pt_holds = (dot = 0 \<and> norm_sum = rhs),
              pt_lemmas = proof_tree_lemmas modulus depth,
              pt_proof_steps = proof_tree_steps modulus u v total_vec dot norm_u norm_v norm_sum rhs,
              pt_task = ProveTheorem \<rparr>))))))))"

text \<open>\<open>None\<close> when the search of the modulus does not end.\<close>

definition generate_proof_tree_spec ::
    "ruliad_family_config \<Rightarrow> split_mix64 \<Rightarrow> (sample_spec outcome \<times> split_mix64) option" where
  "generate_proof_tree_spec family rng =
     (case range_or (family_width family) 5 13 rng of (width, rng1) \<Rightarrow>
      Option.bind (next_prime_at_least (max width 5)) (\<lambda>modulus.
      case range_or (family_steps family) 4 9 rng1 of (drawn_depth, rng2) \<Rightarrow>
      case range_usize 1 (modulus - 1) rng2 of (u0, rng3) \<Rightarrow>
      case range_usize 1 (modulus - 1) rng3 of (u1, rng4) \<Rightarrow>
      case range_usize 1 (modulus - 1) rng4 of (scale, rng5) \<Rightarrow>
        Some (outcome_bind (expect (proof_tree_of modulus (max drawn_depth 4) (u0, u1) scale))
          (\<lambda>s. Returned (ProofTreeSample s)), rng5)))"

section \<open>Formal proofs\<close>

fun formal_task :: "ruliad_task_kind \<Rightarrow> bool" where
  "formal_task ConstructProof = True"
| "formal_task AdvanceProof = True"
| "formal_task SelectProofAction = True"
| "formal_task CheckProof = True"
| "formal_task _ = False"

definition formal_sample_config :: "nat \<Rightarrow> nat \<Rightarrow> generation_split \<Rightarrow> formal_config" where
  "formal_sample_config rewrite_depth leaf_count split =
     \<lparr> fc_domain = None, fc_rewrite_depth = rewrite_depth, fc_leaf_count = leaf_count,
       fc_context_depth = sat_add 1 (ilog2 rewrite_depth),
       fc_distractor_axioms = (rewrite_depth + 1) div 2, fc_generation_split = split \<rparr>"

definition draw_candidate ::
    "ruliad_task_kind \<Rightarrow> proof_certificate \<Rightarrow> split_mix64
       \<Rightarrow> proof_certificate option outcome \<times> split_mix64" where
  "draw_candidate task certificate rng =
     (if task = CheckProof then
        case next_bool rng of (valid, rng') \<Rightarrow>
          (if valid then Returned (Some certificate)
           else case corrupt_formal_certificate certificate of
             Inl e \<Rightarrow> Failed e | Inr c \<Rightarrow> Returned (Some c), rng')
      else (Returned None, rng))"

definition draw_step_index ::
    "ruliad_task_kind \<Rightarrow> proof_certificate \<Rightarrow> split_mix64 \<Rightarrow> nat option outcome \<times> split_mix64" where
  "draw_step_index task certificate rng =
     (if task = AdvanceProof \<or> task = SelectProofAction then
        if step_count certificate = 0 then (Failed ''advance-proof oracle certificate has no steps'', rng)
        else case next_index (step_count certificate) rng of (index, rng') \<Rightarrow> (Returned (Some index), rng')
      else (Returned None, rng))"

definition draw_rotation :: "ruliad_task_kind \<Rightarrow> split_mix64 \<Rightarrow> nat option \<times> split_mix64" where
  "draw_rotation task rng =
     (if task = SelectProofAction
      then case next_index default_action_candidates rng of (rotation, rng') \<Rightarrow> (Some rotation, rng')
      else (None, rng))"

definition formal_spec_of ::
    "ruliad_task_kind \<Rightarrow> action_answer_contract \<Rightarrow> proof_bundle \<Rightarrow> split_mix64
       \<Rightarrow> sample_spec outcome \<times> split_mix64" where
  "formal_spec_of task contract bundle rng =
     (let certificate = bundle_certificate bundle in
      case draw_candidate task certificate rng of
        (Returned candidate, rng1) \<Rightarrow>
          (case draw_step_index task certificate rng1 of
             (Returned step_index, rng2) \<Rightarrow>
               (case draw_rotation task rng2 of (rotation, rng3) \<Rightarrow>
                 (Returned (FormalProofSample
                   \<lparr> fp_problem = bundle_problem bundle, fp_certificate = certificate,
                     fp_candidate = candidate, fp_step_index = step_index, fp_rotation = rotation,
                     fp_contract = contract, fp_task = task \<rparr>), rng3))
           | (Failed e, rng2) \<Rightarrow> (Failed e, rng2)
           | (Panicked, rng2) \<Rightarrow> (Panicked, rng2))
      | (Failed e, rng1) \<Rightarrow> (Failed e, rng1)
      | (Panicked, rng1) \<Rightarrow> (Panicked, rng1))"

text \<open>The text after the message of an unsupported task is its \<open>Debug\<close> name, left out here.\<close>

definition generate_formal_spec ::
    "oracle_services \<Rightarrow> ruliad_family_config \<Rightarrow> ruliad_task_kind \<Rightarrow> action_answer_contract
       \<Rightarrow> generation_split \<Rightarrow> split_mix64 \<Rightarrow> sample_spec outcome \<times> split_mix64" where
  "generate_formal_spec env family task contract split rng =
     (if \<not> formal_task task then (Failed ''formal proof family does not support task '', rng)
      else
        case range_or (family_width family) 2 4 rng of (width, rng1) \<Rightarrow>
        case range_or (family_steps family) 2 4 rng1 of (steps, rng2) \<Rightarrow>
        case next_u64 rng2 of (seed, rng3) \<Rightarrow>
        (case generate_formal_bundle (os_problem_hash env) (os_debug env) seed
               (formal_sample_config (max steps 2) (max width 2) split) of
           Returned bundle \<Rightarrow> formal_spec_of task contract bundle rng3
         | Failed e \<Rightarrow> (Failed e, rng3)
         | Panicked \<Rightarrow> (Panicked, rng3)))"

section \<open>Lean tasks and noise\<close>

text \<open>\<open>{renaming:016x}\<close>.\<close>

definition show_renaming :: "u64 \<Rightarrow> string" where
  "show_renaming renaming =
     (let digits = show_hex (unat renaming) in replicate (16 - length digits) (CHR ''0'') @ digits)"

definition generate_lean_spec ::
    "(bytes \<Rightarrow> string) \<Rightarrow> lean_proof_task list \<Rightarrow> split_mix64 \<Rightarrow> sample_spec outcome \<times> split_mix64" where
  "generate_lean_spec sha proof_tasks rng =
     (let tasks = (if proof_tasks = [] then default_proof_tasks sha else proof_tasks) in
      case next_index (length tasks) rng of (index, rng1) \<Rightarrow>
      case next_u64 rng1 of (renaming, rng2) \<Rightarrow>
        (outcome_bind (expect (nth_opt tasks index)) (\<lambda>task.
          let instantiated =
            \<lparr> lean_id = lean_id task @ ''__r'' @ show_renaming renaming,
              lean_statement = lean_statement task @ '' [symbolic_renaming='' @ show_renaming renaming @ '']'',
              lean_proof = lean_proof task, lean_payload_hash = None \<rparr>
          in Returned (LeanTaskSample
            \<lparr> lt_task_id = lean_id instantiated, lt_statement = lean_statement instantiated,
              lt_proof = lean_proof instantiated,
              lt_payload_hash = computed_payload_hash sha instantiated, lt_task = CompleteProof \<rparr>)), rng2))"

fun draw_bytes :: "nat \<Rightarrow> split_mix64 \<Rightarrow> bytes \<times> split_mix64" where
  "draw_bytes 0 rng = ([], rng)"
| "draw_bytes (Suc k) rng =
     (case next_u8 rng of (b, rng1) \<Rightarrow> case draw_bytes k rng1 of (bs, rng2) \<Rightarrow> (b # bs, rng2))"

definition generate_hash_noise_spec :: "oracle_services \<Rightarrow> split_mix64 \<Rightarrow> sample_spec outcome \<times> split_mix64" where
  "generate_hash_noise_spec env rng =
     (case draw_bytes 32 rng of (bytes, rng') \<Rightarrow>
       (Returned (HashNoiseSample
         \<lparr> hn_bytes_hex = os_hex_encode env bytes, hn_payload_hash = os_sha env bytes,
           hn_task = HashCanary \<rparr>), rng'))"

section \<open>Generating a sample\<close>

definition family_spec ::
    "oracle_services \<Rightarrow> corpus_config \<Rightarrow> lean_proof_task list \<Rightarrow> sample_split \<Rightarrow> ruliad_family_kind
       \<Rightarrow> ruliad_family_config \<Rightarrow> split_mix64 \<Rightarrow> (sample_spec outcome \<times> split_mix64) option" where
  "family_spec env config proof_tasks split kind family rng =
     (case kind of
        FamilyEca \<Rightarrow> Some (generate_eca_spec family rng)
      | FamilySimulation \<Rightarrow> Some (generate_simulation_spec family rng)
      | FamilyAutomaton \<Rightarrow> Some (generate_automaton_spec family rng)
      | FamilyRewrite \<Rightarrow> Some (generate_rewrite_spec family rng)
      | FamilyAlgebra \<Rightarrow> Some (generate_algebra_spec family rng)
      | FamilyCategory \<Rightarrow> Some (generate_category_spec family rng)
      | FamilyProofTree \<Rightarrow> generate_proof_tree_spec family rng
      | FamilyFormalProof \<Rightarrow>
          (case choose_formal_task (ss_formal_task_mix (cc_source_selection config)) rng of
             (Returned task, rng') \<Rightarrow>
               Some (generate_formal_spec env family task
                 (mix_answer_contract (ss_formal_task_mix (cc_source_selection config)))
                 (formal_generation_split (cc_formal_generalization config) split) rng')
           | (Failed e, rng') \<Rightarrow> Some (Failed e, rng')
           | (Panicked, rng') \<Rightarrow> Some (Panicked, rng'))
      | FamilyLeanTask \<Rightarrow> Some (generate_lean_spec (os_sha env) proof_tasks rng)
      | FamilyHashNoise \<Rightarrow> Some (generate_hash_noise_spec env rng))"

text \<open>The part of \<open>finalize_generated_spec\<close> that decides: the report of the verifier, and the
  sample only if it is accepted. (Presentation, document and statistics are not modelled.)\<close>

definition finalize_generated_spec ::
    "oracle_services \<Rightarrow> sample_spec \<Rightarrow> (sample_spec \<times> oracle_report) outcome" where
  "finalize_generated_spec env s =
     outcome_bind (verify_spec env s) (\<lambda>report.
       if \<not> rep_ok report then Failed ''generated ruliad sample failed verifier''
       else Returned (s, report))"

definition generate_sample ::
    "oracle_services \<Rightarrow> corpus_config \<Rightarrow> lean_proof_task list \<Rightarrow> sample_split \<Rightarrow> nat \<Rightarrow> nat
       \<Rightarrow> (sample_spec \<times> oracle_report) outcome option" where
  "generate_sample env config proof_tasks split epoch_index sample_index =
     (case choose_family (cc_families config) (sample_rng (cc_seed config) split epoch_index sample_index 0) of
        (Returned family, rng1) \<Rightarrow>
          (case range_or (Some (ss_difficulty_levels (cc_source_selection config))) 0 0 rng1 of
             (difficulty_level, rng2) \<Rightarrow>
               map_option (\<lambda>(drawn, _). outcome_bind drawn (finalize_generated_spec env))
                 (family_spec env config proof_tasks split (family_kind family)
                    (scale_family_for_difficulty family difficulty_level) rng2))
      | (Failed e, rng1) \<Rightarrow> Some (Failed e)
      | (Panicked, rng1) \<Rightarrow> Some Panicked)"

text \<open>\<open>generate_sample_for_source_bucket\<close>: the bucket fixes the family, the task, the family
  configuration and a tag mixed into the seed.\<close>

definition generate_bucket_sample ::
    "oracle_services \<Rightarrow> corpus_config \<Rightarrow> lean_proof_task list \<Rightarrow> sample_split \<Rightarrow> nat \<Rightarrow> nat
       \<Rightarrow> ruliad_family_kind \<Rightarrow> ruliad_task_kind \<Rightarrow> ruliad_family_config \<Rightarrow> u64
       \<Rightarrow> (sample_spec \<times> oracle_report) outcome option" where
  "generate_bucket_sample env config proof_tasks split epoch_index sample_index kind task family tag =
     (let rng = sample_rng (cc_seed config) split epoch_index sample_index tag in
      map_option (\<lambda>(drawn, _). outcome_bind drawn (finalize_generated_spec env))
        (case kind of
           FamilyCategory \<Rightarrow> Some (generate_category_spec_for_task family task rng)
         | FamilyFormalProof \<Rightarrow>
             Some (generate_formal_spec env family task
               (mix_answer_contract (ss_formal_task_mix (cc_source_selection config)))
               (formal_generation_split (cc_formal_generalization config) split) rng)
         | _ \<Rightarrow> family_spec env config proof_tasks split kind family rng))"

section \<open>Meaning of a sample\<close>

fun formal_domain_areas :: "ruliad_formal_domain \<Rightarrow> ruliad_math_domain list" where
  "formal_domain_areas Equational = [DomainSymbolicRewriting, DomainUniversalAlgebra]"
| "formal_domain_areas Category = [DomainCategoryTheory]"
| "formal_domain_areas Logic = [DomainLogic]"
| "formal_domain_areas Automata = [DomainComputationTheory]"
| "formal_domain_areas Process = [DomainProcessCalculus]"
| "formal_domain_areas Metagraph = [DomainMetagraphRewriting]"

definition ruliad_sample_math_domains :: "sample_spec \<Rightarrow> ruliad_math_domain list" where
  "ruliad_sample_math_domains s =
     (case s of
        FormalProofSample f \<Rightarrow> formal_domain_areas (problem_domain (fp_problem f)) @ [DomainFormalProof]
      | _ \<Rightarrow> sem_math_domains (ruliad_source_semantics (family_of_spec s) (task_kind_of_spec s)))"

definition ruliad_sample_reasoning_modes :: "sample_spec \<Rightarrow> ruliad_reasoning_mode list" where
  "ruliad_sample_reasoning_modes s =
     sem_reasoning_modes (ruliad_source_semantics (family_of_spec s) (task_kind_of_spec s))"

end
