(* ===== verification/Ruliad_Oracle_Laws.thy ===== *)
theory Ruliad_Oracle_Laws
  imports Ruliad_Oracle
begin

text \<open>
  The interpreters behind the samples against what they stand for: trial division against
  primality, the search of a prime against the least prime above a number, string rewriting
  against the leftmost redex, and the \<open>f32\<close> comparison of a rate against the fraction.
\<close>

section \<open>Trial division\<close>

definition prime_number :: "nat \<Rightarrow> bool" where
  "prime_number n \<longleftrightarrow> 2 \<le> n \<and> (\<forall>d. d dvd n \<longrightarrow> d = 1 \<or> d = n)"

lemma odd_usize_max: "odd usize_max"
  by (simp add: usize_max_def)

lemma sat_mul_self_ge: "0 < d \<Longrightarrow> d \<le> usize_max \<Longrightarrow> d \<le> sat_mul d d"
  by (cases d) (auto simp: sat_mul_def)

lemma small_divisor:
  fixes n :: nat
  assumes "e dvd n" "e \<noteq> 1" "e \<noteq> n" "0 < n" "n < d * d"
  obtains k where "k dvd n" "1 < k" "k < d"
proof -
  obtain f where f: "n = e * f" using assms(1) by (auto elim: dvdE)
  have "1 < e" using assms f by (cases "e = 0") auto
  moreover have "1 < f" using assms f by (cases "f = 0 \<or> f = 1") auto
  ultimately show thesis
  proof (cases "e < d")
    case False
    have "f < d"
    proof (rule ccontr)
      assume "\<not> f < d"
      then have "d * d \<le> e * f" using False by (intro mult_le_mono) simp_all
      then show False using assms(5) f by simp
    qed
    then show thesis using \<open>1 < f\<close> f that [of f] by simp
  qed (use assms(1) that in blast)
qed

lemma divisor_loop_decides:
  assumes "odd n" "n \<le> usize_max" "odd d" "3 \<le> d" "d \<le> n" "\<forall>k. 1 < k \<and> k < d \<longrightarrow> \<not> k dvd n"
  shows "divisor_loop n d = Some (prime_number n)"
  using assms(3-6)
proof (induction "n - d" arbitrary: d rule: less_induct)
  case less
  show ?case
  proof (cases "sat_mul d d \<le> n")
    case False
    then have "n < d * d" by (auto simp: sat_mul_def)
    then have "prime_number n"
      using less.prems small_divisor [of _ n d] by (auto simp: prime_number_def)
    with False show ?thesis by (subst divisor_loop.simps) simp
  next
    case True
    show ?thesis
    proof (cases "d dvd n")
      case divides: True
      have "d < n"
      proof (rule ccontr)
        assume "\<not> d < n"
        then have "d = n" using less.prems(3) by simp
        then have "min usize_max (n * n) \<le> n" using True by (simp add: sat_mul_def)
        moreover have "n < n * n" using less.prems by simp
        ultimately have "n = usize_max" using assms(2) by linarith
        moreover have "3 dvd usize_max" by (simp add: usize_max_def)
        moreover have "3 \<noteq> usize_max" by (simp add: usize_max_def)
        ultimately show False using less.prems(4) \<open>d = n\<close> less.prems(2) by (auto dest: spec [of _ 3])
      qed
      then have "\<not> prime_number n" using divides less.prems(2) by (auto simp: prime_number_def dest: spec [of _ d])
      with True divides show ?thesis by (subst divisor_loop.simps) (simp add: dvd_eq_mod_eq_0)
    next
      case False
      then have "d < n" using less.prems(3) by (cases "d = n") auto
      then have "d + 2 \<le> n" using less.prems(1) assms(1) by (metis Suc_leI add_2_eq_Suc' even_Suc le_eq_less_or_eq)
      then have d': "sat_add d 2 = d + 2" using assms(2) by (intro sat_add_exact) simp
      have "\<not> (d + 1) dvd n" using less.prems(1) assms(1) by (metis dvd_trans even_plus_one_iff)
      then have "\<forall>k. 1 < k \<and> k < d + 2 \<longrightarrow> \<not> k dvd n"
        using less.prems(4) False by (auto simp: less_Suc_eq)
      then have "divisor_loop n (d + 2) = Some (prime_number n)"
        using less.prems \<open>d < n\<close> \<open>d + 2 \<le> n\<close> by (intro less.hyps) auto
      with True False d' show ?thesis by (subst divisor_loop.simps) (simp add: dvd_eq_mod_eq_0)
    qed
  qed
qed

lemma is_prime_decides:
  assumes "n \<le> usize_max"
  shows "is_prime n = Some (prime_number n)"
proof (cases "n < 2 \<or> n = 2 \<or> n mod 2 = 0")
  case True
  have "prime_number 2"
  proof -
    have "d = 1 \<or> d = 2" if "d dvd 2" for d :: nat
      using dvd_imp_le [OF that] that by (cases "d = 0") auto
    then show ?thesis by (auto simp: prime_number_def)
  qed
  moreover have "\<not> prime_number n" if "2 < n" "n mod 2 = 0"
    using that by (auto simp: prime_number_def dvd_eq_mod_eq_0 intro!: exI [of _ 2])
  ultimately show ?thesis using True by (auto simp: is_prime_def) (auto simp: prime_number_def)
next
  case False
  then have "odd n" "3 \<le> n" by (auto simp: odd_iff_mod_2_eq_one)
  moreover have "\<not> k dvd n" if "1 < k" "k < 3" for k
  proof -
    have "k = 2" using that by simp
    then show ?thesis using \<open>odd n\<close> by simp
  qed
  ultimately have "divisor_loop n 3 = Some (prime_number n)"
    using assms by (intro divisor_loop_decides) auto
  then show ?thesis using False by (simp add: is_prime_def)
qed

section \<open>The next prime\<close>

lemma prime_loop_finds:
  assumes "prime_number p" "c \<le> p" "p \<le> usize_max"
  shows "\<exists>q. prime_loop c = Some q"
  using assms(2)
proof (induction "p - c" arbitrary: c)
  case 0
  then have "c = p" by simp
  then show ?case using assms by (subst prime_loop.simps) (simp add: is_prime_decides)
next
  case (Suc k)
  then have c: "c < p" by simp
  then have "sat_add c 1 = c + 1" using assms(3) by (intro sat_add_exact) simp
  moreover have "\<exists>q. prime_loop (c + 1) = Some q" using Suc c by (intro Suc.hyps(1)) auto
  ultimately show ?case using c assms(3) by (subst prime_loop.simps) (simp add: is_prime_decides)
qed

lemma prime_loop_sound:
  assumes "prime_loop c = Some q" and "c \<le> usize_max"
  shows "prime_number q \<and> c \<le> q \<and> q \<le> usize_max \<and> (\<forall>r. c \<le> r \<and> r < q \<longrightarrow> \<not> prime_number r)"
proof -
  have "c \<le> usize_max \<longrightarrow>
      prime_number q \<and> c \<le> q \<and> q \<le> usize_max \<and> (\<forall>r. c \<le> r \<and> r < q \<longrightarrow> \<not> prime_number r)"
    using assms(1)
  proof (rule prime_loop.raw_induct [rotated], goal_cases)
    case (1 f c q)
    show ?case
    proof
      assume c: "c \<le> usize_max"
      show "prime_number q \<and> c \<le> q \<and> q \<le> usize_max \<and> (\<forall>r. c \<le> r \<and> r < q \<longrightarrow> \<not> prime_number r)"
      proof (cases "prime_number c")
        case True
        then show ?thesis using 1(2) c by (auto simp: is_prime_decides)
      next
        case False
        then have "f (sat_add c 1) = Some q" using 1(2) c by (simp add: is_prime_decides)
        from 1(1) [OF this] have q: "prime_number q" "sat_add c 1 \<le> q" "q \<le> usize_max"
          "\<forall>r. sat_add c 1 \<le> r \<and> r < q \<longrightarrow> \<not> prime_number r" by simp_all
        have "c \<le> sat_add c 1" using c by (simp add: sat_add_def)
        moreover have "sat_add c 1 \<le> r" if "c \<le> r" "r < q" "r \<noteq> c" for r
          using that by (simp add: sat_add_def)
        ultimately show ?thesis using q False by (metis le_trans)
      qed
    qed
  qed
  then show ?thesis using assms(2) by simp
qed

lemma next_prime_iff:
  assumes "n \<le> usize_max"
  shows "next_prime_at_least n = Some p \<longleftrightarrow>
    prime_number p \<and> n \<le> p \<and> p \<le> usize_max \<and> (\<forall>q. n \<le> q \<and> q < p \<longrightarrow> \<not> prime_number q)"
    (is "_ \<longleftrightarrow> ?least p")
proof -
  have m: "max n 2 \<le> usize_max" using assms by (simp add: usize_max_def)
  have two: "max n 2 \<le> q \<longleftrightarrow> n \<le> q" if "prime_number q" for q using that by (auto simp: prime_number_def)
  have sound: "?least q" if "next_prime_at_least n = Some q" for q
    using prime_loop_sound [of "max n 2" q] that m two
    unfolding next_prime_at_least_def by metis
  show ?thesis
  proof
    assume p: "?least p"
    then obtain q where q: "next_prime_at_least n = Some q"
      using prime_loop_finds [of p "max n 2"] two unfolding next_prime_at_least_def by blast
    with sound [OF q] p show "next_prime_at_least n = Some p" by (metis linorder_neqE_nat)
  qed (rule sound)
qed

lemma next_prime_returns_iff:
  assumes "n \<le> usize_max"
  shows "(\<exists>p. next_prime_at_least n = Some p) \<longleftrightarrow> (\<exists>p. prime_number p \<and> n \<le> p \<and> p \<le> usize_max)"
proof
  assume "\<exists>p. prime_number p \<and> n \<le> p \<and> p \<le> usize_max"
  then obtain p where p: "prime_number p \<and> n \<le> p \<and> p \<le> usize_max" by blast
  then have "max n 2 \<le> p" by (simp add: prime_number_def)
  with p show "\<exists>p. next_prime_at_least n = Some p"
    using prime_loop_finds [of p "max n 2"] by (simp add: next_prime_at_least_def)
qed (use next_prime_iff [OF assms] in blast)

lemma list_all_upt: "list_all P [a..<b] \<Longrightarrow> a \<le> d \<Longrightarrow> d < b \<Longrightarrow> P d"
  by (simp add: list_all_iff)

lemma prime_65537: "prime_number 65537"
proof -
  have "\<not> d dvd 65537" if "1 < d" "d < 257" for d :: nat
  proof -
    have "list_all (\<lambda>d. 65537 mod d \<noteq> 0) [2..<257]" by (simp add: upt_rec_numeral)
    from list_all_upt [OF this _ that(2)] that(1) show ?thesis by (simp add: dvd_eq_mod_eq_0)
  qed
  note none = this
  have "d = 1 \<or> d = 65537" if divides: "d dvd 65537" for d :: nat
  proof (rule ccontr)
    assume "\<not> (d = 1 \<or> d = 65537)"
    then obtain k :: nat where "k dvd 65537" "1 < k" "k < 257"
      by - (rule small_divisor [OF divides, of 257], simp_all)
    with none show False by blast
  qed
  then show ?thesis by (simp add: prime_number_def)
qed

section \<open>The leftmost redex\<close>

definition occurs_at :: "string \<Rightarrow> string \<Rightarrow> nat \<Rightarrow> bool" where
  "occurs_at needle hay p \<longleftrightarrow> (\<exists>front back_part. hay = front @ needle @ back_part \<and> length front = p)"

lemma occurs_at_0: "occurs_at needle hay 0 \<longleftrightarrow> take (length needle) hay = needle"
  by (auto simp: occurs_at_def) (metis append_take_drop_id)

lemma occurs_at_Suc: "occurs_at needle (c # rest) (Suc p) \<longleftrightarrow> occurs_at needle rest p"
  by (auto simp: occurs_at_def Cons_eq_append_conv length_Suc_conv)

lemma occurs_at_Nil: "occurs_at needle [] p \<longleftrightarrow> needle = [] \<and> p = 0"
  by (auto simp: occurs_at_def)

lemma str_find_least:
  "case str_find needle hay of
     None \<Rightarrow> \<forall>p. \<not> occurs_at needle hay p
   | Some p \<Rightarrow> occurs_at needle hay p \<and> (\<forall>q<p. \<not> occurs_at needle hay q)"
proof (induction hay)
  case Nil
  show ?case by (subst str_find.simps) (simp add: occurs_at_Nil)
next
  case (Cons c rest)
  show ?case
  proof (cases "take (length needle) (c # rest) = needle")
    case True
    then show ?thesis by (subst str_find.simps) (simp add: occurs_at_0)
  next
    case False
    then have find: "str_find needle (c # rest) = map_option Suc (str_find needle rest)"
      by (subst str_find.simps) simp
    have no: "\<not> occurs_at needle (c # rest) 0" using False by (simp add: occurs_at_0)
    have "occurs_at needle (c # rest) p \<longleftrightarrow> (\<exists>q. p = Suc q \<and> occurs_at needle rest q)" for p
      using no by (cases p) (auto simp: occurs_at_Suc)
    then show ?thesis using Cons.IH unfolding find by (auto split: option.splits simp: less_Suc_eq_0_disj)
  qed
qed

definition redex :: "string \<Rightarrow> string_rule list \<Rightarrow> nat \<Rightarrow> nat \<Rightarrow> bool" where
  "redex word rules p i \<longleftrightarrow>
     i < length rules \<and> rule_from (rules ! i) \<noteq> [] \<and> occurs_at (rule_from (rules ! i)) word p"

definition is_best :: "string \<Rightarrow> string_rule list \<Rightarrow> (nat \<times> nat) option \<Rightarrow> bool" where
  "is_best word rules best \<longleftrightarrow>
     (case best of
        None \<Rightarrow> \<forall>p i. \<not> redex word rules p i
      | Some (p, i) \<Rightarrow> redex word rules p i \<and> (\<forall>q j. redex word rules q j \<longrightarrow> p < q \<or> (p = q \<and> i \<le> j)))"

lemma redex_snoc:
  "redex word (rules @ [rule]) p i \<longleftrightarrow>
     redex word rules p i \<or> (i = length rules \<and> rule_from rule \<noteq> [] \<and> occurs_at (rule_from rule) word p)"
  by (auto simp: redex_def nth_append)

lemma best_match_best:
  "is_best word earlier best \<Longrightarrow> is_best word (earlier @ rules) (best_match word (length earlier) rules best)"
proof (induction rules arbitrary: earlier best)
  case (Cons rule rules)
  define best' where "best' =
    (if rule_from rule = [] then best
     else case str_find (rule_from rule) word of None \<Rightarrow> best
     | Some position \<Rightarrow>
         if (case best of None \<Rightarrow> True
             | Some (bp, bi) \<Rightarrow> position < bp \<or> (position = bp \<and> length earlier < bi))
         then Some (position, length earlier) else best)"
  have below: "i < length earlier" if "redex word earlier p i" for p i using that by (simp add: redex_def)
  have "is_best word (earlier @ [rule]) best'"
  proof (cases "rule_from rule = [] \<or> str_find (rule_from rule) word = None")
    case True
    then have "redex word (earlier @ [rule]) = redex word earlier" and "best' = best"
      using str_find_least [of "rule_from rule" word] by (auto simp: redex_snoc best'_def fun_eq_iff)
    then have "is_best word (earlier @ [rule]) best' = is_best word earlier best" unfolding is_best_def by (simp only:)
    then show ?thesis using Cons.prems by simp
  next
    case False
    then obtain p where p: "str_find (rule_from rule) word = Some p" "rule_from rule \<noteq> []" by blast
    then have first: "occurs_at (rule_from rule) word p" "\<And>q. occurs_at (rule_from rule) word q \<Longrightarrow> p \<le> q"
      using str_find_least [of "rule_from rule" word] by (auto simp: not_less [symmetric])
    show ?thesis
    proof (cases best)
      case None
      then show ?thesis
        using Cons.prems p first by (auto simp: is_best_def best'_def redex_snoc le_less)
    next
      case (Some b)
      obtain bp bi where b: "best = Some (bp, bi)" using Some by (cases b) auto
      have old: "redex word earlier bp bi" "\<And>q j. redex word earlier q j \<Longrightarrow> bp < q \<or> (bp = q \<and> bi \<le> j)"
        using Cons.prems by (auto simp: b is_best_def)
      show ?thesis
      proof (cases "p < bp")
        case True
        then have "best' = Some (p, length earlier)" using p b by (simp add: best'_def)
        then show ?thesis using True old first p by (auto simp: is_best_def redex_snoc le_less dest!: old(2))
      next
        case False
        then have "best' = best" using p b below [OF old(1)] by (auto simp: best'_def)
        moreover have "bp < q \<or> bp = q \<and> bi \<le> length earlier" if "occurs_at (rule_from rule) word q" for q
          using first(2) [OF that] False below [OF old(1)] by auto
        ultimately show ?thesis using old b by (auto simp: is_best_def redex_snoc)
      qed
    qed
  qed
  then show ?case using Cons.IH [of "earlier @ [rule]" best'] by (simp add: best'_def)
qed simp

text \<open>One step of rewriting as a relation: the leftmost redex, and at that place the first rule.\<close>

definition rewrites_to :: "string_rule list \<Rightarrow> string \<Rightarrow> string \<Rightarrow> bool" where
  "rewrites_to rules word next_word \<longleftrightarrow>
     (\<exists>front i back_part. i < length rules \<and> rule_from (rules ! i) \<noteq> []
        \<and> word = front @ rule_from (rules ! i) @ back_part \<and> next_word = front @ rule_to (rules ! i) @ back_part
        \<and> (\<forall>q j. redex word rules q j \<longrightarrow> length front < q \<or> (length front = q \<and> i \<le> j)))"

definition irreducible :: "string_rule list \<Rightarrow> string \<Rightarrow> bool" where
  "irreducible rules word \<longleftrightarrow> (\<forall>p i. \<not> redex word rules p i)"

lemma apply_rewrite_once_spec:
  "case apply_rewrite_once word rules of
     None \<Rightarrow> irreducible rules word
   | Some next_word \<Rightarrow> rewrites_to rules word next_word"
proof -
  have "is_best word [] None" by (simp add: is_best_def redex_def)
  from best_match_best [OF this, of rules] have best: "is_best word rules (best_match word 0 rules None)" by simp
  show ?thesis
  proof (cases "best_match word 0 rules None")
    case None
    then show ?thesis using best by (simp add: apply_rewrite_once_def is_best_def irreducible_def)
  next
    case (Some b)
    obtain p i where b: "b = (p, i)" by fastforce
    then have r: "redex word rules p i" "\<forall>q j. redex word rules q j \<longrightarrow> p < q \<or> (p = q \<and> i \<le> j)"
      using best Some by (auto simp: is_best_def)
    then obtain front back_part where w: "word = front @ rule_from (rules ! i) @ back_part" "length front = p"
      by (auto simp: redex_def occurs_at_def)
    have "apply_rewrite_once word rules = Some (front @ rule_to (rules ! i) @ back_part)"
      using Some b w by (simp add: apply_rewrite_once_def)
    moreover have "rewrites_to rules word (front @ rule_to (rules ! i) @ back_part)"
      unfolding rewrites_to_def using r w by (intro exI [of _ front] exI [of _ i] exI [of _ back_part]) (simp add: redex_def)
    ultimately show ?thesis by simp
  qed
qed

lemma rewrites_to_redex: "rewrites_to rules word next_word \<Longrightarrow> \<not> irreducible rules word"
  by (auto simp: rewrites_to_def irreducible_def redex_def occurs_at_def)

lemma rewrites_to_deterministic:
  assumes "rewrites_to rules word a" "rewrites_to rules word b"
  shows "a = b"
proof -
  obtain f i z where 1: "i < length rules" "rule_from (rules ! i) \<noteq> []" "word = f @ rule_from (rules ! i) @ z"
    "a = f @ rule_to (rules ! i) @ z" "\<forall>q j. redex word rules q j \<longrightarrow> length f < q \<or> (length f = q \<and> i \<le> j)"
    using assms(1) by (auto simp: rewrites_to_def)
  obtain f' i' z' where 2: "i' < length rules" "rule_from (rules ! i') \<noteq> []" "word = f' @ rule_from (rules ! i') @ z'"
    "b = f' @ rule_to (rules ! i') @ z'" "\<forall>q j. redex word rules q j \<longrightarrow> length f' < q \<or> (length f' = q \<and> i' \<le> j)"
    using assms(2) by (auto simp: rewrites_to_def)
  have "redex word rules (length f) i" "redex word rules (length f') i'"
    using 1(1,2) 2(1,2) by (auto simp: redex_def occurs_at_def) (use 1(3) 2(3) in blast)+
  then have "length f = length f' \<and> i = i'" using 1(5) 2(5) by (metis le_antisym less_asym)
  then show ?thesis using 1(3,4) 2(3,4) by auto
qed

lemma apply_rewrite_once_Some: "apply_rewrite_once word rules = Some w \<longleftrightarrow> rewrites_to rules word w"
  using apply_rewrite_once_spec [of rules word] rewrites_to_deterministic rewrites_to_redex
  by (cases "apply_rewrite_once word rules") auto

lemma apply_rewrite_once_None: "apply_rewrite_once word rules = None \<longleftrightarrow> irreducible rules word"
  using apply_rewrite_once_spec [of rules word] rewrites_to_redex
  by (cases "apply_rewrite_once word rules") auto

lemmas rewrite_once_iff = apply_rewrite_once_Some apply_rewrite_once_None

section \<open>Traces\<close>

text \<open>A trace of at most \<open>steps\<close> rewrites that stops early only at an irreducible word.\<close>

inductive rewrite_chain :: "string_rule list \<Rightarrow> nat \<Rightarrow> string \<Rightarrow> string list \<Rightarrow> bool" for rules where
  chain_stop: "steps = 0 \<or> irreducible rules word \<Longrightarrow> rewrite_chain rules steps word [word]"
| chain_step: "rewrites_to rules word w \<Longrightarrow> rewrite_chain rules steps w ws
    \<Longrightarrow> rewrite_chain rules (Suc steps) word (word # ws)"

inductive_cases rewrite_chain_SucE: "rewrite_chain rules (Suc steps) word ws"

lemma rewrite_loop_append: "rewrite_loop rules steps current visited = visited @ rewrite_loop rules steps current []"
proof (induction steps arbitrary: current visited)
  case (Suc steps)
  show ?case
  proof (cases "apply_rewrite_once current rules")
    case (Some w)
    then show ?thesis using Suc [of w "visited @ [w]"] Suc [of w "[w]"] by simp
  qed simp
qed simp

lemma rewrite_trace_unfold:
  "rewrite_trace word rules 0 = [word]"
  "rewrite_trace word rules (Suc steps) =
     (case apply_rewrite_once word rules of None \<Rightarrow> [word] | Some w \<Rightarrow> word # rewrite_trace w rules steps)"
  by (simp_all add: rewrite_trace_def split: option.splits) (metis append_Cons append_Nil rewrite_loop_append)

lemma rewrite_trace_chain: "rewrite_chain rules steps word (rewrite_trace word rules steps)"
proof (induction steps arbitrary: word)
  case 0
  then show ?case by (simp add: rewrite_trace_unfold chain_stop)
next
  case (Suc steps)
  then show ?case
    by (auto simp: rewrite_trace_unfold rewrite_once_iff intro: chain_stop chain_step split: option.splits)
qed

lemma rewrite_chain_trace: "rewrite_chain rules steps word ws \<Longrightarrow> ws = rewrite_trace word rules steps"
proof (induction rule: rewrite_chain.induct)
  case (chain_stop steps word)
  then show ?case
    by (cases steps) (auto simp: rewrite_trace_unfold split: option.splits simp flip: apply_rewrite_once_None)
next
  case (chain_step word w steps ws)
  then show ?case by (simp add: rewrite_trace_unfold flip: apply_rewrite_once_Some)
qed

lemma rewrite_trace_not_Nil [simp]: "rewrite_trace word rules steps \<noteq> []"
  by (cases steps) (auto simp: rewrite_trace_unfold split: option.splits)

lemma shorter_rewrite:
  assumes "rewrites_to rules word w" and "\<forall>r\<in>set rules. length (rule_to r) < length (rule_from r)"
  shows "length w < length word"
  using assms by (auto simp: rewrites_to_def)

lemma rewrite_chain_ends:
  assumes "rewrite_chain rules steps word ws" and "\<forall>r\<in>set rules. length (rule_to r) < length (rule_from r)"
    and "length word \<le> steps"
  shows "irreducible rules (last ws)"
  using assms(1,3)
proof (induction rule: rewrite_chain.induct)
  case (chain_stop steps word)
  then show ?case by (auto simp: irreducible_def redex_def occurs_at_def)
next
  case (chain_step word w steps ws)
  then have "length w < length word" using assms(2) shorter_rewrite by blast
  then have "irreducible rules (last ws)" using chain_step by simp
  moreover have "ws \<noteq> []" using chain_step(2) by (auto elim: rewrite_chain.cases)
  ultimately show ?case by simp
qed

lemma rewrites_to_set:
  assumes "rewrites_to rules word w" and "\<forall>r\<in>set rules. set (rule_to r) \<subseteq> A" and "set word \<subseteq> A"
  shows "set w \<subseteq> A"
  using assms by (auto simp: rewrites_to_def subset_iff dest!: nth_mem)

lemma rewrite_chain_set:
  assumes "rewrite_chain rules steps word ws" and "\<forall>r\<in>set rules. set (rule_to r) \<subseteq> A" and "set word \<subseteq> A"
  shows "\<forall>v\<in>set ws. set v \<subseteq> A"
  using assms(1,3) by (induction rule: rewrite_chain.induct) (use rewrites_to_set assms(2) in auto)

section \<open>Rates in f32\<close>

lemma below_three_percent_exact:
  assumes "changed \<le> cells" and "cells < 5000000"
  shows "below_three_percent (changed, cells) \<longleftrightarrow> cells = 0 \<or> 100 * changed < 3 * cells"
proof -
  have "f32_of_nat changed = changed" "f32_of_nat cells = cells" using assms by (simp_all add: f32_of_nat_def)
  then have "below_three_percent (changed, cells) \<longleftrightarrow> cells = 0 \<or> changed * 1073741824 \<le> 32212253 * cells"
    by (simp add: below_three_percent_def)
  moreover have "100 * changed < 3 * cells" if "changed * 1073741824 \<le> 32212253 * cells" "cells \<noteq> 0"
    using that by linarith
  moreover have "changed * 1073741824 \<le> 32212253 * cells" if "100 * changed < 3 * cells"
    using that assms(2) by linarith
  ultimately show ?thesis by blast
qed

end
