(* ===== verification/Ruliad_Oracle_Draws.thy ===== *)
theory Ruliad_Oracle_Draws
  imports Ruliad_Oracle_Gen Ruliad_Oracle_Laws Ruliad_Category_Gen
begin

text \<open>
  Every sample a generator draws is accepted by the verifier. The contract of one draw (it
  returns an accepted sample when the configuration fits) is the locale \<open>verified_draws\<close>; the
  retries keep it, and the four generators with retries are its interpretations.
\<close>

section \<open>Draws and retries\<close>

locale verified_draws =
  fixes draw :: "'s \<Rightarrow> 'a outcome \<times> 's" and fits :: bool and accepted :: "'a \<Rightarrow> bool"
  assumes draw_accepted: "fits \<Longrightarrow> \<exists>s. fst (draw rng) = Returned s \<and> accepted s"
begin

lemma retries_accepted:
  assumes fits and "0 < rounds \<or> (\<exists>s. fallback = Some s \<and> accepted s)"
  shows "\<exists>s. fst (draw_until draw degenerate message rounds fallback rng) = Returned s \<and> accepted s"
  using assms(2)
proof (induction rounds arbitrary: fallback rng)
  case 0
  then show ?case by auto
next
  case (Suc rounds)
  obtain s rng' where s: "draw rng = (Returned s, rng')" "accepted s"
    using draw_accepted [OF assms(1), of rng] by (metis prod.collapse)
  then show ?case using Suc.IH [of "Some s" rng'] by auto
qed

text \<open>A degenerate result means that every round drew a degenerate sample.\<close>

fun all_degenerate :: "('a \<Rightarrow> bool) \<Rightarrow> nat \<Rightarrow> 's \<Rightarrow> bool" where
  "all_degenerate degenerate 0 rng = True"
| "all_degenerate degenerate (Suc rounds) rng =
     (case draw rng of
        (Returned s, rng') \<Rightarrow> degenerate s \<and> all_degenerate degenerate rounds rng'
      | _ \<Rightarrow> False)"

lemma retries_keep_the_first_good_draw:
  assumes fits and "fst (draw_until draw degenerate message rounds fallback rng) = Returned s" and "degenerate s"
  shows "all_degenerate degenerate rounds rng"
  using assms(2,3)
proof (induction rounds arbitrary: fallback rng)
  case (Suc rounds)
  obtain t rng' where t: "draw rng = (Returned t, rng')"
    using draw_accepted [OF assms(1), of rng] by (metis prod.collapse)
  then show ?case using Suc by (auto split: if_splits)
qed simp

end

section \<open>Ranges\<close>

text \<open>What a drawn width or step count needs: an ordered range whose bounds are machine words
  below the largest one.\<close>

definition range_fits :: "nat \<Rightarrow> nat \<Rightarrow> usize_range option \<Rightarrow> bool" where
  "range_fits low high limits \<longleftrightarrow>
     (case limits of
        None \<Rightarrow> True
      | Some r \<Rightarrow> low \<le> range_min r \<and> range_min r \<le> range_max r \<and> range_max r \<le> high)"

lemma range_or_fits:
  assumes "range_fits low high limits" "low \<le> lo" "lo \<le> hi" "hi \<le> high" "high < usize_max"
  shows "low \<le> fst (range_or limits lo hi rng) \<and> fst (range_or limits lo hi rng) \<le> high"
proof (cases limits)
  case None
  have "hi - lo < usize_max" using assms by linarith
  then show ?thesis using range_usize_bounds [of lo hi rng] assms None by (auto simp: range_or_def)
next
  case (Some r)
  then have "range_max r - range_min r < usize_max" using assms by (auto simp: range_fits_def)
  then show ?thesis
    using range_usize_bounds [of "range_min r" "range_max r" rng] assms Some
    by (auto simp: range_or_def range_fits_def)
qed

lemma range_or_drawn:
  assumes "range_or limits lo hi rng = (n, rng')" "range_fits low high limits" "low \<le> lo" "lo \<le> hi" "hi \<le> high"
    "high < usize_max"
  shows "low \<le> n" "n \<le> high"
  using range_or_fits [OF assms(2-6), of rng] assms(1) by simp_all

definition accepted_spec :: "oracle_services \<Rightarrow> sample_spec \<Rightarrow> bool" where
  "accepted_spec env s \<longleftrightarrow> spec_ok env s = Some True"

definition family_fits :: "nat \<Rightarrow> nat \<Rightarrow> nat \<Rightarrow> nat \<Rightarrow> ruliad_family_config \<Rightarrow> bool" where
  "family_fits low_width high_width low_steps high_steps family \<longleftrightarrow>
     range_fits low_width high_width (family_width family) \<and> range_fits low_steps high_steps (family_steps family)"

section \<open>Cellular automata\<close>

lemma random_state_cells:
  "length (fst (random_state width rng)) = width \<and> set (fst (random_state width rng)) \<subseteq> {0, 1}"
  by (induction width arbitrary: rng) (auto simp: case_prod_beta)

lemma bit_cells: "set cells \<subseteq> {0, 1} \<Longrightarrow> map (\<lambda>cell. cell AND 1) cells = cells"
  by (induction cells) auto

lemma eca_step_bits: "set (eca_step rule cells) \<subseteq> {0, 1}"
  by (auto simp: eca_step_def Let_def shifted_low_bit)

lemma complement_state_bits: "set (complement_state cells) \<subseteq> {0, 1}"
  by (auto simp: complement_state_def low_bit)

lemma eca_trace_bits: "set cells \<subseteq> {0, 1} \<Longrightarrow> frame \<in> set (eca_trace rule cells steps) \<Longrightarrow> set frame \<subseteq> {0, 1}"
proof -
  have "set ((eca_step rule ^^ k) cells) \<subseteq> {0, 1}" if "set cells \<subseteq> {0, 1}" for k
    using that by (cases k) (simp_all add: eca_step_bits)
  then show "set cells \<subseteq> {0, 1} \<Longrightarrow> frame \<in> set (eca_trace rule cells steps) \<Longrightarrow> set frame \<subseteq> {0, 1}"
    by (auto simp: eca_trace_eq simp del: upt_Suc)
qed

lemma length_eca_trace: "length (eca_trace rule cells steps) = Suc steps"
  by (simp add: eca_trace_eq)

lemma parse_formatted_trace:
  assumes "\<And>frame. frame \<in> set frames \<Longrightarrow> set frame \<subseteq> {0, 1}"
  shows "parse_trace (map format_state frames) = frames"
  using assms by (induction frames) (simp_all add: parse_trace_def parse_format bit_cells)

lemma parse_formatted_state: "set cells \<subseteq> {0, 1} \<Longrightarrow> parse_state (format_state cells) = cells"
  by (simp add: parse_format bit_cells)

lemma eca_sample_accepted:
  assumes "set initial \<subseteq> {0, 1}" "steps < usize_max"
  shows "eca_sample_ok \<lparr> eca_rule = rule, eca_width = length initial, eca_steps = steps,
    eca_initial = format_state initial, eca_states = map format_state (eca_trace rule initial steps), eca_task = task \<rparr>"
  using assms eca_trace_bits [OF assms(1)]
  by (simp add: eca_sample_ok_def parse_formatted_state parse_formatted_trace states_equal_iff sat_add_def length_eca_trace)

lemma draw_eca_accepted:
  assumes "range_fits 0 (usize_max - 1) (family_steps family)"
  shows "\<exists>s. fst (draw_eca family rng) = Returned s \<and> accepted_spec env s"
proof -
  obtain width rng1 where w: "range_or (family_width family) 16 32 rng = (width, rng1)" by fastforce
  obtain steps rng2 where s: "range_or (family_steps family) 4 10 rng1 = (steps, rng2)" by fastforce
  obtain rule rng3 where r: "next_u8 rng2 = (rule, rng3)" by fastforce
  obtain initial rng4 where i: "random_state width rng3 = (initial, rng4)" by fastforce
  have "steps \<le> usize_max - 1" using range_or_drawn(2) [OF s assms] by (simp add: usize_max_def)
  then have "steps < usize_max" by (simp add: usize_max_def)
  moreover have "length initial = width" "set initial \<subseteq> {0, 1}" using random_state_cells [of width rng3] i by simp_all
  ultimately show ?thesis
    using eca_sample_accepted [of initial steps rule "if steps \<le> 1 then NextState else MultiStepState"] w s r i
    by (simp add: draw_eca_def accepted_spec_def)
qed

interpretation eca_draws: verified_draws "draw_eca family"
    "range_fits 0 (usize_max - 1) (family_steps family)" "accepted_spec env" for family env
  by unfold_locales (rule draw_eca_accepted)

lemma generate_eca_accepted:
  "range_fits 0 (usize_max - 1) (family_steps family) \<Longrightarrow>
     \<exists>s. fst (generate_eca_spec family rng) = Returned s \<and> accepted_spec env s"
  unfolding generate_eca_spec_def by (rule eca_draws.retries_accepted) simp_all

lemma eca_complement_trace:
  "map complement_state (eca_trace rule cells steps) = eca_trace (complement_rule rule) (complement_state cells) steps"
  by (simp add: eca_trace_eq funpow_complement del: upt_Suc)

lemma draw_simulation_accepted: "\<exists>s. fst (draw_simulation family rng) = Returned s \<and> accepted_spec env s"
proof -
  obtain width rng1 where w: "range_or (family_width family) 16 32 rng = (width, rng1)" by fastforce
  obtain steps rng2 where s: "range_or (family_steps family) 4 8 rng1 = (steps, rng2)" by fastforce
  obtain rule rng3 where r: "next_u8 rng2 = (rule, rng3)" by fastforce
  obtain initial rng4 where i: "random_state width rng3 = (initial, rng4)" by fastforce
  have cells: "length initial = width" "set initial \<subseteq> {0, 1}" using random_state_cells [of width rng3] i by simp_all
  have c: "set (complement_state initial) \<subseteq> {0, 1}" by (rule complement_state_bits)
  show ?thesis
    using w s r i cells c eca_trace_bits [OF cells(2)] eca_trace_bits [OF c]
    by (simp add: draw_simulation_def accepted_spec_def simulation_sample_ok_def Let_def parse_formatted_state
        parse_formatted_trace states_equal_iff eca_complement_trace del: map_map)
qed

interpretation simulation_draws: verified_draws "draw_simulation family" True "accepted_spec env" for family env
  by unfold_locales (rule draw_simulation_accepted)

lemma generate_simulation_accepted:
  "\<exists>s. fst (generate_simulation_spec family rng) = Returned s \<and> accepted_spec env s"
  unfolding generate_simulation_spec_def by (rule simulation_draws.retries_accepted) simp_all

section \<open>Automata\<close>

lemma draw_indices_bounds:
  assumes "0 < bound" "bound \<le> usize_max"
  shows "length (fst (draw_indices bound k rng)) = k \<and> list_all (\<lambda>i. i < bound) (fst (draw_indices bound k rng))"
  using next_index_bound [OF assms]
  by (induction k arbitrary: rng) (simp_all add: case_prod_beta)

lemma draw_rows_bounds:
  assumes "0 < n" "n \<le> usize_max"
  shows "length (fst (draw_rows n k rng)) = k
    \<and> list_all (\<lambda>row. length row = 2 \<and> list_all (\<lambda>s. s < n) row) (fst (draw_rows n k rng))"
  using draw_indices_bounds [OF assms]
  by (induction k arbitrary: rng) (simp_all add: case_prod_beta)

lemma draw_subset_subset: "set (fst (draw_subset xs rng)) \<subseteq> set xs"
  by (induction xs arbitrary: rng) (auto simp: case_prod_beta)

lemma accept_states_bound: "set drawn \<subseteq> {..<n} \<Longrightarrow> \<forall>s\<in>set (accept_states n drawn). s < n"
  by (auto simp: accept_states_def)

lemma draw_bits_set: "set (fst (draw_bits k rng)) \<subseteq> {CHR ''0'', CHR ''1''}"
  by (induction k arbitrary: rng) (auto simp: case_prod_beta)

lemma automaton_run_bits:
  "set input \<subseteq> {CHR ''0'', CHR ''1''} \<Longrightarrow>
     \<exists>more_states. automaton_run transitions state input visited = Some (visited @ more_states)"
proof (induction input arbitrary: state visited)
  case (Cons c input)
  define s' where "s' = transitions ! state ! (if c = CHR ''0'' then 0 else 1)"
  have "automaton_run transitions state (c # input) visited = automaton_run transitions s' input (visited @ [s'])"
    using Cons.prems by (auto simp: s'_def Let_def)
  moreover obtain rest where "automaton_run transitions s' input (visited @ [s']) = Some ((visited @ [s']) @ rest)"
    using Cons.IH [of s' "visited @ [s']"] Cons.prems by auto
  ultimately show ?case by simp
qed simp

lemma automaton_run_states:
  assumes "valid_transition_table n transitions 2"
  shows "s < n \<Longrightarrow> list_all (\<lambda>s. s < n) visited \<Longrightarrow> automaton_run transitions s input visited = Some states
    \<Longrightarrow> list_all (\<lambda>s. s < n) states \<and> length states = length visited + length input"
proof (induction input arbitrary: s visited)
  case (Cons c input)
  have row: "length (transitions ! s) = 2" "transitions ! s ! 0 < n" "transitions ! s ! 1 < n"
    using assms Cons.prems(1) by (simp_all add: valid_transition_table_def list_all_length)
  show ?case
  proof (cases "c = CHR ''0''")
    case True
    then show ?thesis
      using Cons.IH [of "transitions ! s ! 0" "visited @ [transitions ! s ! 0]"] Cons.prems row by (simp add: Let_def)
  next
    case False
    then have "c = CHR ''1''" using Cons.prems(3) by (auto split: if_splits)
    then show ?thesis
      using Cons.IH [of "transitions ! s ! 1" "visited @ [transitions ! s ! 1]"] Cons.prems row by (simp add: Let_def)
  qed
qed auto

lemma draw_automaton_accepted:
  assumes "range_fits 1 (usize_max - 1) (family_width family)"
  shows "\<exists>s. fst (draw_automaton family rng) = Returned s \<and> accepted_spec env s"
proof -
  obtain n rng1 where n: "range_or (family_width family) 3 8 rng = (n, rng1)" by fastforce
  obtain len rng2 where l: "range_or (family_steps family) 6 20 rng1 = (len, rng2)" by fastforce
  obtain rows rng3 where rows: "draw_rows n n rng2 = (rows, rng3)" by fastforce
  obtain start rng4 where start: "next_index n rng3 = (start, rng4)" by fastforce
  obtain drawn rng5 where drawn: "draw_subset [0..<n] rng4 = (drawn, rng5)" by fastforce
  obtain input rng6 where input: "draw_bits len rng5 = (input, rng6)" by fastforce
  have n0: "0 < n" "n \<le> usize_max"
    using range_or_drawn [OF n assms] by (simp_all add: usize_max_def)
  have table: "valid_transition_table n rows 2"
    using draw_rows_bounds [OF n0, of n rng2] rows n0 by (simp add: valid_transition_table_def)
  have st: "start < n" using next_index_bound [OF n0, of rng3] start by simp
  obtain more_states where run: "automaton_run rows start input [start] = Some ([start] @ more_states)"
    using automaton_run_bits [of input rows start "[start]"] draw_bits_set [of len rng5] input by auto
  have "set drawn \<subseteq> {..<n}" using draw_subset_subset [of "[0..<n]" rng4] drawn by auto
  then have acc: "\<forall>s\<in>set (accept_states n drawn). s < n" by (rule accept_states_bound)
  have "automaton_trace n rows start input = Some (start # more_states)"
    using table st run by (simp add: automaton_trace_def)
  then show ?thesis
    using n l rows start drawn input table st acc
    by (simp add: draw_automaton_def accepted_spec_def automaton_sample_ok_def list_all_iff)
qed

interpretation automaton_draws: verified_draws "draw_automaton family"
    "range_fits 1 (usize_max - 1) (family_width family)" "accepted_spec env" for family env
  by unfold_locales (rule draw_automaton_accepted)

lemma generate_automaton_accepted:
  "range_fits 1 (usize_max - 1) (family_width family) \<Longrightarrow>
     \<exists>s. fst (generate_automaton_spec family rng) = Returned s \<and> accepted_spec env s"
  unfolding generate_automaton_spec_def by (rule automaton_draws.retries_accepted) simp_all

section \<open>String rewriting\<close>

lemma alphabet_contains_iff: "alphabet_contains alphabet w \<longleftrightarrow> set w \<subseteq> set alphabet"
  by (auto simp: alphabet_contains_def list_all_iff list_ex_iff)

lemma rewrite_candidates_ok: "rule \<in> set rewrite_candidates \<Longrightarrow> rewrite_rule_ok ''ABC'' rule"
  by (auto simp: rewrite_candidates_def rewrite_rule_ok_def alphabet_contains_def)

lemma shuffle_rules_mset: "mset (fst (shuffle_rules rewrite_candidates rng)) = mset rewrite_candidates"
  unfolding shuffle_rules_def
  by (rule split_mix.shuffle_loop_mset) (simp_all add: rewrite_candidates_def usize_max_def)

lemma draw_word_set: "symbols \<noteq> [] \<Longrightarrow> length symbols \<le> usize_max \<Longrightarrow> set (fst (draw_word symbols n rng)) \<subseteq> set symbols"
  using draw_indices_bounds [of "length symbols" n rng]
  by (auto simp: draw_word_def list_all_iff split: prod.splits)

lemma draw_rewrite_accepted:
  assumes "rules \<noteq> [] \<and> (\<forall>rule\<in>set rules. rewrite_rule_ok ''ABC'' rule)"
  shows "\<exists>s. fst (draw_rewrite ''ABC'' rules n steps rng) = Returned s \<and> accepted_spec env s"
proof -
  obtain word rng1 where w: "draw_word ''ABC'' n rng = (word, rng1)" by fastforce
  have word: "set word \<subseteq> set ''ABC''" using draw_word_set [of "''ABC''" n rng] w by (simp add: usize_max_def)
  have rules: "\<forall>r\<in>set rules. set (rule_to r) \<subseteq> set ''ABC''"
    using assms by (auto simp: rewrite_rule_ok_def alphabet_contains_iff)
  have "\<forall>v\<in>set (rewrite_trace word rules steps). set v \<subseteq> set ''ABC''"
    by (rule rewrite_chain_set [OF rewrite_trace_chain rules word])
  then have "list_all (alphabet_contains ''ABC'') (rewrite_trace word rules steps)"
    "alphabet_contains ''ABC'' (last (rewrite_trace word rules steps))"
    unfolding list_all_iff alphabet_contains_iff using last_in_set [OF rewrite_trace_not_Nil] by blast+
  moreover have "valid_alphabet ''ABC''" by (simp add: valid_alphabet_def ascii_def ascii_white_space_def)
  moreover have "list_all (rewrite_rule_ok ''ABC'') rules" using assms by (simp add: list_all_iff)
  moreover have "alphabet_contains ''ABC'' word" using word by (simp only: alphabet_contains_iff)
  ultimately show ?thesis
    using assms w by (simp add: draw_rewrite_def Let_def accepted_spec_def rewrite_sample_ok_def)
qed

interpretation rewrite_draws: verified_draws "draw_rewrite ''ABC'' rules n steps"
    "rules \<noteq> [] \<and> (\<forall>rule\<in>set rules. rewrite_rule_ok ''ABC'' rule)" "accepted_spec env" for rules n steps env
  by unfold_locales (rule draw_rewrite_accepted)

lemma generate_rewrite_accepted: "\<exists>s. fst (generate_rewrite_spec family rng) = Returned s \<and> accepted_spec env s"
proof -
  obtain n rng1 where n: "range_or (family_width family) 8 20 rng = (n, rng1)" by fastforce
  obtain steps rng2 where s: "range_or (family_steps family) 4 12 rng1 = (steps, rng2)" by fastforce
  obtain candidates rng3 where c: "shuffle_rules rewrite_candidates rng2 = (candidates, rng3)" by fastforce
  obtain k rng4 where k: "range_usize 3 5 rng3 = (k, rng4)" by fastforce
  let ?rules = "take (min k (length candidates)) candidates"
  have m: "mset candidates = mset rewrite_candidates" using shuffle_rules_mset [of rng2] c by simp
  then have "length candidates = 9" by (simp add: rewrite_candidates_def flip: size_mset)
  moreover have "3 \<le> k" using range_usize_bounds [of 3 5 rng3] k by (simp add: usize_max_def)
  ultimately have "?rules \<noteq> []" by (cases candidates) auto
  moreover have "set ?rules \<subseteq> set rewrite_candidates" using mset_eq_setD [OF m] set_take_subset [of _ candidates] by auto
  then have "\<forall>rule\<in>set ?rules. rewrite_rule_ok ''ABC'' rule" using rewrite_candidates_ok by blast
  ultimately show ?thesis
    using n s c k rewrite_draws.retries_accepted [of ?rules 64] by (simp add: generate_rewrite_spec_def Let_def)
qed

section \<open>Algebra and categories\<close>

lemma add_mod_table_valid: "0 < n \<Longrightarrow> valid_operation_table n (add_mod_table n)"
  by (simp add: valid_operation_table_def add_mod_table_def list_all_length)

lemma affine_mod_table_valid: "0 < n \<Longrightarrow> valid_operation_table n (affine_mod_table n a b c)"
  by (simp add: valid_operation_table_def affine_mod_table_def list_all_length)

lemma algebra_law_result_Some:
  assumes "valid_operation_table n table" "list_all (\<lambda>i. i < n) operands" "length operands = operand_count law"
  shows "\<exists>lhs rhs. algebra_law_result n table law operands = Some (lhs, rhs)"
  using assms by (cases law) (auto simp: algebra_law_result_def list_all_iff list_ex_iff Let_def not_le)

lemma generate_algebra_accepted:
  assumes "range_fits 1 (usize_max - 1) (family_width family)"
  shows "\<exists>s. fst (generate_algebra_spec family rng) = Returned s \<and> accepted_spec env s"
proof -
  obtain n rng1 where n: "range_or (family_width family) 2 6 rng = (n, rng1)" by fastforce
  obtain a rng2 where a: "next_bool rng1 = (a, rng2)" by fastforce
  obtain b rng3 where b: "next_bool rng2 = (b, rng3)" by fastforce
  define law where "law = (if b then Associativity else Commutativity)"
  define table where "table = (if a \<or> n \<le> 2 then add_mod_table n else affine_mod_table n 1 2 1)"
  obtain operands rng4 where o: "draw_indices n (operand_count law) rng3 = (operands, rng4)" by fastforce
  have n0: "0 < n" "n \<le> usize_max" using range_or_drawn [OF n assms] by (simp_all add: usize_max_def)
  have t: "valid_operation_table n table" using n0 by (simp add: table_def add_mod_table_valid affine_mod_table_valid)
  have ops: "list_all (\<lambda>i. i < n) operands" "length operands = operand_count law"
    using draw_indices_bounds [OF n0, of "operand_count law" rng3] o by simp_all
  obtain lhs rhs where r: "algebra_law_result n table law operands = Some (lhs, rhs)"
    using algebra_law_result_Some [OF t ops] by blast
  show ?thesis
    using n a b o r t
    by (simp add: generate_algebra_spec_def Let_def accepted_spec_def algebra_sample_ok_def
        table_def [symmetric] law_def [symmetric])
qed

lemma range_fits_width_ok: "range_fits 1 high limits \<Longrightarrow> high \<le> usize_max \<Longrightarrow> width_ok limits"
  by (auto simp: range_fits_def width_ok_def split: option.splits)

lemma generate_category_for_task_accepted:
  assumes "range_fits 1 (usize_max - 1) (family_width family)"
  shows "\<exists>s. fst (generate_category_spec_for_task family task rng) = Returned s \<and> accepted_spec env s"
proof -
  have "width_ok (family_width family)" using range_fits_width_ok [OF assms] by simp
  then obtain s where s: "fst (generate_category_fields family task rng) = Returned s" "category_sample_ok s = Some True"
    using generated_sample_accepted by blast
  then show ?thesis by (simp add: generate_category_spec_for_task_def accepted_spec_def case_prod_beta)
qed

lemma generate_category_accepted:
  "range_fits 1 (usize_max - 1) (family_width family) \<Longrightarrow>
     \<exists>s. fst (generate_category_spec family rng) = Returned s \<and> accepted_spec env s"
  unfolding generate_category_spec_def case_prod_beta by (rule generate_category_for_task_accepted)

section \<open>Proof trees\<close>

text \<open>Below 2^31 no sum of two products overflows, and the drawn vector is orthogonal: Pythagoras
  holds for it modulo the modulus.\<close>

lemma vec_arithmetic:
  assumes "1 < m" "m \<le> 2 ^ 31" "fst u < m" "snd u < m" "fst v < m" "snd v < m"
  shows "mod_dot u v m = Some ((fst u * fst v + snd u * snd v) mod m)"
    and "mod_norm u m = Some ((fst u * fst u + snd u * snd u) mod m)"
    and "mod_sum u v m = Some ((fst u + fst v) mod m, (snd u + snd v) mod m)"
proof -
  have small: "a * b \<le> 2 ^ 62" if "a < m" "b < m" for a b :: nat
  proof -
    have "a * b \<le> 2 ^ 31 * 2 ^ 31" using that assms(2) by (intro mult_le_mono) simp_all
    then show ?thesis by simp
  qed
  note small [OF assms(3,5)] small [OF assms(4,6)] small [OF assms(3,3)] small [OF assms(4,4)]
  then show "mod_dot u v m = Some ((fst u * fst v + snd u * snd v) mod m)"
    and "mod_norm u m = Some ((fst u * fst u + snd u * snd u) mod m)"
    and "mod_sum u v m = Some ((fst u + fst v) mod m, (snd u + snd v) mod m)"
    using assms
    by (simp_all add: mod_dot_def mod_norm_def mod_sum_def checked_mul_def checked_add_def checked_mod_def usize_max_def)
qed

lemma orthogonal_vec_value:
  assumes "1 < m" "m \<le> 2 ^ 31" "fst u < m" "snd u < m" "scale < m"
  shows "orthogonal_vec u scale m = Some (snd u * scale mod m, (m - fst u * scale mod m) mod m)"
proof -
  have "a * scale \<le> 2 ^ 31 * 2 ^ 31" if "a < m" for a
    using that assms by (intro mult_le_mono) simp_all
  from this [OF assms(3)] this [OF assms(4)] assms(1) show ?thesis
    by (simp add: orthogonal_vec_def checked_mul_def checked_mod_def usize_max_def)
qed

lemma mod_products:
  fixes a b x y m :: nat
  shows "(a * (x mod m) + b * (y mod m)) mod m = (a * x + b * y) mod m"
  by (metis mod_add_eq mod_mult_right_eq)

lemma mod_squares:
  fixes x y m :: nat
  shows "((x mod m) * (x mod m) + (y mod m) * (y mod m)) mod m = (x * x + y * y) mod m"
  by (metis mod_add_eq mod_mult_eq)

lemma orthogonal_dot:
  fixes a b s m :: nat
  assumes "1 < m"
  shows "(a * (b * s mod m) + b * ((m - a * s mod m) mod m)) mod m = 0"
proof -
  have "(a * (b * s mod m) + b * ((m - a * s mod m) mod m)) mod m = (a * (b * s) + b * (m - a * s mod m)) mod m"
    by (rule mod_products)
  also have "\<dots> = (b * (a * s mod m) + b * (m - a * s mod m)) mod m"
    by (metis (no_types) mod_add_left_eq mod_mult_right_eq mult.left_commute)
  also have "b * (a * s mod m) + b * (m - a * s mod m) = b * m"
    using assms by (simp add: distrib_left [symmetric] mod_le_divisor)
  finally show ?thesis by simp
qed

lemma pythagoras:
  fixes a b c d m :: nat
  assumes "(a * c + b * d) mod m = 0"
  shows "(((a + c) mod m) * ((a + c) mod m) + ((b + d) mod m) * ((b + d) mod m)) mod m
    = ((a * a + b * b) mod m + (c * c + d * d) mod m) mod m"
proof -
  have "(((a + c) mod m) * ((a + c) mod m) + ((b + d) mod m) * ((b + d) mod m)) mod m
      = ((a + c) * (a + c) + (b + d) * (b + d)) mod m"
    by (rule mod_squares)
  also have "(a + c) * (a + c) + (b + d) * (b + d) = (a * a + b * b + (c * c + d * d)) + 2 * (a * c + b * d)"
    by (simp add: algebra_simps)
  also have "\<dots> mod m = (a * a + b * b + (c * c + d * d)) mod m"
    using assms by (metis add.right_neutral mod_add_right_eq mod_mult_right_eq mult_0_right)
  finally show ?thesis by (simp only: mod_add_eq)
qed

lemma proof_tree_accepted:
  assumes "1 < m" "m \<le> 2 ^ 31" "fst u < m" "snd u < m" "scale < m"
  shows "\<exists>s. proof_tree_of m depth u scale = Some s \<and> proof_tree_sample_ok s = Some True"
proof -
  define v where "v = (snd u * scale mod m, (m - fst u * scale mod m) mod m)"
  have v: "orthogonal_vec u scale m = Some v" using orthogonal_vec_value [OF assms] by (simp add: v_def)
  have vb: "fst v < m" "snd v < m" using assms(1) by (simp_all add: v_def)
  define w where "w = ((fst u + fst v) mod m, (snd u + snd v) mod m)"
  have wb: "fst w < m" "snd w < m" using assms(1) by (simp_all add: w_def)
  note uv = vec_arithmetic [OF assms(1-4) vb] and vv = vec_arithmetic(2) [OF assms(1,2) vb vb]
    and ww = vec_arithmetic(2) [OF assms(1,2) wb wb]
  have dot: "(fst u * fst v + snd u * snd v) mod m = 0"
    using orthogonal_dot [OF assms(1), of "fst u" "snd u" scale] by (simp add: v_def)
  have norm: "(fst w * fst w + snd w * snd w) mod m
      = ((fst u * fst u + snd u * snd u) mod m + (fst v * fst v + snd v * snd v) mod m) mod m"
    using pythagoras [OF dot] by (simp add: w_def)
  have sum: "mod_sum u v m = Some w" using uv(3) by (simp add: w_def)
  have "x mod m + y mod m \<le> usize_max" for x y
  proof -
    have "x mod m < m" "y mod m < m" using assms(1) by simp_all
    then have "x mod m + y mod m < m + m" by linarith
    moreover have "m + m \<le> usize_max" using assms(2) by (simp add: usize_max_def)
    ultimately show ?thesis by simp
  qed
  then have add: "checked_add (x mod m) (y mod m) = Some (x mod m + y mod m)" for x y
    by (simp add: checked_add_def)
  have md: "checked_mod k m = Some (k mod m)" for k using assms(1) by (simp add: checked_mod_def)
  show ?thesis
    using v sum uv(1,2) vv ww add md dot norm assms(1)
    by (simp add: proof_tree_of_def proof_tree_sample_ok_def Let_def proof_tree_lemmas_def proof_tree_steps_def)
qed

lemma generate_proof_tree_accepted:
  assumes "range_fits 0 65537 (family_width family)"
  shows "\<exists>s rng'. generate_proof_tree_spec family rng = Some (Returned s, rng') \<and> accepted_spec env s"
proof -
  obtain width rng1 where w: "range_or (family_width family) 5 13 rng = (width, rng1)" by fastforce
  have wb: "max width 5 \<le> 65537" using range_or_drawn(2) [OF w assms] by (simp add: usize_max_def)
  then obtain m where m: "next_prime_at_least (max width 5) = Some m"
    using next_prime_returns_iff [of "max width 5"] prime_65537 by (auto simp: usize_max_def)
  have max_ok: "max width 5 \<le> usize_max" using wb by (simp add: usize_max_def)
  from m next_prime_iff [OF max_ok, of m]
  have mp: "prime_number m" "max width 5 \<le> m" "\<forall>q. max width 5 \<le> q \<and> q < m \<longrightarrow> \<not> prime_number q" by simp_all
  have mb: "5 \<le> m" using mp(2) by simp
  have mh: "m \<le> 65537" using mp(3) wb prime_65537 by (metis linorder_not_le)
  obtain depth rng2 where d: "range_or (family_steps family) 4 9 rng1 = (depth, rng2)" by fastforce
  obtain u0 rng3 where u0: "range_usize 1 (m - 1) rng2 = (u0, rng3)" by fastforce
  obtain u1 rng4 where u1: "range_usize 1 (m - 1) rng3 = (u1, rng4)" by fastforce
  obtain scale rng5 where sc: "range_usize 1 (m - 1) rng4 = (scale, rng5)" by fastforce
  have b: "fst (range_usize 1 (m - 1) r) < m" for r
  proof -
    have "1 \<le> m - 1" "m - 1 - 1 < usize_max" using mb mh by (simp_all add: usize_max_def)
    from range_usize_bounds [OF this, of r] show ?thesis using mb by linarith
  qed
  have "u0 < m" "u1 < m" "scale < m" using b [of rng2] b [of rng3] b [of rng4] u0 u1 sc by simp_all
  then obtain s where s: "proof_tree_of m (max depth 4) (u0, u1) scale = Some s" "proof_tree_sample_ok s = Some True"
    using proof_tree_accepted [of m "(u0, u1)" scale "max depth 4"] mb mh by auto
  then show ?thesis using w m d u0 u1 sc by (simp add: generate_proof_tree_spec_def accepted_spec_def)
qed

section \<open>Lean tasks and noise\<close>

lemma generate_lean_accepted:
  assumes "length proof_tasks \<le> usize_max"
  shows "\<exists>s. fst (generate_lean_spec (os_sha env) proof_tasks rng) = Returned s \<and> accepted_spec env s"
proof -
  define tasks where "tasks = (if proof_tasks = [] then default_proof_tasks (os_sha env) else proof_tasks)"
  have "0 < length tasks" "length tasks \<le> usize_max"
    using assms by (auto simp: tasks_def default_proof_tasks_def usize_max_def)
  then obtain i rng1 where i: "next_index (length tasks) rng = (i, rng1)" "i < length tasks"
    using next_index_bound [of "length tasks" rng] by (metis prod.collapse)
  obtain renaming rng2 where "next_u64 rng1 = (renaming, rng2)" by fastforce
  with i show ?thesis
    unfolding generate_lean_spec_def tasks_def [symmetric]
    by (simp add: nth_opt_def Let_def accepted_spec_def lean_sample_ok_def validate_hash_def computed_payload_hash_def)
qed

lemma length_draw_bytes: "length (fst (draw_bytes k rng)) = k"
  by (induction k arbitrary: rng) (simp_all add: case_prod_beta)

lemma generate_noise_accepted:
  assumes "\<And>bytes. os_hex_decode env (os_hex_encode env bytes) = Some bytes"
  shows "\<exists>s. fst (generate_hash_noise_spec env rng) = Returned s \<and> accepted_spec env s"
proof -
  obtain bytes rng' where b: "draw_bytes 32 rng = (bytes, rng')" by fastforce
  have "length bytes = 32" using length_draw_bytes [of 32 rng] by (simp only: b fst_conv)
  then have "bytes \<noteq> []" by auto
  then show ?thesis
    using assms b by (simp add: generate_hash_noise_spec_def accepted_spec_def noise_sample_ok_def)
qed

end
