(* ===== verification/Ruliad_Oracle_Formal.thy ===== *)
theory Ruliad_Oracle_Formal
  imports Ruliad_Oracle_Draws Ruliad_Formal_Bundle
begin

text \<open>
  Samples of formal proofs: every goal certificate the generator assembles has a step, so a
  step can be drawn and the root certificate corrupted, and the drawn sample has the shape its
  task asks for.
\<close>

section \<open>Every goal certificate has a step\<close>

definition stepped :: "goal_certificate list \<Rightarrow> bool" where
  "stepped certs \<longleftrightarrow> list_all (\<lambda>c. gc_steps c \<noteq> []) certs"

lemma stepped_simps [simp]:
  "stepped []" "stepped (certs @ [c]) \<longleftrightarrow> stepped certs \<and> gc_steps c \<noteq> []"
  by (simp_all add: stepped_def)

lemma stepped_leaf_loop:
  "leaf_loop dt salt selected config leaves d frontier rng = (d', frontier', rng') \<Longrightarrow>
   0 < fc_rewrite_depth config \<Longrightarrow> stepped (snd d) \<Longrightarrow> stepped (snd d')"
proof (induction dt salt selected config leaves d frontier rng rule: leaf_loop.induct)
  case (2 dt salt selected config leaf leaves goals certificates frontier rng)
  obtain js rng1 where js: "draw_indices (length selected) (fc_rewrite_depth config) rng = (js, rng1)" by fastforce
  obtain path rng2 where path: "draw_indices 2 (fc_context_depth config) rng1 = (path, rng2)" by fastforce
  have "length (fst (draw_indices b k r)) = k" for b k r
    by (induction k arbitrary: r) (simp_all add: case_prod_beta)
  from this [of "length selected" "fc_rewrite_depth config" rng] js 2(3) have "js \<noteq> []" by auto
  then show ?case
    using 2(1) [OF js [symmetric] path [symmetric] refl refl] 2(2-) js path
    by (simp add: Let_def leaf_certificate_def)
qed simp

lemma stepped_append_composition:
  "append_composition_goal dt d l r = Returned (d', rt) \<Longrightarrow> stepped (snd d) \<Longrightarrow> stepped (snd d')"
  by (auto simp: append_composition_goal_def outcome_bind_Returned Let_def split: prod.splits if_splits)

lemma stepped_compose_left:
  "compose_left dt d rt rest = Returned (d', rt') \<Longrightarrow> stepped (snd d) \<Longrightarrow> stepped (snd d')"
  by (induction dt d rt rest rule: compose_left.induct)
    (auto simp: outcome_bind_Returned dest: stepped_append_composition)

lemma stepped_compose_chunks:
  "compose_chunks dt d frontier next_frontier = Returned (d', frontier') \<Longrightarrow> stepped (snd d) \<Longrightarrow> stepped (snd d')"
  by (induction dt d frontier next_frontier rule: compose_chunks.induct)
    (auto simp: outcome_bind_Returned dest: stepped_append_composition)

lemma stepped_compose_balanced:
  "compose_balanced dt shuffled d frontier rng = Returned (d', frontier', rng') \<Longrightarrow> stepped (snd d) \<Longrightarrow> stepped (snd d')"
proof (induction dt shuffled d frontier rng rule: compose_balanced.induct)
  case (1 dt shuffled d frontier rng)
  show ?case
  proof (cases "1 < length frontier")
    case True
    obtain f1 r1 where f1: "(if shuffled then shuffle frontier rng else (frontier, rng)) = (f1, r1)" by fastforce
    obtain d1 f2 where c: "compose_chunks dt d f1 [] = Returned (d1, f2)"
      using 1(2) True f1 by (subst (asm) compose_balanced.simps) (auto split: outcome.splits)
    then have "compose_balanced dt shuffled d1 f2 r1 = Returned (d', frontier', rng')"
      using 1(2) True f1 by (subst (asm) compose_balanced.simps) simp
    then show ?thesis
      using 1(1) [OF True f1 [symmetric] c refl] stepped_compose_chunks [OF c 1(3)] by blast
  next
    case False
    then show ?thesis using 1(2,3) by (subst (asm) compose_balanced.simps) simp
  qed
qed

lemma stepped_compose_frontier:
  "compose_frontier dt split d frontier rng = Returned (d', frontier', rng') \<Longrightarrow> stepped (snd d) \<Longrightarrow> stepped (snd d')"
  by (auto simp: compose_frontier_def outcome_bind_Returned split: generation_split.splits
      dest: stepped_compose_left stepped_compose_balanced)

lemma those_map_Some_length:
  "those (map f xs) = Some ys \<Longrightarrow> length ys = length xs \<and> (\<forall>i<length xs. f (xs ! i) = Some (ys ! i))"
proof (induction xs arbitrary: ys)
  case (Cons x xs)
  then show ?case by (auto split: option.splits simp: nth_Cons less_Suc_eq_0_disj)
qed simp

lemma stepped_rename:
  assumes "those (map (rename_certificate ids) certs) = Some certs'" "stepped certs"
  shows "stepped certs'"
proof -
  have "gc_steps c' \<noteq> []" if "rename_certificate ids c = Some c'" "gc_steps c \<noteq> []" for c c'
    using that those_map_Some_length [of "rename_step ids" "gc_steps c"]
    by (auto simp: rename_certificate_def)
  then show ?thesis using those_map_Some_length [OF assms(1)] assms(2)
    by (auto simp: stepped_def list_all_length)
qed

lemma alpha_rename_stepped:
  assumes "alpha_rename_bundle b seed = Some b'" "stepped (cert_goals (bundle_certificate b))"
  shows "stepped (cert_goals (bundle_certificate b'))"
  using assms
  by (auto simp: alpha_rename_bundle_def Let_def Option.bind_eq_Some_conv dest: stepped_rename split: prod.splits)

lemma build_formal_bundle_stepped:
  assumes "build_formal_bundle seed config = Returned b"
  shows "stepped (cert_goals (bundle_certificate b))"
proof -
  have pos: "0 < fc_rewrite_depth config" using assms by (auto simp: build_formal_bundle_def split: if_splits)
  obtain chosen rng1 where dom: "draw_domain config (split_mix64_new seed) = (chosen, rng1)" by fastforce
  obtain salt rng2 where salt: "next_u64 rng1 = (salt, rng2)" by fastforce
  let ?dt = "theory_of_domain chosen"
  let ?sel = "selected_domain_laws ?dt (fc_generation_split config)"
  obtain d frontier rng3 where leaf: "leaf_loop ?dt salt ?sel config [0..<fc_leaf_count config] ([], []) [] rng2 = (d, frontier, rng3)"
    by (metis prod_cases3)
  obtain goals certs frontier' rng4 where compose:
    "compose_frontier ?dt (fc_generation_split config) d frontier rng3 = Returned ((goals, certs), frontier', rng4)"
    using assms dom salt leaf
    by (auto simp: build_formal_bundle_def Let_def outcome_bind_Returned split: if_splits)
  have "stepped certs"
    using stepped_compose_frontier [OF compose] stepped_leaf_loop [OF leaf pos] by simp
  then show ?thesis
    using assms dom salt leaf compose alpha_rename_stepped
    by (auto simp: build_formal_bundle_def Let_def outcome_bind_Returned expect_def split: if_splits option.splits)
qed

lemma generated_bundle_stepped:
  assumes "generate_formal_bundle hash debug seed config = Returned b"
  shows "stepped (cert_goals (bundle_certificate b))"
proof -
  obtain b0 where b0: "build_formal_bundle seed config = Returned b0"
    using assms by (auto simp: generate_formal_bundle_def outcome_bind_Returned)
  moreover have "cert_goals (bundle_certificate b) = cert_goals (bundle_certificate b0)"
    using assms b0
    by (simp add: generate_formal_bundle_def Let_def split: sum.split_asm option.split_asm if_split_asm)
      (auto simp: split: if_splits)
  ultimately show ?thesis using build_formal_bundle_stepped by metis
qed

section \<open>Drawn formal samples\<close>

lemma accepted_goals_not_Nil:
  assumes "replay_accepts hash p c limits"
  shows "cert_goals c \<noteq> []"
proof -
  have "map gc_goal (cert_goals c) = required_goal_indices p"
    using assms by (simp add: replay_accepts_iff certificate_proves_def)
  moreover have "problem_root p \<in> required_goal_set p" by (simp add: required_goal_set_eq)
  then have "required_goal_indices p \<noteq> []" by (metis empty_iff list.set(1) set_required_goal_indices)
  ultimately show ?thesis by auto
qed

lemma step_at_some: "index < step_count c \<Longrightarrow> step_at c index \<noteq> None"
proof -
  have "index < sum_list (map (\<lambda>g. length (gc_steps g)) gs) \<Longrightarrow> step_at_goals gs index \<noteq> None" for gs
    by (induction gs arbitrary: index) auto
  then show "index < step_count c \<Longrightarrow> step_at c index \<noteq> None" by (simp add: step_at_def step_count_def)
qed

lemma corrupt_stepped:
  assumes "stepped (cert_goals c)" "cert_goals c \<noteq> []"
  shows "\<exists>c'. corrupt_formal_certificate c = Inr c'"
proof -
  have "gc_steps (last (cert_goals c)) \<noteq> []" using assms by (simp add: stepped_def list_all_iff)
  then show ?thesis using assms(2) by (auto simp: corrupt_formal_certificate_def Let_def split: list.splits)
qed

lemma stepped_step_count: "stepped (cert_goals c) \<Longrightarrow> cert_goals c \<noteq> [] \<Longrightarrow> 0 < step_count c"
  by (cases "cert_goals c") (auto simp: step_count_def stepped_def)

lemma formal_spec_drawn:
  assumes acc: "replay_accepts hash (bundle_problem b) (bundle_certificate b) default_limits"
    and st: "stepped (cert_goals (bundle_certificate b))"
    and task: "task \<in> {ConstructProof, AdvanceProof, CheckProof}"
  shows "\<exists>s. fst (formal_spec_of task contract b rng) = Returned (FormalProofSample s)
    \<and> formal_sample_ok hash s = Some True \<and> fp_task s = task"
proof -
  let ?c = "bundle_certificate b"
  have goals: "cert_goals ?c \<noteq> []" by (rule accepted_goals_not_Nil [OF acc])
  obtain c' where c': "corrupt_formal_certificate ?c = Inr c'" using corrupt_stepped [OF st goals] by blast
  have steps: "0 < step_count ?c" "step_count ?c \<le> usize_max"
    using stepped_step_count [OF st goals] acc by (auto simp: replay_accepts_iff default_limits_def usize_max_def)
  obtain r where r: "replay_certificate hash (bundle_problem b) ?c default_limits = Some r" "rr_accepted r"
    using acc by (auto simp: replay_accepts_def split: option.splits)
  obtain index rng2 where i: "next_index (step_count ?c) rng = (index, rng2)" "index < step_count ?c"
    using next_index_bound [OF steps, of rng] by (metis prod.collapse)
  have "step_at ?c index \<noteq> None" by (rule step_at_some [OF i(2)])
  then show ?thesis
    using task r c' i steps
    by (auto simp: formal_spec_of_def draw_candidate_def draw_step_index_def draw_rotation_def Let_def
        formal_sample_ok_def formal_task_shape_ok_def split: prod.splits)
qed

lemma formal_sample_config_within:
  assumes "2 \<le> depth" "depth \<le> 10" "2 \<le> leaves" "leaves \<le> 128"
  shows "config_within (formal_sample_config depth leaves split)"
proof -
  have i1: "ilog2 (Suc 0) = 0" by (subst ilog2.simps) simp
  have i2: "ilog2 n \<le> Suc (ilog2 (n div 2))" for n by (subst ilog2.simps) simp
  have "ilog2 depth \<le> 3"
  proof -
    have "depth div 2 div 2 div 2 < 2" using assms(2) by simp
    then have "ilog2 (depth div 2 div 2 div 2) = 0" by (subst ilog2.simps) simp
    then show ?thesis using i2 [of depth] i2 [of "depth div 2"] i2 [of "depth div 2 div 2"] by linarith
  qed
  then have ctx: "fc_context_depth (formal_sample_config depth leaves split) \<le> 4"
    by (simp add: formal_sample_config_def sat_add_def)
  then show ?thesis
    using assms by (intro bounded_config_within) (simp_all add: formal_sample_config_def)
qed

lemma generate_formal_accepted:
  assumes hash: "\<And>p. \<exists>h. os_problem_hash env p = Inr h"
    and fits: "family_fits 0 128 0 10 family"
    and task: "task \<in> {ConstructProof, AdvanceProof, CheckProof}"
  shows "\<exists>s. fst (generate_formal_spec env family task contract split rng) = Returned s \<and> accepted_spec env s"
proof -
  obtain width rng1 where w: "range_or (family_width family) 2 4 rng = (width, rng1)" by fastforce
  obtain steps rng2 where s: "range_or (family_steps family) 2 4 rng1 = (steps, rng2)" by fastforce
  obtain seed rng3 where u: "next_u64 rng2 = (seed, rng3)" by fastforce
  have "width \<le> 128" "steps \<le> 10"
    using range_or_drawn(2) [OF w, of 0 128] range_or_drawn(2) [OF s, of 0 10] fits
    by (simp_all add: family_fits_def usize_max_def)
  then have "config_within (formal_sample_config (max steps 2) (max width 2) split)"
    by (intro formal_sample_config_within) simp_all
  then obtain b where b: "generate_formal_bundle (os_problem_hash env) (os_debug env) seed
        (formal_sample_config (max steps 2) (max width 2) split) = Returned b"
      "replay_accepts (os_problem_hash env) (bundle_problem b) (bundle_certificate b) default_limits"
    using generate_formal_bundle_ok [where hash = "os_problem_hash env", OF _ hash] by blast
  have t: "formal_task task" using task by auto
  obtain f where "fst (formal_spec_of task contract b rng3) = Returned (FormalProofSample f)"
    "formal_sample_ok (os_problem_hash env) f = Some True"
    using formal_spec_drawn [OF b(2) generated_bundle_stepped [OF b(1)] task] by blast
  with w s u b(1) t show ?thesis by (simp add: generate_formal_spec_def accepted_spec_def)
qed

end
