(* ===== verification/Ruliad_Oracle_Sample.thy ===== *)
theory Ruliad_Oracle_Sample
  imports Ruliad_Oracle_Formal
begin

text \<open>
  From a configuration to an accepted sample: the tickets of the families, the ranges a
  difficulty level leaves, the states the samples start from, and the whole of
  \<open>generate_sample\<close> over the generators of the families.
\<close>

section \<open>Tickets\<close>

lemma ticket_family_hit:
  "t < family_weight family \<Longrightarrow>
   ticket_family (earlier @ family # later) (sum_list (map family_weight earlier) + t) = Some family"
  by (induction earlier) simp_all

lemma ticket_family_Some:
  "ticket < sum_list (map family_weight families) \<Longrightarrow> \<exists>family\<in>set families. ticket_family families ticket = Some family"
  by (induction families arbitrary: ticket) auto

lemma ticket_family_mem: "ticket_family families ticket = Some family \<Longrightarrow> family \<in> set families"
  by (induction families arbitrary: ticket) (auto split: if_splits)

lemma choose_family_Returned:
  assumes "families \<noteq> []" "sum_list (map family_weight families) \<le> usize_max"
  shows "\<exists>family\<in>set families. fst (choose_family families rng) = Returned family"
  using assms ticket_family_mem
  by (fastforce simp: choose_family_def Let_def case_prod_beta not_less split: option.splits)

lemma ticket_task_cases:
  "ticket_task weights draw = ConstructProof \<or> (\<exists>w. 0 < w \<and> (ticket_task weights draw, w) \<in> set weights)"
proof (induction weights draw rule: ticket_task.induct)
  case (2 task weight weights draw)
  show ?case
  proof (cases "draw < weight")
    case True
    then have "0 < weight \<and> (ticket_task ((task, weight) # weights) draw, weight) \<in> set ((task, weight) # weights)"
      by simp
    then show ?thesis by blast
  next
    case False
    then show ?thesis using 2 by auto
  qed
qed simp

lemma choose_formal_task_Returned:
  assumes "sum_list (map snd (formal_task_weights mix)) \<le> usize_max" "mix_select_proof_action_weight mix = 0"
  shows "\<exists>task\<in>{ConstructProof, AdvanceProof, CheckProof}. fst (choose_formal_task mix rng) = Returned task"
proof -
  have "ticket_task (formal_task_weights mix) draw \<in> {ConstructProof, AdvanceProof, CheckProof}" for draw
    using ticket_task_cases [of "formal_task_weights mix" draw] assms(2) by (auto simp: formal_task_weights_def)
  then show ?thesis using assms(1) by (simp add: choose_formal_task_def Let_def case_prod_beta)
qed

section \<open>Difficulty levels\<close>

lemma scale_range_ordered:
  assumes "range_min r \<le> range_max r"
  shows "range_min (scale_range level r) \<le> range_max (scale_range level r)"
  unfolding scale_range_def Let_def using assms
  by simp (rule sat_add_mono, simp_all add: sat_mul_def)

lemma cap_range_bounds:
  assumes "range_min r \<le> range_max r" "low \<le> range_min r" "low \<le> cap"
  shows "range_fits low cap (Some (cap_range cap r))"
  using assms by (auto simp: range_fits_def cap_range_def Let_def)

text \<open>The constraint each generator puts on its family.\<close>

fun spec_supported :: "ruliad_family_kind \<Rightarrow> ruliad_family_config \<Rightarrow> bool" where
  "spec_supported FamilyEca family = range_fits 0 (usize_max - 1) (family_steps family)"
| "spec_supported FamilyAutomaton family = range_fits 1 (usize_max - 1) (family_width family)"
| "spec_supported FamilyAlgebra family = range_fits 1 (usize_max - 1) (family_width family)"
| "spec_supported FamilyCategory family = range_fits 1 (usize_max - 1) (family_width family)"
| "spec_supported FamilyProofTree family = range_fits 0 65537 (family_width family)"
| "spec_supported FamilyFormalProof family = family_fits 0 128 0 10 family"
| "spec_supported _ family = True"

lemma family_kind_scaled [simp]: "family_kind (scale_family_for_difficulty family level) = family_kind family"
  by (simp add: scale_family_for_difficulty_def cap_scaled_family_for_payload_def Let_def case_prod_beta)

lemma scaled_family_fields:
  assumes "payload_caps (family_kind family) = (max_width, max_steps)" "family_kind family \<noteq> FamilyFormalProof" "level \<noteq> 0"
  shows "family_width (scale_family_for_difficulty family level) =
      (case max_width of None \<Rightarrow> id | Some m \<Rightarrow> map_option (cap_range m))
        (map_option (scale_range (min level 4096)) (family_width family))"
    and "family_steps (scale_family_for_difficulty family level) =
      (case max_steps of None \<Rightarrow> id | Some m \<Rightarrow> map_option (cap_range m))
        (map_option (scale_range (min level 4096)) (family_steps family))"
  using assms
  by (auto simp: scale_family_for_difficulty_def cap_scaled_family_for_payload_def Let_def split: option.splits)

lemma scaled_range_fits:
  assumes "range_ok limits" "0 < cap"
  shows "range_fits 1 cap (map_option (cap_range cap) (map_option (scale_range level) limits))"
proof (cases limits)
  case (Some r)
  then have r: "1 \<le> range_min r" "range_min r \<le> range_max r" using assms(1) by (simp_all add: range_ok_def)
  have "1 \<le> range_min (scale_range level r)"
    using r(1) by (auto simp: scale_range_def Let_def sat_add_def usize_max_def)
  then show ?thesis using cap_range_bounds [OF scale_range_ordered [OF r(2)], where low = 1 and cap = cap and level1 = level] assms(2) Some by simp
qed (simp add: range_fits_def)

lemma range_fits_mono: "range_fits low high limits \<Longrightarrow> low' \<le> low \<Longrightarrow> high \<le> high' \<Longrightarrow> range_fits low' high' limits"
  by (auto simp: range_fits_def split: option.splits)

text \<open>Scaling keeps a validated family supported, whatever the level.\<close>

lemma scaled_supported:
  assumes ok: "family_ok family" and "spec_supported (family_kind family) family"
    and "family_kind family \<noteq> FamilyFormalProof"
  shows "spec_supported (family_kind family) (scale_family_for_difficulty family level)"
proof (cases "level = 0")
  case True
  then show ?thesis using assms by (simp add: scale_family_for_difficulty_def)
next
  case False
  note fields = scaled_family_fields [OF _ assms(3) False]
  have fits: "range_fits 1 cap (map_option (cap_range cap) (map_option (scale_range l) (family_width family)))"
    "range_fits 1 cap (map_option (cap_range cap) (map_option (scale_range l) (family_steps family)))"
    if "0 < cap" for cap l
    using ok scaled_range_fits that by (simp_all add: family_ok_def)
  show ?thesis
    using fields assms(3)
    by (cases "family_kind family")
      (auto intro!: range_fits_mono [OF fits(1)] range_fits_mono [OF fits(2)] simp: usize_max_def)
qed

section \<open>Where samples start\<close>

lemma mix_part_inj:
  assumes "mix_part r p = mix_part r' p'" "sm_state r = sm_state r' \<or> p = p'"
  shows "sm_state r = sm_state r' \<and> p = p'"
proof -
  let ?c = "0xD1B54A32D192ED03 :: u64"
  have x: "sm_state r XOR (p + ?c) = sm_state r' XOR (p' + ?c)"
    using arg_cong [OF assms(1), of sm_state] by (simp add: mix_part_def next_u64_def Let_def)
  from assms(2) show ?thesis
  proof
    assume eq: "sm_state r = sm_state r'"
    have "sm_state r XOR (sm_state r XOR (p + ?c)) = sm_state r XOR (sm_state r XOR (p' + ?c))" using x eq by simp
    then show ?thesis using eq by (simp add: xor.assoc [symmetric])
  next
    assume eq: "p = p'"
    from x have "(sm_state r XOR (p + ?c)) XOR (p + ?c) = (sm_state r' XOR (p + ?c)) XOR (p + ?c)"
      unfolding eq by (rule arg_cong)
    then have "sm_state r = sm_state r'" by (simp only: xor.assoc xor_self_eq xor.right_neutral)
    then show ?thesis using eq by simp
  qed
qed

lemma sm_state_eq: "sm_state r = sm_state r' \<longleftrightarrow> r = (r' :: split_mix64)"
  by (cases r; cases r') simp

lemma mix_seed_inj:
  assumes "mix_seed seed (before @ p # after_parts) = mix_seed seed (before @ p' # after_parts)"
  shows "p = p'"
proof -
  have fold: "r = r'" if "foldl mix_part r ps = foldl mix_part r' ps" for r r' ps
    using that
  proof (induction ps arbitrary: r r')
    case (Cons q ps)
    then have "mix_part r q = mix_part r' q" by simp
    from mix_part_inj [OF this] show ?case by (simp only: sm_state_eq simp_thms)
  qed simp
  let ?r = "foldl mix_part (split_mix64_new seed) before"
  have "mix_output (sm_state (foldl mix_part (mix_part ?r p) after_parts) + gamma)
      = mix_output (sm_state (foldl mix_part (mix_part ?r p') after_parts) + gamma)"
    using assms by (simp add: mix_seed_def next_u64_def Let_def)
  from mix_output_inj [OF this]
  have "sm_state (foldl mix_part (mix_part ?r p) after_parts) = sm_state (foldl mix_part (mix_part ?r p') after_parts)"
    by (simp only: add_right_cancel)
  then have "foldl mix_part (mix_part ?r p) after_parts = foldl mix_part (mix_part ?r p') after_parts"
    by (simp only: sm_state_eq)
  then show ?thesis using fold mix_part_inj [of ?r p ?r p'] by blast
qed

lemma word_of_nat_inj: "i \<le> usize_max \<Longrightarrow> j \<le> usize_max \<Longrightarrow> (of_nat i :: u64) = of_nat j \<Longrightarrow> i = j"
  by (simp add: word_of_nat_eq_iff take_bit_nat_eq_self usize_max_def)

section \<open>A whole sample\<close>

text \<open>What the called libraries are relied on for: hashing and serialising never fail, and
  decoding hexadecimal text inverts encoding.\<close>

definition services_ok :: "oracle_services \<Rightarrow> bool" where
  "services_ok env \<longleftrightarrow>
     (\<forall>p. \<exists>h. os_problem_hash env p = Inr h) \<and> (\<forall>s. \<exists>h. os_json_hash env s = Inr h)
     \<and> (\<forall>bytes. os_hex_decode env (os_hex_encode env bytes) = Some bytes)"

definition draws_supported :: "corpus_config \<Rightarrow> ruliad_family_config \<Rightarrow> bool" where
  "draws_supported config family \<longleftrightarrow>
     (if family_kind family = FamilyFormalProof
      then \<forall>level. range_min (ss_difficulty_levels (cc_source_selection config)) \<le> level
             \<and> level \<le> range_max (ss_difficulty_levels (cc_source_selection config))
           \<longrightarrow> spec_supported FamilyFormalProof (scale_family_for_difficulty family level)
      else spec_supported (family_kind family) family)"

definition draws_bounded :: "corpus_config \<Rightarrow> lean_proof_task list \<Rightarrow> bool" where
  "draws_bounded config proof_tasks \<longleftrightarrow>
     sum_list (map family_weight (cc_families config)) \<le> usize_max
     \<and> sum_list (map snd (formal_task_weights (ss_formal_task_mix (cc_source_selection config)))) \<le> usize_max
     \<and> mix_select_proof_action_weight (ss_formal_task_mix (cc_source_selection config)) = 0
     \<and> range_max (ss_difficulty_levels (cc_source_selection config)) < usize_max
     \<and> length proof_tasks \<le> usize_max \<and> (\<forall>family\<in>set (cc_families config). draws_supported config family)"

lemma family_spec_accepted:
  assumes services: "services_ok env" and "length proof_tasks \<le> usize_max"
    and "sum_list (map snd (formal_task_weights (ss_formal_task_mix (cc_source_selection config)))) \<le> usize_max"
    and "mix_select_proof_action_weight (ss_formal_task_mix (cc_source_selection config)) = 0"
    and supported: "spec_supported kind family"
  shows "\<exists>s rng'. family_spec env config proof_tasks split kind family rng = Some (Returned s, rng') \<and> accepted_spec env s"
proof -
  have hash: "\<And>p. \<exists>h. os_problem_hash env p = Inr h" using services by (simp add: services_ok_def)
  have drawn: "\<exists>s rng'. Some x = Some (Returned s, rng') \<and> accepted_spec env s"
    if "\<exists>s. fst x = Returned s \<and> accepted_spec env s" for x :: "sample_spec outcome \<times> split_mix64"
    using that by (cases x) auto
  show ?thesis
  proof (cases kind)
    case FamilyFormalProof
    obtain task rng1 where t: "choose_formal_task (ss_formal_task_mix (cc_source_selection config)) rng = (Returned task, rng1)"
      "task \<in> {ConstructProof, AdvanceProof, CheckProof}"
      using choose_formal_task_Returned [OF assms(3,4), of rng] by (metis prod.collapse)
    have "family_fits 0 128 0 10 family" using supported FamilyFormalProof by simp
    from drawn [OF generate_formal_accepted [where env = env, OF hash this t(2)]] show ?thesis
      using FamilyFormalProof t(1) by (simp add: family_spec_def)
  next
    case FamilyProofTree
    then show ?thesis using supported generate_proof_tree_accepted by (simp add: family_spec_def)
  next
    case FamilyHashNoise
    have "\<And>bytes. os_hex_decode env (os_hex_encode env bytes) = Some bytes" using services by (simp add: services_ok_def)
    from drawn [OF generate_noise_accepted [OF this]] show ?thesis using FamilyHashNoise by (simp add: family_spec_def)
  next
    case FamilyLeanTask
    then show ?thesis using drawn [OF generate_lean_accepted [OF assms(2)]] by (simp add: family_spec_def)
  next
    case FamilyEca
    then have "range_fits 0 (usize_max - 1) (family_steps family)" using supported by simp
    from drawn [OF generate_eca_accepted [OF this]] show ?thesis using FamilyEca by (simp add: family_spec_def)
  next
    case FamilyAutomaton
    then have "range_fits 1 (usize_max - 1) (family_width family)" using supported by simp
    from drawn [OF generate_automaton_accepted [OF this]] show ?thesis using FamilyAutomaton by (simp add: family_spec_def)
  next
    case FamilyAlgebra
    then have "range_fits 1 (usize_max - 1) (family_width family)" using supported by simp
    from drawn [OF generate_algebra_accepted [OF this]] show ?thesis using FamilyAlgebra by (simp add: family_spec_def)
  next
    case FamilyCategory
    then have "range_fits 1 (usize_max - 1) (family_width family)" using supported by simp
    from drawn [OF generate_category_accepted [OF this]] show ?thesis using FamilyCategory by (simp add: family_spec_def)
  next
    case FamilySimulation
    from drawn [OF generate_simulation_accepted] FamilySimulation show ?thesis by (simp add: family_spec_def)
  next
    case FamilyRewrite
    from drawn [OF generate_rewrite_accepted] FamilyRewrite show ?thesis by (simp add: family_spec_def)
  qed
qed

lemma finalize_accepted:
  assumes "services_ok env" "accepted_spec env s"
  shows "\<exists>h. finalize_generated_spec env s = Returned (s, \<lparr> rep_ok = True, rep_family = family_of_spec s,
    rep_task = task_kind_of_spec s, rep_hash = h \<rparr>)"
proof -
  obtain h where "os_json_hash env s = Inr h" using assms(1) unfolding services_ok_def by blast
  then show ?thesis using assms(2) by (simp add: finalize_generated_spec_def verify_spec_def accepted_spec_def)
qed

lemma generate_sample_accepted:
  assumes "validate_corpus config = Inr ()" "services_ok env" "draws_bounded config proof_tasks"
  shows "\<exists>s report. generate_sample env config proof_tasks split epoch sample = Some (Returned (s, report))
    \<and> spec_ok env s = Some True \<and> rep_ok report"
proof -
  let ?rng = "sample_rng (cc_seed config) split epoch sample 0" and ?levels = "ss_difficulty_levels (cc_source_selection config)"
  have ok: "corpus_ok config" using assms(1) by (simp add: validate_corpus_Inr)
  then have "cc_families config \<noteq> []" and fams: "list_all family_ok (cc_families config)"
    and levels: "range_min ?levels \<le> range_max ?levels"
    by (simp_all add: corpus_ok_def source_selection_ok_def)
  then obtain family rng1 where f: "choose_family (cc_families config) ?rng = (Returned family, rng1)"
    "family \<in> set (cc_families config)"
    using choose_family_Returned [of "cc_families config" ?rng] assms(3) by (metis draws_bounded_def prod.collapse)
  obtain level rng2 where l: "range_or (Some ?levels) 0 0 rng1 = (level, rng2)" by fastforce
  have "range_max ?levels < usize_max" using assms(3) by (simp add: draws_bounded_def)
  then have lb: "range_min ?levels \<le> level \<and> level \<le> range_max ?levels"
    using range_usize_bounds [OF levels, of rng1] l by (simp add: range_or_def)
  have fok: "family_ok family" using fams f(2) by (simp add: list_all_iff)
  have "draws_supported config family" using assms(3) f(2) by (simp add: draws_bounded_def)
  then have supported: "spec_supported (family_kind family) (scale_family_for_difficulty family level)"
    using scaled_supported [OF fok] lb by (auto simp: draws_supported_def split: if_splits)
  obtain s rng3 where s: "family_spec env config proof_tasks split (family_kind family)
      (scale_family_for_difficulty family level) rng2 = Some (Returned s, rng3)" "accepted_spec env s"
    using family_spec_accepted [OF assms(2) _ _ _ supported, of proof_tasks config split rng2] assms(3)
    by (auto simp: draws_bounded_def)
  obtain h where "finalize_generated_spec env s = Returned (s, \<lparr> rep_ok = True, rep_family = family_of_spec s,
      rep_task = task_kind_of_spec s, rep_hash = h \<rparr>)"
    using finalize_accepted [OF assms(2) s(2)] by blast
  then show ?thesis using f(1) l s by (simp add: generate_sample_def accepted_spec_def)
qed

text \<open>Nothing else is ever returned: a returned sample has passed the verifier.\<close>

lemma finalize_sound:
  "finalize_generated_spec env s = Returned (s', report) \<Longrightarrow>
     s' = s \<and> rep_ok report \<and> spec_ok env s = Some True \<and> rep_family report = family_of_spec s
     \<and> rep_task report = task_kind_of_spec s"
  by (cases "spec_ok env s"; cases "os_json_hash env s")
    (auto simp: finalize_generated_spec_def verify_spec_def split: if_splits)

end
