(* ===== verification/Ruliad_Oracle_Properties.thy ===== *)
theory Ruliad_Oracle_Properties
  imports Ruliad_Oracle_Sample
begin

text \<open>The properties of the sample oracles, \<open>ruliad/oracles.rs\<close>.\<close>

section \<open>The interpreters behind the samples\<close>

text \<open>C24: the search of a prime ends exactly when there is one to find. From any machine word it returns the
  least prime not below it, and it never returns when no machine word from there on is prime. (Trial
  division itself always ends and decides primality.)\<close>
theorem prime_search_finds_the_least_prime:
  assumes "n \<le> usize_max"
  shows "next_prime_at_least n =
    (if \<exists>p. prime_number p \<and> n \<le> p \<and> p \<le> usize_max then Some (LEAST p. prime_number p \<and> n \<le> p) else None)"
proof (cases "next_prime_at_least n")
  case None
  then show ?thesis using next_prime_returns_iff [OF assms] by auto
next
  case (Some p)
  then have p: "prime_number p" "n \<le> p" "p \<le> usize_max" "\<forall>q. n \<le> q \<and> q < p \<longrightarrow> \<not> prime_number q"
    using next_prime_iff [OF assms] by blast+
  then have "(LEAST p. prime_number p \<and> n \<le> p) = p" by (intro Least_equality) (auto simp: not_less [symmetric])
  then show ?thesis using Some p by auto
qed

theorem prime_search_finds_the_least_prime_witness:
  "\<exists>p. next_prime_at_least 60000 = Some p \<and> p \<le> 65537"
proof -
  have n: "60000 \<le> usize_max" by (simp add: usize_max_def)
  have p: "prime_number 65537 \<and> 60000 \<le> (65537 :: nat) \<and> 65537 \<le> usize_max"
    using prime_65537 by (simp add: usize_max_def)
  then have "next_prime_at_least 60000 = Some (LEAST p. prime_number p \<and> 60000 \<le> p)"
    unfolding prime_search_finds_the_least_prime [OF n] by (subst if_P) blast+
  moreover have "(LEAST p. prime_number p \<and> 60000 \<le> p) \<le> 65537" using p by (intro Least_le) simp
  ultimately show ?thesis by blast
qed

text \<open>C25: rewriting follows the leftmost redex. The trace of a word is the one chain of at most \<open>steps\<close> rewrites that
  each take the leftmost occurrence of a left-hand side (at one place: the first rule of the list),
  and that stops early only at an irreducible word.\<close>
theorem rewriting_follows_the_leftmost_redex:
  "rewrite_chain rules steps word ws \<longleftrightarrow> ws = rewrite_trace word rules steps"
  using rewrite_chain_trace rewrite_trace_chain by blast

text \<open>C26: an accepted rewrite sample is normalised when its step budget covers its input: every rule of an accepted
  sample shortens the word, so with at least as many steps as symbols the recorded normal form is
  irreducible. (With fewer steps it is only the last word of the trace.)\<close>
theorem accepted_rewriting_reaches_the_normal_form:
  assumes "rewrite_sample_ok s" and "length (rw_initial s) \<le> rw_steps s"
  shows "irreducible (rw_rules s) (rw_normal_form s)"
proof -
  have "rw_normal_form s = last (rewrite_trace (rw_initial s) (rw_rules s) (rw_steps s))"
    "\<forall>r\<in>set (rw_rules s). length (rule_to r) < length (rule_from r)"
    using assms(1) by (auto simp: rewrite_sample_ok_def Let_def list_all_iff rewrite_rule_ok_def)
  then show ?thesis using rewrite_chain_ends [OF rewrite_trace_chain _ assms(2)] by metis
qed

definition sample_rewriting :: rewrite_spec where
  "sample_rewriting =
     \<lparr> rw_alphabet = ''AB'', rw_rules = [\<lparr> rule_from = ''AB'', rule_to = ''B'' \<rparr>], rw_initial = ''AAB'', rw_steps = 3,
       rw_trace = [''AAB'', ''AB'', ''B''], rw_normal_form = ''B'', rw_task = RewriteNormalForm \<rparr>"

theorem accepted_rewriting_reaches_the_normal_form_witness:
  "irreducible [\<lparr> rule_from = ''AB'', rule_to = ''B'' \<rparr>] ''B''"
proof -
  have "rewrite_sample_ok sample_rewriting" by code_simp
  from accepted_rewriting_reaches_the_normal_form [OF this] show ?thesis by (simp add: sample_rewriting_def)
qed

text \<open>An accepted cellular automaton is the orbit it claims: a sample of a cellular automaton is accepted exactly
  when its width is that of its initial state and its frames are the iterates of the rule on it,
  one for each step.\<close>
theorem accepted_eca_samples_are_orbits:
  assumes "eca_steps s < usize_max"
  shows "eca_sample_ok s \<longleftrightarrow>
    eca_width s = length (parse_state (eca_initial s))
    \<and> parse_trace (eca_states s)
        = map (\<lambda>k. (eca_step (eca_rule s) ^^ k) (parse_state (eca_initial s))) [0..<Suc (eca_steps s)]"
proof -
  have "sat_add (eca_steps s) 1 = Suc (eca_steps s)" using assms by (simp add: sat_add_def)
  then show ?thesis
    by (auto simp: eca_sample_ok_def Let_def states_equal_iff eca_trace_eq simp del: upt_Suc)
qed

theorem accepted_eca_samples_are_orbits_witness:
  "\<not> eca_sample_ok \<lparr> eca_rule = 110, eca_width = 3, eca_steps = 1, eca_initial = ''010'',
      eca_states = [''010'', ''010''], eca_task = NextState \<rparr>"
proof -
  let ?s = "\<lparr> eca_rule = 110, eca_width = 3, eca_steps = 1, eca_initial = ''010'',
      eca_states = [''010'', ''010''], eca_task = NextState \<rparr> :: eca_spec"
  have "eca_steps ?s < usize_max" by (simp add: usize_max_def)
  note orbit = accepted_eca_samples_are_orbits [OF this]
  have "eca_step 110 [0, 1, 0] \<noteq> [0, 1, 0]" by code_simp
  then show ?thesis unfolding orbit by (simp add: parse_trace_def)
qed

text \<open>C32: the check of a proof tree panics on a zero modulus: the remainders are taken before the modulus is compared
  with 2, so a record with modulus 0 is not refused but ends the verifier.\<close>
theorem proof_tree_check_panics_on_modulus_zero:
  assumes "pt_modulus s = 0"
  shows "verify_spec env (ProofTreeSample s) = Panicked"
  using assms
  by (auto simp: verify_spec_def proof_tree_sample_ok_def mod_sum_def checked_mod_def Option.bind_eq_None_conv
      split: Option.bind_splits)

theorem proof_tree_check_panics_on_modulus_zero_witness:
  "\<forall>env. verify_spec env (ProofTreeSample
     \<lparr> pt_modulus = 0, pt_u = (0, 0), pt_v = (0, 0), pt_sum = (0, 0), pt_dot = 0, pt_norm_u = 0, pt_norm_v = 0,
       pt_norm_sum = 0, pt_lhs = 0, pt_rhs = 0, pt_holds = True, pt_lemmas = [], pt_proof_steps = [],
       pt_task = ProveTheorem \<rparr>) = Panicked"
  by (rule allI) (rule proof_tree_check_panics_on_modulus_zero, simp)

section \<open>Drawing samples\<close>

text \<open>Scaling keeps a family within its payload. At every difficulty level above 0, the scaled width and steps of a
  validated family stay ordered, positive, and below the caps of its kind.\<close>
theorem scaled_ranges_fit_the_payload:
  assumes "family_ok family" and "0 < level" and "payload_caps (family_kind family) = (Some width_cap, steps_cap)"
  shows "range_fits 1 width_cap (family_width (scale_family_for_difficulty family level))
    \<and> (\<forall>cap. steps_cap = Some cap \<longrightarrow> range_fits 1 cap (family_steps (scale_family_for_difficulty family level)))"
proof -
  have kind: "family_kind family \<noteq> FamilyFormalProof" using assms(3) by auto
  have "0 < width_cap \<and> (\<forall>cap. steps_cap = Some cap \<longrightarrow> 0 < cap)" using assms(3) by (cases "family_kind family") auto
  then show ?thesis
    using scaled_family_fields [OF assms(3) kind] assms(1,2) scaled_range_fits by (auto simp: family_ok_def)
qed

theorem scaled_ranges_fit_the_payload_witness:
  "range_fits 1 128 (family_width (scale_family_for_difficulty (family_of FamilyEca 4 (usize_range_of 16 32) None) 900))"
proof -
  let ?f = "family_of FamilyEca 4 (usize_range_of 16 32) None"
  have "family_ok ?f" "payload_caps (family_kind ?f) = (Some 128, Some 64)"
    by (simp_all add: family_of_def usize_range_of_def family_ok_def range_ok_def)
  from scaled_ranges_fit_the_payload [OF this(1) _ this(2), of 900] show ?thesis by simp
qed

text \<open>The samples of a corpus start apart: for one seed, split and epoch, two samples with different numbers
  start the random generator in different states.\<close>
theorem samples_start_apart:
  assumes "i \<le> usize_max" and "j \<le> usize_max"
    and "sample_rng seed split epoch i tag = sample_rng seed split epoch j tag"
  shows "i = j"
proof -
  let ?mix = "\<lambda>i. mix_seed seed ([case split of TrainSplit \<Rightarrow> train_split_tag | ValidationSplit \<Rightarrow> val_split_tag,
      of_nat (case split of TrainSplit \<Rightarrow> epoch | ValidationSplit \<Rightarrow> 0)] @ of_nat i # (if tag = 0 then [] else [tag]))"
  have "?mix i = ?mix j"
    using assms(3) by (simp add: sample_rng_def Let_def split_mix64_new_def split: if_splits)
  then have "(of_nat i :: u64) = of_nat j" by (rule mix_seed_inj)
  then show ?thesis by (rule word_of_nat_inj [OF assms(1,2)])
qed

theorem samples_start_apart_witness: "sample_rng 7 TrainSplit 0 1 0 \<noteq> sample_rng 7 TrainSplit 0 2 0"
  using samples_start_apart [of 1 2 7 TrainSplit 0 0] by (auto simp: usize_max_def)

end
