(* ===== verification/Ruliad_Tokenizer.thy ===== *)
theory Ruliad_Tokenizer
  imports Ruliad_Config
begin

unbundle bit_operations_syntax

text \<open>
  The tokenizer of Ruliad documents, \<open>ruliad/tokenize.rs\<close>: its three modes, the scan of a text
  into structural, separator, lexeme and byte tokens, documents of a fixed length, and decoding.
  A token is a 32-bit word; sums of tokens wrap, which they do not for vocabularies below 2^32.
  The arms marked \<open>unreachable!\<close> are \<^const>\<open>Panicked\<close>.
\<close>

section \<open>Bytes\<close>

definition byte_code :: "char \<Rightarrow> nat" where
  "byte_code c = of_char c"

definition ascii_digit :: "char \<Rightarrow> bool" where
  "ascii_digit c \<longleftrightarrow> 48 \<le> byte_code c \<and> byte_code c \<le> 57"

definition ascii_uppercase :: "char \<Rightarrow> bool" where
  "ascii_uppercase c \<longleftrightarrow> 65 \<le> byte_code c \<and> byte_code c \<le> 90"

definition ascii_lowercase :: "char \<Rightarrow> bool" where
  "ascii_lowercase c \<longleftrightarrow> 97 \<le> byte_code c \<and> byte_code c \<le> 122"

definition ascii_alphabetic :: "char \<Rightarrow> bool" where
  "ascii_alphabetic c \<longleftrightarrow> ascii_uppercase c \<or> ascii_lowercase c"

definition ascii_alphanumeric :: "char \<Rightarrow> bool" where
  "ascii_alphanumeric c \<longleftrightarrow> ascii_alphabetic c \<or> ascii_digit c"

definition ascii_hexdigit :: "char \<Rightarrow> bool" where
  "ascii_hexdigit c \<longleftrightarrow>
     ascii_digit c \<or> (65 \<le> byte_code c \<and> byte_code c \<le> 70) \<or> (97 \<le> byte_code c \<and> byte_code c \<le> 102)"

definition ascii_space :: "char \<Rightarrow> bool" where
  "ascii_space c \<longleftrightarrow> byte_code c \<in> {9, 10, 12, 13, 32}"

definition to_ascii_lowercase :: "char \<Rightarrow> char" where
  "to_ascii_lowercase c = (if ascii_uppercase c then char_of (byte_code c + 32) else c)"

text \<open>\<open>char::from_u32\<close> and \<open>String::push\<close>: the UTF-8 bytes of a scalar value.\<close>

definition utf8_bytes :: "nat \<Rightarrow> string option" where
  "utf8_bytes v =
     (if v < 0x80 then Some [char_of v]
      else if v < 0x800 then Some [char_of (0xC0 + v div 64), char_of (0x80 + v mod 64)]
      else if 0xD800 \<le> v \<and> v \<le> 0xDFFF then None
      else if v < 0x10000 then
        Some [char_of (0xE0 + v div 4096), char_of (0x80 + v div 64 mod 64), char_of (0x80 + v mod 64)]
      else if v < 0x110000 then
        Some [char_of (0xF0 + v div 262144), char_of (0x80 + v div 4096 mod 64),
              char_of (0x80 + v div 64 mod 64), char_of (0x80 + v mod 64)]
      else None)"

section \<open>Modes\<close>

type_synonym token = u32

datatype tokenizer_mode =
  ByteCompatibleMode nat "token option"
| SymbolicMode nat "token option"
| StructuredMode nat "token option"

definition raw_byte_token_count :: nat where
  "raw_byte_token_count = 256"

definition symbolic_structural_token_count :: nat where
  "symbolic_structural_token_count = 10"

definition structured_class_token_start :: nat where
  "structured_class_token_start = raw_byte_token_count + symbolic_structural_token_count"

definition structured_reserved_token_count :: nat where
  "structured_reserved_token_count = structured_class_token_start + 5"

definition structured_max_lexeme_bytes :: nat where
  "structured_max_lexeme_bytes = 32"

fun tokenizer_from_config :: "tokenization_config \<Rightarrow> string + tokenizer_mode" where
  "tokenizer_from_config (Gpt2ByteCompatible vocab_size eos) =
     (if vocab_size < 257 then Inl ''ruliad byte tokenizer vocab_size must be >= 257''
      else Inr (ByteCompatibleMode vocab_size eos))"
| "tokenizer_from_config (Symbolic vocab_size eos) =
     (if vocab_size < 512 then Inl ''ruliad symbolic tokenizer vocab_size must be >= 512''
      else Inr (SymbolicMode vocab_size eos))"
| "tokenizer_from_config (StructuredSymbolic vocab_size eos) =
     (if vocab_size < structured_reserved_token_count + 1
      then Inl ''ruliad structured symbolic tokenizer vocab_size must be >= 272''
      else if (case eos of None \<Rightarrow> False | Some e \<Rightarrow> e < of_nat structured_reserved_token_count)
      then Inl ''ruliad structured symbolic eos_id must not collide with byte, structural, or class tokens''
      else Inr (StructuredMode vocab_size eos))"

datatype tokenizer_family = FamilyGpt2Bytes | FamilyPatchTokenIds | FamilyRustBpe | FamilyRuliadSymbolic

record tokenizer_manifest =
  tm_family :: tokenizer_family
  tm_vocab_size :: nat
  tm_bos :: "token option"
  tm_eos :: "token option"
  tm_frame_special_tokens :: bool
  tm_pad :: "token option"
  tm_unk :: "token option"
  tm_tokenizer_id :: string

definition manifest_of :: "tokenizer_family \<Rightarrow> nat \<Rightarrow> token option \<Rightarrow> string \<Rightarrow> tokenizer_manifest" where
  "manifest_of family vocab_size eos ident =
     \<lparr> tm_family = family, tm_vocab_size = vocab_size, tm_bos = None, tm_eos = eos,
       tm_frame_special_tokens = False, tm_pad = None, tm_unk = None, tm_tokenizer_id = ident \<rparr>"

fun tokenizer_manifest_of_mode :: "tokenizer_mode \<Rightarrow> tokenizer_manifest" where
  "tokenizer_manifest_of_mode (ByteCompatibleMode vocab_size eos) =
     manifest_of FamilyGpt2Bytes vocab_size eos ''ruliad-byte-v1''"
| "tokenizer_manifest_of_mode (SymbolicMode vocab_size eos) =
     manifest_of FamilyRuliadSymbolic vocab_size eos (''ruliad-symbolic-v6:'' @ show_nat vocab_size)"
| "tokenizer_manifest_of_mode (StructuredMode vocab_size eos) =
     manifest_of FamilyRuliadSymbolic vocab_size eos (''ruliad-structured-symbolic-v3:'' @ show_nat vocab_size)"

fun tokenizer_eos :: "tokenizer_mode \<Rightarrow> token option" where
  "tokenizer_eos (ByteCompatibleMode _ eos) = eos"
| "tokenizer_eos (SymbolicMode _ eos) = eos"
| "tokenizer_eos (StructuredMode _ eos) = eos"

definition payload_token_capacity :: "tokenizer_mode \<Rightarrow> nat \<Rightarrow> nat" where
  "payload_token_capacity mode document_tokens =
     document_tokens - of_bool (tokenizer_eos mode \<noteq> None)"

section \<open>Tokens\<close>

datatype symbolic_class = ClassAlpha | ClassNumber | ClassHex | ClassMixed | ClassFiller

datatype structural_token =
  TraceStart | TraceNode | TraceEnd | DocumentStart | MetadataToken
| DataToken | QueryToken | ProofStepToken | AnswerToken | DocumentEnd

fun structural_index :: "structural_token \<Rightarrow> token" where
  "structural_index TraceStart = 0"
| "structural_index TraceNode = 1"
| "structural_index TraceEnd = 2"
| "structural_index DocumentStart = 3"
| "structural_index MetadataToken = 4"
| "structural_index DataToken = 5"
| "structural_index QueryToken = 6"
| "structural_index ProofStepToken = 7"
| "structural_index AnswerToken = 8"
| "structural_index DocumentEnd = 9"

fun structural_label :: "structural_token \<Rightarrow> string" where
  "structural_label TraceStart = ''trace_start''"
| "structural_label TraceNode = ''trace_node''"
| "structural_label TraceEnd = ''trace_end''"
| "structural_label DocumentStart = ''doc_start''"
| "structural_label MetadataToken = ''metadata''"
| "structural_label DataToken = ''data''"
| "structural_label QueryToken = ''query''"
| "structural_label ProofStepToken = ''proof_step''"
| "structural_label AnswerToken = ''answer''"
| "structural_label DocumentEnd = ''doc_end''"

text \<open>FNV-1a.\<close>

definition stable_text_hash :: "string \<Rightarrow> u64" where
  "stable_text_hash text_value =
     foldl (\<lambda>hash byte. (hash XOR of_char byte) * 0x100000001B3) 0xCBF29CE484222325 text_value"

fun class_index :: "symbolic_class \<Rightarrow> u64" where
  "class_index ClassAlpha = 0"
| "class_index ClassNumber = 1"
| "class_index ClassHex = 2"
| "class_index ClassMixed = 3"
| "class_index ClassFiller = 4"

definition bucket_token_of :: "nat \<Rightarrow> token option \<Rightarrow> u64 \<Rightarrow> token" where
  "bucket_token_of vocab_size eos mixed =
     (let bucket_start = raw_byte_token_count + symbolic_structural_token_count;
          bucket_count = max (vocab_size - bucket_start) 1;
          token = of_nat bucket_start + ucast (mixed mod of_nat bucket_count)
      in if Some token = eos then
           let token' = of_nat bucket_start + ucast ((ucast token + 1) mod (of_nat bucket_count :: u64))
           in if Some token' = eos then of_nat bucket_start else token'
         else token)"

definition symbolic_bucket_token :: "symbolic_class \<Rightarrow> u64 \<Rightarrow> tokenizer_mode \<Rightarrow> token outcome" where
  "symbolic_bucket_token cls hash mode =
     (case mode of
        SymbolicMode vocab_size eos \<Rightarrow>
          Returned (bucket_token_of vocab_size eos (hash XOR (class_index cls * 0xD1B54A32D192ED03)))
      | ByteCompatibleMode _ _ \<Rightarrow> Panicked
      | StructuredMode _ _ \<Rightarrow> Panicked)"

definition symbolic_structural_token :: "structural_token \<Rightarrow> tokenizer_mode \<Rightarrow> token outcome" where
  "symbolic_structural_token kind mode =
     (case mode of
        ByteCompatibleMode _ _ \<Rightarrow> Panicked
      | _ \<Rightarrow>
          (let token = of_nat raw_byte_token_count + structural_index kind in
           if Some token = tokenizer_eos mode
           then symbolic_bucket_token ClassMixed (stable_text_hash (structural_label kind)) mode
           else Returned token))"

section \<open>Markers and lexemes\<close>

definition starts_with :: "string \<Rightarrow> string \<Rightarrow> bool" where
  "starts_with bytes marker \<longleftrightarrow> take (length marker) bytes = marker"

definition trace_node_marker_len :: "string \<Rightarrow> nat option" where
  "trace_node_marker_len bytes =
     (case bytes of
        [] \<Rightarrow> None
      | first # rest \<Rightarrow>
          if first \<noteq> CHR ''N'' then None
          else let digits = takeWhile ascii_digit rest in
            if digits \<noteq> [] \<and> starts_with (drop (length digits) rest) ''<'' then Some 1 else None)"

definition symbolic_structural_marker :: "string \<Rightarrow> (structural_token \<times> nat) option" where
  "symbolic_structural_marker bytes =
     (if starts_with bytes ''[T'' then Some (TraceStart, 2)
      else if starts_with bytes ''[/T]'' then Some (TraceEnd, 4)
      else case trace_node_marker_len bytes of
        Some consumed \<Rightarrow> Some (TraceNode, consumed)
      | None \<Rightarrow>
          if starts_with bytes ''[R2'' \<or> starts_with bytes ''[R3'' then Some (DocumentStart, 3)
          else if starts_with bytes ''[/R2]'' \<or> starts_with bytes ''[/R3]'' then Some (DocumentEnd, 5)
          else if starts_with bytes ''S:'' then Some (MetadataToken, 2)
          else if starts_with bytes ''G:'' then Some (DataToken, 2)
          else if starts_with bytes ''?:'' then Some (QueryToken, 2)
          else if starts_with bytes ''!:'' then Some (AnswerToken, 2)
          else if starts_with bytes ''>'' then Some (ProofStepToken, 1)
          else None)"

text \<open>The text is given as the byte before the position (none at the start) and the bytes from it on.\<close>

definition structured_symbolic_structural_marker :: "char option \<Rightarrow> string \<Rightarrow> (structural_token \<times> nat) option" where
  "structured_symbolic_structural_marker before bytes =
     (let at_line_start = (before = None \<or> before = Some (char_of (10 :: nat))) in
      if \<not> at_line_start then
        if starts_with bytes ''[/R2]'' \<or> starts_with bytes ''[/R3]'' then Some (DocumentEnd, 5)
        else if starts_with bytes ''[/T]'' then Some (TraceEnd, 4)
        else None
      else symbolic_structural_marker bytes)"

definition is_symbolic_lexeme_byte :: "char \<Rightarrow> bool" where
  "is_symbolic_lexeme_byte byte \<longleftrightarrow> ascii_alphanumeric byte \<or> byte = CHR ''_'' \<or> byte = CHR ''-''"

definition is_symbolic_separator_byte :: "char \<Rightarrow> bool" where
  "is_symbolic_separator_byte byte \<longleftrightarrow> byte \<in> set '',;:=|().*+@/<>[]?!''"

definition is_hash_boilerplate_lexeme :: "string \<Rightarrow> bool" where
  "is_hash_boilerplate_lexeme lexeme \<longleftrightarrow> 8 \<le> length lexeme \<and> list_all ascii_hexdigit lexeme"

definition numbered_by :: "char \<Rightarrow> string \<Rightarrow> bool option" where
  "numbered_by letter lexeme =
     (case lexeme of
        [] \<Rightarrow> None
      | first # rest \<Rightarrow> if first = letter then Some (rest \<noteq> [] \<and> list_all ascii_digit rest) else None)"

definition is_symbolic_boilerplate_lexeme :: "string \<Rightarrow> bool" where
  "is_symbolic_boilerplate_lexeme lexeme =
     (if lexeme = [] \<or> list_all (\<lambda>byte. byte = CHR ''-'') lexeme then True
      else if length lexeme = 1 \<and> list_all ascii_uppercase lexeme then True
      else if lexeme = ''R2'' \<or> lexeme = ''R3'' then True
      else if is_hash_boilerplate_lexeme lexeme then True
      else case numbered_by (CHR ''N'') lexeme of
        Some answer \<Rightarrow> answer
      | None \<Rightarrow>
          (case numbered_by (CHR ''n'') lexeme of
             Some answer \<Rightarrow> answer
           | None \<Rightarrow> (case numbered_by (CHR ''v'') lexeme of Some answer \<Rightarrow> answer | None \<Rightarrow> False)))"

definition symbolic_lexeme_class :: "string \<Rightarrow> symbolic_class" where
  "symbolic_lexeme_class lexeme =
     (if list_all ascii_digit lexeme then ClassNumber
      else if 6 \<le> length lexeme \<and> list_all ascii_hexdigit lexeme then ClassHex
      else if list_all (\<lambda>byte. ascii_alphabetic byte \<or> byte = CHR ''_'') lexeme then ClassAlpha
      else ClassMixed)"

definition symbolic_lexeme_token :: "string \<Rightarrow> tokenizer_mode \<Rightarrow> token outcome" where
  "symbolic_lexeme_token lexeme mode =
     symbolic_bucket_token (symbolic_lexeme_class lexeme) (stable_text_hash lexeme) mode"

definition normalized_structured_lexeme_byte :: "char \<Rightarrow> char option" where
  "normalized_structured_lexeme_byte byte =
     (if ascii_alphanumeric byte then Some (to_ascii_lowercase byte)
      else if byte = CHR ''_'' \<or> byte = CHR ''-'' then Some byte
      else None)"

definition byte_token :: "char \<Rightarrow> token" where
  "byte_token byte = of_char byte"

definition structured_lexeme_tokens :: "string \<Rightarrow> token list" where
  "structured_lexeme_tokens lexeme =
     map byte_token (take structured_max_lexeme_bytes
       (List.map_filter normalized_structured_lexeme_byte lexeme))"

section \<open>Scanning a text\<close>

definition push_token :: "token outcome \<Rightarrow> token list outcome \<Rightarrow> token list outcome" where
  "push_token t rest = outcome_bind t (\<lambda>x. outcome_bind rest (\<lambda>xs. Returned (x # xs)))"

definition push_tokens :: "token list \<Rightarrow> token list outcome \<Rightarrow> token list outcome" where
  "push_tokens xs rest = outcome_bind rest (\<lambda>ys. Returned (xs @ ys))"

lemma marker_consumes:
  "symbolic_structural_marker bytes = Some (kind, consumed) \<Longrightarrow> 0 < consumed"
  "structured_symbolic_structural_marker before bytes = Some (kind, consumed) \<Longrightarrow> 0 < consumed"
  by (auto simp: symbolic_structural_marker_def structured_symbolic_structural_marker_def
      trace_node_marker_len_def Let_def split: if_splits list.splits option.splits)

function symbolic_payload_tokens :: "tokenizer_mode \<Rightarrow> string \<Rightarrow> token list outcome" where
  "symbolic_payload_tokens mode bytes =
     (case bytes of
        [] \<Rightarrow> Returned []
      | byte # rest \<Rightarrow>
          (case symbolic_structural_marker bytes of
             Some (kind, consumed) \<Rightarrow>
               push_token (symbolic_structural_token kind mode) (symbolic_payload_tokens mode (drop consumed bytes))
           | None \<Rightarrow>
               if ascii_space byte then symbolic_payload_tokens mode rest
               else if is_symbolic_separator_byte byte then symbolic_payload_tokens mode rest
               else if is_symbolic_lexeme_byte byte then
                 let lexeme = byte # takeWhile is_symbolic_lexeme_byte rest;
                     remaining = dropWhile is_symbolic_lexeme_byte rest
                 in if is_symbolic_boilerplate_lexeme lexeme then symbolic_payload_tokens mode remaining
                    else push_token (symbolic_lexeme_token lexeme mode) (symbolic_payload_tokens mode remaining)
               else push_tokens [byte_token byte] (symbolic_payload_tokens mode rest)))"
  by pat_completeness auto
termination
  by (relation "measure (\<lambda>(mode, bytes). length bytes)")
    (auto dest: marker_consumes simp: le_imp_less_Suc length_dropWhile_le)

declare symbolic_payload_tokens.simps [simp del]

function structured_payload_tokens :: "tokenizer_mode \<Rightarrow> char option \<Rightarrow> string \<Rightarrow> token list outcome" where
  "structured_payload_tokens mode before bytes =
     (case bytes of
        [] \<Rightarrow> Returned []
      | byte # rest \<Rightarrow>
          (case structured_symbolic_structural_marker before bytes of
             Some (kind, consumed) \<Rightarrow>
               push_token (symbolic_structural_token kind mode)
                 (structured_payload_tokens mode (Some (bytes ! (consumed - 1))) (drop consumed bytes))
           | None \<Rightarrow>
               if ascii_space byte then structured_payload_tokens mode (Some byte) rest
               else if is_symbolic_separator_byte byte then
                 push_tokens (if byte = CHR ''['' \<or> byte = CHR '']'' then [] else [byte_token byte])
                   (structured_payload_tokens mode (Some byte) rest)
               else if is_symbolic_lexeme_byte byte then
                 let lexeme = byte # takeWhile is_symbolic_lexeme_byte rest;
                     remaining = dropWhile is_symbolic_lexeme_byte rest
                 in push_tokens (if is_symbolic_boilerplate_lexeme lexeme then [] else structured_lexeme_tokens lexeme)
                      (structured_payload_tokens mode (Some (last lexeme)) remaining)
               else push_tokens [byte_token byte] (structured_payload_tokens mode (Some byte) rest)))"
  by pat_completeness auto
termination
  by (relation "measure (\<lambda>(mode, before, bytes). length bytes)")
    (auto dest: marker_consumes simp: le_imp_less_Suc length_dropWhile_le)

declare structured_payload_tokens.simps [simp del]

section \<open>Documents\<close>

fun encode_payload :: "tokenizer_mode \<Rightarrow> string \<Rightarrow> token list outcome" where
  "encode_payload (ByteCompatibleMode v e) text_value = Returned (map byte_token text_value)"
| "encode_payload (SymbolicMode v e) text_value = symbolic_payload_tokens (SymbolicMode v e) text_value"
| "encode_payload (StructuredMode v e) text_value = structured_payload_tokens (StructuredMode v e) None text_value"

fun payload_token_count :: "tokenizer_mode \<Rightarrow> string \<Rightarrow> nat outcome" where
  "payload_token_count (ByteCompatibleMode v e) text_value = Returned (length text_value)"
| "payload_token_count (SymbolicMode v e) text_value =
     outcome_bind (symbolic_payload_tokens (SymbolicMode v e) text_value) (\<lambda>ts. Returned (length ts))"
| "payload_token_count (StructuredMode v e) text_value =
     outcome_bind (structured_payload_tokens (StructuredMode v e) None text_value) (\<lambda>ts. Returned (length ts))"

fun fill_token :: "tokenizer_mode \<Rightarrow> token outcome" where
  "fill_token (ByteCompatibleMode v e) = Returned (case e of Some t \<Rightarrow> t | None \<Rightarrow> 10)"
| "fill_token (SymbolicMode v e) =
     (case e of Some t \<Rightarrow> Returned t | None \<Rightarrow> symbolic_structural_token DocumentEnd (SymbolicMode v e))"
| "fill_token (StructuredMode v e) =
     (case e of Some t \<Rightarrow> Returned t | None \<Rightarrow> symbolic_structural_token DocumentEnd (StructuredMode v e))"

fun fill_document :: "tokenizer_mode \<Rightarrow> nat \<Rightarrow> token list \<Rightarrow> token list outcome" where
  "fill_document mode 0 tokens = Returned tokens"
| "fill_document mode (Suc missing) tokens =
     outcome_bind (fill_token mode) (\<lambda>t. fill_document mode missing (tokens @ [t]))"

definition encode_document :: "tokenizer_mode \<Rightarrow> string \<Rightarrow> nat \<Rightarrow> token list outcome" where
  "encode_document mode text_value document_tokens =
     (let payload_len = payload_token_capacity mode document_tokens in
      outcome_bind (encode_payload mode text_value) (\<lambda>payload.
        let tokens = take payload_len payload;
            tokens' = (case tokenizer_eos mode of
              Some eos \<Rightarrow> if length tokens < document_tokens then tokens @ [eos] else tokens
            | None \<Rightarrow> tokens)
        in outcome_bind (fill_document mode (document_tokens - length tokens') tokens')
             (\<lambda>filled. Returned (take document_tokens filled))))"

definition encode_compact_document :: "tokenizer_mode \<Rightarrow> string \<Rightarrow> token list outcome" where
  "encode_compact_document mode text_value =
     outcome_bind (encode_payload mode text_value) (\<lambda>tokens.
       Returned (case tokenizer_eos mode of None \<Rightarrow> tokens | Some eos \<Rightarrow> tokens @ [eos]))"

section \<open>Decoding\<close>

definition push_marker :: "string \<Rightarrow> string \<Rightarrow> string" where
  "push_marker text_value marker =
     (if text_value \<noteq> [] \<and> last text_value \<noteq> char_of (10 :: nat)
      then text_value @ [char_of (10 :: nat)] @ marker else text_value @ marker)"

definition push_scalar :: "string \<Rightarrow> token \<Rightarrow> string" where
  "push_scalar text_value t = (case utf8_bytes (unat t) of None \<Rightarrow> text_value | Some bytes \<Rightarrow> text_value @ bytes)"

definition decode_symbolic_token :: "string \<Rightarrow> token \<Rightarrow> bool \<Rightarrow> string" where
  "decode_symbolic_token text_value t structured =
     (if unat t \<le> 255 then if structured then push_scalar text_value t else text_value
      else if t = 256 then push_marker text_value ''[T''
      else if t = 257 then push_marker text_value ''N<''
      else if t = 258 then push_marker text_value ''[/T]''
      else if t = 259 then push_marker text_value ''[R2''
      else if t = 260 then push_marker text_value ''S:''
      else if t = 261 then push_marker text_value ''G:''
      else if t = 262 then push_marker text_value ''?:''
      else if t = 263 then push_marker text_value ''>''
      else if t = 264 then push_marker text_value ''!:''
      else if t = 265 then push_marker text_value ''[/R2]''
      else text_value)"

fun decode_token :: "tokenizer_mode \<Rightarrow> string \<Rightarrow> token \<Rightarrow> string" where
  "decode_token (ByteCompatibleMode v e) text_value t = push_scalar text_value t"
| "decode_token (SymbolicMode v e) text_value t = decode_symbolic_token text_value t False"
| "decode_token (StructuredMode v e) text_value t = decode_symbolic_token text_value t True"

fun decode_loop :: "tokenizer_mode \<Rightarrow> bool \<Rightarrow> string \<Rightarrow> token list \<Rightarrow> string" where
  "decode_loop mode stop_at_eos text_value [] = text_value"
| "decode_loop mode stop_at_eos text_value (t # ts) =
     (if Some t = tokenizer_eos mode then
        if stop_at_eos then text_value else decode_loop mode stop_at_eos text_value ts
      else decode_loop mode stop_at_eos (decode_token mode text_value t) ts)"

definition decode_payload :: "tokenizer_mode \<Rightarrow> token list \<Rightarrow> bool \<Rightarrow> string" where
  "decode_payload mode tokens stop_at_eos = decode_loop mode stop_at_eos [] tokens"

end
