(* ===== verification/Ruliad_Tokenizer_Proofs.thy ===== *)
theory Ruliad_Tokenizer_Proofs
  imports Ruliad_Tokenizer
begin

text \<open>
  The tokenizers that \<open>from_config\<close> constructs never reach an unreachable arm, and what tokens
  they can emit. A property of every token a scan emits follows from the structural, lexeme
  and byte tokens alone: the interfaces \<open>token_alphabet\<close> and \<open>lexeme_alphabet\<close>.
\<close>

section \<open>Constructed tokenizers\<close>

fun constructed :: "tokenizer_mode \<Rightarrow> bool" where
  "constructed (ByteCompatibleMode v e) \<longleftrightarrow> 257 \<le> v"
| "constructed (SymbolicMode v e) \<longleftrightarrow> 512 \<le> v"
| "constructed (StructuredMode v e) \<longleftrightarrow> 272 \<le> v \<and> (\<forall>t. e = Some t \<longrightarrow> 271 \<le> t)"

lemmas reserved_defs = raw_byte_token_count_def symbolic_structural_token_count_def
  structured_class_token_start_def structured_reserved_token_count_def

lemma tokenizer_from_config_Inr: "tokenizer_from_config c = Inr mode \<Longrightarrow> constructed mode"
  by (cases c) (auto simp: reserved_defs not_less split: if_splits option.splits)

section \<open>Alphabets\<close>

lemma push_token_Returned: "push_token (Returned t) (Returned ts) = Returned (t # ts)"
  by (simp add: push_token_def)

lemma push_tokens_Returned: "push_tokens xs (Returned ts) = Returned (xs @ ts)"
  by (simp add: push_tokens_def)

locale token_alphabet =
  fixes mode :: tokenizer_mode and valid :: bool and good :: "token \<Rightarrow> bool"
  assumes structural: "valid \<Longrightarrow> \<exists>t. symbolic_structural_token kind mode = Returned t \<and> good t"
    and byte: "valid \<Longrightarrow> good (byte_token c)"
begin

lemma good_lexeme: "valid \<Longrightarrow> list_all good (structured_lexeme_tokens lexeme)"
  using byte by (auto simp: structured_lexeme_tokens_def list_all_iff)

lemma pushed: "list_all good xs \<Longrightarrow> \<exists>ts. r = Returned ts \<and> list_all good ts \<Longrightarrow>
   \<exists>ts. push_tokens xs r = Returned ts \<and> list_all good ts"
  by (auto simp: push_tokens_Returned)

lemma pushed_one: "\<exists>t. m = Returned t \<and> good t \<Longrightarrow> \<exists>ts. r = Returned ts \<and> list_all good ts \<Longrightarrow>
   \<exists>ts. push_token m r = Returned ts \<and> list_all good ts"
  by (auto simp: push_token_Returned)

lemma structured_scan:
  assumes valid
  shows "\<exists>ts. structured_payload_tokens mode before bytes = Returned ts \<and> list_all good ts"
proof (induction "length bytes" arbitrary: before bytes rule: less_induct)
  case less
  show ?case
  proof (cases bytes)
    case Nil
    then show ?thesis by (subst structured_payload_tokens.simps) simp
  next
    case (Cons b rest)
    have IH: "\<exists>ts. structured_payload_tokens mode bf bs = Returned ts \<and> list_all good ts" if "length bs \<le> length rest" for bf bs
      using less that Cons by simp
    show ?thesis
    proof (cases "structured_symbolic_structural_marker before bytes")
      case (Some m)
      obtain kind consumed where m: "m = (kind, consumed)" by fastforce
      then have "0 < consumed" using marker_consumes(2) Some by blast
      then have "length (drop consumed bytes) \<le> length rest" using Cons by simp
      from pushed_one [OF structural [OF assms, of kind] IH [OF this]] show ?thesis
        using Some m Cons by (subst structured_payload_tokens.simps) simp
    next
      case None
      have "length (dropWhile is_symbolic_lexeme_byte rest) \<le> length rest" by (rule length_dropWhile_le)
      then show ?thesis
        using None Cons IH byte [OF assms] good_lexeme [OF assms]
        by (subst structured_payload_tokens.simps) (auto simp: Let_def intro!: pushed)
    qed
  qed
qed

end

locale lexeme_alphabet = token_alphabet +
  assumes lexeme: "valid \<Longrightarrow> \<exists>t. symbolic_lexeme_token l mode = Returned t \<and> good t"
begin

lemma symbolic_scan:
  assumes valid
  shows "\<exists>ts. symbolic_payload_tokens mode bytes = Returned ts \<and> list_all good ts"
proof (induction "length bytes" arbitrary: bytes rule: less_induct)
  case less
  show ?case
  proof (cases bytes)
    case Nil
    then show ?thesis by (subst symbolic_payload_tokens.simps) simp
  next
    case (Cons b rest)
    have IH: "\<exists>ts. symbolic_payload_tokens mode bs = Returned ts \<and> list_all good ts" if "length bs \<le> length rest" for bs
      using less that Cons by simp
    show ?thesis
    proof (cases "symbolic_structural_marker bytes")
      case (Some m)
      obtain kind consumed where m: "m = (kind, consumed)" by fastforce
      then have "0 < consumed" using marker_consumes(1) Some by blast
      then have "length (drop consumed bytes) \<le> length rest" using Cons by simp
      from pushed_one [OF structural [OF assms, of kind] IH [OF this]] show ?thesis
        using Some m Cons by (subst symbolic_payload_tokens.simps) simp
    next
      case None
      have "length (dropWhile is_symbolic_lexeme_byte rest) \<le> length rest" by (rule length_dropWhile_le)
      then show ?thesis
        using None Cons IH byte [OF assms] lexeme [OF assms]
        by (subst symbolic_payload_tokens.simps) (auto simp: Let_def intro!: pushed pushed_one)
    qed
  qed
qed

end

section \<open>The tokens of the three modes\<close>

lemma unat_byte_token: "unat (byte_token c) < 256"
proof -
  have "(byte_token c :: token) = of_nat (of_char c)" by (simp only: byte_token_def of_nat_of_char)
  then have "unat (byte_token c) = of_char c mod 2 ^ 32" by (simp add: unat_of_nat)
  also have "\<dots> \<le> of_char c" by (rule mod_less_eq_dividend)
  also have "(of_char c :: nat) < 256" by simp
  finally show ?thesis .
qed

lemma unat_structural: "unat (of_nat raw_byte_token_count + structural_index kind) < 266"
  by (cases kind) (simp_all add: raw_byte_token_count_def)

lemma bucket_sum:
  assumes "0 < d" "266 + d \<le> 2 ^ 32"
  shows "266 \<le> unat ((266 :: token) + ucast ((x :: u64) mod of_nat d)) \<and> unat ((266 :: token) + ucast ((x :: u64) mod of_nat d)) < 266 + d"
proof -
  have c: "unat (of_nat d :: u64) = d" using assms by (simp add: unat_of_nat)
  have m: "unat (x mod of_nat d) < d" using assms(1) by (simp add: unat_mod c)
  then have "unat (ucast (x mod of_nat d) :: token) = unat (x mod of_nat d)"
    using assms(2) by (simp add: unsigned_ucast_eq take_bit_nat_eq_self)
  moreover have "266 + unat (x mod of_nat d) < 2 ^ 32" using m assms(2) by simp
  ultimately have "unat ((266 :: token) + ucast (x mod of_nat d)) = 266 + unat (x mod of_nat d)"
    by (simp add: unat_word_ariths)
  with m show ?thesis by simp
qed

lemma bucket_token_range:
  assumes "266 < v" "v \<le> 2 ^ 32"
  shows "266 \<le> unat (bucket_token_of v e mixed) \<and> unat (bucket_token_of v e mixed) < v"
proof -
  obtain d where d: "v = 266 + d" "0 < d" using assms(1) by (metis add.commute less_imp_add_positive)
  then show ?thesis
    using bucket_sum [of d] assms by (simp add: bucket_token_of_def reserved_defs Let_def max_def)
qed

lemma structural_symbolic:
  assumes "512 \<le> v" "v \<le> 2 ^ 32"
  shows "\<exists>t. symbolic_structural_token kind (SymbolicMode v e) = Returned t \<and> unat t < v"
proof -
  let ?t = "of_nat raw_byte_token_count + structural_index kind :: token"
  let ?b = "\<lambda>x. bucket_token_of v e x"
  have "unat ?t < v" using unat_structural [of kind] assms(1) by simp
  moreover have "unat (?b x) < v" for x using bucket_token_range [of v e x] assms by simp
  ultimately show ?thesis
    by (simp add: symbolic_structural_token_def symbolic_bucket_token_def Let_def)
qed

lemma structural_structured:
  assumes "constructed (StructuredMode v e)"
  shows "\<exists>t. symbolic_structural_token kind (StructuredMode v e) = Returned t \<and> unat t < 266"
proof -
  let ?t = "of_nat raw_byte_token_count + structural_index kind :: token"
  have "Some ?t \<noteq> e"
  proof
    assume "Some ?t = e"
    then have "271 \<le> ?t" using assms by auto
    then show False using unat_structural [of kind] by (simp add: word_le_nat_alt)
  qed
  then show ?thesis using unat_structural [of kind] by (simp add: symbolic_structural_token_def Let_def)
qed

interpretation symbolic_vocab: lexeme_alphabet "SymbolicMode v e" "512 \<le> v \<and> v \<le> 2 ^ 32" "\<lambda>t. unat t < v" for v e
proof
  fix kind assume "512 \<le> v \<and> v \<le> 2 ^ 32"
  then show "\<exists>t. symbolic_structural_token kind (SymbolicMode v e) = Returned t \<and> unat t < v"
    using structural_symbolic by blast
next
  fix c assume "512 \<le> v \<and> v \<le> 2 ^ 32"
  then show "unat (byte_token c) < v" using unat_byte_token [of c] by simp
next
  fix l assume "512 \<le> v \<and> v \<le> 2 ^ 32"
  then show "\<exists>t. symbolic_lexeme_token l (SymbolicMode v e) = Returned t \<and> unat t < v"
    using bucket_token_range by (simp add: symbolic_lexeme_token_def symbolic_bucket_token_def)
qed

interpretation structured_vocab: token_alphabet "StructuredMode v e" "constructed (StructuredMode v e)" "\<lambda>t. unat t < 266" for v e
proof
  fix kind assume "constructed (StructuredMode v e)"
  then show "\<exists>t. symbolic_structural_token kind (StructuredMode v e) = Returned t \<and> unat t < 266"
    by (rule structural_structured)
next
  fix c show "unat (byte_token c) < 266" using unat_byte_token [of c] by simp
qed

text \<open>Totality alone, without a bound on the vocabulary.\<close>

interpretation symbolic_total: lexeme_alphabet "SymbolicMode v e" True "\<lambda>t. True" for v e
  by unfold_locales (auto simp: symbolic_structural_token_def symbolic_bucket_token_def symbolic_lexeme_token_def Let_def)

lemma encode_payload_Returned: "constructed mode \<Longrightarrow> \<exists>ts. encode_payload mode s = Returned ts"
proof (cases mode)
  case (SymbolicMode v e)
  then show ?thesis using symbolic_total.symbolic_scan [of v e s] by auto
next
  case (StructuredMode v e)
  assume "constructed mode"
  then show ?thesis using structured_vocab.structured_scan [of v e None s] StructuredMode by auto
qed simp

lemma fill_token_Returned: "constructed mode \<Longrightarrow> \<exists>t. fill_token mode = Returned t"
proof (cases mode)
  case (SymbolicMode v e)
  then show ?thesis using symbolic_total.structural [of DocumentEnd v e] by (auto split: option.splits)
next
  case (StructuredMode v e)
  assume "constructed mode"
  then have "\<exists>t. symbolic_structural_token DocumentEnd (StructuredMode v e) = Returned t"
    using structural_structured StructuredMode by blast
  then show ?thesis using StructuredMode by (auto split: option.splits)
qed simp

lemma fill_token_eos: "tokenizer_eos mode = Some eos \<Longrightarrow> fill_token mode = Returned eos"
  by (cases mode) auto

section \<open>Documents\<close>

lemma fill_document_replicate:
  "fill_token mode = Returned t \<Longrightarrow> fill_document mode k tokens = Returned (tokens @ replicate k t)"
proof (induction k arbitrary: tokens)
  case (Suc k)
  then show ?case by (simp add: replicate_append_same [symmetric])
qed simp

lemma encode_document_shape:
  assumes "encode_payload mode s = Returned payload" "fill_token mode = Returned fill"
  shows "encode_document mode s n =
    Returned (take (payload_token_capacity mode n) payload
      @ replicate (n - min (payload_token_capacity mode n) (length payload)) fill)"
proof (cases "tokenizer_eos mode")
  case None
  then show ?thesis
    using assms by (simp add: encode_document_def fill_document_replicate payload_token_capacity_def min.commute)
next
  case (Some eos)
  then have fill: "fill = eos" using fill_token_eos assms(2) by force
  have cap: "payload_token_capacity mode n = n - 1" using Some by (simp add: payload_token_capacity_def)
  show ?thesis
  proof (cases n)
    case 0
    then show ?thesis using assms Some cap by (simp add: encode_document_def)
  next
    case (Suc k)
    have "Suc k - min k (length payload) = Suc (k - min k (length payload))" by simp
    then show ?thesis
      using assms Some cap Suc fill
      unfolding encode_document_def Let_def by (simp add: fill_document_replicate min.commute)
  qed
qed

lemma encode_document_length:
  assumes "constructed mode"
  shows "\<exists>ts. encode_document mode s n = Returned ts \<and> length ts = n"
proof -
  obtain payload fill where "encode_payload mode s = Returned payload" "fill_token mode = Returned fill"
    using encode_payload_Returned [OF assms] fill_token_Returned [OF assms] by blast
  from encode_document_shape [OF this] show ?thesis by (auto simp: payload_token_capacity_def)
qed

section \<open>Decoding\<close>

lemma decode_loop_stops:
  assumes "tokenizer_eos mode = Some eos" "eos \<notin> set ts"
  shows "decode_loop mode True text_value (ts @ eos # rest) = decode_loop mode True text_value ts"
  using assms by (induction ts arbitrary: text_value) auto

lemma decode_loop_foldl:
  "list_all (\<lambda>t. Some t \<noteq> tokenizer_eos mode) ts \<Longrightarrow>
     decode_loop mode stop_at_eos text_value ts = foldl (decode_token mode) text_value ts"
  by (induction ts arbitrary: text_value) auto

lemma push_scalar_ascii: "byte_code c < 128 \<Longrightarrow> push_scalar text_value (byte_token c) = text_value @ [c]"
proof -
  assume c: "byte_code c < 128"
  have "(byte_token c :: token) = of_nat (byte_code c)" by (simp only: byte_token_def byte_code_def of_nat_of_char)
  moreover have "unat (of_nat (byte_code c) :: token) = byte_code c" using c by (simp add: unat_of_nat)
  ultimately show ?thesis using c by (simp add: push_scalar_def utf8_bytes_def) (simp add: byte_code_def)
qed

lemma decode_ascii:
  assumes "list_all (\<lambda>c. byte_code c < 128) s" "\<And>c. c \<in> set s \<Longrightarrow> e \<noteq> Some (byte_token c)"
  shows "decode_loop (ByteCompatibleMode v e) True text_value (map byte_token s) = text_value @ s"
  using assms
proof (induction s arbitrary: text_value)
  case (Cons c s)
  have "e \<noteq> Some (byte_token c)" using Cons.prems(2) by simp
  then show ?case using Cons by (simp add: push_scalar_ascii) metis
qed simp

end
