(* ===== verification/Ruliad_Tokenizer_Properties.thy ===== *)
theory Ruliad_Tokenizer_Properties
  imports Ruliad_Tokenizer_Proofs
begin

text \<open>The properties of the document tokenizer, \<open>ruliad/tokenize.rs\<close>.\<close>

fun mode_vocab :: "tokenizer_mode \<Rightarrow> nat" where
  "mode_vocab (ByteCompatibleMode v e) = v"
| "mode_vocab (SymbolicMode v e) = v"
| "mode_vocab (StructuredMode v e) = v"

lemma payload_in_vocab:
  assumes "constructed mode" "mode_vocab mode \<le> 2 ^ 32" "encode_payload mode s = Returned payload"
  shows "list_all (\<lambda>t. unat t < mode_vocab mode) payload"
proof (cases mode)
  case (ByteCompatibleMode v e)
  have "unat (byte_token c) < v" for c using unat_byte_token [of c] assms(1) ByteCompatibleMode by simp
  then show ?thesis using ByteCompatibleMode assms(3) by (auto simp: list_all_iff)
next
  case (SymbolicMode v e)
  then show ?thesis using symbolic_vocab.symbolic_scan [of v e s] assms by auto
next
  case (StructuredMode v e)
  then obtain ts where "structured_payload_tokens mode None s = Returned ts" "list_all (\<lambda>t. unat t < 266) ts"
    using structured_vocab.structured_scan [of v e None s] assms(1) by auto
  then show ?thesis using StructuredMode assms by (auto simp: list_all_iff)
qed

lemma fill_in_vocab:
  assumes "constructed mode" "mode_vocab mode \<le> 2 ^ 32" "fill_token mode = Returned t"
    "\<And>e. tokenizer_eos mode = Some e \<Longrightarrow> unat e < mode_vocab mode"
  shows "unat t < mode_vocab mode"
proof (cases "tokenizer_eos mode")
  case (Some e)
  then show ?thesis using fill_token_eos [OF Some] assms by simp
next
  case None
  show ?thesis
  proof (cases mode)
    case (SymbolicMode v e)
    then show ?thesis using structural_symbolic [of v DocumentEnd e] assms None by auto
  next
    case (StructuredMode v e)
    then show ?thesis using structural_structured [of v e DocumentEnd] assms None by auto
  qed (use assms None in auto)
qed

text \<open>C36: a validated tokenizer fills its documents. The tokenizer a validated configuration constructs encodes every text
  into a document of exactly the requested number of tokens, each below the vocabulary size, and no
  unreachable arm is reached. (The vocabulary has at most 2^32 tokens.)\<close>
theorem documents_fill_their_length:
  assumes "validate_tokenization c = Inr ()" and "tokenizer_from_config c = Inr mode" and "mode_vocab mode \<le> 2 ^ 32"
  shows "\<exists>ts. encode_document mode s n = Returned ts \<and> length ts = n \<and> list_all (\<lambda>t. unat t < mode_vocab mode) ts"
proof -
  have con: "constructed mode" by (rule tokenizer_from_config_Inr [OF assms(2)])
  obtain payload fill where p: "encode_payload mode s = Returned payload" "fill_token mode = Returned fill"
    using encode_payload_Returned [OF con] fill_token_Returned [OF con] by blast
  have eos: "unat e < mode_vocab mode" if "tokenizer_eos mode = Some e" for e
    using assms(1,2) that by (cases c) (auto simp: eos_in_vocab_def split: if_splits option.splits)
  have "unat fill < mode_vocab mode" by (rule fill_in_vocab [OF con assms(3) p(2) eos])
  moreover have "list_all (\<lambda>t. unat t < mode_vocab mode) payload" by (rule payload_in_vocab [OF con assms(3) p(1)])
  ultimately show ?thesis
    unfolding encode_document_shape [OF p]
    by (auto simp: payload_token_capacity_def list_all_iff dest: in_set_takeD)
qed

theorem documents_fill_their_length_witness:
  "\<exists>ts. encode_document (SymbolicMode 1025 (Some 1024)) ''G:O=48;I=u48'' 24 = Returned ts \<and> length ts = 24"
proof -
  let ?c = "Symbolic 1025 (Some 1024)"
  have "validate_tokenization ?c = Inr ()" "tokenizer_from_config ?c = Inr (SymbolicMode 1025 (Some 1024))"
    by (simp_all add: eos_in_vocab_def)
  from documents_fill_their_length [OF this, of "''G:O=48;I=u48''" 24] show ?thesis by auto
qed

text \<open>A document of ASCII text decodes to it. In the byte mode, a text of ASCII bytes without the byte of the
  end token that fits the capacity is what decoding its padded document returns.\<close>
theorem ascii_documents_round_trip:
  assumes "list_all (\<lambda>c. byte_code c < 128) s" and "\<And>c. c \<in> set s \<Longrightarrow> byte_token c \<noteq> eos"
    and "length s < n"
  shows "outcome_bind (encode_document (ByteCompatibleMode v (Some eos)) s n)
      (\<lambda>ts. Returned (decode_payload (ByteCompatibleMode v (Some eos)) ts True)) = Returned s"
proof -
  let ?m = "ByteCompatibleMode v (Some eos)"
  have cap: "payload_token_capacity ?m n = n - 1" by (simp add: payload_token_capacity_def)
  have rep: "replicate (n - length s) eos = eos # replicate (n - length s - 1) eos"
    using assms(3) by (cases "n - length s") simp_all
  have "encode_document ?m s n = Returned (map byte_token s @ eos # replicate (n - length s - 1) eos)"
    using encode_document_shape [of ?m s "map byte_token s" eos n] assms(3) rep by (simp add: cap)
  moreover have "eos \<notin> set (map byte_token s)" using assms(2) by auto
  then have "decode_payload ?m (map byte_token s @ eos # replicate (n - length s - 1) eos) True = [] @ s"
    unfolding decode_payload_def
    by (subst decode_loop_stops) (simp_all, rule decode_ascii [where text_value = "[]", simplified], use assms in auto)
  ultimately show ?thesis by simp
qed

theorem ascii_documents_round_trip_witness:
  "outcome_bind (encode_document (ByteCompatibleMode 50257 (Some 50256)) ''abc'' 8)
      (\<lambda>ts. Returned (decode_payload (ByteCompatibleMode 50257 (Some 50256)) ts True)) = Returned ''abc''"
  by (rule ascii_documents_round_trip) (auto simp: byte_code_def byte_token_def)

text \<open>C37: a structured payload never ends its document. The structured tokenizer keeps its end token out of every payload,
  and decoding a document up to the end token decodes every token of the payload that fits, one after the other.\<close>
theorem structured_documents_stop_at_the_payload:
  assumes "tokenizer_from_config c = Inr (StructuredMode v (Some eos))"
    and "encode_payload (StructuredMode v (Some eos)) s = Returned payload" and "0 < n"
  shows "eos \<notin> set payload
    \<and> outcome_bind (encode_document (StructuredMode v (Some eos)) s n)
        (\<lambda>ts. Returned (decode_payload (StructuredMode v (Some eos)) ts True))
      = Returned (foldl (decode_token (StructuredMode v (Some eos))) [] (take (n - 1) payload))"
proof -
  let ?m = "StructuredMode v (Some eos)"
  have con: "constructed ?m" by (rule tokenizer_from_config_Inr [OF assms(1)])
  have "list_all (\<lambda>t. unat t < 266) payload"
    using structured_vocab.structured_scan [OF con, of None s] assms(2) by auto
  moreover have "271 \<le> unat eos" using con by (simp add: word_le_nat_alt)
  ultimately have out: "eos \<notin> set payload" by (auto simp: list_all_iff)
  then have fresh: "eos \<notin> set (take (n - 1) payload)" by (auto dest: in_set_takeD)
  have cap: "payload_token_capacity ?m n = n - 1" by (simp add: payload_token_capacity_def)
  obtain k where k: "n - min (n - 1) (length payload) = Suc k" using assms(3) by (cases "n - min (n - 1) (length payload)") auto
  have "encode_document ?m s n = Returned (take (n - 1) payload @ eos # replicate k eos)"
    using encode_document_shape [OF assms(2), of eos n] k by (simp add: cap)
  moreover have "list_all (\<lambda>t. Some t \<noteq> tokenizer_eos ?m) (take (n - 1) payload)" using fresh by (auto simp: list_all_iff)
  ultimately show ?thesis
    using out fresh decode_loop_foldl by (simp add: decode_payload_def decode_loop_stops)
qed

theorem structured_documents_stop_at_the_payload_witness:
  "271 \<notin> set [97, 98 :: token]
    \<and> outcome_bind (encode_document (StructuredMode 272 (Some 271)) ''aB'' 8)
        (\<lambda>ts. Returned (decode_payload (StructuredMode 272 (Some 271)) ts True)) = Returned ''ab''"
proof -
  let ?m = "StructuredMode 272 (Some 271)" and ?c = "StructuredSymbolic 272 (Some 271)"
  have "tokenizer_from_config ?c = Inr ?m" by (simp add: reserved_defs)
  moreover have "structured_symbolic_structural_marker None ''aB'' = None" "\<not> ascii_space (CHR ''a'')"
    "\<not> is_symbolic_separator_byte (CHR ''a'')" "is_symbolic_lexeme_byte (CHR ''a'')" "is_symbolic_lexeme_byte (CHR ''B'')"
    "\<not> is_symbolic_boilerplate_lexeme ''aB''" "structured_lexeme_tokens ''aB'' = [97, 98]"
    by code_simp+
  then have "encode_payload ?m ''aB'' = Returned [97, 98]"
    by (simp add: structured_payload_tokens.simps [of _ _ "''aB''"] structured_payload_tokens.simps [of _ _ "[]"]
        push_tokens_def)
  ultimately have "271 \<notin> set [97, 98 :: token]
    \<and> outcome_bind (encode_document ?m ''aB'' 8) (\<lambda>ts. Returned (decode_payload ?m ts True))
      = Returned (foldl (decode_token ?m) [] (take (8 - 1) [97, 98]))"
    by (rule structured_documents_stop_at_the_payload) simp
  moreover have "foldl (decode_token ?m) [] (take (8 - 1) [97, 98]) = ''ab''" by code_simp
  ultimately show ?thesis by simp
qed

text \<open>The symbolic tokenizer can emit its end token inside a payload. With 533 tokens and the end token 266 the
  configuration is valid, and the lexeme \<open>co\<close> is encoded as the end token.\<close>
theorem symbolic_payload_may_hold_the_end_token:
  "validate_tokenization (Symbolic 533 (Some 266)) = Inr ()
   \<and> tokenizer_from_config (Symbolic 533 (Some 266)) = Inr (SymbolicMode 533 (Some 266))
   \<and> encode_payload (SymbolicMode 533 (Some 266)) ''co'' = Returned [266]"
proof (intro conjI)
  show "validate_tokenization (Symbolic 533 (Some 266)) = Inr ()" by (simp add: eos_in_vocab_def)
  show "tokenizer_from_config (Symbolic 533 (Some 266)) = Inr (SymbolicMode 533 (Some 266))" by simp
  have "symbolic_lexeme_token ''co'' (SymbolicMode 533 (Some 266)) = Returned 266" by code_simp
  moreover have "symbolic_structural_marker ''co'' = None" "\<not> ascii_space (CHR ''c'')"
    "\<not> is_symbolic_separator_byte (CHR ''c'')" "is_symbolic_lexeme_byte (CHR ''c'')" "is_symbolic_lexeme_byte (CHR ''o'')"
    "\<not> is_symbolic_boilerplate_lexeme ''co''"
    by code_simp+
  ultimately show "encode_payload (SymbolicMode 533 (Some 266)) ''co'' = Returned [266]"
    by (simp add: symbolic_payload_tokens.simps [of _ "''co''"] symbolic_payload_tokens.simps [of _ "[]"] push_token_def)
qed

end
