(* ===== verification/Ruliad_Supervision.thy ===== *)
theory Ruliad_Supervision
  imports Ruliad_Tokenizer
begin

text \<open>
  The token supervision of \<open>ruliad/supervision.rs\<close>: the loss weight of every target token of a
  window, as a scan with an explicit state over the window, the masking of long hexadecimal
  runs, and the balancing of trace and answer weights. Weights are the \<open>i64\<close> values as
  integers; the \<open>i128\<close> saturation of the balancing is written out.
\<close>

section \<open>Configuration\<close>

definition symbolic_answer_token :: token where
  "symbolic_answer_token = 264"

definition symbolic_document_end_token :: token where
  "symbolic_document_end_token = 265"

datatype supervision_mode =
  FullDocument | AnswerWindow | AnswerCompletion | AnswerValues | TraceAndAnswer | MixedSupervision

record supervision_config =
  sup_mode :: supervision_mode
  sup_mask_high_entropy :: bool
  sup_balance :: bool
  sup_close_stride :: nat
  sup_close_weight :: int
  sup_schema_weight :: int
  sup_schema_start_weight :: int
  sup_value_weight :: int

definition default_supervision :: supervision_config where
  "default_supervision =
     \<lparr> sup_mode = FullDocument, sup_mask_high_entropy = False, sup_balance = False, sup_close_stride = 1,
       sup_close_weight = 1, sup_schema_weight = 1, sup_schema_start_weight = 1, sup_value_weight = 1 \<rparr>"

definition effective_for :: "supervision_config \<Rightarrow> bool \<Rightarrow> nat \<Rightarrow> supervision_config" where
  "effective_for cfg validation progress_index =
     cfg\<lparr> sup_mode :=
       (case sup_mode cfg of
          MixedSupervision \<Rightarrow>
            if validation \<or> progress_index mod 2 = 0 then AnswerCompletion else FullDocument
        | mode \<Rightarrow> mode) \<rparr>"

definition uses_answer_target_mask :: "supervision_config \<Rightarrow> bool" where
  "uses_answer_target_mask cfg \<longleftrightarrow>
     sup_mode cfg \<in> {AnswerCompletion, AnswerValues, TraceAndAnswer, MixedSupervision}"

definition uses_trace_answer_target_mask :: "supervision_config \<Rightarrow> bool" where
  "uses_trace_answer_target_mask cfg \<longleftrightarrow> sup_mode cfg = TraceAndAnswer"

definition uses_target_loss_mask :: "supervision_config \<Rightarrow> bool" where
  "uses_target_loss_mask cfg \<longleftrightarrow> uses_answer_target_mask cfg \<or> sup_mask_high_entropy cfg"

section \<open>Bytes of tokens\<close>

definition token_byte :: "token \<Rightarrow> char option" where
  "token_byte t = (if unat t \<le> 255 then Some (char_of (unat t)) else None)"

definition byte_is :: "(char \<Rightarrow> bool) \<Rightarrow> token \<Rightarrow> bool" where
  "byte_is p t = (case token_byte t of None \<Rightarrow> False | Some c \<Rightarrow> p c)"

definition is_answer_value_byte :: "char \<Rightarrow> bool" where
  "is_answer_value_byte c \<longleftrightarrow> ascii_alphanumeric c \<or> c \<in> set ''-+.''"

definition is_answer_schema_byte :: "char \<Rightarrow> bool" where
  "is_answer_schema_byte c \<longleftrightarrow> ascii_alphanumeric c \<or> c \<in> set ''_=;,|''"

definition is_answer_key_start_byte :: "char \<Rightarrow> bool" where
  "is_answer_key_start_byte c \<longleftrightarrow> ascii_alphabetic c \<or> c = CHR ''_''"

text \<open>\<open>window.get(i).and_then(token_byte) == Some(c)\<close>.\<close>

definition byte_at :: "token list \<Rightarrow> nat \<Rightarrow> char \<Rightarrow> bool" where
  "byte_at window i c = (case nth_opt window i of None \<Rightarrow> False | Some t \<Rightarrow> token_byte t = Some c)"

definition semantic_proof_action_at :: "token list \<Rightarrow> nat \<Rightarrow> bool" where
  "semantic_proof_action_at window start =
     (if \<not> byte_at window start (CHR ''g'') then False
      else
        let digit_start = start + 1;
            index = digit_start + length (takeWhile (byte_is ascii_digit) (drop digit_start window))
        in if index = digit_start \<or> \<not> byte_at window index (CHR ''|'') then False
           else if \<not> (byte_at window (index + 1) (CHR ''a'') \<or> byte_at window (index + 1) (CHR ''l'')) then False
           else byte_at window (index + 2) (CHR '':''))"

definition semantic_action_value_position :: "nat \<Rightarrow> nat \<Rightarrow> bool" where
  "semantic_action_value_position segment offset =
     (if segment = 0 then 1 \<le> offset
      else if segment = 1 then 2 \<le> offset
      else segment = 2 \<or> segment = 3)"

section \<open>The scan\<close>

record answer_scan =
  in_answer :: bool
  in_close_marker :: bool
  in_answer_value :: bool
  semantic_action :: bool
  action_segment :: nat
  action_offset :: nat
  answer_hash :: u64
  key_start_pending :: bool

definition initial_scan :: answer_scan where
  "initial_scan =
     \<lparr> in_answer = False, in_close_marker = False, in_answer_value = False, semantic_action = False,
       action_segment = 0, action_offset = 0, answer_hash = 0, key_start_pending = False \<rparr>"

definition clamp_weight :: "int \<Rightarrow> int" where
  "clamp_weight w = max 1 (min 16 w)"

definition ascii_token :: "char \<Rightarrow> token" where
  "ascii_token c = of_char c"

definition answer_opens :: "token list \<Rightarrow> nat \<Rightarrow> bool" where
  "answer_opens window t \<longleftrightarrow>
     window ! t = symbolic_answer_token
     \<or> (window ! t = ascii_token (CHR '':'') \<and> 0 < t \<and> nth_opt window (t - 1) = Some (ascii_token (CHR ''!'')))"

text \<open>At the input token: an answer opens, and a value starts after \<open>=\<close>.\<close>

definition scan_input :: "token list \<Rightarrow> nat \<Rightarrow> answer_scan \<Rightarrow> answer_scan" where
  "scan_input window t s =
     (let s1 = (if answer_opens window t
                then s\<lparr> in_answer := True, in_answer_value := False,
                        semantic_action := semantic_proof_action_at window (t + 1),
                        action_segment := 0, action_offset := 0, key_start_pending := True \<rparr>
                else s)
      in if in_answer s1 \<and> \<not> in_close_marker s1 \<and> token_byte (window ! t) = Some (CHR ''='')
         then s1\<lparr> in_answer_value := True, key_start_pending := False \<rparr> else s1)"

definition close_marker_start :: "token list \<Rightarrow> nat \<Rightarrow> bool" where
  "close_marker_start window t \<longleftrightarrow>
     window ! (t + 1) = symbolic_document_end_token
     \<or> (window ! (t + 1) = ascii_token (CHR ''['') \<and> nth_opt window (t + 2) = Some (ascii_token (CHR ''/'')))"

definition supervise_close_marker :: "supervision_config \<Rightarrow> answer_scan \<Rightarrow> bool" where
  "supervise_close_marker cfg s \<longleftrightarrow>
     0 < sup_close_stride cfg
     \<and> (sup_close_stride cfg = 1 \<or> answer_hash s mod of_nat (sup_close_stride cfg) = 0)"

definition schema_start_target :: "answer_scan \<Rightarrow> bool \<Rightarrow> token \<Rightarrow> bool" where
  "schema_start_target s schema_target target \<longleftrightarrow>
     schema_target \<and> key_start_pending s \<and> byte_is is_answer_key_start_byte target"

text \<open>The weight of a supervised target, and whether it starts a key of the answer.\<close>

definition target_weight :: "supervision_config \<Rightarrow> token list \<Rightarrow> nat \<Rightarrow> answer_scan \<Rightarrow> int \<times> bool" where
  "target_weight cfg window t s =
     (let target = window ! (t + 1);
          close_target = (close_marker_start window t \<or> in_close_marker s);
          semantic_value = (semantic_action s
            \<and> semantic_action_value_position (action_segment s) (action_offset s));
          value_target = (\<not> close_target \<and> (in_answer_value s \<or> semantic_value)
            \<and> byte_is is_answer_value_byte target);
          schema_target = (\<not> close_target \<and> \<not> value_target \<and> byte_is is_answer_schema_byte target);
          start_target = schema_start_target s schema_target target;
          weight =
            (if sup_mode cfg = AnswerValues \<and> \<not> value_target then 0
             else if close_target then clamp_weight (sup_close_weight cfg)
             else if start_target
             then max (clamp_weight (sup_schema_start_weight cfg)) (clamp_weight (sup_schema_weight cfg))
             else if value_target then clamp_weight (sup_value_weight cfg)
             else if schema_target then clamp_weight (sup_schema_weight cfg)
             else 1)
      in (weight, start_target))"

definition tagged :: "supervision_config \<Rightarrow> int \<Rightarrow> int" where
  "tagged cfg weight =
     (if sup_balance cfg \<and> sup_mode cfg = TraceAndAnswer \<and> 0 < weight then - weight else weight)"

text \<open>The state after a supervised target: the hash of the answer, the end of a value or key, and
  the place inside a semantic action.\<close>

definition scan_answer_token :: "token \<Rightarrow> bool \<Rightarrow> answer_scan \<Rightarrow> answer_scan" where
  "scan_answer_token target start_target s =
     (let s1 = s\<lparr> answer_hash := answer_hash s * 1099511628211 + (ucast target + 1) \<rparr>;
          s2 = (if token_byte target \<in> Some ` {CHR '';'', char_of (10 :: nat), char_of (13 :: nat), CHR ''|''}
                then s1\<lparr> in_answer_value := False, key_start_pending := True \<rparr>
                else if start_target then s1\<lparr> key_start_pending := False \<rparr> else s1)
      in if \<not> semantic_action s2 then s2
         else if token_byte target = Some (CHR ''|'')
         then s2\<lparr> action_segment := sat_add (action_segment s2) 1, action_offset := 0 \<rparr>
         else s2\<lparr> action_offset := sat_add (action_offset s2) 1 \<rparr>)"

text \<open>The target: its weight when it is supervised (else the weight stays), and the new state.\<close>

definition scan_target ::
    "supervision_config \<Rightarrow> token list \<Rightarrow> nat \<Rightarrow> answer_scan \<Rightarrow> int option \<times> answer_scan" where
  "scan_target cfg window t s =
     (if \<not> (in_answer s \<and> window ! (t + 1) \<noteq> symbolic_answer_token) then (None, s)
      else if close_marker_start window t \<and> \<not> supervise_close_marker cfg s
      then (None, s\<lparr> in_answer := False, in_close_marker := False, in_answer_value := False \<rparr>)
      else
        case target_weight cfg window t s of
          (weight, start_target) \<Rightarrow>
            (Some (tagged cfg weight),
             if close_marker_start window t then s\<lparr> in_close_marker := True \<rparr>
             else if \<not> in_close_marker s then scan_answer_token (window ! (t + 1)) start_target s
             else s))"

text \<open>The end of a step: a close marker that ends, and an answer token as the target. The marker
  ends on the state before the target was scanned.\<close>

definition scan_end :: "token list \<Rightarrow> nat \<Rightarrow> bool \<Rightarrow> answer_scan \<Rightarrow> answer_scan" where
  "scan_end window t was_in_close_marker s =
     (let target = window ! (t + 1);
          marker_end = (target = symbolic_document_end_token
            \<or> (was_in_close_marker \<and> target = ascii_token (CHR '']'')));
          s1 = (if marker_end
                then s\<lparr> in_answer := False, in_close_marker := False, in_answer_value := False,
                        semantic_action := False, action_segment := 0, action_offset := 0,
                        key_start_pending := False \<rparr>
                else s)
      in if target = symbolic_answer_token
         then s1\<lparr> in_answer := True, in_close_marker := False, in_answer_value := False,
                  semantic_action := semantic_proof_action_at window (t + 2), action_segment := 0,
                  action_offset := 0, key_start_pending := True, answer_hash := 0 \<rparr>
         else s1)"

fun answer_loop ::
    "supervision_config \<Rightarrow> token list \<Rightarrow> nat list \<Rightarrow> answer_scan \<Rightarrow> bool \<Rightarrow> int list \<Rightarrow> bool \<times> int list" where
  "answer_loop cfg window [] s any_weight weights = (any_weight, weights)"
| "answer_loop cfg window (t # ts) s any_weight weights =
     (let s1 = scan_input window t s in
      case scan_target cfg window t s1 of
        (weight, s2) \<Rightarrow>
          (let weights' = (case weight of None \<Rightarrow> weights | Some w \<Rightarrow> weights[t := w]);
               any' = (any_weight \<or> (case weight of None \<Rightarrow> False | Some w \<Rightarrow> w \<noteq> 0))
           in answer_loop cfg window ts (scan_end window t (in_close_marker s1) s2) any' weights'))"

definition answer_target_loss_mask ::
    "token list \<Rightarrow> nat \<Rightarrow> supervision_config \<Rightarrow> int \<Rightarrow> bool \<times> int list" where
  "answer_target_loss_mask window len cfg base_weight =
     answer_loop cfg window [0..<len] initial_scan False (replicate len base_weight)"

section \<open>Balancing\<close>

definition i64_max :: int where
  "i64_max = 2 ^ 63 - 1"

definition i128_sat :: "int \<Rightarrow> int" where
  "i128_sat x = max (- (2 ^ 127)) (min (2 ^ 127 - 1) x)"

definition balanced_weight :: "int \<Rightarrow> int \<Rightarrow> int \<Rightarrow> int" where
  "balanced_weight trace_mass answer_mass weight =
     (let role_weight = - weight;
          balanced = (if trace_mass = 0 then role_weight
            else max 1 (i128_sat (i128_sat (role_weight * trace_mass) + answer_mass div 2) div answer_mass))
      in if balanced \<le> i64_max then balanced else i64_max)"

definition balance_trace_answer_mass :: "int list \<Rightarrow> int list" where
  "balance_trace_answer_mass weights =
     (let trace_mass = sum_list (filter (\<lambda>w. 0 < w) weights);
          answer_mass = sum_list (map uminus (filter (\<lambda>w. w < 0) weights))
      in if answer_mass = 0 then weights
         else map (\<lambda>w. if w < 0 then balanced_weight trace_mass answer_mass w else w) weights)"

section \<open>High-entropy spans\<close>

definition hex_token :: "token \<Rightarrow> bool" where
  "hex_token = byte_is ascii_hexdigit"

definition clear_targets :: "nat \<Rightarrow> nat \<Rightarrow> int list \<Rightarrow> int list" where
  "clear_targets start stop weights =
     foldl (\<lambda>weights token_index. if token_index = 0 then weights else weights[token_index - 1 := 0]) weights [start..<stop]"

function entropy_loop :: "token list \<Rightarrow> nat \<Rightarrow> int list \<Rightarrow> int list" where
  "entropy_loop window index weights =
     (if length window \<le> index then weights
      else if \<not> hex_token (window ! index) then entropy_loop window (index + 1) weights
      else
        let stop = index + length (takeWhile hex_token (drop index window));
            weights' = (if 8 \<le> stop - index then clear_targets index stop weights else weights)
        in entropy_loop window (max stop (index + 1)) weights')"
  by pat_completeness auto
termination
  by (relation "measure (\<lambda>(window, index, weights). length window - index)") auto

declare entropy_loop.simps [simp del]

definition mask_high_entropy_targets :: "token list \<Rightarrow> int list \<Rightarrow> int list" where
  "mask_high_entropy_targets window weights = entropy_loop window 0 weights"

section \<open>The loss mask\<close>

text \<open>The mask is given by its length: whatever it holds is overwritten.\<close>

definition ruliad_token_loss_mask :: "token list \<Rightarrow> nat \<Rightarrow> supervision_config \<Rightarrow> bool \<times> int list" where
  "ruliad_token_loss_mask window len cfg =
     (if length window < sat_add len 1 then (False, replicate len 0)
      else
        case (if uses_trace_answer_target_mask cfg then answer_target_loss_mask window len cfg 1
              else if uses_answer_target_mask cfg then answer_target_loss_mask window len cfg 0
              else (len \<noteq> 0, replicate len 1)) of
          (any1, mask1) \<Rightarrow>
            (let (any2, mask2) =
                   (if sup_mask_high_entropy cfg
                    then let m = mask_high_entropy_targets window mask1 in (list_ex (\<lambda>w. w \<noteq> 0) m, m)
                    else (any1, mask1))
             in if sup_balance cfg \<and> sup_mode cfg = TraceAndAnswer
                then let m = balance_trace_answer_mass mask2 in (list_ex (\<lambda>w. w \<noteq> 0) m, m)
                else (any2, mask2)))"

end
