(* ===== verification/Ruliad_Supervision_Proofs.thy ===== *)
theory Ruliad_Supervision_Proofs
  imports Ruliad_Supervision
begin

text \<open>
  What the loss mask computes: the positions the scan can reach, the sign of the weights, the
  masked runs of hexadecimal tokens, and the mass of the balanced weights.
\<close>

section \<open>The scan writes only after an answer opens\<close>

lemma answer_loop_length: "length (snd (answer_loop cfg window ts s any_weight weights)) = length weights"
  by (induction ts arbitrary: s any_weight weights) (auto simp: Let_def split: prod.splits option.splits)

lemma answer_loop_other:
  "t \<notin> set ts \<Longrightarrow> snd (answer_loop cfg window ts s any_weight weights) ! t = weights ! t"
  by (induction ts arbitrary: s any_weight weights) (auto simp: Let_def split: prod.splits option.splits)

lemma scan_input_closed: "\<not> answer_opens window t \<Longrightarrow> \<not> in_answer s \<Longrightarrow> scan_input window t s = s"
  by (simp add: scan_input_def)

lemma scan_target_closed: "\<not> in_answer s \<Longrightarrow> scan_target cfg window t s = (None, s)"
  by (simp add: scan_target_def)

lemma scan_end_closed:
  "\<not> in_answer s \<Longrightarrow> window ! (t + 1) \<noteq> symbolic_answer_token \<Longrightarrow> \<not> in_answer (scan_end window t was s)"
  by (simp add: scan_end_def Let_def)

lemma answer_loop_closed:
  assumes "\<not> in_answer s" "start \<le> t" "t < len" "\<forall>u. start \<le> u \<and> u \<le> t \<longrightarrow> \<not> answer_opens window u"
  shows "snd (answer_loop cfg window [start..<len] s any_weight weights) ! t = weights ! t"
  using assms
proof (induction "t - start" arbitrary: start s any_weight weights)
  case 0
  then have "start = t" by simp
  then have "\<not> answer_opens window t" using 0 by simp
  moreover have "[start..<len] = t # [Suc t..<len]" using 0 \<open>start = t\<close> by (simp add: upt_conv_Cons)
  ultimately show ?case
    using 0 by (simp add: scan_input_closed scan_target_closed Let_def answer_loop_other)
next
  case (Suc k)
  then have cons: "[start..<len] = start # [Suc start..<len]" by (simp add: upt_conv_Cons)
  have closed: "\<not> answer_opens window start" "\<not> answer_opens window (Suc start)"
    using Suc by (auto simp: Suc_le_eq)
  have "window ! (start + 1) \<noteq> symbolic_answer_token" using closed(2) by (simp add: answer_opens_def)
  then have "\<not> in_answer (scan_end window start (in_close_marker s) s)" using scan_end_closed Suc.prems(1) by blast
  moreover have "k = t - Suc start" "Suc start \<le> t" using Suc by simp_all
  ultimately have "snd (answer_loop cfg window [Suc start..<len] (scan_end window start (in_close_marker s) s)
      any_weight weights) ! t = weights ! t"
    using Suc.prems by (intro Suc.hyps(1)) auto
  then show ?case
    using closed Suc.prems(1) cons by (simp add: scan_input_closed scan_target_closed Let_def)
qed

section \<open>Signs\<close>

lemma clamp_weight_pos: "0 < clamp_weight w"
  by (simp add: clamp_weight_def)

lemma target_weight_nonneg: "0 \<le> fst (target_weight cfg window t s)"
  using clamp_weight_pos by (auto simp: target_weight_def Let_def less_imp_le max_def)

lemma answer_loop_all:
  assumes "\<forall>w\<in>set weights. good w" "\<And>w. 0 \<le> w \<Longrightarrow> good (tagged cfg w)"
  shows "\<forall>w\<in>set (snd (answer_loop cfg window ts s any_weight weights)). good w"
  using assms(1)
proof (induction ts arbitrary: s any_weight weights)
  case (Cons t ts)
  obtain w s2 where w: "scan_target cfg window t (scan_input window t s) = (w, s2)" by fastforce
  have "good x" if "w = Some x" for x
    using w that assms(2) [OF target_weight_nonneg]
    by (auto simp: scan_target_def split_def split: if_splits)
  then have "\<forall>x\<in>set (case w of None \<Rightarrow> weights | Some x \<Rightarrow> weights[t := x]). good x"
    using Cons.prems by (auto split: option.splits dest!: set_update_subset_insert [THEN subsetD])
  then show ?case using Cons.IH w by (simp add: Let_def)
qed simp

lemma balanced_weight_nonneg: "w < 0 \<Longrightarrow> 0 \<le> balanced_weight trace_mass answer_mass w"
  by (auto simp: balanced_weight_def Let_def i64_max_def)

lemma answer_mass_zero:
  "sum_list (map uminus (filter (\<lambda>w. w < 0) weights)) = (0 :: int) \<Longrightarrow> \<forall>w\<in>set weights. 0 \<le> w"
proof (induction weights)
  case (Cons w weights)
  have "0 \<le> sum_list (map uminus (filter (\<lambda>w. w < 0) weights))" by (rule sum_list_nonneg) auto
  then show ?case using Cons by (auto split: if_splits)
qed simp

lemma balance_nonneg: "\<forall>w\<in>set (balance_trace_answer_mass weights). 0 \<le> w"
  using answer_mass_zero [of weights] balanced_weight_nonneg
  by (auto simp: balance_trace_answer_mass_def Let_def)

section \<open>Runs of hexadecimal tokens\<close>

definition hex_run :: "token list \<Rightarrow> nat \<Rightarrow> nat \<Rightarrow> bool" where
  "hex_run window start stop \<longleftrightarrow>
     start < stop \<and> stop \<le> length window \<and> (\<forall>i. start \<le> i \<and> i < stop \<longrightarrow> hex_token (window ! i))
     \<and> (start = 0 \<or> \<not> hex_token (window ! (start - 1))) \<and> (stop = length window \<or> \<not> hex_token (window ! stop))"

definition in_long_run :: "token list \<Rightarrow> nat \<Rightarrow> nat \<Rightarrow> bool" where
  "in_long_run window low i \<longleftrightarrow>
     (\<exists>start stop. hex_run window start stop \<and> low \<le> start \<and> 8 \<le> stop - start \<and> start \<le> i \<and> i < stop)"

lemma hex_run_unique: "hex_run window a b \<Longrightarrow> hex_run window a c \<Longrightarrow> b = c"
proof -
  have le: "c \<le> b" if "hex_run window a b" "hex_run window a c" for b c
  proof (rule ccontr)
    assume "\<not> c \<le> b"
    then have "hex_token (window ! b)" "b \<noteq> length window" using that by (auto simp: hex_run_def)
    then show False using that(1) by (simp add: hex_run_def)
  qed
  assume "hex_run window a b" "hex_run window a c"
  then show "b = c" using le by (metis le_antisym)
qed

lemma hex_run_apart:
  assumes "hex_run window a b" "hex_run window c d" "a < c"
  shows "b \<le> c"
proof (rule ccontr)
  assume "\<not> b \<le> c"
  then have "a \<le> c - 1 \<and> c - 1 < b" using assms(3) by auto
  then have "hex_token (window ! (c - 1))" using assms(1) by (simp add: hex_run_def)
  then show False using assms(2,3) by (simp add: hex_run_def)
qed

lemma hex_run_takeWhile:
  assumes "index < length window" "hex_token (window ! index)" "index = 0 \<or> \<not> hex_token (window ! (index - 1))"
  shows "hex_run window index (index + length (takeWhile hex_token (drop index window)))"
proof -
  let ?n = "length (takeWhile hex_token (drop index window))"
  have "0 < ?n" using assms(1,2) by (simp add: takeWhile_eq_Nil_iff hd_drop_conv_nth)
  moreover have "?n \<le> length window - index" using length_takeWhile_le [of hex_token "drop index window"] by simp
  moreover have "hex_token (window ! i)" if "index \<le> i" "i < index + ?n" for i
  proof -
    have i: "i - index < ?n" using that by simp
    then have "takeWhile hex_token (drop index window) ! (i - index) = drop index window ! (i - index)"
      by (rule takeWhile_nth)
    then show ?thesis
      using nth_mem [OF i] set_takeWhileD [of _ hex_token "drop index window"] that assms(1) by auto
  qed
  moreover have "\<not> hex_token (window ! (index + ?n))" if "index + ?n \<noteq> length window"
  proof -
    have "?n < length (drop index window)" using that calculation(2) assms(1) by auto
    from nth_length_takeWhile [OF this] show ?thesis using assms(1) by simp
  qed
  ultimately show ?thesis using assms by (auto simp: hex_run_def)
qed

lemma clear_targets_nth:
  "length (clear_targets start stop weights) = length weights
   \<and> (i < length weights \<longrightarrow> clear_targets start stop weights ! i = (if start \<le> i + 1 \<and> i + 1 < stop then 0 else weights ! i))"
  by (induction stop) (auto simp: clear_targets_def nth_list_update less_Suc_eq)

lemma in_long_run_step:
  assumes "\<not> hex_token (window ! index)" "index < length window"
  shows "in_long_run window (index + 1) i \<longleftrightarrow> in_long_run window index i"
proof -
  have "start \<noteq> index" if "hex_run window start stop" for start stop
    using that assms by (auto simp: hex_run_def)
  then show ?thesis unfolding in_long_run_def by (metis Suc_eq_plus1 Suc_leD Suc_leI le_neq_implies_less)
qed

lemma in_long_run_jump:
  assumes "hex_run window index stop"
  shows "in_long_run window index i \<longleftrightarrow> (8 \<le> stop - index \<and> index \<le> i \<and> i < stop) \<or> in_long_run window stop i"
proof
  assume "in_long_run window index i"
  then obtain a b where ab: "hex_run window a b" "index \<le> a" "8 \<le> b - a" "a \<le> i" "i < b"
    by (auto simp: in_long_run_def)
  show "(8 \<le> stop - index \<and> index \<le> i \<and> i < stop) \<or> in_long_run window stop i"
  proof (cases "a = index")
    case True
    then show ?thesis using ab hex_run_unique [OF assms] by auto
  next
    case False
    then have "stop \<le> a" using hex_run_apart [OF assms ab(1)] ab(2) by simp
    then show ?thesis using ab by (auto simp: in_long_run_def)
  qed
next
  assume "(8 \<le> stop - index \<and> index \<le> i \<and> i < stop) \<or> in_long_run window stop i"
  moreover have "index \<le> stop" using assms by (simp add: hex_run_def)
  ultimately show "in_long_run window index i" using assms unfolding in_long_run_def by (meson le_refl le_trans)
qed

lemma entropy_loop_nth:
  assumes "index = 0 \<or> length window \<le> index \<or> \<not> hex_token (window ! (index - 1)) \<or> \<not> hex_token (window ! index)"
  shows "length (entropy_loop window index weights) = length weights
    \<and> (i < length weights \<longrightarrow> entropy_loop window index weights ! i
        = (if in_long_run window index (i + 1) then 0 else weights ! i))"
  using assms
proof (induction window index weights rule: entropy_loop.induct)
  case (1 window index weights)
  consider (past) "length window \<le> index" | (skip) "index < length window" "\<not> hex_token (window ! index)"
    | (run) "index < length window" "hex_token (window ! index)" by fastforce
  then show ?case
  proof cases
    case past
    then have "\<not> in_long_run window index (i + 1)" by (auto simp: in_long_run_def hex_run_def)
    then show ?thesis using past by (subst entropy_loop.simps) (simp add: entropy_loop.simps)
  next
    case skip
    have "entropy_loop window index weights = entropy_loop window (index + 1) weights"
      using skip by (subst entropy_loop.simps) simp
    then show ?thesis using 1(1) skip in_long_run_step [OF skip(2,1)] by simp
  next
    case run
    define stop where "stop = index + length (takeWhile hex_token (drop index window))"
    define weights' where "weights' = (if 8 \<le> stop - index then clear_targets index stop weights else weights)"
    have hr: "hex_run window index stop"
      unfolding stop_def using run 1(3) by (intro hex_run_takeWhile) auto
    then have lt: "index < stop" by (simp add: hex_run_def)
    then have mx: "max stop (index + 1) = stop" by simp
    have eq: "entropy_loop window index weights = entropy_loop window stop weights'"
      using run mx by (subst entropy_loop.simps) (simp add: Let_def stop_def weights'_def)
    have bound: "stop = 0 \<or> length window \<le> stop \<or> \<not> hex_token (window ! (stop - 1)) \<or> \<not> hex_token (window ! stop)"
      using hr by (auto simp: hex_run_def)
    have IH: "length (entropy_loop window stop weights') = length weights'
      \<and> (i < length weights' \<longrightarrow> entropy_loop window stop weights' ! i
        = (if in_long_run window stop (i + 1) then 0 else weights' ! i))"
      using 1(2) [of stop weights'] run bound mx unfolding stop_def [symmetric] weights'_def [symmetric] by simp
    have len: "length weights' = length weights" using clear_targets_nth by (simp add: weights'_def)
    have "weights' ! i = (if 8 \<le> stop - index \<and> index \<le> i + 1 \<and> i + 1 < stop then 0 else weights ! i)" if "i < length weights"
      using that clear_targets_nth [of index stop weights i] by (simp add: weights'_def)
    then show ?thesis using IH len eq in_long_run_jump [OF hr, of "i + 1"] by auto
  qed
qed

section \<open>The mass of balanced weights\<close>

lemma rounded_share:
  fixes a t m :: int
  assumes "0 < m" "0 \<le> a * t"
  shows "\<bar>max 1 ((a * t + m div 2) div m) * m - a * t\<bar> \<le> m"
proof -
  define q where "q = (a * t + m div 2) div m"
  have q: "q * m \<le> a * t + m div 2" "a * t + m div 2 < q * m + m"
    using assms(1) div_mult_mod_eq [of "a * t + m div 2" m] pos_mod_bound [of m "a * t + m div 2"]
      pos_mod_sign [of m "a * t + m div 2"] unfolding q_def by linarith+
  have half: "0 \<le> m div 2" "m div 2 \<le> m" using assms(1) by auto
  have "0 \<le> q" unfolding q_def using assms half by (simp add: pos_imp_zdiv_nonneg_iff)
  then show ?thesis
  proof (cases "q = 0")
    case True
    then have "a * t < m" using q half by simp
    then show ?thesis using True assms unfolding q_def [symmetric] by simp
  next
    case False
    then have "max 1 q = q" using \<open>0 \<le> q\<close> by simp
    then show ?thesis using q half unfolding q_def [symmetric] by linarith
  qed
qed

lemma balanced_weight_exact:
  assumes "0 < trace_mass" "trace_mass \<le> 2 ^ 40" "0 < answer_mass" "answer_mass \<le> 2 ^ 40" "- 16 \<le> w" "w < 0"
  shows "balanced_weight trace_mass answer_mass w = max 1 ((- w * trace_mass + answer_mass div 2) div answer_mass)"
proof -
  have prod: "0 \<le> - w * trace_mass" "- w * trace_mass \<le> 16 * 2 ^ 40"
    using assms mult_mono [of "- w" 16 trace_mass "2 ^ 40"] by (auto simp: mult_nonpos_nonneg)
  have half: "0 \<le> answer_mass div 2" "answer_mass div 2 \<le> 2 ^ 40" using assms(3,4) by auto
  have sat: "i128_sat (i128_sat (- w * trace_mass) + answer_mass div 2) = - w * trace_mass + answer_mass div 2"
    using prod half by (simp add: i128_sat_def)
  have "(- w * trace_mass + answer_mass div 2) div answer_mass \<le> - w * trace_mass + answer_mass div 2"
    using assms(3) prod half zdiv_mono2 [of "- w * trace_mass + answer_mass div 2" 1 answer_mass] by simp
  then have "max 1 ((- w * trace_mass + answer_mass div 2) div answer_mass) \<le> i64_max"
    using prod half by (simp add: i64_max_def)
  then show ?thesis using assms(1) unfolding balanced_weight_def Let_def sat by (auto simp del: max.bounded_iff)
qed

lemma balanced_sum:
  fixes ws :: "int list"
  assumes "0 < t" "0 < m" "\<forall>w\<in>set ws. w < 0"
  shows "\<bar>sum_list (map (\<lambda>w. max 1 ((- w * t + m div 2) div m)) ws) * m - sum_list (map uminus ws) * t\<bar> \<le> int (length ws) * m"
  using assms(3)
proof (induction ws)
  case (Cons w ws)
  have "0 \<le> - w * t" using Cons.prems assms(1) by (simp add: mult_nonpos_nonneg)
  from rounded_share [OF assms(2) this] have "\<bar>max 1 ((- w * t + m div 2) div m) * m - - w * t\<bar> \<le> m" .
  moreover have "\<bar>sum_list (map (\<lambda>w. max 1 ((- w * t + m div 2) div m)) ws) * m - sum_list (map uminus ws) * t\<bar> \<le> int (length ws) * m"
    using Cons by simp
  ultimately show ?case by (simp add: distrib_right left_diff_distrib) linarith
qed simp

lemma mass_bound:
  assumes "\<forall>w\<in>set ws. f w \<le> (16 :: int)"
  shows "sum_list (map f ws) \<le> 16 * int (length ws)"
  using assms by (induction ws) auto

lemma balanced_mass:
  assumes "\<forall>w\<in>set weights. - 16 \<le> w \<and> w \<le> 16" "length weights \<le> 2 ^ 32"
    and "0 < sum_list (filter (\<lambda>w. 0 < w) weights)" and "\<exists>w\<in>set weights. w < 0"
  shows "\<bar>sum_list (map (balanced_weight (sum_list (filter (\<lambda>w. 0 < w) weights))
        (sum_list (map uminus (filter (\<lambda>w. w < 0) weights)))) (filter (\<lambda>w. w < 0) weights))
      - sum_list (filter (\<lambda>w. 0 < w) weights)\<bar> \<le> int (length (filter (\<lambda>w. w < 0) weights))"
proof -
  let ?neg = "filter (\<lambda>w. w < 0) weights" and ?pos = "filter (\<lambda>w. 0 < w) weights"
  define t m where "t = sum_list ?pos" and "m = sum_list (map uminus ?neg)"
  have lens: "int (length ?neg) \<le> 2 ^ 32" "int (length ?pos) \<le> 2 ^ 32"
    using length_filter_le [of _ weights] assms(2) by (meson le_trans of_nat_le_iff of_nat_le_numeral_power_cancel_iff)+
  have "sum_list (map (\<lambda>w. w) ?pos) \<le> 16 * int (length ?pos)" using assms(1) by (intro mass_bound) auto
  then have t: "t \<le> 2 ^ 40" using lens by (simp add: t_def)
  have "m \<le> 16 * int (length ?neg)" unfolding m_def using assms(1) by (intro mass_bound) auto
  then have m: "m \<le> 2 ^ 40" using lens by simp
  have "m \<noteq> 0" using answer_mass_zero [of weights] assms(4) unfolding m_def by force
  moreover have "0 \<le> m" unfolding m_def by (rule sum_list_nonneg) auto
  ultimately have m0: "0 < m" by simp
  have t0: "0 < t" using assms(3) by (simp add: t_def)
  have "map (balanced_weight t m) ?neg = map (\<lambda>w. max 1 ((- w * t + m div 2) div m)) ?neg"
    using balanced_weight_exact [OF t0 t m0 m] assms(1) by (intro map_cong) auto
  moreover have "\<forall>w\<in>set ?neg. w < 0" by simp
  note balanced_sum [OF t0 m0 this]
  ultimately have "\<bar>sum_list (map (balanced_weight t m) ?neg) * m - m * t\<bar> \<le> int (length ?neg) * m"
    by (simp only: m_def [symmetric])
  then have "\<bar>(sum_list (map (balanced_weight t m) ?neg) - t) * m\<bar> \<le> int (length ?neg) * m"
    by (simp only: left_diff_distrib mult.commute [of m t])
  then have "\<bar>sum_list (map (balanced_weight t m) ?neg) - t\<bar> * m \<le> int (length ?neg) * m"
    using m0 by (simp add: abs_mult)
  then show ?thesis using m0 by (simp add: t_def [symmetric] m_def [symmetric])
qed

section \<open>Trace and answer targets\<close>

text \<open>The tagged scan of the trace-and-answer mode marks the targets the completion mode supervises.\<close>

definition tags :: "int \<Rightarrow> int \<Rightarrow> bool" where
  "tags w c \<longleftrightarrow> (if 0 < c then w = - c \<and> c \<le> 16 else c = 0 \<and> (w = 0 \<or> w = 1))"

lemma target_weight_mode:
  assumes "sup_mode cfg \<noteq> AnswerValues"
  shows "target_weight cfg window t s = target_weight (cfg\<lparr> sup_mode := AnswerCompletion, sup_balance := False \<rparr>) window t s"
  using assms by (simp add: target_weight_def Let_def)

lemma clamp_weight_le: "clamp_weight w \<le> 16"
  by (simp add: clamp_weight_def)

lemma target_weight_range:
  "sup_mode cfg \<noteq> AnswerValues \<Longrightarrow> 1 \<le> fst (target_weight cfg window t s) \<and> fst (target_weight cfg window t s) \<le> 16"
  by (auto simp: target_weight_def Let_def int_one_le_iff_zero_less clamp_weight_le clamp_weight_pos less_max_iff_disj)

lemma scan_target_mode:
  assumes "sup_mode cfg = TraceAndAnswer" "sup_balance cfg"
  shows "scan_target cfg window t s
    = apfst (map_option uminus) (scan_target (cfg\<lparr> sup_mode := AnswerCompletion, sup_balance := False \<rparr>) window t s)"
proof -
  have tw: "target_weight cfg window t s
      = target_weight (cfg\<lparr> sup_mode := AnswerCompletion, sup_balance := False \<rparr>) window t s"
    by (rule target_weight_mode) (simp add: assms(1))
  have "1 \<le> fst (target_weight cfg window t s)" using target_weight_range [of cfg] assms(1) by simp
  then show ?thesis
    using assms tw by (auto simp: scan_target_def tagged_def supervise_close_marker_def split_def)
qed

lemma scan_target_range:
  assumes "scan_target (cfg\<lparr> sup_mode := AnswerCompletion, sup_balance := False \<rparr>) window t s = (Some w, s')"
  shows "0 < w \<and> w \<le> 16"
  using assms target_weight_range [of "cfg\<lparr> sup_mode := AnswerCompletion, sup_balance := False \<rparr>" window t s]
  by (auto simp: scan_target_def tagged_def split_def split: if_splits)

lemma answer_loop_tags:
  assumes "sup_mode cfg = TraceAndAnswer" "sup_balance cfg" "list_all2 tags ws cs"
  shows "list_all2 tags (snd (answer_loop cfg window ts s any1 ws))
    (snd (answer_loop (cfg\<lparr> sup_mode := AnswerCompletion, sup_balance := False \<rparr>) window ts s any2 cs))"
  using assms(3)
proof (induction ts arbitrary: s any1 any2 ws cs)
  case (Cons t ts)
  obtain w s2 where w: "scan_target (cfg\<lparr> sup_mode := AnswerCompletion, sup_balance := False \<rparr>) window t
      (scan_input window t s) = (w, s2)" by fastforce
  show ?case
  proof (cases w)
    case None
    then show ?thesis using Cons w scan_target_mode [OF assms(1,2)] by (simp add: Let_def)
  next
    case (Some x)
    have "tags (- x) x" using scan_target_range w Some by (auto simp: tags_def)
    then have "list_all2 tags (ws[t := - x]) (cs[t := x])" using Cons.prems by (rule list_all2_update_cong [rotated])
    then show ?thesis using Cons.IH w Some scan_target_mode [OF assms(1,2)] by (simp add: Let_def)
  qed
qed simp

lemma tags_split:
  assumes "list_all2 tags ws cs" "\<And>w. 0 \<le> w \<Longrightarrow> f w = w"
  shows "sum_list (map fst (filter (\<lambda>(w, c). c = 0) (zip (map f ws) cs))) = sum_list (filter (\<lambda>w. 0 < w) ws)
    \<and> sum_list (map fst (filter (\<lambda>(w, c). 0 < c) (zip (map f ws) cs))) = sum_list (map f (filter (\<lambda>w. w < 0) ws))
    \<and> length (filter (\<lambda>c. 0 < c) cs) = length (filter (\<lambda>w. w < 0) ws)
    \<and> (\<forall>w\<in>set ws. - 16 \<le> w \<and> w \<le> 16)"
  using assms(1)
proof (induction rule: list_all2_induct)
  case (Cons w ws c cs)
  then show ?case using assms(2) [of w] by (auto simp: tags_def split: if_splits)
qed simp

end
