(* ===== verification/Ruliad_Supervision_Properties.thy ===== *)
theory Ruliad_Supervision_Properties
  imports Ruliad_Supervision_Proofs
begin

text \<open>The properties of the token supervision, \<open>ruliad/supervision.rs\<close>.\<close>

abbreviation masked_weights :: "token list \<Rightarrow> nat \<Rightarrow> supervision_config \<Rightarrow> int list" where
  "masked_weights window len cfg \<equiv> snd (ruliad_token_loss_mask window len cfg)"

text \<open>The targets the completion mode supervises, with their weights.\<close>

abbreviation answer_weights :: "token list \<Rightarrow> nat \<Rightarrow> supervision_config \<Rightarrow> int list" where
  "answer_weights window len cfg \<equiv>
     masked_weights window len (cfg\<lparr> sup_mode := AnswerCompletion, sup_balance := False \<rparr>)"

lemma target_mask_length: "length (snd (answer_target_loss_mask window len cfg base)) = len"
  by (simp add: answer_target_loss_mask_def answer_loop_length)

lemma entropy_length: "length (mask_high_entropy_targets window weights) = length weights"
  using entropy_loop_nth [of 0 window weights 0] by (simp add: mask_high_entropy_targets_def)

lemma entropy_nth:
  "i < length weights \<Longrightarrow>
     mask_high_entropy_targets window weights ! i = (if in_long_run window 0 (i + 1) then 0 else weights ! i)"
  using entropy_loop_nth [of 0 window weights i] by (simp add: mask_high_entropy_targets_def)

lemma balance_length: "length (balance_trace_answer_mass weights) = length weights"
  by (simp add: balance_trace_answer_mass_def Let_def)

lemma target_mask_nonneg:
  assumes "\<not> (sup_balance cfg \<and> sup_mode cfg = TraceAndAnswer)" "0 \<le> base"
  shows "\<forall>w\<in>set (snd (answer_target_loss_mask window len cfg base)). 0 \<le> w"
  unfolding answer_target_loss_mask_def using assms
  by (intro answer_loop_all) (auto simp: tagged_def)

lemma entropy_nonneg:
  assumes "\<forall>w\<in>set weights. (0 :: int) \<le> w"
  shows "\<forall>w\<in>set (mask_high_entropy_targets window weights). 0 \<le> w"
proof
  fix w assume "w \<in> set (mask_high_entropy_targets window weights)"
  then obtain i where "i < length weights" "w = mask_high_entropy_targets window weights ! i"
    by (auto simp: in_set_conv_nth entropy_length)
  then show "0 \<le> w" using assms entropy_nth nth_mem by (auto split: if_splits)
qed

text \<open>The weights after the scan and after the masking of hexadecimal runs.\<close>

definition scanned_weights :: "token list \<Rightarrow> nat \<Rightarrow> supervision_config \<Rightarrow> int list" where
  "scanned_weights window len cfg =
     (if uses_trace_answer_target_mask cfg then snd (answer_target_loss_mask window len cfg 1)
      else if uses_answer_target_mask cfg then snd (answer_target_loss_mask window len cfg 0)
      else replicate len 1)"

definition unbalanced_weights :: "token list \<Rightarrow> nat \<Rightarrow> supervision_config \<Rightarrow> int list" where
  "unbalanced_weights window len cfg =
     (if sup_mask_high_entropy cfg then mask_high_entropy_targets window (scanned_weights window len cfg)
      else scanned_weights window len cfg)"

lemma masked_weights_eq:
  "masked_weights window len cfg =
     (if length window < sat_add len 1 then replicate len 0
      else if sup_balance cfg \<and> sup_mode cfg = TraceAndAnswer
      then balance_trace_answer_mass (unbalanced_weights window len cfg)
      else unbalanced_weights window len cfg)"
  by (simp add: ruliad_token_loss_mask_def unbalanced_weights_def scanned_weights_def split_def Let_def)

lemma scanned_length: "length (scanned_weights window len cfg) = len"
  by (simp add: scanned_weights_def target_mask_length)

lemma unbalanced_length: "length (unbalanced_weights window len cfg) = len"
  by (simp add: unbalanced_weights_def entropy_length scanned_length)

lemma scanned_nonneg:
  assumes "\<not> (sup_balance cfg \<and> sup_mode cfg = TraceAndAnswer)"
  shows "\<forall>w\<in>set (scanned_weights window len cfg). 0 \<le> w"
proof -
  have "\<forall>w\<in>set (snd (answer_target_loss_mask window len cfg 1)). 0 \<le> w"
    "\<forall>w\<in>set (snd (answer_target_loss_mask window len cfg 0)). 0 \<le> w"
    by (rule target_mask_nonneg [OF assms], simp)+
  then show ?thesis by (simp add: scanned_weights_def)
qed

lemma unbalanced_nonneg:
  assumes "\<not> (sup_balance cfg \<and> sup_mode cfg = TraceAndAnswer)"
  shows "\<forall>w\<in>set (unbalanced_weights window len cfg). 0 \<le> w"
  using scanned_nonneg [OF assms] entropy_nonneg unfolding unbalanced_weights_def by presburger

text \<open>Loss weights are counted and never negative. Every window and every configuration write exactly the weights of
  the mask, none of them negative: the negative tags of the balancing never leave it.\<close>
theorem loss_weights_are_never_negative:
  "length (masked_weights window len cfg) = len \<and> list_all (\<lambda>w. 0 \<le> w) (masked_weights window len cfg)"
  using unbalanced_nonneg [of cfg window len] balance_nonneg
  by (auto simp: masked_weights_eq balance_length unbalanced_length list_all_iff)

text \<open>C35: nothing is supervised before an answer opens. In the completion, value and mixed modes a target has the weight
  zero unless an answer opens at its input or before it.\<close>
theorem targets_before_an_answer_are_masked:
  assumes "sup_mode cfg \<in> {AnswerCompletion, AnswerValues, MixedSupervision}" and "i < len"
    and "\<forall>u\<le>i. \<not> answer_opens window u"
  shows "masked_weights window len cfg ! i = 0"
proof -
  have "snd (answer_target_loss_mask window len cfg 0) ! i = replicate len 0 ! i"
    unfolding answer_target_loss_mask_def
    using assms(2,3) by (intro answer_loop_closed) (auto simp: initial_scan_def)
  then show ?thesis
    using assms(1,2) by (auto simp: masked_weights_eq unbalanced_weights_def scanned_weights_def entropy_nth
        target_mask_length uses_trace_answer_target_mask_def uses_answer_target_mask_def)
qed

theorem targets_before_an_answer_are_masked_witness:
  "masked_weights (map ascii_token ''?:q=1!:a=2[/R3]'') 14 (default_supervision\<lparr> sup_mode := AnswerCompletion \<rparr>) ! 3 = 0"
proof (rule targets_before_an_answer_are_masked)
  have "\<forall>u\<in>set [0..<4]. \<not> answer_opens (map ascii_token ''?:q=1!:a=2[/R3]'') u" by code_simp
  then show "\<forall>u\<le>3. \<not> answer_opens (map ascii_token ''?:q=1!:a=2[/R3]'') u" by auto
qed simp_all

text \<open>C34: masking removes exactly the long hexadecimal runs. Without balancing, masking high-entropy spans gives the
  weight zero to the targets inside a maximal run of at least eight hexadecimal digits and leaves the others.\<close>
theorem entropy_mask_removes_long_runs:
  assumes "\<not> sup_balance cfg" and "i < len"
  shows "masked_weights window len (cfg\<lparr> sup_mask_high_entropy := True \<rparr>) ! i
    = (if \<exists>start stop. hex_run window start stop \<and> 8 \<le> stop - start \<and> start \<le> i + 1 \<and> i + 1 < stop then 0
       else masked_weights window len (cfg\<lparr> sup_mask_high_entropy := False \<rparr>) ! i)"
proof -
  have weight: "target_weight (cfg\<lparr> sup_mask_high_entropy := b \<rparr>) = target_weight cfg" for b
    by (cases cfg) (intro ext, simp only: target_weight_def supervision_config.simps)
  have "scan_target (cfg\<lparr> sup_mask_high_entropy := b \<rparr>) = scan_target cfg" for b
    by (intro ext) (auto simp: scan_target_def weight tagged_def supervise_close_marker_def)
  then have "answer_loop (cfg\<lparr> sup_mask_high_entropy := b \<rparr>) window ts s any1 ws = answer_loop cfg window ts s any1 ws"
    for b ts s any1 ws
    by (induction ts arbitrary: s any1 ws) (simp_all only: answer_loop.simps)
  then have scanned: "scanned_weights window len (cfg\<lparr> sup_mask_high_entropy := b \<rparr>) = scanned_weights window len cfg" for b
    by (simp add: scanned_weights_def answer_target_loss_mask_def uses_trace_answer_target_mask_def uses_answer_target_mask_def)
  have run: "(\<exists>start stop. hex_run window start stop \<and> 8 \<le> stop - start \<and> start \<le> i + 1 \<and> i + 1 < stop)
      = in_long_run window 0 (i + 1)"
    by (simp add: in_long_run_def)
  show ?thesis
    unfolding run using assms by (simp add: masked_weights_eq unbalanced_weights_def scanned scanned_length entropy_nth)
qed

theorem entropy_mask_removes_long_runs_witness:
  "masked_weights (map ascii_token ''x01234567z'') 9 (default_supervision\<lparr> sup_mask_high_entropy := True \<rparr>) ! 2 = 0"
proof -
  let ?w = "map ascii_token ''x01234567z''"
  have "\<forall>i\<in>set [1..<9]. hex_token (?w ! i)" "\<not> hex_token (?w ! 0)" "\<not> hex_token (?w ! 9)" by code_simp+
  then have "hex_run ?w 1 9" by (auto simp: hex_run_def)
  moreover have "\<not> sup_balance default_supervision" by (simp add: default_supervision_def)
  note entropy_mask_removes_long_runs [OF this, of 2 9 ?w]
  then have eq: "masked_weights ?w 9 (default_supervision\<lparr> sup_mask_high_entropy := True \<rparr>) ! 2
    = (if \<exists>start stop. hex_run ?w start stop \<and> 8 \<le> stop - start \<and> start \<le> 2 + 1 \<and> 2 + 1 < stop then 0
       else masked_weights ?w 9 (default_supervision\<lparr> sup_mask_high_entropy := False \<rparr>) ! 2)" by simp
  moreover have "8 \<le> (9 :: nat) - 1" "1 \<le> (2 :: nat) + 1" "2 + 1 < (9 :: nat)" by simp_all
  ultimately have "\<exists>start stop. hex_run ?w start stop \<and> 8 \<le> stop - start \<and> start \<le> 2 + 1 \<and> 2 + 1 < stop" by blast
  then show ?thesis using eq by (simp only: if_True)
qed

lemma entropy_tags:
  "list_all2 tags ws cs \<Longrightarrow> list_all2 tags (mask_high_entropy_targets window ws) (mask_high_entropy_targets window cs)"
  unfolding list_all2_conv_all_nth entropy_length by (simp add: entropy_nth) (simp add: tags_def)

text \<open>C33: balanced trace and answer targets have the same mass. In the balanced trace-and-answer mode, with or without the
  masking of hexadecimal runs, when a trace target and an answer target (one the completion mode supervises) keep a
  weight, the weights of the trace targets and of the answer targets differ by at most one for each answer target.
  (The window has at most 2^32 targets.)\<close>
theorem balanced_masses_agree:
  assumes "sup_mode cfg = TraceAndAnswer" and "sup_balance cfg" and "len \<le> 2 ^ 32"
    and "\<exists>(w, c)\<in>set (zip (masked_weights window len cfg) (answer_weights window len cfg)). c = 0 \<and> w \<noteq> 0"
    and "\<exists>c\<in>set (answer_weights window len cfg). 0 < c"
  shows "\<bar>sum_list (map fst (filter (\<lambda>(w, c). 0 < c) (zip (masked_weights window len cfg) (answer_weights window len cfg))))
      - sum_list (map fst (filter (\<lambda>(w, c). c = 0) (zip (masked_weights window len cfg) (answer_weights window len cfg))))\<bar>
    \<le> int (length (filter (\<lambda>c. 0 < c) (answer_weights window len cfg)))"
proof -
  let ?c = "cfg\<lparr> sup_mode := AnswerCompletion, sup_balance := False \<rparr>"
  define answers where "answers = answer_weights window len cfg"
  define weights where "weights = masked_weights window len cfg"
  note assms = assms [folded answers_def weights_def]
  define raw where "raw = unbalanced_weights window len cfg"
  have sat: "\<not> length window < sat_add len 1" using assms(5) by (auto simp: answers_def masked_weights_eq)
  have answers: "answers = unbalanced_weights window len ?c" using sat by (simp add: answers_def masked_weights_eq)
  have "list_all2 tags (replicate len 1) (replicate len 0)" by (simp add: list_all2_conv_all_nth tags_def)
  then have "list_all2 tags (scanned_weights window len cfg) (scanned_weights window len ?c)"
    using answer_loop_tags [OF assms(1,2)] assms(1)
    by (simp add: scanned_weights_def answer_target_loss_mask_def uses_trace_answer_target_mask_def uses_answer_target_mask_def)
  then have tg: "list_all2 tags raw answers"
    using entropy_tags by (simp add: raw_def answers unbalanced_weights_def)
  define t m where "t = sum_list (filter (\<lambda>w. 0 < w) raw)" and "m = sum_list (map uminus (filter (\<lambda>w. w < 0) raw))"
  let ?f = "\<lambda>w. if w < 0 then balanced_weight t m w else w"
  have parts: "sum_list (map fst (filter (\<lambda>(w, c). c = 0) (zip (map ?f raw) answers))) = t"
      "sum_list (map fst (filter (\<lambda>(w, c). 0 < c) (zip (map ?f raw) answers))) = sum_list (map ?f (filter (\<lambda>w. w < 0) raw))"
      "length (filter (\<lambda>c. 0 < c) answers) = length (filter (\<lambda>w. w < 0) raw)" "\<forall>w\<in>set raw. - 16 \<le> w \<and> w \<le> 16"
    using tags_split [OF tg, of ?f] by (simp_all add: t_def)
  have neg: "\<exists>w\<in>set raw. w < 0" using parts(3) assms(5) by (metis filter_empty_conv length_0_conv)
  have "m \<noteq> 0" using answer_mass_zero [of raw] neg unfolding m_def by force
  then have weights: "weights = map ?f raw"
    using sat assms(1,2) by (simp add: weights_def masked_weights_eq Let_def balance_trace_answer_mass_def raw_def t_def m_def)
  have "0 < t"
  proof -
    obtain i where i: "i < length raw" "answers ! i = 0" "?f (raw ! i) \<noteq> 0"
      using assms(4) list_all2_lengthD [OF tg] unfolding weights by (auto simp: set_zip)
    then have "raw ! i = 1" using list_all2_nthD [OF tg i(1)] by (auto simp: tags_def)
    then have "1 \<in> set (filter (\<lambda>w. 0 < w) raw)" using i(1) by (force simp: in_set_conv_nth)
    then have "1 \<le> t" unfolding t_def by (intro member_le_sum_list) auto
    then show ?thesis by simp
  qed
  then have mass: "\<bar>sum_list (map (balanced_weight t m) (filter (\<lambda>w. w < 0) raw)) - t\<bar> \<le> int (length (filter (\<lambda>w. w < 0) raw))"
    using balanced_mass [OF parts(4)] neg assms(3) unbalanced_length [of window len cfg]
    by (simp add: t_def m_def raw_def)
  have neg_part: "map ?f (filter (\<lambda>w. w < 0) raw) = map (balanced_weight t m) (filter (\<lambda>w. w < 0) raw)" by simp
  note parts = parts [unfolded neg_part]
  show ?thesis using mass unfolding answers_def [symmetric] weights_def [symmetric] weights by (simp only: parts)
qed

theorem balanced_masses_agree_witness:
  "\<exists>cfg. sup_mode cfg = TraceAndAnswer \<and> sup_balance cfg \<and> sup_mask_high_entropy cfg
    \<and> \<bar>sum_list (map fst (filter (\<lambda>(w, c). 0 < c) (zip (masked_weights (map ascii_token ''PP!:x'') 4 cfg) [0, 0, 0, 1 :: int])))
      - sum_list (map fst (filter (\<lambda>(w, c). c = 0) (zip (masked_weights (map ascii_token ''PP!:x'') 4 cfg) [0, 0, 0, 1 :: int])))\<bar> \<le> 1"
proof -
  let ?w = "map ascii_token ''PP!:x''"
  let ?c = "default_supervision\<lparr> sup_mode := TraceAndAnswer, sup_balance := True, sup_mask_high_entropy := True \<rparr>"
  have "unbalanced_weights ?w 4 (?c\<lparr> sup_mode := AnswerCompletion, sup_balance := False \<rparr>) = [0, 0, 0, 1]" by code_simp
  then have ans: "answer_weights ?w 4 ?c = [0, 0, 0, 1]"
    by (simp add: masked_weights_eq default_supervision_def sat_add_def usize_max_def)
  have "balance_trace_answer_mass (unbalanced_weights ?w 4 ?c) = [1, 1, 1, 3]" by code_simp
  then have ws: "masked_weights ?w 4 ?c = [1, 1, 1, 3]"
    by (simp add: masked_weights_eq default_supervision_def sat_add_def usize_max_def)
  have cfg: "sup_mode ?c = TraceAndAnswer" "sup_balance ?c" "sup_mask_high_entropy ?c"
    by (simp_all add: default_supervision_def)
  have n: "int (length (filter (\<lambda>c. 0 < c) [0, 0, 0, 1 :: int])) = 1" by simp
  have "(4 :: nat) \<le> 2 ^ 32" "\<exists>(w, c)\<in>set (zip [1, 1, 1, 3 :: int] [0, 0, 0, 1 :: int]). c = 0 \<and> w \<noteq> 0"
    "\<exists>c\<in>set [0, 0, 0, 1 :: int]. 0 < c"
    by simp_all
  from balanced_masses_agree [OF cfg(1,2) this [folded ws, folded ans]] show ?thesis
    using cfg unfolding ans n by blast
qed

end
