(* ===== verification/Checkpoint_Files.thy ===== *)
theory Checkpoint_Files
  imports Ruliad_Prelude
begin

text \<open>
  Paths and files under the crate burn_dragon_checkpoint, and its path policy (\<open>policy.rs\<close>).
  A path is read the way \<open>std::path\<close> reads it on Unix: whether it is absolute, and its
  components without empty ones and \<open>.\<close>; the component \<open>..\<close> is kept and not resolved; the
  path without components is the root or the current directory, which always exist. The file
  system maps paths to files; directories are a set of paths. Operations fail where the
  operating system refuses them for a missing or misplaced entry. Links, permissions and a full
  disk are not modelled.
\<close>

section \<open>Paths\<close>

datatype fs_path = FsPath (is_absolute: bool) (components: "string list")

definition proper_component :: "string \<Rightarrow> bool" where
  "proper_component c \<longleftrightarrow> c \<noteq> [] \<and> c \<noteq> ''.''"

definition parse_path :: "string \<Rightarrow> fs_path" where
  "parse_path s = FsPath (take 1 s = ''/'') (filter proper_component (split_on (CHR ''/'') s))"

definition file_name :: "fs_path \<Rightarrow> string option" where
  "file_name p =
     (if components p = [] \<or> last (components p) = ''..'' then None else Some (last (components p)))"

definition parent_of :: "fs_path \<Rightarrow> fs_path option" where
  "parent_of p =
     (if components p = [] then None else Some (FsPath (is_absolute p) (butlast (components p))))"

definition path_join :: "fs_path \<Rightarrow> fs_path \<Rightarrow> fs_path" where
  "path_join p q = (if is_absolute q then q else FsPath (is_absolute p) (components p @ components q))"

text \<open>\<open>PathBuf::set_file_name\<close>: the last component is dropped when it is a file name.\<close>

definition with_file_name :: "fs_path \<Rightarrow> string \<Rightarrow> fs_path" where
  "with_file_name p name =
     path_join (if file_name p = None then p else FsPath (is_absolute p) (butlast (components p))) (parse_path name)"

text \<open>The stem and the extension of a file name: the parts around the last dot, none when the dot
  is missing or the first byte.\<close>

definition split_extension :: "string \<Rightarrow> string \<times> string option" where
  "split_extension name =
     (let ext = rev (takeWhile (\<lambda>c. c \<noteq> CHR ''.'') (rev name));
          stem = take (length name - length ext - 1) name
      in if CHR ''.'' \<notin> set name \<or> stem = [] then (name, None) else (stem, Some ext))"

definition file_stem :: "fs_path \<Rightarrow> string option" where
  "file_stem p = map_option (fst \<circ> split_extension) (file_name p)"

definition extension_of :: "fs_path \<Rightarrow> string option" where
  "extension_of p = Option.bind (file_name p) (snd \<circ> split_extension)"

definition with_extension :: "fs_path \<Rightarrow> string \<Rightarrow> fs_path" where
  "with_extension p ext =
     (case file_stem p of
        None \<Rightarrow> p
      | Some stem \<Rightarrow>
          FsPath (is_absolute p) (butlast (components p)
            @ filter proper_component [if ext = [] then stem else stem @ ''.'' @ ext]))"

section \<open>Text of the standard library\<close>

definition lower_byte :: "char \<Rightarrow> char" where
  "lower_byte c = (let n = (of_char c :: nat) in if 65 \<le> n \<and> n \<le> 90 then char_of (n + 32) else c)"

definition eq_ignore_ascii_case :: "string \<Rightarrow> string \<Rightarrow> bool" where
  "eq_ignore_ascii_case a b \<longleftrightarrow> map lower_byte a = map lower_byte b"

definition ends_with :: "string \<Rightarrow> string \<Rightarrow> bool" where
  "ends_with s ending \<longleftrightarrow> length ending \<le> length s \<and> drop (length s - length ending) s = ending"

lemma ends_with_append [simp]: "ends_with (s @ t) t"
  by (simp add: ends_with_def)

lemma ends_withD: "ends_with s t \<Longrightarrow> \<exists>r. s = r @ t"
  by (metis append_take_drop_id ends_with_def)

text \<open>\<open>{index:05}\<close>.\<close>

definition pad_five :: "nat \<Rightarrow> string" where
  "pad_five n = replicate (5 - length (show_nat n)) (CHR ''0'') @ show_nat n"

section \<open>The path policy\<close>

datatype precision_preference = PreferF16 | PreferF32

record load_policy =
  lp_precision :: precision_preference
  lp_f16_suffix :: string

definition default_load_policy :: load_policy where
  "default_load_policy = \<lparr> lp_precision = PreferF32, lp_f16_suffix = ''_f16'' \<rparr>"

definition with_file_stem_suffix :: "fs_path \<Rightarrow> string \<Rightarrow> fs_path" where
  "with_file_stem_suffix p ending =
     (case file_stem p of
        None \<Rightarrow> p
      | Some stem \<Rightarrow>
          if ends_with stem ending then p
          else
            let ext = (case extension_of p of None \<Rightarrow> [] | Some e \<Rightarrow> e)
            in with_file_name p (if ext = [] then stem @ ending else stem @ ending @ ''.'' @ ext))"

definition normalize_extension :: "fs_path \<Rightarrow> string \<Rightarrow> fs_path" where
  "normalize_extension p extension =
     (if (case extension_of p of None \<Rightarrow> False | Some ext \<Rightarrow> eq_ignore_ascii_case ext extension)
      then p else with_extension p extension)"

definition burnpack_path :: "fs_path \<Rightarrow> bool \<Rightarrow> string \<Rightarrow> fs_path" where
  "burnpack_path p use_f16 ending =
     (let p' = (if (case extension_of p of None \<Rightarrow> False | Some ext \<Rightarrow> eq_ignore_ascii_case ext ''bpk'')
                then p else with_extension p ''bpk'')
      in if use_f16 then with_file_stem_suffix p' ending else p')"

definition candidate_burnpack_paths :: "fs_path \<Rightarrow> load_policy \<Rightarrow> fs_path list" where
  "candidate_burnpack_paths p policy =
     (let default = burnpack_path p False (lp_f16_suffix policy);
          f16 = burnpack_path p True (lp_f16_suffix policy)
      in if f16 = default then [default]
         else if lp_precision policy = PreferF16 then [f16, default]
         else [default, f16])"

definition burnpack_parts_manifest_path :: "fs_path \<Rightarrow> fs_path" where
  "burnpack_parts_manifest_path p =
     with_file_name p ((case file_name p of None \<Rightarrow> ''model.bpk'' | Some name \<Rightarrow> name) @ ''.parts.json'')"

section \<open>Files\<close>

text \<open>A time of modification is in milliseconds since the Unix epoch; \<^const>\<open>None\<close> when it is earlier
  or unknown.\<close>

record file_entry =
  file_bytes :: string
  file_modified :: "nat option"

text \<open>The length and the time a directory reports are the operating system's.\<close>

record file_system =
  fs_files :: "fs_path \<Rightarrow> file_entry option"
  fs_dirs :: "fs_path set"
  fs_dir_info :: "fs_path \<Rightarrow> nat \<times> nat option"
  fs_now :: "nat option"

definition is_file :: "file_system \<Rightarrow> fs_path \<Rightarrow> bool" where
  "is_file fs p \<longleftrightarrow> fs_files fs p \<noteq> None"

definition is_dir :: "file_system \<Rightarrow> fs_path \<Rightarrow> bool" where
  "is_dir fs p \<longleftrightarrow> components p = [] \<or> p \<in> fs_dirs fs"

definition path_exists :: "file_system \<Rightarrow> fs_path \<Rightarrow> bool" where
  "path_exists fs p \<longleftrightarrow> is_file fs p \<or> is_dir fs p"

text \<open>The length and the time of modification of an entry.\<close>

definition metadata_of :: "file_system \<Rightarrow> fs_path \<Rightarrow> (nat \<times> nat option) option" where
  "metadata_of fs p =
     (case fs_files fs p of
        Some f \<Rightarrow> Some (length (file_bytes f), file_modified f)
      | None \<Rightarrow> if is_dir fs p then Some (fs_dir_info fs p) else None)"

definition read_file :: "file_system \<Rightarrow> fs_path \<Rightarrow> string option" where
  "read_file fs p = map_option file_bytes (fs_files fs p)"

text \<open>Creating or truncating a file needs its directory; the bytes written follow.\<close>

definition write_file :: "file_system \<Rightarrow> fs_path \<Rightarrow> string \<Rightarrow> file_system option" where
  "write_file fs p bytes =
     (if \<not> is_dir fs p \<and> (case parent_of p of None \<Rightarrow> False | Some d \<Rightarrow> is_dir fs d)
      then Some (fs\<lparr> fs_files := (fs_files fs)(p \<mapsto> \<lparr> file_bytes = bytes, file_modified = fs_now fs \<rparr>) \<rparr>)
      else None)"

definition remove_file :: "file_system \<Rightarrow> fs_path \<Rightarrow> file_system option" where
  "remove_file fs p = (if is_file fs p then Some (fs\<lparr> fs_files := (fs_files fs)(p := None) \<rparr>) else None)"

definition rename_file :: "file_system \<Rightarrow> fs_path \<Rightarrow> fs_path \<Rightarrow> file_system option" where
  "rename_file fs from to =
     (case fs_files fs from of
        None \<Rightarrow> None
      | Some f \<Rightarrow>
          if \<not> is_dir fs to \<and> (case parent_of to of None \<Rightarrow> False | Some d \<Rightarrow> is_dir fs d)
          then Some (fs\<lparr> fs_files := (fs_files fs)(from := None, to \<mapsto> f) \<rparr>)
          else None)"

definition ancestors :: "fs_path \<Rightarrow> fs_path set" where
  "ancestors p = (\<lambda>k. FsPath (is_absolute p) (take k (components p))) ` {0..length (components p)}"

definition create_dir_all :: "file_system \<Rightarrow> fs_path \<Rightarrow> file_system option" where
  "create_dir_all fs p =
     (if \<exists>q\<in>ancestors p. is_file fs q then None
      else Some (fs\<lparr> fs_dirs := fs_dirs fs \<union> ancestors p \<rparr>))"

text \<open>\<open>if let Some(parent) = path.parent() { create_dir_all(parent)? }\<close>.\<close>

definition ensure_parent_dir :: "file_system \<Rightarrow> fs_path \<Rightarrow> file_system option" where
  "ensure_parent_dir fs p = (case parent_of p of None \<Rightarrow> Some fs | Some d \<Rightarrow> create_dir_all fs d)"

definition file_modified_unix_ms :: "file_system \<Rightarrow> fs_path \<Rightarrow> nat option" where
  "file_modified_unix_ms fs p = Option.bind (metadata_of fs p) (\<lambda>(_, modified). map_option (\<lambda>t. t mod 2 ^ 64) modified)"

section \<open>What the operations change\<close>

lemma write_file_Some:
  "write_file fs p bytes = Some fs' \<Longrightarrow>
     fs_files fs' = (fs_files fs)(p \<mapsto> \<lparr> file_bytes = bytes, file_modified = fs_now fs \<rparr>)
     \<and> fs_dirs fs' = fs_dirs fs \<and> fs_dir_info fs' = fs_dir_info fs \<and> fs_now fs' = fs_now fs \<and> \<not> is_dir fs p"
  by (auto simp: write_file_def split: if_splits)

lemma remove_file_Some:
  "remove_file fs p = Some fs' \<Longrightarrow>
     fs_files fs' = (fs_files fs)(p := None) \<and> fs_dirs fs' = fs_dirs fs
     \<and> fs_dir_info fs' = fs_dir_info fs \<and> fs_now fs' = fs_now fs"
  by (auto simp: remove_file_def split: if_splits)

lemma create_dir_all_Some:
  "create_dir_all fs p = Some fs' \<Longrightarrow>
     fs_files fs' = fs_files fs \<and> fs_dirs fs' = fs_dirs fs \<union> ancestors p
     \<and> fs_dir_info fs' = fs_dir_info fs \<and> fs_now fs' = fs_now fs"
  by (auto simp: create_dir_all_def split: if_splits)

lemma ensure_parent_dir_files: "ensure_parent_dir fs p = Some fs' \<Longrightarrow> fs_files fs' = fs_files fs"
  by (auto simp: ensure_parent_dir_def dest: create_dir_all_Some split: option.splits)

section \<open>Single names\<close>

text \<open>A name that is one component of a path.\<close>

definition plain_name :: "string \<Rightarrow> bool" where
  "plain_name name \<longleftrightarrow> CHR ''/'' \<notin> set name \<and> proper_component name"

lemma parse_plain_name [simp]: "plain_name name \<Longrightarrow> parse_path name = FsPath False [name]"
  by (cases name) (auto simp: plain_name_def parse_path_def split_on_pure)

lemma with_plain_name:
  "plain_name name \<Longrightarrow> with_file_name p name =
     FsPath (is_absolute p) ((if file_name p = None then components p else butlast (components p)) @ [name])"
  by (simp add: with_file_name_def path_join_def)

lemma takeWhile_extension:
  "CHR ''.'' \<notin> set ext \<Longrightarrow> takeWhile (\<lambda>c. c \<noteq> CHR ''.'') (rev ext @ CHR ''.'' # r) = rev ext"
  by (subst takeWhile_append2) auto

lemma split_extension_append:
  "stem \<noteq> [] \<Longrightarrow> CHR ''.'' \<notin> set ext \<Longrightarrow> split_extension (stem @ ''.'' @ ext) = (stem, Some ext)"
  by (simp add: split_extension_def takeWhile_extension Let_def)

lemma split_extension_Some:
  assumes "split_extension name = (stem, Some ext)"
  shows "name = stem @ ''.'' @ ext \<and> stem \<noteq> [] \<and> CHR ''.'' \<notin> set ext"
proof -
  have "CHR ''.'' \<in> set name" using assms by (auto simp: split_extension_def Let_def split: if_splits)
  then obtain s e where name: "name = s @ CHR ''.'' # e" "CHR ''.'' \<notin> set e" using split_list_last by metis
  then have "split_extension name = (if s = [] then (name, None) else (s, Some e))"
    by (simp add: split_extension_def takeWhile_extension Let_def)
  then show ?thesis using assms name by (auto split: if_splits)
qed

end
