(* ===== verification/Checkpoint_Pack.thy ===== *)
theory Checkpoint_Pack
  imports Checkpoint_Files "HOL-Library.Char_ord" "HOL-Library.List_Lexorder"
begin

text \<open>
  The burnpack file format and its parts, the format half of \<open>parts.rs\<close>: a header of ten bytes, the
  metadata in CBOR, padding to a multiple of 256 bytes, and the tensors at the offsets the
  metadata names. A \<open>BTreeMap\<close> is the list of its entries in the order of the keys. CBOR, JSON
  and SHA-256 are libraries: the record \<open>pack_services\<close>. A \<open>u64\<close> is a natural number; the sums the
  code leaves unchecked wrap at 2^64.
\<close>

section \<open>Metadata\<close>

record 'v raw_descriptor =
  td_dtype :: 'v
  td_shape :: "nat list"
  td_offsets :: "nat \<times> nat"
  td_param_id :: "nat option"

record 'v raw_metadata =
  md_tensors :: "(string \<times> 'v raw_descriptor) list"
  md_metadata :: "(string \<times> string) list"

record 'v tensor_record =
  tr_name :: string
  tr_descriptor :: "'v raw_descriptor"

record part_entry =
  pe_path :: string
  pe_bytes :: nat
  pe_sha :: string
  pe_tensors :: nat

record parts_manifest =
  pm_version :: nat
  pm_source_file :: string
  pm_source_modified :: nat
  pm_total_bytes :: nat
  pm_max_part_bytes :: nat
  pm_parts :: "part_entry list"

record 'v pack_services =
  to_cbor :: "'v raw_metadata \<Rightarrow> string option"
  from_cbor :: "string \<Rightarrow> 'v raw_metadata option"
  to_json :: "parts_manifest \<Rightarrow> string option"
  from_json :: "string \<Rightarrow> parts_manifest option"
  sha256 :: "string \<Rightarrow> string"

datatype pack_error =
  HeaderUnreadable | BadMagic nat | MetadataUnreadable | MetadataUnparsable
| MetadataUnwritable | MetadataTooLarge nat
| TensorMissing string | OffsetOverflow string | TensorUnreadable string | BadOffsets string
| DescriptorMismatch nat nat | PayloadMismatch string nat nat
| DirectoryUncreatable fs_path | FileUncreatable fs_path | BadDtype string | BadShape string

text \<open>\<open>BTreeMap::insert\<close>.\<close>

definition btree_insert :: "string \<Rightarrow> 'a \<Rightarrow> (string \<times> 'a) list \<Rightarrow> (string \<times> 'a) list" where
  "btree_insert key entry m = insort_key fst (key, entry) (filter (\<lambda>e. fst e \<noteq> key) m)"

section \<open>Numbers and offsets\<close>

definition le_bytes :: "nat \<Rightarrow> nat \<Rightarrow> string" where
  "le_bytes n v = map (\<lambda>i. char_of (v div 256 ^ i)) [0..<n]"

definition le_value :: "string \<Rightarrow> nat" where
  "le_value s = foldr (\<lambda>c acc. of_char c + 256 * acc) s 0"

definition one_mib :: nat where
  "one_mib = 1024 * 1024"

definition burnpack_header_size :: nat where
  "burnpack_header_size = 10"

definition burnpack_magic_number :: nat where
  "burnpack_magic_number = 0x4255524E"

definition tensor_alignment :: nat where
  "tensor_alignment = 256"

definition align_offset :: "nat \<Rightarrow> nat \<Rightarrow> nat" where
  "align_offset offset alignment = ((offset + alignment - 1) div alignment * alignment) mod 2 ^ 64"

definition aligned_data_section_start :: "nat \<Rightarrow> nat" where
  "aligned_data_section_start metadata_size = align_offset (burnpack_header_size + metadata_size) tensor_alignment"

definition zeros :: "nat \<Rightarrow> string" where
  "zeros n = replicate n (char_of (0 :: nat))"

text \<open>Padding up to a position of the output, none when it is already reached.\<close>

definition pad_to :: "nat \<Rightarrow> string \<Rightarrow> string" where
  "pad_to target out = out @ zeros (target - length out)"

text \<open>\<open>seek(SeekFrom::Start(offset))\<close> and \<open>read_exact\<close>: a position is at most \<open>i64::MAX\<close>.\<close>

definition read_exact_at :: "string \<Rightarrow> nat \<Rightarrow> nat \<Rightarrow> string option" where
  "read_exact_at source offset len =
     (if 2 ^ 63 \<le> offset then None
      else if len = 0 then Some []
      else if offset + len \<le> length source then Some (take len (drop offset source))
      else None)"

section \<open>Reading the metadata\<close>

definition read_burnpack_metadata :: "'v pack_services \<Rightarrow> string \<Rightarrow> pack_error + nat \<times> nat \<times> 'v raw_metadata" where
  "read_burnpack_metadata svc source =
     (if length source < burnpack_header_size then Inl HeaderUnreadable
      else
        let magic = le_value (take 4 source);
            version = le_value (take 2 (drop 4 source));
            metadata_size = le_value (take 4 (drop 6 source))
        in if magic \<noteq> burnpack_magic_number then Inl (BadMagic magic)
           else if length source < burnpack_header_size + metadata_size then Inl MetadataUnreadable
           else case from_cbor svc (take metadata_size (drop burnpack_header_size source)) of
             None \<Rightarrow> Inl MetadataUnparsable
           | Some metadata \<Rightarrow> Inr (version, metadata_size, metadata))"

section \<open>Splitting the tensors into groups\<close>

definition tensor_len :: "'v raw_descriptor \<Rightarrow> nat" where
  "tensor_len d = snd (td_offsets d) - fst (td_offsets d)"

text \<open>The tensors of a part one after the other, each at the next multiple of the alignment: the
  table of their new descriptors and the end of the last one.\<close>

fun place_tensors ::
    "'v tensor_record list \<Rightarrow> nat \<Rightarrow> (string \<times> 'v raw_descriptor) list \<Rightarrow> (string \<times> 'v raw_descriptor) list \<times> nat" where
  "place_tensors [] next_offset tensors = (tensors, next_offset)"
| "place_tensors (r # rs) next_offset tensors =
     (let tensor_bytes = tensor_len (tr_descriptor r);
          aligned_start = align_offset next_offset tensor_alignment;
          stop = sat_add aligned_start tensor_bytes
      in place_tensors rs stop
           (btree_insert (tr_name r) ((tr_descriptor r)\<lparr> td_offsets := (aligned_start, stop) \<rparr>) tensors))"

definition estimate_part_total_bytes ::
    "'v pack_services \<Rightarrow> 'v tensor_record list \<Rightarrow> (string \<times> string) list \<Rightarrow> nat option" where
  "estimate_part_total_bytes svc records source_metadata =
     (case place_tensors records 0 [] of
        (tensors, payload_bytes) \<Rightarrow>
          map_option
            (\<lambda>metadata_bytes. (aligned_data_section_start (length metadata_bytes) + payload_bytes) mod 2 ^ 64)
            (to_cbor svc \<lparr> md_tensors = tensors, md_metadata = source_metadata \<rparr>))"

fun split_loop ::
    "'v pack_services \<Rightarrow> nat \<Rightarrow> (string \<times> string) list \<Rightarrow> 'v tensor_record list \<Rightarrow> 'v tensor_record list
      \<Rightarrow> 'v tensor_record list list \<Rightarrow> 'v tensor_record list list" where
  "split_loop svc max_part_bytes source_metadata [] current_group groups =
     (if current_group = [] then groups else groups @ [current_group])"
| "split_loop svc max_part_bytes source_metadata (r # rs) current_group groups =
     (let candidate_group = current_group @ [r];
          candidate_bytes =
            (case estimate_part_total_bytes svc candidate_group source_metadata of None \<Rightarrow> usize_max | Some n \<Rightarrow> n);
          would_exceed = (current_group \<noteq> [] \<and> max_part_bytes < candidate_bytes)
      in if would_exceed then split_loop svc max_part_bytes source_metadata rs [r] (groups @ [current_group])
         else split_loop svc max_part_bytes source_metadata rs candidate_group groups)"

definition split_tensor_records ::
    "'v pack_services \<Rightarrow> 'v tensor_record list \<Rightarrow> nat \<Rightarrow> (string \<times> string) list \<Rightarrow> 'v tensor_record list list" where
  "split_tensor_records svc records max_part_bytes source_metadata =
     split_loop svc max_part_bytes source_metadata records [] []"

section \<open>Writing\<close>

definition pack_header :: "nat \<Rightarrow> nat \<Rightarrow> string" where
  "pack_header version metadata_size =
     le_bytes 4 burnpack_magic_number @ le_bytes 2 version @ le_bytes 4 metadata_size"

text \<open>Header, metadata and the padding before the data section.\<close>

definition pack_front :: "nat \<Rightarrow> string \<Rightarrow> string" where
  "pack_front version metadata_bytes =
     pad_to (aligned_data_section_start (length metadata_bytes))
       (pack_header version (length metadata_bytes) @ metadata_bytes)"

text \<open>A writer gives the bytes it has written and, when it stops early, the error.\<close>

fun write_tensors ::
    "string \<Rightarrow> nat \<Rightarrow> (string \<times> 'v raw_descriptor) list \<Rightarrow> nat \<Rightarrow> 'v tensor_record list \<Rightarrow> string
      \<Rightarrow> pack_error option \<times> string" where
  "write_tensors source data_start tensors section_start [] out = (None, out)"
| "write_tensors source data_start tensors section_start (r # rs) out =
     (case map_of tensors (tr_name r) of
        None \<Rightarrow> (Some (TensorMissing (tr_name r)), out)
      | Some descriptor \<Rightarrow>
          let target_offset = section_start + fst (td_offsets descriptor) in
          if usize_max < target_offset then (Some (OffsetOverflow (tr_name r)), out)
          else
            let out' = pad_to target_offset out;
                seek_offset = data_start + fst (td_offsets (tr_descriptor r))
            in if usize_max < seek_offset then (Some (OffsetOverflow (tr_name r)), out')
               else case read_exact_at source seek_offset (tensor_len (tr_descriptor r)) of
                 None \<Rightarrow> (Some (TensorUnreadable (tr_name r)), out')
               | Some buffer \<Rightarrow> write_tensors source data_start tensors section_start rs (out' @ buffer))"

text \<open>\<open>write_burnpack_part\<close>: the error, if any, and the file system after it.\<close>

definition write_burnpack_part ::
    "'v pack_services \<Rightarrow> file_system \<Rightarrow> string \<Rightarrow> fs_path \<Rightarrow> nat \<Rightarrow> nat \<Rightarrow> (string \<times> string) list
      \<Rightarrow> 'v tensor_record list \<Rightarrow> pack_error option \<times> file_system" where
  "write_burnpack_part svc fs source destination version data_start source_metadata records =
     (let tensors = fst (place_tensors records 0 []) in
      case to_cbor svc \<lparr> md_tensors = tensors, md_metadata = source_metadata \<rparr> of
        None \<Rightarrow> (Some MetadataUnwritable, fs)
      | Some metadata_bytes \<Rightarrow>
          if 2 ^ 32 \<le> length metadata_bytes then (Some (MetadataTooLarge (length metadata_bytes)), fs)
          else case ensure_parent_dir fs destination of
            None \<Rightarrow> (Some (DirectoryUncreatable destination), fs)
          | Some fs1 \<Rightarrow>
              (case write_tensors source data_start tensors (aligned_data_section_start (length metadata_bytes))
                      records (pack_front version metadata_bytes) of
                 (failure, out) \<Rightarrow>
                   (case write_file fs1 destination out of
                      None \<Rightarrow> (Some (FileUncreatable destination), fs1)
                    | Some fs2 \<Rightarrow> (failure, fs2))))"

fun emit_payloads ::
    "nat \<Rightarrow> ((string \<times> 'v raw_descriptor) \<times> string) list \<Rightarrow> string \<Rightarrow> pack_error option \<times> string" where
  "emit_payloads section_start [] out = (None, out)"
| "emit_payloads section_start (((name, descriptor), bytes) # rest) out =
     (if tensor_len descriptor \<noteq> length bytes
      then (Some (PayloadMismatch name (tensor_len descriptor) (length bytes)), out)
      else
        let target_offset = section_start + fst (td_offsets descriptor) in
        if usize_max < target_offset then (Some (OffsetOverflow name), out)
        else emit_payloads section_start rest (pad_to target_offset out @ bytes))"

definition by_offset :: "(string \<times> 'v raw_descriptor) list \<Rightarrow> (string \<times> 'v raw_descriptor) list" where
  "by_offset tensors = sort_key (\<lambda>(name, d). fst (td_offsets d)) tensors"

definition write_burnpack_file ::
    "'v pack_services \<Rightarrow> file_system \<Rightarrow> fs_path \<Rightarrow> nat \<Rightarrow> 'v raw_metadata \<Rightarrow> string list \<Rightarrow> pack_error option \<times> file_system" where
  "write_burnpack_file svc fs output_path version metadata payloads =
     (case ensure_parent_dir fs output_path of
        None \<Rightarrow> (Some (DirectoryUncreatable output_path), fs)
      | Some fs1 \<Rightarrow>
          (case to_cbor svc metadata of
             None \<Rightarrow> (Some MetadataUnwritable, fs1)
           | Some metadata_bytes \<Rightarrow>
               if 2 ^ 32 \<le> length metadata_bytes then (Some (MetadataTooLarge (length metadata_bytes)), fs1)
               else
                 let front = pack_front version metadata_bytes;
                     descriptors = by_offset (md_tensors metadata);
                     (failure, out) =
                       (if length descriptors \<noteq> length payloads
                        then (Some (DescriptorMismatch (length descriptors) (length payloads)), front)
                        else emit_payloads (aligned_data_section_start (length metadata_bytes))
                               (zip descriptors payloads) front)
                 in case write_file fs1 output_path out of
                      None \<Rightarrow> (Some (FileUncreatable output_path), fs1)
                    | Some fs2 \<Rightarrow> (failure, fs2)))"

end
