(* ===== verification/Checkpoint_Parts.thy ===== *)
theory Checkpoint_Parts
  imports Checkpoint_Pack
begin

text \<open>
  The parts of a burnpack on disk, the file half of \<open>parts.rs\<close>: the manifest beside the burnpack,
  writing the parts and keeping or replacing them, checking them against the manifest, and
  loading a model from the first usable candidate. Functions that change files return the file
  system after them, on errors too. Errors are constructors instead of messages; the progress
  callbacks, which only print, are left out. Applying the tensors of a burnpack to a model is the
  store library's: the argument \<open>apply_pack\<close>, which gives the model and the keys it applied.
\<close>

datatype parts_error =
  BurnpackMissing fs_path | PartSizeOverflow | Unstatable fs_path | Unreadable fs_path
| Unparsable fs_path | InvalidManifestPath fs_path | ParentUncreatable fs_path | NoTensors fs_path
| InvalidName fs_path | Unremovable fs_path | ManifestUnserializable | ManifestUnwritable fs_path
| PackFailed pack_error | NoParts fs_path | WrongLength fs_path nat nat | WrongChecksum fs_path
| ApplyFailed fs_path string | NoCandidates | NoWeights

record parts_report =
  pr_manifest_path :: fs_path
  pr_part_paths :: "fs_path list"
  pr_total_bytes :: nat

section \<open>Reading manifests\<close>

definition read_parts_manifest :: "'v pack_services \<Rightarrow> file_system \<Rightarrow> fs_path \<Rightarrow> parts_error + parts_manifest" where
  "read_parts_manifest svc fs p =
     (case read_file fs p of
        None \<Rightarrow> Inl (Unreadable p)
      | Some bytes \<Rightarrow> (case from_json svc bytes of None \<Rightarrow> Inl (Unparsable p) | Some m \<Rightarrow> Inr m))"

definition resolve_part_entry_path :: "fs_path \<Rightarrow> string \<Rightarrow> parts_error + fs_path" where
  "resolve_part_entry_path manifest_path entry_path =
     (let entry = parse_path entry_path in
      if is_absolute entry then Inr entry
      else case parent_of manifest_path of
        None \<Rightarrow> Inl (InvalidManifestPath manifest_path)
      | Some d \<Rightarrow> Inr (path_join d entry))"

definition sha256_file :: "'v pack_services \<Rightarrow> file_system \<Rightarrow> fs_path \<Rightarrow> parts_error + string" where
  "sha256_file svc fs p =
     (case read_file fs p of None \<Rightarrow> Inl (Unreadable p) | Some bytes \<Rightarrow> Inr (sha256 svc bytes))"

definition part_matches_cache :: "'v pack_services \<Rightarrow> file_system \<Rightarrow> fs_path \<Rightarrow> part_entry \<Rightarrow> parts_error + bool" where
  "part_matches_cache svc fs p part =
     (if \<not> path_exists fs p then Inr False
      else case metadata_of fs p of
        None \<Rightarrow> Inl (Unstatable p)
      | Some (bytes, _) \<Rightarrow>
          if 0 < pe_bytes part \<and> bytes \<noteq> pe_bytes part then Inr False
          else if str_trim (pe_sha part) \<noteq> [] then
            result_bind (sha256_file svc fs p)
              (\<lambda>actual. Inr (eq_ignore_ascii_case actual (str_trim (pe_sha part))))
          else Inr True)"

fun all_parts_match :: "'v pack_services \<Rightarrow> file_system \<Rightarrow> fs_path \<Rightarrow> part_entry list \<Rightarrow> parts_error + bool" where
  "all_parts_match svc fs manifest_path [] = Inr True"
| "all_parts_match svc fs manifest_path (part # parts) =
     result_bind (resolve_part_entry_path manifest_path (pe_path part)) (\<lambda>p.
       result_bind (part_matches_cache svc fs p part) (\<lambda>matches.
         if matches then all_parts_match svc fs manifest_path parts else Inr False))"

definition manifest_is_complete :: "'v pack_services \<Rightarrow> file_system \<Rightarrow> fs_path \<Rightarrow> parts_error + bool" where
  "manifest_is_complete svc fs manifest_path =
     (if \<not> path_exists fs manifest_path then Inr False
      else case read_parts_manifest svc fs manifest_path of
        Inl _ \<Rightarrow> Inr False
      | Inr manifest \<Rightarrow>
          if pm_parts manifest = [] then Inr False else all_parts_match svc fs manifest_path (pm_parts manifest))"

definition manifest_matches_source_file :: "file_system \<Rightarrow> parts_manifest \<Rightarrow> fs_path \<Rightarrow> bool" where
  "manifest_matches_source_file fs manifest source_path =
     (let source_file_name = (case file_name source_path of None \<Rightarrow> [] | Some name \<Rightarrow> name) in
      if pm_source_file manifest \<noteq> [] \<and> pm_source_file manifest \<noteq> source_file_name then False
      else case metadata_of fs source_path of
        None \<Rightarrow> False
      | Some (actual_bytes, _) \<Rightarrow>
          if 0 < pm_total_bytes manifest \<and> pm_total_bytes manifest \<noteq> actual_bytes then False
          else if pm_source_modified manifest = 0 then True
          else file_modified_unix_ms fs source_path = Some (pm_source_modified manifest))"

definition manifest_has_all_parts :: "'v pack_services \<Rightarrow> file_system \<Rightarrow> fs_path \<Rightarrow> fs_path option \<Rightarrow> bool" where
  "manifest_has_all_parts svc fs p source_burnpack_path =
     (case read_parts_manifest svc fs p of
        Inl _ \<Rightarrow> False
      | Inr manifest \<Rightarrow>
          if pm_parts manifest = [] then False
          else if (case source_burnpack_path of
                     None \<Rightarrow> False
                   | Some source \<Rightarrow> path_exists fs source \<and> \<not> manifest_matches_source_file fs manifest source)
          then False
          else list_all
            (\<lambda>entry. case resolve_part_entry_path p (pe_path entry) of
               Inl _ \<Rightarrow> False
             | Inr part_path \<Rightarrow>
                 (case part_matches_cache svc fs part_path entry of Inl _ \<Rightarrow> False | Inr matches \<Rightarrow> matches))
            (pm_parts manifest))"

definition first_existing_candidate :: "file_system \<Rightarrow> fs_path list \<Rightarrow> parts_error + fs_path" where
  "first_existing_candidate fs candidates =
     (case find (path_exists fs) candidates of
        Some p \<Rightarrow> Inr p
      | None \<Rightarrow> (case candidates of [] \<Rightarrow> Inl NoCandidates | p # _ \<Rightarrow> Inr p))"

section \<open>Writing the parts\<close>

fun remove_parts :: "fs_path \<Rightarrow> part_entry list \<Rightarrow> file_system \<Rightarrow> parts_error option \<times> file_system" where
  "remove_parts manifest_path [] fs = (None, fs)"
| "remove_parts manifest_path (entry # entries) fs =
     (case resolve_part_entry_path manifest_path (pe_path entry) of
        Inl e \<Rightarrow> (Some e, fs)
      | Inr p \<Rightarrow>
          if path_exists fs p then
            (case remove_file fs p of
               None \<Rightarrow> (Some (Unremovable p), fs)
             | Some fs' \<Rightarrow> remove_parts manifest_path entries fs')
          else remove_parts manifest_path entries fs)"

definition cleanup_existing_parts :: "'v pack_services \<Rightarrow> file_system \<Rightarrow> fs_path \<Rightarrow> parts_error option \<times> file_system" where
  "cleanup_existing_parts svc fs manifest_path =
     (case read_parts_manifest svc fs manifest_path of
        Inl _ \<Rightarrow> (None, fs)
      | Inr manifest \<Rightarrow>
          (case remove_parts manifest_path (pm_parts manifest) fs of
             (Some e, fs1) \<Rightarrow> (Some e, fs1)
           | (None, fs1) \<Rightarrow>
               if path_exists fs1 manifest_path then
                 (case remove_file fs1 manifest_path of
                    None \<Rightarrow> (Some (Unremovable manifest_path), fs1)
                  | Some fs2 \<Rightarrow> (None, fs2))
               else (None, fs1)))"

definition part_name :: "string \<Rightarrow> nat \<Rightarrow> string" where
  "part_name source_file_name index = source_file_name @ ''.part-'' @ pad_five index @ ''.bpk''"

fun write_groups ::
    "'v pack_services \<Rightarrow> fs_path \<Rightarrow> string \<Rightarrow> bool \<Rightarrow> string \<Rightarrow> nat \<Rightarrow> nat \<Rightarrow> (string \<times> string) list
      \<Rightarrow> nat \<Rightarrow> 'v tensor_record list list \<Rightarrow> file_system \<Rightarrow> (parts_error + (part_entry \<times> fs_path) list) \<times> file_system" where
  "write_groups svc pack_path name overwrite source version data_start md index [] fs = (Inr [], fs)"
| "write_groups svc pack_path name overwrite source version data_start md index (records # groups) fs =
     (let part_path = with_file_name pack_path (part_name name index) in
      case (if path_exists fs part_path \<and> overwrite then remove_file fs part_path else Some fs) of
        None \<Rightarrow> (Inl (Unremovable part_path), fs)
      | Some fs1 \<Rightarrow>
          (case write_burnpack_part svc fs1 source part_path version data_start md records of
             (Some e, fs2) \<Rightarrow> (Inl (PackFailed e), fs2)
           | (None, fs2) \<Rightarrow>
               (case metadata_of fs2 part_path of
                  None \<Rightarrow> (Inl (Unstatable part_path), fs2)
                | Some (bytes, _) \<Rightarrow>
                    (case sha256_file svc fs2 part_path of
                       Inl e \<Rightarrow> (Inl e, fs2)
                     | Inr sha \<Rightarrow>
                         (case write_groups svc pack_path name overwrite source version data_start md
                                 (index + 1) groups fs2 of
                            (Inl e, fs3) \<Rightarrow> (Inl e, fs3)
                          | (Inr rest, fs3) \<Rightarrow>
                              (Inr ((\<lparr> pe_path = part_name name index, pe_bytes = bytes, pe_sha = sha,
                                       pe_tensors = length records \<rparr>, part_path) # rest), fs3))))))"

definition tensor_records :: "'v raw_metadata \<Rightarrow> 'v tensor_record list" where
  "tensor_records metadata =
     sort_key (\<lambda>r. fst (td_offsets (tr_descriptor r)))
       (map (\<lambda>(name, d). \<lparr> tr_name = name, tr_descriptor = d \<rparr>) (md_tensors metadata))"

text \<open>The parts of a burnpack that has been opened, and their manifest.\<close>

definition write_new_parts ::
    "'v pack_services \<Rightarrow> fs_path \<Rightarrow> nat \<Rightarrow> bool \<Rightarrow> nat \<Rightarrow> nat \<Rightarrow> file_system \<Rightarrow> (parts_error + parts_report) \<times> file_system" where
  "write_new_parts svc pack_path max_part_bytes overwrite total_bytes modified fs =
     (let manifest_path = burnpack_parts_manifest_path pack_path in
      case read_file fs pack_path of
        None \<Rightarrow> (Inl (Unreadable pack_path), fs)
      | Some source \<Rightarrow>
          (case read_burnpack_metadata svc source of
             Inl e \<Rightarrow> (Inl (PackFailed e), fs)
           | Inr (version, metadata_size, metadata) \<Rightarrow>
               if md_tensors metadata = [] then (Inl (NoTensors pack_path), fs)
               else
                 let groups = split_tensor_records svc (tensor_records metadata) max_part_bytes (md_metadata metadata) in
                 case file_name pack_path of
                   None \<Rightarrow> (Inl (InvalidName pack_path), fs)
                 | Some source_file_name \<Rightarrow>
                     (case write_groups svc pack_path source_file_name overwrite source version
                             (aligned_data_section_start metadata_size) (md_metadata metadata) 0 groups fs of
                        (Inl e, fs1) \<Rightarrow> (Inl e, fs1)
                      | (Inr parts, fs1) \<Rightarrow>
                          (case to_json svc
                                  \<lparr> pm_version = 1, pm_source_file = source_file_name,
                                    pm_source_modified = modified, pm_total_bytes = total_bytes,
                                    pm_max_part_bytes = max_part_bytes, pm_parts = map fst parts \<rparr> of
                             None \<Rightarrow> (Inl ManifestUnserializable, fs1)
                           | Some json \<Rightarrow>
                               (case write_file fs1 manifest_path json of
                                  None \<Rightarrow> (Inl (ManifestUnwritable manifest_path), fs1)
                                | Some fs2 \<Rightarrow>
                                    (Inr \<lparr> pr_manifest_path = manifest_path, pr_part_paths = map snd parts,
                                           pr_total_bytes = total_bytes \<rparr>, fs2))))))"

definition write_burnpack_parts ::
    "'v pack_services \<Rightarrow> file_system \<Rightarrow> fs_path \<Rightarrow> nat \<Rightarrow> bool \<Rightarrow> (parts_error + parts_report) \<times> file_system" where
  "write_burnpack_parts svc fs pack_path max_part_size_mib overwrite =
     (if \<not> path_exists fs pack_path then (Inl (BurnpackMissing pack_path), fs)
      else
        let max_part_bytes = max 1 max_part_size_mib * one_mib in
        if usize_max < max_part_bytes then (Inl PartSizeOverflow, fs)
        else case metadata_of fs pack_path of
          None \<Rightarrow> (Inl (Unstatable pack_path), fs)
        | Some (total_bytes, _) \<Rightarrow>
            let modified = (case file_modified_unix_ms fs pack_path of None \<Rightarrow> 0 | Some t \<Rightarrow> t);
                manifest_path = burnpack_parts_manifest_path pack_path
            in if path_exists fs manifest_path \<and> \<not> overwrite
                  \<and> manifest_has_all_parts svc fs manifest_path (Some pack_path)
               then
                 (result_bind (read_parts_manifest svc fs manifest_path) (\<lambda>manifest.
                    result_bind (try_map (\<lambda>entry. resolve_part_entry_path manifest_path (pe_path entry)) (pm_parts manifest))
                      (\<lambda>part_paths. Inr \<lparr> pr_manifest_path = manifest_path, pr_part_paths = part_paths,
                                           pr_total_bytes = pm_total_bytes manifest \<rparr>)), fs)
               else
                 case (if overwrite then cleanup_existing_parts svc fs manifest_path else (None, fs)) of
                   (Some e, fs1) \<Rightarrow> (Inl e, fs1)
                 | (None, fs1) \<Rightarrow>
                     (case ensure_parent_dir fs1 manifest_path of
                        None \<Rightarrow> (Inl (ParentUncreatable manifest_path), fs1)
                      | Some fs2 \<Rightarrow>
                          write_new_parts svc pack_path max_part_bytes overwrite total_bytes modified fs2))"

section \<open>Loading\<close>

fun load_parts ::
    "'v pack_services \<Rightarrow> ('m \<Rightarrow> string \<Rightarrow> string + 'm \<times> string set) \<Rightarrow> file_system \<Rightarrow> fs_path \<Rightarrow> bool
      \<Rightarrow> part_entry list \<Rightarrow> 'm \<Rightarrow> string set \<Rightarrow> parts_error + 'm \<times> string set" where
  "load_parts svc apply_pack fs manifest_path verify_checksums [] model applied = Inr (model, applied)"
| "load_parts svc apply_pack fs manifest_path verify_checksums (part # parts) model applied =
     result_bind (resolve_part_entry_path manifest_path (pe_path part)) (\<lambda>part_path.
       case read_file fs part_path of
         None \<Rightarrow> Inl (Unreadable part_path)
       | Some bytes \<Rightarrow>
           if 0 < pe_bytes part \<and> length bytes \<noteq> pe_bytes part
           then Inl (WrongLength part_path (pe_bytes part) (length bytes))
           else if verify_checksums \<and> str_trim (pe_sha part) \<noteq> []
              \<and> \<not> eq_ignore_ascii_case (sha256 svc bytes) (str_trim (pe_sha part))
           then Inl (WrongChecksum part_path)
           else case apply_pack model bytes of
             Inl e \<Rightarrow> Inl (ApplyFailed part_path e)
           | Inr (model', keys) \<Rightarrow>
               load_parts svc apply_pack fs manifest_path verify_checksums parts model' (applied \<union> keys))"

fun try_load_parts ::
    "'v pack_services \<Rightarrow> ('m \<Rightarrow> string \<Rightarrow> string + 'm \<times> string set) \<Rightarrow> file_system \<Rightarrow> bool \<Rightarrow> bool
      \<Rightarrow> 'm \<Rightarrow> fs_path list \<Rightarrow> parts_error + ('m \<times> string set) option" where
  "try_load_parts svc apply_pack fs any_candidate_exists verify_checksums init [] = Inr None"
| "try_load_parts svc apply_pack fs any_candidate_exists verify_checksums init (candidate # rest) =
     (let manifest_path = burnpack_parts_manifest_path candidate in
      if any_candidate_exists \<and> \<not> path_exists fs candidate
      then try_load_parts svc apply_pack fs any_candidate_exists verify_checksums init rest
      else if \<not> path_exists fs manifest_path
      then try_load_parts svc apply_pack fs any_candidate_exists verify_checksums init rest
      else result_bind (read_parts_manifest svc fs manifest_path) (\<lambda>manifest.
        if path_exists fs candidate \<and> \<not> manifest_matches_source_file fs manifest candidate
        then try_load_parts svc apply_pack fs any_candidate_exists verify_checksums init rest
        else if pm_parts manifest = [] then Inl (NoParts manifest_path)
        else result_bind
               (load_parts svc apply_pack fs manifest_path verify_checksums (pm_parts manifest) init {})
               (\<lambda>loaded. Inr (Some loaded))))"

definition try_load_model_from_burnpack_parts ::
    "'v pack_services \<Rightarrow> ('m \<Rightarrow> string \<Rightarrow> string + 'm \<times> string set) \<Rightarrow> file_system \<Rightarrow> fs_path list \<Rightarrow> bool
      \<Rightarrow> 'm \<Rightarrow> parts_error + ('m \<times> string set) option" where
  "try_load_model_from_burnpack_parts svc apply_pack fs candidates verify_checksums init =
     try_load_parts svc apply_pack fs (list_ex (path_exists fs) candidates) verify_checksums init candidates"

definition load_model_from_burnpack_parts ::
    "'v pack_services \<Rightarrow> ('m \<Rightarrow> string \<Rightarrow> string + 'm \<times> string set) \<Rightarrow> file_system \<Rightarrow> fs_path list \<Rightarrow> bool
      \<Rightarrow> 'm \<Rightarrow> parts_error + 'm \<times> string set" where
  "load_model_from_burnpack_parts svc apply_pack fs candidates verify_checksums init =
     result_bind (try_load_model_from_burnpack_parts svc apply_pack fs candidates verify_checksums init)
       (\<lambda>loaded. case loaded of None \<Rightarrow> Inl NoWeights | Some result \<Rightarrow> Inr result)"

text \<open>The monolithic file is read by the store: the argument \<open>load_pack\<close>.\<close>

definition load_model_from_burnpack_file ::
    "('m \<Rightarrow> string \<Rightarrow> string + 'm \<times> string set) \<Rightarrow> file_system \<Rightarrow> fs_path \<Rightarrow> 'm \<Rightarrow> parts_error + 'm \<times> string set" where
  "load_model_from_burnpack_file load_pack fs p init =
     (case read_file fs p of
        None \<Rightarrow> Inl (Unreadable p)
      | Some bytes \<Rightarrow> map_err (ApplyFailed p) (load_pack init bytes))"

definition try_load_model_from_burnpack_candidates ::
    "'v pack_services \<Rightarrow> ('m \<Rightarrow> string \<Rightarrow> string + 'm \<times> string set) \<Rightarrow> ('m \<Rightarrow> string \<Rightarrow> string + 'm \<times> string set)
      \<Rightarrow> file_system \<Rightarrow> fs_path list \<Rightarrow> bool \<Rightarrow> 'm \<Rightarrow> parts_error + ('m \<times> string set) option" where
  "try_load_model_from_burnpack_candidates svc apply_pack load_pack fs candidates verify_checksums init =
     result_bind (try_load_model_from_burnpack_parts svc apply_pack fs candidates verify_checksums init)
       (\<lambda>loaded. case loaded of
          Some result \<Rightarrow> Inr (Some result)
        | None \<Rightarrow>
            result_bind (first_existing_candidate fs candidates) (\<lambda>fallback.
              if \<not> path_exists fs fallback then Inr None
              else result_bind (load_model_from_burnpack_file load_pack fs fallback init) (\<lambda>r. Inr (Some r))))"

definition load_model_from_burnpack_candidates ::
    "'v pack_services \<Rightarrow> ('m \<Rightarrow> string \<Rightarrow> string + 'm \<times> string set) \<Rightarrow> ('m \<Rightarrow> string \<Rightarrow> string + 'm \<times> string set)
      \<Rightarrow> file_system \<Rightarrow> fs_path list \<Rightarrow> bool \<Rightarrow> 'm \<Rightarrow> parts_error + 'm \<times> string set" where
  "load_model_from_burnpack_candidates svc apply_pack load_pack fs candidates verify_checksums init =
     result_bind (try_load_model_from_burnpack_candidates svc apply_pack load_pack fs candidates verify_checksums init)
       (\<lambda>loaded. case loaded of None \<Rightarrow> Inl NoWeights | Some result \<Rightarrow> Inr result)"

text \<open>Applying parts that are held in memory.\<close>

fun apply_burnpack_parts_bytes ::
    "('m \<Rightarrow> string \<Rightarrow> string + 'm \<times> string set) \<Rightarrow> string list \<Rightarrow> 'm \<Rightarrow> string set \<Rightarrow> string + 'm \<times> string set" where
  "apply_burnpack_parts_bytes apply_pack [] model applied = Inr (model, applied)"
| "apply_burnpack_parts_bytes apply_pack (part # parts) model applied =
     (case apply_pack model part of
        Inl e \<Rightarrow> Inl e
      | Inr (model', keys) \<Rightarrow> apply_burnpack_parts_bytes apply_pack parts model' (applied \<union> keys))"

definition load_model_from_burnpack_part_bytes ::
    "('m \<Rightarrow> string \<Rightarrow> string + 'm \<times> string set) \<Rightarrow> string list \<Rightarrow> 'm \<Rightarrow> string + 'm \<times> string set" where
  "load_model_from_burnpack_part_bytes apply_pack parts init = apply_burnpack_parts_bytes apply_pack parts init {}"

end
