(* ===== verification/Checkpoint_Pack_Proofs.thy ===== *)
theory Checkpoint_Pack_Proofs
  imports Checkpoint_Pack
begin

text \<open>
  What a burnpack holds: the map from tensor names to their type, shape and bytes that reading the
  file gives (\<open>pack_view\<close>), and the maps the writers produce. The layout of the data section is
  stated once, for both writers, as \<open>lay_out\<close>.
\<close>

section \<open>Numbers\<close>

lemma length_le_bytes [simp]: "length (le_bytes n v) = n"
  by (simp add: le_bytes_def)

lemma le_bytes_Suc: "le_bytes (Suc n) v = char_of v # le_bytes n (v div 256)"
proof -
  have "[0..<Suc n] = 0 # map Suc [0..<n]" by (simp add: map_Suc_upt upt_conv_Cons)
  then show ?thesis by (simp add: le_bytes_def div_mult2_eq)
qed

lemma le_value_bytes: "v < 256 ^ n \<Longrightarrow> le_value (le_bytes n v) = v"
proof (induction n arbitrary: v)
  case 0
  then show ?case by (simp add: le_bytes_def le_value_def)
next
  case (Suc n)
  then have "le_value (le_bytes n (v div 256)) = v div 256" by (simp add: less_mult_imp_div_less mult.commute)
  then show ?case by (simp add: le_bytes_Suc le_value_def of_char_of)
qed

definition round_up :: "nat \<Rightarrow> nat" where
  "round_up n = (n + 255) div 256 * 256"

lemma round_up_bounds: "n \<le> round_up n \<and> round_up n < n + 256"
  unfolding round_up_def using div_mult_mod_eq [of "n + 255" 256] by linarith

lemma round_up_dvd: "256 dvd round_up n"
  by (simp add: round_up_def)

lemma align_offset_exact: "n + 256 < 2 ^ 64 \<Longrightarrow> align_offset n tensor_alignment = round_up n"
  using round_up_bounds [of n] by (simp add: align_offset_def tensor_alignment_def round_up_def)

lemma data_section_start:
  assumes "k < 2 ^ 32"
  shows "aligned_data_section_start k = round_up (10 + k)"
    and "10 + k \<le> aligned_data_section_start k" and "aligned_data_section_start k < 2 ^ 33"
proof -
  show eq: "aligned_data_section_start k = round_up (10 + k)"
    unfolding aligned_data_section_start_def burnpack_header_size_def using assms by (intro align_offset_exact) simp
  show "10 + k \<le> aligned_data_section_start k" "aligned_data_section_start k < 2 ^ 33"
    unfolding eq using round_up_bounds [of "10 + k"] assms by simp_all
qed

section \<open>The front of a file\<close>

lemma length_pack_header [simp]: "length (pack_header version k) = 10"
  by (simp add: pack_header_def)

lemma length_pad_to: "length (pad_to target out) = max target (length out)"
  by (simp add: pad_to_def zeros_def max_def)

lemma length_pack_front: "length cbor < 2 ^ 32 \<Longrightarrow> length (pack_front version cbor) = aligned_data_section_start (length cbor)"
  using data_section_start(2) [of "length cbor"] by (simp add: pack_front_def length_pad_to)

lemma read_metadata_front:
  assumes "length cbor < 2 ^ 32" "version < 2 ^ 16" "from_cbor svc cbor = Some metadata"
  shows "read_burnpack_metadata svc (pack_front version cbor @ rest) = Inr (version, length cbor, metadata)"
proof -
  let ?h = "pack_header version (length cbor)"
  let ?z = "zeros (aligned_data_section_start (length cbor) - length (?h @ cbor)) @ rest"
  have front: "pack_front version cbor @ rest = ?h @ cbor @ ?z" by (simp add: pack_front_def pad_to_def)
  have magic: "le_value (take 4 (?h @ cbor @ ?z)) = burnpack_magic_number"
    by (simp add: pack_header_def le_value_bytes burnpack_magic_number_def)
  have v: "le_value (take 2 (drop 4 (?h @ cbor @ ?z))) = version"
    using assms(2) by (simp add: pack_header_def le_value_bytes)
  have "drop 6 (?h @ cbor @ ?z) = le_bytes 4 (length cbor) @ cbor @ ?z" by (simp add: pack_header_def)
  then have n: "le_value (take 4 (drop 6 (?h @ cbor @ ?z))) = length cbor"
    using assms(1) by (simp add: le_value_bytes)
  show ?thesis
    unfolding front read_burnpack_metadata_def Let_def magic v n using assms(3)
    by (simp add: burnpack_header_size_def)
qed

section \<open>Tables in key order\<close>

lemma map_of_insort_key: "k \<notin> fst ` set m \<Longrightarrow> map_of (insort_key fst (k, x) m) = (map_of m)(k \<mapsto> x)"
  by (induction m) (auto simp: fun_eq_iff)

lemma map_of_filter_other: "map_of (filter (\<lambda>e. fst e \<noteq> k) m) = (map_of m)(k := None)"
  by (induction m) (auto simp: fun_eq_iff)

lemma map_of_btree_insert [simp]: "map_of (btree_insert k x m) = (map_of m)(k \<mapsto> x)"
  unfolding btree_insert_def by (subst map_of_insort_key) (auto simp: map_of_filter_other)

definition btree_ok :: "(string \<times> 'a) list \<Rightarrow> bool" where
  "btree_ok m \<longleftrightarrow> sorted (map fst m) \<and> distinct (map fst m)"

lemma map_fst_insort_key: "map fst (insort_key fst (k, x) m) = insort k (map fst m)"
  by (induction m) auto

lemma btree_ok_insert: "btree_ok m \<Longrightarrow> btree_ok (btree_insert k x m)"
  unfolding btree_ok_def btree_insert_def map_fst_insort_key
  by (auto simp: sorted_insort distinct_insort sorted_filter distinct_map_filter)

section \<open>The placement of the tensors of a part\<close>

definition record_len :: "'v tensor_record \<Rightarrow> nat" where
  "record_len r = tensor_len (tr_descriptor r)"

definition records_span :: "'v tensor_record list \<Rightarrow> nat" where
  "records_span rs = sum_list (map (\<lambda>r. record_len r + 256) rs)"

fun starts :: "'v tensor_record list \<Rightarrow> nat \<Rightarrow> nat list" where
  "starts [] n = []"
| "starts (r # rs) n = round_up n # starts rs (round_up n + record_len r)"

fun data_end :: "'v tensor_record list \<Rightarrow> nat \<Rightarrow> nat" where
  "data_end [] n = n"
| "data_end (r # rs) n = data_end rs (round_up n + record_len r)"

lemma length_starts [simp]: "length (starts rs n) = length rs"
  by (induction rs arbitrary: n) auto

lemma data_end_le: "data_end rs n \<le> n + records_span rs"
proof (induction rs arbitrary: n)
  case (Cons r rs)
  have "data_end rs (round_up n + record_len r) \<le> round_up n + record_len r + records_span rs" by (rule Cons.IH)
  then show ?case using round_up_bounds [of n] by (simp add: records_span_def)
qed (simp add: records_span_def)

definition relocated :: "'v tensor_record \<Rightarrow> nat \<Rightarrow> 'v raw_descriptor" where
  "relocated r start = (tr_descriptor r)\<lparr> td_offsets := (start, start + record_len r) \<rparr>"

lemma map_add_upd_fresh: "m k = None \<Longrightarrow> f(k \<mapsto> x) ++ m = f ++ m(k \<mapsto> x)"
  by (auto simp: map_add_def fun_eq_iff split: option.splits)

lemma place_tensors_spec:
  assumes "distinct (map tr_name rs)" "n + records_span rs < 2 ^ 63"
  shows "snd (place_tensors rs n ts) = data_end rs n
    \<and> (btree_ok ts \<longrightarrow> btree_ok (fst (place_tensors rs n ts)))
    \<and> map_of (fst (place_tensors rs n ts))
        = map_of ts ++ map_of (zip (map tr_name rs) (map2 relocated rs (starts rs n)))"
  using assms
proof (induction rs arbitrary: n ts)
  case (Cons r rs)
  let ?a = "round_up n"
  have a: "?a < n + 256" "n \<le> ?a" using round_up_bounds by auto
  have al: "align_offset n tensor_alignment = ?a" using Cons.prems(2) by (intro align_offset_exact) simp
  have bound: "?a + record_len r + records_span rs < 2 ^ 63" using Cons.prems(2) a by (simp add: records_span_def)
  then have st: "sat_add ?a (tensor_len (tr_descriptor r)) = ?a + record_len r"
    by (subst sat_add_exact) (simp_all add: usize_max_def record_len_def)
  let ?ts = "btree_insert (tr_name r) (relocated r ?a) ts"
  have step: "place_tensors (r # rs) n ts = place_tensors rs (?a + record_len r) ?ts"
    by (simp add: Let_def al st relocated_def)
  have IH: "snd (place_tensors rs (?a + record_len r) ?ts) = data_end rs (?a + record_len r)
    \<and> (btree_ok ?ts \<longrightarrow> btree_ok (fst (place_tensors rs (?a + record_len r) ?ts)))
    \<and> map_of (fst (place_tensors rs (?a + record_len r) ?ts))
        = map_of ?ts ++ map_of (zip (map tr_name rs) (map2 relocated rs (starts rs (?a + record_len r))))"
    using Cons.prems(1) bound by (intro Cons.IH) simp_all
  let ?M = "map_of (zip (map tr_name rs) (map2 relocated rs (starts rs (?a + record_len r))))"
  have "?M (tr_name r) = None" using Cons.prems(1) by (auto simp: map_of_eq_None_iff dest!: set_zip_leftD)
  then have "map_of ?ts ++ ?M = map_of ts ++ ?M(tr_name r \<mapsto> relocated r ?a)"
    unfolding map_of_btree_insert by (rule map_add_upd_fresh)
  moreover have "map_of (zip (map tr_name (r # rs)) (map2 relocated (r # rs) (starts (r # rs) n))) = ?M(tr_name r \<mapsto> relocated r ?a)"
    by simp
  ultimately have tables: "map_of (fst (place_tensors (r # rs) n ts))
      = map_of ts ++ map_of (zip (map tr_name (r # rs)) (map2 relocated (r # rs) (starts (r # rs) n)))"
    unfolding step using IH by metis
  have ends: "snd (place_tensors (r # rs) n ts) = data_end (r # rs) n" unfolding step using IH by simp
  have "btree_ok ts \<longrightarrow> btree_ok (fst (place_tensors (r # rs) n ts))" unfolding step using IH btree_ok_insert by metis
  then show ?case using tables ends by metis
qed (simp add: )

section \<open>The layout of a data section\<close>

text \<open>Blocks of bytes at their offsets from the start of the section, padded with zeros between them.\<close>

definition lay_out :: "nat \<Rightarrow> (nat \<times> string) list \<Rightarrow> string \<Rightarrow> string" where
  "lay_out section_start blocks out = foldl (\<lambda>out (start, bytes). pad_to (section_start + start) out @ bytes) out blocks"

fun ascending :: "nat \<Rightarrow> (nat \<times> string) list \<Rightarrow> bool" where
  "ascending n [] = True"
| "ascending n ((start, bytes) # blocks) = (n \<le> start \<and> ascending (start + length bytes) blocks)"

fun blocks_end :: "nat \<Rightarrow> (nat \<times> string) list \<Rightarrow> nat" where
  "blocks_end n [] = n"
| "blocks_end n ((start, bytes) # blocks) = blocks_end (start + length bytes) blocks"

lemma ascending_end: "ascending n blocks \<Longrightarrow> n \<le> blocks_end n blocks"
proof (induction n blocks rule: ascending.induct)
  case (2 n start bytes blocks)
  then show ?case using le_trans [of n "start + length bytes"] by simp
qed simp

lemma lay_out_spec:
  assumes "ascending n blocks" "length out = section_start + n"
  shows "length (lay_out section_start blocks out) = section_start + blocks_end n blocks
    \<and> take (length out) (lay_out section_start blocks out) = out
    \<and> (\<forall>(start, bytes)\<in>set blocks. n \<le> start \<and> start + length bytes \<le> blocks_end n blocks
        \<and> take (length bytes) (drop (section_start + start) (lay_out section_start blocks out)) = bytes)"
  using assms
proof (induction blocks arbitrary: n out)
  case (Cons block blocks)
  obtain start bytes where b: "block = (start, bytes)" by fastforce
  let ?out = "pad_to (section_start + start) out @ bytes"
  let ?final = "lay_out section_start blocks ?out"
  have asc: "n \<le> start" "ascending (start + length bytes) blocks" using Cons.prems b by simp_all
  have len: "length ?out = section_start + (start + length bytes)" using Cons.prems(2) asc(1) by (simp add: length_pad_to)
  have IH: "length ?final = section_start + blocks_end (start + length bytes) blocks
    \<and> take (length ?out) ?final = ?out
    \<and> (\<forall>(s, x)\<in>set blocks. start + length bytes \<le> s \<and> s + length x \<le> blocks_end (start + length bytes) blocks
        \<and> take (length x) (drop (section_start + s) ?final) = x)"
    by (rule Cons.IH [OF asc(2) len])
  have head: "take (length ?out) ?final = ?out" using IH by blast
  have split: "?final = ?out @ drop (length ?out) ?final" using head by (metis append_take_drop_id)
  have "take (length out) (take (length ?out) ?final) = take (length out) ?final" by (simp add: length_pad_to)
  then have "take (length out) ?final = take (length out) ?out" unfolding head by simp
  moreover have "take (length out) ?out = out" by (simp add: pad_to_def)
  moreover have "take (length bytes) (drop (section_start + start) ?final) = bytes"
  proof -
    have "length (pad_to (section_start + start) out) = section_start + start"
      using Cons.prems(2) asc(1) by (simp add: length_pad_to)
    then have here: "take (length bytes) (drop (section_start + start) (?out @ r)) = bytes" for r by simp
    show ?thesis by (subst split) (rule here)
  qed
  moreover have "start + length bytes \<le> blocks_end (start + length bytes) blocks"
    using ascending_end [OF asc(2)] .
  moreover have "lay_out section_start (block # blocks) out = ?final" by (simp add: lay_out_def b)
  ultimately show ?case using IH asc b by fastforce
qed (simp add: lay_out_def)

lemma read_exact_length: "read_exact_at source offset len = Some b \<Longrightarrow> length b = len"
  by (auto simp: read_exact_at_def split: if_splits)

lemma read_exact_block:
  assumes "take (length b) (drop offset s) = b" "offset + length b \<le> length s" "length s < 2 ^ 63"
  shows "read_exact_at s offset (length b) = Some b"
  using assms by (auto simp: read_exact_at_def)

lemma ascending_starts:
  "list_all2 (\<lambda>r b. length b = record_len r) rs bufs \<Longrightarrow>
     ascending n (zip (starts rs n) bufs) \<and> blocks_end n (zip (starts rs n) bufs) = data_end rs n"
proof (induction rs arbitrary: n bufs)
  case (Cons r rs)
  then show ?case using round_up_bounds [of n] by (auto simp: list_all2_Cons1)
qed simp

definition record_payload :: "string \<Rightarrow> nat \<Rightarrow> 'v tensor_record \<Rightarrow> string option" where
  "record_payload source data_start r =
     read_exact_at source (data_start + fst (td_offsets (tr_descriptor r))) (record_len r)"

lemma write_tensors_lay_out:
  assumes "write_tensors source data_start tensors section_start rs out = (None, out')"
    and "list_all2 (\<lambda>r a. map_of tensors (tr_name r) = Some (relocated r a)) rs as"
  shows "\<exists>bufs. list_all2 (\<lambda>r b. record_payload source data_start r = Some b) rs bufs
    \<and> out' = lay_out section_start (zip as bufs) out"
  using assms
proof (induction rs arbitrary: as out)
  case (Cons r rs)
  obtain a as' where as: "as = a # as'" "map_of tensors (tr_name r) = Some (relocated r a)"
    "list_all2 (\<lambda>r a. map_of tensors (tr_name r) = Some (relocated r a)) rs as'"
    using Cons.prems(2) by (auto simp: list_all2_Cons1)
  obtain b where b: "record_payload source data_start r = Some b"
    "write_tensors source data_start tensors section_start rs (pad_to (section_start + a) out @ b) = (None, out')"
    using Cons.prems(1) as(2)
    by (auto simp: Let_def record_payload_def record_len_def relocated_def split: if_splits option.splits)
  from Cons.IH [OF b(2) as(3)] show ?case using b(1) as(1)
    by (auto simp: lay_out_def list_all2_Cons1)
qed (auto simp: lay_out_def)

section \<open>What a file holds\<close>

type_synonym 'v stored = "'v \<times> nat list \<times> nat option \<times> string"

definition stored_tensor :: "string \<Rightarrow> nat \<Rightarrow> 'v raw_descriptor \<Rightarrow> 'v stored option" where
  "stored_tensor s data_start d =
     map_option (\<lambda>b. (td_dtype d, td_shape d, td_param_id d, b))
       (read_exact_at s (data_start + fst (td_offsets d)) (tensor_len d))"

definition pack_view :: "'v pack_services \<Rightarrow> string \<Rightarrow> (string \<Rightarrow> 'v stored option) option" where
  "pack_view svc s =
     (case read_burnpack_metadata svc s of
        Inl _ \<Rightarrow> None
      | Inr (version, metadata_size, metadata) \<Rightarrow>
          Some (\<lambda>name. Option.bind (map_of (md_tensors metadata) name)
            (stored_tensor s (aligned_data_section_start metadata_size))))"

text \<open>The tensors of a list of records, read from the file they come from.\<close>

definition records_view :: "string \<Rightarrow> nat \<Rightarrow> 'v tensor_record list \<Rightarrow> string \<Rightarrow> 'v stored option" where
  "records_view source data_start rs name =
     Option.bind (map_of (map (\<lambda>r. (tr_name r, tr_descriptor r)) rs) name) (stored_tensor source data_start)"

text \<open>The laws of CBOR: what is written from tables in key order is read back, and what is read is
  in key order.\<close>

definition metadata_ok :: "'v raw_metadata \<Rightarrow> bool" where
  "metadata_ok m \<longleftrightarrow> btree_ok (md_tensors m) \<and> btree_ok (md_metadata m)"

definition cbor_ok :: "'v pack_services \<Rightarrow> bool" where
  "cbor_ok svc \<longleftrightarrow>
     (\<forall>m b. metadata_ok m \<and> to_cbor svc m = Some b \<longrightarrow> from_cbor svc b = Some m)
     \<and> (\<forall>b m. from_cbor svc b = Some m \<longrightarrow> metadata_ok m)"

lemma map_of_zip_records:
  assumes "distinct (map tr_name rs)" "length as = length rs"
  shows "list_all2 (\<lambda>r a. map_of (zip (map tr_name rs) (map2 relocated rs as)) (tr_name r) = Some (relocated r a)) rs as"
proof (rule list_all2_all_nthI)
  fix i assume i: "i < length rs"
  then have "(tr_name (rs ! i), relocated (rs ! i) (as ! i)) \<in> set (zip (map tr_name rs) (map2 relocated rs as))"
    using assms(2) by (auto simp: set_zip intro!: exI [of _ i])
  moreover have "distinct (map fst (zip (map tr_name rs) (map2 relocated rs as)))" using assms by simp
  ultimately show "map_of (zip (map tr_name rs) (map2 relocated rs as)) (tr_name (rs ! i)) = Some (relocated (rs ! i) (as ! i))"
    by (rule map_of_is_SomeI [rotated])
qed (simp add: assms(2))

section \<open>A written part\<close>

definition part_size :: "'v pack_services \<Rightarrow> (string \<times> string) list \<Rightarrow> 'v tensor_record list \<Rightarrow> nat" where
  "part_size svc source_metadata rs =
     (case estimate_part_total_bytes svc rs source_metadata of None \<Rightarrow> usize_max | Some n \<Rightarrow> n)"

text \<open>The files of a part with the bounds under which offsets are exact.\<close>

definition records_ok :: "'v tensor_record list \<Rightarrow> bool" where
  "records_ok rs \<longleftrightarrow> distinct (map tr_name rs) \<and> records_span rs < 2 ^ 62"

lemma payload_stored:
  assumes "record_payload source data_start r = Some b"
  shows "stored_tensor source data_start (tr_descriptor r)
    = Some (td_dtype (tr_descriptor r), td_shape (tr_descriptor r), td_param_id (tr_descriptor r), b)"
  using assms by (simp add: stored_tensor_def record_payload_def record_len_def)

lemma written_tensors_view:
  assumes ok: "records_ok rs" and data: "write_tensors source data_start (fst (place_tensors rs 0 [])) section_start rs front = (None, out)"
    and front: "length front = section_start" "section_start < 2 ^ 33"
  shows "length out = section_start + data_end rs 0 \<and> (\<exists>tail. out = front @ tail)
    \<and> (\<forall>r\<in>set rs. record_payload source data_start r \<noteq> None)
    \<and> (\<lambda>name. Option.bind (map_of (fst (place_tensors rs 0 [])) name) (stored_tensor out section_start))
        = records_view source data_start rs"
proof -
  let ?as = "starts rs 0" and ?ts = "fst (place_tensors rs 0 [])"
  have dist: "distinct (map tr_name rs)" and span: "records_span rs < 2 ^ 62" using ok by (simp_all add: records_ok_def)
  have "map_of ?ts = Map.empty ++ map_of (zip (map tr_name rs) (map2 relocated rs ?as))"
    using place_tensors_spec [OF dist, of 0 "[]"] span by simp
  then have tab: "map_of ?ts = map_of (zip (map tr_name rs) (map2 relocated rs ?as))" by simp
  have "list_all2 (\<lambda>r a. map_of ?ts (tr_name r) = Some (relocated r a)) rs ?as"
    unfolding tab by (rule map_of_zip_records [OF dist]) simp
  then obtain bufs where bufs: "list_all2 (\<lambda>r b. record_payload source data_start r = Some b) rs bufs"
    and out: "out = lay_out section_start (zip ?as bufs) front"
    using write_tensors_lay_out [OF data] by blast
  have "list_all2 (\<lambda>r b. length b = record_len r) rs bufs"
    using bufs by (rule list_all2_mono) (auto simp: record_payload_def dest: read_exact_length)
  then have asc: "ascending 0 (zip ?as bufs)" "blocks_end 0 (zip ?as bufs) = data_end rs 0"
    using ascending_starts by blast+
  have lay: "length out = section_start + data_end rs 0" "take (length front) out = front"
    "\<forall>(start, bytes)\<in>set (zip ?as bufs). start + length bytes \<le> data_end rs 0
        \<and> take (length bytes) (drop (section_start + start) out) = bytes"
    using lay_out_spec [OF asc(1), of front section_start] front(1) asc(2) out by auto
  have small: "length out < 2 ^ 63" using lay(1) front(2) data_end_le [of rs 0] span by simp
  have len: "length bufs = length rs" using bufs by (auto dest: list_all2_lengthD)
  have view: "Option.bind (map_of ?ts name) (stored_tensor out section_start) = records_view source data_start rs name" for name
  proof (cases "name \<in> tr_name ` set rs")
    case False
    then have "map_of ?ts name = None" unfolding tab by (auto simp: map_of_eq_None_iff dest!: set_zip_leftD)
    moreover have "map_of (map (\<lambda>r. (tr_name r, tr_descriptor r)) rs) name = None" using False by (auto simp: map_of_eq_None_iff)
    ultimately show ?thesis by (simp add: records_view_def)
  next
    case True
    then obtain i where i: "i < length rs" "name = tr_name (rs ! i)" by (auto simp: in_set_conv_nth)
    let ?r = "rs ! i" and ?a = "?as ! i" and ?b = "bufs ! i"
    have b: "record_payload source data_start ?r = Some ?b" using bufs i(1) by (rule list_all2_nthD)
    have lb: "length ?b = record_len ?r" using b read_exact_length by (auto simp: record_payload_def)
    have "(?a, ?b) \<in> set (zip ?as bufs)" using i(1) len by (auto simp: set_zip)
    then have "?a + length ?b \<le> data_end rs 0" "take (length ?b) (drop (section_start + ?a) out) = ?b" using lay(3) by auto
    then have rd: "read_exact_at out (section_start + ?a) (record_len ?r) = Some ?b"
      using read_exact_block [of ?b "section_start + ?a" out] lay(1) small lb by simp
    have "map_of ?ts name = Some (relocated ?r ?a)"
      unfolding tab i(2) using map_of_zip_records [OF dist, of ?as] i(1) by (auto dest: list_all2_nthD)
    moreover have "tensor_len (relocated ?r ?a) = record_len ?r" by (simp add: relocated_def tensor_len_def)
    ultimately have "Option.bind (map_of ?ts name) (stored_tensor out section_start)
        = Some (td_dtype (tr_descriptor ?r), td_shape (tr_descriptor ?r), td_param_id (tr_descriptor ?r), ?b)"
      using rd by (simp add: stored_tensor_def) (simp add: relocated_def)
    moreover have "map_of (map (\<lambda>r. (tr_name r, tr_descriptor r)) rs) name = Some (tr_descriptor ?r)"
      using i dist by (intro map_of_is_SomeI) (auto simp: comp_def)
    ultimately show ?thesis using payload_stored [OF b] by (simp add: records_view_def)
  qed
  have "record_payload source data_start r \<noteq> None" if "r \<in> set rs" for r
    using bufs that by (auto simp: in_set_conv_nth dest: list_all2_nthD)
  moreover have "out = front @ drop (length front) out" using lay(2) by (metis append_take_drop_id)
  ultimately show ?thesis using lay(1) view by blast
qed

lemma write_burnpack_part_view:
  assumes svc: "cbor_ok svc" and ok: "records_ok rs" and version: "version < 2 ^ 16" and md: "btree_ok source_metadata"
    and written: "write_burnpack_part svc fs source destination version data_start source_metadata rs = (None, fs')"
  shows "\<exists>out. read_file fs' destination = Some out \<and> pack_view svc out = Some (records_view source data_start rs)
    \<and> (\<forall>r\<in>set rs. record_payload source data_start r \<noteq> None) \<and> length out = part_size svc source_metadata rs"
proof -
  let ?ts = "fst (place_tensors rs 0 [])" and ?m = "\<lparr> md_tensors = fst (place_tensors rs 0 []), md_metadata = source_metadata \<rparr>"
  obtain cbor fs1 out where cbor: "to_cbor svc ?m = Some cbor" "length cbor < 2 ^ 32"
    and data: "write_tensors source data_start ?ts (aligned_data_section_start (length cbor)) rs (pack_front version cbor) = (None, out)"
    and stored: "write_file fs1 destination out = Some fs'"
    using written by (auto simp: write_burnpack_part_def Let_def split: option.splits if_splits prod.splits)
  note front = length_pack_front [OF cbor(2), of version] and sec = data_section_start [OF cbor(2)]
  note w = written_tensors_view [OF ok data front sec(3)]
  have dist: "distinct (map tr_name rs)" and span: "records_span rs < 2 ^ 62" using ok by (simp_all add: records_ok_def)
  have place: "snd (place_tensors rs 0 []) = data_end rs 0" "btree_ok ?ts"
    using place_tensors_spec [OF dist, of 0 "[]"] span by (auto simp: btree_ok_def)
  have "metadata_ok ?m" using place(2) md by (simp add: metadata_ok_def)
  then have reread: "from_cbor svc cbor = Some ?m" using svc cbor(1) unfolding cbor_ok_def by blast
  obtain rest where "out = pack_front version cbor @ rest" using w by blast
  then have "read_burnpack_metadata svc out = Inr (version, length cbor, ?m)"
    by (simp only: read_metadata_front [OF cbor(2) version reread])
  then have "pack_view svc out = Some (records_view source data_start rs)" using w by (simp add: pack_view_def)
  moreover have "data_end rs 0 < 2 ^ 62" using data_end_le [of rs 0] span by simp
  then have "length out = part_size svc source_metadata rs"
    using w cbor(1) place(1) sec(3) by (simp add: part_size_def estimate_part_total_bytes_def split_def)
  moreover have "read_file fs' destination = Some out" using write_file_Some [OF stored] by (simp add: read_file_def)
  ultimately show ?thesis using w by blast
qed

section \<open>The groups\<close>

lemma split_loop_spec:
  assumes "\<forall>g\<in>set groups. g \<noteq> [] \<and> (1 < length g \<longrightarrow> part_size svc md g \<le> limit)"
    and "1 < length current \<longrightarrow> part_size svc md current \<le> limit"
  shows "concat (split_loop svc limit md rs current groups) = concat groups @ current @ rs
    \<and> (\<forall>g\<in>set (split_loop svc limit md rs current groups). g \<noteq> [] \<and> (1 < length g \<longrightarrow> part_size svc md g \<le> limit))"
  using assms
proof (induction rs arbitrary: current groups)
  case (Cons r rs)
  show ?case
  proof (cases "current \<noteq> [] \<and> limit < part_size svc md (current @ [r])")
    case True
    then have "split_loop svc limit md (r # rs) current groups = split_loop svc limit md rs [r] (groups @ [current])"
      by (simp add: Let_def part_size_def)
    moreover have "concat (split_loop svc limit md rs [r] (groups @ [current])) = concat (groups @ [current]) @ [r] @ rs
      \<and> (\<forall>g\<in>set (split_loop svc limit md rs [r] (groups @ [current])). g \<noteq> [] \<and> (1 < length g \<longrightarrow> part_size svc md g \<le> limit))"
      using True Cons.prems by (intro Cons.IH) auto
    ultimately show ?thesis by simp
  next
    case False
    then have "1 < length (current @ [r]) \<longrightarrow> part_size svc md (current @ [r]) \<le> limit" by auto
    then have "concat (split_loop svc limit md rs (current @ [r]) groups) = concat groups @ (current @ [r]) @ rs
      \<and> (\<forall>g\<in>set (split_loop svc limit md rs (current @ [r]) groups). g \<noteq> [] \<and> (1 < length g \<longrightarrow> part_size svc md g \<le> limit))"
      using Cons.IH [OF Cons.prems(1)] by blast
    moreover have "split_loop svc limit md (r # rs) current groups = split_loop svc limit md rs (current @ [r]) groups"
      using False unfolding split_loop.simps Let_def part_size_def by (simp only: if_False)
    ultimately show ?thesis by simp
  qed
qed auto

lemma split_tensor_records_spec:
  "concat (split_tensor_records svc records limit md) = records
   \<and> (\<forall>g\<in>set (split_tensor_records svc records limit md). g \<noteq> [] \<and> (1 < length g \<longrightarrow> part_size svc md g \<le> limit))"
  using split_loop_spec [of "[]" svc md limit "[]" records] by (simp add: split_tensor_records_def)

end
