(* ===== verification/Checkpoint_Parts_Proofs.thy ===== *)
theory Checkpoint_Parts_Proofs
  imports Checkpoint_Parts Checkpoint_Pack_Proofs "HOL-Library.Multiset"
begin

text \<open>
  Which files writing the parts touches and what they hold afterwards, that the manifest
  describes them, and what loading them applies.
\<close>

section \<open>The names of the parts\<close>

lemma parse_zeros: "parse_digits 0 (replicate k (CHR ''0'')) = Some 0"
  by (induction k) (simp_all add: char_digit_def)

lemma pad_five_inj: "i \<le> usize_max \<Longrightarrow> j \<le> usize_max \<Longrightarrow> pad_five i = pad_five j \<Longrightarrow> i = j"
proof -
  have "parse_digits 0 (pad_five n) = Some n" if "n \<le> usize_max" for n
    using that by (simp add: pad_five_def parse_digits_append parse_zeros parse_digits_show_nat)
  then show "i \<le> usize_max \<Longrightarrow> j \<le> usize_max \<Longrightarrow> pad_five i = pad_five j \<Longrightarrow> i = j" by (metis option.inject)
qed

definition path_ok :: "fs_path \<Rightarrow> bool" where
  "path_ok p \<longleftrightarrow> list_all plain_name (components p)"

lemma parse_path_ok: "path_ok (parse_path s)"
  by (auto simp: path_ok_def parse_path_def list_all_iff plain_name_def dest: split_on_notin)

definition part_path :: "fs_path \<Rightarrow> string \<Rightarrow> nat \<Rightarrow> fs_path" where
  "part_path p name i = with_file_name p (part_name name i)"

lemma file_name_components: "file_name p = Some name \<Longrightarrow> components p = butlast (components p) @ [name]"
  by (auto simp: file_name_def split: if_splits)

lemma plain_file_name: "path_ok p \<Longrightarrow> file_name p = Some name \<Longrightarrow> plain_name name"
  by (auto simp: path_ok_def list_all_iff file_name_def split: if_splits)

lemma plain_append:
  assumes "plain_name name" "CHR ''/'' \<notin> set rest" "2 \<le> length rest"
  shows "plain_name (name @ rest)"
  using assms by (auto simp: plain_name_def proper_component_def append_eq_Cons_conv)

lemma pad_five_no_slash: "CHR ''/'' \<notin> set (pad_five i)"
  using show_nat_notin [of "CHR ''/''" i] by (auto simp: pad_five_def)

lemma plain_part_name: "plain_name name \<Longrightarrow> plain_name (part_name name i)"
  unfolding part_name_def using pad_five_no_slash by (intro plain_append) auto

lemma plain_manifest_name: "plain_name name \<Longrightarrow> plain_name (name @ ''.parts.json'')"
  by (intro plain_append) auto

lemma part_path_eq:
  "path_ok p \<Longrightarrow> file_name p = Some name \<Longrightarrow>
     part_path p name i = FsPath (is_absolute p) (butlast (components p) @ [part_name name i])"
  using plain_part_name [OF plain_file_name] by (simp add: part_path_def with_plain_name)

lemma manifest_path_eq:
  "path_ok p \<Longrightarrow> file_name p = Some name \<Longrightarrow>
     burnpack_parts_manifest_path p = FsPath (is_absolute p) (butlast (components p) @ [name @ ''.parts.json''])"
  using plain_manifest_name [OF plain_file_name] by (simp add: burnpack_parts_manifest_path_def with_plain_name)

lemma part_path_inj:
  assumes "path_ok p" "file_name p = Some name" "i \<le> usize_max" "j \<le> usize_max" "part_path p name i = part_path p name j"
  shows "i = j"
  using assms pad_five_inj by (simp add: part_path_eq part_name_def)

lemma part_path_not_manifest:
  "path_ok p \<Longrightarrow> file_name p = Some name \<Longrightarrow> part_path p name i \<noteq> burnpack_parts_manifest_path p"
  by (simp add: part_path_eq manifest_path_eq part_name_def)

lemma own_paths:
  assumes "path_ok p" "file_name p = Some name"
  shows "part_path p name i \<noteq> p" and "burnpack_parts_manifest_path p \<noteq> p"
proof -
  have p: "p = FsPath (is_absolute p) (butlast (components p) @ [name])"
    using file_name_components [OF assms(2)] by (metis fs_path.collapse)
  show "part_path p name i \<noteq> p"
    unfolding part_path_eq [OF assms] by (subst (3) p) (simp add: part_name_def)
  show "burnpack_parts_manifest_path p \<noteq> p"
    unfolding manifest_path_eq [OF assms] by (subst (3) p) simp
qed

lemma resolve_part_name:
  assumes "path_ok p" "file_name p = Some name"
  shows "resolve_part_entry_path (burnpack_parts_manifest_path p) (part_name name i) = Inr (part_path p name i)"
  using plain_part_name [OF plain_file_name [OF assms]]
  by (simp add: resolve_part_entry_path_def manifest_path_eq [OF assms] part_path_eq [OF assms] parent_of_def path_join_def)

section \<open>Which files change\<close>

text \<open>Everything but the files at some paths stays, and directories are only added.\<close>

definition only_writes :: "fs_path set \<Rightarrow> file_system \<Rightarrow> file_system \<Rightarrow> bool" where
  "only_writes ps fs fs' \<longleftrightarrow>
     (\<forall>q. q \<notin> ps \<longrightarrow> fs_files fs' q = fs_files fs q) \<and> fs_dirs fs \<subseteq> fs_dirs fs'
     \<and> fs_dir_info fs' = fs_dir_info fs \<and> fs_now fs' = fs_now fs"

lemma only_writes_refl [simp]: "only_writes ps fs fs"
  by (simp add: only_writes_def)

lemma only_writes_trans: "only_writes ps a b \<Longrightarrow> only_writes qs b c \<Longrightarrow> ps \<union> qs \<subseteq> rs \<Longrightarrow> only_writes rs a c"
  unfolding only_writes_def by (metis Un_iff order_trans subsetD)

lemma ensure_parent_only: "ensure_parent_dir fs p = Some fs' \<Longrightarrow> only_writes {} fs fs'"
  by (auto simp: only_writes_def ensure_parent_dir_def dest!: create_dir_all_Some split: option.splits)

lemma write_file_only: "write_file fs p bytes = Some fs' \<Longrightarrow> only_writes {p} fs fs'"
  by (auto simp: only_writes_def dest!: write_file_Some)

lemma remove_file_only: "remove_file fs p = Some fs' \<Longrightarrow> only_writes {p} fs fs'"
  by (auto simp: only_writes_def dest!: remove_file_Some)

lemma write_burnpack_part_only:
  assumes "write_burnpack_part svc fs source destination version data_start md rs = (None, fs')"
  shows "only_writes {destination} fs fs'"
proof -
  obtain fs1 out where "ensure_parent_dir fs destination = Some fs1" "write_file fs1 destination out = Some fs'"
    using assms by (auto simp: write_burnpack_part_def Let_def split: option.splits if_splits prod.splits)
  then show ?thesis using ensure_parent_only write_file_only only_writes_trans by blast
qed

lemma only_writes_read: "only_writes ps fs fs' \<Longrightarrow> q \<notin> ps \<Longrightarrow> read_file fs' q = read_file fs q"
  by (simp add: only_writes_def read_file_def)

section \<open>Writing the groups\<close>

text \<open>A part file with its entry of the manifest.\<close>

definition part_written ::
    "'v pack_services \<Rightarrow> fs_path \<Rightarrow> string \<Rightarrow> string \<Rightarrow> nat \<Rightarrow> (string \<times> string) list \<Rightarrow> file_system
      \<Rightarrow> nat \<Rightarrow> 'v tensor_record list \<Rightarrow> part_entry \<times> fs_path \<Rightarrow> bool" where
  "part_written svc p name source data_start md fs i rs part \<longleftrightarrow>
     (\<exists>out. read_file fs (part_path p name i) = Some out
       \<and> pack_view svc out = Some (records_view source data_start rs)
       \<and> (\<forall>r\<in>set rs. record_payload source data_start r \<noteq> None)
       \<and> length out = part_size svc md rs
       \<and> part = (\<lparr> pe_path = part_name name i, pe_bytes = length out, pe_sha = sha256 svc out,
                    pe_tensors = length rs \<rparr>, part_path p name i))"

lemma part_written_stays:
  assumes "part_written svc p name source data_start md fs i rs part" "only_writes ps fs fs'" "part_path p name i \<notin> ps"
  shows "part_written svc p name source data_start md fs' i rs part"
  using assms only_writes_read [OF assms(2,3)] by (simp add: part_written_def)

lemma write_groups_spec:
  assumes "write_groups svc p name overwrite source version data_start md index groups fs = (Inr parts, fs')"
    and p: "path_ok p" "file_name p = Some name" and svc: "cbor_ok svc" "version < 2 ^ 16" "btree_ok md"
    and "\<forall>g\<in>set groups. records_ok g" and "index + length groups \<le> usize_max"
  shows "only_writes {part_path p name i |i. index \<le> i \<and> i < index + length groups} fs fs' \<and> length parts = length groups
    \<and> (\<forall>k<length groups. part_written svc p name source data_start md fs' (index + k) (groups ! k) (parts ! k))"
  using assms(1,7,8)
proof (induction groups arbitrary: index fs parts)
  case (Cons g groups)
  let ?q = "part_path p name index"
  obtain fs1 fs2 bytes info sha more where
    open1: "(if path_exists fs ?q \<and> overwrite then remove_file fs ?q else Some fs) = Some fs1"
    and fs2: "write_burnpack_part svc fs1 source ?q version data_start md g = (None, fs2)"
    and more: "metadata_of fs2 ?q = Some (bytes, info)" "sha256_file svc fs2 ?q = Inr sha"
    "write_groups svc p name overwrite source version data_start md (index + 1) groups fs2 = (Inr more, fs')"
    "parts = (\<lparr> pe_path = part_name name index, pe_bytes = bytes, pe_sha = sha, pe_tensors = length g \<rparr>, ?q) # more"
    using Cons.prems(1)
    by (auto simp: Let_def part_path_def [symmetric] split: option.splits prod.splits sum.splits split del: if_split)
  have fs1: "only_writes {?q} fs fs1" using open1 remove_file_only [of fs ?q] by (auto split: if_splits)
  obtain out where out: "read_file fs2 ?q = Some out" "pack_view svc out = Some (records_view source data_start g)"
    "\<forall>r\<in>set g. record_payload source data_start r \<noteq> None" "length out = part_size svc md g"
    using write_burnpack_part_view [OF svc(1) _ svc(2,3) fs2] Cons.prems(2) by auto
  have "bytes = length out" "sha = sha256 svc out"
    using more(1,2) out(1) by (auto simp: metadata_of_def read_file_def sha256_file_def)
  then have first: "part_written svc p name source data_start md fs2 index g (hd parts)"
    using out more(4) by (simp add: part_written_def)
  have IH: "only_writes {part_path p name i |i. index + 1 \<le> i \<and> i < index + 1 + length groups} fs2 fs' \<and> length more = length groups
    \<and> (\<forall>k<length groups. part_written svc p name source data_start md fs' (index + 1 + k) (groups ! k) (more ! k))"
    using Cons.prems by (intro Cons.IH [OF more(3)]) simp_all
  have "?q \<notin> {part_path p name i |i. index + 1 \<le> i \<and> i < index + 1 + length groups}"
  proof
    assume "?q \<in> {part_path p name i |i. index + 1 \<le> i \<and> i < index + 1 + length groups}"
    then obtain i where i: "?q = part_path p name i" "index + 1 \<le> i" "i < index + 1 + length groups" by blast
    then have "index \<le> usize_max" "i \<le> usize_max" using Cons.prems(3) by auto
    then show False using part_path_inj [OF p _ _ i(1)] i(2) by auto
  qed
  then have "part_written svc p name source data_start md fs' index g (hd parts)"
    using part_written_stays [OF first] IH by blast
  then have parts: "part_written svc p name source data_start md fs' (index + k) ((g # groups) ! k) (parts ! k)"
    if "k < length (g # groups)" for k
    using that IH more(4) by (cases k) auto
  have "only_writes {?q} fs fs2" using only_writes_trans [OF fs1 write_burnpack_part_only [OF fs2]] by simp
  moreover have "{?q} \<union> {part_path p name i |i. index + 1 \<le> i \<and> i < index + 1 + length groups}
      \<subseteq> {part_path p name i |i. index \<le> i \<and> i < index + length (g # groups)}" by auto
  ultimately have "only_writes {part_path p name i |i. index \<le> i \<and> i < index + length (g # groups)} fs fs'"
    using only_writes_trans IH by blast
  then show ?case using parts IH more(4) by simp
qed auto

section \<open>The manifest and its parts\<close>

text \<open>The laws of JSON and SHA-256: a manifest is read back as it was written, and a digest is
  printed in hexadecimal.\<close>

definition json_ok :: "'v pack_services \<Rightarrow> bool" where
  "json_ok svc \<longleftrightarrow> (\<forall>m b. to_json svc m = Some b \<longrightarrow> from_json svc b = Some m)"

definition digest_ok :: "'v pack_services \<Rightarrow> bool" where
  "digest_ok svc \<longleftrightarrow> (\<forall>b. list_all graphic (sha256 svc b))"

lemma part_written_matches:
  assumes "part_written svc p name source data_start md fs i rs part" "digest_ok svc"
  shows "part_matches_cache svc fs (part_path p name i) (fst part) = Inr True"
proof -
  obtain out where out: "read_file fs (part_path p name i) = Some out" "pe_bytes (fst part) = length out"
    "pe_sha (fst part) = sha256 svc out" using assms(1) by (auto simp: part_written_def)
  obtain f where f: "fs_files fs (part_path p name i) = Some f" "file_bytes f = out"
    using out(1) by (auto simp: read_file_def)
  have trim: "str_trim (sha256 svc out) = sha256 svc out" using assms(2) by (simp add: digest_ok_def str_trim_graphic_all)
  show ?thesis
    using f out trim by (simp add: part_matches_cache_def path_exists_def is_file_def metadata_of_def sha256_file_def eq_ignore_ascii_case_def)
qed

lemma tensor_records_parts:
  "mset (map (\<lambda>r. (tr_name r, tr_descriptor r)) (tensor_records m)) = mset (md_tensors m)"
proof -
  have "mset (tensor_records m) = mset (map (\<lambda>(name, d). \<lparr> tr_name = name, tr_descriptor = d \<rparr>) (md_tensors m))"
    by (simp add: tensor_records_def)
  then have "mset (map (\<lambda>r. (tr_name r, tr_descriptor r)) (tensor_records m))
      = mset (map (\<lambda>r. (tr_name r, tr_descriptor r)) (map (\<lambda>(name, d). \<lparr> tr_name = name, tr_descriptor = d \<rparr>) (md_tensors m)))"
    by (simp only: mset_map)
  moreover have "map (\<lambda>r. (tr_name r, tr_descriptor r)) (map (\<lambda>(name, d). \<lparr> tr_name = name, tr_descriptor = d \<rparr>) (md_tensors m)) = md_tensors m"
    by (simp add: comp_def split_def)
  ultimately show ?thesis by (simp only:)
qed

definition pack_span :: "'v raw_metadata \<Rightarrow> nat" where
  "pack_span m = sum_list (map (\<lambda>(name, d). tensor_len d + 256) (md_tensors m))"

lemma tensor_records_ok:
  assumes "metadata_ok m" "pack_span m < 2 ^ 62"
  shows "records_ok (tensor_records m)"
    and "map_of (map (\<lambda>r. (tr_name r, tr_descriptor r)) (tensor_records m)) = map_of (md_tensors m)"
proof -
  let ?kv = "map (\<lambda>r. (tr_name r, tr_descriptor r)) (tensor_records m)"
  note eq = tensor_records_parts [of m]
  have d: "distinct (map fst (md_tensors m))" using assms(1) by (simp add: metadata_ok_def btree_ok_def)
  have "image_mset fst (mset ?kv) = image_mset fst (mset (md_tensors m))" by (simp only: eq)
  then have "mset (map fst ?kv) = mset (map fst (md_tensors m))" by (simp only: mset_map)
  then have d': "distinct (map fst ?kv)" using d by (metis mset_eq_imp_distinct_iff)
  have "set ?kv = set (md_tensors m)" using eq by (rule mset_eq_setD)
  then show "map_of ?kv = map_of (md_tensors m)" using d d' map_of_inject_set by blast
  have "image_mset (\<lambda>(name, d). tensor_len d + 256) (mset ?kv) = image_mset (\<lambda>(name, d). tensor_len d + 256) (mset (md_tensors m))"
    by (simp only: eq)
  then have "mset (map (\<lambda>(name, d). tensor_len d + 256) ?kv) = mset (map (\<lambda>(name, d). tensor_len d + 256) (md_tensors m))"
    by (simp only: mset_map)
  then have "sum_mset (mset (map (\<lambda>(name, d). tensor_len d + 256) ?kv)) = sum_mset (mset (map (\<lambda>(name, d). tensor_len d + 256) (md_tensors m)))"
    by (rule arg_cong)
  then have "sum_list (map (\<lambda>(name, d). tensor_len d + 256) ?kv) = pack_span m"
    unfolding pack_span_def sum_mset_sum_list .
  then have "records_span (tensor_records m) = pack_span m" by (simp add: records_span_def record_len_def comp_def)
  then show "records_ok (tensor_records m)" using d' assms(2) by (simp add: records_ok_def comp_def)
qed

lemma group_ok:
  assumes "records_ok (concat groups)" "g \<in> set groups"
  shows "records_ok g"
proof -
  obtain a b where "groups = a @ g # b" using assms(2) by (meson split_list)
  then show ?thesis using assms(1) by (simp add: records_ok_def records_span_def)
qed

lemma records_view_append:
  "distinct (map tr_name (a @ b)) \<Longrightarrow> records_view source data_start (a @ b) = records_view source data_start a ++ records_view source data_start b"
proof
  fix name
  assume d: "distinct (map tr_name (a @ b))"
  let ?m = "\<lambda>rs. map_of (map (\<lambda>r. (tr_name r, tr_descriptor r)) rs) name"
  have "?m a = None \<or> ?m b = None" using d by (auto simp: map_of_eq_None_iff)
  then show "records_view source data_start (a @ b) name = (records_view source data_start a ++ records_view source data_start b) name"
    by (auto simp: records_view_def map_add_def split: option.splits)
qed

lemma records_view_groups:
  "distinct (map tr_name (concat groups)) \<Longrightarrow>
     foldr (++) (map (records_view source data_start) groups) Map.empty = records_view source data_start (concat groups)"
proof (induction groups)
  case (Cons g groups)
  have "distinct (map tr_name (g @ concat groups))" using Cons.prems by simp
  then show ?case using Cons by (simp add: records_view_append)
qed (simp add: records_view_def fun_eq_iff)

lemma dom_records_view: "dom (records_view source data_start rs) \<subseteq> tr_name ` set rs"
proof
  fix name assume "name \<in> dom (records_view source data_start rs)"
  then have "map_of (map (\<lambda>r. (tr_name r, tr_descriptor r)) rs) name \<noteq> None" by (auto simp: records_view_def bind_eq_Some_conv)
  then show "name \<in> tr_name ` set rs" by (auto simp: map_of_eq_None_iff)
qed

lemma groups_disjoint:
  assumes "distinct (map tr_name (concat groups))" "i < j" "j < length groups"
  shows "dom (records_view source data_start (groups ! i)) \<inter> dom (records_view source data_start (groups ! j)) = {}"
proof -
  have "groups = take j groups @ groups ! j # drop (Suc j) groups" using assms(3) by (rule id_take_nth_drop)
  then have "concat groups = concat (take j groups) @ groups ! j @ concat (drop (Suc j) groups)"
    by (metis concat.simps(2) concat_append)
  then have "distinct (map tr_name (concat (take j groups) @ groups ! j @ concat (drop (Suc j) groups)))" using assms(1) by simp
  then have "tr_name ` set (concat (take j groups)) \<inter> tr_name ` set (groups ! j) = {}"
    by (simp only: map_append distinct_append set_append set_map) blast
  moreover have "groups ! i \<in> set (take j groups)" using assms(2,3) by (auto simp: in_set_conv_nth intro!: exI [of _ i])
  then have "set (groups ! i) \<subseteq> set (concat (take j groups))" by auto
  ultimately have "tr_name ` set (groups ! i) \<inter> tr_name ` set (groups ! j) = {}" by blast
  then show ?thesis
    using dom_records_view [of source data_start "groups ! i"] dom_records_view [of source data_start "groups ! j"] by blast
qed

lemma le_value_less: "le_value s < 256 ^ length s"
proof (induction s)
  case (Cons c s)
  have "of_char c < (256 :: nat)" by (simp add: nat_of_char_less_256)
  moreover have "256 * le_value s + 256 \<le> 256 * 256 ^ length s" using Cons by simp
  moreover have "le_value (c # s) = of_char c + 256 * le_value s" by (simp add: le_value_def)
  ultimately have "le_value (c # s) < 256 * 256 ^ length s" by linarith
  then show ?case by simp
qed (simp add: le_value_def)

lemma read_metadata_facts:
  assumes "read_burnpack_metadata svc source = Inr (version, k, m)" "cbor_ok svc"
  shows "version < 2 ^ 16" and "metadata_ok m"
proof -
  have v: "version = le_value (take 2 (drop 4 source))" and c: "\<exists>b. from_cbor svc b = Some m"
    using assms(1) by (auto simp: read_burnpack_metadata_def Let_def split: if_splits option.splits)
  have "256 ^ length (take 2 (drop 4 source)) \<le> (256 :: nat) ^ 2" by (rule power_increasing) simp_all
  then have "version < 256 ^ 2" unfolding v by (rule less_le_trans [OF le_value_less])
  then show "version < 2 ^ 16" by simp
  show "metadata_ok m" using c assms(2) unfolding cbor_ok_def by blast
qed

section \<open>Writing new parts\<close>

definition services_lawful :: "'v pack_services \<Rightarrow> bool" where
  "services_lawful svc \<longleftrightarrow> cbor_ok svc \<and> json_ok svc \<and> digest_ok svc"

lemma groups_nonempty_length: "\<forall>g\<in>set groups. g \<noteq> [] \<Longrightarrow> length groups \<le> length (concat groups)"
proof (induction groups)
  case (Cons g groups)
  then have "1 \<le> length g" "length groups \<le> length (concat groups)" by (auto simp: Suc_le_eq)
  then have "1 + length groups \<le> length g + length (concat groups)" by (rule add_mono)
  then show ?case by simp
qed simp

lemma records_span_length: "length rs \<le> records_span rs"
  by (induction rs) (auto simp: records_span_def)

text \<open>The parts of the burnpack at a path, their entries and their manifest, all on disk.\<close>

definition parts_on_disk ::
    "'v pack_services \<Rightarrow> fs_path \<Rightarrow> nat \<Rightarrow> nat \<Rightarrow> nat \<Rightarrow> string \<Rightarrow> 'v tensor_record list list \<Rightarrow> (part_entry \<times> fs_path) list
      \<Rightarrow> parts_report \<Rightarrow> file_system \<Rightarrow> bool" where
  "parts_on_disk svc p limit size_total modified source groups parts report fs \<longleftrightarrow>
     (\<exists>name version k m.
        read_file fs p = Some source \<and> read_burnpack_metadata svc source = Inr (version, k, m)
        \<and> file_name p = Some name \<and> groups = split_tensor_records svc (tensor_records m) limit (md_metadata m)
        \<and> groups \<noteq> [] \<and> length parts = length groups \<and> length groups \<le> usize_max
        \<and> (\<forall>i<length groups. part_written svc p name source (aligned_data_section_start k) (md_metadata m) fs i (groups ! i) (parts ! i))
        \<and> read_parts_manifest svc fs (burnpack_parts_manifest_path p) = Inr
            \<lparr> pm_version = 1, pm_source_file = name, pm_source_modified = modified, pm_total_bytes = size_total,
              pm_max_part_bytes = limit, pm_parts = map fst parts \<rparr>
        \<and> report = \<lparr> pr_manifest_path = burnpack_parts_manifest_path p, pr_part_paths = map snd parts, pr_total_bytes = size_total \<rparr>)"

definition spans_fit :: "'v pack_services \<Rightarrow> string \<Rightarrow> bool" where
  "spans_fit svc source \<longleftrightarrow> (\<forall>version k m. read_burnpack_metadata svc source = Inr (version, k, m) \<longrightarrow> pack_span m < 2 ^ 62)"

lemma write_new_parts_spec:
  assumes run: "write_new_parts svc p limit overwrite size_total modified fs = (Inr report, fs')"
    and p: "path_ok p" and svc: "services_lawful svc" and fits: "\<And>s. read_file fs p = Some s \<Longrightarrow> spans_fit svc s"
  shows "\<exists>source groups parts. read_file fs p = Some source
    \<and> parts_on_disk svc p limit size_total modified source groups parts report fs' \<and> fs_files fs' p = fs_files fs p"
proof -
  let ?mp = "burnpack_parts_manifest_path p"
  obtain source version k m name parts fs1 json where
    source: "read_file fs p = Some source" and meta: "read_burnpack_metadata svc source = Inr (version, k, m)"
    and some: "md_tensors m \<noteq> []" and name: "file_name p = Some name"
    and groups: "write_groups svc p name overwrite source version (aligned_data_section_start k) (md_metadata m) 0
        (split_tensor_records svc (tensor_records m) limit (md_metadata m)) fs = (Inr parts, fs1)"
    and json: "to_json svc \<lparr> pm_version = 1, pm_source_file = name, pm_source_modified = modified, pm_total_bytes = size_total,
        pm_max_part_bytes = limit, pm_parts = map fst parts \<rparr> = Some json"
    and manifest: "write_file fs1 ?mp json = Some fs'"
    and report: "report = \<lparr> pr_manifest_path = ?mp, pr_part_paths = map snd parts, pr_total_bytes = size_total \<rparr>"
    using run by (auto simp: write_new_parts_def Let_def split: option.splits sum.splits prod.splits if_splits)
  let ?groups = "split_tensor_records svc (tensor_records m) limit (md_metadata m)"
  have laws: "cbor_ok svc" "json_ok svc" using svc by (simp_all add: services_lawful_def)
  note mf = read_metadata_facts [OF meta laws(1)]
  have span: "pack_span m < 2 ^ 62" using fits [OF source] meta by (simp add: spans_fit_def)
  note records = tensor_records_ok [OF mf(2) span]
  have spec: "concat ?groups = tensor_records m" "\<forall>g\<in>set ?groups. g \<noteq> []"
    using split_tensor_records_spec by blast+
  have gok: "\<forall>g\<in>set ?groups. records_ok g" using group_ok [of ?groups] records(1) spec(1) by simp
  have "length ?groups \<le> length (tensor_records m)" using groups_nonempty_length [OF spec(2)] spec(1) by simp
  moreover have "length (tensor_records m) < 2 ^ 62"
    using records_span_length [of "tensor_records m"] records(1) by (simp add: records_ok_def)
  ultimately have count: "0 + length ?groups \<le> usize_max" by (simp add: usize_max_def)
  have md: "btree_ok (md_metadata m)" using mf(2) by (simp add: metadata_ok_def)
  have w: "only_writes {part_path p name i |i. 0 \<le> i \<and> i < 0 + length ?groups} fs fs1 \<and> length parts = length ?groups
    \<and> (\<forall>i<length ?groups. part_written svc p name source (aligned_data_section_start k) (md_metadata m) fs1 (0 + i) (?groups ! i) (parts ! i))"
    by (rule write_groups_spec [OF groups p name laws(1) mf(1) md gok count])
  have mw: "only_writes {?mp} fs1 fs'" by (rule write_file_only [OF manifest])
  have stays: "part_written svc p name source (aligned_data_section_start k) (md_metadata m) fs' i (?groups ! i) (parts ! i)"
    if "i < length ?groups" for i
    using that w part_written_stays [OF _ mw, of svc p name] part_path_not_manifest [OF p name] by simp
  have read: "read_parts_manifest svc fs' ?mp = Inr \<lparr> pm_version = 1, pm_source_file = name, pm_source_modified = modified,
      pm_total_bytes = size_total, pm_max_part_bytes = limit, pm_parts = map fst parts \<rparr>"
    using write_file_Some [OF manifest] json laws(2) by (auto simp: read_parts_manifest_def read_file_def json_ok_def)
  have "fs_files fs' p = fs_files fs1 p" using mw own_paths(2) [OF p name] by (simp add: only_writes_def)
  moreover have "p \<notin> {part_path p name i |i. 0 \<le> i \<and> i < 0 + length ?groups}"
  proof
    assume "p \<in> {part_path p name i |i. 0 \<le> i \<and> i < 0 + length ?groups}"
    then obtain i where "p = part_path p name i" by blast
    then show False using own_paths(1) [OF p name, of i] by (blast dest: sym)
  qed
  then have "fs_files fs1 p = fs_files fs p" using w by (simp add: only_writes_def)
  ultimately have same: "fs_files fs' p = fs_files fs p" by simp
  have ne: "?groups \<noteq> []"
  proof
    assume "?groups = []"
    then have "tensor_records m = []" using spec(1) by simp
    then show False using some tensor_records_parts [of m] by simp
  qed
  have rf: "read_file fs' p = Some source" using source same by (simp add: read_file_def)
  have lens: "length parts = length ?groups" "length ?groups \<le> usize_max" using w count by simp_all
  have "parts_on_disk svc p limit size_total modified source ?groups parts report fs'"
    unfolding parts_on_disk_def
  proof (rule exI [of _ name], rule exI [of _ version], rule exI [of _ k], rule exI [of _ m], intro conjI)
    show "\<forall>i<length ?groups. part_written svc p name source (aligned_data_section_start k) (md_metadata m) fs' i
        (?groups ! i) (parts ! i)" using stays by blast
  qed (fact rf meta name refl ne lens read report)+
  then show ?thesis using source same by blast
qed

section \<open>Writing over what is there\<close>

lemma remove_parts_shrinks: "fs_files (snd (remove_parts mp entries fs)) \<subseteq>\<^sub>m fs_files fs"
proof (induction entries arbitrary: fs)
  case (Cons e es)
  have "fs_files fs' \<subseteq>\<^sub>m fs_files fs" if "remove_file fs q = Some fs'" for q fs'
    using remove_file_Some [OF that] by (auto simp: map_le_def)
  then show ?case using Cons.IH by (auto split: sum.splits option.splits intro: map_le_trans)
qed simp

lemma cleanup_shrinks: "fs_files (snd (cleanup_existing_parts svc fs mp)) \<subseteq>\<^sub>m fs_files fs"
proof -
  have "fs_files fs' \<subseteq>\<^sub>m fs_files g" if "remove_file g q = Some fs'" for q g fs'
    using remove_file_Some [OF that] by (auto simp: map_le_def)
  then show ?thesis
    using remove_parts_shrinks [of mp _ fs]
    by (auto simp: cleanup_existing_parts_def split: sum.splits option.splits prod.splits intro: map_le_trans) (metis map_le_trans snd_conv)+
qed

lemma write_burnpack_parts_spec:
  assumes run: "write_burnpack_parts svc fs p mib overwrite = (Inr report, fs')"
    and fresh: "overwrite \<or> \<not> path_exists fs (burnpack_parts_manifest_path p)"
    and p: "path_ok p" and svc: "services_lawful svc" and fits: "\<And>s. read_file fs p = Some s \<Longrightarrow> spans_fit svc s"
  shows "\<exists>source groups parts modified. read_file fs p = Some source \<and> fs_files fs' p = fs_files fs p
    \<and> modified = (case file_modified_unix_ms fs p of None \<Rightarrow> 0 | Some t \<Rightarrow> t)
    \<and> parts_on_disk svc p (max 1 mib * one_mib) (length source) modified source groups parts report fs'"
proof -
  let ?mp = "burnpack_parts_manifest_path p"
  obtain size_total info fs1 fs2 where size: "metadata_of fs p = Some (size_total, info)"
    and fs1: "(if overwrite then cleanup_existing_parts svc fs ?mp else (None, fs)) = (None, fs1)"
    and fs2: "ensure_parent_dir fs1 ?mp = Some fs2"
    and new: "write_new_parts svc p (max 1 mib * one_mib) overwrite size_total
        (case file_modified_unix_ms fs p of None \<Rightarrow> 0 | Some t \<Rightarrow> t) fs2 = (Inr report, fs')"
    using run fresh unfolding write_burnpack_parts_def Let_def
    by (auto split: if_splits option.splits prod.splits)
  have "fs_files fs1 \<subseteq>\<^sub>m fs_files fs"
    using fs1 cleanup_shrinks [of svc fs ?mp] by (auto split: if_splits)
  then have le: "fs_files fs2 \<subseteq>\<^sub>m fs_files fs" using ensure_parent_dir_files [OF fs2] by simp
  have same: "fs_files fs2 p = fs_files fs p" if "fs_files fs2 p = Some f" for f
    using le that by (auto simp: map_le_def dom_def)
  have "read_file fs2 p = Some s \<Longrightarrow> spans_fit svc s" for s using fits same by (auto simp: read_file_def)
  from write_new_parts_spec [OF new p svc this] obtain source groups parts where
    disk: "read_file fs2 p = Some source"
      "parts_on_disk svc p (max 1 mib * one_mib) size_total (case file_modified_unix_ms fs p of None \<Rightarrow> 0 | Some t \<Rightarrow> t)
        source groups parts report fs'"
      "fs_files fs' p = fs_files fs2 p" by blast
  obtain f where f: "fs_files fs2 p = Some f" "file_bytes f = source" using disk(1) by (auto simp: read_file_def)
  have entry: "fs_files fs p = Some f" using same [OF f(1)] f(1) by simp
  then have "size_total = length source" using size f(2) entry by (simp add: metadata_of_def)
  moreover have "read_file fs p = Some source" using entry f(2) by (simp add: read_file_def)
  moreover have "fs_files fs' p = fs_files fs p" using disk(3) f(1) entry by simp
  ultimately show ?thesis using disk(2) by blast
qed

end
