(* ===== verification/Checkpoint_Disk.thy ===== *)
theory Checkpoint_Disk
  imports Checkpoint_Parts_Proofs
begin

text \<open>
  What parts on disk give: the views of the part files against the view of the burnpack, the sizes,
  the manifest as complete and matching, and the model that loading applies.
\<close>

section \<open>What is on disk\<close>

lemma on_disk_path:
  "parts_on_disk svc p limit size_total modified source groups parts report fs \<Longrightarrow> i < length parts \<Longrightarrow>
     \<exists>name k m. file_name p = Some name \<and> part_written svc p name source k m fs i (groups ! i) (parts ! i)"
  unfolding parts_on_disk_def by metis

lemma on_disk_views:
  assumes "parts_on_disk svc p limit size_total modified source groups parts report fs" "services_lawful svc" "spans_fit svc source"
  shows "\<exists>views. map (\<lambda>q. Option.bind (read_file fs q) (pack_view svc)) (pr_part_paths report) = map Some views
    \<and> pack_view svc source = Some (foldr (++) views Map.empty)
    \<and> (\<forall>i j. i < j \<and> j < length views \<longrightarrow> dom (views ! i) \<inter> dom (views ! j) = {})"
proof -
  obtain name version k m where d: "read_burnpack_metadata svc source = Inr (version, k, m)"
    "groups = split_tensor_records svc (tensor_records m) limit (md_metadata m)" "length parts = length groups"
    "\<forall>i<length groups. part_written svc p name source (aligned_data_section_start k) (md_metadata m) fs i (groups ! i) (parts ! i)"
    "pr_part_paths report = map snd parts"
    using assms(1) by (auto simp: parts_on_disk_def)
  let ?ds = "aligned_data_section_start k"
  let ?views = "map (records_view source ?ds) groups"
  have "cbor_ok svc" using assms(2) by (simp add: services_lawful_def)
  then have "metadata_ok m" using read_metadata_facts(2) [OF d(1)] by blast
  moreover have "pack_span m < 2 ^ 62" using assms(3) d(1) by (simp add: spans_fit_def)
  ultimately have rec: "records_ok (tensor_records m)"
    "map_of (map (\<lambda>r. (tr_name r, tr_descriptor r)) (tensor_records m)) = map_of (md_tensors m)"
    using tensor_records_ok by blast+
  have con: "concat groups = tensor_records m" using split_tensor_records_spec d(2) by blast
  then have dist: "distinct (map tr_name (concat groups))" using rec(1) by (simp add: records_ok_def)
  have "map (\<lambda>q. Option.bind (read_file fs q) (pack_view svc)) (map snd parts) = map Some ?views"
    using d(3,4) by (intro nth_equalityI) (auto simp: part_written_def)
  moreover have "pack_view svc source = Some (records_view source ?ds (concat groups))"
    unfolding con using d(1) rec(2) by (simp add: pack_view_def records_view_def fun_eq_iff)
  then have "pack_view svc source = Some (foldr (++) ?views Map.empty)" using records_view_groups [OF dist] by simp
  moreover have "\<forall>i j. i < j \<and> j < length ?views \<longrightarrow> dom (?views ! i) \<inter> dom (?views ! j) = {}"
    using groups_disjoint [OF dist] by simp
  ultimately show ?thesis using d(5) by metis
qed

lemma on_disk_sizes:
  assumes "parts_on_disk svc p limit size_total modified source groups parts report fs"
  shows "\<exists>manifest. read_parts_manifest svc fs (pr_manifest_path report) = Inr manifest
    \<and> list_all2 (\<lambda>entry q. \<exists>out. read_file fs q = Some out \<and> pe_bytes entry = length out
        \<and> 0 < pe_tensors entry \<and> (1 < pe_tensors entry \<longrightarrow> length out \<le> limit))
      (pm_parts manifest) (pr_part_paths report)"
proof -
  obtain name version k m where d: "groups = split_tensor_records svc (tensor_records m) limit (md_metadata m)"
    "length parts = length groups"
    "\<forall>i<length groups. part_written svc p name source (aligned_data_section_start k) (md_metadata m) fs i (groups ! i) (parts ! i)"
    "read_parts_manifest svc fs (burnpack_parts_manifest_path p) = Inr
            \<lparr> pm_version = 1, pm_source_file = name, pm_source_modified = modified, pm_total_bytes = size_total,
              pm_max_part_bytes = limit, pm_parts = map fst parts \<rparr>"
    "pr_part_paths report = map snd parts" "pr_manifest_path report = burnpack_parts_manifest_path p"
    using assms by (auto simp: parts_on_disk_def)
  have g: "\<forall>g\<in>set groups. g \<noteq> [] \<and> (1 < length g \<longrightarrow> part_size svc (md_metadata m) g \<le> limit)"
    unfolding d(1) using split_tensor_records_spec by blast
  have "list_all2 (\<lambda>entry q. \<exists>out. read_file fs q = Some out \<and> pe_bytes entry = length out
        \<and> 0 < pe_tensors entry \<and> (1 < pe_tensors entry \<longrightarrow> length out \<le> limit)) (map fst parts) (map snd parts)"
  proof (rule list_all2_all_nthI)
    fix i assume "i < length (map fst parts)"
    then have i: "i < length parts" "i < length groups" using d(2) by simp_all
    obtain out where "read_file fs (part_path p name i) = Some out" "length out = part_size svc (md_metadata m) (groups ! i)"
      "parts ! i = (\<lparr> pe_path = part_name name i, pe_bytes = length out, pe_sha = sha256 svc out,
          pe_tensors = length (groups ! i) \<rparr>, part_path p name i)"
      using d(3) i(2) by (auto simp: part_written_def)
    moreover have "groups ! i \<noteq> []" "1 < length (groups ! i) \<longrightarrow> part_size svc (md_metadata m) (groups ! i) \<le> limit"
      using g i(2) by auto
    ultimately show "\<exists>out. read_file fs (map snd parts ! i) = Some out \<and> pe_bytes (map fst parts ! i) = length out
        \<and> 0 < pe_tensors (map fst parts ! i) \<and> (1 < pe_tensors (map fst parts ! i) \<longrightarrow> length out \<le> limit)"
      using i(1) by simp
  qed simp
  then show ?thesis using d(4-6) by auto
qed

lemma all_parts_match_list:
  assumes "\<And>part. part \<in> set parts \<Longrightarrow> \<exists>q. resolve_part_entry_path mp (pe_path part) = Inr q \<and> part_matches_cache svc fs q part = Inr True"
  shows "all_parts_match svc fs mp parts = Inr True"
  using assms
proof (induction parts)
  case (Cons part parts)
  then obtain q where "resolve_part_entry_path mp (pe_path part) = Inr q" "part_matches_cache svc fs q part = Inr True" by force
  then show ?case using Cons by simp
qed simp

lemma on_disk_entry:
  assumes "parts_on_disk svc p limit size_total modified source groups parts report fs" "services_lawful svc" "path_ok p" "part \<in> set parts"
  shows "resolve_part_entry_path (burnpack_parts_manifest_path p) (pe_path (fst part)) = Inr (snd part)
    \<and> part_matches_cache svc fs (snd part) (fst part) = Inr True"
proof -
  obtain i where i: "i < length parts" "part = parts ! i" using assms(4) by (auto simp: in_set_conv_nth)
  obtain name k m where n: "file_name p = Some name" and w: "part_written svc p name source k m fs i (groups ! i) (parts ! i)"
    using on_disk_path [OF assms(1) i(1)] by blast
  have "snd part = part_path p name i" "pe_path (fst part) = part_name name i" using w i(2) by (auto simp: part_written_def)
  then show ?thesis
    using resolve_part_name [OF assms(3) n] part_written_matches [OF w] assms(2) i(2) by (simp add: services_lawful_def)
qed

lemma on_disk_manifest:
  assumes "parts_on_disk svc p limit size_total modified source groups parts report fs"
  shows "\<exists>name. file_name p = Some name \<and> parts \<noteq> [] \<and> read_parts_manifest svc fs (burnpack_parts_manifest_path p) = Inr
            \<lparr> pm_version = 1, pm_source_file = name, pm_source_modified = modified, pm_total_bytes = size_total,
              pm_max_part_bytes = limit, pm_parts = map fst parts \<rparr>
    \<and> path_exists fs (burnpack_parts_manifest_path p)
    \<and> report = \<lparr> pr_manifest_path = burnpack_parts_manifest_path p, pr_part_paths = map snd parts, pr_total_bytes = size_total \<rparr>"
proof -
  have "path_exists fs mp" if "read_parts_manifest svc fs mp = Inr x" for mp x
    using that by (auto simp: read_parts_manifest_def read_file_def path_exists_def is_file_def split: option.splits)
  then show ?thesis using assms by (fastforce simp: parts_on_disk_def)
qed

lemma on_disk_complete:
  assumes "parts_on_disk svc p limit size_total modified source groups parts report fs" "services_lawful svc" "path_ok p"
  shows "manifest_is_complete svc fs (pr_manifest_path report) = Inr True"
proof -
  obtain name where m: "parts \<noteq> []" "path_exists fs (burnpack_parts_manifest_path p)"
    "read_parts_manifest svc fs (burnpack_parts_manifest_path p) = Inr
            \<lparr> pm_version = 1, pm_source_file = name, pm_source_modified = modified, pm_total_bytes = size_total,
              pm_max_part_bytes = limit, pm_parts = map fst parts \<rparr>"
    "pr_manifest_path report = burnpack_parts_manifest_path p"
    using on_disk_manifest [OF assms(1)] by auto
  have "all_parts_match svc fs (burnpack_parts_manifest_path p) (map fst parts) = Inr True"
    using on_disk_entry [OF assms] by (intro all_parts_match_list) auto
  then show ?thesis using m by (simp add: manifest_is_complete_def)
qed

lemma on_disk_matches_source:
  assumes "file_name p = Some name" "read_file fs p = Some source"
    "modified = (case file_modified_unix_ms fs p of None \<Rightarrow> 0 | Some t \<Rightarrow> t)"
  shows "manifest_matches_source_file fs \<lparr> pm_version = 1, pm_source_file = name, pm_source_modified = modified,
      pm_total_bytes = length source, pm_max_part_bytes = limit, pm_parts = entries \<rparr> p"
proof -
  obtain f where "fs_files fs p = Some f" "file_bytes f = source" using assms(2) by (auto simp: read_file_def)
  then have "metadata_of fs p = Some (length source, file_modified f)" by (simp add: metadata_of_def)
  then show ?thesis using assms(1,3) by (auto simp: manifest_matches_source_file_def file_modified_unix_ms_def split: option.splits)
qed

lemma on_disk_kept:
  assumes disk: "parts_on_disk svc p limit (length source) modified source groups parts report fs"
    and svc: "services_lawful svc" and p: "path_ok p" and src: "read_file fs p = Some source"
    and modified: "modified = (case file_modified_unix_ms fs p of None \<Rightarrow> 0 | Some t \<Rightarrow> t)"
    and mib: "max 1 mib * one_mib \<le> usize_max"
  shows "write_burnpack_parts svc fs p mib False = (Inr report, fs)"
proof -
  obtain name where m: "file_name p = Some name" "parts \<noteq> []" "path_exists fs (burnpack_parts_manifest_path p)"
    "read_parts_manifest svc fs (burnpack_parts_manifest_path p) = Inr
            \<lparr> pm_version = 1, pm_source_file = name, pm_source_modified = modified, pm_total_bytes = length source,
              pm_max_part_bytes = limit, pm_parts = map fst parts \<rparr>"
    "report = \<lparr> pr_manifest_path = burnpack_parts_manifest_path p, pr_part_paths = map snd parts, pr_total_bytes = length source \<rparr>"
    using on_disk_manifest [OF disk] by auto
  obtain f where f: "fs_files fs p = Some f" "file_bytes f = source" using src by (auto simp: read_file_def)
  have ex: "path_exists fs p" "metadata_of fs p = Some (length source, file_modified f)"
    using f by (simp_all add: path_exists_def is_file_def metadata_of_def)
  have all: "manifest_has_all_parts svc fs (burnpack_parts_manifest_path p) (Some p)"
    unfolding manifest_has_all_parts_def m(4) using m(2) on_disk_matches_source [OF m(1) src modified] on_disk_entry [OF disk svc p]
    by (auto simp: list_all_iff)
  have "try_map (\<lambda>entry. resolve_part_entry_path (burnpack_parts_manifest_path p) (pe_path entry)) (map fst parts) = Inr (map snd parts)"
    using on_disk_entry [OF disk svc p] by (induction parts) simp_all
  then show ?thesis
    using mib all m(3,4,5) ex by (simp add: write_burnpack_parts_def Let_def not_less)
qed

section \<open>Loading\<close>

text \<open>An entry of the manifest with the bytes of its file, as loading checks them.\<close>

definition entry_holds :: "'v pack_services \<Rightarrow> file_system \<Rightarrow> fs_path \<Rightarrow> bool \<Rightarrow> part_entry \<Rightarrow> string \<Rightarrow> bool" where
  "entry_holds svc fs manifest_path verify_checksums entry bytes \<longleftrightarrow>
     (\<exists>q. resolve_part_entry_path manifest_path (pe_path entry) = Inr q \<and> read_file fs q = Some bytes)
     \<and> (0 < pe_bytes entry \<longrightarrow> length bytes = pe_bytes entry)
     \<and> (verify_checksums \<and> str_trim (pe_sha entry) \<noteq> [] \<longrightarrow>
          eq_ignore_ascii_case (sha256 svc bytes) (str_trim (pe_sha entry)))"

lemma entry_holds_checks:
  "entry_holds svc fs manifest_path verify_checksums entry bytes \<longleftrightarrow>
     (\<exists>q. resolve_part_entry_path manifest_path (pe_path entry) = Inr q \<and> read_file fs q = Some bytes
       \<and> \<not> (0 < pe_bytes entry \<and> length bytes \<noteq> pe_bytes entry)
       \<and> \<not> (verify_checksums \<and> str_trim (pe_sha entry) \<noteq> []
            \<and> \<not> eq_ignore_ascii_case (sha256 svc bytes) (str_trim (pe_sha entry))))"
  by (auto simp: entry_holds_def)

lemma load_parts_Inr:
  "load_parts svc apply_pack fs mp verify entries model applied = Inr r \<longleftrightarrow>
     (\<exists>contents. list_all2 (entry_holds svc fs mp verify) entries contents
       \<and> apply_burnpack_parts_bytes apply_pack contents model applied = Inr r)"
proof (induction entries arbitrary: model applied)
  case (Cons e es)
  show ?case
  proof
    assume l: "load_parts svc apply_pack fs mp verify (e # es) model applied = Inr r"
    obtain q where q: "resolve_part_entry_path mp (pe_path e) = Inr q"
      using l by (cases "resolve_part_entry_path mp (pe_path e)") simp_all
    obtain bytes where b: "read_file fs q = Some bytes" using l q by (cases "read_file fs q") simp_all
    have len: "\<not> (0 < pe_bytes e \<and> length bytes \<noteq> pe_bytes e)" using l q b by (intro notI) simp
    have sum: "\<not> (verify \<and> str_trim (pe_sha e) \<noteq> [] \<and> \<not> eq_ignore_ascii_case (sha256 svc bytes) (str_trim (pe_sha e)))"
      using l q b len by (intro notI) simp
    obtain model' keys where a: "apply_pack model bytes = Inr (model', keys)"
      using l q b len sum by (cases "apply_pack model bytes") auto
    have rest: "load_parts svc apply_pack fs mp verify es model' (applied \<union> keys) = Inr r"
      using l q b len sum a by simp
    have h: "entry_holds svc fs mp verify e bytes" unfolding entry_holds_def using q b len sum by blast
    obtain contents where c: "list_all2 (entry_holds svc fs mp verify) es contents"
      "apply_burnpack_parts_bytes apply_pack contents model' (applied \<union> keys) = Inr r" using rest Cons.IH by blast
    show "\<exists>contents. list_all2 (entry_holds svc fs mp verify) (e # es) contents
        \<and> apply_burnpack_parts_bytes apply_pack contents model applied = Inr r"
      using h c a by (intro exI [of _ "bytes # contents"]) simp
  next
    assume "\<exists>contents. list_all2 (entry_holds svc fs mp verify) (e # es) contents
        \<and> apply_burnpack_parts_bytes apply_pack contents model applied = Inr r"
    then obtain bytes contents where h: "entry_holds svc fs mp verify e bytes"
      and c: "list_all2 (entry_holds svc fs mp verify) es contents"
      and a: "apply_burnpack_parts_bytes apply_pack (bytes # contents) model applied = Inr r"
      by (auto simp: list_all2_Cons1)
    obtain model' keys where m: "apply_pack model bytes = Inr (model', keys)"
      and rest: "apply_burnpack_parts_bytes apply_pack contents model' (applied \<union> keys) = Inr r"
      using a by (auto split: sum.splits)
    have "load_parts svc apply_pack fs mp verify es model' (applied \<union> keys) = Inr r" using Cons.IH c rest by blast
    then show "load_parts svc apply_pack fs mp verify (e # es) model applied = Inr r"
      using h m unfolding entry_holds_checks by (elim exE conjE) simp
  qed
qed auto

lemma try_load_parts_Some:
  assumes "try_load_parts svc apply_pack fs some_exists verify init candidates = Inr (Some r)"
  shows "\<exists>candidate\<in>set candidates. \<exists>manifest. read_parts_manifest svc fs (burnpack_parts_manifest_path candidate) = Inr manifest
    \<and> (path_exists fs candidate \<longrightarrow> manifest_matches_source_file fs manifest candidate)
    \<and> load_parts svc apply_pack fs (burnpack_parts_manifest_path candidate) verify (pm_parts manifest) init {} = Inr r"
  using assms
proof (induction candidates)
  case (Cons c cs)
  show ?case
  proof (cases "try_load_parts svc apply_pack fs some_exists verify init cs = Inr (Some r)")
    case True
    then show ?thesis using Cons.IH by auto
  next
    case False
    then show ?thesis using Cons.prems by (auto simp: Let_def result_bind_Inr split: if_splits)
  qed
qed simp

lemma on_disk_load:
  assumes disk: "parts_on_disk svc p limit (length source) modified source groups parts report fs"
    and svc: "services_lawful svc" and p: "path_ok p" and src: "read_file fs p = Some source"
    and modified: "modified = (case file_modified_unix_ms fs p of None \<Rightarrow> 0 | Some t \<Rightarrow> t)"
  shows "try_load_model_from_burnpack_parts svc apply_pack fs [p] verify init = Inr (Some r) \<longleftrightarrow>
    (\<exists>contents. map (read_file fs) (pr_part_paths report) = map Some contents
       \<and> load_model_from_burnpack_part_bytes apply_pack contents init = Inr r)"
proof -
  let ?mp = "burnpack_parts_manifest_path p"
  obtain name where m: "file_name p = Some name" "parts \<noteq> []" "path_exists fs ?mp"
    "read_parts_manifest svc fs ?mp = Inr
            \<lparr> pm_version = 1, pm_source_file = name, pm_source_modified = modified, pm_total_bytes = length source,
              pm_max_part_bytes = limit, pm_parts = map fst parts \<rparr>"
    "pr_part_paths report = map snd parts"
    using on_disk_manifest [OF disk] by auto
  have ex: "path_exists fs p" using src by (auto simp: read_file_def path_exists_def is_file_def)
  have load: "try_load_model_from_burnpack_parts svc apply_pack fs [p] verify init = Inr (Some r)
      \<longleftrightarrow> load_parts svc apply_pack fs ?mp verify (map fst parts) init {} = Inr r"
    using ex m(2,3,4) on_disk_matches_source [OF m(1) src modified]
    by (cases r) (simp add: try_load_model_from_burnpack_parts_def result_bind_Inr)
  have holds: "entry_holds svc fs ?mp verify (fst part) bytes \<longleftrightarrow> read_file fs (snd part) = Some bytes"
    if mem: "part \<in> set parts" for part bytes
  proof -
    have e: "resolve_part_entry_path ?mp (pe_path (fst part)) = Inr (snd part)" using on_disk_entry [OF disk svc p mem] by simp
    obtain i where i: "i < length parts" "part = parts ! i" using mem by (auto simp: in_set_conv_nth)
    obtain nm k md where w: "part_written svc p nm source k md fs i (groups ! i) (parts ! i)"
      using on_disk_path [OF disk i(1)] by blast
    obtain out where out: "read_file fs (snd part) = Some out" "pe_bytes (fst part) = length out" "pe_sha (fst part) = sha256 svc out"
      using w i(2) by (auto simp: part_written_def)
    have "str_trim (sha256 svc out) = sha256 svc out"
      using svc by (simp add: services_lawful_def digest_ok_def str_trim_graphic_all)
    then show ?thesis using e out by (auto simp: entry_holds_def eq_ignore_ascii_case_def)
  qed
  have "list_all2 (entry_holds svc fs ?mp verify) (map fst parts) contents \<longleftrightarrow> map (read_file fs) (map snd parts) = map Some contents"
    for contents
    using holds by (auto simp: list_all2_conv_all_nth list_eq_iff_nth_eq)
  then show ?thesis unfolding load load_parts_Inr m(5) load_model_from_burnpack_part_bytes_def by simp
qed

section \<open>A new split\<close>

lemma new_split_on_disk:
  assumes "write_burnpack_parts svc fs p mib overwrite = (Inr report, fs')"
    and "overwrite \<or> \<not> path_exists fs (burnpack_parts_manifest_path p)" and "path_ok p" and "services_lawful svc"
    and "\<And>s. read_file fs p = Some s \<Longrightarrow> spans_fit svc s"
  shows "\<exists>source groups parts modified. read_file fs p = Some source \<and> read_file fs' p = Some source
    \<and> modified = (case file_modified_unix_ms fs' p of None \<Rightarrow> 0 | Some t \<Rightarrow> t)
    \<and> parts_on_disk svc p (max 1 mib * one_mib) (length source) modified source groups parts report fs'"
proof -
  obtain source groups parts modified where s: "read_file fs p = Some source" "fs_files fs' p = fs_files fs p"
    "modified = (case file_modified_unix_ms fs p of None \<Rightarrow> 0 | Some t \<Rightarrow> t)"
    "parts_on_disk svc p (max 1 mib * one_mib) (length source) modified source groups parts report fs'"
    using write_burnpack_parts_spec [OF assms] by blast
  have "read_file fs' p = Some source" "file_modified_unix_ms fs' p = file_modified_unix_ms fs p"
    using s(1,2) by (auto simp: read_file_def file_modified_unix_ms_def metadata_of_def split: option.splits)
  then show ?thesis using s by metis
qed

lemma new_split_load:
  assumes "write_burnpack_parts svc fs p mib overwrite = (Inr report, fs')"
    and "overwrite \<or> \<not> path_exists fs (burnpack_parts_manifest_path p)" and "path_ok p" and "services_lawful svc"
    and "\<And>s. read_file fs p = Some s \<Longrightarrow> spans_fit svc s"
  shows "try_load_model_from_burnpack_parts svc apply_pack fs' [p] verify init = Inr (Some r) \<longleftrightarrow>
    (\<exists>contents. map (read_file fs') (pr_part_paths report) = map Some contents
       \<and> load_model_from_burnpack_part_bytes apply_pack contents init = Inr r)"
proof -
  obtain source groups parts modified where "read_file fs' p = Some source"
    "modified = (case file_modified_unix_ms fs' p of None \<Rightarrow> 0 | Some t \<Rightarrow> t)"
    "parts_on_disk svc p (max 1 mib * one_mib) (length source) modified source groups parts report fs'"
    using new_split_on_disk [OF assms] by blast
  then show ?thesis by (intro on_disk_load [OF _ assms(4,3)])
qed

end
