(* ===== verification/Checkpoint_Samples.thy ===== *)
theory Checkpoint_Samples
  imports Checkpoint_Parts_Proofs
begin

text \<open>A burnpack of one tensor, services that know its metadata and its manifest, and its parts.\<close>

definition bpk_descriptor :: "unit raw_descriptor" where
  "bpk_descriptor = \<lparr> td_dtype = (), td_shape = [1], td_offsets = (0, 1), td_param_id = None \<rparr>"

definition bpk_metadata :: "unit raw_metadata" where
  "bpk_metadata = \<lparr> md_tensors = [(''w'', bpk_descriptor)], md_metadata = [] \<rparr>"

definition bpk_pack :: string where
  "bpk_pack = pack_front 1 ''M'' @ ''x''"

definition bpk_manifest :: parts_manifest where
  "bpk_manifest =
     \<lparr> pm_version = 1, pm_source_file = ''m.bpk'', pm_source_modified = 7, pm_total_bytes = 257,
       pm_max_part_bytes = one_mib,
       pm_parts = [\<lparr> pe_path = ''m.bpk.part-00000.bpk'', pe_bytes = 257, pe_sha = ''d'', pe_tensors = 1 \<rparr>] \<rparr>"

definition bpk_services :: "unit pack_services" where
  "bpk_services =
     \<lparr> to_cbor = (\<lambda>m. if m = bpk_metadata then Some ''M'' else None),
       from_cbor = (\<lambda>b. if b = ''M'' then Some bpk_metadata else None),
       to_json = (\<lambda>m. if m = bpk_manifest then Some ''J'' else None),
       from_json = (\<lambda>b. if b = ''J'' then Some bpk_manifest else None),
       sha256 = (\<lambda>b. ''d'') \<rparr>"

definition bpk_path :: fs_path where
  "bpk_path = FsPath True [''m.bpk'']"

definition bpk_part_path :: fs_path where
  "bpk_part_path = FsPath True [''m.bpk.part-00000.bpk'']"

definition bpk_manifest_path :: fs_path where
  "bpk_manifest_path = FsPath True [''m.bpk.parts.json'']"

definition bpk_fs :: file_system where
  "bpk_fs =
     \<lparr> fs_files = [bpk_path \<mapsto> \<lparr> file_bytes = bpk_pack, file_modified = Some 7 \<rparr>], fs_dirs = {},
       fs_dir_info = (\<lambda>p. (0, None)), fs_now = Some 9 \<rparr>"

definition bpk_report :: parts_report where
  "bpk_report =
     \<lparr> pr_manifest_path = bpk_manifest_path, pr_part_paths = [bpk_part_path], pr_total_bytes = 257 \<rparr>"

definition bpk_fs_after :: file_system where
  "bpk_fs_after = bpk_fs
     \<lparr> fs_files := (fs_files bpk_fs)(bpk_part_path \<mapsto> \<lparr> file_bytes = bpk_pack, file_modified = Some 9 \<rparr>,
         bpk_manifest_path \<mapsto> \<lparr> file_bytes = ''J'', file_modified = Some 9 \<rparr>),
       fs_dirs := {FsPath True []} \<rparr>"

lemma bpk_start: "aligned_data_section_start 1 = 256"
  by (simp add: aligned_data_section_start_def align_offset_def burnpack_header_size_def tensor_alignment_def)

lemma bpk_front: "length (pack_front 1 ''M'') = 256"
proof -
  have "length ''M'' < 2 ^ 32" by simp
  from length_pack_front [OF this] show ?thesis using bpk_start by simp
qed

lemmas bpk_front_Suc = bpk_front [unfolded One_nat_def]

lemma bpk_length: "length bpk_pack = 257"
  by (simp add: bpk_pack_def bpk_front_Suc)

lemma bpk_metadata_ok: "metadata_ok bpk_metadata"
  by (simp add: metadata_ok_def bpk_metadata_def btree_ok_def)

lemma bpk_lawful: "services_lawful bpk_services"
  using bpk_metadata_ok
  by (auto simp: services_lawful_def cbor_ok_def json_ok_def digest_ok_def bpk_services_def graphic_def split: if_splits)

lemma bpk_read: "read_burnpack_metadata bpk_services bpk_pack = Inr (1, 1, bpk_metadata)"
  using read_metadata_front [of "''M''" 1 bpk_services bpk_metadata "''x''"]
  by (simp add: bpk_pack_def bpk_services_def)

lemma bpk_fits: "read_file bpk_fs bpk_path = Some s \<Longrightarrow> spans_fit bpk_services s"
  using bpk_read
  by (auto simp: read_file_def bpk_fs_def spans_fit_def pack_span_def bpk_metadata_def bpk_descriptor_def tensor_len_def)

lemma bpk_paths:
  "path_ok bpk_path" "file_name bpk_path = Some ''m.bpk''" "parent_of bpk_path = Some (FsPath True [])"
  "burnpack_parts_manifest_path bpk_path = bpk_manifest_path" "part_path bpk_path ''m.bpk'' 0 = bpk_part_path"
proof -
  have plain: "plain_name ''m.bpk''" by (simp add: plain_name_def proper_component_def)
  then show ok: "path_ok bpk_path" by (simp add: path_ok_def bpk_path_def)
  show name: "file_name bpk_path = Some ''m.bpk''" by (simp add: file_name_def bpk_path_def)
  show "parent_of bpk_path = Some (FsPath True [])" by (simp add: parent_of_def bpk_path_def)
  show "burnpack_parts_manifest_path bpk_path = bpk_manifest_path"
    unfolding manifest_path_eq [OF ok name] by (simp add: bpk_path_def bpk_manifest_path_def)
  have "pad_five 0 = ''00000''" by code_simp
  then show "part_path bpk_path ''m.bpk'' 0 = bpk_part_path"
    unfolding part_path_eq [OF ok name] by (simp add: part_name_def bpk_path_def bpk_part_path_def)
qed

lemma bpk_groups:
  "split_tensor_records bpk_services (tensor_records bpk_metadata) one_mib []
    = [[\<lparr> tr_name = ''w'', tr_descriptor = bpk_descriptor \<rparr>]]"
  by (simp add: split_tensor_records_def tensor_records_def bpk_metadata_def)

lemma bpk_place:
  "fst (place_tensors [\<lparr> tr_name = ''w'', tr_descriptor = bpk_descriptor \<rparr>] 0 []) = md_tensors bpk_metadata"
  by (simp add: bpk_descriptor_def bpk_metadata_def tensor_len_def align_offset_def tensor_alignment_def
      sat_add_def usize_max_def btree_insert_def)

lemma bpk_data:
  "write_tensors bpk_pack 256 (md_tensors bpk_metadata) 256 [\<lparr> tr_name = ''w'', tr_descriptor = bpk_descriptor \<rparr>]
     (pack_front 1 ''M'') = (None, bpk_pack)"
proof -
  have "read_exact_at bpk_pack 256 1 = Some ''x''"
    by (simp add: read_exact_at_def bpk_length) (simp add: bpk_pack_def bpk_front_Suc)
  then show ?thesis
    by (simp add: bpk_metadata_def bpk_descriptor_def tensor_len_def pad_to_def bpk_front_Suc zeros_def
        bpk_pack_def usize_max_def)
qed

lemma bpk_ancestors: "ancestors (FsPath True []) = {FsPath True []}"
  by (simp add: ancestors_def)

lemma bpk_distinct:
  "bpk_part_path \<noteq> bpk_path" "bpk_manifest_path \<noteq> bpk_path" "bpk_part_path \<noteq> bpk_manifest_path"
  "parent_of bpk_part_path = Some (FsPath True [])" "parent_of bpk_manifest_path = Some (FsPath True [])"
  by (simp_all add: bpk_part_path_def bpk_manifest_path_def bpk_path_def parent_of_def)

lemma bpk_write_part:
  "write_burnpack_part bpk_services fs bpk_pack bpk_part_path 1 256 [] [\<lparr> tr_name = ''w'', tr_descriptor = bpk_descriptor \<rparr>]
    = (case ensure_parent_dir fs bpk_part_path of
         None \<Rightarrow> (Some (DirectoryUncreatable bpk_part_path), fs)
       | Some fs1 \<Rightarrow> (case write_file fs1 bpk_part_path bpk_pack of
           None \<Rightarrow> (Some (FileUncreatable bpk_part_path), fs1) | Some fs2 \<Rightarrow> (None, fs2)))"
proof -
  have cbor: "to_cbor bpk_services \<lparr> md_tensors = md_tensors bpk_metadata, md_metadata = [] \<rparr> = Some ''M''"
    by (simp add: bpk_services_def bpk_metadata_def)
  have start: "aligned_data_section_start (length ''M'') = 256" using bpk_start by simp
  show ?thesis
    unfolding write_burnpack_part_def Let_def bpk_place cbor option.case start bpk_data prod.case
    by simp
qed

lemma bpk_written:
  "write_burnpack_parts bpk_services bpk_fs bpk_path 1 True = (Inr bpk_report, bpk_fs_after)"
proof -
  let ?fs1 = "bpk_fs\<lparr> fs_dirs := {FsPath True []} \<rparr>"
  let ?fs2 = "?fs1\<lparr> fs_files := (fs_files bpk_fs)(bpk_part_path \<mapsto> \<lparr> file_bytes = bpk_pack, file_modified = Some 9 \<rparr>) \<rparr>"
  have files: "fs_files bpk_fs bpk_path = Some \<lparr> file_bytes = bpk_pack, file_modified = Some 7 \<rparr>"
    "fs_files bpk_fs bpk_manifest_path = None" "fs_files bpk_fs bpk_part_path = None"
    "fs_files bpk_fs (FsPath True []) = None" "fs_dirs bpk_fs = {}" "fs_now bpk_fs = Some 9"
    using bpk_distinct(1,2) by (simp_all add: bpk_fs_def) (simp add: bpk_path_def)
  have dirs: "components bpk_path = [''m.bpk'']" "components bpk_part_path \<noteq> []" "components bpk_manifest_path \<noteq> []"
    by (simp_all add: bpk_path_def bpk_part_path_def bpk_manifest_path_def)
  have root: "FsPath True [] \<noteq> bpk_path" "FsPath True [] \<noteq> bpk_part_path" "FsPath True [] \<noteq> bpk_manifest_path"
    by (simp_all add: bpk_path_def bpk_part_path_def bpk_manifest_path_def)
  have parent: "ensure_parent_dir bpk_fs bpk_manifest_path = Some ?fs1" "ensure_parent_dir ?fs1 bpk_part_path = Some ?fs1"
    using files by (simp_all add: ensure_parent_dir_def bpk_distinct create_dir_all_def bpk_ancestors is_file_def)
  have w1: "write_file ?fs1 bpk_part_path bpk_pack = Some ?fs2"
    using dirs(2) root files by (simp add: write_file_def is_dir_def bpk_distinct)
  have groups: "write_groups bpk_services bpk_path ''m.bpk'' True bpk_pack 1 256 [] 0
      [[\<lparr> tr_name = ''w'', tr_descriptor = bpk_descriptor \<rparr>]] ?fs1
    = (Inr [(\<lparr> pe_path = part_name ''m.bpk'' 0, pe_bytes = 257, pe_sha = ''d'', pe_tensors = 1 \<rparr>, bpk_part_path)], ?fs2)"
  proof -
    have "\<not> path_exists ?fs1 bpk_part_path" using files dirs(2) root by (simp add: path_exists_def is_file_def is_dir_def)
    moreover have "write_burnpack_part bpk_services ?fs1 bpk_pack bpk_part_path 1 256 []
        [\<lparr> tr_name = ''w'', tr_descriptor = bpk_descriptor \<rparr>] = (None, ?fs2)"
      unfolding bpk_write_part parent(2) using w1 by simp
    moreover have "metadata_of ?fs2 bpk_part_path = Some (257, Some 9)" by (simp add: metadata_of_def bpk_length)
    moreover have "sha256_file bpk_services ?fs2 bpk_part_path = Inr ''d''"
      by (simp add: sha256_file_def read_file_def bpk_services_def)
    moreover have "with_file_name bpk_path (part_name ''m.bpk'' 0) = bpk_part_path" using bpk_paths(5) by (simp add: part_path_def)
    ultimately show ?thesis by (simp del: One_nat_def)
  qed
  have name: "part_name ''m.bpk'' 0 = ''m.bpk.part-00000.bpk''" by code_simp
  have json: "to_json bpk_services \<lparr> pm_version = 1, pm_source_file = ''m.bpk'', pm_source_modified = 7, pm_total_bytes = 257,
      pm_max_part_bytes = one_mib, pm_parts = [\<lparr> pe_path = part_name ''m.bpk'' 0, pe_bytes = 257, pe_sha = ''d'', pe_tensors = 1 \<rparr>] \<rparr>
    = Some ''J''"
    unfolding name by (simp add: bpk_services_def bpk_manifest_def)
  have w2: "write_file ?fs2 bpk_manifest_path ''J'' = Some bpk_fs_after"
    using dirs(3) root files by (simp add: write_file_def is_dir_def bpk_distinct bpk_fs_after_def)
  have md: "md_tensors bpk_metadata \<noteq> []" "md_metadata bpk_metadata = []" by (simp_all add: bpk_metadata_def)
  have "write_new_parts bpk_services bpk_path one_mib True 257 7 ?fs1 = (Inr bpk_report, bpk_fs_after)"
    unfolding write_new_parts_def Let_def bpk_paths(2,4) using files(1) md groups json w2
    by (simp add: read_file_def bpk_read bpk_start bpk_groups bpk_report_def del: One_nat_def)
  moreover have "path_exists bpk_fs bpk_path" "\<not> path_exists bpk_fs bpk_manifest_path"
    "metadata_of bpk_fs bpk_path = Some (257, Some 7)" "file_modified_unix_ms bpk_fs bpk_path = Some 7"
    using files dirs(3) by (simp_all add: path_exists_def is_file_def is_dir_def metadata_of_def bpk_length file_modified_unix_ms_def)
  moreover have "cleanup_existing_parts bpk_services bpk_fs bpk_manifest_path = (None, bpk_fs)"
    using files by (simp add: cleanup_existing_parts_def read_parts_manifest_def read_file_def)
  moreover have "one_mib \<le> usize_max" by (simp add: one_mib_def usize_max_def)
  ultimately show ?thesis
    using parent(1) by (simp add: write_burnpack_parts_def bpk_paths Let_def not_less)
qed

end
