(* ===== verification/Checkpoint_Parts_Properties.thy ===== *)
theory Checkpoint_Parts_Properties
  imports Checkpoint_Disk Checkpoint_Samples
begin

text \<open>The properties of burnpack parts, \<open>parts.rs\<close>, with a burnpack of one tensor as their instance.\<close>

lemmas bpk_write = bpk_written disjI1 [OF TrueI] bpk_paths(1) bpk_lawful bpk_fits

lemma bpk_loaded:
  "try_load_model_from_burnpack_parts bpk_services (\<lambda>m b. Inr (m @ b, {''w''})) bpk_fs_after [bpk_path] True []
    = Inr (Some (bpk_pack, {''w''}))"
proof -
  have files: "map (read_file bpk_fs_after) (pr_part_paths bpk_report) = map Some [bpk_pack]"
    using bpk_distinct(3) by (simp add: bpk_report_def read_file_def bpk_fs_after_def)
  have "load_model_from_burnpack_part_bytes (\<lambda>m b. Inr (m @ b, {''w''})) [bpk_pack] [] = Inr (bpk_pack, {''w''})"
    by (simp add: load_model_from_burnpack_part_bytes_def)
  with files show ?thesis by (intro new_split_load [OF bpk_write, THEN iffD2] exI [of _ "[bpk_pack]"] conjI)
qed

text \<open>C10: the parts hold the tensors. After a burnpack is split anew, every part is a readable burnpack, no
  tensor is in two parts, and together they hold exactly the tensors of the burnpack, with their type,
  shape, parameter and bytes.\<close>
theorem parts_hold_the_tensors:
  assumes "write_burnpack_parts svc fs p mib overwrite = (Inr report, fs')"
    and "overwrite \<or> \<not> path_exists fs (burnpack_parts_manifest_path p)" and "path_ok p" and "services_lawful svc"
    and "\<And>s. read_file fs p = Some s \<Longrightarrow> spans_fit svc s"
  shows "\<exists>source views. read_file fs p = Some source
    \<and> map (\<lambda>q. Option.bind (read_file fs' q) (pack_view svc)) (pr_part_paths report) = map Some views
    \<and> pack_view svc source = Some (foldr (++) views Map.empty)
    \<and> (\<forall>i j. i < j \<and> j < length views \<longrightarrow> dom (views ! i) \<inter> dom (views ! j) = {})"
  using new_split_on_disk [OF assms] on_disk_views assms(4,5) by metis

theorem parts_hold_the_tensors_witness:
  "\<exists>source views. read_file bpk_fs bpk_path = Some source
    \<and> map (\<lambda>q. Option.bind (read_file bpk_fs_after q) (pack_view bpk_services)) (pr_part_paths bpk_report) = map Some views
    \<and> pack_view bpk_services source = Some (foldr (++) views Map.empty)
    \<and> (\<forall>i j. i < j \<and> j < length views \<longrightarrow> dom (views ! i) \<inter> dom (views ! j) = {})"
  by (rule parts_hold_the_tensors [OF bpk_write])

text \<open>C12: parts keep to the size limit. The manifest of a new split gives the true size of every part, every part has a
  tensor, and a part with more than one is no longer than the limit in bytes.\<close>
theorem parts_keep_to_the_limit:
  assumes "write_burnpack_parts svc fs p mib overwrite = (Inr report, fs')"
    and "overwrite \<or> \<not> path_exists fs (burnpack_parts_manifest_path p)" and "path_ok p" and "services_lawful svc"
    and "\<And>s. read_file fs p = Some s \<Longrightarrow> spans_fit svc s"
  shows "\<exists>manifest. read_parts_manifest svc fs' (pr_manifest_path report) = Inr manifest
    \<and> list_all2 (\<lambda>entry q. \<exists>out. read_file fs' q = Some out \<and> pe_bytes entry = length out
        \<and> 0 < pe_tensors entry \<and> (1 < pe_tensors entry \<longrightarrow> length out \<le> max 1 mib * one_mib))
      (pm_parts manifest) (pr_part_paths report)"
  using new_split_on_disk [OF assms] on_disk_sizes by blast

theorem parts_keep_to_the_limit_witness:
  "\<exists>manifest. read_parts_manifest bpk_services bpk_fs_after (pr_manifest_path bpk_report) = Inr manifest
    \<and> list_all2 (\<lambda>entry q. \<exists>out. read_file bpk_fs_after q = Some out \<and> pe_bytes entry = length out
        \<and> 0 < pe_tensors entry \<and> (1 < pe_tensors entry \<longrightarrow> length out \<le> max 1 1 * one_mib))
      (pm_parts manifest) (pr_part_paths bpk_report)"
  by (rule parts_keep_to_the_limit [OF bpk_write])

text \<open>C11: written parts are complete and are kept. After a new split the manifest is complete, and asking for the parts again
  without overwriting returns the same report and changes no file.\<close>
theorem written_parts_are_kept:
  assumes "write_burnpack_parts svc fs p mib overwrite = (Inr report, fs')"
    and "overwrite \<or> \<not> path_exists fs (burnpack_parts_manifest_path p)" and "path_ok p" and "services_lawful svc"
    and "\<And>s. read_file fs p = Some s \<Longrightarrow> spans_fit svc s" and "max 1 mib' * one_mib \<le> usize_max"
  shows "manifest_is_complete svc fs' (pr_manifest_path report) = Inr True
    \<and> write_burnpack_parts svc fs' p mib' False = (Inr report, fs')"
  using new_split_on_disk [OF assms(1-5)] on_disk_complete on_disk_kept assms(3,4,6) by blast

theorem written_parts_are_kept_witness:
  "manifest_is_complete bpk_services bpk_fs_after (pr_manifest_path bpk_report) = Inr True
    \<and> write_burnpack_parts bpk_services bpk_fs_after bpk_path 1 False = (Inr bpk_report, bpk_fs_after)"
proof (rule written_parts_are_kept [OF bpk_write])
  show "max 1 1 * one_mib \<le> usize_max" by (simp add: one_mib_def usize_max_def)
qed

text \<open>C13: loading applies the written parts in order. After a new split, loading the burnpack from its parts, with or
  without verification, gives a model exactly when applying the bytes of the parts in the order of the report does, and
  the same model and keys.\<close>
theorem loading_applies_the_written_parts:
  assumes "write_burnpack_parts svc fs p mib overwrite = (Inr report, fs')"
    and "overwrite \<or> \<not> path_exists fs (burnpack_parts_manifest_path p)" and "path_ok p" and "services_lawful svc"
    and "\<And>s. read_file fs p = Some s \<Longrightarrow> spans_fit svc s"
  shows "try_load_model_from_burnpack_parts svc apply_pack fs' [p] verify init = Inr (Some r) \<longleftrightarrow>
    (\<exists>contents. map (read_file fs') (pr_part_paths report) = map Some contents
       \<and> load_model_from_burnpack_part_bytes apply_pack contents init = Inr r)"
  by (rule new_split_load [OF assms])

theorem loading_applies_the_written_parts_witness:
  "\<exists>contents. map (read_file bpk_fs_after) (pr_part_paths bpk_report) = map Some contents
     \<and> load_model_from_burnpack_part_bytes (\<lambda>m b. Inr (m @ b, {''w''})) contents [] = Inr (bpk_pack, {''w''})"
  by (rule iffD1 [OF loading_applies_the_written_parts [OF bpk_write] bpk_loaded])

text \<open>C14: only checked parts are loaded. A model loaded from parts comes from a candidate whose manifest is read and fits the
  burnpack beside it, and was given the files of the manifest in order, each of the recorded length and, under verification,
  of the recorded digest.\<close>
theorem loaded_parts_are_checked:
  assumes "try_load_model_from_burnpack_parts svc apply_pack fs candidates verify init = Inr (Some r)"
  shows "\<exists>candidate\<in>set candidates. \<exists>manifest contents.
    read_parts_manifest svc fs (burnpack_parts_manifest_path candidate) = Inr manifest
    \<and> (path_exists fs candidate \<longrightarrow> manifest_matches_source_file fs manifest candidate)
    \<and> list_all2 (entry_holds svc fs (burnpack_parts_manifest_path candidate) verify) (pm_parts manifest) contents
    \<and> load_model_from_burnpack_part_bytes apply_pack contents init = Inr r"
  using try_load_parts_Some [OF assms [unfolded try_load_model_from_burnpack_parts_def]]
  unfolding load_parts_Inr load_model_from_burnpack_part_bytes_def by blast

theorem loaded_parts_are_checked_witness:
  "\<exists>candidate\<in>set [bpk_path]. \<exists>manifest contents.
    read_parts_manifest bpk_services bpk_fs_after (burnpack_parts_manifest_path candidate) = Inr manifest
    \<and> (path_exists bpk_fs_after candidate \<longrightarrow> manifest_matches_source_file bpk_fs_after manifest candidate)
    \<and> list_all2 (entry_holds bpk_services bpk_fs_after (burnpack_parts_manifest_path candidate) True) (pm_parts manifest) contents
    \<and> load_model_from_burnpack_part_bytes (\<lambda>m b. Inr (m @ b, {''w''})) contents [] = Inr (bpk_pack, {''w''})"
  by (rule loaded_parts_are_checked [OF bpk_loaded])

end
