(* ===== verification/Checkpoint_Bootstrap.thy ===== *)
theory Checkpoint_Bootstrap
  imports Checkpoint_Parts
begin

text \<open>
  Finding a burnpack in the cache or downloading it (\<open>bootstrap.rs\<close>). The network is an argument:
  the answer to the n-th request, counted from the start of the program. A function that may ask
  the network returns the number of requests made so far and, when it writes files, the file
  system. Timeouts and the waiting between attempts are left out.
\<close>

section \<open>Addresses\<close>

text \<open>\<open>str::rsplit_once\<close>: around the last occurrence.\<close>

definition rsplit_once :: "char \<Rightarrow> string \<Rightarrow> (string \<times> string) option" where
  "rsplit_once c s =
     (if c \<in> set s then
        let tail = rev (takeWhile (\<lambda>x. x \<noteq> c) (rev s))
        in Some (take (length s - length tail - 1) s, tail)
      else None)"

definition with_file_like_suffix :: "string \<Rightarrow> string \<Rightarrow> string" where
  "with_file_like_suffix p ending =
     (case rsplit_once (CHR ''.'') p of
        Some (stem, ext) \<Rightarrow> if \<not> ends_with stem ending then stem @ ending @ ''.'' @ ext else p
      | None \<Rightarrow> if \<not> ends_with p ending then p @ ending else p)"

definition with_url_stem_suffix :: "string \<Rightarrow> string \<Rightarrow> string" where
  "with_url_stem_suffix url ending =
     (case rsplit_once (CHR ''/'') url of
        None \<Rightarrow> with_file_like_suffix url ending
      | Some (front, tail) \<Rightarrow> (front @ ''/'') @ with_file_like_suffix tail ending)"

definition burnpack_url :: "string \<Rightarrow> bool \<Rightarrow> string \<Rightarrow> string" where
  "burnpack_url base_url use_f16 ending =
     (let base = (if ends_with base_url ''.bpk'' then base_url else base_url @ ''.bpk'')
      in if use_f16 then with_url_stem_suffix base ending else base)"

definition candidate_burnpack_urls :: "string \<Rightarrow> load_policy \<Rightarrow> string list" where
  "candidate_burnpack_urls base_url policy =
     (let f32 = burnpack_url base_url False (lp_f16_suffix policy);
          f16 = burnpack_url base_url True (lp_f16_suffix policy)
      in if f16 = f32 then [f32]
         else if lp_precision policy = PreferF16 then [f16, f32]
         else [f32, f16])"

definition starts_with :: "string \<Rightarrow> string \<Rightarrow> bool" where
  "starts_with s front \<longleftrightarrow> take (length front) s = front"

definition trim_slashes_start :: "string \<Rightarrow> string" where
  "trim_slashes_start s = dropWhile (\<lambda>c. c = CHR ''/'') s"

definition trim_slashes_end :: "string \<Rightarrow> string" where
  "trim_slashes_end s = rev (dropWhile (\<lambda>c. c = CHR ''/'') (rev s))"

definition resolve_manifest_entry_url :: "string \<Rightarrow> string \<Rightarrow> string" where
  "resolve_manifest_entry_url manifest_url entry_path =
     (if starts_with entry_path ''http://'' \<or> starts_with entry_path ''https://'' then entry_path
      else
        let base = (case rsplit_once (CHR ''/'') manifest_url of None \<Rightarrow> [] | Some (left, _) \<Rightarrow> left)
        in if base = [] then trim_slashes_start entry_path
           else trim_slashes_end base @ ''/'' @ trim_slashes_start entry_path)"

section \<open>Configuration\<close>

record bootstrap_config =
  bc_cache_root :: "fs_path option"
  bc_prefer_parts :: bool
  bc_verify_checksums :: bool
  bc_load_policy :: load_policy

definition default_bootstrap_config :: bootstrap_config where
  "default_bootstrap_config =
     \<lparr> bc_cache_root = None, bc_prefer_parts = True, bc_verify_checksums = True, bc_load_policy = default_load_policy \<rparr>"

datatype bootstrap_error =
  NoHomeDirectory | CacheUncreatable fs_path | DownloadBroken string | DownloadFailed string
| ResourceMissing string | AttemptsExhausted string nat | TemporaryUnwritable fs_path | MoveFailed fs_path
| CacheDirectoryUncreatable fs_path | ManifestDirectoryUncreatable fs_path | PartsUnusable parts_error
| NothingResolved fs_path

text \<open>The environment variables are the argument \<open>env\<close>.\<close>

definition default_cache_root :: "(string \<Rightarrow> string option) \<Rightarrow> bootstrap_error + fs_path" where
  "default_cache_root env =
     (case env ''BURN_DRAGON_CACHE_DIR'' of
        Some explicit \<Rightarrow> Inr (parse_path explicit)
      | None \<Rightarrow>
          (case env ''HOME'' of
             None \<Rightarrow> Inl NoHomeDirectory
           | Some home \<Rightarrow>
               Inr (path_join (path_join (path_join (parse_path home) (parse_path ''.cache'')) (parse_path ''burn_dragon''))
                      (parse_path ''models''))))"

definition resolve_local_base :: "fs_path \<Rightarrow> fs_path \<Rightarrow> fs_path" where
  "resolve_local_base local_base cache_root =
     (if is_absolute local_base then local_base else path_join cache_root local_base)"

section \<open>Downloads\<close>

text \<open>An answer: a body, a body that breaks off, an error status, or no answer.\<close>

datatype answer = Body string | BrokenBody | ErrorStatus nat | NoAnswer

type_synonym network = "nat \<Rightarrow> string \<Rightarrow> answer"

definition download_optional_bytes :: "network \<Rightarrow> string \<Rightarrow> nat \<Rightarrow> (bootstrap_error + string option) \<times> nat" where
  "download_optional_bytes net url n =
     ((case net n url of
         Body bytes \<Rightarrow> Inr (Some bytes)
       | BrokenBody \<Rightarrow> Inl (DownloadBroken url)
       | ErrorStatus code \<Rightarrow> if code = 403 \<or> code = 404 then Inr None else Inl (DownloadFailed url)
       | NoAnswer \<Rightarrow> Inl (DownloadFailed url)), n + 1)"

definition download_attempts :: nat where
  "download_attempts = 4"

function download_loop :: "network \<Rightarrow> string \<Rightarrow> nat \<Rightarrow> nat \<Rightarrow> (bootstrap_error + string) \<times> nat" where
  "download_loop net url attempt n =
     (case download_optional_bytes net url n of
        (Inr (Some bytes), n') \<Rightarrow> (Inr bytes, n')
      | (Inr None, n') \<Rightarrow> (Inl (ResourceMissing url), n')
      | (Inl e, n') \<Rightarrow>
          if download_attempts \<le> attempt + 1 then (Inl (AttemptsExhausted url (attempt + 1)), n')
          else download_loop net url (attempt + 1) n')"
  by pat_completeness auto
termination
  by (relation "measure (\<lambda>(net, url, attempt, n). download_attempts - attempt)") auto

declare download_loop.simps [simp del]

definition download_required_bytes :: "network \<Rightarrow> string \<Rightarrow> nat \<Rightarrow> (bootstrap_error + string) \<times> nat" where
  "download_required_bytes net url n = download_loop net url 0 n"

text \<open>The file appears under its name only once it is complete.\<close>

definition write_bytes_atomically :: "file_system \<Rightarrow> fs_path \<Rightarrow> string \<Rightarrow> bootstrap_error option \<times> file_system" where
  "write_bytes_atomically fs p bytes =
     (let temp_path = with_extension p ((case extension_of p of None \<Rightarrow> [] | Some ext \<Rightarrow> ext) @ ''.partial'') in
      case write_file fs temp_path bytes of
        None \<Rightarrow> (Some (TemporaryUnwritable temp_path), fs)
      | Some fs1 \<Rightarrow>
          (case rename_file fs1 temp_path p of
             None \<Rightarrow> (Some (MoveFailed p), fs1)
           | Some fs2 \<Rightarrow> (None, fs2)))"

definition ensure_file_cached ::
    "network \<Rightarrow> file_system \<Rightarrow> fs_path \<Rightarrow> string \<Rightarrow> nat \<Rightarrow> bootstrap_error option \<times> file_system \<times> nat" where
  "ensure_file_cached net fs p url n =
     (if is_file fs p then (None, fs, n)
      else case ensure_parent_dir fs p of
        None \<Rightarrow> (Some (CacheDirectoryUncreatable p), fs, n)
      | Some fs1 \<Rightarrow>
          (case download_required_bytes net url n of
             (Inl e, n1) \<Rightarrow> (Some e, fs1, n1)
           | (Inr bytes, n1) \<Rightarrow> (case write_bytes_atomically fs1 p bytes of (e, fs2) \<Rightarrow> (e, fs2, n1))))"

section \<open>Resolving a burnpack\<close>

text \<open>The parts of a manifest that are not cached yet: whether all of them are in place.\<close>

fun fetch_parts ::
    "'v pack_services \<Rightarrow> network \<Rightarrow> bool \<Rightarrow> fs_path \<Rightarrow> string \<Rightarrow> part_entry list \<Rightarrow> file_system \<Rightarrow> nat
      \<Rightarrow> (bootstrap_error + bool) \<times> file_system \<times> nat" where
  "fetch_parts svc net verify_checksums manifest_path manifest_url [] fs n = (Inr True, fs, n)"
| "fetch_parts svc net verify_checksums manifest_path manifest_url (part # parts) fs n =
     (case resolve_part_entry_path manifest_path (pe_path part) of
        Inl e \<Rightarrow> (Inl (PartsUnusable e), fs, n)
      | Inr p \<Rightarrow>
          (case part_matches_cache svc fs p part of
             Inl e \<Rightarrow> (Inl (PartsUnusable e), fs, n)
           | Inr True \<Rightarrow> fetch_parts svc net verify_checksums manifest_path manifest_url parts fs n
           | Inr False \<Rightarrow>
               (case ensure_file_cached net fs p (resolve_manifest_entry_url manifest_url (pe_path part)) n of
                  (Some e, fs1, n1) \<Rightarrow> (Inr False, fs1, n1)
                | (None, fs1, n1) \<Rightarrow>
                    if verify_checksums then
                      (case part_matches_cache svc fs1 p part of
                         Inl e \<Rightarrow> (Inl (PartsUnusable e), fs1, n1)
                       | Inr False \<Rightarrow> (Inr False, fs1, n1)
                       | Inr True \<Rightarrow> fetch_parts svc net verify_checksums manifest_path manifest_url parts fs1 n1)
                    else fetch_parts svc net verify_checksums manifest_path manifest_url parts fs1 n1)))"

definition bootstrap_parts ::
    "'v pack_services \<Rightarrow> network \<Rightarrow> bool \<Rightarrow> fs_path \<Rightarrow> string \<Rightarrow> file_system \<Rightarrow> nat
      \<Rightarrow> (bootstrap_error + bool) \<times> file_system \<times> nat" where
  "bootstrap_parts svc net verify_checksums manifest_path manifest_url fs n =
     (case download_optional_bytes net manifest_url n of
        (Inl _, n1) \<Rightarrow> (Inr False, fs, n1)
      | (Inr None, n1) \<Rightarrow> (Inr False, fs, n1)
      | (Inr (Some manifest_bytes), n1) \<Rightarrow>
          (case ensure_parent_dir fs manifest_path of
             None \<Rightarrow> (Inl (ManifestDirectoryUncreatable manifest_path), fs, n1)
           | Some fs1 \<Rightarrow>
               (case write_bytes_atomically fs1 manifest_path manifest_bytes of
                  (Some e, fs2) \<Rightarrow> (Inl e, fs2, n1)
                | (None, fs2) \<Rightarrow>
                    (case read_parts_manifest svc fs2 manifest_path of
                       Inl e \<Rightarrow> (Inl (PartsUnusable e), fs2, n1)
                     | Inr manifest \<Rightarrow>
                         if pm_parts manifest = [] then (Inr False, fs2, n1)
                         else
                           (case fetch_parts svc net verify_checksums manifest_path manifest_url (pm_parts manifest) fs2 n1 of
                              (Inl e, fs3, n2) \<Rightarrow> (Inl e, fs3, n2)
                            | (Inr manifest_ok, fs3, n2) \<Rightarrow>
                                (Inr (manifest_ok
                                      \<and> (case manifest_is_complete svc fs3 manifest_path of
                                           Inl _ \<Rightarrow> False | Inr complete \<Rightarrow> complete)), fs3, n2))))))"

fun resolve_candidates ::
    "'v pack_services \<Rightarrow> network \<Rightarrow> bootstrap_config \<Rightarrow> fs_path \<Rightarrow> (fs_path \<times> string) list \<Rightarrow> bootstrap_error option
      \<Rightarrow> file_system \<Rightarrow> nat \<Rightarrow> (bootstrap_error + fs_path) \<times> file_system \<times> nat" where
  "resolve_candidates svc net config local_base [] last_error fs n =
     (Inl (case last_error of None \<Rightarrow> NothingResolved local_base | Some e \<Rightarrow> e), fs, n)"
| "resolve_candidates svc net config local_base ((local_candidate, remote_candidate) # rest) last_error fs n =
     (let manifest_path = burnpack_parts_manifest_path local_candidate in
      if (case manifest_is_complete svc fs manifest_path of Inl _ \<Rightarrow> False | Inr complete \<Rightarrow> complete)
      then (Inr local_candidate, fs, n)
      else if is_file fs local_candidate then (Inr local_candidate, fs, n)
      else
        case (if bc_prefer_parts config
              then bootstrap_parts svc net (bc_verify_checksums config) manifest_path
                     (remote_candidate @ ''.parts.json'') fs n
              else (Inr False, fs, n)) of
          (Inl e, fs1, n1) \<Rightarrow> (Inl e, fs1, n1)
        | (Inr True, fs1, n1) \<Rightarrow> (Inr local_candidate, fs1, n1)
        | (Inr False, fs1, n1) \<Rightarrow>
            (case ensure_file_cached net fs1 local_candidate remote_candidate n1 of
               (None, fs2, n2) \<Rightarrow> (Inr local_candidate, fs2, n2)
             | (Some e, fs2, n2) \<Rightarrow> resolve_candidates svc net config local_base rest (Some e) fs2 n2))"

definition resolve_or_bootstrap_burnpack ::
    "'v pack_services \<Rightarrow> network \<Rightarrow> (string \<Rightarrow> string option) \<Rightarrow> fs_path \<Rightarrow> string \<Rightarrow> bootstrap_config
      \<Rightarrow> file_system \<Rightarrow> nat \<Rightarrow> (bootstrap_error + fs_path) \<times> file_system \<times> nat" where
  "resolve_or_bootstrap_burnpack svc net env local_base remote_base_url config fs n =
     (case (case bc_cache_root config of Some path \<Rightarrow> Inr path | None \<Rightarrow> default_cache_root env) of
        Inl e \<Rightarrow> (Inl e, fs, n)
      | Inr cache_root \<Rightarrow>
          (case create_dir_all fs cache_root of
             None \<Rightarrow> (Inl (CacheUncreatable cache_root), fs, n)
           | Some fs1 \<Rightarrow>
               let base = resolve_local_base local_base cache_root in
               resolve_candidates svc net config base
                 (zip (candidate_burnpack_paths base (bc_load_policy config))
                      (candidate_burnpack_urls remote_base_url (bc_load_policy config)))
                 None fs1 n))"

end
