(* ===== verification/Checkpoint_Bootstrap_Properties.thy ===== *)
theory Checkpoint_Bootstrap_Properties
  imports Checkpoint_Bootstrap Checkpoint_Disk Checkpoint_Samples
begin

text \<open>What finding and downloading a burnpack promises, \<open>bootstrap.rs\<close>, together with loading it.\<close>

section \<open>Downloads\<close>

text \<open>An answer after which the download is tried again.\<close>

definition transient :: "answer \<Rightarrow> bool" where
  "transient a \<longleftrightarrow> (case a of Body _ \<Rightarrow> False | BrokenBody \<Rightarrow> True | ErrorStatus code \<Rightarrow> code \<noteq> 403 \<and> code \<noteq> 404 | NoAnswer \<Rightarrow> True)"

lemma download_loop_step:
  "download_loop net url attempt n =
     (if transient (net n url) then
        (if download_attempts \<le> attempt + 1 then (Inl (AttemptsExhausted url (attempt + 1)), n + 1)
         else download_loop net url (attempt + 1) (n + 1))
      else (case net n url of Body bytes \<Rightarrow> Inr bytes | _ \<Rightarrow> Inl (ResourceMissing url), n + 1))"
  by (subst download_loop.simps) (auto simp: download_optional_bytes_def transient_def split: answer.splits)

section \<open>Files\<close>

lemma write_file_read: "write_file fs p bytes = Some fs' \<Longrightarrow> read_file fs' p = Some bytes"
  by (auto simp: read_file_def dest!: write_file_Some)

lemma read_is_file: "read_file fs p = Some bytes \<Longrightarrow> is_file fs p"
  by (auto simp: read_file_def is_file_def)

lemma write_bytes_atomically_read:
  assumes "write_bytes_atomically fs p bytes = (None, fs')"
  shows "read_file fs' p = Some bytes"
proof -
  define temp where "temp = with_extension p ((case extension_of p of None \<Rightarrow> [] | Some ext \<Rightarrow> ext) @ ''.partial'')"
  obtain fs1 where w: "write_file fs temp bytes = Some fs1" and r: "rename_file fs1 temp p = Some fs'"
    using assms by (auto simp: write_bytes_atomically_def Let_def temp_def [symmetric] split: option.splits)
  have "fs_files fs1 temp = Some \<lparr> file_bytes = bytes, file_modified = fs_now fs \<rparr>" using write_file_Some [OF w] by simp
  then show ?thesis using r by (auto simp: rename_file_def read_file_def split: if_splits)
qed

lemma ensure_file_cached_file: "ensure_file_cached net fs p url n = (None, fs', n') \<Longrightarrow> is_file fs' p"
  by (auto simp: ensure_file_cached_def split: if_splits option.splits prod.splits sum.splits
      dest!: write_bytes_atomically_read read_is_file)

section \<open>Candidates\<close>

definition usable :: "'v pack_services \<Rightarrow> file_system \<Rightarrow> fs_path \<Rightarrow> bool" where
  "usable svc fs p \<longleftrightarrow> manifest_is_complete svc fs (burnpack_parts_manifest_path p) = Inr True \<or> is_file fs p"

lemma bootstrap_parts_complete:
  "bootstrap_parts svc net verify mp url fs n = (Inr True, fs', n') \<Longrightarrow> manifest_is_complete svc fs' mp = Inr True"
  by (auto simp: bootstrap_parts_def split: prod.splits sum.splits option.splits if_splits)

lemma resolve_candidates_usable:
  "resolve_candidates svc net config base candidates last_error fs n = (Inr p, fs', n') \<Longrightarrow>
     p \<in> fst ` set candidates \<and> usable svc fs' p"
proof (induction candidates arbitrary: last_error fs n)
  case (Cons c rest)
  obtain l r where c: "c = (l, r)" by fastforce
  let ?mp = "burnpack_parts_manifest_path l"
  show ?case
  proof (cases "usable svc fs l")
    case True
    then have "p = l \<and> fs' = fs" using Cons.prems by (auto simp: c usable_def Let_def split: if_splits sum.splits)
    then show ?thesis using True by (simp add: c)
  next
    case False
    define attempt where "attempt = (if bc_prefer_parts config
      then bootstrap_parts svc net (bc_verify_checksums config) ?mp (r @ ''.parts.json'') fs n else (Inr False, fs, n))"
    have step: "resolve_candidates svc net config base (c # rest) last_error fs n =
      (case attempt of
          (Inl e, fs1, n1) \<Rightarrow> (Inl e, fs1, n1)
        | (Inr True, fs1, n1) \<Rightarrow> (Inr l, fs1, n1)
        | (Inr False, fs1, n1) \<Rightarrow>
            (case ensure_file_cached net fs1 l r n1 of
               (None, fs2, n2) \<Rightarrow> (Inr l, fs2, n2)
             | (Some e, fs2, n2) \<Rightarrow> resolve_candidates svc net config base rest (Some e) fs2 n2))"
      using False by (auto simp: c usable_def Let_def attempt_def split: sum.split)
    obtain res fs1 n1 where a: "attempt = (res, fs1, n1)" by (cases attempt) auto
    show ?thesis
    proof (cases res)
      case (Inl e)
      then show ?thesis using Cons.prems unfolding step a by simp
    next
      case res: (Inr ok)
      show ?thesis
      proof (cases ok)
        case True
        then have "p = l" "fs' = fs1" using Cons.prems unfolding step a res by simp_all
        moreover have "manifest_is_complete svc fs1 ?mp = Inr True"
          using a True res bootstrap_parts_complete by (auto simp: attempt_def split: if_splits)
        ultimately show ?thesis by (simp add: c usable_def)
      next
        case no: False
        obtain e fs2 n2 where e: "ensure_file_cached net fs1 l r n1 = (e, fs2, n2)"
          by (cases "ensure_file_cached net fs1 l r n1") auto
        show ?thesis
        proof (cases e)
          case None
          then have "p = l" "fs' = fs2" using Cons.prems e unfolding step a res by (simp_all add: no)
          then show ?thesis using e None ensure_file_cached_file by (auto simp: c usable_def)
        next
          case (Some err)
          then have "resolve_candidates svc net config base rest (Some err) fs2 n2 = (Inr p, fs', n')"
            using Cons.prems e unfolding step a res by (simp add: no)
          then show ?thesis using Cons.IH by auto
        qed
      qed
    qed
  qed
qed simp

lemma set_zip_fst: "p \<in> fst ` set (zip xs ys) \<Longrightarrow> p \<in> set xs"
  by (auto dest: set_zip_leftD)

text \<open>The cache a configuration means: its own root, or the directory the environment names, or the one below the home.\<close>

definition cache_root_is :: "bootstrap_config \<Rightarrow> (string \<Rightarrow> string option) \<Rightarrow> fs_path \<Rightarrow> bool" where
  "cache_root_is config env root \<longleftrightarrow>
     bc_cache_root config = Some root
     \<or> bc_cache_root config = None
       \<and> ((\<exists>dir. env ''BURN_DRAGON_CACHE_DIR'' = Some dir \<and> root = parse_path dir)
          \<or> env ''BURN_DRAGON_CACHE_DIR'' = None
            \<and> (\<exists>home. env ''HOME'' = Some home
                 \<and> root = path_join (parse_path home) (FsPath False [''.cache'', ''burn_dragon'', ''models''])))"

lemma cache_components:
  "parse_path ''.cache'' = FsPath False [''.cache'']" "parse_path ''burn_dragon'' = FsPath False [''burn_dragon'']"
  "parse_path ''models'' = FsPath False [''models'']"
  by code_simp+

lemma cache_root_found:
  "(case bc_cache_root config of Some path \<Rightarrow> Inr path | None \<Rightarrow> default_cache_root env) = Inr root \<Longrightarrow> cache_root_is config env root"
  by (auto simp: cache_root_is_def default_cache_root_def cache_components path_join_def split: option.splits)

lemma resolve_local_base_join: "resolve_local_base local_base root = path_join root local_base"
  by (simp add: resolve_local_base_def path_join_def)

text \<open>A part in place: the path of its entry is there with the recorded size, when one is recorded, and with the recorded
  digest, when one is recorded.\<close>

definition part_in_place :: "'v pack_services \<Rightarrow> file_system \<Rightarrow> fs_path \<Rightarrow> part_entry \<Rightarrow> bool" where
  "part_in_place svc fs mp e \<longleftrightarrow>
     (\<exists>q size modified. resolve_part_entry_path mp (pe_path e) = Inr q \<and> metadata_of fs q = Some (size, modified)
        \<and> (pe_bytes e = 0 \<or> size = pe_bytes e)
        \<and> (str_trim (pe_sha e) = []
           \<or> (\<exists>bytes. read_file fs q = Some bytes \<and> eq_ignore_ascii_case (sha256 svc bytes) (str_trim (pe_sha e)))))"

lemma part_matches_in_place:
  assumes "resolve_part_entry_path mp (pe_path e) = Inr q" "part_matches_cache svc fs q e = Inr True"
  shows "part_in_place svc fs mp e"
proof -
  obtain size modified where m: "metadata_of fs q = Some (size, modified)" "\<not> (0 < pe_bytes e \<and> size \<noteq> pe_bytes e)"
    and sum: "str_trim (pe_sha e) = []
      \<or> result_bind (sha256_file svc fs q) (\<lambda>actual. Inr (eq_ignore_ascii_case actual (str_trim (pe_sha e)))) = Inr True"
    using assms(2) unfolding part_matches_cache_def
    by (cases "metadata_of fs q") (auto split: if_splits)
  have "str_trim (pe_sha e) = []
      \<or> (\<exists>bytes. read_file fs q = Some bytes \<and> eq_ignore_ascii_case (sha256 svc bytes) (str_trim (pe_sha e)))"
    using sum by (auto simp: result_bind_Inr sha256_file_def split: option.splits)
  then show ?thesis using assms(1) m by (auto simp: part_in_place_def)
qed

lemma all_parts_in_place:
  "all_parts_match svc fs mp entries = Inr True \<Longrightarrow> list_all (part_in_place svc fs mp) entries"
  by (induction entries) (auto simp: result_bind_Inr part_matches_in_place split: if_splits)

lemma complete_in_place:
  assumes "manifest_is_complete svc fs mp = Inr True"
  shows "\<exists>manifest. read_parts_manifest svc fs mp = Inr manifest \<and> pm_parts manifest \<noteq> []
    \<and> list_all (part_in_place svc fs mp) (pm_parts manifest)"
  using assms by (auto simp: manifest_is_complete_def intro: all_parts_in_place split: if_splits sum.splits)

lemma resolved_usable:
  assumes "resolve_or_bootstrap_burnpack svc net env local_base remote config fs n = (Inr p, fs', n')"
  shows "\<exists>root. cache_root_is config env root \<and> p \<in> set (candidate_burnpack_paths (path_join root local_base) (bc_load_policy config))
    \<and> usable svc fs' p"
proof -
  obtain root fs1 where "(case bc_cache_root config of Some path \<Rightarrow> Inr path | None \<Rightarrow> default_cache_root env) = Inr root"
    "resolve_candidates svc net config (resolve_local_base local_base root)
      (zip (candidate_burnpack_paths (resolve_local_base local_base root) (bc_load_policy config))
           (candidate_burnpack_urls remote (bc_load_policy config))) None fs1 n = (Inr p, fs', n')"
    using assms by (auto simp: resolve_or_bootstrap_burnpack_def Let_def split: sum.splits option.splits)
  then show ?thesis
    using cache_root_found resolve_candidates_usable set_zip_fst unfolding resolve_local_base_join by fast
qed

text \<open>C15: a resolved burnpack is usable. When a burnpack is resolved, it is one of the candidates of the policy under the
  cache that the configuration or else the environment names, and afterwards it is a file, or its manifest can be read,
  lists parts, and every part is in place: its path is there with the size the manifest records and with content of the
  digest the manifest records (each where one is recorded).\<close>
theorem resolved_burnpack_is_usable:
  assumes "resolve_or_bootstrap_burnpack svc net env local_base remote config fs n = (Inr p, fs', n')"
  shows "\<exists>root. cache_root_is config env root \<and> p \<in> set (candidate_burnpack_paths (path_join root local_base) (bc_load_policy config))
    \<and> ((\<exists>manifest. read_parts_manifest svc fs' (burnpack_parts_manifest_path p) = Inr manifest \<and> pm_parts manifest \<noteq> []
          \<and> list_all (part_in_place svc fs' (burnpack_parts_manifest_path p)) (pm_parts manifest))
       \<or> is_file fs' p)"
  using resolved_usable [OF assms] complete_in_place unfolding usable_def by meson

text \<open>C19: a download takes the first lasting answer of four. A body ends it with its bytes and a missing resource with an
  error; other failures are tried again, four requests in all.\<close>
theorem download_takes_the_first_lasting_answer:
  "download_required_bytes net url n =
     (let k = length (takeWhile transient (map (\<lambda>i. net (n + i) url) [0..<4]))
      in if k < 4 then (case net (n + k) url of Body bytes \<Rightarrow> Inr bytes | _ \<Rightarrow> Inl (ResourceMissing url), n + k + 1)
         else (Inl (AttemptsExhausted url 4), n + 4))"
proof -
  have attempts: "[0..<4] = [0, 1, 2, 3::nat]" by (simp add: upt_rec numeral_eq_Suc)
  show ?thesis
    unfolding download_required_bytes_def attempts
    by (simp add: download_loop_step [of net url 0] download_loop_step [of net url "Suc 0"] download_loop_step [of net url "Suc (Suc 0)"]
        download_loop_step [of net url "Suc (Suc (Suc 0))"] download_attempts_def Let_def numeral_eq_Suc)
qed

section \<open>An example\<close>

text \<open>A cache with the parts of the sample burnpack and without the burnpack, and an empty one.\<close>

definition cached_fs :: file_system where
  "cached_fs = bpk_fs_after\<lparr> fs_files := (fs_files bpk_fs_after)(bpk_path := None) \<rparr>"

definition empty_fs :: file_system where
  "empty_fs = \<lparr> fs_files = Map.empty, fs_dirs = {}, fs_dir_info = (\<lambda>p. (0, None)), fs_now = Some 9 \<rparr>"

definition slow_network :: network where
  "slow_network n url = (if n = 0 then ErrorStatus 404 else if n = 1 then NoAnswer else Body ''x'')"

definition root_config :: bootstrap_config where
  "root_config = default_bootstrap_config\<lparr> bc_cache_root := Some (FsPath True []) \<rparr>"

lemma root_candidates:
  "\<exists>l r. zip (candidate_burnpack_paths (resolve_local_base (FsPath True [''m'']) (FsPath True [])) (bc_load_policy root_config))
     (candidate_burnpack_urls ''u/m'' (bc_load_policy root_config)) = [(bpk_path, ''u/m.bpk''), (l, r)]"
proof -
  have "zip (candidate_burnpack_paths (resolve_local_base (FsPath True [''m'']) (FsPath True [])) (bc_load_policy root_config))
     (candidate_burnpack_urls ''u/m'' (bc_load_policy root_config))
    = [(bpk_path, ''u/m.bpk''), (FsPath True [''m_f16.bpk''], ''u/m_f16.bpk'')]"
    by code_simp
  then show ?thesis by blast
qed

lemma cached_complete: "manifest_is_complete bpk_services cached_fs bpk_manifest_path = Inr True"
proof -
  have files: "fs_files cached_fs bpk_manifest_path = Some \<lparr> file_bytes = ''J'', file_modified = Some 9 \<rparr>"
    "fs_files cached_fs bpk_part_path = Some \<lparr> file_bytes = bpk_pack, file_modified = Some 9 \<rparr>"
    using bpk_distinct by (simp_all add: cached_fs_def bpk_fs_after_def)
  have entry: "resolve_part_entry_path bpk_manifest_path ''m.bpk.part-00000.bpk'' = Inr bpk_part_path" by code_simp
  have trim: "str_trim ''d'' = ''d''" by code_simp
  have "part_matches_cache bpk_services cached_fs bpk_part_path
      \<lparr> pe_path = ''m.bpk.part-00000.bpk'', pe_bytes = 257, pe_sha = ''d'', pe_tensors = 1 \<rparr> = Inr True"
    using files(2) trim
    by (simp add: part_matches_cache_def path_exists_def is_file_def metadata_of_def bpk_length sha256_file_def read_file_def
        bpk_services_def eq_ignore_ascii_case_def)
  then have "all_parts_match bpk_services cached_fs bpk_manifest_path (pm_parts bpk_manifest) = Inr True"
    using entry by (simp add: bpk_manifest_def del: One_nat_def)
  moreover have "read_parts_manifest bpk_services cached_fs bpk_manifest_path = Inr bpk_manifest"
    using files(1) by (simp add: read_parts_manifest_def read_file_def bpk_services_def)
  moreover have "pm_parts bpk_manifest \<noteq> []" by (simp add: bpk_manifest_def)
  ultimately show ?thesis
    using files(1) by (simp add: manifest_is_complete_def path_exists_def is_file_def)
qed

lemma root_resolve:
  "resolve_or_bootstrap_burnpack svc net env (FsPath True [''m'']) ''u/m'' root_config fs n = (Inr p, fs', n')"
  if root: "create_dir_all fs (FsPath True []) = Some fs1"
    and run: "\<And>rest. resolve_candidates svc net root_config (FsPath True [''m'']) ((bpk_path, ''u/m.bpk'') # rest) None fs1 n = (Inr p, fs', n')"
proof -
  obtain l r where z: "zip (candidate_burnpack_paths (resolve_local_base (FsPath True [''m'']) (FsPath True [])) (bc_load_policy root_config))
     (candidate_burnpack_urls ''u/m'' (bc_load_policy root_config)) = [(bpk_path, ''u/m.bpk''), (l, r)]"
    using root_candidates by blast
  have base: "resolve_local_base (FsPath True [''m'']) (FsPath True []) = FsPath True [''m'']" by (simp add: resolve_local_base_def)
  have config: "bc_cache_root root_config = Some (FsPath True [])" by (simp add: root_config_def)
  show ?thesis
    unfolding resolve_or_bootstrap_burnpack_def Let_def config option.case sum.case root z using run by (simp only: base)
qed

lemma cached_root: "create_dir_all cached_fs (FsPath True []) = Some cached_fs"
proof -
  have "fs_files cached_fs (FsPath True []) = None"
    using bpk_distinct by (simp add: cached_fs_def bpk_fs_after_def bpk_fs_def)
      (simp add: bpk_path_def bpk_part_path_def bpk_manifest_path_def)
  moreover have "fs_dirs cached_fs = {FsPath True []}" by (simp add: cached_fs_def bpk_fs_after_def)
  ultimately show ?thesis by (simp add: create_dir_all_def bpk_ancestors is_file_def)
qed

lemma cached_resolve:
  "resolve_or_bootstrap_burnpack bpk_services net env (FsPath True [''m'']) ''u/m'' root_config cached_fs n = (Inr bpk_path, cached_fs, n)"
  by (rule root_resolve [OF cached_root]) (simp add: bpk_paths(4) cached_complete)

lemma empty_resolve:
  "\<exists>fs'. resolve_or_bootstrap_burnpack bpk_services slow_network env (FsPath True [''m'']) ''u/m'' root_config empty_fs 0
     = (Inr bpk_path, fs', 3)"
proof -
  let ?fs1 = "empty_fs\<lparr> fs_dirs := {FsPath True []} \<rparr>"
  have root: "create_dir_all empty_fs (FsPath True []) = Some ?fs1"
    by (simp add: create_dir_all_def bpk_ancestors is_file_def empty_fs_def)
  have none: "fs_files ?fs1 q = None" for q by (simp add: empty_fs_def)
  have parts: "bootstrap_parts bpk_services slow_network True bpk_manifest_path ''u/m.bpk.parts.json'' ?fs1 0 = (Inr False, ?fs1, 1)"
    by (simp add: bootstrap_parts_def download_optional_bytes_def slow_network_def)
  have download: "download_required_bytes slow_network ''u/m.bpk'' 1 = (Inr ''x'', 3)"
    by code_simp
  have parent: "ensure_parent_dir ?fs1 bpk_path = Some ?fs1"
    using none by (simp add: ensure_parent_dir_def bpk_paths create_dir_all_def bpk_ancestors is_file_def)
  obtain fs2 where written: "write_bytes_atomically ?fs1 bpk_path ''x'' = (None, fs2)"
  proof -
    have temp: "with_extension bpk_path ((case extension_of bpk_path of None \<Rightarrow> [] | Some ext \<Rightarrow> ext) @ ''.partial'')
      = FsPath True [''m.bpk.partial'']" by code_simp
    have "\<exists>fs2. write_bytes_atomically ?fs1 bpk_path ''x'' = (None, fs2)"
      unfolding write_bytes_atomically_def Let_def temp
      by (simp add: write_file_def rename_file_def is_dir_def parent_of_def bpk_path_def)
    then show ?thesis using that by blast
  qed
  have dir: "\<not> path_exists ?fs1 bpk_manifest_path" "\<not> is_file ?fs1 bpk_path"
    by (simp_all add: path_exists_def is_file_def is_dir_def empty_fs_def bpk_manifest_path_def)
  have config: "bc_prefer_parts root_config" "bc_verify_checksums root_config"
    by (simp_all add: root_config_def default_bootstrap_config_def)
  have "resolve_candidates bpk_services slow_network root_config (FsPath True [''m'']) ((bpk_path, ''u/m.bpk'') # rest) None ?fs1 0
    = (Inr bpk_path, fs2, 3)" for rest
    using parts download parent written dir config
    by (simp add: bpk_paths(4) manifest_is_complete_def ensure_file_cached_def)
  then show ?thesis using root_resolve [OF root] by blast
qed

theorem resolved_burnpack_is_usable_witness:
  "\<exists>fs'. resolve_or_bootstrap_burnpack bpk_services slow_network (\<lambda>_. None) (FsPath True [''m'']) ''u/m'' root_config empty_fs 0
     = (Inr bpk_path, fs', 3)
    \<and> (\<exists>root. cache_root_is root_config (\<lambda>_. None) root
       \<and> bpk_path \<in> set (candidate_burnpack_paths (path_join root (FsPath True [''m''])) (bc_load_policy root_config))
       \<and> ((\<exists>manifest. read_parts_manifest bpk_services fs' (burnpack_parts_manifest_path bpk_path) = Inr manifest \<and> pm_parts manifest \<noteq> []
             \<and> list_all (part_in_place bpk_services fs' (burnpack_parts_manifest_path bpk_path)) (pm_parts manifest))
          \<or> is_file fs' bpk_path))"
proof -
  obtain fs' where run: "resolve_or_bootstrap_burnpack bpk_services slow_network (\<lambda>_. None) (FsPath True [''m'']) ''u/m'' root_config empty_fs 0
     = (Inr bpk_path, fs', 3)" using empty_resolve by blast
  show ?thesis using run resolved_burnpack_is_usable [OF run] by blast
qed

section \<open>Resolving and loading\<close>

lemma part_in_place_holds:
  assumes "part_in_place svc fs mp e" "str_trim (pe_sha e) \<noteq> []"
  shows "\<exists>bytes. entry_holds svc fs mp verify e bytes"
proof -
  obtain q size modified bytes where q: "resolve_part_entry_path mp (pe_path e) = Inr q" "metadata_of fs q = Some (size, modified)"
    "pe_bytes e = 0 \<or> size = pe_bytes e" "read_file fs q = Some bytes" "eq_ignore_ascii_case (sha256 svc bytes) (str_trim (pe_sha e))"
    using assms by (auto simp: part_in_place_def)
  then have "size = length bytes" by (auto simp: read_file_def metadata_of_def)
  then show ?thesis using q by (intro exI [of _ bytes]) (auto simp: entry_holds_def)
qed

lemma all_parts_match_holds:
  assumes "all_parts_match svc fs mp entries = Inr True" "list_all (\<lambda>e. str_trim (pe_sha e) \<noteq> []) entries"
  shows "\<exists>contents. list_all2 (entry_holds svc fs mp verify) entries contents"
  using assms
proof (induction entries)
  case (Cons e es)
  then obtain q where "resolve_part_entry_path mp (pe_path e) = Inr q" "part_matches_cache svc fs q e = Inr True"
    and rest: "all_parts_match svc fs mp es = Inr True"
    by (auto simp: result_bind_Inr split: if_splits)
  then obtain bytes where "entry_holds svc fs mp verify e bytes"
    using part_in_place_holds [OF part_matches_in_place] Cons.prems(2) by fastforce
  moreover obtain contents where "list_all2 (entry_holds svc fs mp verify) es contents" using Cons.IH rest Cons.prems(2) by auto
  ultimately show ?case by (intro exI [of _ "bytes # contents"]) simp
qed auto

lemma entry_holds_unique: "entry_holds svc fs mp v1 e b1 \<Longrightarrow> entry_holds svc fs mp v2 e b2 \<Longrightarrow> b1 = b2"
  by (auto simp: entry_holds_def)

lemma entries_hold_unique:
  "list_all2 (entry_holds svc fs mp v1) es bs \<Longrightarrow> list_all2 (entry_holds svc fs mp v2) es cs \<Longrightarrow> bs = cs"
  by (induction es arbitrary: bs cs) (auto simp: list_all2_Cons1 dest: entry_holds_unique)

lemma entries_hold_weaken:
  "list_all2 (entry_holds svc fs mp True) es bs \<Longrightarrow> list_all2 (entry_holds svc fs mp verify) es bs"
  by (erule list_all2_mono) (auto simp: entry_holds_def)

lemma complete_parts_load:
  assumes complete: "manifest_is_complete svc fs (burnpack_parts_manifest_path p) = Inr True" and gone: "\<not> path_exists fs p"
    and sums: "\<And>m e. read_parts_manifest svc fs (burnpack_parts_manifest_path p) = Inr m \<Longrightarrow> e \<in> set (pm_parts m) \<Longrightarrow> str_trim (pe_sha e) \<noteq> []"
  shows "\<exists>manifest contents. read_parts_manifest svc fs (burnpack_parts_manifest_path p) = Inr manifest
    \<and> list_all2 (entry_holds svc fs (burnpack_parts_manifest_path p) True) (pm_parts manifest) contents
    \<and> (\<forall>r. load_model_from_burnpack_candidates svc apply_pack load_pack fs [p] verify init = Inr r
           \<longleftrightarrow> load_model_from_burnpack_part_bytes apply_pack contents init = Inr r)"
proof -
  let ?mp = "burnpack_parts_manifest_path p"
  obtain m where m: "path_exists fs ?mp" "read_parts_manifest svc fs ?mp = Inr m" "pm_parts m \<noteq> []"
    "all_parts_match svc fs ?mp (pm_parts m) = Inr True"
    using complete by (auto simp: manifest_is_complete_def split: if_splits sum.splits)
  obtain contents where c: "list_all2 (entry_holds svc fs ?mp True) (pm_parts m) contents"
    using all_parts_match_holds [OF m(4)] sums [OF m(2)] by (auto simp: list_all_iff)
  have "try_load_model_from_burnpack_parts svc apply_pack fs [p] verify init
      = result_bind (load_parts svc apply_pack fs ?mp verify (pm_parts m) init {}) (\<lambda>loaded. Inr (Some loaded))"
    using gone m(1,2,3) by (simp add: try_load_model_from_burnpack_parts_def)
  then have load: "load_model_from_burnpack_candidates svc apply_pack load_pack fs [p] verify init
      = load_parts svc apply_pack fs ?mp verify (pm_parts m) init {}"
    by (cases "load_parts svc apply_pack fs ?mp verify (pm_parts m) init {}")
      (simp_all add: load_model_from_burnpack_candidates_def try_load_model_from_burnpack_candidates_def)
  have "load_parts svc apply_pack fs ?mp verify (pm_parts m) init {} = Inr r
      \<longleftrightarrow> apply_burnpack_parts_bytes apply_pack contents init {} = Inr r" for r
    unfolding load_parts_Inr using c entries_hold_weaken entries_hold_unique by blast
  then show ?thesis using m(2) c load by (auto simp: load_model_from_burnpack_part_bytes_def)
qed

text \<open>C16: resolved parts load. When a burnpack is resolved to its parts, the whole file being absent and the manifest
  naming a digest for every part, then loading the resolved path, with or without verification, succeeds exactly when
  the store accepts the bytes of the parts in the order of the manifest, and gives the same model and keys.\<close>
theorem resolved_parts_load:
  assumes "resolve_or_bootstrap_burnpack svc net env local_base remote config fs n = (Inr p, fs', n')"
    and "\<not> path_exists fs' p"
    and "\<And>m e. read_parts_manifest svc fs' (burnpack_parts_manifest_path p) = Inr m \<Longrightarrow> e \<in> set (pm_parts m) \<Longrightarrow> str_trim (pe_sha e) \<noteq> []"
  shows "\<exists>manifest contents. read_parts_manifest svc fs' (burnpack_parts_manifest_path p) = Inr manifest
    \<and> list_all2 (entry_holds svc fs' (burnpack_parts_manifest_path p) True) (pm_parts manifest) contents
    \<and> (\<forall>r. load_model_from_burnpack_candidates svc apply_pack load_pack fs' [p] verify init = Inr r
           \<longleftrightarrow> load_model_from_burnpack_part_bytes apply_pack contents init = Inr r)"
proof (rule complete_parts_load [OF _ assms(2,3)])
  have "usable svc fs' p" using resolved_usable [OF assms(1)] by blast
  then show "manifest_is_complete svc fs' (burnpack_parts_manifest_path p) = Inr True"
    using assms(2) by (auto simp: usable_def path_exists_def)
qed

theorem resolved_parts_load_witness:
  "\<exists>manifest contents. read_parts_manifest bpk_services cached_fs (burnpack_parts_manifest_path bpk_path) = Inr manifest
    \<and> list_all2 (entry_holds bpk_services cached_fs (burnpack_parts_manifest_path bpk_path) True) (pm_parts manifest) contents
    \<and> (\<forall>r. load_model_from_burnpack_candidates bpk_services (\<lambda>m b. Inr (m @ b, {''w''})) (\<lambda>m b. Inl ''no'') cached_fs [bpk_path] True [] = Inr r
           \<longleftrightarrow> load_model_from_burnpack_part_bytes (\<lambda>m b. Inr (m @ b, {''w''})) contents [] = Inr r)"
proof (rule resolved_parts_load [OF cached_resolve [where env = "\<lambda>_. None" and n = 0]])
  show "\<not> path_exists cached_fs bpk_path"
    by (simp add: path_exists_def is_file_def is_dir_def cached_fs_def bpk_fs_after_def) (simp add: bpk_path_def)
next
  fix m e
  assume m: "read_parts_manifest bpk_services cached_fs (burnpack_parts_manifest_path bpk_path) = Inr m" and e: "e \<in> set (pm_parts m)"
  have "fs_files cached_fs bpk_manifest_path = Some \<lparr> file_bytes = ''J'', file_modified = Some 9 \<rparr>"
    using bpk_distinct by (simp add: cached_fs_def bpk_fs_after_def)
  then have "m = bpk_manifest" using m by (auto simp: bpk_paths(4) read_parts_manifest_def read_file_def bpk_services_def)
  moreover have "str_trim ''d'' = ''d''" by code_simp
  ultimately show "str_trim (pe_sha e) \<noteq> []" using e by (auto simp: bpk_manifest_def)
qed

text \<open>A mismatched part stops the parts. When a part that is already in the cache does not match its entry, no request
  is made for it or the parts after it, the cache stays as it is, and the parts are given up.\<close>
theorem mismatched_part_stops_the_download:
  assumes "list_all (\<lambda>e. \<exists>q. resolve_part_entry_path mp (pe_path e) = Inr q \<and> part_matches_cache svc fs q e = Inr True) good"
    and "resolve_part_entry_path mp (pe_path stale) = Inr p" and "part_matches_cache svc fs p stale = Inr False" and "is_file fs p"
  shows "fetch_parts svc net True mp url (good @ stale # rest) fs n = (Inr False, fs, n)"
  using assms by (induction good) (auto simp: ensure_file_cached_def)

theorem mismatched_part_stops_the_download_witness:
  "fetch_parts bpk_services slow_network True bpk_manifest_path ''u/m.bpk.parts.json''
     ([] @ \<lparr> pe_path = ''m.bpk.part-00000.bpk'', pe_bytes = 3, pe_sha = ''d'', pe_tensors = 1 \<rparr> # []) cached_fs 0
   = (Inr False, cached_fs, 0)"
proof (rule mismatched_part_stops_the_download)
  let ?e = "\<lparr> pe_path = ''m.bpk.part-00000.bpk'', pe_bytes = 3, pe_sha = ''d'', pe_tensors = 1 \<rparr>"
  have here: "fs_files cached_fs bpk_part_path = Some \<lparr> file_bytes = bpk_pack, file_modified = Some 9 \<rparr>"
    using bpk_distinct by (simp add: cached_fs_def bpk_fs_after_def)
  show "resolve_part_entry_path bpk_manifest_path (pe_path ?e) = Inr bpk_part_path" by code_simp
  show "is_file cached_fs bpk_part_path" using here by (simp add: is_file_def)
  show "part_matches_cache bpk_services cached_fs bpk_part_path ?e = Inr False"
    using here by (simp add: part_matches_cache_def path_exists_def is_file_def metadata_of_def bpk_length)
qed simp

end
