(* ===== verification/Checkpoint_Precision.thy ===== *)
theory Checkpoint_Precision
  imports Checkpoint_Pack
begin

text \<open>
  Converting the floats of a burnpack (\<open>precision.rs\<close>). The element types are those the code names,
  with the others of the tensor library behind one constructor. Reading and writing a type as a
  CBOR value, which types are floats, and the conversion of the elements are the tensor
  library's: the record \<open>dtype_services\<close>. The conversion is an option, for the library panics on bytes
  that do not fit the shape; the panic is an error of its own here.
\<close>

datatype dtype = DF64 | DF32 | DFlex32 | DF16 | DBF16 | OtherDtype nat

record 'v dtype_services =
  parse_dtype :: "'v \<Rightarrow> dtype option"
  serialize_dtype :: "dtype \<Rightarrow> 'v option"
  is_float :: "dtype \<Rightarrow> bool"
  convert_elements :: "dtype \<Rightarrow> dtype \<Rightarrow> nat list \<Rightarrow> string \<Rightarrow> string option"

datatype float_precision = PrecisionF16 | PrecisionF32

definition precision_dtype :: "float_precision \<Rightarrow> dtype" where
  "precision_dtype precision = (case precision of PrecisionF16 \<Rightarrow> DF16 | PrecisionF32 \<Rightarrow> DF32)"

definition dtype_precision_label :: "dtype \<Rightarrow> string" where
  "dtype_precision_label d = (case d of DF16 \<Rightarrow> ''f16'' | DF32 \<Rightarrow> ''f32'' | _ \<Rightarrow> ''mixed'')"

datatype precision_error =
  SourceUnreadable fs_path | SourceMalformed pack_error | InvalidOffsets string nat nat | SeekOverflow string
| PayloadUnreadable string | DtypeUnreadable string | DtypeUnwritable string | EndOverflow string
| ConversionPanicked string | WriteFailed pack_error

definition convert_float_dtype :: "(dtype \<Rightarrow> bool) \<Rightarrow> dtype \<Rightarrow> dtype \<Rightarrow> dtype" where
  "convert_float_dtype float source target_dtype =
     (case target_dtype of
        DF16 \<Rightarrow> if float source then DF16 else source
      | DF32 \<Rightarrow> if float source then DF32 else source
      | _ \<Rightarrow> source)"

definition convert_tensor_data_float_precision ::
    "(dtype \<Rightarrow> dtype \<Rightarrow> nat list \<Rightarrow> string \<Rightarrow> string option) \<Rightarrow> dtype \<Rightarrow> nat list \<Rightarrow> string \<Rightarrow> dtype \<Rightarrow> string option" where
  "convert_tensor_data_float_precision convert source shape bytes target_dtype =
     (case target_dtype of
        DF16 \<Rightarrow> if source \<in> {DF64, DF32, DBF16, DFlex32} then convert source DF16 shape bytes else Some bytes
      | DF32 \<Rightarrow> if source \<in> {DF16, DBF16, DF64, DFlex32} then convert source DF32 shape bytes else Some bytes
      | _ \<Rightarrow> Some bytes)"

definition read_tensor_payload :: "string \<Rightarrow> nat \<Rightarrow> nat \<times> nat \<Rightarrow> string \<Rightarrow> precision_error + string" where
  "read_tensor_payload source data_start data_offsets tensor_name =
     (case data_offsets of (start, stop) \<Rightarrow>
        if stop < start then Inl (InvalidOffsets tensor_name start stop)
        else if usize_max < data_start + start then Inl (SeekOverflow tensor_name)
        else case read_exact_at source (data_start + start) (stop - start) of
          None \<Rightarrow> Inl (PayloadUnreadable tensor_name)
        | Some bytes \<Rightarrow> Inr bytes)"

text \<open>One tensor: its new type, as a type and as a value, and its new bytes.\<close>

definition convert_tensor ::
    "'v dtype_services \<Rightarrow> dtype \<Rightarrow> string \<Rightarrow> 'v raw_descriptor \<Rightarrow> string \<Rightarrow> precision_error + dtype \<times> string" where
  "convert_tensor ds target_dtype name descriptor source_bytes =
     (case parse_dtype ds (td_dtype descriptor) of
        None \<Rightarrow> Inl (DtypeUnreadable name)
      | Some source_dtype \<Rightarrow>
          let converted_dtype = convert_float_dtype (is_float ds) source_dtype target_dtype in
          if converted_dtype = source_dtype then Inr (converted_dtype, source_bytes)
          else case convert_tensor_data_float_precision (convert_elements ds) source_dtype (td_shape descriptor)
                      source_bytes target_dtype of
            None \<Rightarrow> Inl (ConversionPanicked name)
          | Some converted_bytes \<Rightarrow> Inr (converted_dtype, converted_bytes))"

fun convert_tensors ::
    "'v dtype_services \<Rightarrow> string \<Rightarrow> nat \<Rightarrow> dtype \<Rightarrow> (string \<times> 'v raw_descriptor) list \<Rightarrow> nat
      \<Rightarrow> (string \<times> 'v raw_descriptor) list \<Rightarrow> string list
      \<Rightarrow> precision_error + (string \<times> 'v raw_descriptor) list \<times> string list" where
  "convert_tensors ds source data_start target_dtype [] next_offset converted payloads = Inr (converted, payloads)"
| "convert_tensors ds source data_start target_dtype ((name, descriptor) # rest) next_offset converted payloads =
     result_bind (read_tensor_payload source data_start (td_offsets descriptor) name) (\<lambda>source_bytes.
       result_bind (convert_tensor ds target_dtype name descriptor source_bytes) (\<lambda>(converted_dtype, converted_bytes).
         let aligned_start = align_offset next_offset tensor_alignment;
             end_offset = aligned_start + length converted_bytes
         in if usize_max < end_offset then Inl (EndOverflow name)
            else case serialize_dtype ds converted_dtype of
              None \<Rightarrow> Inl (DtypeUnwritable name)
            | Some dtype_value \<Rightarrow>
                convert_tensors ds source data_start target_dtype rest end_offset
                  (btree_insert name (descriptor\<lparr> td_dtype := dtype_value, td_offsets := (aligned_start, end_offset) \<rparr>) converted)
                  (payloads @ [converted_bytes])))"

definition convert_burnpack_float_precision ::
    "'v pack_services \<Rightarrow> 'v dtype_services \<Rightarrow> file_system \<Rightarrow> fs_path \<Rightarrow> fs_path \<Rightarrow> dtype
      \<Rightarrow> precision_error option \<times> file_system" where
  "convert_burnpack_float_precision svc ds fs source_burnpack output_burnpack target_dtype =
     (case read_file fs source_burnpack of
        None \<Rightarrow> (Some (SourceUnreadable source_burnpack), fs)
      | Some source \<Rightarrow>
          (case read_burnpack_metadata svc source of
             Inl e \<Rightarrow> (Some (SourceMalformed e), fs)
           | Inr (version, metadata_size, metadata) \<Rightarrow>
               (case convert_tensors ds source (aligned_data_section_start metadata_size) target_dtype
                       (by_offset (md_tensors metadata)) 0 [] [] of
                  Inl e \<Rightarrow> (Some e, fs)
                | Inr (converted, payloads) \<Rightarrow>
                    (case write_burnpack_file svc fs output_burnpack version
                            \<lparr> md_tensors = converted,
                              md_metadata = btree_insert ''precision'' (dtype_precision_label target_dtype) (md_metadata metadata) \<rparr>
                            payloads of
                       (failure, fs') \<Rightarrow> (map_option WriteFailed failure, fs')))))"

definition convert_burnpack_precision ::
    "'v pack_services \<Rightarrow> 'v dtype_services \<Rightarrow> file_system \<Rightarrow> fs_path \<Rightarrow> fs_path \<Rightarrow> float_precision \<Rightarrow> load_policy
      \<Rightarrow> (precision_error + fs_path) \<times> file_system" where
  "convert_burnpack_precision svc ds fs source_burnpack output_base precision policy =
     (let output = burnpack_path output_base (precision = PrecisionF16) (lp_f16_suffix policy) in
      case convert_burnpack_float_precision svc ds fs source_burnpack output (precision_dtype precision) of
        (Some e, fs') \<Rightarrow> (Inl e, fs')
      | (None, fs') \<Rightarrow> (Inr output, fs'))"

end
