(* ===== verification/Checkpoint_Export.thy ===== *)
theory Checkpoint_Export
  imports Checkpoint_Parts Checkpoint_Precision
begin

text \<open>
  Saving a model as a burnpack with its parts (\<open>parts.rs\<close>) and exporting it as a bundle
  (\<open>bundle.rs\<close>). Writing the tensors of the model to a file is the store library's: the argument
  \<open>save_into\<close>, which takes the path and returns the error, if any, and the changed files. The clock is
  the argument \<open>now\<close>, milliseconds since the Unix epoch, none before it.
\<close>

datatype export_error =
  SaveFailed fs_path string | ConversionFailed precision_error | PartsFailed parts_error | ClockFailed
| OutputDirectoryUncreatable fs_path | IntermediateUnremovable fs_path

type_synonym saver = "fs_path \<Rightarrow> file_system \<Rightarrow> string option \<times> file_system"

section \<open>Saving\<close>

definition save_model_to_burnpack :: "saver \<Rightarrow> file_system \<Rightarrow> fs_path \<Rightarrow> (export_error + fs_path) \<times> file_system" where
  "save_model_to_burnpack save_into fs output_base =
     (let output = normalize_extension output_base ''bpk'' in
      case save_into output fs of
        (Some e, fs') \<Rightarrow> (Inl (SaveFailed output e), fs')
      | (None, fs') \<Rightarrow> (Inr output, fs'))"

definition save_model_to_burnpack_with_parts ::
    "'v pack_services \<Rightarrow> saver \<Rightarrow> file_system \<Rightarrow> fs_path \<Rightarrow> nat \<Rightarrow> bool \<Rightarrow> (export_error + parts_report) \<times> file_system" where
  "save_model_to_burnpack_with_parts svc save_into fs output_base max_part_size_mib overwrite =
     (case save_model_to_burnpack save_into fs output_base of
        (Inl e, fs1) \<Rightarrow> (Inl e, fs1)
      | (Inr burnpack, fs1) \<Rightarrow>
          (case write_burnpack_parts svc fs1 burnpack max_part_size_mib overwrite of
             (r, fs2) \<Rightarrow> (map_err PartsFailed r, fs2)))"

definition ensure_burnpack_parts ::
    "'v pack_services \<Rightarrow> file_system \<Rightarrow> fs_path \<Rightarrow> nat \<Rightarrow> bool \<Rightarrow> (parts_error + parts_report option) \<times> file_system" where
  "ensure_burnpack_parts svc fs burnpack max_part_size_mib overwrite =
     (case write_burnpack_parts svc fs burnpack max_part_size_mib overwrite of
        (Inl e, fs') \<Rightarrow> (Inl e, fs')
      | (Inr report, fs') \<Rightarrow> (Inr (Some report), fs'))"

section \<open>Bundles\<close>

record export_options =
  eo_precision :: float_precision
  eo_load_policy :: load_policy
  eo_max_part_size_mib :: "nat option"
  eo_overwrite_parts :: bool
  eo_keep_intermediate_f32 :: bool

definition default_export_options :: export_options where
  "default_export_options =
     \<lparr> eo_precision = PrecisionF16, eo_load_policy = default_load_policy, eo_max_part_size_mib = None,
       eo_overwrite_parts = False, eo_keep_intermediate_f32 = False \<rparr>"

record export_report =
  er_burnpack_path :: fs_path
  er_precision :: float_precision
  er_parts :: "parts_report option"
  er_intermediate_f32_path :: "fs_path option"

definition temporary_f32_export_base :: "nat option \<Rightarrow> fs_path \<Rightarrow> export_error + fs_path" where
  "temporary_f32_export_base now output_base =
     (let parent = (case parent_of output_base of Some d \<Rightarrow> d | None \<Rightarrow> parse_path ''.'');
          stem = (case file_stem output_base of
                    Some s \<Rightarrow> s
                  | None \<Rightarrow> (case file_name output_base of Some s \<Rightarrow> s | None \<Rightarrow> ''model''))
      in case now of
           None \<Rightarrow> Inl ClockFailed
         | Some nonce \<Rightarrow> Inr (path_join parent (parse_path (''.'' @ stem @ ''.export-f32-'' @ show_nat nonce))))"

text \<open>The burnpack of the chosen precision, and the intermediate one when it is kept.\<close>

definition export_burnpack ::
    "'v pack_services \<Rightarrow> 'v dtype_services \<Rightarrow> saver \<Rightarrow> nat option \<Rightarrow> file_system \<Rightarrow> fs_path \<Rightarrow> export_options
      \<Rightarrow> (export_error + fs_path \<times> fs_path option) \<times> file_system" where
  "export_burnpack svc ds save_into now fs output_base options =
     (case eo_precision options of
        PrecisionF32 \<Rightarrow>
          (case save_model_to_burnpack save_into fs output_base of
             (Inl e, fs1) \<Rightarrow> (Inl e, fs1)
           | (Inr path, fs1) \<Rightarrow> (Inr (path, None), fs1))
      | PrecisionF16 \<Rightarrow>
          (case temporary_f32_export_base now output_base of
             Inl e \<Rightarrow> (Inl e, fs)
           | Inr temp_base \<Rightarrow>
               (case save_model_to_burnpack save_into fs temp_base of
                  (Inl e, fs1) \<Rightarrow> (Inl e, fs1)
                | (Inr temp_source, fs1) \<Rightarrow>
                    (case convert_burnpack_precision svc ds fs1 temp_source output_base PrecisionF16 (eo_load_policy options) of
                       (Inl e, fs2) \<Rightarrow> (Inl (ConversionFailed e), fs2)
                     | (Inr converted, fs2) \<Rightarrow>
                         let keep_path = (if eo_keep_intermediate_f32 options then Some temp_source else None) in
                         if \<not> eo_keep_intermediate_f32 options \<and> path_exists fs2 temp_source then
                           (case remove_file fs2 temp_source of
                              None \<Rightarrow> (Inl (IntermediateUnremovable temp_source), fs2)
                            | Some fs3 \<Rightarrow> (Inr (converted, keep_path), fs3))
                         else (Inr (converted, keep_path), fs2)))))"

definition export_model_to_burnpack_bundle ::
    "'v pack_services \<Rightarrow> 'v dtype_services \<Rightarrow> saver \<Rightarrow> nat option \<Rightarrow> file_system \<Rightarrow> fs_path \<Rightarrow> export_options
      \<Rightarrow> (export_error + export_report) \<times> file_system" where
  "export_model_to_burnpack_bundle svc ds save_into now fs output_base options =
     (case ensure_parent_dir fs output_base of
        None \<Rightarrow> (Inl (OutputDirectoryUncreatable output_base), fs)
      | Some fs1 \<Rightarrow>
          (case export_burnpack svc ds save_into now fs1 output_base options of
             (Inl e, fs2) \<Rightarrow> (Inl e, fs2)
           | (Inr (burnpack, intermediate), fs2) \<Rightarrow>
               (case (case eo_max_part_size_mib options of
                        None \<Rightarrow> (Inr None, fs2)
                      | Some mib \<Rightarrow> ensure_burnpack_parts svc fs2 burnpack mib (eo_overwrite_parts options)) of
                  (Inl e, fs3) \<Rightarrow> (Inl (PartsFailed e), fs3)
                | (Inr parts, fs3) \<Rightarrow>
                    (Inr \<lparr> er_burnpack_path = burnpack, er_precision = eo_precision options, er_parts = parts,
                           er_intermediate_f32_path = intermediate \<rparr>, fs3))))"

end
