(* ===== verification/Checkpoint_Precision_Proofs.thy ===== *)
theory Checkpoint_Precision_Proofs
  imports Checkpoint_Precision Checkpoint_Parts_Proofs
begin

text \<open>What a converted burnpack holds: the tensors of its source, each converted on its own.\<close>

section \<open>The converted tensors\<close>

text \<open>The descriptors and payloads the conversion gives, in the order it writes them, and their placement.\<close>

type_synonym 'v placed = "string \<times> 'v raw_descriptor \<times> string"

fun placed_from :: "nat \<Rightarrow> 'v placed list \<Rightarrow> bool" where
  "placed_from n [] = True"
| "placed_from n ((name, d, b) # rest) =
     (td_offsets d = (align_offset n tensor_alignment, align_offset n tensor_alignment + length b)
      \<and> placed_from (align_offset n tensor_alignment + length b) rest)"

definition converted_from ::
    "'v dtype_services \<Rightarrow> string \<Rightarrow> nat \<Rightarrow> dtype \<Rightarrow> string \<times> 'v raw_descriptor \<Rightarrow> 'v placed \<Rightarrow> bool" where
  "converted_from ds source data_start target old new \<longleftrightarrow>
     (case (old, new) of ((name, d), (name', d', b')) \<Rightarrow>
        name' = name \<and> td_shape d' = td_shape d \<and> td_param_id d' = td_param_id d
        \<and> (\<exists>b t. read_tensor_payload source data_start (td_offsets d) name = Inr b
              \<and> convert_tensor ds target name d b = Inr (t, b') \<and> serialize_dtype ds t = Some (td_dtype d')))"

lemma convert_tensors_spec:
  assumes "convert_tensors ds source data_start target olds n table payloads = Inr (table', payloads')"
  shows "\<exists>news. list_all2 (converted_from ds source data_start target) olds news
    \<and> payloads' = payloads @ map (\<lambda>(name, d, b). b) news
    \<and> table' = foldl (\<lambda>t (name, d, b). btree_insert name d t) table news \<and> placed_from n news"
  using assms
proof (induction olds arbitrary: n table payloads)
  case (Cons old olds)
  obtain name d where old: "old = (name, d)" by fastforce
  obtain b t b' where b: "read_tensor_payload source data_start (td_offsets d) name = Inr b"
    "convert_tensor ds target name d b = Inr (t, b')"
    using Cons.prems by (auto simp: old result_bind_Inr)
  let ?a = "align_offset n tensor_alignment"
  have fits: "\<not> usize_max < ?a + length b'" using Cons.prems b by (auto simp: old Let_def)
  obtain v where v: "serialize_dtype ds t = Some v" using Cons.prems b fits by (cases "serialize_dtype ds t") (auto simp: old Let_def)
  let ?d = "d\<lparr> td_dtype := v, td_offsets := (?a, ?a + length b') \<rparr>"
  have "convert_tensors ds source data_start target olds (?a + length b') (btree_insert name ?d table) (payloads @ [b'])
      = Inr (table', payloads')" using Cons.prems b fits v by (simp add: old Let_def)
  from Cons.IH [OF this] obtain news where news: "list_all2 (converted_from ds source data_start target) olds news"
    "payloads' = (payloads @ [b']) @ map (\<lambda>(name, d, b). b) news"
    "table' = foldl (\<lambda>t (name, d, b). btree_insert name d t) (btree_insert name ?d table) news"
    "placed_from (?a + length b') news" by blast
  have "converted_from ds source data_start target old (name, ?d, b')" using b v by (auto simp: converted_from_def old)
  then show ?case using news by (intro exI [of _ "(name, ?d, b') # news"]) simp
qed auto

lemma foldl_btree_map:
  "map_of (foldl (\<lambda>t (name, d, b). btree_insert name d t) table news)
     = map_of table ++ map_of (rev (map (\<lambda>(name, d, b). (name, d)) news))"
  by (induction news arbitrary: table) (auto simp: map_add_def fun_eq_iff split: option.splits)

lemma foldl_btree_ok: "btree_ok table \<Longrightarrow> btree_ok (foldl (\<lambda>t (name, d, b). btree_insert name d t) table news)"
  by (induction news arbitrary: table) (auto intro: btree_ok_insert)

text \<open>The space a payload takes at most: an empty one only moves the position to a multiple of the alignment, once.\<close>

definition span_of :: "'v placed \<Rightarrow> nat" where
  "span_of = (\<lambda>(name, d, b). if b = [] then 0 else length b + 256)"

definition placed_block :: "'v placed \<Rightarrow> nat \<times> string" where
  "placed_block = (\<lambda>(name, d, b). (fst (td_offsets d), b))"

lemma round_up_idem: "round_up (round_up n) = round_up n"
  by (simp add: round_up_def)

lemma placed_ascending:
  assumes "placed_from n news" "round_up n + sum_list (map span_of news) < 2 ^ 63"
  shows "ascending n (map placed_block news) \<and> sorted (map (fst \<circ> placed_block) news)
    \<and> (\<forall>(name, d, b)\<in>set news. n \<le> fst (td_offsets d) \<and> tensor_len d = length b)
    \<and> blocks_end n (map placed_block news) \<le> round_up n + sum_list (map span_of news)"
  using assms
proof (induction n news rule: placed_from.induct)
  case (1 n)
  then show ?case using round_up_bounds [of n] by simp
next
  case (2 n name d b rest)
  let ?a = "round_up n" and ?s = "sum_list (map span_of rest)"
  have bounds: "n \<le> ?a" "?a < n + 256" using round_up_bounds by auto
  have a: "align_offset n tensor_alignment = ?a" using 2 bounds by (intro align_offset_exact) simp
  have off: "td_offsets d = (?a, ?a + length b)" and rest: "placed_from (?a + length b) rest" using 2 a by auto
  have room: "round_up (?a + length b) \<le> ?a + span_of (name, d, b)"
    using round_up_bounds [of "?a + length b"] by (auto simp: span_of_def round_up_idem)
  have IH: "ascending (?a + length b) (map placed_block rest) \<and> sorted (map (fst \<circ> placed_block) rest)
    \<and> (\<forall>(name, d, b')\<in>set rest. ?a + length b \<le> fst (td_offsets d) \<and> tensor_len d = length b')
    \<and> blocks_end (?a + length b) (map placed_block rest) \<le> round_up (?a + length b) + ?s"
    using 2 a room by (auto simp: comp_def)
  have later: "?a + length b \<le> fst (td_offsets d') \<and> tensor_len d' = length b'" if "(name', d', b') \<in> set rest" for name' d' b'
    using IH that by blast
  have low: "n \<le> fst (td_offsets d') \<and> tensor_len d' = length b'" if "(name', d', b') \<in> set rest" for name' d' b'
    using later [OF that] bounds(1) by linarith
  have "\<forall>x\<in>set rest. ?a \<le> fst (placed_block x)" using later by (fastforce simp: placed_block_def)
  then have "sorted (map (fst \<circ> placed_block) ((name, d, b) # rest))" using IH off by (simp add: placed_block_def)
  moreover have "blocks_end n (map placed_block ((name, d, b) # rest)) \<le> ?a + sum_list (map span_of ((name, d, b) # rest))"
    using IH off room by (simp add: placed_block_def)
  moreover have "ascending n (map placed_block ((name, d, b) # rest))" using IH off bounds by (simp add: placed_block_def)
  moreover have "\<forall>(name, d, b)\<in>set ((name, d, b) # rest). n \<le> fst (td_offsets d) \<and> tensor_len d = length b"
    using low off bounds by (auto simp: tensor_len_def)
  ultimately show ?case by blast
qed

text \<open>The offsets of a table in their order are those of any sorted list with its entries.\<close>

lemma by_offset_offsets:
  assumes "distinct (map fst table)" "distinct (map fst entries)" "map_of table = map_of entries"
    and "sorted (map (\<lambda>(name, d). fst (td_offsets d)) entries)"
  shows "map (\<lambda>(name, d). fst (td_offsets d)) (by_offset table) = map (\<lambda>(name, d). fst (td_offsets d)) entries"
proof -
  let ?k = "\<lambda>(name :: string, d :: 'a raw_descriptor). fst (td_offsets d)"
  have "set table = set entries" using assms(1-3) map_of_eq_Some_iff by (metis (no_types, opaque_lifting) subsetI subset_antisym surj_pair)
  then have "mset table = mset entries" using assms(1,2) by (simp add: set_eq_iff_mset_eq_distinct distinct_map)
  then have "mset (map ?k (by_offset table)) = mset (map ?k entries)" by (simp add: by_offset_def)
  moreover have "sorted (map ?k (by_offset table))" by (simp add: by_offset_def)
  ultimately show ?thesis using assms(4) by (metis properties_for_sort sorted_sort_id)
qed

section \<open>The written file\<close>

lemma emit_payloads_lay_out:
  assumes "emit_payloads section_start blocks out = (None, out')"
  shows "out' = lay_out section_start (map (\<lambda>((name, d), b). (fst (td_offsets d), b)) blocks) out
    \<and> (\<forall>((name, d), b)\<in>set blocks. tensor_len d = length b)"
  using assms by (induction section_start blocks out rule: emit_payloads.induct) (auto simp: lay_out_def Let_def split: if_splits)

lemma emit_payloads_length:
  "emit_payloads section_start blocks out = (None, out') \<Longrightarrow> length out + sum_list (map (\<lambda>(nd, b). length b) blocks) \<le> length out'"
proof (induction section_start blocks out rule: emit_payloads.induct)
  case (2 section_start name d b rest out)
  then show ?case by (auto simp: Let_def length_pad_to split: if_splits dest: le_trans [rotated])
qed simp

definition placed_entry :: "'v placed \<Rightarrow> string \<times> 'v raw_descriptor" where
  "placed_entry = (\<lambda>(name, d, b). (name, d))"

definition payload_of :: "'v placed \<Rightarrow> string" where
  "payload_of = (\<lambda>(name, d, b). b)"

lemma placed_short:
  assumes "sum_list (map (\<lambda>x. length (payload_of x)) news) < 2 ^ 54"
  shows "sum_list (map span_of news) < 2 ^ 63"
proof -
  have "sum_list (map span_of news) \<le> 257 * sum_list (map (\<lambda>x. length (payload_of x)) news)"
  proof (induction news)
    case (Cons x news)
    obtain name d b where x: "x = (name, d, b)" using prod_cases3 by blast
    have "span_of x \<le> 257 * length (payload_of x)" by (cases b) (simp_all add: x span_of_def payload_of_def)
    then show ?case using Cons by simp
  qed simp
  then show ?thesis using assms by simp
qed

lemma write_burnpack_file_payloads:
  assumes "write_burnpack_file svc fs output version md payloads = (None, fs')"
  shows "\<exists>out. read_file fs' output = Some out \<and> sum_list (map length payloads) \<le> length out"
proof -
  obtain cbor fs1 out where len: "length (by_offset (md_tensors md)) = length payloads"
    and data: "emit_payloads (aligned_data_section_start (length cbor)) (zip (by_offset (md_tensors md)) payloads) (pack_front version cbor)
        = (None, out)"
    and stored: "write_file fs1 output out = Some fs'"
    using assms by (auto simp: write_burnpack_file_def Let_def split: option.splits if_splits prod.splits)
  have "map (\<lambda>(nd, b). length b) (zip (by_offset (md_tensors md)) payloads) = map length payloads"
    using len by (intro nth_equalityI) auto
  then have "sum_list (map length payloads) \<le> length out" using emit_payloads_length [OF data] by simp
  moreover have "read_file fs' output = Some out" using write_file_Some [OF stored] by (simp add: read_file_def)
  ultimately show ?thesis by blast
qed

lemma write_burnpack_file_view:
  assumes written: "write_burnpack_file svc fs output version md (map payload_of news) = (None, fs')"
    and svc: "cbor_ok svc" and md: "metadata_ok md" and version: "version < 2 ^ 16"
    and order: "map (\<lambda>(name, d). fst (td_offsets d)) (by_offset (md_tensors md)) = map (fst \<circ> placed_block) news"
    and placed: "placed_from 0 news"
    and small: "\<And>out. read_file fs' output = Some out \<Longrightarrow> length out < 2 ^ 54"
  shows "\<exists>out start. read_file fs' output = Some out
    \<and> pack_view svc out = Some (\<lambda>name. Option.bind (map_of (md_tensors md) name) (stored_tensor out start))
    \<and> (\<forall>(name, d, b)\<in>set news. stored_tensor out start d = Some (td_dtype d, td_shape d, td_param_id d, b))"
proof -
  let ?descriptors = "by_offset (md_tensors md)"
  obtain cbor fs1 out where cbor: "to_cbor svc md = Some cbor" "length cbor < 2 ^ 32"
    and data: "emit_payloads (aligned_data_section_start (length cbor)) (zip ?descriptors (map payload_of news)) (pack_front version cbor)
        = (None, out)"
    and stored: "write_file fs1 output out = Some fs'"
    using written by (auto simp: write_burnpack_file_def Let_def not_le split: option.splits if_splits prod.splits)
  let ?start = "aligned_data_section_start (length cbor)"
  have here: "read_file fs' output = Some out" using write_file_Some [OF stored] by (simp add: read_file_def)
  note front = length_pack_front [OF cbor(2), of version] and sec = data_section_start [OF cbor(2)]
  have len: "length ?descriptors = length news" using order by (metis length_map)
  have "map (\<lambda>((name, d), b). (fst (td_offsets d), b)) (zip ?descriptors (map payload_of news))
      = zip (map (\<lambda>(name, d). fst (td_offsets d)) ?descriptors) (map payload_of news)"
    by (simp add: zip_map1 split_def)
  also have "\<dots> = map placed_block news"
    unfolding order by (simp add: zip_map1 zip_map2 zip_same_conv_map placed_block_def payload_of_def split_def)
  finally have blocks: "map (\<lambda>((name, d), b). (fst (td_offsets d), b)) (zip ?descriptors (map payload_of news)) = map placed_block news" .
  have "map (\<lambda>(nd, b). length b) (zip ?descriptors (map payload_of news)) = map (\<lambda>x. length (payload_of x)) news"
    using len by (intro nth_equalityI) auto
  then have "sum_list (map (\<lambda>x. length (payload_of x)) news) < 2 ^ 54"
    using emit_payloads_length [OF data] small [OF here] by simp
  then have "round_up 0 + sum_list (map span_of news) < 2 ^ 63" using placed_short by (simp add: round_up_def)
  then have asc: "ascending 0 (map placed_block news)" "\<forall>(name, d, b)\<in>set news. tensor_len d = length b"
    using placed_ascending [OF placed] by auto
  have out: "out = lay_out ?start (map placed_block news) (pack_front version cbor)"
    using emit_payloads_lay_out [OF data] unfolding blocks by blast
  have lay: "length out = ?start + blocks_end 0 (map placed_block news)"
    "take (length (pack_front version cbor)) out = pack_front version cbor"
    "\<forall>(start, bytes)\<in>set (map placed_block news).
        start + length bytes \<le> blocks_end 0 (map placed_block news) \<and> take (length bytes) (drop (?start + start) out) = bytes"
    using lay_out_spec [OF asc(1), of "pack_front version cbor" ?start] front unfolding out by auto
  have tensors: "stored_tensor out ?start d = Some (td_dtype d, td_shape d, td_param_id d, b)" if mem: "(name, d, b) \<in> set news" for name d b
  proof -
    have "(fst (td_offsets d), b) \<in> set (map placed_block news)" using mem by (force simp: placed_block_def)
    then have "fst (td_offsets d) + length b \<le> blocks_end 0 (map placed_block news)"
      "take (length b) (drop (?start + fst (td_offsets d)) out) = b" using lay(3) by blast+
    moreover have "length out < 2 ^ 63" using small [OF here] by simp
    ultimately have "read_exact_at out (?start + fst (td_offsets d)) (length b) = Some b"
      using lay(1) by (intro read_exact_block) simp_all
    moreover have "tensor_len d = length b" using asc(2) mem by blast
    ultimately show ?thesis by (simp add: stored_tensor_def)
  qed
  have "from_cbor svc cbor = Some md" using svc cbor(1) md unfolding cbor_ok_def by blast
  moreover have "out = pack_front version cbor @ drop (length (pack_front version cbor)) out" using lay(2) by (metis append_take_drop_id)
  ultimately have "read_burnpack_metadata svc out = Inr (version, length cbor, md)"
    using read_metadata_front [OF cbor(2) version] by metis
  then have "pack_view svc out = Some (\<lambda>name. Option.bind (map_of (md_tensors md) name) (stored_tensor out ?start))"
    by (simp add: pack_view_def)
  then show ?thesis using here tensors by blast
qed

section \<open>The conversion\<close>

text \<open>The float types are those the conversion knows.\<close>

definition dtype_lawful :: "'v dtype_services \<Rightarrow> bool" where
  "dtype_lawful ds \<longleftrightarrow> (\<forall>d. is_float ds d \<longrightarrow> d \<in> {DF64, DF32, DFlex32, DF16, DBF16})"

text \<open>A stored tensor after the conversion: a float of another type has its elements converted, any
  other tensor its bytes kept.\<close>

definition converted_stored :: "'v dtype_services \<Rightarrow> dtype \<Rightarrow> 'v stored \<Rightarrow> 'v stored option" where
  "converted_stored ds target = (\<lambda>(v, shape, param, b).
     Option.bind (parse_dtype ds v) (\<lambda>t.
       if is_float ds t \<and> t \<noteq> target
       then Option.bind (convert_elements ds t target shape b) (\<lambda>b'.
              map_option (\<lambda>v'. (v', shape, param, b')) (serialize_dtype ds target))
       else map_option (\<lambda>v'. (v', shape, param, b)) (serialize_dtype ds t)))"

lemma convert_tensor_stored:
  assumes "dtype_lawful ds" "target \<in> {DF16, DF32}" "convert_tensor ds target name d b = Inr (t, b')"
    "serialize_dtype ds t = Some v"
  shows "converted_stored ds target (td_dtype d, td_shape d, param, b) = Some (v, td_shape d, param, b')"
proof -
  obtain s where s: "parse_dtype ds (td_dtype d) = Some s" using assms(3) by (auto simp: convert_tensor_def split: option.splits)
  have float: "is_float ds s \<Longrightarrow> s \<in> {DF64, DF32, DFlex32, DF16, DBF16}" using assms(1) unfolding dtype_lawful_def by blast
  show ?thesis
    using assms(2-4) s float
    by (auto simp: convert_tensor_def converted_stored_def convert_float_dtype_def convert_tensor_data_float_precision_def Let_def
        split: if_splits option.splits)
qed

lemma by_offset_set: "set (by_offset tensors) = set tensors"
  by (simp add: by_offset_def)

lemma distinct_by_offset: "distinct (map fst tensors) \<Longrightarrow> distinct (map fst (by_offset tensors))"
  by (simp add: by_offset_def distinct_map)

lemma converted_names:
  "list_all2 (converted_from ds source data_start target) olds news \<Longrightarrow> map fst olds = map (fst \<circ> placed_entry) news"
  by (induction rule: list_all2_induct) (auto simp: converted_from_def placed_entry_def)

lemma read_tensor_payload_Inr:
  "read_tensor_payload source data_start (td_offsets d) name = Inr b \<Longrightarrow>
     read_exact_at source (data_start + fst (td_offsets d)) (tensor_len d) = Some b"
  by (auto simp: read_tensor_payload_def tensor_len_def split: prod.splits if_splits option.splits)

lemma convert_burnpack_float_precision_view:
  assumes run: "convert_burnpack_float_precision svc ds fs source_path output target = (None, fs')"
    and target: "target \<in> {DF16, DF32}" and svc: "cbor_ok svc" and ds: "dtype_lawful ds"
    and small: "\<And>out. read_file fs' output = Some out \<Longrightarrow> length out < 2 ^ 54"
  shows "\<exists>source out view. read_file fs source_path = Some source \<and> read_file fs' output = Some out
    \<and> pack_view svc source = Some view
    \<and> pack_view svc out = Some (\<lambda>name. Option.bind (view name) (converted_stored ds target))
    \<and> (\<forall>name t. view name = Some t \<longrightarrow> converted_stored ds target t \<noteq> None)"
proof -
  obtain source version k m table payloads where source: "read_file fs source_path = Some source"
    and meta: "read_burnpack_metadata svc source = Inr (version, k, m)"
    and conv: "convert_tensors ds source (aligned_data_section_start k) target (by_offset (md_tensors m)) 0 [] [] = Inr (table, payloads)"
    and written: "write_burnpack_file svc fs output version
       \<lparr> md_tensors = table, md_metadata = btree_insert ''precision'' (dtype_precision_label target) (md_metadata m) \<rparr> payloads = (None, fs')"
    using run unfolding convert_burnpack_float_precision_def
    by (auto split: option.splits sum.splits prod.splits)
  let ?start = "aligned_data_section_start k" and ?olds = "by_offset (md_tensors m)"
  let ?md = "\<lparr> md_tensors = table, md_metadata = btree_insert ''precision'' (dtype_precision_label target) (md_metadata m) \<rparr>"
  note mf = read_metadata_facts [OF meta svc]
  obtain news where news: "list_all2 (converted_from ds source ?start target) ?olds news" "placed_from 0 news"
    and pay: "payloads = map payload_of news" and table: "table = foldl (\<lambda>t (name, d, b). btree_insert name d t) [] news"
    using convert_tensors_spec [OF conv] by (auto simp: payload_of_def)
  have names: "map fst ?olds = map fst (map placed_entry news)" using converted_names [OF news(1)] by simp
  have "distinct (map fst (md_tensors m))" using mf(2) by (simp add: metadata_ok_def btree_ok_def)
  then have dist: "distinct (map fst ?olds)" "distinct (map fst (map placed_entry news))"
    using distinct_by_offset unfolding names [symmetric] by blast+
  have btree: "btree_ok table" unfolding table by (rule foldl_btree_ok) (simp add: btree_ok_def)
  have "map_of table = map_of (rev (map placed_entry news))" unfolding table foldl_btree_map by (simp add: placed_entry_def)
  moreover have "map_of (rev (map placed_entry news)) = map_of (map placed_entry news)"
    using dist(2) by (intro map_of_inject_set [THEN iffD2]) (simp_all add: rev_map [symmetric] del: map_map)
  ultimately have tab: "map_of table = map_of (map placed_entry news)" by simp
  have from_old: "\<exists>d b t. (name, d) \<in> set (md_tensors m) \<and> td_shape d' = td_shape d \<and> td_param_id d' = td_param_id d
      \<and> read_tensor_payload source ?start (td_offsets d) name = Inr b
      \<and> convert_tensor ds target name d b = Inr (t, b') \<and> serialize_dtype ds t = Some (td_dtype d')"
    if mem: "(name, d', b') \<in> set news" for name d' b'
  proof -
    obtain i where i: "i < length news" "news ! i = (name, d', b')" using mem by (auto simp: in_set_conv_nth)
    then have i': "i < length ?olds" using list_all2_lengthD [OF news(1)] by simp
    have "converted_from ds source ?start target (?olds ! i) (name, d', b')" using list_all2_nthD2 [OF news(1) i(1)] i(2) by simp
    moreover have "?olds ! i \<in> set (md_tensors m)" using nth_mem [OF i'] unfolding by_offset_set .
    ultimately show ?thesis by (auto simp: converted_from_def split: prod.splits)
  qed
  obtain out where out: "read_file fs' output = Some out" "sum_list (map length payloads) \<le> length out"
    using write_burnpack_file_payloads [OF written] by blast
  have "sum_list (map (\<lambda>x. length (payload_of x)) news) < 2 ^ 54"
    using out(2) small [OF out(1)] by (simp add: pay comp_def)
  then have "round_up 0 + sum_list (map span_of news) < 2 ^ 63" using placed_short by (simp add: round_up_def)
  then have "sorted (map (fst \<circ> placed_block) news)" using placed_ascending [OF news(2)] by blast
  moreover have entries: "map (\<lambda>(name, d). fst (td_offsets d)) (map placed_entry news) = map (fst \<circ> placed_block) news"
    by (simp add: placed_entry_def placed_block_def split_def)
  ultimately have "sorted (map (\<lambda>(name, d). fst (td_offsets d)) (map placed_entry news))" by (simp only:)
  moreover have "distinct (map fst table)" using btree by (simp add: btree_ok_def)
  ultimately have order: "map (\<lambda>(name, d). fst (td_offsets d)) (by_offset table) = map (fst \<circ> placed_block) news"
    using by_offset_offsets [OF _ dist(2) tab] entries by simp
  have md: "metadata_ok ?md" using btree mf(2) by (simp add: metadata_ok_def btree_ok_insert)
  obtain start where view: "pack_view svc out = Some (\<lambda>name. Option.bind (map_of table name) (stored_tensor out start))"
    and tensors: "\<forall>(name, d, b)\<in>set news. stored_tensor out start d = Some (td_dtype d, td_shape d, td_param_id d, b)"
    using write_burnpack_file_view [OF written [unfolded pay] svc md mf(1) _ news(2) small] order out(1) by auto
  let ?view = "\<lambda>name. Option.bind (map_of (md_tensors m) name) (stored_tensor source ?start)"
  have here: "Option.bind (map_of table name) (stored_tensor out start) = Option.bind (?view name) (converted_stored ds target)
      \<and> (\<forall>t. ?view name = Some t \<longrightarrow> converted_stored ds target t \<noteq> None)" for name
  proof (cases "name \<in> fst ` set (map placed_entry news)")
    case False
    then have "map_of table name = None" unfolding tab by (simp add: map_of_eq_None_iff)
    moreover have "name \<notin> fst ` set (md_tensors m)"
      using False names by_offset_set [of "md_tensors m"] by (metis image_set)
    then have "map_of (md_tensors m) name = None" by (simp add: map_of_eq_None_iff)
    ultimately show ?thesis by simp
  next
    case True
    then obtain d' b' where mem: "(name, d', b') \<in> set news" by (auto simp: placed_entry_def)
    obtain d b t where d: "(name, d) \<in> set (md_tensors m)" "td_shape d' = td_shape d" "td_param_id d' = td_param_id d"
      "read_tensor_payload source ?start (td_offsets d) name = Inr b" "convert_tensor ds target name d b = Inr (t, b')"
      "serialize_dtype ds t = Some (td_dtype d')" using from_old [OF mem] by blast
    have "(name, d') \<in> set (map placed_entry news)" using mem by (force simp: placed_entry_def)
    then have "map_of table name = Some d'" unfolding tab using dist(2) by simp
    moreover have "stored_tensor out start d' = Some (td_dtype d', td_shape d', td_param_id d', b')" using tensors mem by blast
    moreover have "map_of (md_tensors m) name = Some d" using d(1) mf(2) by (simp add: metadata_ok_def btree_ok_def)
    moreover have "stored_tensor source ?start d = Some (td_dtype d, td_shape d, td_param_id d, b)"
      using read_tensor_payload_Inr [OF d(4)] by (simp add: stored_tensor_def)
    ultimately show ?thesis using convert_tensor_stored [OF ds target d(5,6)] d(2,3) by simp
  qed
  have "pack_view svc source = Some ?view" using meta by (simp add: pack_view_def)
  moreover have "pack_view svc out = Some (\<lambda>name. Option.bind (?view name) (converted_stored ds target))"
    unfolding view using here by simp
  ultimately show ?thesis using source out(1) here by blast
qed

end
