(* ===== verification/Checkpoint_Export_Properties.thy ===== *)
theory Checkpoint_Export_Properties
  imports Checkpoint_Export Checkpoint_Precision_Proofs Checkpoint_Samples
begin

text \<open>The properties of the precision conversion and of exported bundles, \<open>precision.rs\<close> and \<open>bundle.rs\<close>.\<close>

section \<open>Conversion\<close>

text \<open>C17: a conversion converts each tensor. When a burnpack is converted and the output is below 2^54 bytes, where the
  offsets cannot wrap, the output holds a tensor of each name of the source, empty ones included, with its shape and
  parameter: a float of another type with its elements converted to the target type, any other tensor with its bytes.
  CBOR reads back what it wrote, and the float types are those the code names.\<close>
theorem conversion_converts_each_tensor:
  assumes "convert_burnpack_precision svc ds fs source_path base precision policy = (Inr output, fs')"
    and "cbor_ok svc" and "dtype_lawful ds"
    and "\<And>out. read_file fs' output = Some out \<Longrightarrow> length out < 2 ^ 54"
  shows "\<exists>source out view. read_file fs source_path = Some source \<and> read_file fs' output = Some out
    \<and> pack_view svc source = Some view
    \<and> pack_view svc out = Some (\<lambda>name. Option.bind (view name) (converted_stored ds (precision_dtype precision)))
    \<and> (\<forall>name t. view name = Some t \<longrightarrow> converted_stored ds (precision_dtype precision) t \<noteq> None)"
proof (rule convert_burnpack_float_precision_view [OF _ _ assms(2-4)])
  show "convert_burnpack_float_precision svc ds fs source_path output (precision_dtype precision) = (None, fs')"
    using assms(1) by (auto simp: convert_burnpack_precision_def Let_def split: prod.splits option.splits)
  show "precision_dtype precision \<in> {DF16, DF32}" by (cases precision) (simp_all add: precision_dtype_def)
qed

definition f32_tensor :: "dtype raw_descriptor" where
  "f32_tensor = \<lparr> td_dtype = DF32, td_shape = [1], td_offsets = (0, 1), td_param_id = None \<rparr>"

definition f32_metadata :: "dtype raw_metadata" where
  "f32_metadata = \<lparr> md_tensors = [(''w'', f32_tensor)], md_metadata = [] \<rparr>"

definition f16_metadata :: "dtype raw_metadata" where
  "f16_metadata = \<lparr> md_tensors = [(''w'', f32_tensor\<lparr> td_dtype := DF16 \<rparr>)], md_metadata = [(''precision'', ''f16'')] \<rparr>"

definition float_services :: "dtype pack_services" where
  "float_services =
     \<lparr> to_cbor = (\<lambda>m. if m = f16_metadata then Some ''N'' else None),
       from_cbor = (\<lambda>b. if b = ''M'' then Some f32_metadata else if b = ''N'' then Some f16_metadata else None),
       to_json = (\<lambda>m. None), from_json = (\<lambda>b. None), sha256 = (\<lambda>b. ''d'') \<rparr>"

definition float_dtypes :: "dtype dtype_services" where
  "float_dtypes =
     \<lparr> parse_dtype = Some, serialize_dtype = Some, is_float = (\<lambda>d. d \<in> {DF32, DF16}),
       convert_elements = (\<lambda>s t shape b. Some (map (\<lambda>c. CHR ''y'') b)) \<rparr>"

lemma float_lawful: "cbor_ok float_services" "dtype_lawful float_dtypes"
  by (auto simp: cbor_ok_def float_services_def metadata_ok_def f32_metadata_def f16_metadata_def btree_ok_def
      dtype_lawful_def float_dtypes_def split: if_splits)

lemma float_read: "read_burnpack_metadata float_services bpk_pack = Inr (1, 1, f32_metadata)"
  using read_metadata_front [of "''M''" 1 float_services f32_metadata "''x''"]
  by (simp add: bpk_pack_def float_services_def)

lemma float_payload: "read_tensor_payload bpk_pack 256 (0, 1) ''w'' = Inr ''x''"
proof -
  have "read_exact_at bpk_pack 256 1 = Some ''x''"
    by (simp add: read_exact_at_def bpk_length) (simp add: bpk_pack_def bpk_front_Suc)
  then show ?thesis by (simp add: read_tensor_payload_def usize_max_def)
qed

lemma float_converted:
  "convert_tensors float_dtypes bpk_pack 256 DF16 [(''w'', f32_tensor)] 0 [] []
     = Inr ([(''w'', f32_tensor\<lparr> td_dtype := DF16 \<rparr>)], [''y''])"
proof -
  have c: "convert_tensor float_dtypes DF16 ''w'' f32_tensor ''x'' = Inr (DF16, ''y'')"
    by (simp add: convert_tensor_def float_dtypes_def f32_tensor_def convert_float_dtype_def
        convert_tensor_data_float_precision_def)
  have o: "td_offsets f32_tensor = (0, 1)" by (simp add: f32_tensor_def)
  have a: "align_offset 0 tensor_alignment = 0" by (simp add: align_offset_def tensor_alignment_def)
  have s: "serialize_dtype float_dtypes DF16 = Some DF16" by (simp add: float_dtypes_def)
  have "f32_tensor\<lparr> td_dtype := DF16, td_offsets := (0, 1) \<rparr> = f32_tensor\<lparr> td_dtype := DF16 \<rparr>" by (simp add: f32_tensor_def)
  then show ?thesis
    by (simp add: o float_payload c a s btree_insert_def usize_max_def del: One_nat_def)
qed

definition f16_path :: fs_path where
  "f16_path = FsPath True [''m_f16.bpk'']"

definition f16_file :: file_entry where
  "f16_file = \<lparr> file_bytes = pack_front 1 ''N'' @ ''y'', file_modified = Some 9 \<rparr>"

lemma float_run_from:
  assumes "read_file fs source_path = Some bpk_pack" and dir: "ensure_parent_dir fs f16_path = Some fs1"
    and dirs: "is_dir fs1 (FsPath True [])" "\<not> is_dir fs1 f16_path" and clock: "fs_now fs1 = Some 9"
  shows "convert_burnpack_precision float_services float_dtypes fs source_path (FsPath True [''m'']) PrecisionF16 default_load_policy
      = (Inr f16_path, fs1\<lparr> fs_files := (fs_files fs1)(f16_path \<mapsto> f16_file) \<rparr>)" (is "_ = (_, ?fs2)")
proof -
  have target: "burnpack_path (FsPath True [''m'']) (PrecisionF16 = PrecisionF16) (lp_f16_suffix default_load_policy) = f16_path"
    by code_simp
  have parent: "parent_of f16_path = Some (FsPath True [])" by (simp add: f16_path_def parent_of_def)
  have cbor: "to_cbor float_services f16_metadata = Some ''N''" by (simp add: float_services_def)
  have front: "length (pack_front 1 ''N'') = 256"
  proof -
    have "length ''N'' < 2 ^ 32" by simp
    from length_pack_front [OF this] show ?thesis using bpk_start by simp
  qed
  have emit: "emit_payloads 256 (zip (by_offset (md_tensors f16_metadata)) [''y'']) (pack_front 1 ''N'') = (None, pack_front 1 ''N'' @ ''y'')"
    using front by (simp add: f16_metadata_def f32_tensor_def by_offset_def tensor_len_def pad_to_def zeros_def usize_max_def)
  have stored: "write_file fs1 f16_path (pack_front 1 ''N'' @ ''y'') = Some ?fs2"
    using dirs clock by (simp add: write_file_def parent f16_file_def)
  have start: "aligned_data_section_start 1 = 256" by (rule bpk_start)
  have len: "length (by_offset (md_tensors f16_metadata)) = length [''y'']" by (simp add: by_offset_def f16_metadata_def)
  have written: "write_burnpack_file float_services fs f16_path 1 f16_metadata [''y''] = (None, ?fs2)"
    unfolding write_burnpack_file_def dir option.case cbor Let_def using emit len stored start by simp
  have md: "\<lparr> md_tensors = [(''w'', f32_tensor\<lparr> td_dtype := DF16 \<rparr>)],
      md_metadata = btree_insert ''precision'' (dtype_precision_label DF16) (md_metadata f32_metadata) \<rparr> = f16_metadata"
    by (simp add: f16_metadata_def f32_metadata_def btree_insert_def dtype_precision_label_def)
  have tensors: "by_offset (md_tensors f32_metadata) = [(''w'', f32_tensor)]" by (simp add: by_offset_def f32_metadata_def)
  have "convert_burnpack_float_precision float_services float_dtypes fs source_path f16_path DF16 = (None, ?fs2)"
    unfolding convert_burnpack_float_precision_def assms(1) option.case float_read sum.case prod.case start tensors float_converted md written
    by simp
  then show ?thesis unfolding convert_burnpack_precision_def Let_def target by (simp add: precision_dtype_def)
qed

lemma float_run:
  "\<exists>fs'. convert_burnpack_precision float_services float_dtypes bpk_fs bpk_path (FsPath True [''m'']) PrecisionF16 default_load_policy
      = (Inr f16_path, fs') \<and> (\<exists>out. read_file fs' f16_path = Some out \<and> length out < 2 ^ 54)"
proof -
  let ?fs1 = "bpk_fs\<lparr> fs_dirs := {FsPath True []} \<rparr>"
  have parent: "parent_of f16_path = Some (FsPath True [])" by (simp add: f16_path_def parent_of_def)
  have files: "fs_files bpk_fs (FsPath True []) = None" "read_file bpk_fs bpk_path = Some bpk_pack"
    by (simp_all add: bpk_fs_def read_file_def) (simp add: bpk_path_def)
  have dir: "ensure_parent_dir bpk_fs f16_path = Some ?fs1"
    using files(1) by (simp add: ensure_parent_dir_def parent create_dir_all_def bpk_ancestors is_file_def) (simp add: bpk_fs_def)
  note run = float_run_from [OF files(2) dir]
  have "length ''N'' < 2 ^ 32" by simp
  from length_pack_front [OF this, of 1] have "length (file_bytes f16_file) < 2 ^ 54" using bpk_start by (simp add: f16_file_def)
  moreover have "is_dir ?fs1 (FsPath True [])" "\<not> is_dir ?fs1 f16_path" "fs_now ?fs1 = Some 9"
    by (simp_all add: is_dir_def f16_path_def bpk_fs_def)
  ultimately show ?thesis using run by (simp add: read_file_def)
qed

theorem conversion_converts_each_tensor_witness:
  "\<exists>fs'. convert_burnpack_precision float_services float_dtypes bpk_fs bpk_path (FsPath True [''m'']) PrecisionF16 default_load_policy
      = (Inr f16_path, fs')
    \<and> (\<exists>source out view. read_file bpk_fs bpk_path = Some source \<and> read_file fs' f16_path = Some out
    \<and> pack_view float_services source = Some view
    \<and> pack_view float_services out = Some (\<lambda>name. Option.bind (view name) (converted_stored float_dtypes (precision_dtype PrecisionF16)))
    \<and> (\<forall>name t. view name = Some t \<longrightarrow> converted_stored float_dtypes (precision_dtype PrecisionF16) t \<noteq> None))"
proof -
  obtain fs' out where run: "convert_burnpack_precision float_services float_dtypes bpk_fs bpk_path (FsPath True [''m'']) PrecisionF16
      default_load_policy = (Inr f16_path, fs')" and out: "read_file fs' f16_path = Some out" "length out < 2 ^ 54"
    using float_run by blast
  show ?thesis
  proof (rule exI [of _ fs'], rule conjI [OF run], rule conversion_converts_each_tensor [OF run float_lawful])
    show "\<And>out. read_file fs' f16_path = Some out \<Longrightarrow> length out < 2 ^ 54" using out by simp
  qed
qed

section \<open>Bundles\<close>











end
