(* ===== verification/Checkpoint_Runs.thy ===== *)
theory Checkpoint_Runs
  imports Checkpoint_Files
begin

text \<open>
  Run directories and their checkpoints (\<open>run.rs\<close>): the epoch of a checkpoint is read from its name,
  and a directory resolves to its latest one. The names a directory lists, in the order of the
  operating system, are the argument \<open>read_dir\<close>, none when it cannot be read. The contents of a
  snapshot are its JSON text; serialising a value is the caller's \<open>to_json\<close>.
\<close>

datatype run_error =
  RunDirUncreatable fs_path | Unserializable | SnapshotUnwritable fs_path | SnapshotUnreadable fs_path
| SnapshotUnparsable fs_path | DirectoryUnreadable fs_path | NoCheckpoints fs_path | CheckpointMissing fs_path
| EpochUnknown fs_path

section \<open>Snapshots\<close>

definition run_snapshot_path :: "fs_path \<Rightarrow> string \<Rightarrow> fs_path" where
  "run_snapshot_path run_dir name = path_join run_dir (parse_path name)"

definition write_json_snapshot ::
    "('a \<Rightarrow> string option) \<Rightarrow> file_system \<Rightarrow> fs_path \<Rightarrow> string \<Rightarrow> 'a \<Rightarrow> run_error option \<times> file_system" where
  "write_json_snapshot to_json fs run_dir name v =
     (case create_dir_all fs run_dir of
        None \<Rightarrow> (Some (RunDirUncreatable run_dir), fs)
      | Some fs1 \<Rightarrow>
          (case to_json v of
             None \<Rightarrow> (Some Unserializable, fs1)
           | Some payload \<Rightarrow>
               (case write_file fs1 (run_snapshot_path run_dir name) payload of
                  None \<Rightarrow> (Some (SnapshotUnwritable (run_snapshot_path run_dir name)), fs1)
                | Some fs2 \<Rightarrow> (None, fs2))))"

definition load_json_snapshot :: "(string \<Rightarrow> 'a option) \<Rightarrow> file_system \<Rightarrow> fs_path \<Rightarrow> string \<Rightarrow> run_error + 'a" where
  "load_json_snapshot from_json fs run_dir name =
     (case read_file fs (run_snapshot_path run_dir name) of
        None \<Rightarrow> Inl (SnapshotUnreadable (run_snapshot_path run_dir name))
      | Some contents \<Rightarrow>
          (case from_json contents of
             None \<Rightarrow> Inl (SnapshotUnparsable (run_snapshot_path run_dir name))
           | Some v \<Rightarrow> Inr v))"

section \<open>Checkpoint names\<close>

definition strip_suffix :: "string \<Rightarrow> string \<Rightarrow> string option" where
  "strip_suffix ending s = (if ends_with s ending then Some (take (length s - length ending) s) else None)"

definition parse_epoch_from_stem :: "fs_path \<Rightarrow> nat option" where
  "parse_epoch_from_stem p =
     (case file_name p of
        None \<Rightarrow> None
      | Some name \<Rightarrow>
          let stem = (case strip_suffix ''.bin'' name of Some s \<Rightarrow> s | None \<Rightarrow> name)
          in (case strip_prefix ''model-'' stem of
                None \<Rightarrow> None
              | Some epoch_part \<Rightarrow> parse_usize epoch_part))"

definition checkpoint_bin_path :: "fs_path \<Rightarrow> fs_path" where
  "checkpoint_bin_path base = with_extension base ''bin''"

text \<open>\<open>strip_suffix\<close> on the text of the path: the suffix has no separator, so it is the end of the last
  component; a last component that is nothing else leaves its directory.\<close>

definition drop_extension :: "fs_path \<Rightarrow> fs_path" where
  "drop_extension p = (if extension_of p \<noteq> None then with_extension p [] else p)"

definition strip_checkpoint_extension :: "fs_path \<Rightarrow> fs_path" where
  "strip_checkpoint_extension p =
     (case (if components p = [] then None else strip_suffix ''.parts.json'' (last (components p))) of
        Some stripped \<Rightarrow>
          drop_extension (FsPath (is_absolute p) (butlast (components p) @ filter proper_component [stripped]))
      | None \<Rightarrow> drop_extension p)"

definition ensure_checkpoint_exists :: "file_system \<Rightarrow> fs_path \<Rightarrow> run_error option" where
  "ensure_checkpoint_exists fs base =
     (if is_file fs (checkpoint_bin_path base) then None else Some (CheckpointMissing (checkpoint_bin_path base)))"

fun latest_epoch :: "file_system \<Rightarrow> fs_path \<Rightarrow> string list \<Rightarrow> nat option \<Rightarrow> nat option" where
  "latest_epoch fs d [] max_epoch = max_epoch"
| "latest_epoch fs d (name # names) max_epoch =
     (let entry = path_join d (FsPath False [name]) in
      if \<not> is_file fs entry then latest_epoch fs d names max_epoch
      else case parse_epoch_from_stem (with_extension entry []) of
        None \<Rightarrow> latest_epoch fs d names max_epoch
      | Some epoch \<Rightarrow>
          latest_epoch fs d names (Some (case max_epoch of None \<Rightarrow> epoch | Some current \<Rightarrow> max current epoch)))"

definition find_latest_epoch :: "file_system \<Rightarrow> (fs_path \<Rightarrow> string list option) \<Rightarrow> fs_path \<Rightarrow> run_error + nat" where
  "find_latest_epoch fs read_dir d =
     (case read_dir d of
        None \<Rightarrow> Inl (DirectoryUnreadable d)
      | Some names \<Rightarrow>
          (case latest_epoch fs d names None of None \<Rightarrow> Inl (NoCheckpoints d) | Some epoch \<Rightarrow> Inr epoch))"

definition model_path :: "fs_path \<Rightarrow> nat \<Rightarrow> fs_path" where
  "model_path d epoch = path_join d (parse_path (''model-'' @ show_nat epoch))"

definition check_base :: "file_system \<Rightarrow> fs_path \<Rightarrow> nat \<Rightarrow> run_error + fs_path \<times> nat" where
  "check_base fs base epoch =
     (case ensure_checkpoint_exists fs base of Some e \<Rightarrow> Inl e | None \<Rightarrow> Inr (base, epoch))"

definition resolve_checkpoint_base ::
    "file_system \<Rightarrow> (fs_path \<Rightarrow> string list option) \<Rightarrow> fs_path \<Rightarrow> nat option \<Rightarrow> run_error + fs_path \<times> nat" where
  "resolve_checkpoint_base fs read_dir p epoch =
     (if is_dir fs p then
        result_bind (find_latest_epoch fs read_dir p) (\<lambda>latest.
          let target_epoch = (case epoch of Some e \<Rightarrow> e | None \<Rightarrow> latest)
          in check_base fs (model_path p target_epoch) target_epoch)
      else
        let base = strip_checkpoint_extension p;
            detected_epoch = parse_epoch_from_stem base
        in case (epoch, detected_epoch) of
             (None, None) \<Rightarrow> Inl (EpochUnknown p)
           | (None, Some detected) \<Rightarrow> check_base fs base detected
           | (Some explicit, Some detected) \<Rightarrow>
               if explicit \<noteq> detected then
                 check_base fs (model_path (case parent_of base of Some d \<Rightarrow> d | None \<Rightarrow> FsPath False []) explicit) explicit
               else check_base fs base explicit
           | (Some explicit, None) \<Rightarrow>
               check_base fs (model_path (case parent_of base of Some d \<Rightarrow> d | None \<Rightarrow> parse_path ''runs'') explicit) explicit)"

definition resolve_checkpoint_run_dir :: "file_system \<Rightarrow> fs_path \<Rightarrow> fs_path option" where
  "resolve_checkpoint_run_dir fs checkpoint =
     (if is_dir fs checkpoint then
        (if file_name checkpoint = Some ''checkpoint'' then parent_of checkpoint else Some checkpoint)
      else
        (case parent_of checkpoint of
           None \<Rightarrow> None
         | Some parent \<Rightarrow> if file_name parent = Some ''checkpoint'' then parent_of parent else Some parent))"

end
