(* ===== verification/Checkpoint_Runs_Properties.thy ===== *)
theory Checkpoint_Runs_Properties
  imports Checkpoint_Runs
begin

text \<open>What a run directory resolves to, \<open>run.rs\<close>.\<close>

definition model_name :: "nat \<Rightarrow> string" where
  "model_name n = ''model-'' @ show_nat n"

lemma plain_model_name: "plain_name (model_name n)" "plain_name (model_name n @ ''.bin'')"
  using show_nat_notin [of "CHR ''/''" n] by (auto simp: plain_name_def proper_component_def model_name_def)

lemma model_name_no_dot: "CHR ''.'' \<notin> set (model_name n)"
  using show_nat_notin [of "CHR ''.''" n] by (auto simp: model_name_def)

lemma model_path_eq: "model_path d n = FsPath (is_absolute d) (components d @ [model_name n])"
  using plain_model_name(1) [of n] by (simp add: model_path_def path_join_def model_name_def)

lemma file_name_snoc: "name \<noteq> ''..'' \<Longrightarrow> file_name (FsPath a (cs @ [name])) = Some name"
  by (simp add: file_name_def)

lemma model_name_bin: "split_extension (model_name n @ ''.bin'') = (model_name n, Some ''bin'')"
  using split_extension_append [of "model_name n" "''bin''"] by (simp add: model_name_def)

lemma checkpoint_file: "checkpoint_bin_path (model_path d n) = FsPath (is_absolute d) (components d @ [model_name n @ ''.bin''])"
proof -
  have "model_name n \<noteq> ''..''" by (simp add: model_name_def)
  then have "file_name (model_path d n) = Some (model_name n)" unfolding model_path_eq by (rule file_name_snoc)
  moreover have "split_extension (model_name n) = (model_name n, None)" using model_name_no_dot by (simp add: split_extension_def)
  ultimately have "file_stem (model_path d n) = Some (model_name n)" by (simp add: file_stem_def)
  moreover have "proper_component (model_name n @ ''.bin'')" by (simp add: proper_component_def model_name_def)
  ultimately show ?thesis by (simp add: checkpoint_bin_path_def with_extension_def model_path_eq)
qed

text \<open>The epoch of a file a directory lists.\<close>

definition listed_epoch :: "file_system \<Rightarrow> fs_path \<Rightarrow> string \<Rightarrow> nat option" where
  "listed_epoch fs d name =
     (let entry = path_join d (FsPath False [name])
      in if is_file fs entry then parse_epoch_from_stem (with_extension entry []) else None)"

lemma listed_model:
  assumes "is_file fs (FsPath (is_absolute d) (components d @ [model_name n @ ''.bin'']))" "n \<le> usize_max"
  shows "listed_epoch fs d (model_name n @ ''.bin'') = Some n"
proof -
  let ?p = "FsPath (is_absolute d) (components d @ [model_name n @ ''.bin''])"
  have "model_name n @ ''.bin'' \<noteq> ''..''" by (simp add: model_name_def)
  then have "file_name ?p = Some (model_name n @ ''.bin'')" by (rule file_name_snoc)
  then have "file_stem ?p = Some (model_name n)" by (simp add: file_stem_def model_name_bin)
  moreover have proper: "proper_component (model_name n)" "model_name n \<noteq> ''..''" by (simp_all add: proper_component_def model_name_def)
  ultimately have base: "with_extension ?p [] = FsPath (is_absolute d) (components d @ [model_name n])" by (simp add: with_extension_def)
  have name: "file_name (FsPath (is_absolute d) (components d @ [model_name n])) = Some (model_name n)"
    using proper(2) by (rule file_name_snoc)
  have "strip_suffix ''.bin'' (model_name n) = None"
    using model_name_no_dot [of n] ends_withD [of "model_name n" "''.bin''"] by (auto simp: strip_suffix_def)
  then have "parse_epoch_from_stem (with_extension ?p []) = Some n"
    unfolding parse_epoch_from_stem_def base name using assms(2) by (simp add: model_name_def strip_prefix_def)
  then show ?thesis using assms(1) by (simp add: listed_epoch_def path_join_def)
qed

lemma latest_epoch_max:
  "latest_epoch fs d names acc =
     (let epochs = {n. \<exists>name\<in>set names. listed_epoch fs d name = Some n}
      in if epochs = {} then acc else Some (case acc of None \<Rightarrow> Max epochs | Some m \<Rightarrow> max m (Max epochs)))"
proof (induction names arbitrary: acc)
  case (Cons name names)
  let ?E = "\<lambda>ns. {n. \<exists>name\<in>set ns. listed_epoch fs d name = Some n}"
  have fin: "finite (?E names)"
    by (rule finite_subset [of _ "(\<lambda>name. the (listed_epoch fs d name)) ` set names"]) force+
  show ?case
  proof (cases "listed_epoch fs d name")
    case None
    then have "?E (name # names) = ?E names" by auto
    moreover have "latest_epoch fs d (name # names) acc = latest_epoch fs d names acc"
      using None by (auto simp: listed_epoch_def Let_def split: option.splits)
    ultimately show ?thesis using Cons.IH by simp
  next
    case (Some n)
    then have E: "?E (name # names) = insert n (?E names)" by auto
    have "latest_epoch fs d (name # names) acc = latest_epoch fs d names (Some (case acc of None \<Rightarrow> n | Some current \<Rightarrow> max current n))"
      using Some by (auto simp: listed_epoch_def Let_def split: if_splits)
    then show ?thesis using fin unfolding E Cons.IH by (auto simp: Let_def max.assoc split: option.splits)
  qed
qed (simp add: Let_def)

text \<open>C18: the latest checkpoint is found. When the files of a directory that carry an epoch are checkpoints
  \<open>model-N.bin\<close>, resolving the directory without an epoch gives the greatest \<open>N\<close> with the path of its checkpoint, and an
  error exactly when there is none.\<close>
theorem latest_checkpoint_is_found:
  assumes "is_dir fs d" and "read_dir d = Some names"
    and "\<And>name n. name \<in> set names \<Longrightarrow> listed_epoch fs d name = Some n \<Longrightarrow> n \<le> usize_max \<and> name = model_name n @ ''.bin''"
  shows "resolve_checkpoint_base fs read_dir d None =
    (let epochs = {n. n \<le> usize_max \<and> model_name n @ ''.bin'' \<in> set names
         \<and> is_file fs (FsPath (is_absolute d) (components d @ [model_name n @ ''.bin'']))}
     in if epochs = {} then Inl (NoCheckpoints d) else Inr (model_path d (Max epochs), Max epochs))"
proof -
  let ?E = "{n. n \<le> usize_max \<and> model_name n @ ''.bin'' \<in> set names
         \<and> is_file fs (FsPath (is_absolute d) (components d @ [model_name n @ ''.bin'']))}"
  let ?L = "{n. \<exists>name\<in>set names. listed_epoch fs d name = Some n}"
  have "n \<in> ?E" if n: "n \<in> ?L" for n
  proof -
    obtain name where name: "name \<in> set names" "listed_epoch fs d name = Some n" using n by blast
    then have "n \<le> usize_max" "name = model_name n @ ''.bin''" using assms(3) by blast+
    moreover have "is_file fs (path_join d (FsPath False [name]))"
      using name(2) by (auto simp: listed_epoch_def Let_def split: if_splits)
    ultimately show ?thesis using name(1) by (simp add: path_join_def)
  qed
  moreover have "?E \<subseteq> ?L" using listed_model by blast
  ultimately have E: "?L = ?E" by blast
  have fin: "finite ?E" by (rule finite_subset [of _ "{..usize_max}"]) auto
  show ?thesis
  proof (cases "?E = {}")
    case True
    then show ?thesis
      using assms(1,2) by (simp add: resolve_checkpoint_base_def find_latest_epoch_def latest_epoch_max E Let_def)
  next
    case False
    then have "Max ?E \<in> ?E" using fin by (rule Max_in [rotated])
    then have "check_base fs (model_path d (Max ?E)) (Max ?E) = Inr (model_path d (Max ?E), Max ?E)"
      by (simp add: check_base_def ensure_checkpoint_exists_def checkpoint_file)
    moreover have "find_latest_epoch fs read_dir d = Inr (Max ?E)"
      using assms(2) False by (simp add: find_latest_epoch_def latest_epoch_max E Let_def)
    ultimately show ?thesis using assms(1) False by (simp add: resolve_checkpoint_base_def Let_def)
  qed
qed

text \<open>A directory with two checkpoints and a note.\<close>

definition runs_dir :: fs_path where
  "runs_dir = FsPath True [''checkpoint'']"

definition runs_names :: "string list" where
  "runs_names = [''model-2.bin'', ''notes.txt'', ''model-10.bin'']"

definition runs_fs :: file_system where
  "runs_fs = \<lparr> fs_files = (\<lambda>p. if p \<in> (\<lambda>name. FsPath True [''checkpoint'', name]) ` set runs_names
       then Some \<lparr> file_bytes = [], file_modified = None \<rparr> else None),
     fs_dirs = {runs_dir}, fs_dir_info = (\<lambda>p. (0, None)), fs_now = None \<rparr>"

lemma runs_model_names: "model_name 2 @ ''.bin'' = ''model-2.bin''" "model_name 10 @ ''.bin'' = ''model-10.bin''"
  by code_simp+

lemma runs_files: "is_file runs_fs (FsPath True [''checkpoint'', name]) \<longleftrightarrow> name \<in> set runs_names"
  by (auto simp: is_file_def runs_fs_def)

lemma runs_epochs:
  "listed_epoch runs_fs runs_dir ''model-2.bin'' = Some 2" "listed_epoch runs_fs runs_dir ''model-10.bin'' = Some 10"
  "listed_epoch runs_fs runs_dir ''notes.txt'' = None"
proof -
  have files: "is_file runs_fs (FsPath (is_absolute runs_dir) (components runs_dir @ [name])) \<longleftrightarrow> name \<in> set runs_names" for name
    using runs_files by (simp add: runs_dir_def)
  show "listed_epoch runs_fs runs_dir ''model-2.bin'' = Some 2"
    using listed_model [of runs_fs runs_dir 2] unfolding files runs_model_names by (simp add: runs_names_def usize_max_def)
  show "listed_epoch runs_fs runs_dir ''model-10.bin'' = Some 10"
    using listed_model [of runs_fs runs_dir 10] unfolding files runs_model_names by (simp add: runs_names_def usize_max_def)
  have "parse_epoch_from_stem (with_extension (path_join runs_dir (FsPath False [''notes.txt''])) []) = None" by code_simp
  then show "listed_epoch runs_fs runs_dir ''notes.txt'' = None" by (simp only: listed_epoch_def Let_def if_cancel)
qed

theorem latest_checkpoint_is_found_witness:
  "resolve_checkpoint_base runs_fs (\<lambda>_. Some runs_names) runs_dir None =
    (let epochs = {n. n \<le> usize_max \<and> model_name n @ ''.bin'' \<in> set runs_names
         \<and> is_file runs_fs (FsPath (is_absolute runs_dir) (components runs_dir @ [model_name n @ ''.bin'']))}
     in if epochs = {} then Inl (NoCheckpoints runs_dir) else Inr (model_path runs_dir (Max epochs), Max epochs))
   \<and> is_file runs_fs (checkpoint_bin_path (model_path runs_dir 10))"
proof (rule conjI [OF latest_checkpoint_is_found])
  show "is_dir runs_fs runs_dir" by (simp add: is_dir_def runs_fs_def)
  show "is_file runs_fs (checkpoint_bin_path (model_path runs_dir 10))"
    unfolding checkpoint_file runs_model_names by (simp add: runs_dir_def runs_files runs_names_def)
next
  fix name n
  assume "name \<in> set runs_names" "listed_epoch runs_fs runs_dir name = Some n"
  then have "(name = ''model-2.bin'' \<and> n = 2) \<or> (name = ''model-10.bin'' \<and> n = 10)" by (auto simp: runs_names_def runs_epochs)
  then show "n \<le> usize_max \<and> name = model_name n @ ''.bin''"
    using runs_model_names by (auto simp: usize_max_def)
qed simp

end
