(* ===== verification/Pipeline_Plan.thy ===== *)
theory Pipeline_Plan
  imports Ruliad_Prelude
begin

text \<open>
  The pipeline planner of the crate burn_dragon_train (\<open>planner/plan.rs\<close>, \<open>planner/types.rs\<close>): layers are
  divided over virtual stages, virtual stages over physical ones in turn, and the forward and
  backward passes of all microbatches are simulated tick by tick into a list of events. The index
  reads are in range by the shapes of the tables, which the planner builds itself. The fraction of
  idle slots, a float, is kept as its numerator and denominator.
\<close>

section \<open>Configuration\<close>

datatype schedule_kind = Gpipe | Interleaved1f1b

datatype partition_kind = LayerContiguous

datatype communication_kind = ActivationTensor | BlockResidualCache

datatype cache_policy = CacheDisabled | ResidentBlockSummaries

datatype eviction_kind = StepBoundary

datatype transport_dtype = TransportAuto | TransportFp32 | TransportBf16 | TransportF16

datatype shared_weight_sync = AllReducePerStep

record cache_config =
  ca_enabled :: bool
  ca_policy :: cache_policy
  ca_reuse_across_backward :: bool
  ca_max_inflight_microbatches :: nat
  ca_eviction :: eviction_kind
  ca_transport_dtype :: transport_dtype

record pipeline_config =
  pc_enabled :: bool
  pc_stage_count :: nat
  pc_virtual_stages_per_rank :: nat
  pc_schedule :: schedule_kind
  pc_microbatches :: nat
  pc_partition :: partition_kind
  pc_activation_checkpointing :: bool
  pc_shared_weight_sync :: shared_weight_sync
  pc_communication :: communication_kind
  pc_cache :: cache_config

section \<open>Plans\<close>

datatype event_kind = ForwardEvent | BackwardEvent

record stage_assignment =
  sa_virtual_stage_id :: nat
  sa_physical_stage_id :: nat
  sa_local_stage_index :: nat
  sa_layer_range :: "nat \<times> nat"

definition layer_count :: "stage_assignment \<Rightarrow> nat" where
  "layer_count a = snd (sa_layer_range a) - fst (sa_layer_range a)"

record schedule_event =
  ev_tick :: nat
  ev_physical_stage_id :: nat
  ev_virtual_stage_id :: nat
  ev_local_stage_index :: nat
  ev_microbatch_id :: nat
  ev_kind :: event_kind

record plan_metrics =
  mt_total_ticks :: nat
  mt_total_events :: nat
  mt_stage_busy_ticks :: "nat list"
  mt_stage_idle_ticks :: "nat list"
  mt_bubble :: "nat \<times> nat"

record pipeline_plan =
  pl_physical_stage_count :: nat
  pl_virtual_stages_per_rank :: nat
  pl_total_virtual_stages :: nat
  pl_microbatches :: nat
  pl_schedule :: schedule_kind
  pl_partition :: partition_kind
  pl_stage_assignments :: "stage_assignment list"
  pl_events :: "schedule_event list"
  pl_metrics :: plan_metrics

definition plan_assignment :: "pipeline_plan \<Rightarrow> nat \<Rightarrow> stage_assignment" where
  "plan_assignment plan virtual_stage_id = pl_stage_assignments plan ! virtual_stage_id"

definition stage_assignments_for_physical_stage :: "pipeline_plan \<Rightarrow> nat \<Rightarrow> stage_assignment list" where
  "stage_assignments_for_physical_stage plan p = filter (\<lambda>a. sa_physical_stage_id a = p) (pl_stage_assignments plan)"

definition events_for_physical_stage :: "pipeline_plan \<Rightarrow> nat \<Rightarrow> schedule_event list" where
  "events_for_physical_stage plan p = filter (\<lambda>e. ev_physical_stage_id e = p) (pl_events plan)"

definition forward_events_for_physical_stage :: "pipeline_plan \<Rightarrow> nat \<Rightarrow> schedule_event list" where
  "forward_events_for_physical_stage plan p = filter (\<lambda>e. ev_kind e = ForwardEvent) (events_for_physical_stage plan p)"

definition backward_events_for_physical_stage :: "pipeline_plan \<Rightarrow> nat \<Rightarrow> schedule_event list" where
  "backward_events_for_physical_stage plan p = filter (\<lambda>e. ev_kind e = BackwardEvent) (events_for_physical_stage plan p)"

record rank_workload =
  rw_global_rank :: nat
  rw_pipeline_stage_id :: nat
  rw_data_parallel_rank :: nat
  rw_stage_assignments :: "stage_assignment list"
  rw_forward_events :: "schedule_event list"
  rw_backward_events :: "schedule_event list"

definition build_pipeline_rank_workload :: "pipeline_plan \<Rightarrow> nat \<Rightarrow> nat \<Rightarrow> nat \<Rightarrow> rank_workload" where
  "build_pipeline_rank_workload plan global_rank pipeline_stage_id data_parallel_rank =
     \<lparr> rw_global_rank = global_rank, rw_pipeline_stage_id = pipeline_stage_id,
       rw_data_parallel_rank = data_parallel_rank,
       rw_stage_assignments = stage_assignments_for_physical_stage plan pipeline_stage_id,
       rw_forward_events = forward_events_for_physical_stage plan pipeline_stage_id,
       rw_backward_events = backward_events_for_physical_stage plan pipeline_stage_id \<rparr>"

datatype plan_error =
  PipelineDisabled | NoLayers | NoStages | NoVirtualStages | TooManyVirtualStages | NoMicrobatches
| TooFewMicrobatches | StageCountOverflow | TooFewLayers | UnsupportedPartition | EventCountOverflow
| Deadlocked nat | TooFewItems

section \<open>Even division\<close>

text \<open>Both divisions give the first \<open>remainder\<close> shares one more than the others.\<close>

fun split_loop_ranges :: "nat \<Rightarrow> nat \<Rightarrow> nat list \<Rightarrow> nat \<Rightarrow> (nat \<times> nat) list" where
  "split_loop_ranges base remainder [] start = []"
| "split_loop_ranges base remainder (index # indices) start =
     (let stop = start + (base + of_bool (index < remainder))
      in (start, stop) # split_loop_ranges base remainder indices stop)"

definition split_microbatch_ranges :: "nat \<Rightarrow> nat \<Rightarrow> plan_error + (nat \<times> nat) list" where
  "split_microbatch_ranges total_items microbatches =
     (if microbatches = 0 then Inl NoMicrobatches
      else if total_items < microbatches then Inl TooFewItems
      else Inr (split_loop_ranges (total_items div microbatches) (total_items mod microbatches) [0..<microbatches] 0))"

fun partition_loop :: "nat \<Rightarrow> nat \<Rightarrow> nat \<Rightarrow> nat list \<Rightarrow> nat \<Rightarrow> stage_assignment list" where
  "partition_loop physical_stage_count base remainder [] layer_cursor = []"
| "partition_loop physical_stage_count base remainder (v # vs) layer_cursor =
     (let next_cursor = layer_cursor + (base + of_bool (v < remainder))
      in \<lparr> sa_virtual_stage_id = v, sa_physical_stage_id = v mod physical_stage_count,
           sa_local_stage_index = v div physical_stage_count, sa_layer_range = (layer_cursor, next_cursor) \<rparr>
         # partition_loop physical_stage_count base remainder vs next_cursor)"

definition partition_layers :: "nat \<Rightarrow> nat \<Rightarrow> nat \<Rightarrow> plan_error + stage_assignment list" where
  "partition_layers n_layer physical_stage_count virtual_stages_per_rank =
     (let total_virtual_stages = physical_stage_count * virtual_stages_per_rank in
      if usize_max < total_virtual_stages then Inl StageCountOverflow
      else Inr (partition_loop physical_stage_count (n_layer div total_virtual_stages) (n_layer mod total_virtual_stages)
                  [0..<total_virtual_stages] 0))"

definition assignments_by_physical_stage :: "nat \<Rightarrow> stage_assignment list \<Rightarrow> stage_assignment list list" where
  "assignments_by_physical_stage physical_stage_count stage_assignments =
     foldl (\<lambda>table a. table[sa_physical_stage_id a := table ! sa_physical_stage_id a @ [a]])
       (replicate physical_stage_count []) stage_assignments"

section \<open>Choosing a task\<close>

record ready_task =
  rt_kind :: event_kind
  rt_microbatch_id :: nat
  rt_virtual_stage_id :: nat
  rt_physical_stage_id :: nat
  rt_local_stage_index :: nat

definition ready_task_of :: "event_kind \<Rightarrow> stage_assignment \<Rightarrow> nat \<Rightarrow> ready_task" where
  "ready_task_of kind a m =
     \<lparr> rt_kind = kind, rt_microbatch_id = m, rt_virtual_stage_id = sa_virtual_stage_id a,
       rt_physical_stage_id = sa_physical_stage_id a, rt_local_stage_index = sa_local_stage_index a \<rparr>"

definition forward_ready :: "bool list list \<Rightarrow> nat \<Rightarrow> nat \<Rightarrow> bool" where
  "forward_ready forward_done m v \<longleftrightarrow> \<not> forward_done ! m ! v \<and> (v = 0 \<or> forward_done ! m ! (v - 1))"

definition backward_ready :: "bool list list \<Rightarrow> bool list list \<Rightarrow> nat \<Rightarrow> nat \<Rightarrow> bool" where
  "backward_ready forward_done backward_done m v \<longleftrightarrow>
     \<not> backward_done ! m ! v \<and> forward_done ! m ! v
     \<and> (v + 1 = length (backward_done ! m) \<or> backward_done ! m ! (v + 1))"

definition ready_forwards :: "stage_assignment list \<Rightarrow> bool list list \<Rightarrow> ready_task list" where
  "ready_forwards stage_assignments forward_done =
     concat (map (\<lambda>a. map (ready_task_of ForwardEvent a)
       (filter (\<lambda>m. forward_ready forward_done m (sa_virtual_stage_id a)) [0..<length forward_done])) stage_assignments)"

definition ready_backwards :: "stage_assignment list \<Rightarrow> bool list list \<Rightarrow> bool list list \<Rightarrow> ready_task list" where
  "ready_backwards stage_assignments forward_done backward_done =
     concat (map (\<lambda>a. map (ready_task_of BackwardEvent a)
       (filter (\<lambda>m. backward_ready forward_done backward_done m (sa_virtual_stage_id a)) [0..<length forward_done]))
       stage_assignments)"

text \<open>\<open>Iterator::min_by_key\<close>: the first of the least; \<open>Reverse\<close> turns a comparison round.\<close>

definition min_by :: "('a \<Rightarrow> 'a \<Rightarrow> bool) \<Rightarrow> 'a list \<Rightarrow> 'a option" where
  "min_by before xs = (case xs of [] \<Rightarrow> None | x # xs \<Rightarrow> Some (foldl (\<lambda>best y. if before y best then y else best) x xs))"

definition gpipe_forward_before :: "ready_task \<Rightarrow> ready_task \<Rightarrow> bool" where
  "gpipe_forward_before s t \<longleftrightarrow> rt_microbatch_id s < rt_microbatch_id t
     \<or> rt_microbatch_id s = rt_microbatch_id t \<and> rt_virtual_stage_id s < rt_virtual_stage_id t"

definition gpipe_backward_before :: "ready_task \<Rightarrow> ready_task \<Rightarrow> bool" where
  "gpipe_backward_before s t \<longleftrightarrow> rt_microbatch_id s < rt_microbatch_id t
     \<or> rt_microbatch_id s = rt_microbatch_id t \<and> rt_virtual_stage_id t < rt_virtual_stage_id s"

definition interleaved_backward_before :: "ready_task \<Rightarrow> ready_task \<Rightarrow> bool" where
  "interleaved_backward_before s t \<longleftrightarrow> rt_microbatch_id s < rt_microbatch_id t
     \<or> rt_microbatch_id s = rt_microbatch_id t
       \<and> (rt_local_stage_index t < rt_local_stage_index s
          \<or> rt_local_stage_index s = rt_local_stage_index t \<and> rt_virtual_stage_id t < rt_virtual_stage_id s)"

definition interleaved_forward_before :: "ready_task \<Rightarrow> ready_task \<Rightarrow> bool" where
  "interleaved_forward_before s t \<longleftrightarrow> rt_microbatch_id s < rt_microbatch_id t
     \<or> rt_microbatch_id s = rt_microbatch_id t
       \<and> (rt_local_stage_index s < rt_local_stage_index t
          \<or> rt_local_stage_index s = rt_local_stage_index t \<and> rt_virtual_stage_id s < rt_virtual_stage_id t)"

definition choose_ready_task ::
    "stage_assignment list \<Rightarrow> bool list list \<Rightarrow> bool list list \<Rightarrow> schedule_kind \<Rightarrow> bool \<Rightarrow> ready_task option" where
  "choose_ready_task stage_assignments forward_done backward_done schedule all_forwards_complete =
     (let forwards = ready_forwards stage_assignments forward_done;
          backwards = ready_backwards stage_assignments forward_done backward_done
      in case schedule of
           Gpipe \<Rightarrow>
             if \<not> all_forwards_complete then
               (case min_by gpipe_forward_before forwards of
                  Some t \<Rightarrow> Some t | None \<Rightarrow> min_by gpipe_backward_before backwards)
             else min_by gpipe_backward_before backwards
         | Interleaved1f1b \<Rightarrow>
             (case min_by interleaved_backward_before backwards of
                Some t \<Rightarrow> Some t | None \<Rightarrow> min_by interleaved_forward_before forwards))"

section \<open>The simulation\<close>

definition tick_tasks ::
    "stage_assignment list list \<Rightarrow> bool list list \<Rightarrow> bool list list \<Rightarrow> schedule_kind \<Rightarrow> (nat \<times> ready_task) list" where
  "tick_tasks assignments_by_physical forward_done backward_done schedule =
     (let all_forwards_complete = list_all (\<lambda>completed. completed) (concat forward_done) in
      concat (map (\<lambda>(physical_stage_id, assignments).
          case choose_ready_task assignments forward_done backward_done schedule all_forwards_complete of
            None \<Rightarrow> [] | Some task \<Rightarrow> [(physical_stage_id, task)])
        (enumerate 0 assignments_by_physical)))"

definition mark_done :: "bool list list \<Rightarrow> nat \<Rightarrow> nat \<Rightarrow> bool list list" where
  "mark_done table m v = table[m := (table ! m)[v := True]]"

definition event_of :: "nat \<Rightarrow> nat \<times> ready_task \<Rightarrow> schedule_event" where
  "event_of tick = (\<lambda>(physical_stage_id, task).
     \<lparr> ev_tick = tick, ev_physical_stage_id = physical_stage_id, ev_virtual_stage_id = rt_virtual_stage_id task,
       ev_local_stage_index = rt_local_stage_index task, ev_microbatch_id = rt_microbatch_id task,
       ev_kind = rt_kind task \<rparr>)"

fun run_tasks ::
    "nat \<Rightarrow> (nat \<times> ready_task) list \<Rightarrow> bool list list \<Rightarrow> bool list list \<Rightarrow> schedule_event list
      \<Rightarrow> bool list list \<times> bool list list \<times> schedule_event list" where
  "run_tasks tick [] forward_done backward_done events = (forward_done, backward_done, events)"
| "run_tasks tick ((p, task) # ready) forward_done backward_done events =
     (case rt_kind task of
        ForwardEvent \<Rightarrow>
          run_tasks tick ready (mark_done forward_done (rt_microbatch_id task) (rt_virtual_stage_id task)) backward_done
            (events @ [event_of tick (p, task)])
      | BackwardEvent \<Rightarrow>
          run_tasks tick ready forward_done (mark_done backward_done (rt_microbatch_id task) (rt_virtual_stage_id task))
            (events @ [event_of tick (p, task)]))"

lemma run_tasks_events: "snd (snd (run_tasks tick ready fd bd events)) = events @ map (event_of tick) ready"
  by (induction tick ready fd bd events rule: run_tasks.induct) (auto split: event_kind.splits)

lemma run_tasks_grows: "run_tasks tick ready fd bd events = (fd', bd', events') \<Longrightarrow> length events' = length events + length ready"
  using run_tasks_events [of tick ready fd bd events] by simp

function schedule_loop ::
    "stage_assignment list list \<Rightarrow> schedule_kind \<Rightarrow> nat \<Rightarrow> bool list list \<Rightarrow> bool list list \<Rightarrow> schedule_event list
      \<Rightarrow> nat \<Rightarrow> plan_error + schedule_event list" where
  "schedule_loop by_physical schedule total_events forward_done backward_done events tick =
     (if total_events \<le> length events then Inr events
      else
        let ready = tick_tasks by_physical forward_done backward_done schedule in
        if ready = [] then Inl (Deadlocked tick)
        else case run_tasks tick ready forward_done backward_done events of
          (forward_done', backward_done', events') \<Rightarrow>
            schedule_loop by_physical schedule total_events forward_done' backward_done' events' (tick + 1))"
  by pat_completeness auto
termination
  by (relation "measure (\<lambda>(by_physical, schedule, total_events, fd, bd, events, tick). total_events - length events)")
    (auto dest!: run_tasks_grows [OF sym] simp flip: length_greater_0_conv)

declare schedule_loop.simps [simp del]

definition build_pipeline_events ::
    "nat \<Rightarrow> stage_assignment list \<Rightarrow> nat \<Rightarrow> schedule_kind \<Rightarrow> plan_error + schedule_event list" where
  "build_pipeline_events physical_stage_count stage_assignments microbatches schedule =
     (let total_virtual_stages = length stage_assignments;
          total_events = microbatches * total_virtual_stages * 2
      in if usize_max < total_events then Inl EventCountOverflow
         else schedule_loop (assignments_by_physical_stage physical_stage_count stage_assignments) schedule total_events
                (replicate microbatches (replicate total_virtual_stages False))
                (replicate microbatches (replicate total_virtual_stages False)) [] 0)"

definition build_pipeline_metrics :: "nat \<Rightarrow> schedule_event list \<Rightarrow> plan_metrics" where
  "build_pipeline_metrics physical_stage_count events =
     (let total_ticks = (if events = [] then 0 else Max (set (map ev_tick events)) + 1);
          busy = foldl (\<lambda>busy e. busy[ev_physical_stage_id e := busy ! ev_physical_stage_id e + 1])
                   (replicate physical_stage_count 0) events;
          idle = map (\<lambda>b. total_ticks - b) busy
      in \<lparr> mt_total_ticks = total_ticks, mt_total_events = length events, mt_stage_busy_ticks = busy,
           mt_stage_idle_ticks = idle, mt_bubble = (sum_list idle, max 1 (min usize_max (total_ticks * physical_stage_count))) \<rparr>)"

definition build_pipeline_plan :: "nat \<Rightarrow> pipeline_config \<Rightarrow> plan_error + pipeline_plan" where
  "build_pipeline_plan n_layer pipeline =
     (if \<not> pc_enabled pipeline then Inl PipelineDisabled
      else if n_layer = 0 then Inl NoLayers
      else if pc_stage_count pipeline = 0 then Inl NoStages
      else if pc_virtual_stages_per_rank pipeline = 0 then Inl NoVirtualStages
      else if pc_stage_count pipeline < pc_virtual_stages_per_rank pipeline then Inl TooManyVirtualStages
      else if pc_microbatches pipeline = 0 then Inl NoMicrobatches
      else if pc_schedule pipeline = Interleaved1f1b \<and> pc_microbatches pipeline < pc_stage_count pipeline
      then Inl TooFewMicrobatches
      else
        let total_virtual_stages = pc_stage_count pipeline * pc_virtual_stages_per_rank pipeline in
        if usize_max < total_virtual_stages then Inl StageCountOverflow
        else if n_layer < total_virtual_stages then Inl TooFewLayers
        else if pc_partition pipeline \<noteq> LayerContiguous then Inl UnsupportedPartition
        else
          result_bind (partition_layers n_layer (pc_stage_count pipeline) (pc_virtual_stages_per_rank pipeline))
            (\<lambda>stage_assignments.
              result_bind (build_pipeline_events (pc_stage_count pipeline) stage_assignments (pc_microbatches pipeline)
                             (pc_schedule pipeline))
                (\<lambda>events.
                  Inr \<lparr> pl_physical_stage_count = pc_stage_count pipeline,
                        pl_virtual_stages_per_rank = pc_virtual_stages_per_rank pipeline,
                        pl_total_virtual_stages = total_virtual_stages, pl_microbatches = pc_microbatches pipeline,
                        pl_schedule = pc_schedule pipeline, pl_partition = pc_partition pipeline,
                        pl_stage_assignments = stage_assignments, pl_events = events,
                        pl_metrics = build_pipeline_metrics (pc_stage_count pipeline) events \<rparr>)))"

end
