(* ===== verification/Pipeline_Plan_Proofs.thy ===== *)
theory Pipeline_Plan_Proofs
  imports Pipeline_Plan
begin

text \<open>
  What the planner promises: the layers are divided evenly over the stages, and the simulation runs every
  pass of every microbatch once, after the passes it depends on, without ever being stuck.
\<close>

section \<open>Even division\<close>

text \<open>Ranges that follow each other from a start, with sizes that differ by one at most.\<close>

fun consecutive :: "nat \<Rightarrow> (nat \<times> nat) list \<Rightarrow> nat \<Rightarrow> bool" where
  "consecutive start [] stop = (start = stop)"
| "consecutive start (r # rs) stop = (fst r = start \<and> start \<le> snd r \<and> consecutive (snd r) rs stop)"

definition divided :: "nat \<Rightarrow> nat \<Rightarrow> (nat \<times> nat) list \<Rightarrow> bool" where
  "divided total_items n ranges \<longleftrightarrow>
     length ranges = n \<and> consecutive 0 ranges total_items
     \<and> (\<forall>r\<in>set ranges. snd r - fst r = total_items div n \<or> snd r - fst r = total_items div n + 1)"

lemma sum_shares:
  assumes "remainder < n"
  shows "sum_list (map (\<lambda>i. base + of_bool (i < remainder)) [0..<n]) = base * n + remainder"
proof -
  have "sum_list (map (\<lambda>i. base + of_bool (i < remainder)) [0..<k]) = base * k + min k remainder" for k
    by (induction k) (auto simp: min_def)
  then show ?thesis using assms by (simp add: min_def)
qed

lemma split_loop_consecutive:
  "consecutive start (split_loop_ranges base remainder indices start)
     (start + sum_list (map (\<lambda>i. base + of_bool (i < remainder)) indices))"
proof (induction indices arbitrary: start)
  case (Cons index indices)
  show ?case using Cons [of "start + (base + of_bool (index < remainder))"] by (simp add: Let_def add.assoc)
qed simp

lemma split_loop_shares:
  "r \<in> set (split_loop_ranges base remainder indices start) \<Longrightarrow> snd r - fst r = base \<or> snd r - fst r = base + 1"
  by (induction indices arbitrary: start) (auto simp: Let_def)

lemma split_loop_length: "length (split_loop_ranges base remainder indices start) = length indices"
  by (induction indices arbitrary: start) (auto simp: Let_def)

lemma split_loop_divided:
  assumes "0 < n"
  shows "divided total_items n (split_loop_ranges (total_items div n) (total_items mod n) [0..<n] 0)"
proof -
  have "consecutive 0 (split_loop_ranges (total_items div n) (total_items mod n) [0..<n] 0) total_items"
    using split_loop_consecutive [of 0 "total_items div n" "total_items mod n" "[0..<n]"]
      sum_shares [of "total_items mod n" n "total_items div n"] assms by simp
  then show ?thesis unfolding divided_def using split_loop_length split_loop_shares by fastforce
qed

lemma partition_loop_ranges:
  "map sa_layer_range (partition_loop stages base remainder vs cursor) = split_loop_ranges base remainder vs cursor"
  by (induction vs arbitrary: cursor) (simp_all add: Let_def)

lemma partition_loop_ids:
  "map (\<lambda>a. (sa_virtual_stage_id a, sa_physical_stage_id a, sa_local_stage_index a)) (partition_loop stages base remainder vs cursor)
     = map (\<lambda>v. (v, v mod stages, v div stages)) vs"
  by (induction vs arbitrary: cursor) (simp_all add: Let_def)

section \<open>The stages of a rank\<close>

lemma by_physical_nth:
  assumes "\<forall>a\<in>set as. sa_physical_stage_id a < n" "p < n"
  shows "assignments_by_physical_stage n as ! p = filter (\<lambda>a. sa_physical_stage_id a = p) as"
    and "length (assignments_by_physical_stage n as) = n"
proof -
  let ?step = "\<lambda>table a. table[sa_physical_stage_id a := table ! sa_physical_stage_id a @ [a]]"
  have len: "length (foldl ?step table as) = length table" for table :: "stage_assignment list list" and as
    by (induction as arbitrary: table) simp_all
  have "foldl ?step table as ! p = table ! p @ filter (\<lambda>a. sa_physical_stage_id a = p) as"
    if "length table = n" "\<forall>a\<in>set as. sa_physical_stage_id a < n" for table :: "stage_assignment list list" and as
    using that assms(2) by (induction as arbitrary: table) (simp_all add: nth_list_update)
  then show "assignments_by_physical_stage n as ! p = filter (\<lambda>a. sa_physical_stage_id a = p) as"
    using assms by (simp add: assignments_by_physical_stage_def)
  show "length (assignments_by_physical_stage n as) = n" by (simp add: assignments_by_physical_stage_def len)
qed

section \<open>Choosing\<close>

lemma min_by_Some: "min_by before xs = Some x \<Longrightarrow> x \<in> set xs"
proof -
  have "foldl (\<lambda>best y. if before y best then y else best) b ys \<in> insert b (set ys)" for b ys
    by (induction ys arbitrary: b) fastforce+
  then show "min_by before xs = Some x \<Longrightarrow> x \<in> set xs" by (auto simp: min_by_def split: list.splits)
qed

lemma min_by_None: "min_by before xs = None \<longleftrightarrow> xs = []"
  by (simp add: min_by_def split: list.splits)

lemma choose_ready_member:
  assumes "choose_ready_task as fd bd schedule all_done = Some t"
  shows "t \<in> set (ready_forwards as fd) \<or> t \<in> set (ready_backwards as fd bd)"
  using assms by (auto simp: choose_ready_task_def Let_def dest: min_by_Some split: schedule_kind.splits if_splits option.splits)

lemma choose_ready_none:
  "choose_ready_task as fd bd schedule all_done = None \<Longrightarrow> ready_backwards as fd bd = [] \<and> (all_done \<or> ready_forwards as fd = [])"
  by (auto simp: choose_ready_task_def Let_def min_by_None split: schedule_kind.splits if_splits option.splits)

section \<open>Passes and what they need\<close>

type_synonym pass_key = "event_kind \<times> nat \<times> nat"

definition ev_key :: "schedule_event \<Rightarrow> pass_key" where
  "ev_key e = (ev_kind e, ev_microbatch_id e, ev_virtual_stage_id e)"

definition rt_key :: "ready_task \<Rightarrow> pass_key" where
  "rt_key t = (rt_kind t, rt_microbatch_id t, rt_virtual_stage_id t)"

definition passes :: "nat \<Rightarrow> nat \<Rightarrow> pass_key set" where
  "passes microbatches stages = UNIV \<times> {..<microbatches} \<times> {..<stages}"

text \<open>A forward pass needs the forward pass of the stage before, a backward pass the forward pass of its own stage
  and the backward pass of the stage behind.\<close>

fun needs :: "nat \<Rightarrow> pass_key \<Rightarrow> pass_key set" where
  "needs stages (ForwardEvent, m, v) = (if v = 0 then {} else {(ForwardEvent, m, v - 1)})"
| "needs stages (BackwardEvent, m, v) =
     insert (ForwardEvent, m, v) (if v + 1 < stages then {(BackwardEvent, m, v + 1)} else {})"

lemma UNIV_event_kind: "UNIV = {ForwardEvent, BackwardEvent}"
  by (auto intro: event_kind.exhaust)

lemma card_passes: "card (passes microbatches stages) = microbatches * stages * 2" "finite (passes microbatches stages)"
  by (simp_all add: passes_def UNIV_event_kind card_cartesian_product)

section \<open>The tables of finished passes\<close>

definition shaped :: "nat \<Rightarrow> nat \<Rightarrow> bool list list \<Rightarrow> bool" where
  "shaped microbatches stages table \<longleftrightarrow> length table = microbatches \<and> (\<forall>m<microbatches. length (table ! m) = stages)"

definition done_keys :: "nat \<Rightarrow> nat \<Rightarrow> bool list list \<Rightarrow> bool list list \<Rightarrow> pass_key set" where
  "done_keys microbatches stages fd bd =
     {(k, m, v). m < microbatches \<and> v < stages \<and> (case k of ForwardEvent \<Rightarrow> fd ! m ! v | BackwardEvent \<Rightarrow> bd ! m ! v)}"

lemma done_keys_passes: "done_keys microbatches stages fd bd \<subseteq> passes microbatches stages"
  by (auto simp: done_keys_def passes_def)

lemma shaped_replicate: "shaped n k (replicate n (replicate k b))"
  by (simp add: shaped_def)

lemma done_keys_start: "done_keys n k (replicate n (replicate k False)) (replicate n (replicate k False)) = {}"
  by (auto simp: done_keys_def split: event_kind.splits)

lemma mark_done_nth:
  assumes "shaped n k table" "m < n" "v < k" "m' < n"
  shows "mark_done table m v ! m' ! v' = (m = m' \<and> v = v' \<or> table ! m' ! v')" and "shaped n k (mark_done table m v)"
  using assms by (auto simp: mark_done_def shaped_def nth_list_update)

lemma run_tasks_spec:
  assumes "shaped n k fd" "shaped n k bd" "\<And>p t. (p, t) \<in> set ready \<Longrightarrow> rt_microbatch_id t < n \<and> rt_virtual_stage_id t < k"
    and "run_tasks tick ready fd bd events = (fd', bd', events')"
  shows "shaped n k fd' \<and> shaped n k bd' \<and> events' = events @ map (event_of tick) ready
    \<and> done_keys n k fd' bd' = done_keys n k fd bd \<union> (rt_key \<circ> snd) ` set ready"
  using assms
proof (induction tick ready fd bd events rule: run_tasks.induct)
  case (2 tick p task ready fd bd events)
  have bounds: "rt_microbatch_id task < n" "rt_virtual_stage_id task < k" using 2(5) by auto
  have rest: "\<And>p t. (p, t) \<in> set ready \<Longrightarrow> rt_microbatch_id t < n \<and> rt_virtual_stage_id t < k" using 2(5) by auto
  show ?case
  proof (cases "rt_kind task")
    case ForwardEvent
    let ?fd = "mark_done fd (rt_microbatch_id task) (rt_virtual_stage_id task)"
    have "shaped n k ?fd" using mark_done_nth(2) [OF 2(3) bounds bounds(1)] .
    moreover have "done_keys n k ?fd bd = insert (rt_key task) (done_keys n k fd bd)"
      using bounds by (auto simp: done_keys_def mark_done_nth [OF 2(3) bounds] rt_key_def ForwardEvent split: event_kind.splits)
    ultimately show ?thesis using 2(1) [OF ForwardEvent _ 2(4) rest] 2(6) ForwardEvent by auto
  next
    case BackwardEvent
    let ?bd = "mark_done bd (rt_microbatch_id task) (rt_virtual_stage_id task)"
    have "shaped n k ?bd" using mark_done_nth(2) [OF 2(4) bounds bounds(1)] .
    moreover have "done_keys n k fd ?bd = insert (rt_key task) (done_keys n k fd bd)"
      using bounds by (auto simp: done_keys_def mark_done_nth [OF 2(4) bounds] rt_key_def BackwardEvent split: event_kind.splits)
    ultimately show ?thesis using 2(2) [OF BackwardEvent 2(3) _ rest] 2(6) BackwardEvent by auto
  qed
qed auto

section \<open>A tick\<close>

text \<open>The stages of a partition: each virtual stage on its physical one.\<close>

definition stage_table :: "nat \<Rightarrow> nat \<Rightarrow> stage_assignment list \<Rightarrow> bool" where
  "stage_table stages k as \<longleftrightarrow>
     map (\<lambda>a. (sa_virtual_stage_id a, sa_physical_stage_id a, sa_local_stage_index a)) as = map (\<lambda>v. (v, v mod stages, v div stages)) [0..<k]"

lemma stage_table_member:
  assumes "stage_table stages k as" "a \<in> set as"
  shows "sa_virtual_stage_id a < k \<and> sa_physical_stage_id a = sa_virtual_stage_id a mod stages
    \<and> sa_local_stage_index a = sa_virtual_stage_id a div stages"
proof -
  have "(sa_virtual_stage_id a, sa_physical_stage_id a, sa_local_stage_index a) \<in> set (map (\<lambda>v. (v, v mod stages, v div stages)) [0..<k])"
    using assms unfolding stage_table_def by (metis (no_types, lifting) image_eqI list.set_map)
  then show ?thesis by auto
qed

lemma stage_table_stage:
  assumes "stage_table stages k as" "v < k"
  shows "\<exists>a\<in>set as. sa_virtual_stage_id a = v \<and> sa_physical_stage_id a = v mod stages"
proof -
  have "(v, v mod stages, v div stages) \<in> set (map (\<lambda>a. (sa_virtual_stage_id a, sa_physical_stage_id a, sa_local_stage_index a)) as)"
    using assms unfolding stage_table_def by auto
  then show ?thesis by auto
qed

definition task_ok :: "nat \<Rightarrow> nat \<Rightarrow> nat \<Rightarrow> bool list list \<Rightarrow> bool list list \<Rightarrow> nat \<Rightarrow> ready_task \<Rightarrow> bool" where
  "task_ok stages n k fd bd p t \<longleftrightarrow>
     rt_microbatch_id t < n \<and> rt_virtual_stage_id t < k \<and> rt_virtual_stage_id t mod stages = p
     \<and> rt_local_stage_index t = rt_virtual_stage_id t div stages
     \<and> rt_key t \<notin> done_keys n k fd bd \<and> needs k (rt_key t) \<subseteq> done_keys n k fd bd"

lemma ready_task_ok:
  assumes table: "stage_table stages k as" and "shaped n k fd" "shaped n k bd"
    and "t \<in> set (ready_forwards (filter (\<lambda>a. sa_physical_stage_id a = p) as) fd)
      \<or> t \<in> set (ready_backwards (filter (\<lambda>a. sa_physical_stage_id a = p) as) fd bd)"
  shows "task_ok stages n k fd bd p t"
  using assms(4)
proof
  assume "t \<in> set (ready_forwards (filter (\<lambda>a. sa_physical_stage_id a = p) as) fd)"
  then obtain a m where "a \<in> set as" "sa_physical_stage_id a = p" "m < length fd" "forward_ready fd m (sa_virtual_stage_id a)"
    "t = ready_task_of ForwardEvent a m" by (auto simp: ready_forwards_def)
  then show ?thesis
    using assms(2) stage_table_member [OF table]
    by (auto simp: task_ok_def ready_task_of_def rt_key_def done_keys_def forward_ready_def shaped_def less_imp_diff_less)
next
  assume "t \<in> set (ready_backwards (filter (\<lambda>a. sa_physical_stage_id a = p) as) fd bd)"
  then obtain a m where "a \<in> set as" "sa_physical_stage_id a = p" "m < length fd"
    "backward_ready fd bd m (sa_virtual_stage_id a)" "t = ready_task_of BackwardEvent a m" by (auto simp: ready_backwards_def)
  then show ?thesis
    using assms(2,3) stage_table_member [OF table]
    by (auto simp: task_ok_def ready_task_of_def rt_key_def done_keys_def backward_ready_def shaped_def)
qed

lemma tick_tasks_member:
  assumes "(p, t) \<in> set (tick_tasks by_physical fd bd schedule)"
  shows "p < length by_physical
    \<and> choose_ready_task (by_physical ! p) fd bd schedule (list_all (\<lambda>completed. completed) (concat fd)) = Some t"
  using assms by (auto simp: tick_tasks_def Let_def enumerate_eq_zip set_zip split: option.splits)

lemma distinct_chosen:
  "distinct (map fst xs) \<Longrightarrow> distinct (map fst (concat (map (\<lambda>(i, x). case f x of None \<Rightarrow> [] | Some t \<Rightarrow> [(i, t)]) xs)))"
proof (induction xs)
  case (Cons x xs)
  let ?rest = "concat (map (\<lambda>(i, x). case f x of None \<Rightarrow> [] | Some t \<Rightarrow> [(i, t)]) xs)"
  obtain i y where x: "x = (i, y)" by fastforce
  have "fst ` set ?rest \<subseteq> fst ` set xs" by (force split: option.splits)
  moreover have "i \<notin> fst ` set xs" using Cons.prems x by simp
  ultimately have "i \<notin> fst ` set ?rest" by blast
  moreover have "distinct (map fst ?rest)" using Cons by simp
  ultimately show ?case by (cases "f y") (simp_all add: x)
qed simp

lemma tick_tasks_distinct: "distinct (map fst (tick_tasks by_physical fd bd schedule))"
  unfolding tick_tasks_def Let_def by (rule distinct_chosen) (simp add: map_fst_enumerate)

lemma tick_tasks_nonempty:
  assumes "p < length by_physical"
    and "choose_ready_task (by_physical ! p) fd bd schedule (list_all (\<lambda>completed. completed) (concat fd)) = Some t"
  shows "(p, t) \<in> set (tick_tasks by_physical fd bd schedule)"
proof -
  have "(p, by_physical ! p) \<in> set (enumerate 0 by_physical)" using assms(1) by (simp add: in_set_enumerate_eq)
  then show ?thesis using assms(2) by (force simp: tick_tasks_def Let_def)
qed

lemma forwards_complete:
  assumes "shaped n k fd"
  shows "list_all (\<lambda>completed. completed) (concat fd) \<longleftrightarrow> (\<forall>m<n. \<forall>v<k. fd ! m ! v)"
  using assms by (auto simp: shaped_def list_all_iff all_set_conv_all_nth)

text \<open>While a pass is missing some stage has a task.\<close>

lemma some_stage_ready:
  assumes table: "stage_table stages k as" and stages: "0 < stages" and sh: "shaped n k fd" "shaped n k bd"
    and missing: "done_keys n k fd bd \<noteq> passes n k"
  shows "\<exists>v<k. ready_forwards (filter (\<lambda>a. sa_physical_stage_id a = v mod stages) as) fd \<noteq> [] \<and> \<not> (\<forall>m<n. \<forall>v<k. fd ! m ! v)
    \<or> ready_backwards (filter (\<lambda>a. sa_physical_stage_id a = v mod stages) as) fd bd \<noteq> []"
proof (cases "\<forall>m<n. \<forall>v<k. fd ! m ! v")
  case False
  then obtain m where m: "m < n" "\<exists>v. v < k \<and> \<not> fd ! m ! v" by blast
  define v where "v = (LEAST v. v < k \<and> \<not> fd ! m ! v)"
  have v: "v < k" "\<not> fd ! m ! v" using LeastI_ex [OF m(2)] by (simp_all add: v_def)
  have "v = 0 \<or> fd ! m ! (v - 1)"
    using not_less_Least [of "v - 1" "\<lambda>v. v < k \<and> \<not> fd ! m ! v"] v(1) unfolding v_def [symmetric] by fastforce
  then have "forward_ready fd m v" using v by (simp add: forward_ready_def)
  moreover obtain a where "a \<in> set as" "sa_virtual_stage_id a = v" "sa_physical_stage_id a = v mod stages"
    using stage_table_stage [OF table v(1)] by blast
  ultimately have "ready_task_of ForwardEvent a m \<in> set (ready_forwards (filter (\<lambda>a. sa_physical_stage_id a = v mod stages) as) fd)"
    using m(1) sh(1) by (force simp: ready_forwards_def shaped_def)
  then show ?thesis using v(1) False by (metis empty_iff empty_set)
next
  case all: True
  then obtain m where m: "m < n" "{v. v < k \<and> \<not> bd ! m ! v} \<noteq> {}"
    using missing by (fastforce simp: done_keys_def passes_def split: event_kind.splits)
  define v where "v = Max {v. v < k \<and> \<not> bd ! m ! v}"
  have "v \<in> {v. v < k \<and> \<not> bd ! m ! v}" unfolding v_def using m(2) by (intro Max_in) simp_all
  then have v: "v < k" "\<not> bd ! m ! v" by simp_all
  have "bd ! m ! (v + 1)" if "v + 1 < k"
  proof (rule ccontr)
    assume "\<not> bd ! m ! (v + 1)"
    then have "v + 1 \<le> v" unfolding v_def using that by (intro Max_ge) (simp_all add: v_def)
    then show False by simp
  qed
  then have "v + 1 = k \<or> bd ! m ! (v + 1)" using v(1) by linarith
  then have "backward_ready fd bd m v" using v all m(1) sh(2) by (auto simp: backward_ready_def shaped_def)
  moreover obtain a where "a \<in> set as" "sa_virtual_stage_id a = v" "sa_physical_stage_id a = v mod stages"
    using stage_table_stage [OF table v(1)] by blast
  ultimately have "ready_task_of BackwardEvent a m \<in> set (ready_backwards (filter (\<lambda>a. sa_physical_stage_id a = v mod stages) as) fd bd)"
    using m(1) sh(1) by (force simp: ready_backwards_def shaped_def)
  then show ?thesis using v(1) by (metis empty_iff empty_set)
qed

lemma some_task:
  assumes "stage_table stages k as" "0 < stages" "shaped n k fd" "shaped n k bd" "done_keys n k fd bd \<noteq> passes n k"
    and by_physical: "length by_physical = stages" "\<And>p. p < stages \<Longrightarrow> by_physical ! p = filter (\<lambda>a. sa_physical_stage_id a = p) as"
  shows "tick_tasks by_physical fd bd schedule \<noteq> []"
proof -
  obtain v where v: "v < k" "ready_forwards (filter (\<lambda>a. sa_physical_stage_id a = v mod stages) as) fd \<noteq> []
        \<and> \<not> list_all (\<lambda>completed. completed) (concat fd)
      \<or> ready_backwards (filter (\<lambda>a. sa_physical_stage_id a = v mod stages) as) fd bd \<noteq> []"
    using some_stage_ready [OF assms(1-5)] unfolding forwards_complete [OF assms(3)] by blast
  let ?p = "v mod stages"
  have p: "?p < stages" using assms(2) by simp
  obtain t where "choose_ready_task (by_physical ! ?p) fd bd schedule (list_all (\<lambda>completed. completed) (concat fd)) = Some t"
    unfolding by_physical(2) [OF p] using v(2) choose_ready_none by fastforce
  then show ?thesis using tick_tasks_nonempty [of ?p by_physical] p by_physical(1) by force
qed

lemma tick_tasks_ok:
  assumes "stage_table stages k as" "shaped n k fd" "shaped n k bd"
    and by_physical: "length by_physical = stages" "\<And>p. p < stages \<Longrightarrow> by_physical ! p = filter (\<lambda>a. sa_physical_stage_id a = p) as"
    and "(p, t) \<in> set (tick_tasks by_physical fd bd schedule)"
  shows "task_ok stages n k fd bd p t"
  using tick_tasks_member [OF assms(6)] by_physical choose_ready_member ready_task_ok [OF assms(1-3)] by metis

section \<open>The simulation\<close>

text \<open>A schedule in which every pass runs once, on the physical stage of its virtual one, after all it needs, with one
  pass at most for each physical stage and tick, and no empty tick.\<close>

definition partial_schedule :: "nat \<Rightarrow> nat \<Rightarrow> nat \<Rightarrow> schedule_event list \<Rightarrow> bool" where
  "partial_schedule stages k ticks events \<longleftrightarrow>
     distinct (map ev_key events)
     \<and> (\<forall>e\<in>set events. ev_physical_stage_id e = ev_virtual_stage_id e mod stages
          \<and> ev_local_stage_index e = ev_virtual_stage_id e div stages)
     \<and> (\<forall>e\<in>set events. \<forall>d\<in>needs k (ev_key e). \<exists>e'\<in>set events. ev_key e' = d \<and> ev_tick e' < ev_tick e)
     \<and> distinct (map (\<lambda>e. (ev_tick e, ev_physical_stage_id e)) events)
     \<and> sorted (map ev_tick events) \<and> set (map ev_tick events) = {..<ticks}"

definition schedule_ok :: "nat \<Rightarrow> nat \<Rightarrow> nat \<Rightarrow> schedule_event list \<Rightarrow> bool" where
  "schedule_ok stages n k events \<longleftrightarrow>
     set (map ev_key events) = passes n k \<and> (\<exists>ticks. partial_schedule stages k ticks events)"

lemma event_of_fields [simp]:
  "ev_key (event_of tick (p, t)) = rt_key t" "ev_tick (event_of tick x) = tick" "ev_physical_stage_id (event_of tick x) = fst x"
  "ev_virtual_stage_id (event_of tick x) = rt_virtual_stage_id (snd x)" "ev_local_stage_index (event_of tick x) = rt_local_stage_index (snd x)"
  by (simp_all add: event_of_def ev_key_def rt_key_def split_def)

lemma tick_extends:
  assumes sched: "partial_schedule stages k tick events" and keys: "set (map ev_key events) = done_keys n k fd bd"
    and tasks: "\<And>p t. (p, t) \<in> set ready \<Longrightarrow> task_ok stages n k fd bd p t"
    and dist: "distinct (map fst ready)" and some: "ready \<noteq> []"
  shows "partial_schedule stages k (tick + 1) (events @ map (event_of tick) ready)"
proof -
  let ?new = "map (event_of tick) ready"
  have key: "ev_key (event_of tick x) = rt_key (snd x)" for x by (cases x) simp
  have "x = y" if "x \<in> set ready" "y \<in> set ready" "rt_key (snd x) = rt_key (snd y)" for x y
  proof -
    have "fst x = fst y" using tasks [of "fst x" "snd x"] tasks [of "fst y" "snd y"] that by (simp add: task_ok_def rt_key_def)
    then show ?thesis using dist that(1,2) by (auto simp: distinct_map inj_on_def)
  qed
  then have "distinct (map ev_key ?new)" using dist by (auto simp: distinct_map inj_on_def key)
  moreover have "rt_key t \<notin> done_keys n k fd bd" if "(p, t) \<in> set ready" for p t using tasks [OF that] by (simp add: task_ok_def)
  then have "set (map ev_key events) \<inter> set (map ev_key ?new) = {}" unfolding keys by (force simp: key)
  ultimately have d1: "distinct (map ev_key (events @ ?new))" using sched by (simp add: partial_schedule_def)
  have old: "\<forall>e\<in>set events. ev_tick e < tick"
    using sched unfolding partial_schedule_def by (metis imageI lessThan_iff list.set_map)
  have "distinct (map (\<lambda>e. (ev_tick e, ev_physical_stage_id e)) ?new)"
    using dist by (simp add: comp_def distinct_map inj_on_def)
  then have d2: "distinct (map (\<lambda>e. (ev_tick e, ev_physical_stage_id e)) (events @ ?new))"
    using sched old by (auto simp: partial_schedule_def)
  have place: "\<forall>e\<in>set (events @ ?new). ev_physical_stage_id e = ev_virtual_stage_id e mod stages
      \<and> ev_local_stage_index e = ev_virtual_stage_id e div stages"
    using sched tasks by (auto simp: partial_schedule_def task_ok_def)
  have deps: "\<exists>e'\<in>set (events @ ?new). ev_key e' = d \<and> ev_tick e' < ev_tick e"
    if e: "e \<in> set (events @ ?new)" and d: "d \<in> needs k (ev_key e)" for e d
  proof (cases "e \<in> set events")
    case True
    then show ?thesis using sched d by (fastforce simp: partial_schedule_def)
  next
    case False
    then obtain p t where t: "(p, t) \<in> set ready" "e = event_of tick (p, t)" using e by auto
    then have "d \<in> set (map ev_key events)" using tasks [OF t(1)] d unfolding keys by (auto simp: task_ok_def)
    then show ?thesis using old t(2) by auto
  qed
  have "sorted (map ev_tick (events @ ?new))"
    using sched old by (auto simp: partial_schedule_def sorted_append comp_def map_replicate_const)
  moreover have "set (map ev_tick (events @ ?new)) = {..<tick + 1}"
    using sched some by (auto simp: partial_schedule_def neq_Nil_conv lessThan_Suc)
  ultimately show ?thesis unfolding partial_schedule_def using d1 d2 place deps by blast
qed

lemma schedule_loop_total:
  assumes "stage_table stages k as" "0 < stages" "shaped n k fd" "shaped n k bd" "total_events = n * k * 2"
    and by_physical: "length by_physical = stages" "\<And>p. p < stages \<Longrightarrow> by_physical ! p = filter (\<lambda>a. sa_physical_stage_id a = p) as"
    and "set (map ev_key events) = done_keys n k fd bd" "partial_schedule stages k tick events"
  shows "\<exists>events'. schedule_loop by_physical schedule total_events fd bd events tick = Inr events' \<and> schedule_ok stages n k events'"
  using assms
proof (induction by_physical schedule total_events fd bd events tick rule: schedule_loop.induct)
  case (1 by_physical schedule total_events fd bd events tick)
  have table: "stage_table stages k as" and stages: "0 < stages" and sh: "shaped n k fd" "shaped n k bd" and total: "total_events = n * k * 2"
    and phys: "length by_physical = stages" "\<And>p. p < stages \<Longrightarrow> by_physical ! p = filter (\<lambda>a. sa_physical_stage_id a = p) as"
    and keys: "set (map ev_key events) = done_keys n k fd bd" and sched: "partial_schedule stages k tick events"
    using 1(2-10) by blast+
  have len: "length events = card (done_keys n k fd bd)"
    using sched unfolding keys [symmetric] partial_schedule_def by (metis distinct_card length_map)
  note fin = card_passes [of n k]
  show ?case
  proof (cases "total_events \<le> length events")
    case True
    have "done_keys n k fd bd = passes n k"
      using card_seteq [OF fin(2) done_keys_passes] True len total fin(1) by simp
    then show ?thesis using True keys sched by (subst schedule_loop.simps) (auto simp: schedule_ok_def)
  next
    case False
    let ?ready = "tick_tasks by_physical fd bd schedule"
    have "done_keys n k fd bd \<noteq> passes n k" using False len total fin(1) by auto
    then have some: "?ready \<noteq> []" using some_task [OF table stages sh _ phys] by blast
    have ok: "task_ok stages n k fd bd p t" if "(p, t) \<in> set ?ready" for p t
      using tick_tasks_ok [OF table sh phys that] .
    obtain fd' bd' events' where run: "run_tasks tick ?ready fd bd events = (fd', bd', events')" by (metis prod_cases3)
    have bounds: "\<And>p t. (p, t) \<in> set ?ready \<Longrightarrow> rt_microbatch_id t < n \<and> rt_virtual_stage_id t < k"
      using ok by (simp add: task_ok_def)
    have all: "shaped n k fd' \<and> shaped n k bd' \<and> events' = events @ map (event_of tick) ?ready
      \<and> done_keys n k fd' bd' = done_keys n k fd bd \<union> (rt_key \<circ> snd) ` set ?ready"
      by (rule run_tasks_spec [OF sh _ run]) (rule bounds)
    then have spec: "shaped n k fd'" "shaped n k bd'" "events' = events @ map (event_of tick) ?ready"
      "done_keys n k fd' bd' = done_keys n k fd bd \<union> (rt_key \<circ> snd) ` set ?ready"
      by blast+
    have "ev_key \<circ> event_of tick = rt_key \<circ> snd" by (simp add: fun_eq_iff)
    then have keys': "set (map ev_key events') = done_keys n k fd' bd'"
      using keys unfolding spec(3,4) by (simp add: image_Un image_comp)
    have sched': "partial_schedule stages k (tick + 1) events'"
      unfolding spec(3) by (rule tick_extends [OF sched keys ok tick_tasks_distinct some])
    have "schedule_loop by_physical schedule total_events fd bd events tick
        = schedule_loop by_physical schedule total_events fd' bd' events' (tick + 1)"
      using False some run by (subst schedule_loop.simps) (simp add: Let_def)
    moreover have "\<exists>evs. schedule_loop by_physical schedule total_events fd' bd' events' (tick + 1) = Inr evs \<and> schedule_ok stages n k evs"
      by (rule 1(1) [OF False refl some run [symmetric] refl table stages spec(1,2) total phys keys' sched'])
    ultimately show ?thesis by simp
  qed
qed

lemma partition_stage_table:
  assumes "partition_layers n_layer stages vpr = Inr as"
  shows "stage_table stages (stages * vpr) as \<and> length as = stages * vpr"
proof -
  have as: "as = partition_loop stages (n_layer div (stages * vpr)) (n_layer mod (stages * vpr)) [0..<stages * vpr] 0"
    using assms by (auto simp: partition_layers_def Let_def split: if_splits)
  have table: "stage_table stages (stages * vpr) as" unfolding stage_table_def as partition_loop_ids ..
  from arg_cong [OF table [unfolded stage_table_def], of length] show ?thesis using table by simp
qed

lemma build_events_total:
  assumes "stage_table stages k as" "length as = k" "0 < stages" "n * k * 2 \<le> usize_max"
  shows "\<exists>events. build_pipeline_events stages as n schedule = Inr events \<and> schedule_ok stages n k events"
proof -
  have phys: "\<forall>a\<in>set as. sa_physical_stage_id a < stages" using stage_table_member [OF assms(1)] assms(3) by simp
  have len: "length (assignments_by_physical_stage stages as) = stages" using by_physical_nth(2) [OF phys assms(3)] .
  have rows: "assignments_by_physical_stage stages as ! p = filter (\<lambda>a. sa_physical_stage_id a = p) as" if "p < stages" for p
    using by_physical_nth(1) [OF phys that] .
  have start: "set (map ev_key []) = done_keys n k (replicate n (replicate k False)) (replicate n (replicate k False))"
    "partial_schedule stages k 0 []"
    by (simp_all add: done_keys_start partial_schedule_def)
  have "\<exists>events. schedule_loop (assignments_by_physical_stage stages as) schedule (n * k * 2)
      (replicate n (replicate k False)) (replicate n (replicate k False)) [] 0 = Inr events \<and> schedule_ok stages n k events"
    by (rule schedule_loop_total [OF assms(1,3) shaped_replicate shaped_replicate refl len rows start])
  then show ?thesis using assms(2,4) by (simp add: build_pipeline_events_def Let_def)
qed

section \<open>The metrics\<close>

lemma busy_ticks:
  assumes "\<forall>e\<in>set events. ev_physical_stage_id e < stages"
  shows "foldl (\<lambda>busy e. busy[ev_physical_stage_id e := busy ! ev_physical_stage_id e + 1]) (replicate stages 0) events
    = map (\<lambda>p. length (filter (\<lambda>e. ev_physical_stage_id e = p) events)) [0..<stages]"
proof -
  have "foldl (\<lambda>busy e. busy[ev_physical_stage_id e := busy ! ev_physical_stage_id e + 1]) busy events
      = map (\<lambda>p. busy ! p + length (filter (\<lambda>e. ev_physical_stage_id e = p) events)) [0..<stages]"
    if "length busy = stages" for busy :: "nat list"
    using assms that
  proof (induction events arbitrary: busy)
    case Nil
    then show ?case by (auto intro: nth_equalityI)
  next
    case (Cons e events)
    then show ?case by (auto simp: nth_list_update intro!: map_cong)
  qed
  from this [of "replicate stages 0"] show ?thesis by (auto intro!: map_cong)
qed

lemma stage_load:
  assumes "schedule_ok stages n (stages * vpr) events" "p < stages"
  shows "length (filter (\<lambda>e. ev_physical_stage_id e = p) events) = n * vpr * 2"
proof -
  let ?on = "\<lambda>e. ev_physical_stage_id e = p"
  obtain ticks where sched: "partial_schedule stages (stages * vpr) ticks events" and keys: "set (map ev_key events) = passes n (stages * vpr)"
    using assms(1) by (auto simp: schedule_ok_def)
  have place: "ev_physical_stage_id e = snd (snd (ev_key e)) mod stages" if "e \<in> set events" for e
    using sched that by (simp add: partial_schedule_def ev_key_def)
  have "distinct (map ev_key (filter ?on events))" using sched by (simp add: partial_schedule_def distinct_map_filter)
  then have "length (filter ?on events) = card (set (map ev_key (filter ?on events)))" by (metis distinct_card length_map)
  also have "set (map ev_key (filter ?on events)) = {key \<in> passes n (stages * vpr). snd (snd key) mod stages = p}"
    using place unfolding keys [symmetric] by auto
  also have "\<dots> = UNIV \<times> {..<n} \<times> {v. v < vpr * stages \<and> v mod stages = p}"
    by (auto simp: passes_def mult.commute)
  also have "card \<dots> = n * vpr * 2"
    by (simp add: card_cartesian_product UNIV_event_kind residue_class [OF assms(2)])
  finally show ?thesis .
qed

lemma metrics_balance:
  assumes ok: "schedule_ok stages n (stages * vpr) events" and "0 < stages" "0 < n" "0 < vpr"
  shows "mt_stage_busy_ticks (build_pipeline_metrics stages events) = replicate stages (n * vpr * 2)
    \<and> mt_stage_idle_ticks (build_pipeline_metrics stages events)
        = replicate stages (mt_total_ticks (build_pipeline_metrics stages events) - n * vpr * 2)
    \<and> n * vpr * 2 \<le> mt_total_ticks (build_pipeline_metrics stages events)
    \<and> set (map ev_tick events) = {..<mt_total_ticks (build_pipeline_metrics stages events)}"
proof -
  obtain ticks where sched: "partial_schedule stages (stages * vpr) ticks events" and keys: "set (map ev_key events) = passes n (stages * vpr)"
    using ok by (auto simp: schedule_ok_def)
  have ticks: "set (map ev_tick events) = {..<ticks}" using sched by (simp add: partial_schedule_def)
  have below: "\<forall>e\<in>set events. ev_physical_stage_id e < stages" using sched assms(2) by (simp add: partial_schedule_def)
  have "(ForwardEvent, 0, 0) \<in> set (map ev_key events)" unfolding keys using assms(2-4) by (simp add: passes_def)
  then have "events \<noteq> []" by auto
  moreover have "0 < ticks" using ticks calculation by (cases events) auto
  then have "Max {..<ticks} + 1 = ticks" by (cases ticks) (auto simp: lessThan_Suc_atMost intro: Max_eqI)
  ultimately have total: "mt_total_ticks (build_pipeline_metrics stages events) = ticks"
    using ticks by (simp add: build_pipeline_metrics_def Let_def)
  have busy: "mt_stage_busy_ticks (build_pipeline_metrics stages events) = replicate stages (n * vpr * 2)"
    using busy_ticks [OF below] stage_load [OF ok] by (auto simp: build_pipeline_metrics_def Let_def intro!: nth_equalityI)
  have idle: "mt_stage_idle_ticks (build_pipeline_metrics stages events)
      = map (\<lambda>b. mt_total_ticks (build_pipeline_metrics stages events) - b) (mt_stage_busy_ticks (build_pipeline_metrics stages events))"
    by (simp add: build_pipeline_metrics_def Let_def)
  let ?mine = "filter (\<lambda>e. ev_physical_stage_id e = 0) events"
  have "distinct (map (\<lambda>e. (ev_tick e, ev_physical_stage_id e)) ?mine)" using sched by (simp add: partial_schedule_def distinct_map_filter)
  then have "distinct (map ev_tick ?mine)" by (auto simp: distinct_map inj_on_def)
  then have "length ?mine = card (ev_tick ` set ?mine)" by (metis distinct_card length_map list.set_map)
  also have "\<dots> \<le> card {..<ticks}" using ticks by (intro card_mono) auto
  finally have "n * vpr * 2 \<le> ticks" using stage_load [OF ok assms(2)] by simp
  then show ?thesis using busy idle total ticks by (simp add: map_replicate)
qed

end
