(* ===== verification/Pipeline_Properties.thy ===== *)
theory Pipeline_Properties
  imports Pipeline_Plan_Proofs
begin

text \<open>The properties of the pipeline planner, \<open>planner/plan.rs\<close>.\<close>

abbreviation "virtual_stages cfg \<equiv> pc_stage_count cfg * pc_virtual_stages_per_rank cfg"

lemma plan_steps:
  assumes "pc_enabled cfg" "0 < pc_stage_count cfg" "0 < pc_virtual_stages_per_rank cfg"
    "pc_virtual_stages_per_rank cfg \<le> pc_stage_count cfg" "0 < pc_microbatches cfg"
    "pc_schedule cfg = Gpipe \<or> pc_stage_count cfg \<le> pc_microbatches cfg" "virtual_stages cfg \<le> n_layer"
    and "virtual_stages cfg \<le> usize_max"
  shows "build_pipeline_plan n_layer cfg =
    (let as = partition_loop (pc_stage_count cfg) (n_layer div virtual_stages cfg) (n_layer mod virtual_stages cfg) [0..<virtual_stages cfg] 0
     in result_bind (build_pipeline_events (pc_stage_count cfg) as (pc_microbatches cfg) (pc_schedule cfg)) (\<lambda>events.
          Inr \<lparr> pl_physical_stage_count = pc_stage_count cfg, pl_virtual_stages_per_rank = pc_virtual_stages_per_rank cfg,
                pl_total_virtual_stages = virtual_stages cfg, pl_microbatches = pc_microbatches cfg,
                pl_schedule = pc_schedule cfg, pl_partition = pc_partition cfg, pl_stage_assignments = as, pl_events = events,
                pl_metrics = build_pipeline_metrics (pc_stage_count cfg) events \<rparr>))"
proof -
  have part: "pc_partition cfg = LayerContiguous" by (cases "pc_partition cfg")
  have "pc_schedule cfg = Gpipe \<or> \<not> pc_microbatches cfg < pc_stage_count cfg" using assms(6) by auto
  moreover have "0 < virtual_stages cfg" using assms(2,3) by simp
  then have "n_layer \<noteq> 0" using assms(7) by linarith
  ultimately show ?thesis
    using assms part by (auto simp: build_pipeline_plan_def partition_layers_def Let_def result_bind_simps)
qed

lemma plan_conditions:
  assumes "build_pipeline_plan n_layer cfg = Inr plan"
  shows "pc_enabled cfg \<and> 0 < pc_stage_count cfg \<and> 0 < pc_virtual_stages_per_rank cfg
     \<and> pc_virtual_stages_per_rank cfg \<le> pc_stage_count cfg \<and> 0 < pc_microbatches cfg
     \<and> (pc_schedule cfg = Gpipe \<or> pc_stage_count cfg \<le> pc_microbatches cfg)
     \<and> virtual_stages cfg \<le> n_layer \<and> virtual_stages cfg \<le> usize_max"
  using assms by (cases "pc_schedule cfg") (auto simp: build_pipeline_plan_def Let_def split: if_splits)

lemma plan_table:
  assumes "virtual_stages cfg \<le> usize_max" "0 < pc_stage_count cfg"
    and "as = partition_loop (pc_stage_count cfg) (n_layer div virtual_stages cfg) (n_layer mod virtual_stages cfg) [0..<virtual_stages cfg] 0"
  shows "stage_table (pc_stage_count cfg) (virtual_stages cfg) as" and "length as = virtual_stages cfg"
proof -
  have "partition_layers n_layer (pc_stage_count cfg) (pc_virtual_stages_per_rank cfg) = Inr as"
    using assms by (simp add: partition_layers_def Let_def)
  from partition_stage_table [OF this] show "stage_table (pc_stage_count cfg) (virtual_stages cfg) as" "length as = virtual_stages cfg"
    by simp_all
qed

lemma events_fit:
  assumes "build_pipeline_events stages as n schedule = Inr events"
  shows "n * length as * 2 \<le> usize_max"
  using assms by (auto simp: build_pipeline_events_def Let_def split: if_splits)

lemma plan_exists:
  assumes c: "pc_enabled cfg \<and> 0 < pc_stage_count cfg \<and> 0 < pc_virtual_stages_per_rank cfg
     \<and> pc_virtual_stages_per_rank cfg \<le> pc_stage_count cfg \<and> 0 < pc_microbatches cfg
     \<and> (pc_schedule cfg = Gpipe \<or> pc_stage_count cfg \<le> pc_microbatches cfg)
     \<and> virtual_stages cfg \<le> n_layer \<and> pc_microbatches cfg * virtual_stages cfg * 2 \<le> usize_max"
  shows "\<exists>plan. build_pipeline_plan n_layer cfg = Inr plan"
proof -
  have "virtual_stages cfg \<le> pc_microbatches cfg * virtual_stages cfg * 2" using c by (cases "pc_microbatches cfg") simp_all
  then have small: "virtual_stages cfg \<le> usize_max" using c by linarith
  define as where "as = partition_loop (pc_stage_count cfg) (n_layer div virtual_stages cfg) (n_layer mod virtual_stages cfg) [0..<virtual_stages cfg] 0"
  have stages: "0 < pc_stage_count cfg" and fit: "pc_microbatches cfg * virtual_stages cfg * 2 \<le> usize_max" using c by blast+
  obtain events where "build_pipeline_events (pc_stage_count cfg) as (pc_microbatches cfg) (pc_schedule cfg) = Inr events"
    using build_events_total [OF plan_table(1) [OF small stages as_def] plan_table(2) [OF small stages as_def] stages fit] by blast
  then show ?thesis
    using plan_steps [of cfg n_layer] c small by (simp add: as_def [symmetric] Let_def result_bind_simps)
qed

text \<open>C39: a pipeline is planned whenever its numbers allow it. Planning succeeds exactly when the pipeline is enabled, has
  stages, virtual stages (no more than stages) and microbatches, as many as stages at least for the interleaved
  schedule, no more virtual stages in all than layers, and counts that fit a machine word: the simulation of the
  schedule is never stuck.\<close>
theorem plans_never_deadlock:
  "(\<exists>plan. build_pipeline_plan n_layer cfg = Inr plan) \<longleftrightarrow>
     pc_enabled cfg \<and> 0 < pc_stage_count cfg \<and> 0 < pc_virtual_stages_per_rank cfg
     \<and> pc_virtual_stages_per_rank cfg \<le> pc_stage_count cfg \<and> 0 < pc_microbatches cfg
     \<and> (pc_schedule cfg = Gpipe \<or> pc_stage_count cfg \<le> pc_microbatches cfg)
     \<and> pc_stage_count cfg * pc_virtual_stages_per_rank cfg \<le> n_layer
     \<and> pc_microbatches cfg * (pc_stage_count cfg * pc_virtual_stages_per_rank cfg) * 2 \<le> usize_max" (is "_ \<longleftrightarrow> ?R")
proof
  assume "\<exists>plan. build_pipeline_plan n_layer cfg = Inr plan"
  then obtain plan where plan: "build_pipeline_plan n_layer cfg = Inr plan" by blast
  note c = plan_conditions [OF plan]
  define as where "as = partition_loop (pc_stage_count cfg) (n_layer div virtual_stages cfg) (n_layer mod virtual_stages cfg) [0..<virtual_stages cfg] 0"
  have "\<exists>events. build_pipeline_events (pc_stage_count cfg) as (pc_microbatches cfg) (pc_schedule cfg) = Inr events"
    using plan plan_steps [of cfg n_layer] c by (auto simp: as_def Let_def result_bind_Inr)
  then have "pc_microbatches cfg * length as * 2 \<le> usize_max" using events_fit by blast
  moreover have "length as = virtual_stages cfg" using plan_table(2) [OF _ _ as_def] c by simp
  ultimately show ?R using c by simp
next
  assume ?R
  then show "\<exists>plan. build_pipeline_plan n_layer cfg = Inr plan" by (rule plan_exists)
qed

lemma plan_valid:
  assumes "build_pipeline_plan n_layer cfg = Inr plan"
  shows "stage_table (pc_stage_count cfg) (pc_stage_count cfg * pc_virtual_stages_per_rank cfg) (pl_stage_assignments plan)
    \<and> divided n_layer (pc_stage_count cfg * pc_virtual_stages_per_rank cfg) (map sa_layer_range (pl_stage_assignments plan))
    \<and> schedule_ok (pc_stage_count cfg) (pc_microbatches cfg) (pc_stage_count cfg * pc_virtual_stages_per_rank cfg) (pl_events plan)
    \<and> (\<exists>ticks\<ge>pc_microbatches cfg * pc_virtual_stages_per_rank cfg * 2.
         mt_total_ticks (pl_metrics plan) = ticks \<and> set (map ev_tick (pl_events plan)) = {..<ticks}
         \<and> mt_stage_busy_ticks (pl_metrics plan) = replicate (pc_stage_count cfg) (pc_microbatches cfg * pc_virtual_stages_per_rank cfg * 2)
         \<and> mt_stage_idle_ticks (pl_metrics plan)
             = replicate (pc_stage_count cfg) (ticks - pc_microbatches cfg * pc_virtual_stages_per_rank cfg * 2))"
proof -
  let ?k = "virtual_stages cfg"
  note c = plan_conditions [OF assms]
  define as where "as = partition_loop (pc_stage_count cfg) (n_layer div ?k) (n_layer mod ?k) [0..<?k] 0"
  obtain events where events: "build_pipeline_events (pc_stage_count cfg) as (pc_microbatches cfg) (pc_schedule cfg) = Inr events"
    and plan: "pl_stage_assignments plan = as" "pl_events plan = events" "pl_metrics plan = build_pipeline_metrics (pc_stage_count cfg) events"
    using assms plan_steps [of cfg n_layer] c by (auto simp: as_def Let_def result_bind_Inr)
  have small: "?k \<le> usize_max" and stages: "0 < pc_stage_count cfg" and pos: "0 < pc_microbatches cfg" "0 < pc_virtual_stages_per_rank cfg"
    using c by blast+
  note table = plan_table [OF small stages as_def]
  have "pc_microbatches cfg * ?k * 2 \<le> usize_max" using events_fit [OF events] table(2) by simp
  then have ok: "schedule_ok (pc_stage_count cfg) (pc_microbatches cfg) ?k events"
    using build_events_total [OF table stages, of "pc_microbatches cfg" "pc_schedule cfg"] events by auto
  have "divided n_layer ?k (map sa_layer_range as)"
    unfolding as_def partition_loop_ranges using pos stages by (intro split_loop_divided) simp
  then show ?thesis unfolding plan using table(1) ok metrics_balance [OF ok stages pos] by blast
qed

text \<open>C40: a plan is a valid pipeline schedule. The layers are divided over the virtual stages in consecutive ranges whose sizes
  differ by one at most, virtual stages go to the physical ones in turn, and the events run every forward and backward
  pass of every microbatch once, on the stage that holds its layers, at a later tick than the passes it needs, one pass
  at most for each physical stage and tick. Every physical stage is busy for the same number of ticks and idle for the rest.\<close>
theorem plans_are_valid_schedules:
  assumes "build_pipeline_plan n_layer cfg = Inr plan"
  shows "stage_table (pc_stage_count cfg) (pc_stage_count cfg * pc_virtual_stages_per_rank cfg) (pl_stage_assignments plan)
    \<and> divided n_layer (pc_stage_count cfg * pc_virtual_stages_per_rank cfg) (map sa_layer_range (pl_stage_assignments plan))
    \<and> schedule_ok (pc_stage_count cfg) (pc_microbatches cfg) (pc_stage_count cfg * pc_virtual_stages_per_rank cfg) (pl_events plan)
    \<and> (\<exists>ticks\<ge>pc_microbatches cfg * pc_virtual_stages_per_rank cfg * 2.
         mt_total_ticks (pl_metrics plan) = ticks \<and> set (map ev_tick (pl_events plan)) = {..<ticks}
         \<and> mt_stage_busy_ticks (pl_metrics plan) = replicate (pc_stage_count cfg) (pc_microbatches cfg * pc_virtual_stages_per_rank cfg * 2)
         \<and> mt_stage_idle_ticks (pl_metrics plan)
             = replicate (pc_stage_count cfg) (ticks - pc_microbatches cfg * pc_virtual_stages_per_rank cfg * 2))"
  by (rule plan_valid [OF assms])

text \<open>A pipeline of two stages and two microbatches.\<close>

definition sample_pipeline :: pipeline_config where
  "sample_pipeline =
     \<lparr> pc_enabled = True, pc_stage_count = 2, pc_virtual_stages_per_rank = 1, pc_schedule = Interleaved1f1b, pc_microbatches = 2,
       pc_partition = LayerContiguous, pc_activation_checkpointing = False, pc_shared_weight_sync = AllReducePerStep,
       pc_communication = ActivationTensor,
       pc_cache = \<lparr> ca_enabled = False, ca_policy = CacheDisabled, ca_reuse_across_backward = True,
         ca_max_inflight_microbatches = 1, ca_eviction = StepBoundary, ca_transport_dtype = TransportAuto \<rparr> \<rparr>"

lemma sample_plan: "\<exists>plan. build_pipeline_plan 3 sample_pipeline = Inr plan"
  by (rule plan_exists) (simp add: sample_pipeline_def usize_max_def)

theorem plans_are_valid_schedules_witness:
  "\<exists>plan. build_pipeline_plan 3 sample_pipeline = Inr plan
    \<and> schedule_ok 2 2 2 (pl_events plan) \<and> divided 3 2 (map sa_layer_range (pl_stage_assignments plan))"
proof -
  obtain plan where plan: "build_pipeline_plan 3 sample_pipeline = Inr plan" using sample_plan by blast
  show ?thesis using plan plans_are_valid_schedules [OF plan] by (intro exI [of _ plan]) (simp add: sample_pipeline_def)
qed

text \<open>Every rank gets its own stages and events: the workload of a physical stage holds exactly the virtual stages that fall to
  it, and its forward and backward passes are each stage once for every microbatch.\<close>
theorem rank_workloads_cover_their_stages:
  assumes "build_pipeline_plan n_layer cfg = Inr plan" and "p < pc_stage_count cfg"
  shows "length (rw_forward_events (build_pipeline_rank_workload plan rank p replica))
      + length (rw_backward_events (build_pipeline_rank_workload plan rank p replica))
      = pc_microbatches cfg * pc_virtual_stages_per_rank cfg * 2
    \<and> (\<forall>a\<in>set (pl_stage_assignments plan).
         a \<in> set (rw_stage_assignments (build_pipeline_rank_workload plan rank p replica)) \<longleftrightarrow> sa_virtual_stage_id a mod pc_stage_count cfg = p)"
proof -
  note valid = plan_valid [OF assms(1)]
  have split: "length (filter (\<lambda>e. ev_kind e = ForwardEvent) es) + length (filter (\<lambda>e. ev_kind e = BackwardEvent) es) = length es" for es :: "schedule_event list"
    by (induction es) (auto intro: event_kind.exhaust)
  have "sa_physical_stage_id a = sa_virtual_stage_id a mod pc_stage_count cfg" if "a \<in> set (pl_stage_assignments plan)" for a
    using stage_table_member [OF _ that] valid by blast
  moreover have "length (filter (\<lambda>e. ev_physical_stage_id e = p) (pl_events plan)) = pc_microbatches cfg * pc_virtual_stages_per_rank cfg * 2"
    using stage_load [OF _ assms(2)] valid by blast
  ultimately show ?thesis
    using split
    by (simp add: build_pipeline_rank_workload_def stage_assignments_for_physical_stage_def forward_events_for_physical_stage_def
        backward_events_for_physical_stage_def events_for_physical_stage_def del: filter_filter)
qed

theorem rank_workloads_cover_their_stages_witness:
  "\<exists>plan. build_pipeline_plan 3 sample_pipeline = Inr plan
    \<and> length (rw_forward_events (build_pipeline_rank_workload plan 0 1 0))
      + length (rw_backward_events (build_pipeline_rank_workload plan 0 1 0)) = 4"
proof -
  obtain plan where plan: "build_pipeline_plan 3 sample_pipeline = Inr plan" using sample_plan by blast
  show ?thesis
    using plan rank_workloads_cover_their_stages [OF plan, of 1 0 0] by (intro exI [of _ plan]) (simp add: sample_pipeline_def)
qed

text \<open>A batch is split evenly: there is a microbatch range for each microbatch, they follow each other over the whole batch, and
  their sizes differ by one at most; it fails only without microbatches or with fewer items than microbatches.\<close>
theorem microbatches_divide_the_batch:
  "(case split_microbatch_ranges total_items n of Inr ranges \<Rightarrow> divided total_items n ranges \<and> 0 < n \<and> n \<le> total_items
    | Inl _ \<Rightarrow> n = 0 \<or> total_items < n)"
  by (simp add: split_microbatch_ranges_def split_loop_divided)

end
