(* ===== verification/Spec2Isabelle.thy ===== *)
theory Spec2Isabelle
  imports Ruliad_Kernel_Properties Ruliad_Stream_Properties Ruliad_Wire_Properties
    Ruliad_Category_Properties Ruliad_Generator_Properties Ruliad_Config_Properties
    Ruliad_Policy_Properties Ruliad_Oracle_Properties Ruliad_Tokenizer_Properties Ruliad_Supervision_Properties
    Checkpoint_Parts_Properties Checkpoint_Bootstrap_Properties Checkpoint_Export_Properties Checkpoint_Runs_Properties
    Pipeline_Properties
begin

text \<open>
  burn_dragon trains a language model on corpora whose samples are checked by programs. This
  development models three parts of the repository: the planner of pipelined training in the crate
  burn_dragon_train, the files a trained model is kept in, the crate burn_dragon_checkpoint, and the part that decides what is correct, the Ruliad source of
  the crate burn_dragon_universality (crates/burn_dragon_universality/src/ruliad). A corpus
  configuration (config.rs) names families of tasks; generators draw problems from a seeded random
  generator (rng.rs), among them formal proof problems (formal.rs) in a first-order rewriting IR
  (ir/mod.rs) and finite categories (category.rs); a replay kernel (kernel.rs) accepts or refuses
  proof certificates; a task world (world) exposes its transitions to a learner; a policy (policy.rs) offers menus of verified actions and rolls them out; and two encodings
  (wire.rs) carry problems and certificates to the model and back. The sample oracles (oracles.rs) draw a sample of the
  family a configuration names and verify it before it is written. A tokenizer (tokenize.rs) lays the
  text of a sample out as a document of tokens, and the supervision (supervision.rs) weighs the targets
  of a training window. A checkpoint is a burnpack, a file of tensors, which is split into parts of a
  bounded size with a manifest beside it, found again under the names of a path policy, and loaded part
  by part (parts.rs, policy.rs); a burnpack that is not in the cache is downloaded (bootstrap.rs), its
  floats are converted to another precision (precision.rs), a model is exported with its parts (bundle.rs), and
  a run directory resolves to its latest checkpoint (run.rs). For training over several stages, the planner
  (planner/plan.rs) divides the layers over virtual stages and simulates the order of all passes.

  Theories, in the order of their imports:
  \<^item> \<open>Ruliad_Prelude\<close>: results, outcomes (a return, an error or a panic), loops that may
    panic, saturating arithmetic on 64-bit sizes, decimal and separator text, white space, and the
    interfaces \<open>codec\<close> and \<open>canonical_codec\<close> of an encoding.
  \<^item> \<open>Ruliad_IR\<close> (ir/mod.rs): the records and datatypes of terms, problems and
    certificates, their methods, the dependency closure with its termination proof.
  \<^item> \<open>Ruliad_Kernel\<close> (kernel.rs): validation, matching, rewriting at a path, the goal
    transition kernel, the replay of a certificate into a report, the complexity vector.
  \<^item> \<open>Ruliad_Validate\<close>, \<open>Ruliad_Matching\<close>, \<open>Ruliad_Replay\<close>: what each of these
    computes. \<open>wf_problem\<close> is the well-formedness that validation decides;
    \<open>proof_steps\<close> is the step relation of the proof system, an inductive predicate, and
    \<open>certificate_proves\<close> the certificates it accepts.
  \<^item> \<open>Ruliad_Soundness\<close>: the interface \<open>equational_theory\<close>, what a relation must satisfy for
    rewriting to stay inside it, with its two providers: derivability from the axioms and
    validity in an algebra.
  \<^item> \<open>Ruliad_World\<close> (world): difficulty vectors under the interface
    \<open>pareto_order\<close>, and the trait RuliadTaskGraph as the interface \<open>task_graph\<close>, which
    the formal proof world provides.
  \<^item> \<open>Ruliad_Rng\<close>, \<open>Ruliad_Eca\<close> (rng.rs, eca.rs): SplitMix64 on 64-bit words, with
    the termination of rejection sampling, and elementary cellular automata on bytes.
  \<^item> \<open>Ruliad_Wire\<close>, \<open>Ruliad_Wire_Proofs\<close>, \<open>Ruliad_Wire_Text\<close> (wire.rs): the
    tables of shared nodes with the invariant of the interner, and the text of actions and
    certificates with its decoders, as interpretations of the codec interfaces.
  \<^item> \<open>Ruliad_Config\<close> (config.rs): labels, semantics, configuration records and validation.
  \<^item> \<open>Ruliad_Category\<close>, \<open>Ruliad_Category_Laws\<close>, \<open>Ruliad_Category_Gen\<close>
    (category.rs, the category branch of the oracle in oracles.rs): checkers of tables, the
    interfaces \<open>small_category\<close> and \<open>endofunctor\<close>, and the generated thin categories
    that provide them.
  \<^item> \<open>Ruliad_Formal\<close>, \<open>Ruliad_Formal_Draft\<close>, \<open>Ruliad_Formal_Alpha\<close>,
    \<open>Ruliad_Formal_Bundle\<close> (formal.rs): the generator of proof problems; the invariant of the draft
    of goals and certificates it grows, the renaming of symbols, and the accepted bundle.
  \<^item> \<open>Ruliad_Policy\<close>, \<open>Ruliad_Policy_Menu\<close>, \<open>Ruliad_Policy_State\<close>, \<open>Ruliad_Policy_Oracle\<close>
    (policy.rs): menus of candidate actions at a proof state, their rotations as the interface
    \<open>cyclic_action\<close>, the policy state as a transition system \<open>policy_reaches\<close> with its invariant, the
    rollout, and the states and menus an accepted certificate gives.
  \<^item> \<open>Ruliad_Oracle\<close>, \<open>Ruliad_Oracle_Gen\<close> (oracles.rs): the samples of the ten families, the
    verifier \<open>verify_spec\<close>, and the generators with their retries, the scaling of a family with the
    difficulty, and \<open>generate_sample\<close>. \<open>Ruliad_Oracle_Laws\<close>: primality, the leftmost redex and the f32
    comparison behind them. \<open>Ruliad_Oracle_Draws\<close>, \<open>Ruliad_Oracle_Formal\<close>: each draw is accepted, under
    the interface \<open>verified_draws\<close>. \<open>Ruliad_Oracle_Sample\<close>: tickets, scaling, seeds, whole samples.
  \<^item> \<open>Ruliad_Tokenizer\<close>, \<open>Ruliad_Tokenizer_Proofs\<close> (tokenize.rs): the modes, the scans of a
    text and the documents; the interfaces \<open>token_alphabet\<close> and \<open>lexeme_alphabet\<close>, what a mode
    promises of its tokens, under which the scans are shown to return tokens of the vocabulary.
  \<^item> \<open>Ruliad_Supervision\<close>, \<open>Ruliad_Supervision_Proofs\<close> (supervision.rs): the weights of a window as
    a scan with an explicit state, with what the scan can write, the runs that are masked
    (\<open>hex_run\<close>) and the masses after balancing.
  \<^item> \<open>Checkpoint_Files\<close>: paths as \<open>std::path\<close> reads them, a file system as a map from paths, and the
    path policy (policy.rs). \<open>Checkpoint_Pack\<close> (parts.rs): the burnpack format, grouping the tensors,
    writing a part; \<open>Checkpoint_Pack_Proofs\<close>: the abstract contents \<open>pack_view\<close> of a burnpack, a map
    from names to typed bytes, and the layout of a written part as blocks at ascending offsets.
    \<open>Checkpoint_Parts\<close> (parts.rs): the manifest, writing, keeping and checking parts, and loading them;
    \<open>Checkpoint_Parts_Proofs\<close>, \<open>Checkpoint_Disk\<close>: the invariant \<open>parts_on_disk\<close> a new split establishes and
    what the other operations do under it. \<open>Checkpoint_Samples\<close>: a burnpack of one tensor.
    \<open>Checkpoint_Bootstrap\<close> (bootstrap.rs): addresses, downloads as requests to a numbered network, and the
    candidates. \<open>Checkpoint_Precision\<close>, \<open>Checkpoint_Precision_Proofs\<close> (precision.rs): the conversion, tensor by
    tensor, over the same layout. \<open>Checkpoint_Export\<close> (bundle.rs), \<open>Checkpoint_Runs\<close> (run.rs).
  \<^item> \<open>Pipeline_Plan\<close> (planner/plan.rs, planner/types.rs), \<open>Pipeline_Plan_Proofs\<close>: the planner as a loop over
    tables of finished passes; \<open>needs\<close> names the passes a pass waits for, \<open>partial_schedule\<close> is the invariant
    of the loop, and \<open>some_task\<close> the progress that excludes a deadlock.
  \<^item> \<open>Ruliad_Samples\<close> and the theories ending in \<open>Properties\<close>: the properties of the
    components, instantiated on small problems. This theory has the properties that join them.

  Conventions. A \<open>usize\<close> is a natural number with the bound \<open>usize_max\<close> of 64 bits written
  where the code saturates or parses; \<open>u64\<close>, \<open>u32\<close> and \<open>u8\<close> are words. A
  \<open>Result\<close> is a sum with the error on the left, an index read that may panic an option or an
  outcome, a \<open>BTreeMap\<close> or \<open>HashMap\<close> a partial map, a \<open>BTreeSet\<close> a set. Strings are
  lists of bytes. Mutation is explicit: functions return the changed state. Loops are recursive
  functions; none needs fuel, for each has a termination proof (the dependency walk over the goals not
  yet visited, rejection sampling over the distance of the state to zero, the balanced
  composition over the length of the frontier). The search of a prime may run for ever and is a
  partial function into options, with the theorem that says when it returns.

  Parameters. The canonical hash of a problem (serde_json and SHA-256) is the argument \<open>hash\<close>,
  the JSON of the wire tables the arguments \<open>to_json\<close> and \<open>from_json\<close>, the debug text of a
  failure the argument \<open>debug\<close>; the oracles take these with SHA-256 and the hex crate in the record
  \<open>oracle_services\<close>. The laws assumed of them, where they are needed, are that hashing
  succeeds and that decoding hexadecimal text inverts encoding. The checkpoints take CBOR, JSON and
  SHA-256 in the record \<open>pack_services\<close> and the store that applies tensors to a model as an argument; the
  laws assumed (\<open>services_lawful\<close>) are that decoding inverts encoding, that decoded tables are in the order of
  their keys, and that a digest is visible text. The tensors of a burnpack, each with its alignment, are
  taken to be below 2^62 bytes (\<open>spans_fit\<close>). The network
  answers by the number of the request, the element types are read, written and converted by
  \<open>dtype_services\<close> (\<open>dtype_lawful\<close>: the float types are the five the code names), the listing of a directory and the clock are arguments. Files are byte lists
  and so are their names: the fall-back of parts.rs to the name model.bpk for a name that is not UTF-8 is not
  modelled. Links, permissions, a full disk, other processes and the resolution of \<open>..\<close> are not modelled.

  Not modelled. Memory and stack limits: the recursions of the code over terms and dependencies are
  taken to return. Floats: they are read in the configuration as the rationals they stand for
  and compared; the float metrics, samplers and thresholds computed from them are left out, as
  are next_f32 and proof_progress. Of the oracles the
  document texts, the categorical presentation and the statistics of a sample are not modelled.
  The search, source selection and evaluation modules of the crate and the manifest
  verification are not modelled yet. The other crates are tensor programs on the burn
  framework, which is not part of the repository, GPU kernels, networking, browser interfaces and
  release scripts; their own bookkeeping (batch scheduling, the simulated communication cache of the planner) is not modelled. Of the
  checkpoint crate, messages, timeouts and waiting are not modelled.
\<close>

section \<open>Configuration and generation together\<close>

text \<open>C23: a validated configuration generates accepted samples. When the corpus configuration passes validation, its
  weights do not overflow, its formal tasks exclude action menus and its ranges stay in the domain
  of the generators, then for every split, epoch and sample number \<open>generate_sample\<close> returns a sample,
  of whichever family is drawn, and the verifier accepts it: no draw fails, panics or runs for
  ever. (Hashing and serialising are assumed to succeed, and hexadecimal text to decode.)\<close>
theorem validated_configuration_generates_samples:
  assumes "validate_corpus config = Inr ()" and "services_ok env" and "draws_bounded config proof_tasks"
  shows "\<exists>s report. generate_sample env config proof_tasks split epoch sample = Some (Returned (s, report))
    \<and> spec_ok env s = Some True \<and> rep_ok report"
  using assms by (rule generate_sample_accepted)

definition sample_corpus :: corpus_config where
  "sample_corpus =
     \<lparr> cc_output_dir = ''out'', cc_seed = 1, cc_name = ''demo'', cc_train_samples = 8, cc_validation_samples = 2,
       cc_chunk_token_capacity = 1024, cc_serialization = default_serialization_config,
       cc_tokenization = default_tokenization_config, cc_formal_generalization = SeedDisjointV1,
       cc_source_selection =
         \<lparr> ss_enabled = False, ss_feedback_updates_enabled = True, ss_frontier_min_coverage = Finite 1,
           ss_capability_mastery =
             \<lparr> mt_minimum_items = 16, mt_confidence_z = Finite 1, mt_verifier_min = Finite 0,
               mt_completion_health_min = Finite 0, mt_schema_wrong_max = Finite 1, mt_malformed_max = Finite 1,
               mt_missing_max = Finite 1 \<rparr>,
           ss_difficulty_levels = \<lparr> range_min = 0, range_max = 0 \<rparr>,
           ss_frontier_extension =
             \<lparr> fe_enabled = False, fe_levels_per_extension = 8, fe_normalized_difficulty = Finite 1,
               fe_max_difficulty_probability = Finite 1, fe_max_materialized_levels = 0 \<rparr>,
           ss_cold_start =
             \<lparr> cs_enabled = False, cs_max_difficulty_level = 2, cs_hold_steps = 1024, cs_ramp_steps = 8192,
               cs_release_requires_mastery = False, cs_min_feedback_count = 1, cs_verifier_min = Finite 0,
               cs_completion_health_min = Finite 0, cs_schema_wrong_max = Finite 1, cs_malformed_max = Finite 1,
               cs_missing_max = Finite 1 \<rparr>,
           ss_formal_task_mix = default_formal_task_mix \<rparr>,
       cc_families = default_ruliad_families @ formal_ruliad_families, cc_proof_tasks = None, cc_lean_task_limit = None \<rparr>"

definition sample_services :: oracle_services where
  "sample_services =
     \<lparr> os_sha = (\<lambda>_. ''h''), os_hex_encode = map (\<lambda>b. char_of (unat b)), os_hex_decode = (\<lambda>s. Some (bytes_of s)),
       os_json_hash = (\<lambda>_. Inr ''j''), os_problem_hash = sample_hash, os_debug = (\<lambda>_. []) \<rparr>"

lemma sample_services_ok: "services_ok sample_services"
proof -
  have "(of_char (char_of (unat b)) :: u8) = b" for b :: u8
  proof -
    have "(of_char (char_of (unat b)) :: u8) = of_nat (of_char (char_of (unat b)))" by (simp only: of_nat_of_char)
    also have "\<dots> = of_nat (unat b mod 256)" by simp
    also have "unat b mod 256 = unat b" using unsigned_less [of b, where 'a = nat] by simp
    finally show ?thesis by simp
  qed
  then show ?thesis by (simp add: services_ok_def sample_services_def sample_hash_def bytes_of_def comp_def)
qed

lemma sample_corpus_valid: "validate_corpus sample_corpus = Inr ()"
proof -
  have "str_trim ''demo'' \<noteq> []" by (simp add: str_trim_graphic_all graphic_def)
  then show ?thesis
    using built_in_families_ok
    by (simp add: formal_ruliad_families_def validate_corpus_Inr corpus_ok_def source_selection_ok_def sample_corpus_def
        range_ok_def default_serialization_config_def
        default_tokenization_config_def default_formal_task_mix_def formal_task_weight_def sat_add_def usize_max_def
        in_unit_interval_def finite_non_negative_def eos_in_vocab_def)
qed

lemma sample_corpus_bounded: "draws_bounded sample_corpus []"
proof -
  have "draws_supported sample_corpus family" if "family \<in> set (default_ruliad_families @ formal_ruliad_families)" for family
    using that
    by (auto simp: default_ruliad_families_def formal_ruliad_families_def draws_supported_def sample_corpus_def
        family_of_def usize_range_of_def range_fits_def family_fits_def scale_family_for_difficulty_def usize_max_def)
  then show ?thesis
    by (simp add: draws_bounded_def sample_corpus_def default_ruliad_families_def formal_ruliad_families_def
        family_of_def usize_range_of_def default_formal_task_mix_def formal_task_weights_def usize_max_def)
qed

theorem validated_configuration_generates_samples_witness:
  "\<exists>s report. generate_sample sample_services sample_corpus [] ValidationSplit 0 5 = Some (Returned (s, report)) \<and> rep_ok report"
  using validated_configuration_generates_samples [OF sample_corpus_valid sample_services_ok sample_corpus_bounded] by blast

end
